(* ===== verification/Codec.thy ===== *)
theory Codec
  imports Prelude
begin

text \<open>
  The contract of a wire format as its users see it: a writer, a reader that consumes a prefix of
  its input, and the messages for which reading gives back what was written. What a peer relies on
  (no two messages share an encoding, a stream of messages splits in one way only, reading a stream
  gives the messages that were written) is proved once here and used through the interpretations in
  the theories of the formats: the carrier frames (\<open>Wire\<close>) and the proxy messages
  (\<open>Proxy_Message\<close>).
\<close>

fun read_many :: "(byte list \<Rightarrow> ('m \<times> byte list) option) \<Rightarrow> nat \<Rightarrow> byte list
    \<Rightarrow> ('m list \<times> byte list) option" where
  "read_many rd 0 bs = Some ([], bs)"
| "read_many rd (Suc n) bs =
     (case rd bs of None \<Rightarrow> None
      | Some (m, rest) \<Rightarrow> map_option (\<lambda>(ms, r). (m # ms, r)) (read_many rd n rest))"

locale codec =
  fixes wr :: "'m \<Rightarrow> byte list"
    and rd :: "byte list \<Rightarrow> ('m \<times> byte list) option"
    and wf :: "'m \<Rightarrow> bool"
  assumes rd_wr: "wf m \<Longrightarrow> rd (wr m @ rest) = Some (m, rest)"
begin

lemma wr_splits_uniquely:
  assumes "wf m" and "wf m'" and "wr m @ r = wr m' @ r'"
  shows "m = m' \<and> r = r'"
proof -
  have "Some (m, r) = rd (wr m' @ r')" using rd_wr [OF assms(1), of r] assms(3) by metis
  also have "\<dots> = Some (m', r')" by (rule rd_wr [OF assms(2)])
  finally show ?thesis by simp
qed

lemma wr_inj: "wf m \<Longrightarrow> wf m' \<Longrightarrow> wr m = wr m' \<Longrightarrow> m = m'"
  by (metis wr_splits_uniquely)

lemma read_many_wr:
  "list_all wf ms \<Longrightarrow>
   read_many rd (length ms) (concat (map wr ms) @ rest) = Some (ms, rest)"
  by (induction ms) (simp_all add: rd_wr)

end

text \<open>A format is canonical when whatever its reader accepts is what the writer would have sent.\<close>

locale canonical_codec = codec wr rd wf
  for wr :: "'m \<Rightarrow> byte list"
    and rd :: "byte list \<Rightarrow> ('m \<times> byte list) option"
    and wf :: "'m \<Rightarrow> bool" +
  assumes wr_rd: "rd bs = Some (m, rest) \<Longrightarrow> wf m \<and> bs = wr m @ rest"
begin

lemma rd_iff: "rd bs = Some (m, rest) \<longleftrightarrow> wf m \<and> bs = wr m @ rest"
  using wr_rd rd_wr by blast

lemma rd_consumes: "rd bs = Some (m, rest) \<Longrightarrow> length bs = length (wr m) + length rest"
  by (simp add: rd_iff)

lemma read_many_iff:
  "read_many rd n bs = Some (ms, rest) \<longleftrightarrow>
   length ms = n \<and> list_all wf ms \<and> bs = concat (map wr ms) @ rest"
proof (induction n arbitrary: bs ms)
  case 0
  then show ?case by auto
next
  case (Suc n)
  show ?case
  proof (cases "rd bs")
    case None
    then have "bs \<noteq> wr m @ r" if "wf m" for m r using rd_wr [OF that] by auto
    with None show ?thesis by (cases ms) auto
  next
    case (Some p)
    then obtain m rest' where bs: "rd bs = Some (m, rest')" by (cases p) auto
    then have m: "wf m" "bs = wr m @ rest'" using wr_rd by blast+
    show ?thesis
    proof (cases ms)
      case Nil
      with bs show ?thesis by auto
    next
      case (Cons m' ms')
      have "m = m' \<and> rest' = concat (map wr ms') @ rest"
        if "wf m'" "bs = wr m' @ concat (map wr ms') @ rest"
        using wr_splits_uniquely [OF m(1) that(1)] m(2) that(2) by metis
      with Cons bs m show ?thesis by (auto simp: Suc.IH)
    qed
  qed
qed

end

text \<open>
  A reader of whole buffers that takes a message from the front and ignores what follows. A buffer in
  memory has fewer than \<open>2 ^ 64\<close> bytes.
\<close>

locale buffer_codec =
  fixes wr :: "'m \<Rightarrow> byte list"
    and rd :: "byte list \<Rightarrow> 'e + 'm"
    and wf :: "'m \<Rightarrow> bool"
  assumes rd_iff: "length bs < 2 ^ 64 \<Longrightarrow> rd bs = Inr m \<longleftrightarrow> wf m \<and> (\<exists>rest. bs = wr m @ rest)"
    and wr_short: "wf m \<Longrightarrow> length (wr m) < 2 ^ 63"
begin

lemma rd_wr: "wf m \<Longrightarrow> length rest < 2 ^ 63 \<Longrightarrow> rd (wr m @ rest) = Inr m"
  using wr_short [of m] by (subst rd_iff) auto

lemma wr_inj: "wf m \<Longrightarrow> wf m' \<Longrightarrow> wr m = wr m' \<Longrightarrow> m = m'"
  using rd_wr [of m "[]"] rd_wr [of m' "[]"] by simp

lemma prefix_free: "wf m \<Longrightarrow> wf m' \<Longrightarrow> wr m = wr m' @ rest \<Longrightarrow> m = m' \<and> rest = []"
proof -
  assume m: "wf m" "wf m'" "wr m = wr m' @ rest"
  then have "length rest < 2 ^ 63" using wr_short [of m] by auto
  then have "rd (wr m) = Inr m'" using rd_wr [OF m(2)] m(3) by simp
  with rd_wr [OF m(1), of "[]"] have "m = m'" by simp
  with m(3) show ?thesis by simp
qed

lemma truncated: "wf m \<Longrightarrow> n < length (wr m) \<Longrightarrow> \<exists>e. rd (take n (wr m)) = Inl e"
proof (cases "rd (take n (wr m))")
  case (Inr m')
  assume m: "wf m" "n < length (wr m)"
  then have "length (take n (wr m)) < 2 ^ 64" using wr_short [OF m(1)] by auto
  with Inr rd_iff obtain rest where m': "wf m'" "take n (wr m) = wr m' @ rest" by blast
  then have "wr m = wr m' @ rest @ drop n (wr m)" by (metis append.assoc append_take_drop_id)
  from prefix_free [OF m(1) m'(1) this] m(2) show ?thesis by simp
qed simp

end

end
