(* ===== verification/Wire.thy ===== *)
theory Wire
  imports Codec
begin

text \<open>
  The carrier plane of \<open>dr-dsh-proto\<close>: the constants of \<open>lib.rs\<close>, the frame header, the frame
  types, the protocol errors of \<open>error.rs\<close>, and \<open>encode\<close> and \<open>decode\<close> of \<open>frame.rs\<close>.

  \<open>decode\<close> is generic over \<open>bytes::Buf\<close>, which is code outside the repository: its operations are
  a record argument, and \<open>buf_contract\<close> states what the crate documents of them. Every caller in
  the repository decodes from a byte slice; \<open>slice_buf\<close> is that instance.
\<close>

section \<open>Constants\<close>

definition WIRE_MAJOR :: u16 where "WIRE_MAJOR = 0"
definition WIRE_MINOR :: u16 where "WIRE_MINOR = 1"
definition WIRE_VERSION :: "u16 \<times> u16" where "WIRE_VERSION = (WIRE_MAJOR, WIRE_MINOR)"
definition FRAME_HEADER_LEN :: nat where "FRAME_HEADER_LEN = 18"
definition MAX_PAYLOAD_LEN :: u32 where "MAX_PAYLOAD_LEN = 64 * 1024"
definition FRAME_MAGIC :: "byte list" where "FRAME_MAGIC = as_bytes ''DR''"
definition SESSION_OVER :: string where "SESSION_OVER = ''session over''"
definition CONTROL_STREAM_ID :: u32 where "CONTROL_STREAM_ID = 0"
definition INITIAL_WINDOW :: u32 where "INITIAL_WINDOW = 256 * 1024"
definition MAX_CONCURRENT_STREAMS :: u32 where "MAX_CONCURRENT_STREAMS = 64"
definition MAX_DEVICES_PER_ROOM :: u32 where "MAX_DEVICES_PER_ROOM = 16"

lemma FRAME_MAGIC_bytes [code_unfold]: "FRAME_MAGIC = [68, 82]"
  by (simp add: FRAME_MAGIC_def as_bytes_def byte_of_char_def of_char_def)

lemma length_FRAME_MAGIC [simp]: "length FRAME_MAGIC = 2"
  by (simp add: FRAME_MAGIC_bytes)

lemma unat_MAX_PAYLOAD_LEN [simp]: "unat MAX_PAYLOAD_LEN = 65536"
  by (simp add: MAX_PAYLOAD_LEN_def)

section \<open>Frame types, headers and errors\<close>

datatype frame_type =
    Open | OpenAck | OpenReject | Data | Fin | Reset | WindowUpdate | Ping | Pong | GoAway

fun frame_type_as_u16 :: "frame_type \<Rightarrow> u16" where
  "frame_type_as_u16 Open = 0x0001"
| "frame_type_as_u16 OpenAck = 0x0002"
| "frame_type_as_u16 OpenReject = 0x0003"
| "frame_type_as_u16 Data = 0x0010"
| "frame_type_as_u16 Fin = 0x0011"
| "frame_type_as_u16 Reset = 0x0012"
| "frame_type_as_u16 WindowUpdate = 0x0020"
| "frame_type_as_u16 Ping = 0x0030"
| "frame_type_as_u16 Pong = 0x0031"
| "frame_type_as_u16 GoAway = 0x007f"

datatype proto_error =
    VersionMismatch (peer: u16) (ours: u16)
  | BadMagic
  | PayloadTooLarge (declared: u32) (max_len: u32)
  | UnknownStream (unknown_stream_id: u32)
  | TooManyStreams (max_streams: u32)
  | WindowOverrun (overrun: u32)
  | Control (control_message: string)

record frame_header =
  fh_version :: "u16 \<times> u16"
  fh_frame_type :: frame_type
  fh_flags :: u16
  fh_stream_id :: u32
  fh_payload_len :: u32

record frame =
  fr_header :: frame_header
  fr_payload :: "byte list"

text \<open>The \<open>:04x\<close> of the format string: four lower-case hexadecimal digits.\<close>

definition hex_digit :: "nat \<Rightarrow> char" where
  "hex_digit d = (''0123456789abcdef'' ! (d mod 16))"

definition hex4 :: "u16 \<Rightarrow> string" where
  "hex4 w = map (\<lambda>i. hex_digit (unat w div 16 ^ i)) [3, 2, 1, 0]"

definition frame_type_from_u16 :: "u16 \<Rightarrow> proto_error + frame_type" where
  "frame_type_from_u16 v =
     (if v = 0x0001 then Inr Open else if v = 0x0002 then Inr OpenAck
      else if v = 0x0003 then Inr OpenReject else if v = 0x0010 then Inr Data
      else if v = 0x0011 then Inr Fin else if v = 0x0012 then Inr Reset
      else if v = 0x0020 then Inr WindowUpdate else if v = 0x0030 then Inr Ping
      else if v = 0x0031 then Inr Pong else if v = 0x007f then Inr GoAway
      else Inl (Control (''unknown frame type 0x'' @ hex4 v)))"

lemma frame_type_from_as_u16 [simp]: "frame_type_from_u16 (frame_type_as_u16 t) = Inr t"
  by (cases t) (simp_all add: frame_type_from_u16_def)

lemma frame_type_from_u16_Inr: "frame_type_from_u16 v = Inr t \<longleftrightarrow> v = frame_type_as_u16 t"
proof
  assume "frame_type_from_u16 v = Inr t"
  then show "v = frame_type_as_u16 t"
    by (auto simp: frame_type_from_u16_def split: if_splits)
qed simp

section \<open>The buffer interface\<close>

record 'b buf_ops =
  buf_remaining :: "'b \<Rightarrow> nat"
  buf_chunk :: "'b \<Rightarrow> byte list"
  buf_advance :: "nat \<Rightarrow> 'b \<Rightarrow> 'b"
  buf_copy_to_bytes :: "nat \<Rightarrow> 'b \<Rightarrow> byte list \<times> 'b"

definition slice_buf :: "byte list buf_ops" where
  "slice_buf = \<lparr>buf_remaining = length, buf_chunk = (\<lambda>b. b), buf_advance = drop,
     buf_copy_to_bytes = (\<lambda>n b. (take n b, drop n b))\<rparr>"

text \<open>A chain of slices, the other documented kind of buffer: \<open>chunk\<close> is only its first part.\<close>

fun chain_advance :: "nat \<Rightarrow> byte list list \<Rightarrow> byte list list" where
  "chain_advance n [] = []"
| "chain_advance n (s # ss) =
     (if n < length s then drop n s # ss else chain_advance (n - length s) ss)"

definition chain_buf :: "byte list list buf_ops" where
  "chain_buf = \<lparr>buf_remaining = (\<lambda>b. length (concat b)),
     buf_chunk = (\<lambda>b. case dropWhile (\<lambda>s. s = []) b of [] \<Rightarrow> [] | s # _ \<Rightarrow> s),
     buf_advance = chain_advance,
     buf_copy_to_bytes = (\<lambda>n b. (take n (concat b), chain_advance n b))\<rparr>"

definition buf_contract :: "'b buf_ops \<Rightarrow> ('b \<Rightarrow> byte list) \<Rightarrow> bool" where
  "buf_contract ops content \<longleftrightarrow>
     (\<forall>b. buf_remaining ops b = length (content b)
        \<and> (\<exists>rest. content b = buf_chunk ops b @ rest)
        \<and> (content b \<noteq> [] \<longrightarrow> buf_chunk ops b \<noteq> [])
        \<and> (\<forall>n \<le> length (content b). content (buf_advance ops n b) = drop n (content b)
             \<and> fst (buf_copy_to_bytes ops n b) = take n (content b)
             \<and> content (snd (buf_copy_to_bytes ops n b)) = drop n (content b)))"

lemma slice_buf_contract: "buf_contract slice_buf (\<lambda>b. b)"
  by (simp add: buf_contract_def slice_buf_def)

lemma concat_chain_advance: "concat (chain_advance n b) = drop n (concat b)"
  by (induction n b rule: chain_advance.induct) auto

lemma chain_chunk_prefix:
  "\<exists>rest. concat b = buf_chunk chain_buf b @ rest" and
  chain_chunk_nonempty: "concat b \<noteq> [] \<Longrightarrow> buf_chunk chain_buf b \<noteq> []"
  by (induction b) (auto simp: chain_buf_def)

lemma chain_buf_contract: "buf_contract chain_buf concat"
  unfolding buf_contract_def
  by (intro allI conjI chain_chunk_prefix impI chain_chunk_nonempty)
    (simp_all add: chain_buf_def concat_chain_advance)

section \<open>Encoding\<close>

text \<open>\<open>encode\<close> appends to \<open>dst\<close>; a refused payload leaves it alone.\<close>

definition header_bytes :: "frame_header \<Rightarrow> u32 \<Rightarrow> byte list" where
  "header_bytes h len = FRAME_MAGIC @ put_u16 (fst (fh_version h)) @ put_u16 (snd (fh_version h))
     @ put_u16 (frame_type_as_u16 (fh_frame_type h)) @ put_u16 (fh_flags h)
     @ put_u32 (fh_stream_id h) @ put_u32 len"

definition encode :: "frame \<Rightarrow> byte list \<Rightarrow> (proto_error + nat) \<times> byte list" where
  "encode f dst =
     (let n = length (fr_payload f) in
      if 2 ^ 32 \<le> n then (Inl (PayloadTooLarge u32_max MAX_PAYLOAD_LEN), dst)
      else let len = (of_nat n :: u32) in
      if MAX_PAYLOAD_LEN < len then (Inl (PayloadTooLarge len MAX_PAYLOAD_LEN), dst)
      else (Inr (FRAME_HEADER_LEN + unat len),
            dst @ header_bytes (fr_header f) len @ fr_payload f))"

lemma length_header_bytes [simp]: "length (header_bytes h len) = FRAME_HEADER_LEN"
  by (simp add: header_bytes_def FRAME_HEADER_LEN_def)

section \<open>Decoding\<close>

text \<open>
  The indexing of \<open>chunk\<close> panics where the chunk is shorter than the header; every other exit
  before \<open>advance\<close> leaves the buffer as it was. An unknown frame type is found out after the
  frame's bytes have been consumed.
\<close>

definition sub_bytes :: "byte list \<Rightarrow> nat \<Rightarrow> nat \<Rightarrow> byte list" where
  "sub_bytes bs i n = take n (drop i bs)"

definition decode :: "'b buf_ops \<Rightarrow> 'b \<Rightarrow> ((proto_error + frame option) \<times> 'b) run" where
  "decode ops src =
     (if buf_remaining ops src < FRAME_HEADER_LEN then Done (Inr None, src)
      else let bytes = buf_chunk ops src in
      if length bytes < 2 then Panic
      else if take 2 bytes \<noteq> FRAME_MAGIC then Done (Inl BadMagic, src)
      else if length bytes < 4 then Panic
      else let major = get_u16 (sub_bytes bytes 2 2) in
      if major \<noteq> WIRE_MAJOR then Done (Inl (VersionMismatch major WIRE_MAJOR), src)
      else if length bytes < FRAME_HEADER_LEN then Panic
      else let minor = get_u16 (sub_bytes bytes 4 2);
               ftype = get_u16 (sub_bytes bytes 6 2);
               flags = get_u16 (sub_bytes bytes 8 2);
               stream_id = get_u32 (sub_bytes bytes 10 4);
               payload_len = get_u32 (sub_bytes bytes 14 4) in
      if MAX_PAYLOAD_LEN < payload_len
      then Done (Inl (PayloadTooLarge payload_len MAX_PAYLOAD_LEN), src)
      else let total = FRAME_HEADER_LEN + unat payload_len in
      if buf_remaining ops src < total then Done (Inr None, src)
      else let (payload, src') =
                 buf_copy_to_bytes ops (unat payload_len) (buf_advance ops FRAME_HEADER_LEN src) in
      (case frame_type_from_u16 ftype of
         Inl e \<Rightarrow> Done (Inl e, src')
       | Inr t \<Rightarrow> Done (Inr (Some
           \<lparr>fr_header = \<lparr>fh_version = (major, minor), fh_frame_type = t, fh_flags = flags,
              fh_stream_id = stream_id, fh_payload_len = payload_len\<rparr>,
            fr_payload = payload\<rparr>), src')))"

section \<open>Slices: the canonical codec\<close>

definition wf_frame :: "frame \<Rightarrow> bool" where
  "wf_frame f \<longleftrightarrow> fst (fh_version (fr_header f)) = WIRE_MAJOR
     \<and> length (fr_payload f) \<le> unat MAX_PAYLOAD_LEN
     \<and> fh_payload_len (fr_header f) = of_nat (length (fr_payload f))"

definition frame_wr :: "frame \<Rightarrow> byte list" where
  "frame_wr f = snd (encode f [])"

definition frame_rd :: "byte list \<Rightarrow> (frame \<times> byte list) option" where
  "frame_rd bs = (case decode slice_buf bs of Done (Inr (Some f), rest) \<Rightarrow> Some (f, rest) | _ \<Rightarrow> None)"

lemma unat_small_len: "n \<le> 65536 \<Longrightarrow> unat (of_nat n :: u32) = n"
  by (simp add: unat_of_nat)

lemma small_len_le_MAX: "n \<le> 65536 \<Longrightarrow> \<not> MAX_PAYLOAD_LEN < (of_nat n :: u32)"
  by (simp add: word_less_nat_alt unat_small_len)

lemma encode_small:
  "length (fr_payload f) \<le> 65536 \<Longrightarrow>
   encode f dst = (Inr (FRAME_HEADER_LEN + length (fr_payload f)),
     dst @ header_bytes (fr_header f) (of_nat (length (fr_payload f))) @ fr_payload f)"
  by (simp add: encode_def small_len_le_MAX unat_small_len Let_def)

lemma encode_large:
  assumes "65536 < length (fr_payload f)"
  shows "\<exists>d. encode f dst = (Inl (PayloadTooLarge d MAX_PAYLOAD_LEN), dst)"
proof (cases "2 ^ 32 \<le> length (fr_payload f)")
  case False
  then have "MAX_PAYLOAD_LEN < (of_nat (length (fr_payload f)) :: u32)"
    using assms by (simp add: word_less_nat_alt unat_of_nat)
  with False show ?thesis by (simp add: encode_def)
qed (simp add: encode_def)

lemma header_fields [codec_simps]:
  fixes h :: frame_header and len :: u32 and bs :: "byte list"
  shows "take 2 (header_bytes h len) = FRAME_MAGIC" "2 - FRAME_HEADER_LEN = 0"
    "sub_bytes (header_bytes h len @ bs) 2 2 = put_u16 (fst (fh_version h))"
    "sub_bytes (header_bytes h len @ bs) 4 2 = put_u16 (snd (fh_version h))"
    "sub_bytes (header_bytes h len @ bs) 6 2 = put_u16 (frame_type_as_u16 (fh_frame_type h))"
    "sub_bytes (header_bytes h len @ bs) 8 2 = put_u16 (fh_flags h)"
    "sub_bytes (header_bytes h len @ bs) 10 4 = put_u32 (fh_stream_id h)"
    "sub_bytes (header_bytes h len @ bs) 14 4 = put_u32 len"
  by (simp_all add: header_bytes_def sub_bytes_def FRAME_HEADER_LEN_def)

lemma take_sub_bytes: "take n bs @ sub_bytes bs n m = take (n + m) bs"
  by (simp add: sub_bytes_def take_add)

lemma length_sub_bytes: "i + n \<le> length bs \<Longrightarrow> length (sub_bytes bs i n) = n"
  by (simp add: sub_bytes_def)

text \<open>A header that passes the checks is the one that would have been written for its fields.\<close>

lemma header_bytes_of_fields:
  assumes len: "FRAME_HEADER_LEN \<le> length bs" and magic: "take 2 bs = FRAME_MAGIC"
    and ft: "get_u16 (sub_bytes bs 6 2) = frame_type_as_u16 t"
  shows "header_bytes \<lparr>fh_version = (get_u16 (sub_bytes bs 2 2), get_u16 (sub_bytes bs 4 2)),
      fh_frame_type = t, fh_flags = get_u16 (sub_bytes bs 8 2),
      fh_stream_id = get_u32 (sub_bytes bs 10 4), fh_payload_len = pl\<rparr>
      (get_u32 (sub_bytes bs 14 4)) = take FRAME_HEADER_LEN bs"
proof -
  have l: "18 \<le> length bs" using len by (simp add: FRAME_HEADER_LEN_def)
  have "put_u16 (get_u16 (sub_bytes bs i 2)) = sub_bytes bs i 2" if "i \<le> 8" for i
    using l that by (simp add: put_get_u16 length_sub_bytes)
  moreover have "put_u32 (get_u32 (sub_bytes bs i 4)) = sub_bytes bs i 4" if "i \<le> 14" for i
    using l that by (simp add: put_get_u32 length_sub_bytes)
  ultimately have "header_bytes \<lparr>fh_version = (get_u16 (sub_bytes bs 2 2), get_u16 (sub_bytes bs 4 2)),
      fh_frame_type = t, fh_flags = get_u16 (sub_bytes bs 8 2),
      fh_stream_id = get_u32 (sub_bytes bs 10 4), fh_payload_len = pl\<rparr>
      (get_u32 (sub_bytes bs 14 4))
    = take 2 bs @ sub_bytes bs 2 2 @ sub_bytes bs 4 2 @ sub_bytes bs 6 2 @ sub_bytes bs 8 2
        @ sub_bytes bs 10 4 @ sub_bytes bs 14 4"
    by (simp add: header_bytes_def magic ft [symmetric])
  also have "\<dots> = take 18 bs"
    using take_sub_bytes [of 2 bs 2] take_sub_bytes [of 4 bs 2] take_sub_bytes [of 6 bs 2]
      take_sub_bytes [of 8 bs 2] take_sub_bytes [of 10 bs 4] take_sub_bytes [of 14 bs 4]
    by (simp flip: append_assoc)
  finally show ?thesis by (simp add: FRAME_HEADER_LEN_def)
qed

text \<open>On a slice the whole of \<open>decode\<close> is a few tests of the bytes; it cannot panic.\<close>

definition slice_decode :: "byte list \<Rightarrow> (proto_error + frame option) \<times> byte list" where
  "slice_decode bs =
     (if length bs < FRAME_HEADER_LEN then (Inr None, bs)
      else if take 2 bs \<noteq> FRAME_MAGIC then (Inl BadMagic, bs)
      else if get_u16 (sub_bytes bs 2 2) \<noteq> WIRE_MAJOR
        then (Inl (VersionMismatch (get_u16 (sub_bytes bs 2 2)) WIRE_MAJOR), bs)
      else let len = get_u32 (sub_bytes bs 14 4) in
      if MAX_PAYLOAD_LEN < len then (Inl (PayloadTooLarge len MAX_PAYLOAD_LEN), bs)
      else let total = FRAME_HEADER_LEN + unat len in
      if length bs < total then (Inr None, bs)
      else (and_then (frame_type_from_u16 (get_u16 (sub_bytes bs 6 2)))
               (\<lambda>t. Inr (Some \<lparr>fr_header = \<lparr>
                  fh_version = (get_u16 (sub_bytes bs 2 2), get_u16 (sub_bytes bs 4 2)),
                  fh_frame_type = t, fh_flags = get_u16 (sub_bytes bs 8 2),
                  fh_stream_id = get_u32 (sub_bytes bs 10 4), fh_payload_len = len\<rparr>,
                  fr_payload = sub_bytes bs FRAME_HEADER_LEN (unat len)\<rparr>)),
            drop total bs))"

lemma decode_slice: "decode slice_buf bs = Done (slice_decode bs)"
  by (auto simp: decode_def slice_buf_def slice_decode_def FRAME_HEADER_LEN_def Let_def
      sub_bytes_def add.commute split: sum.splits)

lemma frame_rd_iff: "frame_rd bs = Some (f, rest) \<longleftrightarrow> slice_decode bs = (Inr (Some f), rest)"
  by (auto simp: frame_rd_def decode_slice split: sum.splits option.splits prod.splits)

lemma frame_wr_eq:
  "wf_frame f \<Longrightarrow> frame_wr f = header_bytes (fr_header f) (fh_payload_len (fr_header f)) @ fr_payload f"
  by (simp add: frame_wr_def wf_frame_def encode_small)

lemma wf_frame_len: "wf_frame f \<Longrightarrow> unat (fh_payload_len (fr_header f)) = length (fr_payload f)"
  by (simp add: wf_frame_def unat_small_len)

lemma slice_decode_wr:
  assumes wf: "wf_frame f"
  shows "slice_decode (frame_wr f @ rest) = (Inr (Some f), rest)"
proof -
  note len = wf_frame_len [OF wf]
  have "\<not> MAX_PAYLOAD_LEN < fh_payload_len (fr_header f)"
    using wf by (simp add: wf_frame_def small_len_le_MAX)
  moreover have "fst (fh_version (fr_header f)) = WIRE_MAJOR" using wf by (simp add: wf_frame_def)
  moreover have "frame_wr f @ rest =
      header_bytes (fr_header f) (fh_payload_len (fr_header f)) @ fr_payload f @ rest" (is "_ = ?bs")
    by (simp add: frame_wr_eq [OF wf])
  moreover have "sub_bytes ?bs FRAME_HEADER_LEN (length (fr_payload f)) = fr_payload f"
    by (simp add: sub_bytes_def)
  moreover have "\<lparr>fr_header = \<lparr>fh_version = (fst (fh_version (fr_header f)), snd (fh_version (fr_header f))),
      fh_frame_type = fh_frame_type (fr_header f), fh_flags = fh_flags (fr_header f),
      fh_stream_id = fh_stream_id (fr_header f), fh_payload_len = fh_payload_len (fr_header f)\<rparr>,
      fr_payload = fr_payload f\<rparr> = f"
    by (auto intro!: frame.equality frame_header.equality)
  moreover have "slice_decode ?bs = (Inr (Some f), rest)"
    using calculation(1,2,4,5) by (simp add: slice_decode_def Let_def len codec_simps)
  ultimately show ?thesis by simp
qed

lemma slice_decode_Some:
  assumes "slice_decode bs = (Inr (Some f), rest)"
  shows "wf_frame f \<and> bs = frame_wr f @ rest"
proof -
  let ?len = "get_u32 (sub_bytes bs 14 4)"
  from assms obtain t where
    l: "FRAME_HEADER_LEN \<le> length bs" "FRAME_HEADER_LEN + unat ?len \<le> length bs"
    and magic: "take 2 bs = FRAME_MAGIC" and major: "get_u16 (sub_bytes bs 2 2) = WIRE_MAJOR"
    and max: "\<not> MAX_PAYLOAD_LEN < ?len"
    and t: "get_u16 (sub_bytes bs 6 2) = frame_type_as_u16 t"
    and f: "f = \<lparr>fr_header = \<lparr>fh_version = (get_u16 (sub_bytes bs 2 2), get_u16 (sub_bytes bs 4 2)),
        fh_frame_type = t, fh_flags = get_u16 (sub_bytes bs 8 2),
        fh_stream_id = get_u32 (sub_bytes bs 10 4), fh_payload_len = ?len\<rparr>,
        fr_payload = sub_bytes bs FRAME_HEADER_LEN (unat ?len)\<rparr>"
    and rest: "rest = drop (FRAME_HEADER_LEN + unat ?len) bs"
    by (auto simp: slice_decode_def Let_def and_then_Inr_iff frame_type_from_u16_Inr split: if_splits)
  have "unat ?len \<le> 65536" using max by (simp add: word_less_nat_alt)
  then have wf: "wf_frame f" using l major by (simp add: wf_frame_def f length_sub_bytes)
  have "frame_wr f = take FRAME_HEADER_LEN bs @ sub_bytes bs FRAME_HEADER_LEN (unat ?len)"
    using header_bytes_of_fields [OF l(1) magic t] unfolding frame_wr_eq [OF wf] by (simp add: f)
  with wf rest show ?thesis by (simp add: take_sub_bytes)
qed

interpretation wire: canonical_codec frame_wr frame_rd wf_frame
  by unfold_locales (simp_all add: frame_rd_iff slice_decode_wr slice_decode_Some)

text \<open>A frame that has not fully arrived is not an error, and nothing of it is consumed.\<close>

lemma slice_decode_prefix:
  assumes wf: "wf_frame f" and k: "k < length (frame_wr f)"
  shows "slice_decode (take k (frame_wr f)) = (Inr None, take k (frame_wr f))"
proof (cases "k < FRAME_HEADER_LEN")
  case True
  then have "length (take k (frame_wr f)) < FRAME_HEADER_LEN" by simp
  then show ?thesis unfolding slice_decode_def by (rule if_P)
next
  case False
  let ?h = "header_bytes (fr_header f) (fh_payload_len (fr_header f))"
  have t: "take k (frame_wr f) = ?h @ take (k - FRAME_HEADER_LEN) (fr_payload f)"
    using False by (simp add: frame_wr_eq [OF wf])
  have "fst (fh_version (fr_header f)) = WIRE_MAJOR"
    and "\<not> MAX_PAYLOAD_LEN < fh_payload_len (fr_header f)"
    using wf by (simp_all add: wf_frame_def small_len_le_MAX)
  moreover have "k - FRAME_HEADER_LEN < length (fr_payload f)"
    using k False by (simp add: frame_wr_eq [OF wf])
  ultimately show ?thesis
    unfolding t by (simp add: slice_decode_def Let_def codec_simps wf_frame_len [OF wf])
qed

section \<open>Any buffer whose first chunk holds the header\<close>

lemma decode_refines_slice:
  assumes c: "buf_contract ops content"
    and header: "FRAME_HEADER_LEN \<le> length (content b) \<Longrightarrow> FRAME_HEADER_LEN \<le> length (buf_chunk ops b)"
  shows "\<exists>r b'. decode ops b = Done (r, b') \<and> slice_decode (content b) = (r, content b')"
proof (cases "length (content b) < FRAME_HEADER_LEN")
  case True
  with c show ?thesis by (auto simp: decode_def slice_decode_def buf_contract_def)
next
  case False
  obtain tl where tl: "content b = buf_chunk ops b @ tl"
    using c by (auto simp: buf_contract_def)
  have l: "18 \<le> length (buf_chunk ops b)" using header False by (simp add: FRAME_HEADER_LEN_def)
  then have sub: "sub_bytes (content b) i n = sub_bytes (buf_chunk ops b) i n"
    if "i + n \<le> 18" for i n using that by (simp add: sub_bytes_def tl)
  have magic: "take 2 (content b) = take 2 (buf_chunk ops b)" using l by (simp add: tl)
  have rem: "buf_remaining ops b = length (content b)" using c by (simp add: buf_contract_def)
  have copy: "fst (buf_copy_to_bytes ops n (buf_advance ops m b)) = sub_bytes (content b) m n
      \<and> content (snd (buf_copy_to_bytes ops n (buf_advance ops m b))) = drop (m + n) (content b)"
    if "m + n \<le> length (content b)" for m n
  proof -
    have "content (buf_advance ops m b) = drop m (content b)"
      using c that by (simp add: buf_contract_def)
    moreover have "n \<le> length (drop m (content b))" using that by simp
    ultimately show ?thesis
      using c by (simp add: buf_contract_def sub_bytes_def add.commute)
  qed
  show ?thesis
    using l False copy
    by (auto simp: decode_def slice_decode_def rem sub magic Let_def FRAME_HEADER_LEN_def
        case_prod_unfold split: sum.splits)
qed

section \<open>What the carrier relies on\<close>

text \<open>
  C28. Reading frames off a byte stream and writing them are inverse to each other, for any number of
  frames and whatever follows them: \<open>n\<close> calls of \<open>decode\<close> give the frames \<open>fs\<close> exactly when the stream
  is their encodings in order, and every frame that is read has this build's major version, a payload
  within the cap and a length field that says its length. So no two frame sequences share a stream.
\<close>

theorem frame_stream_canonical:
  "read_many frame_rd n bs = Some (fs, rest) \<longleftrightarrow>
     length fs = n \<and> list_all wf_frame fs \<and> bs = concat (map frame_wr fs) @ rest"
  by (rule wire.read_many_iff)

text \<open>
  A frame that has not fully arrived is not an error and loses nothing: on every proper prefix
  of its encoding \<open>decode\<close> answers \<open>Ok(None)\<close> and leaves the buffer as it was.
\<close>

theorem partial_frame_is_awaited:
  assumes "wf_frame f" and "k < length (frame_wr f)"
  shows "decode slice_buf (take k (frame_wr f)) = Done (Inr None, take k (frame_wr f))"
  using slice_decode_prefix [OF assms] by (simp add: decode_slice)

definition demo_frame :: frame where
  "demo_frame = \<lparr>fr_header = \<lparr>fh_version = (0, 1), fh_frame_type = Data, fh_flags = 0,
     fh_stream_id = 7, fh_payload_len = 3\<rparr>, fr_payload = [1, 2, 3]\<rparr>"

lemma wf_demo_frame [simp]: "wf_frame demo_frame"
  by (simp add: wf_frame_def demo_frame_def WIRE_MAJOR_def)

lemma length_demo_frame [simp]: "length (frame_wr demo_frame) = 21"
  by (simp add: frame_wr_eq FRAME_HEADER_LEN_def) (simp add: demo_frame_def)

theorem partial_frame_is_awaited_witness:
  "decode slice_buf (take 20 (frame_wr demo_frame)) = Done (Inr None, take 20 (frame_wr demo_frame))"
  by (rule partial_frame_is_awaited) simp_all

text \<open>
  On any buffer that keeps the contract of \<open>bytes::Buf\<close>, and whose first chunk holds the header,
  \<open>decode\<close> does not panic and answers exactly what it answers on the buffer's bytes laid out in one
  slice, leaving the same bytes behind.
\<close>

theorem decode_is_independent_of_chunking:
  assumes "buf_contract ops content"
    and "FRAME_HEADER_LEN \<le> length (content b) \<longrightarrow> FRAME_HEADER_LEN \<le> length (buf_chunk ops b)"
  shows "\<exists>r b'. decode ops b = Done (r, b') \<and> decode slice_buf (content b) = Done (r, content b')"
  using decode_refines_slice [OF assms(1), of b] assms(2) by (auto simp: decode_slice)

theorem decode_is_independent_of_chunking_witness:
  "\<exists>r b'. decode chain_buf [take 19 (frame_wr demo_frame), drop 19 (frame_wr demo_frame)] = Done (r, b')
    \<and> decode slice_buf (frame_wr demo_frame) = Done (r, concat b')"
proof -
  let ?b = "[take 19 (frame_wr demo_frame), drop 19 (frame_wr demo_frame)]"
  have "take 19 (frame_wr demo_frame) \<noteq> []"
    using length_demo_frame by (metis length_take list.size(3) min_def zero_neq_numeral numeral_le_iff)
  then have "buf_chunk chain_buf ?b = take 19 (frame_wr demo_frame)" by (simp add: chain_buf_def)
  then show ?thesis
    using decode_is_independent_of_chunking [OF chain_buf_contract, of ?b]
    by (simp add: FRAME_HEADER_LEN_def)
qed

text \<open>
  The other half of the contract of \<open>Buf\<close> is not met: a well-formed frame whose first chunk ends
  inside the header makes \<open>decode\<close> index past the chunk and panic, although the whole header is in
  the buffer. Only callers that hand over one contiguous slice are safe.
\<close>

theorem decode_split_header_panics:
  assumes "wf_frame f" and "0 < k" and "k < FRAME_HEADER_LEN"
  shows "decode chain_buf [take k (frame_wr f), drop k (frame_wr f)] = Panic"
proof -
  let ?w = "frame_wr f" and ?b = "[take k (frame_wr f), drop k (frame_wr f)]"
  have l: "18 \<le> length ?w" and k: "k < 18"
    using assms by (simp_all add: frame_wr_eq FRAME_HEADER_LEN_def)
  have w: "?w = header_bytes (fr_header f) (fh_payload_len (fr_header f)) @ fr_payload f"
    by (rule frame_wr_eq [OF assms(1)])
  have chunk: "buf_chunk chain_buf ?b = take k ?w"
    using assms(2) l by (cases "take k ?w") (auto simp: chain_buf_def)
  have magic: "take 2 (take k ?w) = FRAME_MAGIC" if "2 \<le> k"
    using that by (simp add: w min_absorb1 FRAME_HEADER_LEN_def codec_simps)
  have "sub_bytes (take k ?w) 2 2 = sub_bytes ?w 2 2" if "4 \<le> k"
    using that by (simp add: sub_bytes_def drop_take)
  then have major: "get_u16 (sub_bytes (take k ?w) 2 2) = WIRE_MAJOR" if "4 \<le> k"
    using that assms(1) unfolding w by (simp add: codec_simps wf_frame_def)
  have remaining: "buf_remaining chain_buf ?b = length ?w" by (simp add: chain_buf_def)
  have "length (take k ?w) = k" using l k by simp
  then show ?thesis
    using l k magic major unfolding decode_def chunk remaining Let_def by (simp add: FRAME_HEADER_LEN_def)
qed

theorem decode_split_header_panics_witness:
  "decode chain_buf [take 10 (frame_wr demo_frame), drop 10 (frame_wr demo_frame)] = Panic"
  by (rule decode_split_header_panics) (simp_all add: FRAME_HEADER_LEN_def)

text \<open>
  \<open>encode\<close> accepts exactly the payloads within the cap. An accepted frame is appended to what the
  buffer held and the result counts the bytes appended, at most one header and one cap; a refused one
  leaves the buffer untouched, also where the length does not fit the 32-bit field.
\<close>

theorem encode_appends_or_refuses:
  "case encode f dst of
     (Inr n, out) \<Rightarrow> length (fr_payload f) \<le> 65536 \<and> take (length dst) out = dst
       \<and> length out = length dst + n \<and> n \<le> 18 + 65536
   | (Inl e, out) \<Rightarrow> 65536 < length (fr_payload f) \<and> out = dst \<and> (\<exists>d. e = PayloadTooLarge d 65536)"
proof (cases "length (fr_payload f) \<le> 65536")
  case True
  then show ?thesis by (simp add: encode_small FRAME_HEADER_LEN_def)
next
  case False
  then obtain d where "encode f dst = (Inl (PayloadTooLarge d MAX_PAYLOAD_LEN), dst)"
    using encode_large [of f dst] by auto
  with False show ?thesis by (simp add: MAX_PAYLOAD_LEN_def)
qed

end
