(* ===== verification/Store.thy ===== *)
theory Store
  imports Prelude "HOL-Library.List_Lexorder" "HOL-Library.Char_ord"
begin

text \<open>
  The keyed collections of the sources. A \<open>BTreeMap\<close> is an association list with strictly increasing
  keys, so iteration order and \<open>len\<close> are computed the way the library documents them; a \<open>HashMap\<close> is
  represented the same way, since the sources never iterate over one and its order is unobservable.
  The locale \<open>store\<close> is the contract the components rely on (what a lookup returns after an insert
  or a remove, how the size changes); the interpretation \<open>bt\<close> discharges it once.
\<close>

section \<open>The contract\<close>

locale store =
  fixes empty :: 'm
    and get :: "'m \<Rightarrow> 'k \<Rightarrow> 'v option"
    and put :: "'k \<Rightarrow> 'v \<Rightarrow> 'm \<Rightarrow> 'm"
    and del :: "'k \<Rightarrow> 'm \<Rightarrow> 'm"
    and len :: "'m \<Rightarrow> nat"
    and ok :: "'m \<Rightarrow> bool"
  assumes ok_empty: "ok empty"
    and ok_put: "ok m \<Longrightarrow> ok (put k v m)"
    and ok_del: "ok m \<Longrightarrow> ok (del k m)"
    and get_empty: "get empty k = None"
    and get_put: "ok m \<Longrightarrow> get (put k v m) k' = (if k' = k then Some v else get m k')"
    and get_del: "ok m \<Longrightarrow> get (del k m) k' = (if k' = k then None else get m k')"
    and len_empty: "len empty = 0"
    and len_put: "ok m \<Longrightarrow> len (put k v m) = (if get m k = None then Suc (len m) else len m)"
    and len_del: "ok m \<Longrightarrow> len (del k m) = (if get m k = None then len m else len m - 1)"
begin

lemma get_put_same: "ok m \<Longrightarrow> get (put k v m) k = Some v"
  by (simp add: get_put)

lemma get_del_same: "ok m \<Longrightarrow> get (del k m) k = None"
  by (simp add: get_del)

lemma len_put_le: "ok m \<Longrightarrow> len (put k v m) \<le> Suc (len m)"
  by (simp add: len_put)

lemma len_del_le: "ok m \<Longrightarrow> len (del k m) \<le> len m"
  by (simp add: len_del)

lemma ok_fold_put: "ok m \<Longrightarrow> ok (fold (\<lambda>(k, v). put k v) kvs m)"
  by (induction kvs arbitrary: m) (auto simp: ok_put)

lemma get_fold_put:
  "ok m \<Longrightarrow> get (fold (\<lambda>(k, v). put k v) kvs m) k =
     (case map_of (rev kvs) k of None \<Rightarrow> get m k | Some v \<Rightarrow> Some v)"
  by (induction kvs arbitrary: m)
    (auto simp: ok_put get_put map_add_def split: option.splits)

end

section \<open>Ordered association lists\<close>

type_synonym ('k, 'v) btree = "('k \<times> 'v) list"

definition bt_get :: "('k, 'v) btree \<Rightarrow> 'k \<Rightarrow> 'v option" where
  "bt_get m k = map_of m k"

definition bt_put :: "'k::linorder \<Rightarrow> 'v \<Rightarrow> ('k, 'v) btree \<Rightarrow> ('k, 'v) btree" where
  "bt_put k v m = takeWhile (\<lambda>e. fst e < k) m @ (k, v) # dropWhile (\<lambda>e. fst e \<le> k) m"

definition bt_del :: "'k \<Rightarrow> ('k, 'v) btree \<Rightarrow> ('k, 'v) btree" where
  "bt_del k m = filter (\<lambda>e. fst e \<noteq> k) m"

definition bt_ok :: "('k::linorder, 'v) btree \<Rightarrow> bool" where
  "bt_ok m \<longleftrightarrow> sorted_wrt (<) (map fst m)"

lemma bt_ok_Nil [simp]: "bt_ok []"
  by (simp add: bt_ok_def)

lemma bt_ok_Cons [simp]: "bt_ok (e # m) \<longleftrightarrow> (\<forall>e' \<in> set m. fst e < fst e') \<and> bt_ok m"
  by (auto simp: bt_ok_def)

lemma bt_get_simps [simp]:
  "bt_get [] k = None"
  "bt_get (e # m) k = (if fst e = k then Some (snd e) else bt_get m k)"
  by (auto simp: bt_get_def)

lemma bt_get_None_iff: "bt_get m k = None \<longleftrightarrow> k \<notin> fst ` set m"
  by (auto simp: bt_get_def map_of_eq_None_iff)

lemma bt_put_Cons:
  "bt_ok (e # m) \<Longrightarrow> bt_put k v (e # m) =
     (if fst e < k then e # bt_put k v m
      else if fst e = k then (k, v) # m else (k, v) # e # m)"
proof -
  assume "bt_ok (e # m)"
  then have "dropWhile (\<lambda>x. fst x \<le> fst e) m = m" by (cases m) auto
  then show ?thesis by (auto simp: bt_put_def)
qed

lemma set_bt_put: "bt_ok m \<Longrightarrow> set (bt_put k v m) = insert (k, v) {e \<in> set m. fst e \<noteq> k}"
proof (induction m)
  case Nil
  then show ?case by (simp add: bt_put_def)
next
  case (Cons e m)
  then show ?case by (cases e) (force simp: bt_put_Cons)
qed

lemma bt_ok_put: "bt_ok m \<Longrightarrow> bt_ok (bt_put k v m)"
proof (induction m)
  case Nil
  then show ?case by (simp add: bt_put_def)
next
  case (Cons e m)
  then show ?case by (auto simp: bt_put_Cons set_bt_put)
qed

lemma bt_get_put: "bt_ok m \<Longrightarrow> bt_get (bt_put k v m) k' = (if k' = k then Some v else bt_get m k')"
proof (induction m)
  case Nil
  then show ?case by (simp add: bt_put_def)
next
  case (Cons e m)
  then show ?case by (auto simp: bt_put_Cons)
qed

lemma bt_len_put:
  "bt_ok m \<Longrightarrow> length (bt_put k v m) = (if bt_get m k = None then Suc (length m) else length m)"
proof (induction m)
  case Nil
  then show ?case by (simp add: bt_put_def)
next
  case (Cons e m)
  then show ?case by (auto simp: bt_put_Cons bt_get_None_iff)
qed

lemma set_bt_del: "set (bt_del k m) = {e \<in> set m. fst e \<noteq> k}"
  by (auto simp: bt_del_def)

lemma bt_ok_del: "bt_ok m \<Longrightarrow> bt_ok (bt_del k m)"
  by (induction m) (auto simp: bt_del_def)

lemma bt_get_del: "bt_get (bt_del k m) k' = (if k' = k then None else bt_get m k')"
  by (induction m) (auto simp: bt_del_def)

lemma bt_del_absent: "k \<notin> fst ` set m \<Longrightarrow> bt_del k m = m"
  by (induction m) (auto simp: bt_del_def)

lemma bt_len_del:
  "bt_ok m \<Longrightarrow> length (bt_del k m) = (if bt_get m k = None then length m else length m - 1)"
proof (induction m)
  case Nil
  then show ?case by (simp add: bt_del_def)
next
  case (Cons e m)
  show ?case
  proof (cases "fst e = k")
    case True
    with Cons.prems have "k \<notin> fst ` set m" by auto
    with True show ?thesis using bt_del_absent [of k m] by (simp add: bt_del_def)
  next
    case False
    then have "bt_del k (e # m) = e # bt_del k m" by (simp add: bt_del_def)
    moreover have "bt_get m k \<noteq> None \<Longrightarrow> 0 < length m" by auto
    ultimately show ?thesis using Cons False by auto
  qed
qed

interpretation bt: store "[] :: ('k::linorder, 'v) btree" bt_get bt_put bt_del length bt_ok
  by unfold_locales
    (auto simp: bt_ok_put bt_ok_del bt_get_put bt_get_del bt_len_put bt_len_del)

text \<open>Two ordered lists with the same lookups are the same list, so equal maps print alike.\<close>

lemma bt_ext: "bt_ok m \<Longrightarrow> bt_ok m' \<Longrightarrow> (\<And>k. bt_get m k = bt_get m' k) \<Longrightarrow> m = m'"
proof -
  assume ok: "bt_ok m" "bt_ok m'" and eq: "\<And>k. bt_get m k = bt_get m' k"
  then have s: "sorted (map fst m)" "distinct (map fst m)"
      "sorted (map fst m')" "distinct (map fst m')"
    by (auto simp: bt_ok_def strict_sorted_iff)
  moreover have "map_of m = map_of m'" using eq by (auto simp: bt_get_def)
  ultimately have set: "set m = set m'" by (simp add: map_of_inject_set)
  moreover have "inj_on fst (set m \<union> set m')" using s set by (simp add: distinct_map)
  ultimately show "m = m'" using s by (intro map_sorted_distinct_set_unique [of fst]) auto
qed

lemma bt_put_put: "bt_ok m \<Longrightarrow> bt_put k v (bt_put k v' m) = bt_put k v m"
  by (intro bt_ext) (auto simp: bt_ok_put bt_get_put)

lemma bt_get_put_same [simp]: "bt_ok m \<Longrightarrow> bt_get (bt_put k v m) k = Some v"
  by (rule bt.get_put_same)

text \<open>Inserting the entries of a map in its order rebuilds it.\<close>

lemma bt_rebuild: "bt_ok m \<Longrightarrow> fold (\<lambda>(k, v). bt_put k v) m [] = m"
proof (rule bt_ext)
  assume ok: "bt_ok m"
  show "bt_ok (fold (\<lambda>(k, v). bt_put k v) m [])" by (rule bt.ok_fold_put) simp
  have "distinct (map fst m)" using ok by (auto simp: bt_ok_def strict_sorted_iff)
  then have "map_of (rev m) = map_of m"
    by (intro map_of_inject_set [THEN iffD2]) (simp_all flip: rev_map)
  then show "bt_get (fold (\<lambda>(k, v). bt_put k v) m []) k = bt_get m k" for k
    by (subst bt.get_fold_put) (simp_all add: bt_get_def split: option.split)
qed

lemma bt_get_Some_iff: "bt_ok m \<Longrightarrow> bt_get m k = Some v \<longleftrightarrow> (k, v) \<in> set m"
  by (auto simp: bt_get_def bt_ok_def strict_sorted_iff intro: map_of_SomeD)

lemma bt_len_card: "bt_ok m \<Longrightarrow> length m = card (dom (bt_get m))"
proof -
  assume "bt_ok m"
  then have "distinct (map fst m)" by (auto simp: bt_ok_def strict_sorted_iff)
  moreover have "dom (bt_get m) = set (map fst m)" by (auto simp: bt_get_def [abs_def] dom_map_of_conv_image_fst)
  ultimately show ?thesis by (simp only: distinct_card length_map)
qed

end
