(* ===== verification/Mux.thy ===== *)
theory Mux
  imports Wire Store
begin

text \<open>
  \<open>mux.rs\<close> of \<open>dr-dsh-proto\<close>: the multiplexer's stream table and its \<open>open\<close>. The source calls the
  module a skeleton: \<open>open\<close> is the only transition it has.
\<close>

datatype stream_origin = OriginClient | OriginDaemon

datatype stream_state = Opening | StreamOpen | HalfClosedLocal | HalfClosedRemote | StreamClosed

record multiplexer =
  mx_origin :: stream_origin
  mx_streams :: "(u32, stream_state) btree"
  mx_send_windows :: "(u32, u32) btree"

definition mux_new :: "stream_origin \<Rightarrow> multiplexer" where
  "mux_new origin = \<lparr>mx_origin = origin, mx_streams = [], mx_send_windows = []\<rparr>"

definition mux_open :: "u32 \<Rightarrow> multiplexer \<Rightarrow> (proto_error + unit) \<times> multiplexer" where
  [step_defs]: "mux_open stream_id m =
     (if MAX_CONCURRENT_STREAMS \<le> (of_nat (length (mx_streams m)) :: u32)
        then (Inl (TooManyStreams MAX_CONCURRENT_STREAMS), m)
      else if bt_get (mx_streams m) stream_id \<noteq> None
        then (Inl (UnknownStream stream_id), m)
      else (Inr (), m\<lparr>mx_streams := bt_put stream_id Opening (mx_streams m),
                       mx_send_windows := bt_put stream_id INITIAL_WINDOW (mx_send_windows m)\<rparr>))"

fun mux_open_all :: "u32 list \<Rightarrow> multiplexer \<Rightarrow> multiplexer" where
  "mux_open_all [] m = m"
| "mux_open_all (i # is) m = mux_open_all is (snd (mux_open i m))"

text \<open>
  The limit holds, and every tracked stream has a send window and the other way round: the two maps
  never drift apart.
\<close>

definition mux_inv :: "multiplexer \<Rightarrow> bool" where
  "mux_inv m \<longleftrightarrow> bt_ok (mx_streams m) \<and> bt_ok (mx_send_windows m)
     \<and> length (mx_streams m) \<le> unat MAX_CONCURRENT_STREAMS
     \<and> (\<forall>i. bt_get (mx_streams m) i = None \<longleftrightarrow> bt_get (mx_send_windows m) i = None)"

lemma mux_inv_new [simp]: "mux_inv (mux_new origin)"
  by (simp add: mux_inv_def mux_new_def)

lemma mux_full_iff:
  "length xs \<le> 64 \<Longrightarrow>
   MAX_CONCURRENT_STREAMS \<le> (of_nat (length xs) :: u32) \<longleftrightarrow> length xs = 64"
  by (auto simp: MAX_CONCURRENT_STREAMS_def word_le_nat_alt unat_of_nat)

lemma mux_open_inv: "mux_inv m \<Longrightarrow> mux_inv (snd (mux_open i m))"
  by (auto simp: mux_open_def mux_inv_def bt.ok_put bt.get_put bt.len_put mux_full_iff
      MAX_CONCURRENT_STREAMS_def word_le_nat_alt unat_of_nat)

lemma mux_open_all_inv: "mux_inv m \<Longrightarrow> mux_inv (mux_open_all is m)"
  by (induction "is" arbitrary: m) (auto simp: mux_open_inv)

lemma mux_open_ok_iff:
  "mux_inv m \<Longrightarrow> fst (mux_open i m) = Inr () \<longleftrightarrow>
     length (mx_streams m) < 64 \<and> bt_get (mx_streams m) i = None"
  by (auto simp: mux_open_def mux_inv_def mux_full_iff MAX_CONCURRENT_STREAMS_def
      word_le_nat_alt unat_of_nat)

lemma mux_open_error_keeps: "fst (mux_open i m) = Inl e \<Longrightarrow> snd (mux_open i m) = m"
  by (auto simp: mux_open_def split: if_splits)

text \<open>
  However often streams are opened, the multiplexer's two maps describe the same streams, at most
  \<open>MAX_CONCURRENT_STREAMS\<close> of them; a further open succeeds exactly when there is room and the id is
  not tracked, then adds that id alone with the initial window, and a refused one changes nothing.
\<close>

theorem mux_open_contract:
  assumes "m = mux_open_all ids (mux_new origin)"
  shows "mux_inv m
    \<and> (fst (mux_open i m) = Inr () \<longleftrightarrow> length (mx_streams m) < 64 \<and> i \<notin> dom (bt_get (mx_streams m)))
    \<and> bt_get (mx_streams (snd (mux_open i m))) =
        (if fst (mux_open i m) = Inr () then (bt_get (mx_streams m))(i \<mapsto> Opening) else bt_get (mx_streams m))
    \<and> bt_get (mx_send_windows (snd (mux_open i m))) =
        (if fst (mux_open i m) = Inr () then (bt_get (mx_send_windows m))(i \<mapsto> 262144)
         else bt_get (mx_send_windows m))"
proof (intro conjI)
  show inv: "mux_inv m" unfolding assms by (rule mux_open_all_inv) simp
  show "fst (mux_open i m) = Inr () \<longleftrightarrow> length (mx_streams m) < 64 \<and> i \<notin> dom (bt_get (mx_streams m))"
    by (simp add: mux_open_ok_iff [OF inv] domIff)
  from inv have "bt_ok (mx_streams m)" "bt_ok (mx_send_windows m)" by (simp_all add: mux_inv_def)
  then show "bt_get (mx_streams (snd (mux_open i m))) =
        (if fst (mux_open i m) = Inr () then (bt_get (mx_streams m))(i \<mapsto> Opening) else bt_get (mx_streams m))"
    and "bt_get (mx_send_windows (snd (mux_open i m))) =
        (if fst (mux_open i m) = Inr () then (bt_get (mx_send_windows m))(i \<mapsto> 262144)
         else bt_get (mx_send_windows m))"
    by (auto simp: mux_open_def fun_eq_iff bt.get_put INITIAL_WINDOW_def)
qed

theorem mux_open_contract_witness:
  "fst (mux_open 5 (mux_open_all [1, 3, 1] (mux_new OriginClient))) = Inr ()
   \<and> fst (mux_open 3 (mux_open_all [1, 3, 1] (mux_new OriginClient))) \<noteq> Inr ()"
proof -
  have "mx_streams (mux_open_all [1, 3, 1] (mux_new OriginClient)) = [(1, Opening), (3, Opening)]"
    by code_simp
  then show ?thesis
    using mux_open_contract [OF refl, of "[1, 3, 1]" OriginClient 5]
      mux_open_contract [OF refl, of "[1, 3, 1]" OriginClient 3] by (simp add: domIff)
qed

end
