(* ===== verification/Rooms.thy ===== *)
theory Rooms
  imports Wire Store Machine
begin

text \<open>
  \<open>rooms.rs\<close> of the relay: the routing table of rooms, and the check of a carrier frame.

  An \<open>mpsc\<close> channel is an object shared by the hub (its sending half) and the writer task of a
  socket (the receiving half), and it outlives the entry of the hub that names it. The store
  \<open>hub_channels\<close> holds these objects; a channel is addressed by the id of its connection, which
  the hub never reuses. The channel operations belong to tokio: they are the record \<open>chan_ops\<close>, an
  argument of the operations that send. \<open>queue_ops\<close> is the bounded queue tokio documents.
\<close>

section \<open>Connections and channels\<close>

datatype role = RoleDaemon | RoleClient

datatype outbound = Frame "byte list" | Close string

datatype send_outcome = Sent | QueueFull | QueueClosed

record 'ch chan_ops =
  ch_new :: "nat \<Rightarrow> 'ch"
  ch_try_send :: "outbound \<Rightarrow> 'ch \<Rightarrow> send_outcome \<times> 'ch"

definition FRAME_QUEUE :: nat where "FRAME_QUEUE = 64"

record queue =
  q_cap :: nat
  q_items :: "outbound list"
  q_receiver_alive :: bool

definition queue_ops :: "queue chan_ops" where
  "queue_ops = \<lparr>ch_new = (\<lambda>n. \<lparr>q_cap = n, q_items = [], q_receiver_alive = True\<rparr>),
     ch_try_send = (\<lambda>x q.
       if \<not> q_receiver_alive q then (QueueClosed, q)
       else if q_cap q \<le> length (q_items q) then (QueueFull, q)
       else (Sent, q\<lparr>q_items := q_items q @ [x]\<rparr>))\<rparr>"

record connection =
  conn_id :: u64

record room =
  rm_daemon :: "connection option"
  rm_clients :: "connection list"

definition room_default :: room where
  "room_default = \<lparr>rm_daemon = None, rm_clients = []\<rparr>"

fun targets :: "room \<Rightarrow> role \<Rightarrow> connection list" where
  "targets r RoleDaemon = rm_clients r"
| "targets r RoleClient = (case rm_daemon r of None \<Rightarrow> [] | Some c \<Rightarrow> [c])"

fun find_conn :: "room \<Rightarrow> role \<Rightarrow> u64 \<Rightarrow> connection option" where
  "find_conn r RoleDaemon i =
     (case rm_daemon r of None \<Rightarrow> None | Some c \<Rightarrow> if conn_id c = i then Some c else None)"
| "find_conn r RoleClient i = List.find (\<lambda>c. conn_id c = i) (rm_clients r)"

datatype park_error = AtCapacity nat | TooManyClients u32 | NoDaemon | Gone

record 'ch hub =
  hub_rooms :: "(string, room) btree"
  hub_next_id :: u64
  hub_max_rooms :: nat
  hub_channels :: "u64 \<Rightarrow> 'ch option"

definition hub_new :: "nat \<Rightarrow> 'ch hub" where
  "hub_new max_rooms = \<lparr>hub_rooms = [], hub_next_id = 1, hub_max_rooms = max_rooms,
     hub_channels = (\<lambda>_. None)\<rparr>"

fun peer_role :: "role \<Rightarrow> role" where
  "peer_role RoleDaemon = RoleClient"
| "peer_role RoleClient = RoleDaemon"

section \<open>Parking\<close>

text \<open>
  The table after the first test of \<open>park\<close>: a daemon may create its room, a client may not, and a
  refusal creates nothing.
\<close>

definition ensure_room :: "string \<Rightarrow> role \<Rightarrow> 'ch hub \<Rightarrow> park_error + 'ch hub" where
  "ensure_room room_id role h =
     (if bt_get (hub_rooms h) room_id = None then
        if hub_max_rooms h \<le> length (hub_rooms h) then Inl (AtCapacity (hub_max_rooms h))
        else if role = RoleClient then Inl NoDaemon
        else Inr (h\<lparr>hub_rooms := bt_put room_id room_default (hub_rooms h)\<rparr>)
      else Inr h)"

definition join_room :: "role \<Rightarrow> u64 \<Rightarrow> room \<Rightarrow> park_error + room" where
  "join_room role i r =
     (case role of
        RoleDaemon \<Rightarrow> Inr (r\<lparr>rm_daemon := Some \<lparr>conn_id = i\<rparr>\<rparr>)
      | RoleClient \<Rightarrow>
          if rm_daemon r = None then Inl NoDaemon
          else if MAX_DEVICES_PER_ROOM \<le> (of_nat (length (rm_clients r)) :: u32)
            then Inl (TooManyClients MAX_DEVICES_PER_ROOM)
          else Inr (r\<lparr>rm_clients := rm_clients r @ [\<lparr>conn_id = i\<rparr>]\<rparr>))"

definition park :: "'ch chan_ops \<Rightarrow> string \<Rightarrow> role \<Rightarrow> 'ch hub \<Rightarrow> (park_error + u64) \<times> 'ch hub" where
  [step_defs]: "park ops room_id role h =
     (case ensure_room room_id role h of
        Inl e \<Rightarrow> (Inl e, h)
      | Inr h1 \<Rightarrow>
          (let i = hub_next_id h1; channel = ch_new ops FRAME_QUEUE in
           case bt_get (hub_rooms h1) room_id of
             None \<Rightarrow> (Inl Gone, h1)
           | Some r \<Rightarrow>
               (case join_room role i r of
                  Inl e \<Rightarrow> (Inl e, h1)
                | Inr r' \<Rightarrow>
                    (Inr i, h1\<lparr>hub_rooms := bt_put room_id r' (hub_rooms h1),
                               hub_next_id := i + 1,
                               hub_channels := (hub_channels h1)(i := Some channel)\<rparr>))))"

section \<open>Leaving\<close>

datatype departure = DaemonStopped | LastClient | Nothing

definition leave_room :: "role \<Rightarrow> u64 \<Rightarrow> room \<Rightarrow> departure \<times> room" where
  "leave_room role i r =
     (case role of
        RoleDaemon \<Rightarrow>
          (case rm_daemon r of
             Some c \<Rightarrow> if conn_id c = i then (DaemonStopped, r\<lparr>rm_daemon := None\<rparr>) else (Nothing, r)
           | None \<Rightarrow> (Nothing, r))
      | RoleClient \<Rightarrow>
          (let r' = r\<lparr>rm_clients := filter (\<lambda>c. conn_id c \<noteq> i) (rm_clients r)\<rparr> in
           (if rm_clients r' = [] \<and> rm_daemon r' \<noteq> None then LastClient else Nothing, r')))"

definition room_empty :: "room \<Rightarrow> bool" where
  "room_empty r \<longleftrightarrow> rm_daemon r = None \<and> rm_clients r = []"

text \<open>The write-back of a room, and its removal when nobody is left in it.\<close>

definition put_or_forget :: "string \<Rightarrow> room \<Rightarrow> 'ch hub \<Rightarrow> 'ch hub" where
  "put_or_forget room_id r h =
     h\<lparr>hub_rooms := (if room_empty r then bt_del room_id (hub_rooms h)
                     else bt_put room_id r (hub_rooms h))\<rparr>"

definition unpark :: "string \<Rightarrow> role \<Rightarrow> u64 \<Rightarrow> 'ch hub \<Rightarrow> departure \<times> 'ch hub" where
  [step_defs]: "unpark room_id role i h =
     (case bt_get (hub_rooms h) room_id of
        None \<Rightarrow> (Nothing, h)
      | Some r \<Rightarrow> (let (d, r') = leave_room role i r in (d, put_or_forget room_id r' h)))"

definition send_to :: "'ch chan_ops \<Rightarrow> u64 \<Rightarrow> outbound \<Rightarrow> 'ch hub \<Rightarrow> send_outcome \<times> 'ch hub" where
  "send_to ops i x h =
     (case hub_channels h i of
        None \<Rightarrow> (QueueClosed, h)
      | Some ch \<Rightarrow>
          (let (res, ch') = ch_try_send ops x ch in
           (res, h\<lparr>hub_channels := (hub_channels h)(i := Some ch')\<rparr>)))"

definition release_daemon :: "'ch chan_ops \<Rightarrow> string \<Rightarrow> 'ch hub \<Rightarrow> (park_error + unit) \<times> 'ch hub" where
  [step_defs]: "release_daemon ops room_id h =
     (case bt_get (hub_rooms h) room_id of
        None \<Rightarrow> (Inl Gone, h)
      | Some r \<Rightarrow>
          (let h1 = (case rm_daemon r of
                       None \<Rightarrow> h
                     | Some c \<Rightarrow> snd (send_to ops (conn_id c) (Close SESSION_OVER) h));
               r' = r\<lparr>rm_daemon := None\<rparr> in
           (Inr (), h1\<lparr>hub_rooms := (if rm_clients r' = [] then bt_del room_id (hub_rooms h1)
                                     else bt_put room_id r' (hub_rooms h1))\<rparr>)))"

section \<open>Routing\<close>

text \<open>
  One target: a full queue gets an attempt to close instead of the frame, and that attempt's own
  outcome is discarded.
\<close>

definition deliver :: "'ch chan_ops \<Rightarrow> byte list \<Rightarrow> u64 \<Rightarrow> nat \<times> 'ch hub \<Rightarrow> nat \<times> 'ch hub" where
  "deliver ops frame i = (\<lambda>(delivered, h).
     case send_to ops i (Frame frame) h of
       (Sent, h') \<Rightarrow> (Suc delivered, h')
     | (QueueFull, h') \<Rightarrow> (delivered, snd (send_to ops i (Close ''peer is not keeping up'') h'))
     | (QueueClosed, h') \<Rightarrow> (delivered, h'))"

definition route :: "'ch chan_ops \<Rightarrow> string \<Rightarrow> role \<Rightarrow> u64 \<Rightarrow> byte list \<Rightarrow> 'ch hub
    \<Rightarrow> (park_error + nat) \<times> 'ch hub" where
  [step_defs]: "route ops room_id from i frame h =
     (case bt_get (hub_rooms h) room_id of
        None \<Rightarrow> (Inl Gone, h)
      | Some r \<Rightarrow>
          (if find_conn r from i = None then (Inl Gone, h)
           else let ids = map conn_id (targets r from);
                    reachable = filter (\<lambda>t. find_conn r (peer_role from) t \<noteq> None) ids;
                    (delivered, h') = fold (deliver ops frame) reachable (0, h) in
                (Inr delivered, h')))"

section \<open>Queries\<close>

definition is_served :: "string \<Rightarrow> 'ch hub \<Rightarrow> bool" where
  "is_served room_id h =
     (case bt_get (hub_rooms h) room_id of None \<Rightarrow> False | Some r \<Rightarrow> rm_daemon r \<noteq> None)"

definition hub_len :: "'ch hub \<Rightarrow> nat" where "hub_len h = length (hub_rooms h)"

definition client_count :: "string \<Rightarrow> 'ch hub \<Rightarrow> nat" where
  "client_count room_id h =
     (case bt_get (hub_rooms h) room_id of None \<Rightarrow> 0 | Some r \<Rightarrow> length (rm_clients r))"

section \<open>The check of a carrier frame\<close>

definition MAX_FORWARDED_PAYLOAD :: u32 where "MAX_FORWARDED_PAYLOAD = MAX_PAYLOAD_LEN"

definition validate_frame :: "byte list \<Rightarrow> string + unit" where
  "validate_frame bytes =
     (if length bytes < FRAME_HEADER_LEN then Inl ''frame is shorter than a header''
      else if take 2 bytes \<noteq> FRAME_MAGIC then Inl ''bad frame magic''
      else if get_u16 (sub_bytes bytes 2 2) \<noteq> WIRE_MAJOR then Inl ''incompatible wire major version''
      else (case frame_type_from_u16 (get_u16 (sub_bytes bytes 6 2)) of
        Inl _ \<Rightarrow> Inl ''unknown frame type''
      | Inr _ \<Rightarrow>
          (let declared = get_u32 (sub_bytes bytes 14 4) in
           if MAX_FORWARDED_PAYLOAD < declared then Inl ''declared payload exceeds the protocol cap''
           else if length bytes \<noteq> FRAME_HEADER_LEN + unat declared
             then Inl ''frame length does not match its header''
           else Inr ())))"

section \<open>The invariant of the table\<close>

definition conn_ids :: "room \<Rightarrow> u64 list" where
  "conn_ids r = (case rm_daemon r of None \<Rightarrow> [] | Some c \<Rightarrow> [conn_id c]) @ map conn_id (rm_clients r)"

definition room_inv :: "u64 \<Rightarrow> room \<Rightarrow> bool" where
  "room_inv next_id r \<longleftrightarrow> \<not> room_empty r \<and> length (rm_clients r) \<le> unat MAX_DEVICES_PER_ROOM
     \<and> distinct (conn_ids r) \<and> (\<forall>i \<in> set (conn_ids r). i < next_id)"

definition hub_inv :: "'ch hub \<Rightarrow> bool" where
  "hub_inv h \<longleftrightarrow> bt_ok (hub_rooms h) \<and> length (hub_rooms h) \<le> hub_max_rooms h
     \<and> (\<forall>k r. bt_get (hub_rooms h) k = Some r \<longrightarrow> room_inv (hub_next_id h) r
          \<and> (\<forall>i \<in> set (conn_ids r). hub_channels h i \<noteq> None))
     \<and> (\<forall>k k' r r'. bt_get (hub_rooms h) k = Some r \<longrightarrow> bt_get (hub_rooms h) k' = Some r' \<longrightarrow>
          k \<noteq> k' \<longrightarrow> set (conn_ids r) \<inter> set (conn_ids r') = {})"

lemma hub_inv_new: "hub_inv (hub_new n)"
  by (simp add: hub_inv_def hub_new_def)

lemma hub_invD:
  assumes "hub_inv h"
  shows "bt_ok (hub_rooms h)" "length (hub_rooms h) \<le> hub_max_rooms h"
    "bt_get (hub_rooms h) k = Some r \<Longrightarrow> room_inv (hub_next_id h) r"
    "bt_get (hub_rooms h) k = Some r \<Longrightarrow> i \<in> set (conn_ids r) \<Longrightarrow> hub_channels h i \<noteq> None"
    "bt_get (hub_rooms h) k = Some r \<Longrightarrow> bt_get (hub_rooms h) k' = Some r' \<Longrightarrow> k \<noteq> k' \<Longrightarrow>
       set (conn_ids r) \<inter> set (conn_ids r') = {}"
  using assms unfolding hub_inv_def by blast+

text \<open>
  One lemma for every operation that writes a room back: its ids are ids it had, or ids not handed
  out before.
\<close>

lemma hub_inv_put:
  assumes h: "hub_inv h" and n: "hub_next_id h \<le> n" and r: "room_inv n r"
    and slot: "bt_get (hub_rooms h) k \<noteq> None \<or> length (hub_rooms h) < hub_max_rooms h"
    and ids: "\<And>i. i \<in> set (conn_ids r) \<Longrightarrow>
      (\<exists>r0. bt_get (hub_rooms h) k = Some r0 \<and> i \<in> set (conn_ids r0)) \<or> hub_next_id h \<le> i"
    and ch: "\<And>i. i \<in> set (conn_ids r) \<Longrightarrow> chs i \<noteq> None"
    and chs: "\<And>i. hub_channels h i \<noteq> None \<Longrightarrow> chs i \<noteq> None"
  shows "hub_inv (h\<lparr>hub_rooms := bt_put k r (hub_rooms h), hub_next_id := n, hub_channels := chs\<rparr>)"
proof -
  note D = hub_invD [OF h]
  have old: "i < hub_next_id h" if "bt_get (hub_rooms h) k' = Some r'" "i \<in> set (conn_ids r')" for i k' r'
    using D(3) [OF that(1)] that(2) by (simp add: room_inv_def)
  have other: "room_inv n r'" if "bt_get (hub_rooms h) k' = Some r'" for k' r'
    using D(3) [OF that] n by (auto simp: room_inv_def)
  have disj: "set (conn_ids r) \<inter> set (conn_ids r') = {}"
    if r': "bt_get (hub_rooms h) k' = Some r'" "k' \<noteq> k" for k' r'
  proof -
    have "i \<notin> set (conn_ids r')" if i: "i \<in> set (conn_ids r)" for i
      using ids [OF i]
    proof
      assume "\<exists>r0. bt_get (hub_rooms h) k = Some r0 \<and> i \<in> set (conn_ids r0)"
      then show ?thesis using D(5) r' by blast
    next
      assume "hub_next_id h \<le> i"
      then show ?thesis using old [OF r'(1)] by (auto simp: not_less [symmetric])
    qed
    then show ?thesis by blast
  qed
  have "length (bt_put k r (hub_rooms h)) \<le> hub_max_rooms h"
    using slot D(1,2) by (auto simp: bt.len_put)
  then show ?thesis
    unfolding hub_inv_def using D other disj r ch chs
    by (simp add: bt.ok_put bt.get_put) (metis Int_commute)
qed

lemma hub_inv_del:
  assumes h: "hub_inv h"
  shows "hub_inv (h\<lparr>hub_rooms := bt_del k (hub_rooms h)\<rparr>)"
proof -
  note D = hub_invD [OF h]
  have "length (bt_del k (hub_rooms h)) \<le> hub_max_rooms h"
    using bt.len_del_le [OF D(1), of k] D(2) by linarith
  then show ?thesis
    unfolding hub_inv_def using D by (simp add: bt.ok_del bt_get_del)
qed

lemma hub_inv_channels:
  assumes h: "hub_inv h" and "\<And>i. hub_channels h i \<noteq> None \<Longrightarrow> chs i \<noteq> None"
  shows "hub_inv (h\<lparr>hub_channels := chs\<rparr>)"
  using hub_invD [OF h] assms(2) unfolding hub_inv_def by simp

section \<open>Every operation keeps the invariant\<close>

lemma full_room_iff:
  "length xs \<le> 16 \<Longrightarrow>
   MAX_DEVICES_PER_ROOM \<le> (of_nat (length xs) :: u32) \<longleftrightarrow> length xs = 16"
  by (auto simp: MAX_DEVICES_PER_ROOM_def word_le_nat_alt unat_of_nat)

lemma unat_MAX_DEVICES [simp]: "unat MAX_DEVICES_PER_ROOM = 16"
  by (simp add: MAX_DEVICES_PER_ROOM_def)

text \<open>What \<open>park\<close> amounts to, once its room exists.\<close>

definition parked :: "'ch chan_ops \<Rightarrow> string \<Rightarrow> room \<Rightarrow> 'ch hub \<Rightarrow> 'ch hub" where
  "parked ops k r h = h\<lparr>hub_rooms := bt_put k r (hub_rooms h), hub_next_id := hub_next_id h + 1,
     hub_channels := (hub_channels h)(hub_next_id h := Some (ch_new ops FRAME_QUEUE))\<rparr>"

lemma park_absent:
  assumes "bt_ok (hub_rooms h)" and "bt_get (hub_rooms h) k = None"
  shows "park ops k role h =
    (if hub_max_rooms h \<le> length (hub_rooms h) then (Inl (AtCapacity (hub_max_rooms h)), h)
     else case role of
       RoleClient \<Rightarrow> (Inl NoDaemon, h)
     | RoleDaemon \<Rightarrow> (Inr (hub_next_id h),
         parked ops k \<lparr>rm_daemon = Some \<lparr>conn_id = hub_next_id h\<rparr>, rm_clients = []\<rparr> h))"
  using assms
  by (auto simp: park_def ensure_room_def join_room_def room_default_def parked_def bt_put_put Let_def
      split: role.splits)

lemma park_present:
  assumes "bt_get (hub_rooms h) k = Some r"
  shows "park ops k role h =
    (case join_room role (hub_next_id h) r of
       Inl e \<Rightarrow> (Inl e, h)
     | Inr r' \<Rightarrow> (Inr (hub_next_id h), parked ops k r' h))"
  using assms by (auto simp: park_def ensure_room_def parked_def Let_def split: sum.splits)

lemma park_ok:
  assumes "bt_ok (hub_rooms h)" and "park ops k role h = (Inr i, h')"
  shows "\<exists>r. i = hub_next_id h \<and> h' = parked ops k r h
    \<and> (bt_get (hub_rooms h) k = None \<longrightarrow> role = RoleDaemon \<and> length (hub_rooms h) < hub_max_rooms h
         \<and> r = \<lparr>rm_daemon = Some \<lparr>conn_id = i\<rparr>, rm_clients = []\<rparr>)
    \<and> (\<forall>r0. bt_get (hub_rooms h) k = Some r0 \<longrightarrow> join_room role i r0 = Inr r)"
proof (cases "bt_get (hub_rooms h) k")
  case None
  with assms show ?thesis by (auto simp: park_absent split: if_splits role.splits)
next
  case (Some r0)
  with assms show ?thesis by (auto simp: park_present split: sum.splits)
qed

lemma park_error_keeps:
  assumes "bt_ok (hub_rooms h)" and "fst (park ops k role h) = Inl e"
  shows "snd (park ops k role h) = h"
  using assms
  by (cases "bt_get (hub_rooms h) k")
    (auto simp: park_absent park_present split: if_splits role.splits sum.splits)

lemma join_room_ids:
  "join_room role i r = Inr r' \<Longrightarrow> set (conn_ids r') \<subseteq> insert i (set (conn_ids r))"
  by (auto simp: join_room_def conn_ids_def split: role.splits if_splits option.splits)

lemma join_room_inv:
  assumes "room_inv n r" and "join_room role n r = Inr r'" and "n \<noteq> - 1"
  shows "room_inv (n + 1) r'"
proof -
  have lt: "i < n + 1 \<longleftrightarrow> i \<le> n" for i using assms(3) by (rule less_plus_one)
  moreover have "n \<notin> set (conn_ids r)" using assms(1) by (auto simp: room_inv_def)
  ultimately show ?thesis
    using assms(1,2)
    by (auto simp: lt order.strict_implies_order join_room_def room_inv_def room_empty_def
        conn_ids_def full_room_iff split: role.splits if_splits option.splits)
qed

lemma hub_inv_parked:
  assumes h: "hub_inv h" and n: "hub_next_id h \<noteq> - 1"
    and slot: "bt_get (hub_rooms h) k \<noteq> None \<or> length (hub_rooms h) < hub_max_rooms h"
    and r: "room_inv (hub_next_id h + 1) r"
    and ids: "\<And>i. i \<in> set (conn_ids r) \<Longrightarrow> i \<noteq> hub_next_id h \<Longrightarrow>
      \<exists>r0. bt_get (hub_rooms h) k = Some r0 \<and> i \<in> set (conn_ids r0)"
  shows "hub_inv (parked ops k r h)"
proof -
  have le: "hub_next_id h \<le> hub_next_id h + 1"
    using less_plus_one [OF n, of "hub_next_id h"] by simp
  show ?thesis
    unfolding parked_def
    by (rule hub_inv_put [OF h le r slot])
      (use ids hub_invD(4) [OF h] in \<open>auto, blast\<close>)
qed

lemma park_inv:
  assumes h: "hub_inv h" and n: "hub_next_id h \<noteq> - 1"
  shows "hub_inv (snd (park ops k role h))"
proof (cases "park ops k role h")
  case (Pair res h')
  show ?thesis
  proof (cases res)
    case (Inl e)
    with Pair park_error_keeps [OF hub_invD(1) [OF h], of ops k role e] h show ?thesis by simp
  next
    case (Inr i)
    then obtain r where i: "i = hub_next_id h" and h': "h' = parked ops k r h"
      and absent: "bt_get (hub_rooms h) k = None \<longrightarrow> role = RoleDaemon
         \<and> length (hub_rooms h) < hub_max_rooms h \<and> r = \<lparr>rm_daemon = Some \<lparr>conn_id = i\<rparr>, rm_clients = []\<rparr>"
      and present: "\<forall>r0. bt_get (hub_rooms h) k = Some r0 \<longrightarrow> join_room role i r0 = Inr r"
      using park_ok [OF hub_invD(1) [OF h]] Pair by blast
    have "hub_inv (parked ops k r h)"
    proof (cases "bt_get (hub_rooms h) k")
      case None
      with absent i have "room_inv (hub_next_id h + 1) r"
        using less_plus_one [OF n] by (simp add: room_inv_def room_empty_def conn_ids_def)
      with None absent i show ?thesis
        by (intro hub_inv_parked [OF h n]) (auto simp: conn_ids_def)
    next
      case (Some r0)
      with present i have "join_room role (hub_next_id h) r0 = Inr r" by simp
      with Some join_room_inv [OF hub_invD(3) [OF h Some]] n join_room_ids show ?thesis
        by (intro hub_inv_parked [OF h n]) blast+
    qed
    with Pair h' show ?thesis by simp
  qed
qed

lemma leave_room_ids: "leave_room role i r = (d, r') \<Longrightarrow> set (conn_ids r') \<subseteq> set (conn_ids r)"
  by (auto simp: leave_room_def conn_ids_def Let_def split: role.splits option.splits if_splits)

lemma leave_room_gone:
  "leave_room role i r = (d, r') \<Longrightarrow> find_conn r' role i = None"
  by (auto simp: leave_room_def find_None_iff Let_def split: role.splits option.splits if_splits)

lemma leave_room_inv:
  "room_inv n r \<Longrightarrow> leave_room role i r = (d, r') \<Longrightarrow> \<not> room_empty r' \<Longrightarrow> room_inv n r'"
  by (auto simp: leave_room_def room_inv_def conn_ids_def Let_def distinct_map_filter
      split: role.splits option.splits if_splits intro: le_trans [OF length_filter_le])

lemma hub_inv_put_same:
  assumes h: "hub_inv h" and k: "bt_get (hub_rooms h) k = Some r0"
    and r: "room_inv (hub_next_id h) r" and ids: "set (conn_ids r) \<subseteq> set (conn_ids r0)"
  shows "hub_inv (h\<lparr>hub_rooms := bt_put k r (hub_rooms h)\<rparr>)"
proof -
  have "hub_inv (h\<lparr>hub_rooms := bt_put k r (hub_rooms h), hub_next_id := hub_next_id h,
      hub_channels := hub_channels h\<rparr>)"
    using k ids hub_invD(4) [OF h k] by (intro hub_inv_put [OF h _ r]) auto
  then show ?thesis by simp
qed

lemma unpark_inv: "hub_inv h \<Longrightarrow> hub_inv (snd (unpark k role i h))"
proof (cases "bt_get (hub_rooms h) k")
  case (Some r)
  assume h: "hub_inv h"
  obtain d r' where l: "leave_room role i r = (d, r')" by fastforce
  have "hub_inv (put_or_forget k r' h)"
  proof (cases "room_empty r'")
    case True
    then show ?thesis using hub_inv_del [OF h] by (simp add: put_or_forget_def)
  next
    case False
    then have "room_inv (hub_next_id h) r'" by (rule leave_room_inv [OF hub_invD(3) [OF h Some] l])
    with False show ?thesis
      using hub_inv_put_same [OF h Some _ leave_room_ids [OF l]] by (simp add: put_or_forget_def)
  qed
  with Some l show ?thesis by (simp add: unpark_def)
qed (simp add: unpark_def)

lemma send_to_rooms [simp]:
  "hub_rooms (snd (send_to ops i x h)) = hub_rooms h"
  "hub_next_id (snd (send_to ops i x h)) = hub_next_id h"
  "hub_max_rooms (snd (send_to ops i x h)) = hub_max_rooms h"
  by (auto simp: send_to_def case_prod_unfold Let_def split: option.splits)

lemma send_to_inv: "hub_inv h \<Longrightarrow> hub_inv (snd (send_to ops i x h))"
  using hub_inv_channels [of h]
  by (auto simp: send_to_def case_prod_unfold Let_def split: option.splits)

lemma release_daemon_inv:
  assumes h: "hub_inv h"
  shows "hub_inv (snd (release_daemon ops k h))"
proof (cases "bt_get (hub_rooms h) k")
  case (Some r)
  define h1 where "h1 = (case rm_daemon r of None \<Rightarrow> h
    | Some c \<Rightarrow> snd (send_to ops (conn_id c) (Close SESSION_OVER) h))"
  have h1: "hub_inv h1" "hub_rooms h1 = hub_rooms h" "hub_next_id h1 = hub_next_id h"
    using h send_to_inv [OF h] by (auto simp: h1_def split: option.splits)
  let ?r = "r\<lparr>rm_daemon := None\<rparr>"
  have "hub_inv (h1\<lparr>hub_rooms := bt_put k ?r (hub_rooms h1)\<rparr>)" if "rm_clients r \<noteq> []"
  proof (rule hub_inv_put_same [OF h1(1)])
    show "bt_get (hub_rooms h1) k = Some r" by (simp add: h1 Some)
    show "room_inv (hub_next_id h1) ?r"
      using hub_invD(3) [OF h Some] that
      by (auto simp: h1 room_inv_def room_empty_def conn_ids_def)
  qed (auto simp: conn_ids_def)
  then show ?thesis
    using Some hub_inv_del [OF h1(1)] by (simp add: release_daemon_def h1_def [symmetric] Let_def)
qed (simp add: release_daemon_def h)

section \<open>Routing reaches exactly the other side of the room\<close>

definition deliver_effect :: "'ch chan_ops \<Rightarrow> byte list \<Rightarrow> 'ch \<Rightarrow> 'ch" where
  "deliver_effect ops frame ch =
     (case ch_try_send ops (Frame frame) ch of
        (QueueFull, ch') \<Rightarrow> snd (ch_try_send ops (Close ''peer is not keeping up'') ch')
      | (_, ch') \<Rightarrow> ch')"

definition accepts :: "'ch chan_ops \<Rightarrow> byte list \<Rightarrow> 'ch option \<Rightarrow> bool" where
  "accepts ops frame ch =
     (case ch of None \<Rightarrow> False | Some c \<Rightarrow> fst (ch_try_send ops (Frame frame) c) = Sent)"

lemma deliver_eq:
  "deliver ops frame i (n, h) =
     (if accepts ops frame (hub_channels h i) then Suc n else n,
      h\<lparr>hub_channels := (hub_channels h)
          (i := map_option (deliver_effect ops frame) (hub_channels h i))\<rparr>)"
proof (cases "hub_channels h i")
  case None
  then have "(hub_channels h)(i := None) = hub_channels h" by auto
  with None show ?thesis by (simp add: deliver_def send_to_def accepts_def)
next
  case (Some ch)
  obtain res ch' where t: "ch_try_send ops (Frame frame) ch = (res, ch')" by fastforce
  with Some show ?thesis
    by (cases res) (simp_all add: deliver_def send_to_def accepts_def deliver_effect_def
        case_prod_unfold Let_def)
qed

lemma hub_channels_upd_cong:
  "(\<And>j. f j = g j) \<Longrightarrow> h\<lparr>hub_channels := f\<rparr> = h\<lparr>hub_channels := g\<rparr>"
  by presburger

lemma fold_deliver:
  "distinct ids \<Longrightarrow> fold (deliver ops frame) ids (n, h) =
     (n + length (filter (\<lambda>i. accepts ops frame (hub_channels h i)) ids),
      h\<lparr>hub_channels := (\<lambda>j. if j \<in> set ids then map_option (deliver_effect ops frame) (hub_channels h j)
                             else hub_channels h j)\<rparr>)"
proof (induction ids arbitrary: n h)
  case Nil
  then show ?case by simp
next
  case (Cons i ids)
  let ?chs = "(hub_channels h)(i := map_option (deliver_effect ops frame) (hub_channels h i))"
  have "filter (\<lambda>j. accepts ops frame (?chs j)) ids =
      filter (\<lambda>j. accepts ops frame (hub_channels h j)) ids"
    using Cons.prems by (intro filter_cong) auto
  with Cons show ?case by (auto simp: deliver_eq intro!: hub_channels_upd_cong)
qed

lemma targets_reachable:
  "i \<in> set (map conn_id (targets r from)) \<Longrightarrow> find_conn r (peer_role from) i \<noteq> None"
  by (cases "from"; cases "rm_daemon r") (auto simp: find_None_iff)

lemma distinct_targets: "room_inv n r \<Longrightarrow> distinct (map conn_id (targets r from))"
  by (cases "from") (auto simp: room_inv_def conn_ids_def split: option.splits)

lemma route_eq:
  assumes h: "hub_inv h" and k: "bt_get (hub_rooms h) k = Some r" and i: "find_conn r from i \<noteq> None"
  shows "route ops k from i frame h =
    (let ids = map conn_id (targets r from) in
     (Inr (length (filter (\<lambda>t. accepts ops frame (hub_channels h t)) ids)),
      h\<lparr>hub_channels := (\<lambda>j. if j \<in> set ids then map_option (deliver_effect ops frame) (hub_channels h j)
                             else hub_channels h j)\<rparr>))"
proof -
  have "filter (\<lambda>t. find_conn r (peer_role from) t \<noteq> None) (map conn_id (targets r from))
      = map conn_id (targets r from)"
    using targets_reachable by (intro filter_True) blast
  with k i show ?thesis
    using distinct_targets [OF hub_invD(3) [OF h k], of "from"]
    by (simp only: route_def option.case if_False Let_def) (simp add: fold_deliver)
qed

lemma route_unparked:
  "bt_get (hub_rooms h) k = None \<or> (\<exists>r. bt_get (hub_rooms h) k = Some r \<and> find_conn r from i = None) \<Longrightarrow>
   route ops k from i frame h = (Inl Gone, h)"
  by (auto simp: route_def)

lemma route_keeps_rooms:
  assumes h: "hub_inv h"
  shows "hub_rooms (snd (route ops k from i frame h)) = hub_rooms h"
    and "hub_inv (snd (route ops k from i frame h))"
proof -
  have "hub_rooms (snd (route ops k from i frame h)) = hub_rooms h
      \<and> hub_inv (snd (route ops k from i frame h))"
  proof (cases "\<exists>r. bt_get (hub_rooms h) k = Some r \<and> find_conn r from i \<noteq> None")
    case True
    then obtain r where r: "bt_get (hub_rooms h) k = Some r" "find_conn r from i \<noteq> None" by blast
    show ?thesis using hub_inv_channels [OF h] by (simp add: route_eq [OF h r] Let_def)
  next
    case False
    then have "route ops k from i frame h = (Inl Gone, h)"
      by (intro route_unparked) (cases "bt_get (hub_rooms h) k"; auto)
    with h show ?thesis by simp
  qed
  then show "hub_rooms (snd (route ops k from i frame h)) = hub_rooms h"
    and "hub_inv (snd (route ops k from i frame h))" by blast+
qed

section \<open>The hub as a state machine\<close>

text \<open>
  A step is one locked section of \<open>ingress.rs\<close>, or a writer task taking from its own channel. The
  counter of connection ids is a \<open>u64\<close>: the steps are those before it would wrap.
\<close>

inductive hub_step :: "'ch chan_ops \<Rightarrow> 'ch hub \<Rightarrow> 'ch hub \<Rightarrow> bool" for ops where
  step_park: "hub_next_id h \<noteq> - 1 \<Longrightarrow> hub_step ops h (snd (park ops k role h))"
| step_unpark: "hub_step ops h (snd (unpark k role i h))"
| step_release: "hub_step ops h (snd (release_daemon ops k h))"
| step_route: "hub_step ops h (snd (route ops k from i frame h))"
| step_drain: "hub_channels h i \<noteq> None \<Longrightarrow>
    hub_step ops h (h\<lparr>hub_channels := (hub_channels h)(i := Some ch)\<rparr>)"

lemma park_max: "hub_max_rooms (snd (park ops k role h)) = hub_max_rooms h"
  by (auto simp: park_def ensure_room_def Let_def split: sum.splits option.splits)

lemma unpark_max: "hub_max_rooms (snd (unpark k role i h)) = hub_max_rooms h"
  by (auto simp: unpark_def put_or_forget_def case_prod_unfold Let_def split: option.splits)

lemma release_max: "hub_max_rooms (snd (release_daemon ops k h)) = hub_max_rooms h"
  by (auto simp: release_daemon_def Let_def split: option.splits)

lemma deliver_max: "hub_max_rooms (snd (deliver ops frame i p)) = hub_max_rooms (snd p)"
  by (cases p) (simp add: deliver_eq)

lemma route_max: "hub_max_rooms (snd (route ops k from i frame h)) = hub_max_rooms h"
proof -
  have "hub_max_rooms (snd (fold (deliver ops frame) ids p)) = hub_max_rooms (snd p)" for ids p
    by (induction ids arbitrary: p) (simp_all add: deliver_max)
  then show ?thesis by (auto simp: route_def Let_def case_prod_unfold split: option.splits)
qed

lemma hub_step_inv:
  assumes "hub_inv h" and "hub_step ops h h'"
  shows "hub_inv h' \<and> hub_max_rooms h' = hub_max_rooms h"
  using assms(2,1)
proof (induction rule: hub_step.induct)
  case (step_drain h i ch)
  then show ?case by (auto intro!: hub_inv_channels)
qed (auto simp: park_inv unpark_inv release_daemon_inv route_keeps_rooms
    park_max unpark_max release_max route_max)

lemma hub_new_max: "hub_max_rooms (hub_new n) = n"
  by (simp add: hub_new_def)

interpretation hub: guarded_machine "\<lambda>h. h = hub_new n" "hub_step ops"
    "\<lambda>h. hub_inv h \<and> hub_max_rooms h = n" "\<lambda>h. hub_len h \<le> n"
  for n :: nat and ops :: "'ch chan_ops"
  by unfold_locales (auto simp: hub_inv_new hub_step_inv hub_len_def hub_new_max dest: hub_invD(2))

section \<open>Properties\<close>

text \<open>
  C8. In every state the hub can reach, it holds at most \<open>max_rooms\<close> rooms, no room is empty,
  no room has more than sixteen clients, and a connection id is in one room, once: the capacity
  limit stays meaningful and a frame can never be routed to two owners of an id.
\<close>

theorem hub_reachable_safe:
  assumes "reachable (\<lambda>h. h = hub_new n) (hub_step ops) h"
  shows "hub_len h \<le> n \<and> hub_inv h"
  using hub.reachable_safe [OF assms] hub.reachable_inv [OF assms] by simp

definition demo_hub :: "queue hub" where
  "demo_hub = snd (park queue_ops ''r1'' RoleClient (snd (park queue_ops ''r1'' RoleDaemon (hub_new 4))))"

lemma demo_hub_reachable: "reachable (\<lambda>h. h = hub_new 4) (hub_step queue_ops) demo_hub"
proof -
  let ?h1 = "snd (park queue_ops ''r1'' RoleDaemon (hub_new 4))"
  have "hub_next_id (hub_new 4 :: queue hub) \<noteq> - 1" by (simp add: hub_new_def)
  then have "reachable (\<lambda>h. h = hub_new 4) (hub_step queue_ops) ?h1"
    by (blast intro: reach_init reach_step step_park)
  moreover have "hub_next_id ?h1 \<noteq> - 1"
    by (simp add: park_absent hub_new_def parked_def)
  ultimately show ?thesis unfolding demo_hub_def by (blast intro: reach_step step_park)
qed

lemma demo_hub_inv: "hub_inv demo_hub"
  using hub.reachable_inv [OF demo_hub_reachable] by simp

theorem hub_reachable_safe_witness: "hub_len demo_hub \<le> 4 \<and> hub_inv demo_hub"
  by (rule hub_reachable_safe [OF demo_hub_reachable])

text \<open>
  \<open>park\<close>, on every branch. A daemon gets in unless it would need a new room and the relay is
  full; it takes the place of the daemon that was there. A client gets in exactly when the room has
  a daemon and fewer than sixteen clients. A refusal names its reason and changes nothing: it
  creates no room and uses up no slot and no id.
\<close>

theorem park_outcome:
  assumes "hub_inv h"
  shows "park ops k role h =
    (case (bt_get (hub_rooms h) k, role) of
       (None, RoleDaemon) \<Rightarrow>
         if hub_max_rooms h \<le> hub_len h then (Inl (AtCapacity (hub_max_rooms h)), h)
         else (Inr (hub_next_id h), parked ops k
                 \<lparr>rm_daemon = Some \<lparr>conn_id = hub_next_id h\<rparr>, rm_clients = []\<rparr> h)
     | (None, RoleClient) \<Rightarrow>
         (Inl (if hub_max_rooms h \<le> hub_len h then AtCapacity (hub_max_rooms h) else NoDaemon), h)
     | (Some r, RoleDaemon) \<Rightarrow>
         (Inr (hub_next_id h), parked ops k (r\<lparr>rm_daemon := Some \<lparr>conn_id = hub_next_id h\<rparr>\<rparr>) h)
     | (Some r, RoleClient) \<Rightarrow>
         if rm_daemon r = None then (Inl NoDaemon, h)
         else if length (rm_clients r) = 16 then (Inl (TooManyClients 16), h)
         else (Inr (hub_next_id h), parked ops k
                 (r\<lparr>rm_clients := rm_clients r @ [\<lparr>conn_id = hub_next_id h\<rparr>]\<rparr>) h))"
proof (cases "bt_get (hub_rooms h) k")
  case None
  then show ?thesis
    by (cases role) (auto simp: park_absent [OF hub_invD(1) [OF assms]] hub_len_def)
next
  case (Some r)
  have "length (rm_clients r) \<le> 16"
    using hub_invD(3) [OF assms Some] by (simp add: room_inv_def)
  note full = full_room_iff [OF this, unfolded MAX_DEVICES_PER_ROOM_def]
  from Some show ?thesis
    by (cases role) (auto simp: park_present join_room_def full MAX_DEVICES_PER_ROOM_def)
qed

theorem park_outcome_witness:
  "fst (park queue_ops ''r1'' RoleClient (hub_new 4)) = Inl NoDaemon
     \<and> hub_inv (hub_new 4 :: queue hub)"
  using park_outcome [OF hub_inv_new [of 4], of queue_ops "''r1''" RoleClient] hub_inv_new
  by (auto simp: hub_new_def hub_len_def)

text \<open>
  Routing is exactly the other side of the sender's room. A frame from a parked connection is
  offered to every connection on the other side of that room, once and byte for byte, the number
  returned is the number of channels that took it, and no other channel, room or counter changes.
\<close>

theorem route_delivers_exactly:
  assumes "hub_inv h" and "bt_get (hub_rooms h) k = Some r" and "find_conn r from i \<noteq> None"
  shows "fst (route ops k from i frame h) =
      Inr (card {t \<in> conn_id ` set (targets r from). accepts ops frame (hub_channels h t)})
    \<and> hub_rooms (snd (route ops k from i frame h)) = hub_rooms h
    \<and> hub_next_id (snd (route ops k from i frame h)) = hub_next_id h
    \<and> (\<forall>t. hub_channels (snd (route ops k from i frame h)) t =
         (if t \<in> conn_id ` set (targets r from)
          then map_option (deliver_effect ops frame) (hub_channels h t) else hub_channels h t))"
proof -
  let ?ids = "map conn_id (targets r from)"
  have "distinct (filter (\<lambda>t. accepts ops frame (hub_channels h t)) ?ids)"
    using distinct_targets [OF hub_invD(3) [OF assms(1,2)]] by (rule distinct_filter)
  from distinct_card [OF this, symmetric]
  have "length (filter (\<lambda>t. accepts ops frame (hub_channels h t)) ?ids) =
      card {t \<in> conn_id ` set (targets r from). accepts ops frame (hub_channels h t)}"
    by (simp only: set_filter set_map)
  then show ?thesis by (simp add: route_eq [OF assms] Let_def)
qed

lemma demo_hub_eq:
  "bt_get (hub_rooms demo_hub) ''r1'' =
     Some \<lparr>rm_daemon = Some \<lparr>conn_id = 1\<rparr>, rm_clients = [\<lparr>conn_id = 2\<rparr>]\<rparr>"
  "hub_channels demo_hub 1 = Some \<lparr>q_cap = 64, q_items = [], q_receiver_alive = True\<rparr>"
  by (simp_all add: demo_hub_def park_absent park_present hub_new_def parked_def join_room_def
      MAX_DEVICES_PER_ROOM_def queue_ops_def FRAME_QUEUE_def bt_put_def)

theorem route_delivers_exactly_witness:
  "fst (route queue_ops ''r1'' RoleClient 2 [1, 2] demo_hub) = Inr 1"
proof -
  have "find_conn \<lparr>rm_daemon = Some \<lparr>conn_id = 1\<rparr>, rm_clients = [\<lparr>conn_id = 2\<rparr>]\<rparr> RoleClient 2 \<noteq> None"
    by simp
  from route_delivers_exactly [OF _ demo_hub_eq(1) this, of queue_ops "[1, 2]"]
  have "fst (route queue_ops ''r1'' RoleClient 2 [1, 2] demo_hub) =
      Inr (card {t. t = 1 \<and> accepts queue_ops [1, 2] (hub_channels demo_hub t)})"
    using demo_hub_inv by simp
  moreover have "{t. t = 1 \<and> accepts queue_ops [1, 2] (hub_channels demo_hub t)} = {1}"
    by (auto simp: demo_hub_eq accepts_def queue_ops_def)
  ultimately show ?thesis by simp
qed

text \<open>
  A daemon that re-registers supersedes the one before it: whatever the old connection sends
  from then on is refused as \<open>Gone\<close> and reaches nobody, and the old connection's own departure
  neither stops the room from being served nor changes the table.
\<close>

theorem superseded_daemon_is_gone:
  assumes h: "hub_inv h" and n: "hub_next_id h \<noteq> - 1"
    and old: "bt_get (hub_rooms h) k = Some r" "rm_daemon r = Some c"
    and park: "park ops k RoleDaemon h = (Inr i, h')"
  shows "route ops k RoleDaemon (conn_id c) frame h' = (Inl Gone, h')
    \<and> unpark k RoleDaemon (conn_id c) h' = (Nothing, h')
    \<and> is_served k h' \<and> find_conn (r\<lparr>rm_daemon := Some \<lparr>conn_id = i\<rparr>\<rparr>) RoleDaemon i \<noteq> None"
proof -
  let ?r = "r\<lparr>rm_daemon := Some \<lparr>conn_id = i\<rparr>\<rparr>"
  have ok: "bt_ok (hub_rooms h)" by (rule hub_invD(1) [OF h])
  have i: "i = hub_next_id h" and h': "h' = parked ops k ?r h"
    using park by (auto simp: park_present [OF old(1)] join_room_def)
  have "conn_id c < i"
    using hub_invD(3) [OF h old(1)] old(2) i by (simp add: room_inv_def conn_ids_def)
  then have ne: "conn_id c \<noteq> i" by simp
  have get: "bt_get (hub_rooms h') k = Some ?r" by (simp add: h' parked_def ok)
  have same: "bt_put k ?r (hub_rooms h') = hub_rooms h'"
    using ok by (simp add: h' parked_def bt_put_put)
  show ?thesis
    using get ne same
    by (auto simp: route_def unpark_def leave_room_def is_served_def put_or_forget_def room_empty_def)
qed

theorem superseded_daemon_is_gone_witness:
  "fst (route queue_ops ''r1'' RoleDaemon 1 [7] (snd (park queue_ops ''r1'' RoleDaemon demo_hub)))
     = Inl Gone"
proof -
  have n: "hub_next_id demo_hub = 3"
    by (simp add: demo_hub_def park_absent park_present hub_new_def parked_def join_room_def
        MAX_DEVICES_PER_ROOM_def)
  have "park queue_ops ''r1'' RoleDaemon demo_hub =
      (Inr 3, snd (park queue_ops ''r1'' RoleDaemon demo_hub))"
    by (simp add: park_present [OF demo_hub_eq(1)] join_room_def n)
  from superseded_daemon_is_gone [OF demo_hub_inv _ demo_hub_eq(1) _ this, of "\<lparr>conn_id = 1\<rparr>" "[7]"] n
  show ?thesis by simp
qed

text \<open>
  When the last client leaves, the relay releases the room's daemon: the daemon's own channel
  is offered the named close \<open>session over\<close>, the room is forgotten with its capacity slot, and the
  next client is refused with \<open>NoDaemon\<close> until a daemon parks again, however full the relay was.
\<close>

theorem last_client_releases_daemon:
  assumes h: "hub_inv h" and leave: "unpark k RoleClient i h = (LastClient, h1)"
    and rel: "release_daemon ops k h1 = (res, h2)"
  shows "res = Inr () \<and> bt_get (hub_rooms h2) k = None \<and> hub_len h2 < hub_max_rooms h2
    \<and> fst (park ops k RoleClient h2) = Inl NoDaemon
    \<and> (\<exists>r c ch. bt_get (hub_rooms h) k = Some r \<and> rm_daemon r = Some c
         \<and> hub_channels h (conn_id c) = Some ch
         \<and> hub_channels h2 (conn_id c) = Some (snd (ch_try_send ops (Close SESSION_OVER) ch)))"
proof -
  have h1: "hub_inv h1" using unpark_inv [OF h, of k RoleClient i] leave by simp
  obtain r r' where r: "bt_get (hub_rooms h) k = Some r"
    and l: "leave_room RoleClient i r = (LastClient, r')" and h1_eq: "h1 = put_or_forget k r' h"
    using leave by (auto simp: unpark_def Let_def split: option.splits prod.splits)
  obtain c where c: "rm_daemon r = Some c" "r' = r\<lparr>rm_clients := []\<rparr>"
    using l by (auto simp: leave_room_def Let_def split: if_splits)
  have ok: "bt_ok (hub_rooms h)" by (rule hub_invD(1) [OF h])
  have get1: "bt_get (hub_rooms h1) k = Some r'" and ch1: "hub_channels h1 = hub_channels h"
    using c ok by (simp_all add: h1_eq put_or_forget_def room_empty_def)
  have "conn_id c \<in> set (conn_ids r)" by (simp add: conn_ids_def c)
  from hub_invD(4) [OF h r this] obtain ch where ch: "hub_channels h (conn_id c) = Some ch" by blast
  have h2: "res = Inr ()" "hub_rooms h2 = bt_del k (hub_rooms h1)"
    "hub_channels h2 (conn_id c) = Some (snd (ch_try_send ops (Close SESSION_OVER) ch))"
    "hub_max_rooms h2 = hub_max_rooms h1"
    using rel get1 c ch ch1
    by (auto simp: release_daemon_def Let_def send_to_def case_prod_unfold)
  have "0 < length (hub_rooms h1)" using get1 by (cases "hub_rooms h1") auto
  moreover have "hub_len h2 = length (hub_rooms h1) - 1"
    using bt.len_del [OF hub_invD(1) [OF h1], of k] get1 h2(2) by (simp add: hub_len_def)
  ultimately have len: "hub_len h2 < hub_max_rooms h2"
    using hub_invD(2) [OF h1] h2(4) by linarith
  have "bt_ok (hub_rooms h2)" using bt.ok_del [OF hub_invD(1) [OF h1]] h2 by simp
  then have "fst (park ops k RoleClient h2) = Inl NoDaemon"
    using len h2(2) by (simp add: park_absent bt_get_del hub_len_def)
  with h2 len r c ch show ?thesis by (auto simp: bt_get_del)
qed

theorem last_client_releases_daemon_witness:
  "fst (park queue_ops ''r1'' RoleClient
     (snd (release_daemon queue_ops ''r1'' (snd (unpark ''r1'' RoleClient 2 demo_hub))))) = Inl NoDaemon"
proof -
  have "unpark ''r1'' RoleClient 2 demo_hub = (LastClient, snd (unpark ''r1'' RoleClient 2 demo_hub))"
    by (simp add: unpark_def demo_hub_eq leave_room_def)
  from last_client_releases_daemon [OF demo_hub_inv this surjective_pairing] show ?thesis by blast
qed

text \<open>
  The relay's frame check and the endpoints' decoder agree: \<open>validate_frame\<close> accepts a message
  exactly when \<open>decode\<close> reads one whole frame from it with nothing left over, and those messages
  are exactly the encodings of well-formed frames. So nothing the relay forwards can stall or
  desynchronise an endpoint's parser, and no frame an endpoint writes is refused.
\<close>

lemma validate_frame_iff_decode_aux:
  "validate_frame bs = Inr () \<longleftrightarrow> (\<exists>f. slice_decode bs = (Inr (Some f), []))"
proof
  assume "validate_frame bs = Inr ()"
  then show "\<exists>f. slice_decode bs = (Inr (Some f), [])"
    by (auto simp: validate_frame_def slice_decode_def Let_def MAX_FORWARDED_PAYLOAD_def
        frame_type_from_u16_Inr split: if_splits sum.splits)
next
  assume "\<exists>f. slice_decode bs = (Inr (Some f), [])"
  then show "validate_frame bs = Inr ()"
    by (auto simp: validate_frame_def slice_decode_def Let_def MAX_FORWARDED_PAYLOAD_def
        and_then_Inr_iff split: if_splits sum.splits)
qed

theorem validate_frame_iff_decode:
  "(validate_frame bs = Inr () \<longleftrightarrow> (\<exists>f. decode slice_buf bs = Done (Inr (Some f), [])))
    \<and> (validate_frame bs = Inr () \<longleftrightarrow> (\<exists>f. wf_frame f \<and> bs = frame_wr f))"
  using wire.rd_iff [of bs _ "[]"]
  by (simp add: validate_frame_iff_decode_aux decode_slice frame_rd_iff)

text \<open>
  With the bounded queue tokio documents, and no receive between the two sends of \<open>route\<close>, the
  close that is meant for a peer that is not keeping up is never queued: the queue is as full for
  the close as it was for the frame. The frame is dropped and the peer's connection stays open.
\<close>

theorem full_peer_is_never_told:
  assumes "q_receiver_alive q" and "length (q_items q) = q_cap q"
  shows "deliver_effect queue_ops frame q = q \<and> \<not> accepts queue_ops frame (Some q)"
  using assms by (simp add: deliver_effect_def accepts_def queue_ops_def)

theorem full_peer_is_never_told_witness:
  "deliver_effect queue_ops [1] \<lparr>q_cap = 1, q_items = [Frame [0]], q_receiver_alive = True\<rparr>
     = \<lparr>q_cap = 1, q_items = [Frame [0]], q_receiver_alive = True\<rparr>"
  by (rule full_peer_is_never_told [THEN conjunct1]) simp_all

end
