(* ===== verification/Channel.thy ===== *)
theory Channel
  imports Prelude
begin

text \<open>
  The contract of an ordered channel between two stateful ends: while the sender's and the
  receiver's states are in step (\<open>sync\<close>), what one end sends the other end reads back, and both
  stay in step. Delivery of a whole sequence follows once, here; \<open>Session\<close> interprets the locale on
  its seal and open.
\<close>

fun send_all :: "('m \<Rightarrow> 's \<Rightarrow> ('e + 'b) \<times> 's) \<Rightarrow> 'm list \<Rightarrow> 's \<Rightarrow> ('e + 'b list) \<times> 's" where
  "send_all snd_op [] s = (Inr [], s)"
| "send_all snd_op (m # ms) s =
     (case snd_op m s of
        (Inl e, s') \<Rightarrow> (Inl e, s')
      | (Inr b, s') \<Rightarrow>
          (case send_all snd_op ms s' of
             (Inl e, s'') \<Rightarrow> (Inl e, s'')
           | (Inr bs, s'') \<Rightarrow> (Inr (b # bs), s'')))"

fun recv_all :: "('b \<Rightarrow> 'r \<Rightarrow> ('e + 'm) \<times> 'r) \<Rightarrow> 'b list \<Rightarrow> 'r \<Rightarrow> ('e + 'm list) \<times> 'r" where
  "recv_all rcv_op [] r = (Inr [], r)"
| "recv_all rcv_op (b # bs) r =
     (case rcv_op b r of
        (Inl e, r') \<Rightarrow> (Inl e, r')
      | (Inr m, r') \<Rightarrow>
          (case recv_all rcv_op bs r' of
             (Inl e, r'') \<Rightarrow> (Inl e, r'')
           | (Inr ms, r'') \<Rightarrow> (Inr (m # ms), r'')))"

locale ordered_channel =
  fixes snd_op :: "'m \<Rightarrow> 's \<Rightarrow> ('e + 'b) \<times> 's"
    and rcv_op :: "'b \<Rightarrow> 'r \<Rightarrow> ('e + 'm) \<times> 'r"
    and sync :: "'s \<Rightarrow> 'r \<Rightarrow> bool"
  assumes delivers: "sync s r \<Longrightarrow> snd_op m s = (Inr b, s') \<Longrightarrow>
      \<exists>r'. rcv_op b r = (Inr m, r') \<and> sync s' r'"
begin

lemma delivers_all:
  "sync s r \<Longrightarrow> send_all snd_op ms s = (Inr bs, s') \<Longrightarrow>
   \<exists>r'. recv_all rcv_op bs r = (Inr ms, r') \<and> sync s' r'"
proof (induction ms arbitrary: s r bs)
  case Nil
  then show ?case by simp
next
  case (Cons m ms)
  from Cons.prems(2) obtain b s1 bs' where
    one: "snd_op m s = (Inr b, s1)" and rest: "send_all snd_op ms s1 = (Inr bs', s')"
    and bs: "bs = b # bs'"
    by (auto split: prod.splits sum.splits)
  from delivers [OF Cons.prems(1) one] obtain r1 where
    "rcv_op b r = (Inr m, r1)" "sync s1 r1" by blast
  moreover from Cons.IH [OF this(2) rest] obtain r' where
    "recv_all rcv_op bs' r1 = (Inr ms, r')" "sync s' r'" by blast
  ultimately show ?case by (simp add: bs)
qed

end

end
