(* ===== verification/Session.thy ===== *)
theory Session
  imports Channel
begin

text \<open>
  \<open>session.rs\<close> of \<open>dr-dsh-crypto\<close>: sealed frames, the nonce discipline and the key schedule.

  AES-256-GCM, HKDF-SHA256 and SHA-256 are library code outside the repository; they are the record
  \<open>crypto\<close>, an argument of every operation that calls them. \<open>aead_contract\<close> states what an AEAD
  documents: decrypting what was encrypted gives it back, and only what encryption produces for the
  same key, nonce and associated data decrypts.
\<close>

section \<open>The primitives\<close>

record crypto =
  aead_new :: "byte list \<Rightarrow> string + unit"
  aead_encrypt :: "byte list \<Rightarrow> byte list \<Rightarrow> byte list \<Rightarrow> byte list \<Rightarrow> byte list option"
  aead_decrypt :: "byte list \<Rightarrow> byte list \<Rightarrow> byte list \<Rightarrow> byte list \<Rightarrow> byte list option"
  hkdf_expand :: "byte list option \<Rightarrow> byte list \<Rightarrow> byte list \<Rightarrow> nat \<Rightarrow> string + byte list"
  sha256 :: "byte list \<Rightarrow> byte list"

definition aead_contract :: "crypto \<Rightarrow> bool" where
  "aead_contract cr \<longleftrightarrow>
     (\<forall>key nonce aad msg ct. aead_decrypt cr key nonce ct aad = Some msg
        \<longleftrightarrow> aead_encrypt cr key nonce msg aad = Some ct)"

text \<open>A concrete AEAD for the witnesses: the key, the nonce and the data travel with the message.\<close>

definition demo_crypto :: crypto where
  "demo_crypto = \<lparr>aead_new = (\<lambda>key. Inr ()),
     aead_encrypt = (\<lambda>key nonce msg aad. Some (key @ nonce @ aad @ msg)),
     aead_decrypt = (\<lambda>key nonce ct aad.
       let tag = key @ nonce @ aad in
       if take (length tag) ct = tag then Some (drop (length tag) ct) else None),
     hkdf_expand = (\<lambda>salt ikm info n. Inr (take n (info @ ikm @ replicate n 0))),
     sha256 = (\<lambda>m. take 32 (m @ replicate 32 0))\<rparr>"

lemma demo_aead_contract: "aead_contract demo_crypto"
proof -
  have "(if take (length t) ct = t then Some (drop (length t) ct) else None) = Some msg
      \<longleftrightarrow> t @ msg = ct" for t ct msg :: "byte list"
    by (auto, metis append_take_drop_id)
  from this [where t = "k @ n @ a" for k n a] show ?thesis
    by (simp add: aead_contract_def demo_crypto_def Let_def)
qed

section \<open>Constants and errors\<close>

definition NONCE_LEN :: nat where "NONCE_LEN = 12"
definition TAG_LEN :: nat where "TAG_LEN = 16"
definition SESSION_KEY_LEN :: nat where "SESSION_KEY_LEN = 32"
definition COUNTER_LEN :: nat where "COUNTER_LEN = 8"
definition SEALED_OVERHEAD :: nat where "SEALED_OVERHEAD = COUNTER_LEN + TAG_LEN"

definition FRAME_AAD :: "byte list" where "FRAME_AAD = as_bytes ''dsh-remote/v1/frame''"
definition SESSION_CLIENT_TO_DAEMON :: "byte list" where
  "SESSION_CLIENT_TO_DAEMON = as_bytes ''dsh-remote/v1/session/c2d''"
definition SESSION_DAEMON_TO_CLIENT :: "byte list" where
  "SESSION_DAEMON_TO_CLIENT = as_bytes ''dsh-remote/v1/session/d2c''"

datatype session_error =
    Authentication
  | Sequence (received: u64) (expected: u64)
  | NonceExhausted
  | Derivation string

datatype session_role = SessionClient | SessionDaemon

fun session_peer :: "session_role \<Rightarrow> session_role" where
  "session_peer SessionClient = SessionDaemon"
| "session_peer SessionDaemon = SessionClient"

section \<open>One direction of a session\<close>

record session_cipher =
  sc_key :: "byte list"
  sc_nonce :: u64

definition cipher_new :: "byte list \<Rightarrow> session_cipher" where
  "cipher_new key = \<lparr>sc_key = key, sc_nonce = 0\<rparr>"

definition nonce_bytes :: "u64 \<Rightarrow> byte list" where
  "nonce_bytes counter = replicate 4 0 @ put_u64 counter"

definition additional_data :: "u32 \<Rightarrow> u64 \<Rightarrow> byte list" where
  "additional_data stream_id counter = FRAME_AAD @ put_u32 stream_id @ put_u64 counter"

definition cipher_of :: "crypto \<Rightarrow> session_cipher \<Rightarrow> session_error + unit" where
  "cipher_of cr c = map_err Derivation (aead_new cr (sc_key c))"

definition seal :: "crypto \<Rightarrow> u32 \<Rightarrow> byte list \<Rightarrow> session_cipher
    \<Rightarrow> (session_error + byte list) \<times> session_cipher" where
  "seal cr stream_id plaintext c =
     (let counter = sc_nonce c in
      case checked_add counter 1 of
        None \<Rightarrow> (Inl NonceExhausted, c)
      | Some next \<Rightarrow>
          (case cipher_of cr c of
             Inl e \<Rightarrow> (Inl e, c)
           | Inr _ \<Rightarrow>
               (case aead_encrypt cr (sc_key c) (nonce_bytes counter) plaintext
                       (additional_data stream_id counter) of
                  None \<Rightarrow> (Inl Authentication, c)
                | Some body \<Rightarrow> (Inr (put_u64 counter @ body), c\<lparr>sc_nonce := next\<rparr>))))"

definition open_sealed :: "crypto \<Rightarrow> u32 \<Rightarrow> byte list \<Rightarrow> session_cipher
    \<Rightarrow> (session_error + byte list) \<times> session_cipher" where
  "open_sealed cr stream_id sealed c =
     (let expected = sc_nonce c in
      if length sealed < COUNTER_LEN then (Inl Authentication, c)
      else let counter = get_u64 (take COUNTER_LEN sealed) in
      if counter \<noteq> expected then (Inl (Sequence counter expected), c)
      else (case checked_add counter 1 of
              None \<Rightarrow> (Inl NonceExhausted, c)
            | Some next \<Rightarrow>
                (case cipher_of cr c of
                   Inl e \<Rightarrow> (Inl e, c)
                 | Inr _ \<Rightarrow>
                     (case aead_decrypt cr (sc_key c) (nonce_bytes counter) (drop COUNTER_LEN sealed)
                             (additional_data stream_id counter) of
                        None \<Rightarrow> (Inl Authentication, c)
                      | Some plaintext \<Rightarrow> (Inr plaintext, c\<lparr>sc_nonce := next\<rparr>)))))"

section \<open>A session\<close>

record session =
  ss_role :: session_role
  ss_sealing :: session_cipher
  ss_opening :: session_cipher

definition derive_key :: "crypto \<Rightarrow> byte list \<Rightarrow> byte list \<Rightarrow> byte list
    \<Rightarrow> session_error + byte list" where
  "derive_key cr root salt info =
     map_err Derivation (hkdf_expand cr (Some salt) root info SESSION_KEY_LEN)"

definition session_derive :: "crypto \<Rightarrow> byte list \<Rightarrow> byte list \<Rightarrow> session_role
    \<Rightarrow> session_error + session" where
  "session_derive cr root salt role =
     and_then (derive_key cr root salt SESSION_CLIENT_TO_DAEMON) (\<lambda>client_to_daemon.
     and_then (derive_key cr root salt SESSION_DAEMON_TO_CLIENT) (\<lambda>daemon_to_client.
       let (sealing_key, opening_key) =
         (case role of
            SessionClient \<Rightarrow> (client_to_daemon, daemon_to_client)
          | SessionDaemon \<Rightarrow> (daemon_to_client, client_to_daemon)) in
       Inr \<lparr>ss_role = role, ss_sealing = cipher_new sealing_key,
            ss_opening = cipher_new opening_key\<rparr>))"

definition session_seal :: "crypto \<Rightarrow> u32 \<Rightarrow> byte list \<Rightarrow> session
    \<Rightarrow> (session_error + byte list) \<times> session" where
  "session_seal cr stream_id plaintext s =
     (let (r, c) = seal cr stream_id plaintext (ss_sealing s) in (r, s\<lparr>ss_sealing := c\<rparr>))"

definition session_open :: "crypto \<Rightarrow> u32 \<Rightarrow> byte list \<Rightarrow> session
    \<Rightarrow> (session_error + byte list) \<times> session" where
  "session_open cr stream_id sealed s =
     (let (r, c) = open_sealed cr stream_id sealed (ss_opening s) in (r, s\<lparr>ss_opening := c\<rparr>))"

definition set_sealed_count :: "u64 \<Rightarrow> session \<Rightarrow> session" where
  "set_sealed_count counter s = s\<lparr>ss_sealing := (ss_sealing s)\<lparr>sc_nonce := counter\<rparr>\<rparr>"

definition set_opened_count :: "u64 \<Rightarrow> session \<Rightarrow> session" where
  "set_opened_count counter s = s\<lparr>ss_opening := (ss_opening s)\<lparr>sc_nonce := counter\<rparr>\<rparr>"

definition sealed_count :: "session \<Rightarrow> u64" where "sealed_count s = sc_nonce (ss_sealing s)"
definition opened_count :: "session \<Rightarrow> u64" where "opened_count s = sc_nonce (ss_opening s)"

definition key_fingerprint :: "crypto \<Rightarrow> session_cipher \<Rightarrow> byte list" where
  "key_fingerprint cr c = sha256 cr (sc_key c)"

section \<open>When sealing and opening succeed\<close>

lemma checked_add_one: "checked_add c 1 = (if c = - 1 then None else Some (c + 1 :: u64))"
proof (cases "c = - 1")
  case True
  then show ?thesis by (simp add: checked_add_def unsigned_minus_1_eq_mask mask_eq_exp_minus_1)
next
  case False
  have "unat (c + 1) < 2 ^ 64" using unat_lt [of "c + 1"] by simp
  with False show ?thesis using unat_plus_one [OF False] by (simp add: checked_add_def)
qed

definition seals_as :: "crypto \<Rightarrow> session_cipher \<Rightarrow> u32 \<Rightarrow> byte list \<Rightarrow> byte list \<Rightarrow> bool" where
  "seals_as cr c stream_id plaintext sealed \<longleftrightarrow> sc_nonce c \<noteq> - 1 \<and> aead_new cr (sc_key c) = Inr ()
     \<and> (\<exists>body. sealed = put_u64 (sc_nonce c) @ body
          \<and> aead_encrypt cr (sc_key c) (nonce_bytes (sc_nonce c)) plaintext
              (additional_data stream_id (sc_nonce c)) = Some body)"

lemma seal_Inr_iff:
  "seal cr stream_id plaintext c = (Inr sealed, c') \<longleftrightarrow>
     seals_as cr c stream_id plaintext sealed \<and> c' = c\<lparr>sc_nonce := sc_nonce c + 1\<rparr>"
  by (cases "aead_new cr (sc_key c)")
    (auto simp: seal_def seals_as_def Let_def checked_add_one cipher_of_def split: option.splits)

lemma seal_error_keeps: "seal cr stream_id plaintext c = (Inl e, c') \<Longrightarrow> c' = c"
  by (auto simp: seal_def Let_def split: sum.splits option.splits)

lemma open_error_keeps: "open_sealed cr stream_id sealed c = (Inl e, c') \<Longrightarrow> c' = c"
  by (auto simp: open_sealed_def Let_def split: sum.splits option.splits if_splits)

lemma sealed_prefix:
  "\<not> length sealed < COUNTER_LEN \<Longrightarrow>
   get_u64 (take COUNTER_LEN sealed) = n \<longleftrightarrow> sealed = put_u64 n @ drop COUNTER_LEN sealed"
  using put_get_u64 [of "take COUNTER_LEN sealed"] append_take_drop_id [of COUNTER_LEN sealed]
  by (metis COUNTER_LEN_def get_put_u64 length_put(3) length_take min_absorb2 not_less take_append_exact)

lemma open_Inr_iff:
  assumes "aead_contract cr"
  shows "open_sealed cr stream_id sealed c = (Inr plaintext, c') \<longleftrightarrow>
     seals_as cr c stream_id plaintext sealed \<and> c' = c\<lparr>sc_nonce := sc_nonce c + 1\<rparr>"
proof (cases "\<not> length sealed < COUNTER_LEN \<and> get_u64 (take COUNTER_LEN sealed) = sc_nonce c")
  case True
  then have l: "\<not> length sealed < COUNTER_LEN" and g: "get_u64 (take COUNTER_LEN sealed) = sc_nonce c"
    by blast+
  obtain body where body: "sealed = put_u64 (sc_nonce c) @ body"
    using l g sealed_prefix by blast
  then have drop: "drop COUNTER_LEN sealed = body" by (simp add: COUNTER_LEN_def)
  let ?dec = "aead_decrypt cr (sc_key c) (nonce_bytes (sc_nonce c)) body
      (additional_data stream_id (sc_nonce c))"
  have law: "?dec = Some plaintext \<longleftrightarrow> aead_encrypt cr (sc_key c) (nonce_bytes (sc_nonce c)) plaintext
      (additional_data stream_id (sc_nonce c)) = Some body"
    using assms by (simp add: aead_contract_def)
  have "seals_as cr c stream_id plaintext sealed \<longleftrightarrow>
      sc_nonce c \<noteq> - 1 \<and> aead_new cr (sc_key c) = Inr () \<and> ?dec = Some plaintext"
    by (simp add: seals_as_def body law)
  then show ?thesis
    using l g drop
    by (cases "aead_new cr (sc_key c)"; cases ?dec)
      (auto simp: open_sealed_def Let_def checked_add_one cipher_of_def)
next
  case False
  then have "open_sealed cr stream_id sealed c \<noteq> (Inr plaintext, c')"
    by (auto simp: open_sealed_def Let_def)
  moreover have "\<not> seals_as cr c stream_id plaintext sealed"
    using False by (auto simp: seals_as_def COUNTER_LEN_def)
  ultimately show ?thesis by blast
qed

section \<open>Delivery through a derived session\<close>

definition seal_msg :: "crypto \<Rightarrow> u32 \<times> byte list \<Rightarrow> session \<Rightarrow> (session_error + u32 \<times> byte list) \<times> session" where
  "seal_msg cr m s = (case session_seal cr (fst m) (snd m) s of
     (Inl e, s') \<Rightarrow> (Inl e, s') | (Inr f, s') \<Rightarrow> (Inr (fst m, f), s'))"

definition open_msg :: "crypto \<Rightarrow> u32 \<times> byte list \<Rightarrow> session \<Rightarrow> (session_error + u32 \<times> byte list) \<times> session" where
  "open_msg cr b s = (case session_open cr (fst b) (snd b) s of
     (Inl e, s') \<Rightarrow> (Inl e, s') | (Inr m, s') \<Rightarrow> (Inr (fst b, m), s'))"

definition in_step :: "crypto \<Rightarrow> session \<Rightarrow> session \<Rightarrow> bool" where
  "in_step cr s r \<longleftrightarrow> aead_contract cr \<and> ss_sealing s = ss_opening r"

lemma session_seal_Inr_iff:
  "session_seal cr i m s = (Inr f, s') \<longleftrightarrow> seals_as cr (ss_sealing s) i m f
     \<and> s' = s\<lparr>ss_sealing := (ss_sealing s)\<lparr>sc_nonce := sc_nonce (ss_sealing s) + 1\<rparr>\<rparr>"
proof (cases "seal cr i m (ss_sealing s)")
  case (Pair a b)
  let ?c = "(ss_sealing s)\<lparr>sc_nonce := sc_nonce (ss_sealing s) + 1\<rparr>"
  from Pair show ?thesis
    using seal_Inr_iff [of cr i m "ss_sealing s" f b] seal_Inr_iff [of cr i m "ss_sealing s" f ?c]
    by (auto simp: session_seal_def)
qed

lemma session_open_Inr_iff:
  "aead_contract cr \<Longrightarrow> session_open cr i f r = (Inr m, r') \<longleftrightarrow> seals_as cr (ss_opening r) i m f
     \<and> r' = r\<lparr>ss_opening := (ss_opening r)\<lparr>sc_nonce := sc_nonce (ss_opening r) + 1\<rparr>\<rparr>"
proof (cases "open_sealed cr i f (ss_opening r)")
  case (Pair a b)
  assume A: "aead_contract cr"
  let ?c = "(ss_opening r)\<lparr>sc_nonce := sc_nonce (ss_opening r) + 1\<rparr>"
  from Pair show ?thesis
    using open_Inr_iff [OF A, of i f "ss_opening r" m b] open_Inr_iff [OF A, of i f "ss_opening r" m ?c]
    by (auto simp: session_open_def)
qed

lemma seal_msg_Inr_iff:
  "seal_msg cr m s = (Inr b, s') \<longleftrightarrow> fst b = fst m \<and> session_seal cr (fst m) (snd m) s = (Inr (snd b), s')"
  by (cases b) (auto simp: seal_msg_def split: prod.splits sum.splits)

lemma open_msg_Inr_iff:
  "open_msg cr b r = (Inr m, r') \<longleftrightarrow> fst m = fst b \<and> session_open cr (fst b) (snd b) r = (Inr (snd m), r')"
  by (cases m) (auto simp: open_msg_def split: prod.splits sum.splits)

interpretation sealed: ordered_channel "seal_msg cr" "open_msg cr" "in_step cr" for cr
  by unfold_locales
    (auto simp: in_step_def seal_msg_Inr_iff open_msg_Inr_iff session_seal_Inr_iff
      session_open_Inr_iff)

lemma session_derive_in_step:
  assumes "aead_contract cr" and "session_derive cr root salt SessionClient = Inr c"
    and "session_derive cr root salt SessionDaemon = Inr d"
  shows "in_step cr c d \<and> in_step cr d c"
  using assms by (auto simp: session_derive_def and_then_Inr_iff in_step_def)

section \<open>Runs of one cipher\<close>

fun seal_run :: "crypto \<Rightarrow> (u32 \<times> byte list) list \<Rightarrow> session_cipher \<Rightarrow> byte list list \<times> session_cipher" where
  "seal_run cr [] c = ([], c)"
| "seal_run cr (m # ms) c =
     (case seal cr (fst m) (snd m) c of
        (Inl e, c') \<Rightarrow> seal_run cr ms c'
      | (Inr f, c') \<Rightarrow> (let (fs, c'') = seal_run cr ms c' in (f # fs, c'')))"

fun open_run :: "crypto \<Rightarrow> (u32 \<times> byte list) list \<Rightarrow> session_cipher
    \<Rightarrow> (u32 \<times> byte list \<times> byte list) list \<times> session_cipher" where
  "open_run cr [] c = ([], c)"
| "open_run cr (b # bs) c =
     (case open_sealed cr (fst b) (snd b) c of
        (Inl e, c') \<Rightarrow> open_run cr bs c'
      | (Inr m, c') \<Rightarrow> (let (ms, c'') = open_run cr bs c' in ((fst b, snd b, m) # ms, c'')))"

definition counter_of :: "byte list \<Rightarrow> nat" where
  "counter_of f = unat (get_u64 (take COUNTER_LEN f))"

lemma seals_as_counter: "seals_as cr c i m f \<Longrightarrow> counter_of f = unat (sc_nonce c)"
  by (auto simp: seals_as_def counter_of_def COUNTER_LEN_def)

lemma seals_as_next: "seals_as cr c i m f \<Longrightarrow> unat (sc_nonce c + 1) = Suc (unat (sc_nonce c))"
  by (simp add: seals_as_def unat_plus_one)

lemma upt_Cons_Suc: "a < b \<Longrightarrow> a # [Suc a..<b] = [a..<b]"
  by (simp add: upt_conv_Cons)

lemma seal_run_counters:
  "seal_run cr ms c = (fs, c') \<Longrightarrow>
   map counter_of fs = [unat (sc_nonce c)..<unat (sc_nonce c')] \<and> sc_key c' = sc_key c
   \<and> unat (sc_nonce c) \<le> unat (sc_nonce c')"
proof (induction ms arbitrary: c fs)
  case Nil
  then show ?case by simp
next
  case (Cons m ms)
  obtain r c1 where one: "seal cr (fst m) (snd m) c = (r, c1)" by fastforce
  show ?case
  proof (cases r)
    case (Inl e)
    with one have "c1 = c" by (auto dest: seal_error_keeps)
    with one Inl Cons show ?thesis by simp
  next
    case (Inr f)
    then have s: "seals_as cr c (fst m) (snd m) f" "c1 = c\<lparr>sc_nonce := sc_nonce c + 1\<rparr>"
      using one seal_Inr_iff by auto
    from Cons.prems one Inr obtain fs' where rest: "seal_run cr ms c1 = (fs', c')" "fs = f # fs'"
      by (auto split: prod.splits)
    with Cons.IH [OF this(1)] s show ?thesis
      by (auto simp: seals_as_counter seals_as_next upt_Cons_Suc)
  qed
qed

lemma open_run_counters:
  assumes A: "aead_contract cr"
  shows "open_run cr bs c = (ms, c') \<Longrightarrow>
   map (\<lambda>(i, f, m). counter_of f) ms = [unat (sc_nonce c)..<unat (sc_nonce c')] \<and> sc_key c' = sc_key c
   \<and> unat (sc_nonce c) \<le> unat (sc_nonce c')
   \<and> (\<forall>(i, f, m) \<in> set ms. seals_as cr (c\<lparr>sc_nonce := of_nat (counter_of f)\<rparr>) i m f)"
proof (induction bs arbitrary: c ms)
  case Nil
  then show ?case by simp
next
  case (Cons b bs)
  obtain r c1 where one: "open_sealed cr (fst b) (snd b) c = (r, c1)" by fastforce
  show ?case
  proof (cases r)
    case (Inl e)
    with one have "c1 = c" by (auto dest: open_error_keeps)
    with one Inl Cons show ?thesis by simp
  next
    case (Inr m)
    then have s: "seals_as cr c (fst b) m (snd b)" "c1 = c\<lparr>sc_nonce := sc_nonce c + 1\<rparr>"
      using one open_Inr_iff [OF A] by auto
    from Cons.prems one Inr obtain ms' where
      rest: "open_run cr bs c1 = (ms', c')" "ms = (fst b, snd b, m) # ms'"
      by (auto split: prod.splits)
    have head: "seals_as cr (c\<lparr>sc_nonce := of_nat (counter_of (snd b))\<rparr>) (fst b) m (snd b)"
      using s(1) seals_as_counter [OF s(1)] by simp
    have "c1\<lparr>sc_nonce := n\<rparr> = c\<lparr>sc_nonce := n\<rparr>" for n using s(2) by simp
    with Cons.IH [OF rest(1)] rest(2) s head show ?thesis
      by (auto simp: seals_as_counter seals_as_next upt_Cons_Suc)
  qed
qed

section \<open>Properties\<close>

text \<open>
  Opening is the exact inverse of sealing at the same counter: with an AEAD that keeps its
  documented contract, a frame opens to a payload exactly when sealing that payload for that stream
  in that state would have produced that frame, byte for byte, and both ends advance alike. A frame
  sealed for another stream, under another counter or another key state is never accepted unless it
  is also the sealing of the accepted payload here.
\<close>

theorem open_iff_seal:
  assumes "aead_contract cr"
  shows "open_sealed cr stream_id sealed c = (Inr plaintext, c')
    \<longleftrightarrow> seal cr stream_id plaintext c = (Inr sealed, c')"
  by (simp add: open_Inr_iff [OF assms] seal_Inr_iff)

theorem open_iff_seal_witness:
  "open_sealed demo_crypto 3 (put_u64 0 @ replicate 2 9 @ nonce_bytes 0 @ additional_data 3 0 @ [1, 2])
     (cipher_new (replicate 2 9)) = (Inr [1, 2], \<lparr>sc_key = replicate 2 9, sc_nonce = 1\<rparr>)"
proof -
  have "seal demo_crypto 3 [1, 2] (cipher_new (replicate 2 9)) =
      (Inr (put_u64 0 @ replicate 2 9 @ nonce_bytes 0 @ additional_data 3 0 @ [1, 2]),
       \<lparr>sc_key = replicate 2 9, sc_nonce = 1\<rparr>)"
    by (simp add: seal_def cipher_new_def checked_add_one cipher_of_def demo_crypto_def)
  then show ?thesis by (simp only: open_iff_seal [OF demo_aead_contract])
qed

text \<open>
  C21. A nonce is never used twice by one cipher. Over any sequence of seals, failures included,
  the counters of the frames produced are consecutive from the first, so all AEAD nonces are
  distinct, and the counter never wraps: sealing stops with \<open>NonceExhausted\<close> first.
\<close>

lemma nonce_bytes_inj: "nonce_bytes a = nonce_bytes b \<longleftrightarrow> a = b"
  by (metis nonce_bytes_def append_same_eq same_append_eq get_put_u64)

theorem seal_never_reuses_a_nonce:
  assumes "seal_run cr ms c = (fs, c')"
  shows "map counter_of fs = [unat (sc_nonce c)..<unat (sc_nonce c')]
    \<and> distinct (map (\<lambda>f. nonce_bytes (get_u64 (take COUNTER_LEN f))) fs)"
proof -
  from seal_run_counters [OF assms]
  have counters: "map counter_of fs = [unat (sc_nonce c)..<unat (sc_nonce c')]" by blast
  then have "distinct (map counter_of fs)" by simp
  then have "distinct (map (\<lambda>f. nonce_bytes (get_u64 (take COUNTER_LEN f))) fs)"
    by (auto simp: distinct_map inj_on_def counter_of_def nonce_bytes_inj)
  with counters show ?thesis by blast
qed

theorem seal_never_reuses_a_nonce_witness:
  "map counter_of (fst (seal_run demo_crypto [(1, []), (2, [5])] (cipher_new []))) = [0, 1]"
proof -
  let ?run = "seal_run demo_crypto [(1, []), (2, [5])] (cipher_new [])"
  have "sc_nonce (snd ?run) = 2"
    by (simp add: seal_def cipher_new_def checked_add_one cipher_of_def demo_crypto_def)
  moreover have "[unat (0::u64)..<unat (2::u64)] = [0, 1]" by (simp add: upt_rec)
  ultimately show ?thesis
    using seal_never_reuses_a_nonce [OF surjective_pairing [of ?run]] by (simp add: cipher_new_def)
qed

text \<open>
  C20. Whatever the relay feeds a receiver (dropped, repeated, reordered or altered frames, moved to
  other streams), the frames it accepts carry consecutive counters, each is the sealing of the
  payload it was opened to, for the stream it was presented on, and a refused frame changes
  nothing: no frame is accepted twice and none is accepted out of order.
\<close>

theorem receiver_accepts_in_order:
  assumes "aead_contract cr" and "open_run cr bs c = (ms, c')"
  shows "map (\<lambda>(i, f, m). counter_of f) ms = [unat (sc_nonce c)..<unat (sc_nonce c')]
    \<and> distinct (map (\<lambda>(i, f, m). f) ms)
    \<and> (\<forall>(i, f, m) \<in> set ms.
         fst (seal cr i m (c\<lparr>sc_nonce := of_nat (counter_of f)\<rparr>)) = Inr f)"
proof -
  from open_run_counters [OF assms]
  have counters: "map (\<lambda>(i, f, m). counter_of f) ms = [unat (sc_nonce c)..<unat (sc_nonce c')]"
    and sealed: "\<forall>(i, f, m) \<in> set ms. seals_as cr (c\<lparr>sc_nonce := of_nat (counter_of f)\<rparr>) i m f"
    by blast+
  have "map counter_of (map (\<lambda>(i, f, m). f) ms) = map (\<lambda>(i, f, m). counter_of f) ms" by auto
  then have "distinct (map counter_of (map (\<lambda>(i, f, m). f) ms))" using counters by simp
  then have "distinct (map (\<lambda>(i, f, m). f) ms)" using distinct_map by blast
  moreover have "fst (seal cr i m (c\<lparr>sc_nonce := of_nat (counter_of f)\<rparr>)) = Inr f"
    if "(i, f, m) \<in> set ms" for i f m
    using sealed that seal_Inr_iff by (metis (no_types, lifting) case_prodD fst_conv)
  ultimately show ?thesis using counters by blast
qed

theorem receiver_accepts_in_order_witness:
  "map (\<lambda>(i, f, m). counter_of f) (fst (open_run demo_crypto
     [(1, put_u64 0 @ nonce_bytes 0 @ additional_data 1 0),
      (1, put_u64 0 @ nonce_bytes 0 @ additional_data 1 0)] (cipher_new []))) = [0]"
proof -
  let ?run = "open_run demo_crypto
     [(1, put_u64 0 @ nonce_bytes 0 @ additional_data 1 0),
      (1, put_u64 0 @ nonce_bytes 0 @ additional_data 1 0)] (cipher_new [])"
  have "sc_nonce (snd ?run) = 1"
    by (simp add: open_sealed_def cipher_new_def checked_add_one cipher_of_def demo_crypto_def
        COUNTER_LEN_def Let_def)
  then show ?thesis
    using receiver_accepts_in_order [OF demo_aead_contract surjective_pairing [of ?run]]
    by (simp add: cipher_new_def)
qed

text \<open>
  Two ends that derive their session from the same root and salt, one in each role, are in
  step in both directions: any sequence of payloads on any streams that one end seals, the other
  end opens in order to exactly those payloads.
\<close>

theorem derived_sessions_deliver:
  assumes "aead_contract cr"
    and "session_derive cr root salt SessionClient = Inr client"
    and "session_derive cr root salt SessionDaemon = Inr daemon"
    and "send_all (seal_msg cr) ms client = (Inr up, client')"
    and "send_all (seal_msg cr) ns daemon = (Inr down, daemon')"
  shows "fst (recv_all (open_msg cr) up daemon) = Inr ms
    \<and> fst (recv_all (open_msg cr) down client) = Inr ns"
proof -
  from session_derive_in_step [OF assms(1-3)]
  have "in_step cr client daemon" "in_step cr daemon client" by blast+
  with sealed.delivers_all assms(4,5) show ?thesis by (metis fst_conv)
qed

theorem derived_sessions_deliver_witness:
  "\<exists>client daemon up. session_derive demo_crypto [7] [9] SessionClient = Inr client
    \<and> session_derive demo_crypto [7] [9] SessionDaemon = Inr daemon
    \<and> fst (send_all (seal_msg demo_crypto) [(3, [1, 2]), (5, [])] client) = Inr up
    \<and> fst (recv_all (open_msg demo_crypto) up daemon) = Inr [(3, [1, 2]), (5, [])]"
proof -
  obtain client where client: "session_derive demo_crypto [7] [9] SessionClient = Inr client"
    and n: "sc_nonce (ss_sealing client) = 0"
    by (simp add: session_derive_def derive_key_def demo_crypto_def cipher_new_def)
  obtain daemon where daemon: "session_derive demo_crypto [7] [9] SessionDaemon = Inr daemon"
    by (simp add: session_derive_def derive_key_def demo_crypto_def cipher_new_def)
  obtain up where up: "fst (send_all (seal_msg demo_crypto) [(3, [1, 2]), (5, [])] client) = Inr up"
    using n by (simp add: seal_msg_def session_seal_def seal_def checked_add_one cipher_of_def
        demo_crypto_def)
  have "send_all (seal_msg demo_crypto) [(3, [1, 2]), (5, [])] client =
      (Inr up, snd (send_all (seal_msg demo_crypto) [(3, [1, 2]), (5, [])] client))"
    using up by (simp add: prod_eq_iff)
  from derived_sessions_deliver [OF demo_aead_contract client daemon this,
      of "[]" "[]" daemon] client daemon up
  show ?thesis by auto
qed

end
