(* ===== verification/Utf8.thy ===== *)
theory Utf8
  imports Codec
begin

text \<open>
  Rust strings and characters. A \<open>char\<close> of the sources is a Unicode scalar value, here a natural
  number satisfying \<open>is_scalar\<close>; \<open>char_wr\<close> and \<open>char_rd\<close> are its UTF-8 encoding and the decoder that
  \<open>from_utf8\<close> applies. The interpretation \<open>utf8\<close> shows the format canonical, so a byte string is valid
  UTF-8 in at most one way, and \<open>chars\<close> and \<open>of_chars\<close> (the iterator \<open>chars\<close> and \<open>collect\<close>) are inverse.
\<close>

section \<open>One character\<close>

definition is_scalar :: "nat \<Rightarrow> bool" where
  "is_scalar c \<longleftrightarrow> c < 0x110000 \<and> \<not> (0xD800 \<le> c \<and> c < 0xE000)"

definition char_wr :: "nat \<Rightarrow> byte list" where
  "char_wr c =
     (if c < 0x80 then [of_nat c]
      else if c < 0x800 then [of_nat (0xC0 + c div 64), of_nat (0x80 + c mod 64)]
      else if c < 0x10000
        then [of_nat (0xE0 + c div 4096), of_nat (0x80 + c div 64 mod 64), of_nat (0x80 + c mod 64)]
      else [of_nat (0xF0 + c div 262144), of_nat (0x80 + c div 4096 mod 64),
            of_nat (0x80 + c div 64 mod 64), of_nat (0x80 + c mod 64)])"

definition is_cont :: "byte \<Rightarrow> bool" where
  "is_cont b \<longleftrightarrow> 0x80 \<le> unat b \<and> unat b < 0xC0"

definition cont :: "byte \<Rightarrow> nat" where "cont b = unat b - 0x80"

fun char_rd :: "byte list \<Rightarrow> (nat \<times> byte list) option" where
  "char_rd [] = None"
| "char_rd (a # bs) =
     (let n = unat a in
      if n < 0x80 then Some (n, bs)
      else (case bs of
        b # r \<Rightarrow>
          if 0xC2 \<le> n \<and> n < 0xE0 \<and> is_cont b then Some ((n - 0xC0) * 64 + cont b, r)
          else (case r of
            b2 # r2 \<Rightarrow>
              let c = (n - 0xE0) * 4096 + cont b * 64 + cont b2 in
              if 0xE0 \<le> n \<and> n < 0xF0 \<and> is_cont b \<and> is_cont b2 \<and> 0x800 \<le> c \<and> is_scalar c
              then Some (c, r2)
              else (case r2 of
                b3 # r3 \<Rightarrow>
                  let d = (n - 0xF0) * 262144 + cont b * 4096 + cont b2 * 64 + cont b3 in
                  if 0xF0 \<le> n \<and> n < 0xF8 \<and> is_cont b \<and> is_cont b2 \<and> is_cont b3
                     \<and> 0x10000 \<le> d \<and> is_scalar d
                  then Some (d, r3) else None
              | [] \<Rightarrow> None)
          | [] \<Rightarrow> None)
      | [] \<Rightarrow> None))"

lemma unat_byte_lt [simp]: "unat (b :: byte) < 256"
  using unat_lt [of b] by simp

lemma of_nat_unat_byte: "unat (b :: byte) = n \<Longrightarrow> of_nat n = b"
  by auto

lemma cont_of [simp]:
  "is_cont (of_nat (128 + n mod 64))" "cont (of_nat (128 + n mod 64)) = n mod 64"
proof -
  have "(128 + n mod 64) mod 256 = 128 + n mod 64" by (simp add: mod_less)
  then show "is_cont (of_nat (128 + n mod 64))" "cont (of_nat (128 + n mod 64)) = n mod 64"
    by (simp_all add: is_cont_def cont_def del: of_nat_add)
qed

lemma is_cont_D: "is_cont b \<Longrightarrow> b = of_nat (128 + cont b) \<and> cont b < 64"
  by (auto simp: is_cont_def cont_def)

lemma digits64: "(c::nat) div 64 mod 64 * 64 + c mod 64 = c mod 4096"
  "(c::nat) div 4096 mod 64 * 4096 + c mod 4096 = c mod 262144"
  using mod_mult2_eq [of c 64 64] mod_mult2_eq [of c 4096 64] by simp_all

lemma lead_byte: "n < 256 \<Longrightarrow> unat (of_nat n :: byte) = n"
  by simp

lemma char_rd_wr: "is_scalar c \<Longrightarrow> char_rd (char_wr c @ rest) = Some (c, rest)"
proof -
  assume c: "is_scalar c"
  consider "c < 0x80" | "0x80 \<le> c" "c < 0x800" | "0x800 \<le> c" "c < 0x10000"
    | "0x10000 \<le> c" "c < 0x110000"
    using c by (fastforce simp: is_scalar_def)
  then show ?thesis
  proof cases
    case 1
    then show ?thesis by (simp add: char_wr_def lead_byte)
  next
    case 2
    then have "unat (of_nat (0xC0 + c div 64) :: byte) = 0xC0 + c div 64"
      by (intro lead_byte) linarith
    moreover have "2 \<le> c div 64" "c div 64 < 32" using 2 by linarith+
    ultimately show ?thesis
      using 2 by (simp add: char_wr_def del: of_nat_add)
  next
    case 3
    then have "unat (of_nat (0xE0 + c div 4096) :: byte) = 0xE0 + c div 4096"
      by (intro lead_byte) linarith
    moreover have "c div 4096 < 16" using 3 by linarith
    moreover have "c div 4096 * 4096 + c div 64 mod 64 * 64 + c mod 64 = c"
      using digits64(1) [of c] div_mult_mod_eq [of c 4096] by linarith
    ultimately show ?thesis
      using 3 c by (simp add: char_wr_def Let_def del: of_nat_add)
  next
    case 4
    then have "unat (of_nat (0xF0 + c div 262144) :: byte) = 0xF0 + c div 262144"
      by (intro lead_byte) linarith
    moreover have "c div 262144 < 8" using 4 by linarith
    moreover have "c div 262144 * 262144 + c div 4096 mod 64 * 4096 + c div 64 mod 64 * 64 + c mod 64 = c"
      using digits64 [of c] div_mult_mod_eq [of c 262144] by linarith
    ultimately show ?thesis
      using 4 c by (simp add: char_wr_def Let_def del: of_nat_add)
  qed
qed

lemma div_mod_64: "c = m * 64 + r \<Longrightarrow> r < 64 \<Longrightarrow> c div 64 = m \<and> c mod 64 = (r::nat)"
  by simp

lemma lead_byte_eq: "k \<le> unat b \<Longrightarrow> b = of_nat (k + (unat (b :: byte) - k))"
  by simp

lemma char_wr_rd:
  assumes "char_rd bs = Some (c, rest)"
  shows "is_scalar c \<and> bs = char_wr c @ rest"
proof -
  obtain a r where bs: "bs = a # r" using assms by (cases bs) auto
  let ?n = "unat a"
  from assms consider
      "?n < 0x80" "c = ?n" "rest = r"
    | b where "0xC2 \<le> ?n" "?n < 0xE0" "is_cont b" "r = b # rest" "c = (?n - 0xC0) * 64 + cont b"
    | b b2 where "0xE0 \<le> ?n" "?n < 0xF0" "is_cont b" "is_cont b2" "r = b # b2 # rest"
        "c = (?n - 0xE0) * 4096 + cont b * 64 + cont b2" "0x800 \<le> c" "is_scalar c"
    | b b2 b3 where "0xF0 \<le> ?n" "?n < 0xF8" "is_cont b" "is_cont b2" "is_cont b3"
        "r = b # b2 # b3 # rest"
        "c = (?n - 0xF0) * 262144 + cont b * 4096 + cont b2 * 64 + cont b3" "0x10000 \<le> c" "is_scalar c"
    unfolding bs by (auto simp: Let_def split: if_splits list.splits)
  then show ?thesis
  proof cases
    case 1
    then show ?thesis using bs by (simp add: char_wr_def is_scalar_def)
  next
    case 2
    note b = is_cont_D [OF 2(3)]
    define m where "m = ?n - 0xC0"
    have m: "c = m * 64 + cont b" "2 \<le> m" "m < 32" using 2 by (simp_all add: m_def)
    have "c div 64 = m" "c mod 64 = cont b" using div_mod_64 [OF m(1)] b by blast+
    moreover have "0x80 \<le> c" "c < 0x800" using m b [THEN conjunct2] by linarith+
    ultimately show ?thesis
      using 2(4) b lead_byte_eq [of "0xC0" a] 2(1) bs
      by (simp add: char_wr_def is_scalar_def m_def del: of_nat_add)
  next
    case 3
    note b = is_cont_D [OF 3(3)] is_cont_D [OF 3(4)]
    define m where "m = ?n - 0xE0"
    have m: "c = (m * 64 + cont b) * 64 + cont b2" "m < 16" using 3 by (simp_all add: m_def)
    have d: "c div 64 = m * 64 + cont b" "c mod 64 = cont b2" using div_mod_64 [OF m(1)] b by blast+
    have "c div 64 mod 64 = cont b" "c div 64 div 64 = m" using div_mod_64 [OF d(1)] b by blast+
    moreover have "c div 4096 = c div 64 div 64" by (simp add: div_mult2_eq)
    moreover have "c = 4096 * m + 64 * cont b + cont b2" using m(1) by simp
    then have "c < 0x10000" using m(2) b [THEN conjunct2] by linarith
    ultimately show ?thesis
      using 3(1,5,7,8) d b lead_byte_eq [of "0xE0" a] bs
      by (simp add: char_wr_def m_def del: of_nat_add)
  next
    case 4
    note b = is_cont_D [OF 4(3)] is_cont_D [OF 4(4)] is_cont_D [OF 4(5)]
    define m where "m = ?n - 0xF0"
    have m: "c = ((m * 64 + cont b) * 64 + cont b2) * 64 + cont b3" using 4 by (simp add: m_def)
    have d: "c div 64 = (m * 64 + cont b) * 64 + cont b2" "c mod 64 = cont b3"
      using div_mod_64 [OF m(1)] b by blast+
    have e: "c div 64 mod 64 = cont b2" "c div 64 div 64 = m * 64 + cont b"
      using div_mod_64 [OF d(1)] b by blast+
    have "c div 64 div 64 mod 64 = cont b" "c div 64 div 64 div 64 = m"
      using div_mod_64 [OF e(2)] b by blast+
    moreover have "c div 4096 = c div 64 div 64" "c div 262144 = c div 64 div 64 div 64"
      by (simp_all add: div_mult2_eq)
    ultimately show ?thesis
      using 4(1,6,8,9) d(2) e(1) b lead_byte_eq [of "0xF0" a] bs
      by (simp add: char_wr_def m_def del: of_nat_add)
  qed
qed

interpretation utf8: canonical_codec char_wr char_rd is_scalar
  by unfold_locales (auto simp: char_rd_wr dest: char_wr_rd)

section \<open>Strings\<close>

lemma char_wr_nonempty [simp]: "char_wr c \<noteq> []"
  by (simp add: char_wr_def)

lemma char_rd_shorter: "char_rd bs = Some (c, rest) \<Longrightarrow> length rest < length bs"
  using utf8.rd_consumes by (fastforce simp: less_Suc_eq_le)

function utf8_chars :: "byte list \<Rightarrow> nat list option" where
  "utf8_chars bs =
     (if bs = [] then Some []
      else case char_rd bs of None \<Rightarrow> None
        | Some (c, rest) \<Rightarrow> map_option ((#) c) (utf8_chars rest))"
  by auto

termination
  by (relation "measure length") (auto simp: char_rd_shorter)

declare utf8_chars.simps [simp del]

lemma utf8_chars_Nil [simp]: "utf8_chars [] = Some []"
  by (simp add: utf8_chars.simps)

definition utf8_bytes :: "nat list \<Rightarrow> byte list" where
  "utf8_bytes cs = concat (map char_wr cs)"

lemma utf8_bytes_simps [simp]:
  "utf8_bytes [] = []" "utf8_bytes (c # cs) = char_wr c @ utf8_bytes cs"
  "utf8_bytes (cs @ ds) = utf8_bytes cs @ utf8_bytes ds"
  by (simp_all add: utf8_bytes_def)

lemma utf8_chars_iff:
  "utf8_chars bs = Some cs \<longleftrightarrow> list_all is_scalar cs \<and> bs = utf8_bytes cs"
proof (induction bs arbitrary: cs rule: utf8_chars.induct)
  case (1 bs)
  show ?case
  proof (cases cs)
    case Nil
    then show ?thesis by (auto simp: utf8_chars.simps [of bs] split: option.splits)
  next
    case (Cons c cs')
    have "utf8_chars bs = Some (c # cs') \<longleftrightarrow>
        (\<exists>rest. char_rd bs = Some (c, rest) \<and> utf8_chars rest = Some cs')"
      by (auto simp: utf8_chars.simps [of bs] split: option.splits)
    also have "\<dots> \<longleftrightarrow> (\<exists>rest. char_rd bs = Some (c, rest) \<and> list_all is_scalar cs' \<and> rest = utf8_bytes cs')"
      using 1 by (metis char_rd.simps(1) option.distinct(1))
    finally show ?thesis using Cons by (auto simp: utf8.rd_iff)
  qed
qed

text \<open>The characters of a string and the string of characters.\<close>

definition chars :: "string \<Rightarrow> nat list" where
  "chars s = (case utf8_chars (as_bytes s) of None \<Rightarrow> [] | Some cs \<Rightarrow> cs)"

definition of_chars :: "nat list \<Rightarrow> string" where
  "of_chars cs = from_bytes (utf8_bytes cs)"

definition is_utf8 :: "string \<Rightarrow> bool" where
  "is_utf8 s \<longleftrightarrow> utf8_chars (as_bytes s) \<noteq> None"

lemma chars_of_chars [simp]: "list_all is_scalar cs \<Longrightarrow> chars (of_chars cs) = cs"
proof -
  assume "list_all is_scalar cs"
  then have "utf8_chars (utf8_bytes cs) = Some cs" by (simp add: utf8_chars_iff)
  then show ?thesis by (simp add: chars_def of_chars_def)
qed

lemma is_utf8_of_chars [simp]: "list_all is_scalar cs \<Longrightarrow> is_utf8 (of_chars cs)"
  using utf8_chars_iff [of "utf8_bytes cs" cs] by (simp add: is_utf8_def of_chars_def)

lemma is_utf8_iff: "is_utf8 s \<longleftrightarrow> (\<exists>cs. list_all is_scalar cs \<and> s = of_chars cs)"
proof
  assume "is_utf8 s"
  then obtain cs where "utf8_chars (as_bytes s) = Some cs" by (auto simp: is_utf8_def)
  then have "list_all is_scalar cs" "as_bytes s = utf8_bytes cs" by (simp_all add: utf8_chars_iff)
  then show "\<exists>cs. list_all is_scalar cs \<and> s = of_chars cs"
    by (metis of_chars_def from_as_bytes)
qed auto

lemma of_chars_chars [simp]: "is_utf8 s \<Longrightarrow> of_chars (chars s) = s"
  by (auto simp: is_utf8_iff)

lemma chars_scalar: "is_utf8 s \<Longrightarrow> list_all is_scalar (chars s)"
  by (auto simp: is_utf8_iff)

section \<open>ASCII\<close>

definition is_ascii :: "string \<Rightarrow> bool" where
  "is_ascii s \<longleftrightarrow> list_all (\<lambda>c. of_char c < (128::nat)) s"

lemma is_ascii_simps [simp]:
  "is_ascii []" "is_ascii (c # s) \<longleftrightarrow> of_char c < (128::nat) \<and> is_ascii s"
  "is_ascii (s @ t) \<longleftrightarrow> is_ascii s \<and> is_ascii t"
  by (simp_all add: is_ascii_def)

lemma ascii_bytes:
  "is_ascii s \<Longrightarrow> as_bytes s = utf8_bytes (map of_char s) \<and> list_all is_scalar (map of_char s)"
  by (induction s) (auto simp: as_bytes_def char_wr_def byte_of_char_def is_scalar_def)

lemma utf8_chars_ascii: "is_ascii s \<Longrightarrow> utf8_chars (as_bytes s) = Some (map of_char s)"
  using ascii_bytes [of s] by (simp add: utf8_chars_iff)

lemma is_utf8_ascii: "is_ascii s \<Longrightarrow> is_utf8 s"
  by (simp add: is_utf8_def utf8_chars_ascii)

lemma chars_ascii: "is_ascii s \<Longrightarrow> chars s = map of_char s"
  by (simp add: chars_def utf8_chars_ascii)

section \<open>Classes of characters\<close>

text \<open>\<open>char::is_whitespace\<close> (the White_Space property), \<open>char::is_control\<close> and \<open>to_ascii_uppercase\<close>.\<close>

definition is_whitespace :: "nat \<Rightarrow> bool" where
  "is_whitespace c \<longleftrightarrow> (9 \<le> c \<and> c \<le> 13) \<or> c = 0x20 \<or> c = 0x85 \<or> c = 0xA0 \<or> c = 0x1680
     \<or> (0x2000 \<le> c \<and> c \<le> 0x200A) \<or> c = 0x2028 \<or> c = 0x2029 \<or> c = 0x202F \<or> c = 0x205F \<or> c = 0x3000"

definition is_control :: "nat \<Rightarrow> bool" where
  "is_control c \<longleftrightarrow> c < 0x20 \<or> (0x7F \<le> c \<and> c < 0xA0)"

definition to_ascii_uppercase :: "nat \<Rightarrow> nat" where
  "to_ascii_uppercase c = (if 97 \<le> c \<and> c \<le> 122 then c - 32 else c)"

end
