(* ===== verification/Fs.thy ===== *)
theory Fs
  imports Utf8
begin

text \<open>
  The calls of \<open>std::fs\<close> the sources make, over regular files named by path strings. Every call can
  fail: \<open>fs_fault\<close> says which calls the environment refuses and with what error, and a refused write
  leaves only the first \<open>fs_torn\<close> bytes of its data in the file, as a crash or a full disk may. The
  locale \<open>durable\<close> is the contract of the components that keep their state in a file; it is
  interpreted in their theories.
\<close>

datatype io_error = NotFound | AlreadyExists | InvalidData | OtherError string

datatype fs_call =
    ReadCall string
  | WriteCall string
  | RenameCall string string
  | OpenCall string
  | AppendCall string string
  | CreateCall string
  | RemoveCall string
  | MkdirCall string
  | StatCall string

record fs =
  fs_files :: "string \<Rightarrow> byte list option"
  fs_fault :: "fs_call \<Rightarrow> io_error option"
  fs_torn :: nat

definition no_faults :: fs where
  "no_faults = \<lparr>fs_files = (\<lambda>_. None), fs_fault = (\<lambda>_. None), fs_torn = 0\<rparr>"

section \<open>Paths\<close>

text \<open>The last component of a path, its stem (up to the last dot that does not begin it) and \<open>with_extension\<close>.\<close>

definition file_name :: "string \<Rightarrow> string" where
  "file_name p = rev (takeWhile (\<lambda>c. c \<noteq> CHR ''/'') (rev p))"

definition file_stem :: "string \<Rightarrow> string" where
  "file_stem name =
     (if CHR ''.'' \<in> set (tl name)
      then rev (tl (dropWhile (\<lambda>c. c \<noteq> CHR ''.'') (rev name))) else name)"

definition with_extension :: "string \<Rightarrow> string \<Rightarrow> string" where
  "with_extension p ext =
     (let name = file_name p in
      if name = [] \<or> name = ''..'' then p
      else take (length p - length name) p @ file_stem name @ ''.'' @ ext)"

definition path_join :: "string \<Rightarrow> string \<Rightarrow> string" where
  "path_join d name =
     (if name \<noteq> [] \<and> hd name = CHR ''/'' then name
      else if d = [] \<or> last d = CHR ''/'' then d @ name
      else d @ ''/'' @ name)"

lemma file_name_suffix: "\<exists>d. p = d @ file_name p"
proof -
  have "rev p = takeWhile (\<lambda>c. c \<noteq> CHR ''/'') (rev p) @ dropWhile (\<lambda>c. c \<noteq> CHR ''/'') (rev p)"
    by simp
  then show ?thesis unfolding file_name_def by (metis rev_append rev_rev_ident)
qed

lemma file_name_join:
  assumes "CHR ''/'' \<notin> set n" and "n \<noteq> []"
  shows "file_name (path_join d n) = n"
proof -
  have w: "takeWhile (\<lambda>c. c \<noteq> CHR ''/'') (rev n) = rev n" using assms by (auto simp: takeWhile_eq_all_conv)
  have s: "file_name (d @ CHR ''/'' # n) = n" for d
    unfolding file_name_def using assms(1) by (simp add: w takeWhile_tail)
  have h: "hd n \<noteq> CHR ''/''" using assms by (cases n) auto
  consider "d = []" | d' where "d = d' @ [CHR ''/'']" | "d \<noteq> []" "last d \<noteq> CHR ''/''"
    by (metis append_butlast_last_id)
  then show ?thesis
  proof cases
    case 1
    have "file_name n = n" unfolding file_name_def by (simp only: w rev_rev_ident)
    with 1 h show ?thesis by (simp add: path_join_def)
  next
    case 2
    then show ?thesis using h s [of d'] by (simp add: path_join_def)
  next
    case 3
    then show ?thesis using h s [of d] by (simp add: path_join_def)
  qed
qed

lemma file_stem_dotted:
  assumes "s \<noteq> []" and "CHR ''.'' \<notin> set e"
  shows "file_stem (s @ ''.'' @ e) = s"
proof -
  have "CHR ''.'' \<in> set (tl (s @ ''.'' @ e))" using assms(1) by (cases s) auto
  moreover have "dropWhile (\<lambda>c. c \<noteq> CHR ''.'') (rev e @ CHR ''.'' # rev s) = CHR ''.'' # rev s"
    using assms(2) by (subst dropWhile_append3) auto
  ultimately show ?thesis by (simp add: file_stem_def)
qed

text \<open>A two-part extension such as \<open>json.tmp\<close> never names the file itself.\<close>

lemma with_extension_differs:
  assumes name: "file_name p \<noteq> []" "file_name p \<noteq> ''..''" and "e2 \<noteq> []"
    and e: "CHR ''.'' \<notin> set e1" "CHR ''.'' \<notin> set e2"
  shows "with_extension p (e1 @ ''.'' @ e2) \<noteq> p"
proof
  assume same: "with_extension p (e1 @ ''.'' @ e2) = p"
  let ?n = "file_name p" and ?s = "file_stem (file_name p)"
  obtain d where d: "p = d @ ?n" using file_name_suffix by blast
  then have l: "length p - length ?n = length d" by (metis add_diff_cancel_right' length_append)
  have "take (length d) p = d" by (subst d) simp
  then have "d @ ?s @ ''.'' @ e1 @ ''.'' @ e2 = d @ ?n"
    using same d l name by (simp add: with_extension_def Let_def)
  then have n: "?n = (?s @ ''.'' @ e1) @ ''.'' @ e2" by simp
  then have "file_stem ?n = ?s @ ''.'' @ e1"
    using file_stem_dotted [of "?s @ ''.'' @ e1" e2] e(2) by (metis Nil_is_append_conv list.distinct(1))
  then show False by simp
qed

section \<open>Calls\<close>

definition read_to_string :: "string \<Rightarrow> fs \<Rightarrow> io_error + string" where
  "read_to_string p fs =
     (case fs_fault fs (ReadCall p) of
        Some e \<Rightarrow> Inl e
      | None \<Rightarrow>
          (case fs_files fs p of
             None \<Rightarrow> Inl NotFound
           | Some bs \<Rightarrow> if is_utf8 (from_bytes bs) then Inr (from_bytes bs) else Inl InvalidData))"

definition set_file :: "string \<Rightarrow> byte list option \<Rightarrow> fs \<Rightarrow> fs" where
  "set_file p c fs = fs\<lparr>fs_files := (fs_files fs)(p := c)\<rparr>"

lemma set_file_simps [simp]:
  "fs_files (set_file p c fs) q = (if q = p then c else fs_files fs q)"
  "fs_fault (set_file p c fs) = fs_fault fs"
  "fs_torn (set_file p c fs) = fs_torn fs"
  by (simp_all add: set_file_def)

definition write_file :: "string \<Rightarrow> string \<Rightarrow> fs \<Rightarrow> (io_error + unit) \<times> fs" where
  "write_file p c fs =
     (case fs_fault fs (WriteCall p) of
        Some e \<Rightarrow> (Inl e, set_file p (Some (take (fs_torn fs) (as_bytes c))) fs)
      | None \<Rightarrow> (Inr (), set_file p (Some (as_bytes c)) fs))"

definition rename_file :: "string \<Rightarrow> string \<Rightarrow> fs \<Rightarrow> (io_error + unit) \<times> fs" where
  "rename_file p q fs =
     (case fs_fault fs (RenameCall p q) of
        Some e \<Rightarrow> (Inl e, fs)
      | None \<Rightarrow>
          (case fs_files fs p of
             None \<Rightarrow> (Inl NotFound, fs)
           | Some bs \<Rightarrow> (Inr (), set_file q (Some bs) (if p = q then fs else set_file p None fs))))"

definition file_bytes :: "string \<Rightarrow> fs \<Rightarrow> byte list" where
  "file_bytes p fs = (case fs_files fs p of None \<Rightarrow> [] | Some bs \<Rightarrow> bs)"

text \<open>A file opened for appending is created when it is missing; each write adds to its end.\<close>

definition open_append :: "string \<Rightarrow> fs \<Rightarrow> (io_error + unit) \<times> fs" where
  "open_append p fs =
     (case fs_fault fs (OpenCall p) of
        Some e \<Rightarrow> (Inl e, fs)
      | None \<Rightarrow> (Inr (), set_file p (Some (file_bytes p fs)) fs))"

definition append_file :: "string \<Rightarrow> string \<Rightarrow> fs \<Rightarrow> (io_error + unit) \<times> fs" where
  "append_file p c fs =
     (case fs_fault fs (AppendCall p c) of
        Some e \<Rightarrow> (Inl e, set_file p (Some (file_bytes p fs @ take (fs_torn fs) (as_bytes c))) fs)
      | None \<Rightarrow> (Inr (), set_file p (Some (file_bytes p fs @ as_bytes c)) fs))"

text \<open>\<open>create_new\<close> refuses a file that exists; the writes after it go to the new file.\<close>

definition create_new :: "string \<Rightarrow> fs \<Rightarrow> (io_error + unit) \<times> fs" where
  "create_new p fs =
     (case fs_fault fs (CreateCall p) of
        Some e \<Rightarrow> (Inl e, fs)
      | None \<Rightarrow> if fs_files fs p \<noteq> None then (Inl AlreadyExists, fs)
                else (Inr (), set_file p (Some []) fs))"

definition remove_file :: "string \<Rightarrow> fs \<Rightarrow> (io_error + unit) \<times> fs" where
  "remove_file p fs =
     (case fs_fault fs (RemoveCall p) of
        Some e \<Rightarrow> (Inl e, fs)
      | None \<Rightarrow> if fs_files fs p = None then (Inl NotFound, fs) else (Inr (), set_file p None fs))"

lemma read_to_string_Inr:
  "read_to_string p fs = Inr c \<longleftrightarrow>
     fs_fault fs (ReadCall p) = None \<and> fs_files fs p = Some (as_bytes c) \<and> is_utf8 c"
  by (auto simp: read_to_string_def split: option.splits)

lemma read_to_string_cong:
  "fs_files fs p = fs_files fs' p \<Longrightarrow> fs_fault fs = fs_fault fs' \<Longrightarrow>
   read_to_string p fs = read_to_string p fs'"
  unfolding read_to_string_def by (simp only:)

text \<open>
  The directory a path is in, as \<open>Path::parent\<close> has it; making it with its ancestors changes no
  regular file.
\<close>

definition path_parent :: "string \<Rightarrow> string option" where
  "path_parent p =
     (let name = dropWhile (\<lambda>c. c = CHR ''/'') (rev p);
          above = dropWhile (\<lambda>c. c \<noteq> CHR ''/'') name;
          dir = dropWhile (\<lambda>c. c = CHR ''/'') above
      in if name = [] then None else Some (if above \<noteq> [] \<and> dir = [] then ''/'' else rev dir))"

definition create_dir_all :: "string \<Rightarrow> fs \<Rightarrow> io_error + unit" where
  "create_dir_all d fs = (case fs_fault fs (MkdirCall d) of Some e \<Rightarrow> Inl e | None \<Rightarrow> Inr ())"

text \<open>\<open>Path::exists\<close>: a file whose metadata cannot be read counts as missing.\<close>

definition path_exists :: "string \<Rightarrow> fs \<Rightarrow> bool" where
  "path_exists p fs \<longleftrightarrow> fs_files fs p \<noteq> None \<and> fs_fault fs (StatCall p) = None"

section \<open>Replacing a file through a temporary one\<close>

text \<open>
  The write-then-rename that the registry and the pairing guard share: the named call is in the
  error so that their own errors can say which path failed.
\<close>

definition replace_file :: "string \<Rightarrow> string \<Rightarrow> string \<Rightarrow> fs \<Rightarrow> (string \<times> io_error + unit) \<times> fs" where
  "replace_file temporary p c fs =
     (case write_file temporary c fs of
        (Inl e, fs') \<Rightarrow> (Inl (temporary, e), fs')
      | (Inr _, fs') \<Rightarrow>
          (case rename_file temporary p fs' of
             (Inl e, fs'') \<Rightarrow> (Inl (p, e), fs'')
           | (Inr _, fs'') \<Rightarrow> (Inr (), fs'')))"

lemma replace_file_ok:
  assumes "replace_file t p c fs = (Inr (), fs')" and "t \<noteq> p"
  shows "fs_files fs' = (fs_files fs)(t := None, p := Some (as_bytes c)) \<and> fs_fault fs' = fs_fault fs"
  using assms
  by (auto simp: replace_file_def write_file_def rename_file_def split: option.splits prod.splits)

lemma replace_file_error:
  assumes "replace_file t p c fs = (Inl e, fs')" and "t \<noteq> p" and "q \<noteq> t"
  shows "fs_files fs' q = fs_files fs q \<and> fs_fault fs' = fs_fault fs"
  using assms
  by (auto simp: replace_file_def write_file_def rename_file_def split: option.splits prod.splits)

section \<open>The contract of state kept in a file\<close>

text \<open>
  \<open>save\<close> writes a state to a path and \<open>load\<close> reads it back as the state it stands for (\<open>stored\<close> says
  what of the state survives being written down); a missing file is the initial state.
\<close>

locale durable =
  fixes load :: "string \<Rightarrow> fs \<Rightarrow> 'e + 's"
    and save :: "string \<Rightarrow> 's \<Rightarrow> fs \<Rightarrow> ('e + unit) \<times> fs"
    and stored :: "'s \<Rightarrow> 's"
    and ok :: "'s \<Rightarrow> bool"
    and ok_path :: "string \<Rightarrow> bool"
    and initial :: 's
  assumes load_missing: "fs_fault fs (ReadCall p) = None \<Longrightarrow> fs_files fs p = None \<Longrightarrow> load p fs = Inr initial"
    and save_ok: "ok s \<Longrightarrow> ok_path p \<Longrightarrow> save p s fs = (Inr (), fs') \<Longrightarrow>
      fs_fault fs (ReadCall p) = None \<Longrightarrow> load p fs' = Inr (stored s)"
    and save_error: "ok_path p \<Longrightarrow> save p s fs = (Inl e, fs') \<Longrightarrow> load p fs' = load p fs"
    and save_faults: "save p s fs = (r, fs') \<Longrightarrow> fs_fault fs' = fs_fault fs"
begin

text \<open>Whatever happens to the writes, a later load sees the state before or the state after.\<close>

lemma save_is_atomic:
  assumes "ok s" and "ok_path p" and "fs_fault fs (ReadCall p) = None"
  shows "load p (snd (save p s fs)) \<in> {load p fs, Inr (stored s)}"
proof (cases "save p s fs")
  case (Pair r fs')
  then show ?thesis
    using save_ok [OF assms(1,2)] save_error [OF assms(2)] assms(3) by (cases r) auto
qed

text \<open>Over a sequence of saves, failures included, the file holds one of the states saved or the first.\<close>

lemma saves_are_atomic:
  assumes "ok_path p" and "fs_fault fs (ReadCall p) = None" and "\<forall>s \<in> set ss. ok s"
  shows "load p (fold (\<lambda>s fs. snd (save p s fs)) ss fs) \<in> {load p fs} \<union> (\<lambda>s. Inr (stored s)) ` set ss"
  using assms(2,3)
proof (induction ss arbitrary: fs)
  case Nil
  then show ?case by simp
next
  case (Cons s ss)
  have "fs_fault (snd (save p s fs)) = fs_fault fs" by (metis save_faults surjective_pairing)
  with Cons have "load p (fold (\<lambda>s fs. snd (save p s fs)) ss (snd (save p s fs)))
      \<in> {load p (snd (save p s fs))} \<union> (\<lambda>s. Inr (stored s)) ` set ss" by simp
  moreover have "load p (snd (save p s fs)) \<in> {load p fs, Inr (stored s)}"
    using save_is_atomic Cons.prems assms(1) by simp
  ultimately show ?case by auto
qed

end

end
