(* ===== verification/Json.thy ===== *)
theory Json
  imports Fs
begin

text \<open>
  \<open>serde_json\<close> and the derived (de)serialisers are code outside the repository: each stored shape has
  a record of its two conversions, an argument of the operations that use them. \<open>json_contract\<close> is what
  a derived pair promises: the text is UTF-8 and reads back as the value it was written from.
\<close>

record 'a json =
  to_json :: "'a \<Rightarrow> string + string"
  from_json :: "string \<Rightarrow> string + 'a"

definition json_contract :: "'a json \<Rightarrow> bool" where
  "json_contract js \<longleftrightarrow> (\<forall>x t. to_json js x = Inr t \<longrightarrow> is_utf8 t \<and> from_json js t = Inr x)"

lemma json_contractD: "json_contract js \<Longrightarrow> to_json js x = Inr t \<Longrightarrow> is_utf8 t \<and> from_json js t = Inr x"
  by (simp add: json_contract_def)

text \<open>A pair that keeps the contract, for one value.\<close>

definition demo_json :: "'a \<Rightarrow> 'a json" where
  "demo_json x =
     \<lparr>to_json = (\<lambda>y. if y = x then Inr ''{}'' else Inl ''unsupported''),
      from_json = (\<lambda>t. if t = ''{}'' then Inr x else Inl ''expected value'')\<rparr>"

lemma demo_json_contract: "json_contract (demo_json x)"
  by (auto simp: json_contract_def demo_json_def intro!: is_utf8_ascii)

section \<open>A state kept in a JSON file\<close>

text \<open>
  The pattern of the registry and the pairing guard: a missing file is the initial state, anything
  else that cannot be read or understood is an error; writing goes through \<open>with_extension("json.tmp")\<close>
  and a rename. \<open>unstore\<close> rebuilds the state from the stored shape.
\<close>

definition json_load :: "(string \<Rightarrow> io_error \<Rightarrow> 'e) \<Rightarrow> (string \<Rightarrow> string \<Rightarrow> 'e) \<Rightarrow> 'a json
    \<Rightarrow> (string \<Rightarrow> 'a \<Rightarrow> 'e + 's) \<Rightarrow> 's \<Rightarrow> string \<Rightarrow> fs \<Rightarrow> 'e + 's" where
  "json_load unreadable malformed js unstore initial p fs =
     (case read_to_string p fs of
        Inl NotFound \<Rightarrow> Inr initial
      | Inl e \<Rightarrow> Inl (unreadable p e)
      | Inr contents \<Rightarrow> and_then (map_err (malformed p) (from_json js contents)) (unstore p))"

definition json_save :: "(string \<Rightarrow> io_error \<Rightarrow> 'e) \<Rightarrow> (string \<Rightarrow> string \<Rightarrow> 'e) \<Rightarrow> 'a json
    \<Rightarrow> ('s \<Rightarrow> 'a) \<Rightarrow> string \<Rightarrow> 's \<Rightarrow> fs \<Rightarrow> ('e + unit) \<times> fs" where
  "json_save unwritable malformed js store p s fs =
     (case to_json js (store s) of
        Inl reason \<Rightarrow> (Inl (malformed p reason), fs)
      | Inr encoded \<Rightarrow>
          (case replace_file (with_extension p ''json.tmp'') p encoded fs of
             (r, fs') \<Rightarrow> (map_err (\<lambda>(q, e). unwritable q e) r, fs')))"

definition has_name :: "string \<Rightarrow> bool" where
  "has_name p \<longleftrightarrow> file_name p \<noteq> [] \<and> file_name p \<noteq> ''..''"

lemma json_tmp_differs: "has_name p \<Longrightarrow> with_extension p ''json.tmp'' \<noteq> p"
  using with_extension_differs [of p "''tmp''" "''json''"] by (auto simp: has_name_def)

lemma json_save_Inr:
  assumes "json_save w m js store p s fs = (Inr (), fs')" and p: "has_name p"
  shows "fs_fault fs' = fs_fault fs
    \<and> (\<exists>t. fs_files fs' p = Some (as_bytes t) \<and> to_json js (store s) = Inr t)"
proof -
  from assms(1) obtain t where t: "to_json js (store s) = Inr t"
    by (auto simp: json_save_def split: sum.splits)
  obtain r fs1 where r: "replace_file (with_extension p ''json.tmp'') p t fs = (r, fs1)" by fastforce
  with assms(1) t have "r = Inr ()" "fs1 = fs'" by (cases r; auto simp: json_save_def)+
  with r replace_file_ok [OF _ json_tmp_differs [OF p]] t show ?thesis by fastforce
qed

lemma json_save_Inl:
  assumes "json_save w m js store p s fs = (Inl e, fs')" and p: "has_name p"
  shows "fs_files fs' p = fs_files fs p \<and> fs_fault fs' = fs_fault fs"
proof (cases "to_json js (store s)")
  case (Inl x)
  with assms(1) show ?thesis by (auto simp: json_save_def)
next
  case (Inr t)
  obtain r fs1 where r: "replace_file (with_extension p ''json.tmp'') p t fs = (r, fs1)" by fastforce
  with assms(1) Inr obtain x where "r = Inl x" "fs1 = fs'"
    by (cases r) (auto simp: json_save_def)
  with r replace_file_error [OF _ json_tmp_differs [OF p]] json_tmp_differs [OF p] show ?thesis by metis
qed

lemma json_save_faults: "json_save w m js store p s fs = (r, fs') \<Longrightarrow> fs_fault fs' = fs_fault fs"
  by (auto simp: json_save_def replace_file_def write_file_def rename_file_def
      split: sum.splits prod.splits option.splits)

text \<open>Any state whose stored shape reads back as what it stands for keeps the contract.\<close>

lemma durable_json:
  assumes "\<And>s. ok s \<Longrightarrow> json_contract js \<and> (\<forall>p. unstore p (store s) = Inr (stored s))"
  shows "durable (json_load rd m js unstore initial) (json_save w m js store) stored ok has_name initial"
proof
  show "json_load rd m js unstore initial p fs = Inr initial"
    if "fs_fault fs (ReadCall p) = None" "fs_files fs p = None" for fs p
    using that by (simp add: json_load_def read_to_string_def)
  show "json_load rd m js unstore initial p fs' = Inr (stored s)"
    if ok: "ok s" and p: "has_name p" and s: "json_save w m js store p s fs = (Inr (), fs')"
      and r: "fs_fault fs (ReadCall p) = None" for s p fs fs'
  proof -
    from json_save_Inr [OF s p] obtain t where f: "fs_fault fs' = fs_fault fs"
      "fs_files fs' p = Some (as_bytes t)" and t: "to_json js (store s) = Inr t" by blast
    from json_contractD [OF conjunct1 [OF assms [OF ok]] t]
    have t': "is_utf8 t" "from_json js t = Inr (store s)" by simp_all
    with f r have "read_to_string p fs' = Inr t" by (simp add: read_to_string_Inr)
    with t' assms [OF ok] show ?thesis by (simp add: json_load_def)
  qed
  show "json_load rd m js unstore initial p fs' = json_load rd m js unstore initial p fs"
    if "has_name p" "json_save w m js store p s fs = (Inl e, fs')" for s p fs e fs'
    using read_to_string_cong [of fs' p fs] json_save_Inl [OF that(2,1)] by (simp add: json_load_def)
qed (rule json_save_faults)

lemma json_save_without_faults:
  assumes "fs_fault fs = (\<lambda>_. None)" and "to_json js (store s) = Inr t"
  shows "\<exists>fs'. json_save w m js store p s fs = (Inr (), fs')"
  using assms by (simp add: json_save_def replace_file_def write_file_def rename_file_def)

section \<open>A concrete text form\<close>

text \<open>
  For the witnesses that need every value of a shape to be written: parts as byte lists, a byte as
  that many letters a and a b, a field closed by a c.
\<close>

definition field_text :: "byte list \<Rightarrow> string" where
  "field_text bs = concat (map (\<lambda>b. replicate (unat b) CHR ''a'' @ ''b'') bs) @ ''c''"

definition demo_text :: "byte list list \<Rightarrow> string" where
  "demo_text fs = concat (map field_text fs)"

fun demo_fields :: "nat \<Rightarrow> byte list \<Rightarrow> string \<Rightarrow> byte list list" where
  "demo_fields n cur [] = []"
| "demo_fields n cur (c # s) =
     (if c = CHR ''a'' then demo_fields (Suc n) cur s
      else if c = CHR ''b'' then demo_fields 0 (cur @ [of_nat n]) s
      else cur # demo_fields 0 [] s)"

lemma demo_fields_byte:
  "demo_fields n cur (replicate k CHR ''a'' @ s) = demo_fields (n + k) cur s"
  by (induction k arbitrary: n) auto

lemma demo_fields_field: "demo_fields 0 cur (field_text bs @ s) = (cur @ bs) # demo_fields 0 [] s"
  by (induction bs arbitrary: cur) (auto simp: field_text_def demo_fields_byte)

lemma demo_fields_text [simp]: "demo_fields 0 [] (demo_text fs) = fs"
  by (induction fs) (auto simp: demo_text_def demo_fields_field)

lemma demo_text_ascii: "is_ascii (demo_text fs)"
  by (auto simp: is_ascii_def demo_text_def field_text_def list_all_iff)

definition field_json :: "('a \<Rightarrow> byte list list) \<Rightarrow> (byte list list \<Rightarrow> 'a option) \<Rightarrow> 'a json" where
  "field_json parts unparts =
     \<lparr>to_json = (\<lambda>x. Inr (demo_text (parts x))),
      from_json = (\<lambda>t. ok_or ''missing field'' (unparts (demo_fields 0 [] t)))\<rparr>"

lemma field_json_contract:
  "(\<And>x. unparts (parts x) = Some x) \<Longrightarrow> json_contract (field_json parts unparts)"
  by (auto simp: json_contract_def field_json_def intro!: is_utf8_ascii demo_text_ascii)

definition writes_all :: "'a json \<Rightarrow> bool" where
  "writes_all js \<longleftrightarrow> (\<forall>x. \<exists>t. to_json js x = Inr t)"

lemma field_json_writes_all: "writes_all (field_json parts unparts)"
  by (simp add: writes_all_def field_json_def)

end
