(* ===== verification/Throttle.thy ===== *)
theory Throttle
  imports Json
begin

text \<open>
  \<open>throttle.rs\<close> of \<open>dr-dsh-crypto\<close>: the guard that spaces and locks out pairing attempts, and the file
  it is kept in. A \<open>SystemTime\<close> is the number of nanoseconds since the Unix epoch, within the range the
  platform can represent (a signed 64-bit number of seconds): adding past it is \<open>None\<close> with
  \<open>checked_add\<close> and a panic with \<open>+\<close>. A \<open>Duration\<close> is a non-negative number of nanoseconds.
\<close>

section \<open>Time\<close>

definition secs :: "int \<Rightarrow> int" where "secs n = n * 1000000000"

definition TIME_END :: int where "TIME_END = secs (2 ^ 63)"

definition time_add :: "int \<Rightarrow> int \<Rightarrow> int option" where
  "time_add t d = (if t + d < TIME_END then Some (t + d) else None)"

definition duration_since :: "int \<Rightarrow> int \<Rightarrow> int option" where
  "duration_since t earlier = (if earlier \<le> t then Some (t - earlier) else None)"

definition or_default :: "int option \<Rightarrow> int" where
  "or_default d = (case d of None \<Rightarrow> 0 | Some x \<Rightarrow> x)"

definition as_secs :: "int \<Rightarrow> u64" where "as_secs d = of_int (d div 1000000000)"

definition ATTEMPTS_BEFORE_LOCKOUT :: u32 where "ATTEMPTS_BEFORE_LOCKOUT = 5"
definition LOCKOUT_DURATION :: int where "LOCKOUT_DURATION = secs 300"
definition MIN_SECONDS_BETWEEN_ATTEMPTS :: int where "MIN_SECONDS_BETWEEN_ATTEMPTS = secs 2"

section \<open>The guard\<close>

datatype throttled = LockedOut (retry_after_secs: u64) | TooSoon (retry_after_secs: u64)

record pairing_guard =
  pg_failures :: u32
  pg_last_attempt :: "int option"
  pg_locked_until :: "int option"

definition guard_new :: pairing_guard where
  "guard_new = \<lparr>pg_failures = 0, pg_last_attempt = None, pg_locked_until = None\<rparr>"

definition seconds_between :: "int \<Rightarrow> int \<Rightarrow> u64" where
  "seconds_between from to = max (as_secs (or_default (duration_since to from))) 1"

definition check_spacing :: "pairing_guard \<Rightarrow> int \<Rightarrow> throttled + unit" where
  "check_spacing g now =
     (case pg_last_attempt g of
        None \<Rightarrow> Inr ()
      | Some previous \<Rightarrow>
          (let elapsed = or_default (duration_since now previous) in
           if elapsed < MIN_SECONDS_BETWEEN_ATTEMPTS
           then Inl (TooSoon (max (as_secs (MIN_SECONDS_BETWEEN_ATTEMPTS - elapsed)) 1))
           else Inr ()))"

definition guard_check :: "pairing_guard \<Rightarrow> int \<Rightarrow> throttled + unit" where
  "guard_check g now =
     (case pg_locked_until g of
        Some until \<Rightarrow> if now < until then Inl (LockedOut (seconds_between now until)) else check_spacing g now
      | None \<Rightarrow> check_spacing g now)"

definition record_failure :: "int \<Rightarrow> pairing_guard \<Rightarrow> ((throttled + unit) \<times> pairing_guard) run" where
  "record_failure now g =
     (let g1 = g\<lparr>pg_failures := saturating_add (pg_failures g) 1, pg_last_attempt := Some now\<rparr> in
      if ATTEMPTS_BEFORE_LOCKOUT \<le> pg_failures g1 then
        (case time_add now LOCKOUT_DURATION of
           None \<Rightarrow> Panic
         | Some until \<Rightarrow> Done (Inl (LockedOut (as_secs LOCKOUT_DURATION)),
                               g1\<lparr>pg_locked_until := Some until, pg_failures := 0\<rparr>))
      else Done (Inr (), g1))"

definition record_success :: "pairing_guard \<Rightarrow> pairing_guard" where
  "record_success g = g\<lparr>pg_failures := 0, pg_last_attempt := None, pg_locked_until := None\<rparr>"

section \<open>The file\<close>

record stored_guard =
  sg_failures :: u32
  sg_last_attempt :: "u64 option"
  sg_locked_until :: "u64 option"

datatype guard_error =
    GuardRead string io_error
  | GuardWrite string io_error
  | GuardMalformed string string

definition time_to_epoch :: "int \<Rightarrow> u64 option" where
  "time_to_epoch t = map_option as_secs (duration_since t 0)"

definition epoch_to_time :: "u64 \<Rightarrow> int option" where
  "epoch_to_time s = time_add 0 (secs (uint s))"

definition guard_stored :: "pairing_guard \<Rightarrow> stored_guard" where
  "guard_stored g = \<lparr>sg_failures = pg_failures g,
     sg_last_attempt = Option.bind (pg_last_attempt g) time_to_epoch,
     sg_locked_until = Option.bind (pg_locked_until g) time_to_epoch\<rparr>"

definition guard_unstored :: "stored_guard \<Rightarrow> pairing_guard" where
  "guard_unstored stored = \<lparr>pg_failures = sg_failures stored,
     pg_last_attempt = Option.bind (sg_last_attempt stored) epoch_to_time,
     pg_locked_until = Option.bind (sg_locked_until stored) epoch_to_time\<rparr>"

definition guard_load :: "stored_guard json \<Rightarrow> string \<Rightarrow> fs \<Rightarrow> guard_error + pairing_guard" where
  "guard_load js = json_load GuardRead GuardMalformed js (\<lambda>_ stored. Inr (guard_unstored stored)) guard_new"

definition guard_save :: "stored_guard json \<Rightarrow> string \<Rightarrow> pairing_guard \<Rightarrow> fs
    \<Rightarrow> (guard_error + unit) \<times> fs" where
  "guard_save js = json_save GuardWrite GuardMalformed js guard_stored"

section \<open>What a history of attempts amounts to\<close>

datatype attempt = Failed int | Paired

fun guard_run :: "attempt list \<Rightarrow> pairing_guard \<Rightarrow> pairing_guard run" where
  "guard_run [] g = Done g"
| "guard_run (Paired # h) g = guard_run h (record_success g)"
| "guard_run (Failed t # h) g =
     (case record_failure t g of Panic \<Rightarrow> Panic | Done (_, g') \<Rightarrow> guard_run h g')"

text \<open>The failures since the last success, oldest first.\<close>

fun window :: "attempt list \<Rightarrow> int list \<Rightarrow> int list" where
  "window [] ts = ts"
| "window (Paired # h) ts = window h []"
| "window (Failed t # h) ts = window h (ts @ [t])"

text \<open>The abstract guard: every fifth failure of the window locks for five minutes.\<close>

definition lockout_of :: "int list \<Rightarrow> int option" where
  "lockout_of ts =
     (if length ts < 5 then None else Some (ts ! (5 * (length ts div 5) - 1) + LOCKOUT_DURATION))"

definition guard_of :: "int list \<Rightarrow> pairing_guard" where
  "guard_of ts = \<lparr>pg_failures = of_nat (length ts mod 5),
     pg_last_attempt = (if ts = [] then None else Some (last ts)), pg_locked_until = lockout_of ts\<rparr>"

lemma guard_of_Nil [simp]: "guard_of [] = guard_new"
  by (simp add: guard_of_def guard_new_def lockout_of_def)

lemma record_success_guard [simp]: "record_success g = guard_new"
  by (simp add: record_success_def guard_new_def)

lemma less5: "n < 5 \<Longrightarrow> n = 0 \<or> n = 1 \<or> n = 2 \<or> n = 3 \<or> n = (4::nat)"
  by linarith

lemma saturating_count: "n < 5 \<Longrightarrow> saturating_add (of_nat n :: u32) 1 = of_nat (Suc n)"
  by (drule less5) (auto simp: saturating_add_def)

lemma fifth_count: "n < 5 \<Longrightarrow> (5::u32) \<le> of_nat (Suc n) \<longleftrightarrow> Suc n = 5"
  by (drule less5) (auto simp: word_le_nat_alt)

lemma lockout_of_snoc:
  "lockout_of (ts @ [t]) =
     (if Suc (length ts) mod 5 = 0 then Some (t + LOCKOUT_DURATION) else lockout_of ts)"
proof (cases "Suc (length ts) mod 5 = 0")
  case True
  then obtain k where "Suc (length ts) = 5 * k" by (metis mod_0_imp_dvd dvdE)
  then have k: "length ts = 5 * k - 1" "0 < k" by auto
  then show ?thesis using True by (simp add: lockout_of_def nth_append)
next
  case False
  then have d: "Suc (length ts) div 5 = length ts div 5" by (simp add: div_Suc)
  have "5 * (length ts div 5) - 1 < length ts" if "5 \<le> length ts" using that by linarith
  then show ?thesis
    using False d by (auto simp: lockout_of_def nth_append)
qed

lemma record_failure_guard_of:
  assumes "t + LOCKOUT_DURATION < TIME_END"
  shows "\<exists>r. record_failure t (guard_of ts) = Done (r, guard_of (ts @ [t]))
    \<and> (r = Inr () \<longleftrightarrow> Suc (length ts) mod 5 \<noteq> 0)
    \<and> (r = Inl (LockedOut 300) \<longleftrightarrow> Suc (length ts) mod 5 = 0)"
proof -
  have c: "saturating_add (pg_failures (guard_of ts)) 1 = of_nat (Suc (length ts mod 5))"
    by (simp add: guard_of_def saturating_count del: of_nat_Suc)
  have "length ts mod 5 < 5" by simp
  then have f: "ATTEMPTS_BEFORE_LOCKOUT \<le> (of_nat (Suc (length ts mod 5)) :: u32)
      \<longleftrightarrow> Suc (length ts) mod 5 = 0"
    by (simp add: ATTEMPTS_BEFORE_LOCKOUT_def fifth_count mod_Suc del: of_nat_Suc)
  have secs: "as_secs LOCKOUT_DURATION = 300" by (simp add: as_secs_def LOCKOUT_DURATION_def secs_def)
  show ?thesis
    using assms unfolding record_failure_def Let_def
    by (simp add: c f secs time_add_def del: of_nat_Suc)
      (auto simp: guard_of_def lockout_of_snoc mod_Suc simp del: of_nat_Suc)
qed

lemma guard_run_of:
  "\<forall>t. Failed t \<in> set h \<longrightarrow> t + LOCKOUT_DURATION < TIME_END \<Longrightarrow>
   guard_run h (guard_of ts) = Done (guard_of (window h ts))"
proof (induction h ts rule: window.induct)
  case (3 t h ts)
  then obtain r where "record_failure t (guard_of ts) = Done (r, guard_of (ts @ [t]))"
    using record_failure_guard_of [of t ts] by auto
  with 3 show ?case by simp
qed (use guard_of_Nil in simp_all)

lemma check_guard_of:
  "guard_check (guard_of ts) now = Inr () \<longleftrightarrow>
     (\<forall>until. lockout_of ts = Some until \<longrightarrow> until \<le> now) \<and> (ts \<noteq> [] \<longrightarrow> last ts + secs 2 \<le> now)"
  by (auto simp: guard_check_def check_spacing_def guard_of_def Let_def or_default_def secs_def
      duration_since_def MIN_SECONDS_BETWEEN_ATTEMPTS_def split: option.splits if_splits)

text \<open>
  C30. The guard implements its policy on every history of failures and successes: it never panics while
  the clock is representable, the counter is the number of failures since the last success modulo
  five, and an attempt is allowed at \<open>now\<close> exactly when two seconds have passed since the latest such
  failure and five minutes since the latest one that was a fifth. So every lockout ends by itself, no
  failure during a lockout prolongs it before the next fifth, and a success clears everything.
\<close>

theorem guard_refines_history:
  assumes "\<forall>t. Failed t \<in> set h \<longrightarrow> t + LOCKOUT_DURATION < TIME_END"
  shows "\<exists>g. guard_run h guard_new = Done g
    \<and> pg_failures g = of_nat (length (window h []) mod 5)
    \<and> (\<forall>now. guard_check g now = Inr () \<longleftrightarrow>
          (5 \<le> length (window h []) \<longrightarrow>
             (window h []) ! (5 * (length (window h []) div 5) - 1) + secs 300 \<le> now)
        \<and> (window h [] \<noteq> [] \<longrightarrow> last (window h []) + secs 2 \<le> now))"
proof (intro exI conjI allI)
  show "guard_run h guard_new = Done (guard_of (window h []))"
    using guard_run_of [OF assms, of "[]"] by simp
  show "pg_failures (guard_of (window h [])) = of_nat (length (window h []) mod 5)"
    by (simp add: guard_of_def)
qed (auto simp: check_guard_of lockout_of_def LOCKOUT_DURATION_def)

theorem guard_refines_history_witness:
  "\<exists>g. guard_run [Failed 1, Paired, Failed 10, Failed 20, Failed 30, Failed 40, Failed 50, Failed 60]
      guard_new = Done g \<and> pg_failures g = 1 \<and> guard_check g (secs 300) \<noteq> Inr ()
      \<and> guard_check g (50 + secs 300) = Inr ()"
proof -
  let ?h = "[Failed 1, Paired, Failed 10, Failed 20, Failed 30, Failed 40, Failed 50, Failed 60]"
  have "\<forall>t. Failed t \<in> set ?h \<longrightarrow> t + LOCKOUT_DURATION < TIME_END"
    by (auto simp: TIME_END_def LOCKOUT_DURATION_def secs_def)
  from guard_refines_history [OF this] show ?thesis by (auto simp: secs_def)
qed

section \<open>The guard across restarts\<close>

interpretation guard_file: durable "guard_load js" "guard_save js" "\<lambda>g. guard_unstored (guard_stored g)"
    "\<lambda>_. json_contract js" has_name guard_new for js
  unfolding guard_load_def guard_save_def by (rule durable_json) blast

lemma stored_time:
  assumes "0 \<le> t" and "t < TIME_END"
  shows "Option.bind (time_to_epoch t) epoch_to_time = Some (secs (t div 1000000000))"
proof -
  have "0 \<le> t div 1000000000" "t div 1000000000 < 2 ^ 63"
    using assms unfolding TIME_END_def secs_def by linarith+
  then have "uint (of_int (t div 1000000000) :: u64) = t div 1000000000"
    by (simp add: uint_word_of_int_eq take_bit_int_eq_self)
  moreover have "secs (t div 1000000000) < TIME_END"
    using \<open>t div 1000000000 < 2 ^ 63\<close> by (simp add: TIME_END_def secs_def)
  ultimately show ?thesis
    using assms(1)
    by (simp add: time_to_epoch_def duration_since_def as_secs_def epoch_to_time_def time_add_def)
qed

lemma secs_floor: "secs (t div 1000000000) \<le> t" "t < secs (t div 1000000000) + secs 1"
  by (simp_all add: secs_def)

definition time_ok :: "pairing_guard \<Rightarrow> bool" where
  "time_ok g \<longleftrightarrow> (\<forall>t. pg_last_attempt g = Some t \<or> pg_locked_until g = Some t \<longrightarrow> 0 \<le> t \<and> t < TIME_END)"

lemma guard_check_iff:
  "guard_check g now = Inr () \<longleftrightarrow>
     (\<forall>until. pg_locked_until g = Some until \<longrightarrow> until \<le> now)
   \<and> (\<forall>t. pg_last_attempt g = Some t \<longrightarrow> t + secs 2 \<le> now)"
  by (auto simp: guard_check_def check_spacing_def Let_def or_default_def secs_def
      duration_since_def MIN_SECONDS_BETWEEN_ATTEMPTS_def split: option.splits if_splits)

lemma reloaded_fields:
  assumes "time_ok g"
  shows "pg_locked_until (guard_unstored (guard_stored g)) =
      map_option (\<lambda>t. secs (t div 1000000000)) (pg_locked_until g)"
    and "pg_last_attempt (guard_unstored (guard_stored g)) =
      map_option (\<lambda>t. secs (t div 1000000000)) (pg_last_attempt g)"
    and "pg_failures (guard_unstored (guard_stored g)) = pg_failures g"
  using assms
  by (auto simp: guard_unstored_def guard_stored_def time_ok_def stored_time split: option.splits
      Option.bind_splits intro: option.exhaust)

text \<open>
  The guard outlives the process: what a save leaves in the file a load reads back with the same
  failure count, and a lockout or a spacing in force is still in force, to within the second the file
  keeps. The reloaded guard refuses nothing the guard itself allowed, and whatever it allows the guard
  itself allows one second later.
\<close>

theorem guard_survives_restart:
  assumes "json_contract js" and "has_name p" and "fs_fault fs (ReadCall p) = None"
    and "time_ok g" and "guard_save js p g fs = (Inr (), fs')"
  shows "\<exists>g'. guard_load js p fs' = Inr g' \<and> pg_failures g' = pg_failures g
    \<and> (\<forall>now. guard_check g now = Inr () \<longrightarrow> guard_check g' now = Inr ())
    \<and> (\<forall>now. guard_check g' now = Inr () \<longrightarrow> guard_check g (now + secs 1) = Inr ())"
proof (intro exI conjI)
  let ?g' = "guard_unstored (guard_stored g)"
  show "guard_load js p fs' = Inr ?g'" using guard_file.save_ok assms by blast
  show "pg_failures ?g' = pg_failures g" by (rule reloaded_fields(3) [OF assms(4)])
  have floor: "secs (t div 1000000000) \<le> t \<and> t < secs (t div 1000000000) + secs 1" for t
    using secs_floor by blast
  show "\<forall>now. guard_check g now = Inr () \<longrightarrow> guard_check ?g' now = Inr ()"
    using floor by (auto simp: guard_check_iff reloaded_fields [OF assms(4)]) (smt (verit, best))+
  show "\<forall>now. guard_check ?g' now = Inr () \<longrightarrow> guard_check g (now + secs 1) = Inr ()"
    using floor by (auto simp: guard_check_iff reloaded_fields [OF assms(4)]) (smt (verit, best))+
qed

definition demo_guard :: pairing_guard where
  "demo_guard = \<lparr>pg_failures = 0, pg_last_attempt = Some 1500000000, pg_locked_until = Some (secs 301 + 5)\<rparr>"

theorem guard_survives_restart_witness:
  "\<exists>fs' g'. guard_save (demo_json (guard_stored demo_guard)) ''/s/t.json'' demo_guard no_faults = (Inr (), fs')
    \<and> guard_load (demo_json (guard_stored demo_guard)) ''/s/t.json'' fs' = Inr g'
    \<and> (\<forall>now. guard_check g' now = Inr () \<longrightarrow> guard_check demo_guard (now + secs 1) = Inr ())"
proof -
  let ?js = "demo_json (guard_stored demo_guard)" and ?p = "''/s/t.json''"
  obtain fs' where save: "guard_save ?js ?p demo_guard no_faults = (Inr (), fs')"
    by (simp add: guard_save_def json_save_def demo_json_def replace_file_def write_file_def
        rename_file_def no_faults_def)
  have "has_name ?p" by code_simp
  moreover have "time_ok demo_guard" by (auto simp: time_ok_def demo_guard_def TIME_END_def secs_def)
  moreover have "fs_fault no_faults (ReadCall ?p) = None" by (simp add: no_faults_def)
  ultimately show ?thesis using guard_survives_restart [OF demo_json_contract _ _ _ save] save by blast
qed

text \<open>
  No failed write loses the guard's state: over any sequence of saves, whichever calls the
  environment refuses and however much of a refused write reaches the disk, the file still loads as
  one of the states saved or as it did before. A guard file that cannot be read or understood is an
  error, never an empty history; only a missing one is a fresh guard.
\<close>

theorem guard_file_is_never_torn:
  assumes "json_contract js" and "has_name p" and "fs_fault fs (ReadCall p) = None"
  shows "guard_load js p (fold (\<lambda>g fs. snd (guard_save js p g fs)) gs fs)
      \<in> {guard_load js p fs} \<union> (\<lambda>g. Inr (guard_unstored (guard_stored g))) ` set gs
    \<and> (fs_files fs p = None \<longrightarrow> guard_load js p fs = Inr guard_new)
    \<and> (\<forall>bs. fs_files fs p = Some bs \<longrightarrow> (\<exists>e. from_json js (from_bytes bs) = Inl e) \<longrightarrow>
          (\<exists>e. guard_load js p fs = Inl e))"
proof (intro conjI allI impI)
  show "guard_load js p (fold (\<lambda>g fs. snd (guard_save js p g fs)) gs fs)
      \<in> {guard_load js p fs} \<union> (\<lambda>g. Inr (guard_unstored (guard_stored g))) ` set gs"
    using assms by (intro guard_file.saves_are_atomic) simp_all
  show "guard_load js p fs = Inr guard_new" if "fs_files fs p = None"
    by (rule guard_file.load_missing [OF assms(3) that])
qed (auto simp: guard_load_def json_load_def read_to_string_def assms(3))

theorem guard_file_is_never_torn_witness:
  "guard_load (demo_json (guard_stored demo_guard)) ''g.json''
     (fold (\<lambda>g fs. snd (guard_save (demo_json (guard_stored demo_guard)) ''g.json'' g fs))
        [demo_guard, guard_new] (no_faults\<lparr>fs_fault := (\<lambda>c. if c = WriteCall ''g.json.tmp''
           then Some (OtherError ''disk full'') else None), fs_torn := 3\<rparr>)) = Inr guard_new
   \<or> guard_load (demo_json (guard_stored demo_guard)) ''g.json''
     (fold (\<lambda>g fs. snd (guard_save (demo_json (guard_stored demo_guard)) ''g.json'' g fs))
        [demo_guard, guard_new] (no_faults\<lparr>fs_fault := (\<lambda>c. if c = WriteCall ''g.json.tmp''
           then Some (OtherError ''disk full'') else None), fs_torn := 3\<rparr>))
      \<in> (\<lambda>g. Inr (guard_unstored (guard_stored g))) ` {demo_guard, guard_new}"
proof -
  let ?fs = "no_faults\<lparr>fs_fault := (\<lambda>c. if c = WriteCall ''g.json.tmp''
           then Some (OtherError ''disk full'') else None), fs_torn := 3\<rparr>"
  have "has_name ''g.json''" by code_simp
  moreover have "fs_fault ?fs (ReadCall ''g.json'') = None" "fs_files ?fs ''g.json'' = None"
    by (simp_all add: no_faults_def)
  ultimately show ?thesis
    using guard_file_is_never_torn [OF demo_json_contract [of "guard_stored demo_guard"],
        of "''g.json''" ?fs "[demo_guard, guard_new]"] by auto
qed

end
