(* ===== verification/Registry.thy ===== *)
theory Registry
  imports Store Json
begin

text \<open>
  \<open>device.rs\<close> and \<open>registry.rs\<close> of \<open>dr-dsh-crypto\<close>: device identities and the registry of enrolled
  devices, with the file it is kept in. SHA-256, Ed25519 and base64url are code outside the
  repository: the record \<open>ident\<close>, an argument of the operations that call them.
\<close>

section \<open>Device identities\<close>

record ident =
  id_sha256 :: "byte list \<Rightarrow> byte list"
  id_valid_point :: "byte list \<Rightarrow> bool"
  id_verifies :: "byte list \<Rightarrow> byte list \<Rightarrow> byte list \<Rightarrow> bool"
  b64_encode :: "byte list \<Rightarrow> string"
  b64_decode :: "string \<Rightarrow> byte list option"

definition ident_contract :: "ident \<Rightarrow> bool" where
  "ident_contract cr \<longleftrightarrow> (\<forall>bs. length (id_sha256 cr bs) = 32 \<and> b64_decode cr (b64_encode cr bs) = Some bs)"

definition DEVICE_PUBLIC_KEY_LEN :: nat where "DEVICE_PUBLIC_KEY_LEN = 32"
definition DEVICE_SIGNATURE_LEN :: nat where "DEVICE_SIGNATURE_LEN = 64"
definition DEVICE_ID_LEN :: nat where "DEVICE_ID_LEN = 16"
definition RESUME_NONCE_LEN :: nat where "RESUME_NONCE_LEN = 32"

datatype device_error = InvalidPublicKey | InvalidSignature | UnusableKey

datatype device_public_key = DevicePublicKey (to_bytes: "byte list")

datatype device_id = DeviceId (id_bytes: "byte list")

text \<open>Ids are ordered as their byte arrays: the order of the registry's file.\<close>

instantiation device_id :: linorder
begin

definition less_eq_device_id :: "device_id \<Rightarrow> device_id \<Rightarrow> bool" where
  "less_eq_device_id a b \<longleftrightarrow> id_bytes a \<le> id_bytes b"

definition less_device_id :: "device_id \<Rightarrow> device_id \<Rightarrow> bool" where
  "less_device_id a b \<longleftrightarrow> id_bytes a < id_bytes b"

instance
  by standard (auto simp: less_eq_device_id_def less_device_id_def device_id.expand)

end

definition key_from_bytes :: "ident \<Rightarrow> byte list \<Rightarrow> device_error + device_public_key" where
  "key_from_bytes cr bytes =
     (if id_valid_point cr bytes then Inr (DevicePublicKey bytes) else Inl InvalidPublicKey)"

definition id_for_key :: "ident \<Rightarrow> byte list \<Rightarrow> device_id" where
  "id_for_key cr public_key = DeviceId (take DEVICE_ID_LEN (id_sha256 cr public_key))"

definition device_id_of :: "ident \<Rightarrow> device_public_key \<Rightarrow> device_id" where
  "device_id_of cr k = id_for_key cr (to_bytes k)"

definition key_verify :: "ident \<Rightarrow> device_public_key \<Rightarrow> byte list \<Rightarrow> byte list \<Rightarrow> device_error + unit" where
  "key_verify cr k message signature =
     (if length signature \<noteq> DEVICE_SIGNATURE_LEN then Inl InvalidSignature
      else if id_verifies cr (to_bytes k) message signature then Inr () else Inl InvalidSignature)"

definition id_to_base64url :: "ident \<Rightarrow> device_id \<Rightarrow> string" where
  "id_to_base64url cr i = b64_encode cr (id_bytes i)"

definition id_from_base64url :: "ident \<Rightarrow> string \<Rightarrow> device_error + device_id" where
  "id_from_base64url cr text =
     (case b64_decode cr text of
        None \<Rightarrow> Inl UnusableKey
      | Some bytes \<Rightarrow> if length bytes = DEVICE_ID_LEN then Inr (DeviceId bytes) else Inl UnusableKey)"

definition resume_message :: "byte list \<Rightarrow> string \<Rightarrow> byte list" where
  "resume_message nonce room = nonce @ as_bytes room"

text \<open>The message a device signs determines the nonce and the room it was made for.\<close>

lemma resume_message_inj:
  "length n = RESUME_NONCE_LEN \<Longrightarrow> length m = RESUME_NONCE_LEN \<Longrightarrow>
   resume_message n r = resume_message m s \<longleftrightarrow> n = m \<and> r = s"
  unfolding resume_message_def by (metis append_eq_append_conv from_as_bytes)

lemma id_base64url_round: "ident_contract cr \<Longrightarrow>
    id_from_base64url cr (id_to_base64url cr (device_id_of cr k)) = Inr (device_id_of cr k)"
  by (simp add: ident_contract_def id_from_base64url_def id_to_base64url_def device_id_of_def
      id_for_key_def DEVICE_ID_LEN_def)

section \<open>The registry\<close>

record enrolled_device =
  ed_public_key :: device_public_key
  ed_label :: string

record device_registry =
  dr_devices :: "(device_id, enrolled_device) btree"

datatype registry_error =
    RegistryRead string io_error
  | RegistryWrite string io_error
  | RegistryMalformed string string

definition registry_new :: device_registry where
  "registry_new = \<lparr>dr_devices = []\<rparr>"

definition enrol :: "ident \<Rightarrow> device_public_key \<Rightarrow> string \<Rightarrow> device_registry \<Rightarrow> device_registry" where
  "enrol cr public_key label r =
     r\<lparr>dr_devices := bt_put (device_id_of cr public_key)
        \<lparr>ed_public_key = public_key, ed_label = label\<rparr> (dr_devices r)\<rparr>"

definition contains :: "device_id \<Rightarrow> device_registry \<Rightarrow> bool" where
  "contains i r \<longleftrightarrow> bt_get (dr_devices r) i \<noteq> None"

definition registry_get :: "device_id \<Rightarrow> device_registry \<Rightarrow> enrolled_device option" where
  "registry_get i r = bt_get (dr_devices r) i"

definition challenge_key :: "device_id \<Rightarrow> device_registry \<Rightarrow> device_public_key option" where
  "challenge_key i r = map_option ed_public_key (bt_get (dr_devices r) i)"

definition revoke :: "device_id \<Rightarrow> device_registry \<Rightarrow> bool \<times> device_registry" where
  "revoke i r = (bt_get (dr_devices r) i \<noteq> None, r\<lparr>dr_devices := bt_del i (dr_devices r)\<rparr>)"

definition registry_len :: "device_registry \<Rightarrow> nat" where
  "registry_len r = length (dr_devices r)"

definition registry_is_empty :: "device_registry \<Rightarrow> bool" where
  "registry_is_empty r \<longleftrightarrow> dr_devices r = []"

section \<open>The file\<close>

record stored_device =
  sd_id :: string
  sd_public_key :: "byte list"
  sd_label :: string

record stored_registry =
  sr_version :: u32
  sr_devices :: "stored_device list"

definition REGISTRY_VERSION :: u32 where "REGISTRY_VERSION = 1"

text \<open>The messages of \<open>DeviceError\<close>, which the malformed-file error quotes.\<close>

fun device_error_text :: "device_error \<Rightarrow> string" where
  "device_error_text InvalidPublicKey = ''not a valid Ed25519 public key''"
| "device_error_text InvalidSignature = ''the signature is not valid for this key''"
| "device_error_text UnusableKey = ''stored device key material is not usable''"

fun enrol_stored :: "ident \<Rightarrow> string \<Rightarrow> stored_device list \<Rightarrow> device_registry
    \<Rightarrow> registry_error + device_registry" where
  "enrol_stored cr p [] r = Inr r"
| "enrol_stored cr p (d # ds) r =
     (case key_from_bytes cr (sd_public_key d) of
        Inl e \<Rightarrow> Inl (RegistryMalformed p (''device '' @ sd_id d @ '': '' @ device_error_text e))
      | Inr key \<Rightarrow> enrol_stored cr p ds (enrol cr key (sd_label d) r))"

definition registry_stored :: "ident \<Rightarrow> device_registry \<Rightarrow> stored_registry" where
  "registry_stored cr r = \<lparr>sr_version = REGISTRY_VERSION,
     sr_devices = map (\<lambda>(_, d). \<lparr>sd_id = id_to_base64url cr (device_id_of cr (ed_public_key d)),
        sd_public_key = to_bytes (ed_public_key d), sd_label = ed_label d\<rparr>) (dr_devices r)\<rparr>"

definition registry_load :: "ident \<Rightarrow> stored_registry json \<Rightarrow> string \<Rightarrow> fs
    \<Rightarrow> registry_error + device_registry" where
  "registry_load cr js = json_load RegistryRead RegistryMalformed js
     (\<lambda>p parsed. enrol_stored cr p (sr_devices parsed) registry_new) registry_new"

definition registry_save :: "ident \<Rightarrow> stored_registry json \<Rightarrow> string \<Rightarrow> device_registry \<Rightarrow> fs
    \<Rightarrow> (registry_error + unit) \<times> fs" where
  "registry_save cr js = json_save RegistryWrite RegistryMalformed js (registry_stored cr)"

section \<open>The invariant\<close>

text \<open>Every entry is under the id its own key derives, so no key has two entries.\<close>

definition registry_inv :: "ident \<Rightarrow> device_registry \<Rightarrow> bool" where
  "registry_inv cr r \<longleftrightarrow> bt_ok (dr_devices r)
     \<and> (\<forall>(i, d) \<in> set (dr_devices r). i = device_id_of cr (ed_public_key d)
          \<and> id_valid_point cr (to_bytes (ed_public_key d)))"

lemma registry_inv_new [simp]: "registry_inv cr registry_new"
  by (simp add: registry_inv_def registry_new_def)

lemma enrol_inv: "registry_inv cr r \<Longrightarrow> id_valid_point cr (to_bytes k) \<Longrightarrow> registry_inv cr (enrol cr k l r)"
  by (auto simp: registry_inv_def enrol_def bt.ok_put set_bt_put)

lemma revoke_inv: "registry_inv cr r \<Longrightarrow> registry_inv cr (snd (revoke i r))"
  by (auto simp: registry_inv_def revoke_def bt.ok_del set_bt_del)

section \<open>Who is authorised\<close>

datatype change = Enrol device_public_key string | Revoke device_id

fun registry_run :: "ident \<Rightarrow> change list \<Rightarrow> device_registry \<Rightarrow> device_registry" where
  "registry_run cr [] r = r"
| "registry_run cr (Enrol k l # h) r = registry_run cr h (enrol cr k l r)"
| "registry_run cr (Revoke i # h) r = registry_run cr h (snd (revoke i r))"

text \<open>The abstract registry: the latest change that concerns an id decides.\<close>

fun authorised :: "ident \<Rightarrow> change list \<Rightarrow> device_id \<Rightarrow> (device_public_key \<times> string) option" where
  "authorised cr [] i = None"
| "authorised cr (Enrol k l # h) i =
     (if device_id_of cr k = i then Some (k, l) else authorised cr h i)"
| "authorised cr (Revoke j # h) i = (if j = i then None else authorised cr h i)"

definition keys_valid :: "ident \<Rightarrow> change list \<Rightarrow> bool" where
  "keys_valid cr h \<longleftrightarrow> (\<forall>k l. Enrol k l \<in> set h \<longrightarrow> id_valid_point cr (to_bytes k))"

lemma registry_run_append: "registry_run cr (h @ h') r = registry_run cr h' (registry_run cr h r)"
  by (induction h r rule: registry_run.induct) simp_all

lemma registry_run_inv: "registry_inv cr r \<Longrightarrow> keys_valid cr h \<Longrightarrow> registry_inv cr (registry_run cr h r)"
  by (induction h r rule: registry_run.induct) (auto simp: keys_valid_def enrol_inv revoke_inv)

lemma registry_run_get:
  assumes "keys_valid cr h"
  shows "registry_get i (registry_run cr h registry_new) =
    map_option (\<lambda>(k, l). \<lparr>ed_public_key = k, ed_label = l\<rparr>) (authorised cr (rev h) i)"
  using assms
proof (induction h rule: rev_induct)
  case Nil
  then show ?case by (simp add: registry_get_def registry_new_def)
next
  case (snoc c h)
  then have "registry_inv cr (registry_run cr h registry_new)"
    by (intro registry_run_inv) (auto simp: keys_valid_def)
  then have "bt_ok (dr_devices (registry_run cr h registry_new))" by (simp add: registry_inv_def)
  with snoc show ?case
    by (cases c) (auto simp: registry_run_append registry_get_def enrol_def revoke_def bt.get_put
        bt_get_del keys_valid_def)
qed

text \<open>
  C31. The registry implements the authorised set on every history of enrolments and revocations: a
  device is challenged with a key exactly when its id's latest change was an enrolment of that key, the
  lookups and \<open>revoke\<close>'s answer agree with it, the count is the number of authorised ids, and a
  registry nobody is authorised in is empty. No key is ever under an id other than its own.
\<close>

theorem registry_refines_history:
  assumes "keys_valid cr h" and "r = registry_run cr h registry_new"
  shows "challenge_key i r = map_option fst (authorised cr (rev h) i)
    \<and> (contains i r \<longleftrightarrow> authorised cr (rev h) i \<noteq> None)
    \<and> (fst (revoke i r) \<longleftrightarrow> authorised cr (rev h) i \<noteq> None)
    \<and> registry_len r = card {j. authorised cr (rev h) j \<noteq> None}
    \<and> (registry_is_empty r \<longleftrightarrow> (\<forall>j. authorised cr (rev h) j = None))
    \<and> (\<forall>k. challenge_key i r = Some k \<longrightarrow> i = device_id_of cr k)"
proof -
  note get = registry_run_get [OF assms(1), folded assms(2), unfolded registry_get_def]
  have inv: "registry_inv cr r" unfolding assms(2) by (rule registry_run_inv [OF _ assms(1)]) simp
  then have ok: "bt_ok (dr_devices r)" by (simp add: registry_inv_def)
  have dom: "dom (bt_get (dr_devices r)) = {j. authorised cr (rev h) j \<noteq> None}"
    by (auto simp: get)
  have "dr_devices r = [] \<longleftrightarrow> dom (bt_get (dr_devices r)) = {}"
    by (cases "dr_devices r") (auto simp: dom_def)
  also have "\<dots> \<longleftrightarrow> (\<forall>j. authorised cr (rev h) j = None)"
    unfolding dom Collect_empty_eq not_not ..
  finally have "registry_is_empty r \<longleftrightarrow> (\<forall>j. authorised cr (rev h) j = None)"
    unfolding registry_is_empty_def dom by simp
  moreover have "registry_len r = card {j. authorised cr (rev h) j \<noteq> None}"
    by (simp add: registry_len_def bt_len_card [OF ok] dom)
  moreover have "i = device_id_of cr k" if "challenge_key i r = Some k" for k
    using that inv by (fastforce simp: challenge_key_def registry_inv_def bt_get_Some_iff [OF ok])
  ultimately show ?thesis
    by (auto simp: challenge_key_def contains_def revoke_def get option.map_comp o_def case_prod_unfold)
qed

definition demo_ident :: ident where
  "demo_ident = \<lparr>id_sha256 = (\<lambda>bs. take 32 (bs @ replicate 32 0)), id_valid_point = (\<lambda>bs. length bs = 32),
     id_verifies = (\<lambda>k m s. take 32 s = k), b64_encode = from_bytes, b64_decode = (\<lambda>t. Some (as_bytes t))\<rparr>"

lemma demo_ident_contract: "ident_contract demo_ident"
  by (auto simp: ident_contract_def demo_ident_def min_def)

definition demo_history :: "change list" where
  "demo_history = [Enrol (DevicePublicKey (replicate 32 1)) ''phone'',
     Enrol (DevicePublicKey (replicate 32 2)) ''tablet'', Revoke (DeviceId (replicate 16 1))]"

lemma demo_history_valid: "keys_valid demo_ident demo_history"
  by (auto simp: keys_valid_def demo_history_def demo_ident_def)

theorem registry_refines_history_witness:
  "challenge_key (DeviceId (replicate 16 2)) (registry_run demo_ident demo_history registry_new)
     = Some (DevicePublicKey (replicate 32 2))
   \<and> challenge_key (DeviceId (replicate 16 1)) (registry_run demo_ident demo_history registry_new) = None"
proof -
  have "device_id_of demo_ident (DevicePublicKey (replicate 32 n)) = DeviceId (replicate 16 n)" for n
    by (simp add: device_id_of_def id_for_key_def demo_ident_def DEVICE_ID_LEN_def)
  then have "authorised demo_ident (rev demo_history) (DeviceId (replicate 16 2))
      = Some (DevicePublicKey (replicate 32 2), ''tablet'')"
    "authorised demo_ident (rev demo_history) (DeviceId (replicate 16 1)) = None"
    by (simp_all add: demo_history_def)
  then show ?thesis
    using registry_refines_history [OF demo_history_valid refl] by simp
qed

section \<open>The registry across restarts\<close>

lemma enrolled_device_eta [simp]: "\<lparr>ed_public_key = ed_public_key d, ed_label = ed_label d\<rparr> = d"
  by (cases d) simp

lemma enrol_stored_devices:
  assumes "\<forall>(i, d) \<in> set es. i = device_id_of cr (ed_public_key d) \<and> id_valid_point cr (to_bytes (ed_public_key d))"
  shows "enrol_stored cr p (map (\<lambda>(_, d). \<lparr>sd_id = f d, sd_public_key = to_bytes (ed_public_key d),
      sd_label = ed_label d\<rparr>) es) r = Inr (r\<lparr>dr_devices := fold (\<lambda>(k, v). bt_put k v) es (dr_devices r)\<rparr>)"
  using assms
  by (induction es arbitrary: r) (auto simp: key_from_bytes_def enrol_def)

lemma enrol_stored_Inr:
  "enrol_stored cr p ds r = Inr r' \<Longrightarrow>
   (\<forall>d \<in> set ds. id_valid_point cr (sd_public_key d))
   \<and> r' = registry_run cr (map (\<lambda>d. Enrol (DevicePublicKey (sd_public_key d)) (sd_label d)) ds) r"
  by (induction ds arbitrary: r) (auto simp: key_from_bytes_def split: if_splits)

lemma enrol_stored_stored:
  assumes "registry_inv cr r"
  shows "enrol_stored cr p (sr_devices (registry_stored cr r)) registry_new = Inr r"
proof -
  have "fold (\<lambda>(k, v). bt_put k v) (dr_devices r) [] = dr_devices r"
    using assms by (intro bt_rebuild) (simp add: registry_inv_def)
  with assms show ?thesis
    using enrol_stored_devices [of "dr_devices r" cr p]
    by (simp add: registry_inv_def registry_stored_def registry_new_def)
qed

interpretation registry_file: durable "registry_load cr js" "registry_save cr js" "\<lambda>r. r"
    "\<lambda>r. json_contract js \<and> registry_inv cr r" has_name registry_new for cr js
proof -
  note enrol_stored_stored [of cr]
  then show "durable (registry_load cr js) (registry_save cr js) (\<lambda>r. r)
      (\<lambda>r. json_contract js \<and> registry_inv cr r) has_name registry_new"
    unfolding registry_load_def registry_save_def by (intro durable_json) simp
qed

text \<open>
  A registry survives a restart exactly: what a successful save of any reachable registry leaves in
  the file loads as the same registry, the same devices in the same order with the same keys and
  labels; and when the save fails, at whatever point, the previous registry still loads.
\<close>

theorem registry_survives_restart:
  assumes "json_contract js" and "keys_valid cr h" and "r = registry_run cr h registry_new"
    and "has_name p" and "fs_fault fs (ReadCall p) = None"
  shows "case registry_save cr js p r fs of
      (Inr _, fs') \<Rightarrow> registry_load cr js p fs' = Inr r
    | (Inl _, fs') \<Rightarrow> registry_load cr js p fs' = registry_load cr js p fs"
proof -
  have inv: "registry_inv cr r" unfolding assms(3) by (rule registry_run_inv [OF _ assms(2)]) simp
  show ?thesis
    using registry_file.save_ok [OF conjI [OF assms(1) inv] assms(4) _ assms(5)]
      registry_file.save_error [OF assms(4)]
    by (auto split: prod.split sum.split)
qed

theorem registry_survives_restart_witness:
  "\<exists>fs'. registry_save demo_ident (demo_json (registry_stored demo_ident (registry_run demo_ident demo_history
       registry_new))) ''/s/devices.json'' (registry_run demo_ident demo_history registry_new) no_faults = (Inr (), fs')
   \<and> registry_load demo_ident (demo_json (registry_stored demo_ident (registry_run demo_ident demo_history
       registry_new))) ''/s/devices.json'' fs' = Inr (registry_run demo_ident demo_history registry_new)"
proof -
  let ?r = "registry_run demo_ident demo_history registry_new"
  let ?js = "demo_json (registry_stored demo_ident ?r)" and ?p = "''/s/devices.json''"
  obtain fs' where save: "registry_save demo_ident ?js ?p ?r no_faults = (Inr (), fs')"
    by (simp add: registry_save_def json_save_def demo_json_def replace_file_def write_file_def
        rename_file_def no_faults_def)
  have "has_name ?p" by code_simp
  moreover have "fs_fault no_faults (ReadCall ?p) = None" by (simp add: no_faults_def)
  ultimately show ?thesis
    using registry_survives_restart [OF demo_json_contract [of "registry_stored demo_ident ?r"]
        demo_history_valid refl, of ?p no_faults] save
    by simp
qed

text \<open>
  A registry that cannot be understood serves nobody. Every load either fails or gives a registry
  all of whose keys are valid keys listed in the file; one invalid key refuses the whole file rather
  than dropping a device, an unreadable or malformed file is an error, and only a missing file is the
  empty registry.
\<close>

theorem registry_load_fails_closed:
  "case registry_load cr js p fs of
     Inr r \<Rightarrow>
       (\<forall>i k. challenge_key i r = Some k \<longrightarrow>
          i = device_id_of cr k \<and> id_valid_point cr (to_bytes k)
          \<and> (\<exists>t s. read_to_string p fs = Inr t \<and> from_json js t = Inr s
               \<and> to_bytes k \<in> sd_public_key ` set (sr_devices s)
               \<and> (\<forall>d \<in> set (sr_devices s). id_valid_point cr (sd_public_key d))))
   | Inl _ \<Rightarrow> read_to_string p fs \<noteq> Inl NotFound"
proof (cases "registry_load cr js p fs")
  case (Inl e)
  then have "read_to_string p fs \<noteq> Inl NotFound"
    by (auto simp: registry_load_def json_load_def)
  with Inl show ?thesis by simp
next
  case (Inr r)
  consider "r = registry_new"
    | t s where "read_to_string p fs = Inr t" "from_json js t = Inr s"
        "enrol_stored cr p (sr_devices s) registry_new = Inr r"
    using Inr by (auto simp: registry_load_def json_load_def and_then_Inr_iff
        split: sum.splits io_error.splits)
  then show ?thesis
  proof cases
    case 1
    then show ?thesis using Inr by (simp add: challenge_key_def registry_new_def)
  next
    case 2
    let ?h = "map (\<lambda>d. Enrol (DevicePublicKey (sd_public_key d)) (sd_label d)) (sr_devices s)"
    note E = enrol_stored_Inr [OF 2(3)]
    have v: "keys_valid cr ?h" using E by (auto simp: keys_valid_def)
    have "authorised cr h' i = Some (k, l) \<Longrightarrow> Enrol k l \<in> set h' \<and> device_id_of cr k = i" for h' i k l
      by (induction cr h' i rule: authorised.induct) (auto split: if_splits)
    then have "Enrol k l \<in> set ?h \<and> device_id_of cr k = i" if "authorised cr (rev ?h) i = Some (k, l)" for i k l
      using that by fastforce
    moreover have "challenge_key i r = map_option fst (authorised cr (rev ?h) i)" for i
      using registry_run_get [OF v, of i] E
      by (auto simp: challenge_key_def registry_get_def option.map_comp o_def case_prod_unfold)
    ultimately show ?thesis using Inr 2 E by fastforce
  qed
qed

definition demo_device_registry :: device_registry where
  "demo_device_registry = registry_run demo_ident demo_history registry_new"

theorem registry_load_fails_closed_witness:
  "\<exists>r k. registry_load demo_ident (demo_json (registry_stored demo_ident demo_device_registry)) ''/s/devices.json''
       (no_faults\<lparr>fs_files := [''/s/devices.json'' \<mapsto> as_bytes ''{}'']\<rparr>) = Inr r
     \<and> challenge_key (DeviceId (replicate 16 2)) r = Some k
     \<and> device_id_of demo_ident k = DeviceId (replicate 16 2) \<and> id_valid_point demo_ident (to_bytes k)"
proof -
  let ?js = "demo_json (registry_stored demo_ident demo_device_registry)"
  let ?fs = "no_faults\<lparr>fs_files := [''/s/devices.json'' \<mapsto> as_bytes ''{}'']\<rparr>"
  have inv: "registry_inv demo_ident demo_device_registry"
    unfolding demo_device_registry_def by (rule registry_run_inv [OF _ demo_history_valid]) simp
  have "is_utf8 ''{}''" by (simp add: is_utf8_ascii)
  then have "read_to_string ''/s/devices.json'' ?fs = Inr ''{}''" by (simp add: read_to_string_def no_faults_def)
  then have load: "\<exists>r. registry_load demo_ident ?js ''/s/devices.json'' ?fs = Inr r
      \<and> challenge_key (DeviceId (replicate 16 2)) r = Some (DevicePublicKey (replicate 32 2))"
    using enrol_stored_stored [OF inv] registry_run_get [OF demo_history_valid, of "DeviceId (replicate 16 2)"]
    by (simp add: registry_load_def json_load_def demo_json_def challenge_key_def registry_get_def
        demo_device_registry_def demo_history_def device_id_of_def id_for_key_def demo_ident_def DEVICE_ID_LEN_def)
  then show ?thesis
    using registry_load_fails_closed [where cr = demo_ident and js = ?js and p = "''/s/devices.json''" and fs = ?fs] by fastforce
qed

end
