(* ===== verification/Pairing_Code.thy ===== *)
theory Pairing_Code
  imports Utf8
begin

text \<open>
  The pairing code: \<open>pairing_display\<close> (\<open>dr-dsh-crypto/src/lib.rs\<close>), its inverse
  \<open>parse_displayed_code\<close> (\<open>dr-dsh-daemon/src/pairing.rs\<close>) and the single-use, expiring
  \<open>PendingCode\<close> (\<open>dr-dsh-crypto/src/pairing.rs\<close>). A code is its five secret bytes; an \<open>Instant\<close> and
  a \<open>Duration\<close> are numbers of nanoseconds.
\<close>

unbundle bit_operations_syntax

section \<open>Displaying\<close>

definition PAIRING_SECRET_LEN :: nat where "PAIRING_SECRET_LEN = 5"
definition PAIRING_CODE_TTL :: nat where "PAIRING_CODE_TTL = 300 * 10 ^ 9"

definition ALPHABET :: string where "ALPHABET = ''0123456789ABCDEFGHJKMNPQRSTVWXYZ''"

definition low_symbol :: "byte \<Rightarrow> char" where "low_symbol b = ALPHABET ! unat (b AND 0x1f)"
definition high_symbol :: "byte \<Rightarrow> char" where "high_symbol b = ALPHABET ! unat (drop_bit 5 b)"

fun display_from :: "nat \<Rightarrow> byte list \<Rightarrow> string" where
  "display_from i [] = []"
| "display_from i (b # bs) =
     (if 0 < i \<and> even i then ''-'' else []) @ [low_symbol b, high_symbol b] @ display_from (Suc i) bs"

definition pairing_display :: "byte list \<Rightarrow> string" where
  "pairing_display bytes = display_from 0 bytes"

section \<open>Parsing\<close>

text \<open>Why a text is not a code; the wording of the messages is not modelled.\<close>

datatype bad_code = OddSymbols | NotInAlphabet nat | WrongByteCount nat

definition fold_symbol :: "nat \<Rightarrow> nat" where
  "fold_symbol c =
     (if c = of_char CHR ''I'' \<or> c = of_char CHR ''L'' then of_char CHR ''1''
      else if c = of_char CHR ''O'' then of_char CHR ''0''
      else if c = of_char CHR ''U'' then of_char CHR ''V''
      else c)"

fun position :: "('a \<Rightarrow> bool) \<Rightarrow> 'a list \<Rightarrow> nat option" where
  "position P [] = None"
| "position P (x # xs) = (if P x then Some 0 else map_option Suc (position P xs))"

definition index_in :: "string \<Rightarrow> nat \<Rightarrow> bad_code + u8" where
  "index_in alphabet character =
     (case position (\<lambda>candidate. of_char candidate = fold_symbol character) alphabet of
        None \<Rightarrow> Inl (NotInAlphabet character)
      | Some index \<Rightarrow> Inr (of_nat index))"

definition cleaned :: "string \<Rightarrow> nat list" where
  "cleaned text = map to_ascii_uppercase
     (filter (\<lambda>c. c \<noteq> of_char CHR ''-'' \<and> \<not> is_whitespace c) (chars text))"

fun parse_pairs :: "nat list \<Rightarrow> bad_code + byte list" where
  "parse_pairs (a # b # cs) =
     and_then (index_in ALPHABET a) (\<lambda>low.
     and_then (index_in ALPHABET b) (\<lambda>high.
     and_then (parse_pairs cs) (\<lambda>rest. Inr ((low OR push_bit 5 high) # rest))))"
| "parse_pairs _ = Inr []"

definition parse_displayed_code :: "string \<Rightarrow> bad_code + byte list" where
  "parse_displayed_code text =
     (let cs = cleaned text in
      if odd (length cs) then Inl OddSymbols
      else and_then (parse_pairs cs) (\<lambda>secret.
        if length secret = PAIRING_SECRET_LEN then Inr secret
        else Inl (WrongByteCount (length cs div 2))))"

section \<open>Symbols\<close>

lemma ALPHABET_length: "length ALPHABET = 32"
  by (simp add: ALPHABET_def)

lemma less_32: "i < 32 \<Longrightarrow> i \<in> set [0..<32]"
  by simp

text \<open>The thirty-two symbols: plain ASCII, unchanged by the clean-up, and each decodes to its index.\<close>

definition symbols :: "nat list" where
  "symbols = [48,49,50,51,52,53,54,55,56,57,65,66,67,68,69,70,71,72,74,75,77,78,80,81,82,83,84,86,87,88,89,90]"

lemma symbols_eq: "map of_char ALPHABET = symbols"
  by (simp add: ALPHABET_def symbols_def)

lemma position_map: "position P (map f xs) = position (\<lambda>x. P (f x)) xs"
  by (induction xs) auto

lemma index_in_symbols:
  "index_in ALPHABET c = ok_or (NotInAlphabet c)
     (map_option of_nat (position (\<lambda>x. x = fold_symbol c) symbols))"
  by (simp add: index_in_def symbols_eq [symmetric] position_map ok_or_def split: option.split)

lemma fold_symbol_eq:
  "fold_symbol c = (if c = 73 \<or> c = 76 then 49 else if c = 79 then 48 else if c = 85 then 86 else c)"
  by (simp add: fold_symbol_def)

lemma symbols_checks:
  "list_all (\<lambda>i. let c = symbols ! i in c < 128 \<and> to_ascii_uppercase c = c
     \<and> c \<noteq> 45 \<and> \<not> is_whitespace c \<and> position (\<lambda>x. x = fold_symbol c) symbols = Some i) [0..<32]"
  by (simp add: upt_rec symbols_def to_ascii_uppercase_def is_whitespace_def fold_symbol_eq)

lemma of_char_symbol: "i < 32 \<Longrightarrow> of_char (ALPHABET ! i) = symbols ! i"
  by (simp add: symbols_eq [symmetric] ALPHABET_length)

lemma symbol:
  assumes "i < 32"
  shows "of_char (ALPHABET ! i) < (128::nat)"
    "to_ascii_uppercase (of_char (ALPHABET ! i)) = of_char (ALPHABET ! i)"
    "of_char (ALPHABET ! i) \<noteq> (45 :: nat)" "\<not> is_whitespace (of_char (ALPHABET ! i))"
    "index_in ALPHABET (of_char (ALPHABET ! i)) = Inr (of_nat i)"
  using symbols_checks less_32 [OF assms]
  unfolding list_all_iff Let_def of_char_symbol [OF assms] index_in_symbols
  by (simp_all add: less_32 [OF assms])

lemma symbol_inj:
  assumes "i < 32" and "j < 32" and "of_char (ALPHABET ! i) = (of_char (ALPHABET ! j) :: nat)"
  shows "i = j"
proof -
  have "(of_nat i :: u8) = of_nat j" using symbol(5) assms by (metis sum.inject(2))
  then have "i mod 256 = j mod 256" by (metis unat_of_nat_byte)
  with assms show ?thesis by simp
qed

lemma low_bits: "b AND 0x1f = take_bit 5 (b :: byte)"
  by (simp add: take_bit_eq_mask mask_eq_exp_minus_1)

lemma low_index: "unat (b AND 0x1f :: byte) < 32"
  unfolding low_bits by (simp only: unsigned_take_bit_eq) (simp add: take_bit_eq_mod)

lemma high_index: "unat (drop_bit 5 b :: byte) < 8"
proof -
  have "take_bit 8 (unat b) = unat b" using unat_lt [of b] by (simp add: take_bit_nat_eq_self)
  moreover have "unat b < 256" by (rule unat_byte_lt)
  then have "unat b div 32 < 8" by linarith
  ultimately show ?thesis by (simp only: unsigned_drop_bit_eq) (simp add: drop_bit_eq_div)
qed

lemma rejoin: "(b AND 0x1f) OR push_bit 5 (drop_bit 5 b) = (b :: byte)"
proof (rule bit_eqI)
  fix n
  assume "possible_bit TYPE(byte) n"
  then show "bit ((b AND 0x1f) OR push_bit 5 (drop_bit 5 b)) n = bit b n"
    unfolding low_bits by (cases "n < 5") (auto simp: bit_simps)
qed

text \<open>Where the shift loses information: the bits of the high symbol above the third.\<close>

lemma high_symbol_aliases: "push_bit 5 (of_nat (8 + i) :: byte) = push_bit 5 (of_nat i)"
proof -
  have "of_nat (8 + i) * 32 = (of_nat i * 32 :: byte)"
    by (simp only: of_nat_add of_nat_numeral distrib_right) simp
  then show ?thesis by (simp add: push_bit_eq_mult)
qed

section \<open>Parsing what was displayed\<close>

fun code_symbols :: "byte list \<Rightarrow> nat list" where
  "code_symbols [] = []"
| "code_symbols (b # bs) = of_char (low_symbol b) # of_char (high_symbol b) # code_symbols bs"

lemma length_code_symbols [simp]: "length (code_symbols bs) = 2 * length bs"
  by (induction bs) auto

lemma display_ascii: "is_ascii (display_from i bs)"
  by (induction i bs rule: display_from.induct)
    (auto simp: low_symbol_def high_symbol_def symbol(1) low_index less_trans [OF high_index])

lemma cleaned_display: "cleaned (display_from i bs) = code_symbols bs"
proof -
  have "map to_ascii_uppercase (filter (\<lambda>c. c \<noteq> of_char CHR ''-'' \<and> \<not> is_whitespace c)
      (map of_char (display_from i bs))) = code_symbols bs"
    by (induction i bs rule: display_from.induct)
      (auto simp: low_symbol_def high_symbol_def symbol low_index less_trans [OF high_index])
  then show ?thesis by (simp add: cleaned_def chars_ascii [OF display_ascii])
qed

lemma index_low: "index_in ALPHABET (of_char (low_symbol b)) = Inr (b AND 0x1f)"
  by (simp only: low_symbol_def symbol(5) [OF low_index]) simp

lemma index_high: "index_in ALPHABET (of_char (high_symbol b)) = Inr (drop_bit 5 b)"
  using symbol(5) [OF less_trans [OF high_index], of b] by (simp only: high_symbol_def) simp

lemma parse_code_symbols: "parse_pairs (code_symbols bs) = Inr bs"
  by (induction bs) (simp_all add: index_low index_high rejoin del: push_bit_numeral_minus_1)

text \<open>
  What the daemon displays is what it parses: every five-byte code, displayed in its groups,
  parses back to exactly those bytes, so two different codes never share a display and a code read
  off the screen always redeems.
\<close>

theorem parse_display:
  assumes "length secret = PAIRING_SECRET_LEN"
  shows "parse_displayed_code (pairing_display secret) = Inr secret"
  using assms
  by (simp add: parse_displayed_code_def pairing_display_def cleaned_display parse_code_symbols Let_def)

theorem parse_display_witness:
  "parse_displayed_code (pairing_display [255, 0, 32, 31, 171]) = Inr [255, 0, 32, 31, 171]
   \<and> pairing_display [255, 0, 32, 31, 171] = ''Z700-01Z0-B5''"
proof
  show "parse_displayed_code (pairing_display [255, 0, 32, 31, 171]) = Inr [255, 0, 32, 31, 171]"
    by (rule parse_display) (simp add: PAIRING_SECRET_LEN_def)
  show "pairing_display [255, 0, 32, 31, 171] = ''Z700-01Z0-B5''" by code_simp
qed

text \<open>
  The parser does not refuse everything the daemon could not have displayed: for every code there
  is a text whose symbols are the display of no code at all, and which is accepted as that code,
  because the high symbol's upper two bits are shifted out of the byte.
\<close>

theorem parser_accepts_undisplayable:
  assumes "length secret = PAIRING_SECRET_LEN"
  shows "\<exists>text. parse_displayed_code text = Inr secret
    \<and> (\<forall>other. cleaned text \<noteq> cleaned (pairing_display other))"
proof -
  obtain b bs where secret: "secret = b # bs" using assms by (cases secret) (auto simp: PAIRING_SECRET_LEN_def)
  let ?i = "8 + unat (drop_bit 5 b)"
  let ?t = "[low_symbol b, ALPHABET ! ?i] @ display_from 2 bs"
  have i: "?i < 32" using high_index [of b] by simp
  have ascii: "is_ascii ?t"
    by (simp add: low_symbol_def symbol(1) low_index i display_ascii)
  have clean: "cleaned ?t = of_char (low_symbol b) # of_char (ALPHABET ! ?i) # code_symbols bs"
    using cleaned_display [of 2 bs]
    by (simp add: cleaned_def chars_ascii ascii display_ascii low_symbol_def symbol low_index i)
  have "push_bit 5 (of_nat ?i :: byte) = push_bit 5 (drop_bit 5 b)"
    by (simp only: high_symbol_aliases) simp
  then have "parse_pairs (cleaned ?t) = Inr secret"
    unfolding clean secret
    by (simp add: index_low symbol(5) [OF i] parse_code_symbols rejoin del: push_bit_of_1)
  then have "parse_displayed_code ?t = Inr secret"
    unfolding parse_displayed_code_def Let_def clean using assms
    by (simp add: secret PAIRING_SECRET_LEN_def)
  moreover have "cleaned ?t \<noteq> cleaned (pairing_display other)" for other
  proof (cases other)
    case (Cons o1 os)
    have "ALPHABET ! ?i = high_symbol o1 \<Longrightarrow> ?i = unat (drop_bit 5 o1)"
      unfolding high_symbol_def using symbol_inj [OF i less_trans [OF high_index], of o1] by simp
    then have "(of_char (ALPHABET ! ?i) :: nat) \<noteq> of_char (high_symbol o1)"
      using high_index [of o1] of_char_eq_iff by force
    then show ?thesis unfolding clean pairing_display_def cleaned_display by (simp add: Cons)
  next
    case Nil
    then show ?thesis unfolding clean pairing_display_def cleaned_display by simp
  qed
  ultimately show ?thesis by blast
qed

theorem parser_accepts_undisplayable_witness:
  "\<exists>text. parse_displayed_code text = Inr [0, 0, 0, 0, 0]
    \<and> (\<forall>other. cleaned text \<noteq> cleaned (pairing_display other))"
  by (rule parser_accepts_undisplayable) (simp add: PAIRING_SECRET_LEN_def)

section \<open>Codes are used once\<close>

record pending_code =
  pc_code :: "byte list"
  pc_created_at :: nat
  pc_ttl :: nat
  pc_used :: bool

datatype consume_error = Expired | AlreadyUsed

definition pending_with_ttl :: "byte list \<Rightarrow> nat \<Rightarrow> nat \<Rightarrow> pending_code" where
  "pending_with_ttl code ttl now = \<lparr>pc_code = code, pc_created_at = now, pc_ttl = ttl, pc_used = False\<rparr>"

definition pending_new :: "byte list \<Rightarrow> nat \<Rightarrow> pending_code" where
  "pending_new code = pending_with_ttl code PAIRING_CODE_TTL"

text \<open>\<open>elapsed\<close> is zero where the clock reads earlier than the creation.\<close>

definition is_expired :: "nat \<Rightarrow> pending_code \<Rightarrow> bool" where
  "is_expired now p \<longleftrightarrow> pc_ttl p \<le> now - pc_created_at p"

definition remaining :: "nat \<Rightarrow> pending_code \<Rightarrow> nat" where
  "remaining now p = pc_ttl p - (now - pc_created_at p)"

definition consume :: "nat \<Rightarrow> pending_code \<Rightarrow> (consume_error + unit) \<times> pending_code" where
  "consume now p =
     (if pc_used p then (Inl AlreadyUsed, p)
      else if is_expired now p then (Inl Expired, p\<lparr>pc_used := True\<rparr>)
      else (Inr (), p\<lparr>pc_used := True\<rparr>))"

fun consume_run :: "nat list \<Rightarrow> pending_code \<Rightarrow> (consume_error + unit) list" where
  "consume_run [] p = []"
| "consume_run (t # ts) p = (let (r, p') = consume t p in r # consume_run ts p')"

lemma consume_run_used: "pc_used p \<Longrightarrow> consume_run ts p = map (\<lambda>_. Inl AlreadyUsed) ts"
  by (induction ts) (auto simp: consume_def)

text \<open>
  A code is worth one attempt. However often and whenever it is consumed, only the first attempt
  can succeed, it succeeds exactly when it comes before the lifetime is over, which is exactly while
  \<open>remaining\<close> is not zero, and every later attempt is refused as already used, also when the first
  one failed.
\<close>

theorem code_is_single_use:
  "consume_run (t # ts) (pending_new code created) =
     (if t < created + PAIRING_CODE_TTL then Inr () else Inl Expired) # map (\<lambda>_. Inl AlreadyUsed) ts
   \<and> (t < created + PAIRING_CODE_TTL \<longleftrightarrow> 0 < remaining t (pending_new code created))"
  by (auto simp: consume_def pending_new_def pending_with_ttl_def is_expired_def remaining_def
      consume_run_used PAIRING_CODE_TTL_def)

end
