(* ===== verification/Pairing.thy ===== *)
theory Pairing
  imports Wire Session Registry Pairing_Code
begin

text \<open>
  The pairing exchange: \<open>dr-dsh-crypto/src/pairing.rs\<close> (both halves of the PAKE, the confirmation and
  the sealed receipt) and \<open>dr-dsh-daemon/src/pairing.rs\<close> (the two sides as they run over a carrier).

  SPAKE2, HMAC and Ed25519 key generation are code outside the repository: the record \<open>pake\<close>.
  Randomness is an argument. The carrier a side runs over is the record \<open>carrier\<close> of the calls made on
  \<open>Transport\<close>; a timed-out wait is one of its outcomes. An \<open>unreachable!\<close> fallback is a panic.
\<close>

section \<open>The primitives\<close>

record 'sp pake =
  pk_start_a :: "byte list \<Rightarrow> byte list \<Rightarrow> byte list \<Rightarrow> byte list \<Rightarrow> 'sp \<times> byte list"
  pk_start_b :: "byte list \<Rightarrow> byte list \<Rightarrow> byte list \<Rightarrow> byte list \<Rightarrow> 'sp \<times> byte list"
  pk_finish :: "'sp \<Rightarrow> byte list \<Rightarrow> byte list option"
  pk_message_len :: nat
  pk_hmac :: "byte list \<Rightarrow> byte list \<Rightarrow> byte list"
  pk_public :: "byte list \<Rightarrow> byte list"

definition PAIRING_ROOT :: "byte list" where "PAIRING_ROOT = as_bytes ''dsh-remote/v1/pairing-root''"
definition ENROLMENT_CONFIRM :: "byte list" where
  "ENROLMENT_CONFIRM = as_bytes ''dsh-remote/v1/enrolment-confirm''"
definition ENROLMENT_SEAL :: "byte list" where "ENROLMENT_SEAL = as_bytes ''dsh-remote/v1/enrolment-seal''"
definition IDENTITY_CLIENT :: "byte list" where "IDENTITY_CLIENT = as_bytes ''dsh-remote/v1/pairing/client''"
definition IDENTITY_DAEMON :: "byte list" where "IDENTITY_DAEMON = as_bytes ''dsh-remote/v1/pairing/daemon''"

text \<open>
  What the primitives document: messages have the announced length; both ends finish on each other's
  message, with the same key exactly when they started from the same password; a MAC determines the
  key and the message it was made from (the ideal of a MAC).
\<close>

definition pake_contract :: "'sp pake \<Rightarrow> bool" where
  "pake_contract pk \<longleftrightarrow>
     (\<forall>pa pb ra rb.
        let (sa, ma) = pk_start_a pk pa IDENTITY_CLIENT IDENTITY_DAEMON ra;
            (sb, mb) = pk_start_b pk pb IDENTITY_CLIENT IDENTITY_DAEMON rb in
        length ma = pk_message_len pk \<and> length mb = pk_message_len pk
        \<and> (\<exists>ka kb. pk_finish pk sa mb = Some ka \<and> pk_finish pk sb ma = Some kb \<and> (ka = kb \<longleftrightarrow> pa = pb)))
   \<and> (\<forall>k m k' m'. pk_hmac pk k m = pk_hmac pk k' m' \<longrightarrow> k = k' \<and> m = m')"

definition kdf_contract :: "crypto \<Rightarrow> bool" where
  "kdf_contract cr \<longleftrightarrow> (\<forall>ikm info n. n \<le> 255 * 32 \<longrightarrow> (\<exists>out. hkdf_expand cr None ikm info n = Inr out \<and> length out = n))"

section \<open>Key derivation and the receipt\<close>

datatype pairing_error =
    OutOfOrder string
  | CodeMismatch
  | ConfirmationFailed
  | Receipt
  | PairingDevice device_error

definition rendezvous_root :: "crypto \<Rightarrow> byte list \<Rightarrow> byte list" where
  "rendezvous_root cr code =
     (case hkdf_expand cr None code PAIRING_ROOT SESSION_KEY_LEN of
        Inl _ \<Rightarrow> replicate SESSION_KEY_LEN 0
      | Inr stretched \<Rightarrow> stretched)"

definition room_id_for :: "crypto \<Rightarrow> ident \<Rightarrow> byte list \<Rightarrow> string" where
  "room_id_for cr idn root =
     (case hkdf_expand cr None root PAIRING_ROOT 16 of
        Inl _ \<Rightarrow> [] | Inr derived \<Rightarrow> b64_encode idn derived)"

definition rendezvous_room :: "crypto \<Rightarrow> ident \<Rightarrow> byte list \<Rightarrow> string" where
  "rendezvous_room cr idn code = room_id_for cr idn (rendezvous_root cr code)"

definition transport_root :: "crypto \<Rightarrow> byte list" where
  "transport_root cr = sha256 cr (PAIRING_ROOT @ as_bytes ''transport'')"

definition derive_pairing_root :: "crypto \<Rightarrow> byte list \<Rightarrow> byte list run" where
  "derive_pairing_root cr spake_output =
     (case hkdf_expand cr None spake_output PAIRING_ROOT SESSION_KEY_LEN of
        Inl _ \<Rightarrow> Panic | Inr root \<Rightarrow> Done root)"

definition enrolment_confirmation :: "'sp pake \<Rightarrow> byte list \<Rightarrow> byte list \<Rightarrow> byte list" where
  "enrolment_confirmation pk spake_output public_key =
     pk_hmac pk spake_output (ENROLMENT_CONFIRM @ public_key)"

definition constant_time_eq :: "byte list \<Rightarrow> byte list \<Rightarrow> bool" where
  "constant_time_eq computed presented \<longleftrightarrow>
     (if length computed \<noteq> length presented then False else computed = presented)"

definition receipt_aad :: "byte list \<Rightarrow> byte list" where
  "receipt_aad public_key = ENROLMENT_SEAL @ public_key"

definition seal_room_key :: "crypto \<Rightarrow> byte list \<Rightarrow> byte list \<Rightarrow> byte list \<Rightarrow> byte list \<Rightarrow> byte list" where
  "seal_room_key cr enrolment_key public_key room_key nonce =
     (case aead_new cr enrolment_key of
        Inl _ \<Rightarrow> []
      | Inr _ \<Rightarrow>
          nonce @ (case aead_encrypt cr enrolment_key nonce room_key (receipt_aad public_key) of
                     None \<Rightarrow> [] | Some sealed \<Rightarrow> sealed))"

definition open_room_key :: "crypto \<Rightarrow> byte list \<Rightarrow> byte list \<Rightarrow> byte list \<Rightarrow> pairing_error + byte list" where
  "open_room_key cr enrolment_key public_key sealed =
     (if length sealed < NONCE_LEN then Inl Receipt
      else case aead_new cr enrolment_key of
        Inl _ \<Rightarrow> Inl Receipt
      | Inr _ \<Rightarrow>
          (case aead_decrypt cr enrolment_key (take NONCE_LEN sealed) (drop NONCE_LEN sealed)
                  (receipt_aad public_key) of
             None \<Rightarrow> Inl Receipt
           | Some opened \<Rightarrow> if length opened = SESSION_KEY_LEN then Inr opened else Inl Receipt))"

section \<open>The two halves of the PAKE\<close>

text \<open>\<open>None\<close> is a half that has been finished: its inner state was taken out.\<close>

record 'sp daemon_pairing =
  dp_spake :: "'sp option"

record 'sp client_pairing =
  cp_spake :: "'sp option"

record paired_device =
  pd_public_key :: device_public_key
  pd_enrolment_key :: "byte list"

record client_enrolment =
  ce_public_key :: "byte list"
  ce_confirm :: "byte list"
  ce_enrolment_key :: "byte list"

definition daemon_begin :: "'sp pake \<Rightarrow> byte list \<Rightarrow> byte list \<Rightarrow> 'sp daemon_pairing \<times> byte list" where
  "daemon_begin pk code rand =
     (let (spake, message) = pk_start_b pk code IDENTITY_CLIENT IDENTITY_DAEMON rand in
      (\<lparr>dp_spake = Some spake\<rparr>, message))"

definition client_begin :: "'sp pake \<Rightarrow> byte list \<Rightarrow> byte list \<Rightarrow> 'sp client_pairing \<times> byte list" where
  "client_begin pk code rand =
     (let (spake, message) = pk_start_a pk code IDENTITY_CLIENT IDENTITY_DAEMON rand in
      (\<lparr>cp_spake = Some spake\<rparr>, message))"

definition daemon_finish :: "crypto \<Rightarrow> ident \<Rightarrow> 'sp pake \<Rightarrow> byte list \<Rightarrow> byte list \<Rightarrow> byte list
    \<Rightarrow> 'sp daemon_pairing \<Rightarrow> (pairing_error + paired_device) run" where
  "daemon_finish cr idn pk peer_message public_key confirm d =
     (case dp_spake d of
        None \<Rightarrow> Done (Inl (OutOfOrder ''this exchange is already finished''))
      | Some spake \<Rightarrow>
          (case pk_finish pk spake peer_message of
             None \<Rightarrow> Done (Inl CodeMismatch)
           | Some key \<Rightarrow>
               (case key_from_bytes idn public_key of
                  Inl e \<Rightarrow> Done (Inl (PairingDevice e))
                | Inr public_key \<Rightarrow>
                    (let computed = enrolment_confirmation pk key (to_bytes public_key) in
                     if \<not> constant_time_eq computed confirm then Done (Inl ConfirmationFailed)
                     else case derive_pairing_root cr key of
                       Panic \<Rightarrow> Panic
                     | Done root \<Rightarrow> Done (Inr \<lparr>pd_public_key = public_key, pd_enrolment_key = root\<rparr>)))))"

definition client_finish :: "crypto \<Rightarrow> 'sp pake \<Rightarrow> byte list \<Rightarrow> byte list
    \<Rightarrow> 'sp client_pairing \<Rightarrow> (pairing_error + client_enrolment) run" where
  "client_finish cr pk peer_message seed c =
     (case cp_spake c of
        None \<Rightarrow> Done (Inl (OutOfOrder ''this exchange is already finished''))
      | Some spake \<Rightarrow>
          (case pk_finish pk spake peer_message of
             None \<Rightarrow> Done (Inl CodeMismatch)
           | Some exchanged \<Rightarrow>
               (let public_key = pk_public pk seed in
                case derive_pairing_root cr exchanged of
                  Panic \<Rightarrow> Panic
                | Done root \<Rightarrow> Done (Inr \<lparr>ce_public_key = public_key,
                    ce_confirm = enrolment_confirmation pk exchanged public_key,
                    ce_enrolment_key = root\<rparr>))))"

lemma constant_time_eq_iff [simp]: "constant_time_eq a b \<longleftrightarrow> a = b"
  by (auto simp: constant_time_eq_def)

section \<open>A side of the exchange over its carrier\<close>

datatype carrier_error = TimedOut | CarrierFailed string

record 't carrier =
  ca_dial :: "string \<Rightarrow> string \<Rightarrow> byte list \<Rightarrow> 't \<Rightarrow> (string + unit) \<times> 't"
  ca_join :: "string \<Rightarrow> string \<Rightarrow> byte list \<Rightarrow> 't \<Rightarrow> (string + unit) \<times> 't"
  ca_establish :: "'t \<Rightarrow> (carrier_error + unit) \<times> 't"
  ca_send :: "u32 \<Rightarrow> byte list \<Rightarrow> 't \<Rightarrow> (string + unit) \<times> 't"
  ca_next_inbound :: "'t \<Rightarrow> (carrier_error + byte list) \<times> 't"
  ca_close :: "'t \<Rightarrow> 't"

datatype exchange_error =
    ExTransport string
  | ExMalformed string string
  | ExTimeout string
  | ExPairing pairing_error
  | ExRegistry registry_error
  | ExDevice device_error
  | ExRefused string

record pair_finish =
  pf_device_name :: string
  pf_device_public_key :: "byte list"
  pf_confirm :: "byte list"

record pair_accept =
  pa_kind :: string
  pa_device_id :: string
  pa_root_key :: string
  pa_room :: string

record pair_refusal =
  pr_kind :: string
  pr_reason :: string

record pairing_json =
  pj_finish :: "pair_finish json"
  pj_accept :: "pair_accept json"
  pj_refusal :: "pair_refusal json"
  pj_registry :: "stored_registry json"

text \<open>The code outside the repository, together; and what a side changes: its carrier and the disk.\<close>

record ('sp, 't) pairing_env =
  pe_crypto :: crypto
  pe_ident :: ident
  pe_pake :: "'sp pake"
  pe_carrier :: "'t carrier"
  pe_json :: pairing_json

record 't pairing_world =
  pw_carrier :: 't
  pw_fs :: fs

type_synonym ('t, 'a) exchange = "'t pairing_world \<Rightarrow> ((exchange_error + 'a) \<times> 't pairing_world) run"

definition then_do :: "('t, 'a) exchange \<Rightarrow> ('a \<Rightarrow> ('t, 'b) exchange) \<Rightarrow> ('t, 'b) exchange" where
  "then_do m f w =
     (case m w of
        Panic \<Rightarrow> Panic
      | Done (Inl e, w') \<Rightarrow> Done (Inl e, w')
      | Done (Inr x, w') \<Rightarrow> f x w')"

definition give :: "exchange_error + 'a \<Rightarrow> ('t, 'a) exchange" where
  "give r w = Done (r, w)"

definition on_carrier :: "('e \<Rightarrow> exchange_error) \<Rightarrow> ('t \<Rightarrow> ('e + 'a) \<times> 't) \<Rightarrow> ('t, 'a) exchange" where
  "on_carrier err op w =
     (let (r, t) = op (pw_carrier w) in Done (map_err err r, w\<lparr>pw_carrier := t\<rparr>))"

definition waiting :: "string \<Rightarrow> carrier_error \<Rightarrow> exchange_error" where
  "waiting step e = (case e of TimedOut \<Rightarrow> ExTimeout step | CarrierFailed why \<Rightarrow> ExTransport why)"

definition ex_send :: "('sp, 't) pairing_env \<Rightarrow> byte list \<Rightarrow> ('t, unit) exchange" where
  "ex_send E payload = on_carrier ExTransport (ca_send (pe_carrier E) CONTROL_STREAM_ID payload)"

definition send_json :: "('sp, 't) pairing_env \<Rightarrow> 'a json \<Rightarrow> 'a \<Rightarrow> ('t, unit) exchange" where
  "send_json E js value =
     (case to_json js value of
        Inl reason \<Rightarrow> give (Inl (ExMalformed ''send'' reason))
      | Inr encoded \<Rightarrow> ex_send E (as_bytes encoded))"

definition receive :: "('sp, 't) pairing_env \<Rightarrow> string \<Rightarrow> ('t, byte list) exchange" where
  "receive E step = on_carrier (waiting step) (ca_next_inbound (pe_carrier E))"

definition close_carrier :: "('sp, 't) pairing_env \<Rightarrow> ('t, unit) exchange" where
  "close_carrier E w = Done (Inr (), w\<lparr>pw_carrier := ca_close (pe_carrier E) (pw_carrier w)\<rparr>)"

definition expect_spake2_len :: "('sp, 't) pairing_env \<Rightarrow> byte list \<Rightarrow> string \<Rightarrow> exchange_error + unit" where
  "expect_spake2_len E payload step =
     (if length payload = pk_message_len (pe_pake E) then Inr ()
      else Inl (ExMalformed step ''a SPAKE2 message has the wrong length''))"

text \<open>A \<open>let _ =\<close> discards the outcome of the call, errors included.\<close>

definition ignoring :: "('t, 'a) exchange \<Rightarrow> ('t, unit) exchange" where
  "ignoring m w = (case m w of Panic \<Rightarrow> Panic | Done (_, w') \<Rightarrow> Done (Inr (), w'))"

definition refusal_reason :: "pairing_error \<Rightarrow> string" where
  "refusal_reason e =
     (case e of ConfirmationFailed \<Rightarrow> ''pairing_failed'' | CodeMismatch \<Rightarrow> ''pairing_failed''
      | _ \<Rightarrow> ''malformed'')"

section \<open>The daemon's side\<close>

record enrolment =
  en_device_id :: string
  en_label :: string

definition parse_finish :: "('sp, 't) pairing_env \<Rightarrow> byte list \<Rightarrow> exchange_error + pair_finish" where
  "parse_finish E payload =
     and_then (map_err (ExMalformed ''pair_finish'') (from_json (pj_finish (pe_json E)) (from_bytes payload)))
       (\<lambda>f. if length (pf_device_public_key f) = DEVICE_PUBLIC_KEY_LEN then Inr f
             else Inl (ExMalformed ''pair_finish'' ''a device key is 32 bytes''))"

definition refuse :: "('sp, 't) pairing_env \<Rightarrow> pairing_error \<Rightarrow> ('t, 'a) exchange" where
  "refuse E e =
     then_do (ignoring (send_json E (pj_refusal (pe_json E))
       \<lparr>pr_kind = ''pair_reject'', pr_reason = refusal_reason e\<rparr>)) (\<lambda>_.
     then_do (close_carrier E) (\<lambda>_.
     give (Inl (ExPairing e))))"

definition save_registry :: "('sp, 't) pairing_env \<Rightarrow> string \<Rightarrow> device_registry \<Rightarrow> ('t, unit) exchange" where
  "save_registry E p r w =
     (let (res, fs) = registry_save (pe_ident E) (pj_registry (pe_json E)) p r (pw_fs w) in
      Done (map_err ExRegistry res, w\<lparr>pw_fs := fs\<rparr>))"

definition accept_device :: "('sp, 't) pairing_env \<Rightarrow> device_registry \<Rightarrow> string \<Rightarrow> byte list \<Rightarrow> byte list
    \<Rightarrow> pair_finish \<Rightarrow> paired_device \<Rightarrow> ('t, enrolment \<times> device_registry) exchange" where
  "accept_device E registry registry_path served_root nonce f paired =
     then_do (give (map_err ExDevice (key_from_bytes (pe_ident E) (pf_device_public_key f)))) (\<lambda>key.
     let registry' = enrol (pe_ident E) key (pf_device_name f) registry in
     then_do (save_registry E registry_path registry') (\<lambda>_.
     let sealed = seal_room_key (pe_crypto E) (pd_enrolment_key paired)
                    (to_bytes (pd_public_key paired)) served_root nonce;
         device_id = id_to_base64url (pe_ident E) (device_id_of (pe_ident E) (pd_public_key paired)) in
     then_do (send_json E (pj_accept (pe_json E))
       \<lparr>pa_kind = ''pair_accept'', pa_device_id = device_id, pa_root_key = b64_encode (pe_ident E) sealed,
        pa_room = room_id_for (pe_crypto E) (pe_ident E) served_root\<rparr>) (\<lambda>_.
     then_do (close_carrier E) (\<lambda>_.
     give (Inr (\<lparr>en_device_id = device_id, en_label = pf_device_name f\<rparr>, registry'))))))"

definition run_daemon_side :: "('sp, 't) pairing_env \<Rightarrow> string \<Rightarrow> byte list \<Rightarrow> device_registry \<Rightarrow> string
    \<Rightarrow> byte list \<Rightarrow> byte list \<Rightarrow> byte list \<Rightarrow> ('t, enrolment \<times> device_registry) exchange" where
  "run_daemon_side E relay_url code registry registry_path served_root rand nonce =
     then_do (on_carrier ExTransport (ca_dial (pe_carrier E) relay_url
       (rendezvous_room (pe_crypto E) (pe_ident E) code) (transport_root (pe_crypto E)))) (\<lambda>_.
     then_do (on_carrier (waiting ''establish'') (ca_establish (pe_carrier E))) (\<lambda>_.
     let (pairing, daemon_message) = daemon_begin (pe_pake E) code rand in
     then_do (ex_send E daemon_message) (\<lambda>_.
     then_do (receive E ''pair_begin'') (\<lambda>peer_message.
     then_do (give (expect_spake2_len E peer_message ''pair_begin'')) (\<lambda>_.
     then_do (receive E ''pair_finish'') (\<lambda>payload.
     then_do (give (parse_finish E payload)) (\<lambda>f.
     case daemon_finish (pe_crypto E) (pe_ident E) (pe_pake E) peer_message
            (pf_device_public_key f) (pf_confirm f) pairing of
       Panic \<Rightarrow> (\<lambda>w. Panic)
     | Done (Inl e) \<Rightarrow> refuse E e
     | Done (Inr paired) \<Rightarrow> accept_device E registry registry_path served_root nonce f paired)))))))"

section \<open>The client's side\<close>

record enrolled =
  ed_identity :: "byte list"
  ed_device_id :: string
  ed_root_key :: "byte list"
  ed_room :: string

definition parse_accept :: "('sp, 't) pairing_env \<Rightarrow> byte list \<Rightarrow> exchange_error + pair_accept" where
  "parse_accept E payload =
     (case from_json (pj_accept (pe_json E)) (from_bytes payload) of
        Inr accept \<Rightarrow> Inr accept
      | Inl _ \<Rightarrow>
          (case from_json (pj_refusal (pe_json E)) (from_bytes payload) of
             Inr refusal \<Rightarrow> Inl (ExRefused (pr_reason refusal))
           | Inl _ \<Rightarrow> Inl (ExMalformed ''pair_accept'' ''not a pairing acceptance'')))"

definition open_receipt :: "('sp, 't) pairing_env \<Rightarrow> client_enrolment \<Rightarrow> byte list \<Rightarrow> pair_accept
    \<Rightarrow> exchange_error + enrolled" where
  "open_receipt E ce seed accept =
     and_then (ok_or (ExMalformed ''pair_accept'' ''not base64url'')
       (b64_decode (pe_ident E) (pa_root_key accept))) (\<lambda>sealed.
     and_then (map_err ExPairing (open_room_key (pe_crypto E) (ce_enrolment_key ce) (ce_public_key ce) sealed))
       (\<lambda>root_key.
         if room_id_for (pe_crypto E) (pe_ident E) root_key \<noteq> pa_room accept
         then Inl (ExMalformed ''pair_accept'' ''the announced room is not the one the room key derives'')
         else Inr \<lparr>ed_identity = seed, ed_device_id = pa_device_id accept, ed_root_key = root_key,
                   ed_room = pa_room accept\<rparr>))"

definition run_client_side_at :: "('sp, 't) pairing_env \<Rightarrow> string \<Rightarrow> byte list \<Rightarrow> string \<Rightarrow> byte list
    \<Rightarrow> string \<Rightarrow> byte list \<Rightarrow> byte list \<Rightarrow> ('t, enrolled) exchange" where
  "run_client_side_at E relay_url code room room_root device_name rand seed =
     then_do (on_carrier ExTransport (ca_join (pe_carrier E) relay_url room room_root)) (\<lambda>_.
     then_do (receive E ''pair_begin_ack'') (\<lambda>daemon_message.
     then_do (give (expect_spake2_len E daemon_message ''pair_begin_ack'')) (\<lambda>_.
     let (client, client_message) = client_begin (pe_pake E) code rand in
     then_do (ex_send E client_message) (\<lambda>_.
     case client_finish (pe_crypto E) (pe_pake E) daemon_message seed client of
       Panic \<Rightarrow> (\<lambda>w. Panic)
     | Done (Inl e) \<Rightarrow> give (Inl (ExPairing e))
     | Done (Inr ce) \<Rightarrow>
         then_do (send_json E (pj_finish (pe_json E)) \<lparr>pf_device_name = device_name,
           pf_device_public_key = ce_public_key ce, pf_confirm = ce_confirm ce\<rparr>) (\<lambda>_.
         then_do (receive E ''pair_accept'') (\<lambda>payload.
         then_do (give (parse_accept E payload)) (\<lambda>accept.
         then_do (close_carrier E) (\<lambda>_.
         give (open_receipt E ce seed accept)))))))))"

definition run_client_side :: "('sp, 't) pairing_env \<Rightarrow> string \<Rightarrow> byte list \<Rightarrow> string \<Rightarrow> byte list \<Rightarrow> byte list
    \<Rightarrow> ('t, enrolled) exchange" where
  "run_client_side E relay_url code device_name =
     run_client_side_at E relay_url code (rendezvous_room (pe_crypto E) (pe_ident E) code)
       (transport_root (pe_crypto E)) device_name"

section \<open>Scripted carriers\<close>

text \<open>A carrier on which a given sequence of payloads arrives, and which keeps what is sent.\<close>

record script =
  sc_in :: "byte list list"
  sc_out :: "byte list list"

definition script_carrier :: "script carrier" where
  "script_carrier = \<lparr>ca_dial = (\<lambda>_ _ _ t. (Inr (), t)), ca_join = (\<lambda>_ _ _ t. (Inr (), t)),
     ca_establish = (\<lambda>t. (Inr (), t)),
     ca_send = (\<lambda>_ payload t. (Inr (), t\<lparr>sc_out := sc_out t @ [payload]\<rparr>)),
     ca_next_inbound = (\<lambda>t. case sc_in t of [] \<Rightarrow> (Inl TimedOut, t) | m # ms \<Rightarrow> (Inr m, t\<lparr>sc_in := ms\<rparr>)),
     ca_close = (\<lambda>t. t)\<rparr>"

lemma then_do_simps [simp]:
  "then_do (give (Inr x)) f w = f x w" "then_do (give (Inl e)) f w = Done (Inl e, w)"
  by (simp_all add: then_do_def give_def)

lemma script_simps:
  assumes "pe_carrier E = script_carrier"
  shows "then_do (on_carrier err (ca_dial (pe_carrier E) u r k)) f w = f () w"
    "then_do (on_carrier err (ca_join (pe_carrier E) u r k)) f w = f () w"
    "then_do (on_carrier err' (ca_establish (pe_carrier E))) f w = f () w"
    "then_do (ex_send E m) f w =
       f () (w\<lparr>pw_carrier := (pw_carrier w)\<lparr>sc_out := sc_out (pw_carrier w) @ [m]\<rparr>\<rparr>)"
    "sc_in (pw_carrier w) = i # is \<Longrightarrow>
       then_do (receive E step) g w = g i (w\<lparr>pw_carrier := (pw_carrier w)\<lparr>sc_in := is\<rparr>\<rparr>)"
    "then_do (close_carrier E) f w = f () w"
    "then_do (ignoring (ex_send E m)) f w =
       f () (w\<lparr>pw_carrier := (pw_carrier w)\<lparr>sc_out := sc_out (pw_carrier w) @ [m]\<rparr>\<rparr>)"
  by (simp_all add: assms then_do_def on_carrier_def script_carrier_def ex_send_def receive_def
      close_carrier_def ignoring_def)

text \<open>What the run relies on beyond the primitives: plain structs serialise, and a refusal is not an acceptance.\<close>

definition pairing_json_contract :: "pairing_json \<Rightarrow> bool" where
  "pairing_json_contract pj \<longleftrightarrow>
     json_contract (pj_finish pj) \<and> json_contract (pj_accept pj) \<and> json_contract (pj_refusal pj)
     \<and> json_contract (pj_registry pj) \<and> writes_all (pj_finish pj) \<and> writes_all (pj_accept pj)
     \<and> writes_all (pj_refusal pj) \<and> writes_all (pj_registry pj)
     \<and> (\<forall>r t. to_json (pj_refusal pj) r = Inr t \<longrightarrow> (\<exists>e. from_json (pj_accept pj) t = Inl e))"

definition aead_accepts_keys :: "crypto \<Rightarrow> bool" where
  "aead_accepts_keys cr \<longleftrightarrow>
     (\<forall>key nonce aad msg. length key = SESSION_KEY_LEN \<longrightarrow> length nonce = NONCE_LEN \<longrightarrow>
        aead_new cr key = Inr () \<and> aead_encrypt cr key nonce msg aad \<noteq> None)"

lemma open_seal_room_key:
  assumes "aead_contract cr" and "aead_accepts_keys cr" and "length ek = SESSION_KEY_LEN"
    and "length nonce = NONCE_LEN" and "length rk = SESSION_KEY_LEN"
  shows "open_room_key cr ek pk (seal_room_key cr ek pk rk nonce) = Inr rk"
proof -
  from assms(2,3,4) have "aead_new cr ek = Inr ()" "aead_encrypt cr ek nonce rk (receipt_aad pk) \<noteq> None"
    unfolding aead_accepts_keys_def by blast+
  moreover from this(2) obtain ct where ct: "aead_encrypt cr ek nonce rk (receipt_aad pk) = Some ct" by blast
  moreover from ct assms(1) have "aead_decrypt cr ek nonce ct (receipt_aad pk) = Some rk"
    unfolding aead_contract_def by blast
  moreover note assms
  ultimately show ?thesis by (simp add: seal_room_key_def open_room_key_def)
qed

record exchange_args =
  xa_url :: string
  xa_served_root :: "byte list"
  xa_path :: string
  xa_name :: string
  xa_rand_daemon :: "byte list"
  xa_rand_client :: "byte list"
  xa_seed :: "byte list"
  xa_nonce :: "byte list"

definition exchange_ok :: "('sp, script) pairing_env \<Rightarrow> exchange_args \<Rightarrow> bool" where
  "exchange_ok E x \<longleftrightarrow> pe_carrier E = script_carrier \<and> pake_contract (pe_pake E)
     \<and> aead_contract (pe_crypto E) \<and> aead_accepts_keys (pe_crypto E) \<and> kdf_contract (pe_crypto E)
     \<and> ident_contract (pe_ident E) \<and> pairing_json_contract (pe_json E)
     \<and> id_valid_point (pe_ident E) (pk_public (pe_pake E) (xa_seed x))
     \<and> length (pk_public (pe_pake E) (xa_seed x)) = DEVICE_PUBLIC_KEY_LEN
     \<and> length (xa_served_root x) = SESSION_KEY_LEN \<and> length (xa_nonce x) = NONCE_LEN"

text \<open>What the client sends: its PAKE message and its identity with the proof under its key.\<close>

definition client_key :: "('sp, script) pairing_env \<Rightarrow> exchange_args \<Rightarrow> device_public_key" where
  "client_key E x = DevicePublicKey (pk_public (pe_pake E) (xa_seed x))"

definition finish_message :: "('sp, script) pairing_env \<Rightarrow> exchange_args \<Rightarrow> byte list \<Rightarrow> pair_finish" where
  "finish_message E x k = \<lparr>pf_device_name = xa_name x,
     pf_device_public_key = to_bytes (client_key E x),
     pf_confirm = enrolment_confirmation (pe_pake E) k (to_bytes (client_key E x))\<rparr>"

definition accept_message :: "('sp, script) pairing_env \<Rightarrow> exchange_args \<Rightarrow> byte list \<Rightarrow> pair_accept" where
  "accept_message E x root = \<lparr>pa_kind = ''pair_accept'',
     pa_device_id = id_to_base64url (pe_ident E) (device_id_of (pe_ident E) (client_key E x)),
     pa_root_key = b64_encode (pe_ident E) (seal_room_key (pe_crypto E) root (to_bytes (client_key E x))
        (xa_served_root x) (xa_nonce x)),
     pa_room = room_id_for (pe_crypto E) (pe_ident E) (xa_served_root x)\<rparr>"

lemma root_exists:
  "kdf_contract cr \<Longrightarrow> \<exists>root. derive_pairing_root cr k = Done root \<and> length root = SESSION_KEY_LEN"
  unfolding kdf_contract_def derive_pairing_root_def SESSION_KEY_LEN_def
  by (drule spec [of _ k], drule spec [of _ PAIRING_ROOT], drule spec [of _ 32]) auto

lemma writesE: "writes_all js \<Longrightarrow> json_contract js \<Longrightarrow> \<exists>t. to_json js v = Inr t \<and> from_json js t = Inr v"
  unfolding writes_all_def using json_contractD by metis

text \<open>The client, given the daemon's PAKE message and an answer to its own.\<close>

lemma client_side:
  assumes ok: "exchange_ok E x" and start: "pk_start_a (pe_pake E) code IDENTITY_CLIENT IDENTITY_DAEMON
      (xa_rand_client x) = (sa, ma)"
    and mb: "length mb = pk_message_len (pe_pake E)" and ka: "pk_finish (pe_pake E) sa mb = Some ka"
    and root: "derive_pairing_root (pe_crypto E) ka = Done root"
    and t: "to_json (pj_finish (pe_json E)) (finish_message E x ka) = Inr t"
  shows "run_client_side_at E (xa_url x) code room rr (xa_name x) (xa_rand_client x) (xa_seed x)
      \<lparr>pw_carrier = \<lparr>sc_in = [mb, answer], sc_out = []\<rparr>, pw_fs = fs\<rparr> =
    Done (and_then (parse_accept E answer) (open_receipt E \<lparr>ce_public_key = to_bytes (client_key E x),
        ce_confirm = enrolment_confirmation (pe_pake E) ka (to_bytes (client_key E x)),
        ce_enrolment_key = root\<rparr> (xa_seed x)),
      \<lparr>pw_carrier = \<lparr>sc_in = [], sc_out = [ma, as_bytes t]\<rparr>, pw_fs = fs\<rparr>)"
proof -
  have c: "pe_carrier E = script_carrier" using ok by (simp add: exchange_ok_def)
  have "client_finish (pe_crypto E) (pe_pake E) mb (xa_seed x) \<lparr>cp_spake = Some sa\<rparr> =
      Done (Inr \<lparr>ce_public_key = to_bytes (client_key E x),
        ce_confirm = enrolment_confirmation (pe_pake E) ka (to_bytes (client_key E x)),
        ce_enrolment_key = root\<rparr>)"
    by (simp add: client_finish_def ka root client_key_def Let_def)
  moreover have "to_json (pj_finish (pe_json E)) \<lparr>pf_device_name = xa_name x,
      pf_device_public_key = to_bytes (client_key E x),
      pf_confirm = enrolment_confirmation (pe_pake E) ka (to_bytes (client_key E x))\<rparr> = Inr t"
    using t by (simp add: finish_message_def)
  ultimately show ?thesis
    unfolding run_client_side_at_def script_simps(2) [OF c]
    by (cases "parse_accept E answer")
      (simp_all add: script_simps [OF c] expect_spake2_len_def mb client_begin_def start send_json_def
        give_def [of "open_receipt _ _ _ _"])
qed

text \<open>The daemon, given the client's two messages.\<close>

lemma daemon_side:
  assumes ok: "exchange_ok E x" and start: "pk_start_b (pe_pake E) code IDENTITY_CLIENT IDENTITY_DAEMON
      (xa_rand_daemon x) = (sb, mb)"
    and ma: "length ma = pk_message_len (pe_pake E)" and kb: "pk_finish (pe_pake E) sb ma = Some kb"
    and root: "derive_pairing_root (pe_crypto E) kb = Done root"
    and t: "to_json (pj_finish (pe_json E)) (finish_message E x ka) = Inr t"
  shows "run_daemon_side E (xa_url x) code registry (xa_path x) (xa_served_root x) (xa_rand_daemon x)
      (xa_nonce x) \<lparr>pw_carrier = \<lparr>sc_in = [ma, as_bytes t], sc_out = []\<rparr>, pw_fs = fs\<rparr> =
    (let w = \<lparr>pw_carrier = \<lparr>sc_in = [], sc_out = [mb]\<rparr>, pw_fs = fs\<rparr> in
     if kb = ka then accept_device E registry (xa_path x) (xa_served_root x) (xa_nonce x) (finish_message E x ka)
        \<lparr>pd_public_key = client_key E x, pd_enrolment_key = root\<rparr> w
     else refuse E ConfirmationFailed w)"
proof -
  have c: "pe_carrier E = script_carrier" and j: "json_contract (pj_finish (pe_json E))"
    and mac: "\<And>k m k' m'. pk_hmac (pe_pake E) k m = pk_hmac (pe_pake E) k' m' \<Longrightarrow> k = k'"
    and valid: "id_valid_point (pe_ident E) (pk_public (pe_pake E) (xa_seed x))"
    and len: "length (pk_public (pe_pake E) (xa_seed x)) = DEVICE_PUBLIC_KEY_LEN"
    using ok unfolding exchange_ok_def pairing_json_contract_def pake_contract_def by blast+
  have parse: "parse_finish E (as_bytes t) = Inr (finish_message E x ka)"
    using json_contractD [OF j t] len by (simp add: parse_finish_def finish_message_def client_key_def)
  have "enrolment_confirmation (pe_pake E) kb m = enrolment_confirmation (pe_pake E) ka m \<longleftrightarrow> kb = ka" for m
    using mac unfolding enrolment_confirmation_def by blast
  then have fin: "daemon_finish (pe_crypto E) (pe_ident E) (pe_pake E) ma
      (pf_device_public_key (finish_message E x ka)) (pf_confirm (finish_message E x ka)) \<lparr>dp_spake = Some sb\<rparr> =
    Done (if kb = ka then Inr \<lparr>pd_public_key = client_key E x, pd_enrolment_key = root\<rparr>
          else Inl ConfirmationFailed)"
    using valid root
    by (cases "kb = ka")
      (auto simp: daemon_finish_def kb key_from_bytes_def finish_message_def client_key_def Let_def)
  show ?thesis
    unfolding run_daemon_side_def script_simps(1) [OF c]
    by (simp add: script_simps [OF c] expect_spake2_len_def ma daemon_begin_def start parse fin Let_def)
qed

lemma refuse_script:
  assumes "exchange_ok E x"
  shows "\<exists>t. to_json (pj_refusal (pe_json E)) \<lparr>pr_kind = ''pair_reject'', pr_reason = ''pairing_failed''\<rparr> = Inr t
    \<and> parse_accept E (as_bytes t) = Inl (ExRefused ''pairing_failed'')
    \<and> (\<forall>w. refuse E ConfirmationFailed w = Done (Inl (ExPairing ConfirmationFailed),
         w\<lparr>pw_carrier := (pw_carrier w)\<lparr>sc_out := sc_out (pw_carrier w) @ [as_bytes t]\<rparr>\<rparr>))"
proof -
  have c: "pe_carrier E = script_carrier" and w: "writes_all (pj_refusal (pe_json E))"
    "json_contract (pj_refusal (pe_json E))"
    and other: "\<And>r t. to_json (pj_refusal (pe_json E)) r = Inr t \<Longrightarrow> \<exists>e. from_json (pj_accept (pe_json E)) t = Inl e"
    using assms unfolding exchange_ok_def pairing_json_contract_def by blast+
  obtain t where t: "to_json (pj_refusal (pe_json E)) \<lparr>pr_kind = ''pair_reject'', pr_reason = ''pairing_failed''\<rparr> = Inr t"
    "from_json (pj_refusal (pe_json E)) t = Inr \<lparr>pr_kind = ''pair_reject'', pr_reason = ''pairing_failed''\<rparr>"
    using writesE [OF w] by blast
  from other [OF t(1)] obtain e where "from_json (pj_accept (pe_json E)) t = Inl e" by blast
  with t show ?thesis
    by (auto simp: parse_accept_def refuse_def refusal_reason_def send_json_def script_simps [OF c] give_def)
qed

lemma accept_script:
  assumes ok: "exchange_ok E x" and root: "length root = SESSION_KEY_LEN"
    and inv: "registry_inv (pe_ident E) registry" and p: "has_name (xa_path x)" and fs: "fs_fault fs = (\<lambda>_. None)"
  shows "\<exists>t fs'. to_json (pj_accept (pe_json E)) (accept_message E x root) = Inr t
    \<and> parse_accept E (as_bytes t) = Inr (accept_message E x root)
    \<and> (\<forall>c. accept_device E registry (xa_path x) (xa_served_root x) (xa_nonce x) (finish_message E x k)
        \<lparr>pd_public_key = client_key E x, pd_enrolment_key = root\<rparr> \<lparr>pw_carrier = c, pw_fs = fs\<rparr> =
       Done (Inr (\<lparr>en_device_id = pa_device_id (accept_message E x root), en_label = xa_name x\<rparr>,
              enrol (pe_ident E) (client_key E x) (xa_name x) registry),
         \<lparr>pw_carrier = c\<lparr>sc_out := sc_out c @ [as_bytes t]\<rparr>, pw_fs = fs'\<rparr>))
    \<and> registry_load (pe_ident E) (pj_registry (pe_json E)) (xa_path x) fs' =
        Inr (enrol (pe_ident E) (client_key E x) (xa_name x) registry)"
proof -
  have c: "pe_carrier E = script_carrier" and wa: "writes_all (pj_accept (pe_json E))"
    "json_contract (pj_accept (pe_json E))" and wr: "writes_all (pj_registry (pe_json E))"
    and jr: "json_contract (pj_registry (pe_json E))"
    and valid: "id_valid_point (pe_ident E) (pk_public (pe_pake E) (xa_seed x))"
    using ok unfolding exchange_ok_def pairing_json_contract_def by blast+
  let ?reg = "enrol (pe_ident E) (client_key E x) (xa_name x) registry"
  obtain t where t: "to_json (pj_accept (pe_json E)) (accept_message E x root) = Inr t"
    "from_json (pj_accept (pe_json E)) t = Inr (accept_message E x root)"
    using writesE [OF wa] by blast
  obtain u where "to_json (pj_registry (pe_json E)) (registry_stored (pe_ident E) ?reg) = Inr u"
    using wr unfolding writes_all_def by blast
  then obtain fs' where save: "registry_save (pe_ident E) (pj_registry (pe_json E)) (xa_path x) ?reg fs = (Inr (), fs')"
    using json_save_without_faults [OF fs] unfolding registry_save_def by metis
  have "registry_inv (pe_ident E) ?reg" using inv valid by (intro enrol_inv) (simp_all add: client_key_def)
  then have load: "registry_load (pe_ident E) (pj_registry (pe_json E)) (xa_path x) fs' = Inr ?reg"
    using registry_file.save_ok [OF _ p save] jr fs by simp
  have "key_from_bytes (pe_ident E) (pf_device_public_key (finish_message E x k)) = Inr (client_key E x)"
    using valid by (simp add: key_from_bytes_def finish_message_def client_key_def)
  moreover have "pf_device_name (finish_message E x k) = xa_name x" by (simp add: finish_message_def)
  ultimately have "accept_device E registry (xa_path x) (xa_served_root x) (xa_nonce x) (finish_message E x k)
        \<lparr>pd_public_key = client_key E x, pd_enrolment_key = root\<rparr> \<lparr>pw_carrier = sc, pw_fs = fs\<rparr> =
       Done (Inr (\<lparr>en_device_id = pa_device_id (accept_message E x root), en_label = xa_name x\<rparr>, ?reg),
         \<lparr>pw_carrier = sc\<lparr>sc_out := sc_out sc @ [as_bytes t]\<rparr>, pw_fs = fs'\<rparr>)" for sc
    using t(1) unfolding accept_message_def
    by (simp add: accept_device_def then_do_def [of "save_registry _ _ _"] save_registry_def save Let_def
        send_json_def script_simps [OF c] give_def)
  with t load show ?thesis by (auto simp: parse_accept_def)
qed

section \<open>Two sides connected\<close>

text \<open>
  Pairing does what it is for. Let the two sides run against each other, each receiving exactly what
  the other sends. With the same code both succeed: the daemon enrols the client's key under its own
  id with the label it gave, the registry on disk loads as the enlarged one, and the client ends with
  the key and the room the daemon serves and the id it was enrolled under. With different codes the
  daemon refuses and touches neither registry nor disk, and the client is told the pairing failed.
\<close>

theorem pairing_agrees_on_the_code:
  assumes ok: "exchange_ok E x" and inv: "registry_inv (pe_ident E) registry"
    and p: "has_name (xa_path x)" and fs: "fs_fault fs = (\<lambda>_. None)"
  shows "\<exists>to_daemon to_client rd rc fs' c1 c2.
      run_daemon_side E (xa_url x) code registry (xa_path x) (xa_served_root x) (xa_rand_daemon x)
        (xa_nonce x) \<lparr>pw_carrier = \<lparr>sc_in = to_daemon, sc_out = []\<rparr>, pw_fs = fs\<rparr>
        = Done (rd, \<lparr>pw_carrier = \<lparr>sc_in = c1, sc_out = to_client\<rparr>, pw_fs = fs'\<rparr>)
    \<and> run_client_side_at E (xa_url x) code' room rr (xa_name x) (xa_rand_client x) (xa_seed x)
        \<lparr>pw_carrier = \<lparr>sc_in = to_client, sc_out = []\<rparr>, pw_fs = fs0\<rparr>
        = Done (rc, \<lparr>pw_carrier = \<lparr>sc_in = c2, sc_out = to_daemon\<rparr>, pw_fs = fs0\<rparr>)
    \<and> (if code = code' then
         (\<exists>en cl. let registry' = enrol (pe_ident E) (client_key E x) (xa_name x) registry in
            rd = Inr (en, registry') \<and> rc = Inr cl
          \<and> registry_load (pe_ident E) (pj_registry (pe_json E)) (xa_path x) fs' = Inr registry'
          \<and> ed_root_key cl = xa_served_root x
          \<and> ed_room cl = room_id_for (pe_crypto E) (pe_ident E) (xa_served_root x)
          \<and> ed_device_id cl = id_to_base64url (pe_ident E) (device_id_of (pe_ident E) (client_key E x))
          \<and> en_device_id en = ed_device_id cl \<and> en_label en = xa_name x)
       else rd = Inl (ExPairing ConfirmationFailed) \<and> rc = Inl (ExRefused ''pairing_failed'') \<and> fs' = fs)"
proof -
  obtain sa ma where a: "pk_start_a (pe_pake E) code' IDENTITY_CLIENT IDENTITY_DAEMON (xa_rand_client x) = (sa, ma)"
    by fastforce
  obtain sb mb where b: "pk_start_b (pe_pake E) code IDENTITY_CLIENT IDENTITY_DAEMON (xa_rand_daemon x) = (sb, mb)"
    by fastforce
  have "pake_contract (pe_pake E)" using ok by (simp add: exchange_ok_def)
  note pc = conjunct1 [OF this [unfolded pake_contract_def], THEN spec, of code', THEN spec, of code,
    THEN spec, of "xa_rand_client x", THEN spec, of "xa_rand_daemon x", unfolded a b Let_def prod.case]
  from pc obtain ka kb where l: "length ma = pk_message_len (pe_pake E)" "length mb = pk_message_len (pe_pake E)"
    and k: "pk_finish (pe_pake E) sa mb = Some ka" "pk_finish (pe_pake E) sb ma = Some kb"
    and same': "ka = kb \<longleftrightarrow> code' = code" by blast
  from same' have same: "kb = ka \<longleftrightarrow> code = code'" by metis
  have kdf: "kdf_contract (pe_crypto E)" using ok by (simp add: exchange_ok_def)
  obtain ra where ra: "derive_pairing_root (pe_crypto E) ka = Done ra" "length ra = SESSION_KEY_LEN"
    using root_exists [OF kdf] by blast
  obtain rb where rb: "derive_pairing_root (pe_crypto E) kb = Done rb" using root_exists [OF kdf] by blast
  have "writes_all (pj_finish (pe_json E))" "json_contract (pj_finish (pe_json E))"
    using ok by (simp_all add: exchange_ok_def pairing_json_contract_def)
  from writesE [OF this, of "finish_message E x ka"]
  obtain t where t: "to_json (pj_finish (pe_json E)) (finish_message E x ka) = Inr t" by blast
  note client = client_side [OF ok a l(2) k(1) ra(1) t, of room rr _ fs0]
    and daemon = daemon_side [OF ok b l(1) k(2) rb t, of registry fs]
  show ?thesis
  proof (cases "code = code'")
    case True
    with same rb ra(1) have "kb = ka" "rb = ra" by auto
    obtain u fs' where u: "parse_accept E (as_bytes u) = Inr (accept_message E x ra)"
      and acc: "\<And>c. accept_device E registry (xa_path x) (xa_served_root x) (xa_nonce x) (finish_message E x ka)
        \<lparr>pd_public_key = client_key E x, pd_enrolment_key = ra\<rparr> \<lparr>pw_carrier = c, pw_fs = fs\<rparr> =
       Done (Inr (\<lparr>en_device_id = pa_device_id (accept_message E x ra), en_label = xa_name x\<rparr>,
              enrol (pe_ident E) (client_key E x) (xa_name x) registry),
         \<lparr>pw_carrier = c\<lparr>sc_out := sc_out c @ [as_bytes u]\<rparr>, pw_fs = fs'\<rparr>)"
      and load: "registry_load (pe_ident E) (pj_registry (pe_json E)) (xa_path x) fs' =
        Inr (enrol (pe_ident E) (client_key E x) (xa_name x) registry)"
      using accept_script [OF ok ra(2) inv p fs, of ka] by blast
    have "aead_contract (pe_crypto E)" "aead_accepts_keys (pe_crypto E)" "length (xa_nonce x) = NONCE_LEN"
      "length (xa_served_root x) = SESSION_KEY_LEN" "ident_contract (pe_ident E)"
      using ok by (simp_all add: exchange_ok_def)
    then have receipt: "open_receipt E \<lparr>ce_public_key = to_bytes (client_key E x),
        ce_confirm = cf, ce_enrolment_key = ra\<rparr> (xa_seed x) (accept_message E x ra) =
       Inr \<lparr>ed_identity = xa_seed x, ed_device_id = pa_device_id (accept_message E x ra),
         ed_root_key = xa_served_root x, ed_room = pa_room (accept_message E x ra)\<rparr>" for cf
      using open_seal_room_key ra(2) by (simp add: open_receipt_def accept_message_def ident_contract_def)
    show ?thesis
      using client [of "as_bytes u"] daemon load True
      by (intro exI [of _ "[ma, as_bytes t]"] exI [of _ "[mb, as_bytes u]"])
        (simp add: \<open>kb = ka\<close> \<open>rb = ra\<close> u acc receipt, simp add: accept_message_def Let_def)
  next
    case False
    with same have "kb \<noteq> ka" by simp
    from refuse_script [OF ok] obtain u where u: "parse_accept E (as_bytes u) = Inl (ExRefused ''pairing_failed'')"
      and ref: "\<And>w. refuse E ConfirmationFailed w = Done (Inl (ExPairing ConfirmationFailed)
           :: exchange_error + enrolment \<times> device_registry,
         w\<lparr>pw_carrier := (pw_carrier w)\<lparr>sc_out := sc_out (pw_carrier w) @ [as_bytes u]\<rparr>\<rparr>)"
      by blast
    show ?thesis
      using client [of "as_bytes u"] daemon False
      by (intro exI [of _ "[ma, as_bytes t]"] exI [of _ "[mb, as_bytes u]"])
        (simp add: \<open>kb \<noteq> ka\<close> u ref)
  qed
qed

definition demo_pake :: "byte list pake" where
  "demo_pake = \<lparr>pk_start_a = (\<lambda>pw _ _ _. (pw, [0])), pk_start_b = (\<lambda>pw _ _ _. (pw, [0])),
     pk_finish = (\<lambda>sp _. Some sp), pk_message_len = 1,
     pk_hmac = (\<lambda>k m. concat (map (\<lambda>b. [1, b]) k) @ [0] @ m),
     pk_public = (\<lambda>seed. take 32 (seed @ replicate 32 7))\<rparr>"

lemma demo_hmac_inj:
  "concat (map (\<lambda>b. [1, b]) k) @ 0 # m = concat (map (\<lambda>b. [1, b]) k') @ (0 :: byte) # m' \<Longrightarrow> k = k' \<and> m = m'"
proof (induction k arbitrary: k')
  case Nil
  then show ?case by (cases k') auto
next
  case (Cons b k)
  then show ?case by (cases k') auto
qed

lemma demo_pake_contract: "pake_contract demo_pake"
  unfolding pake_contract_def by (auto simp: demo_pake_def Let_def dest: demo_hmac_inj)

fun unpack_devices :: "byte list list \<Rightarrow> stored_device list option" where
  "unpack_devices [] = Some []"
| "unpack_devices (i # k # l # fs) =
     map_option ((#) \<lparr>sd_id = from_bytes i, sd_public_key = k, sd_label = from_bytes l\<rparr>) (unpack_devices fs)"
| "unpack_devices _ = None"

definition demo_pairing_json :: pairing_json where
  "demo_pairing_json = \<lparr>
     pj_finish = field_json
       (\<lambda>f. [as_bytes (pf_device_name f), pf_device_public_key f, pf_confirm f])
       (\<lambda>p. case p of [n, k, c] \<Rightarrow> Some \<lparr>pf_device_name = from_bytes n, pf_device_public_key = k, pf_confirm = c\<rparr>
            | _ \<Rightarrow> None),
     pj_accept = field_json
       (\<lambda>a. [as_bytes (pa_kind a), as_bytes (pa_device_id a), as_bytes (pa_root_key a), as_bytes (pa_room a)])
       (\<lambda>p. case p of [k, i, r, m] \<Rightarrow> Some \<lparr>pa_kind = from_bytes k, pa_device_id = from_bytes i,
              pa_root_key = from_bytes r, pa_room = from_bytes m\<rparr> | _ \<Rightarrow> None),
     pj_refusal = field_json
       (\<lambda>r. [as_bytes (pr_kind r), as_bytes (pr_reason r)])
       (\<lambda>p. case p of [k, r] \<Rightarrow> Some \<lparr>pr_kind = from_bytes k, pr_reason = from_bytes r\<rparr> | _ \<Rightarrow> None),
     pj_registry = field_json
       (\<lambda>s. put_u32 (sr_version s)
          # concat (map (\<lambda>d. [as_bytes (sd_id d), sd_public_key d, as_bytes (sd_label d)]) (sr_devices s)))
       (\<lambda>p. case p of [] \<Rightarrow> None | v # fs \<Rightarrow> map_option
          (\<lambda>ds. \<lparr>sr_version = get_u32 v, sr_devices = ds\<rparr>) (unpack_devices fs))\<rparr>"

lemma unpack_devices_pack:
  "unpack_devices (concat (map (\<lambda>d. [as_bytes (sd_id d), sd_public_key d, as_bytes (sd_label d)]) ds)) = Some ds"
  by (induction ds) auto

lemma demo_pairing_json_contract: "pairing_json_contract demo_pairing_json"
  unfolding pairing_json_contract_def
  by (intro conjI)
    (simp_all add: demo_pairing_json_def field_json_writes_all field_json_contract unpack_devices_pack,
      simp add: field_json_def)

definition demo_pairing_env :: "(byte list, script) pairing_env" where
  "demo_pairing_env = \<lparr>pe_crypto = demo_crypto, pe_ident = demo_ident, pe_pake = demo_pake,
     pe_carrier = script_carrier, pe_json = demo_pairing_json\<rparr>"

definition demo_exchange :: exchange_args where
  "demo_exchange = \<lparr>xa_url = ''wss://relay'', xa_served_root = replicate 32 9, xa_path = ''/s/devices.json'',
     xa_name = ''phone'', xa_rand_daemon = [], xa_rand_client = [], xa_seed = replicate 32 1,
     xa_nonce = replicate 12 3\<rparr>"

lemma demo_exchange_ok: "exchange_ok demo_pairing_env demo_exchange"
proof -
  have "kdf_contract demo_crypto" by (auto simp: kdf_contract_def demo_crypto_def)
  moreover have "aead_accepts_keys demo_crypto" by (simp add: aead_accepts_keys_def demo_crypto_def)
  ultimately show ?thesis
    using demo_pake_contract demo_aead_contract demo_ident_contract demo_pairing_json_contract
    by (simp add: exchange_ok_def demo_pairing_env_def)
      (simp add: demo_exchange_def demo_pake_def demo_ident_def DEVICE_PUBLIC_KEY_LEN_def
        SESSION_KEY_LEN_def NONCE_LEN_def)
qed

theorem pairing_agrees_on_the_code_witness:
  "\<exists>to_daemon to_client rd rc wd wc.
      run_daemon_side demo_pairing_env ''wss://relay'' [1, 2, 3, 4, 5] registry_new ''/s/devices.json''
        (replicate 32 9) [] (replicate 12 3) \<lparr>pw_carrier = \<lparr>sc_in = to_daemon, sc_out = []\<rparr>, pw_fs = no_faults\<rparr>
        = Done (rd, wd)
    \<and> run_client_side_at demo_pairing_env ''wss://relay'' [1, 2, 3, 4, 5] [] [] ''phone'' [] (replicate 32 1)
        \<lparr>pw_carrier = \<lparr>sc_in = to_client, sc_out = []\<rparr>, pw_fs = no_faults\<rparr> = Done (Inr rc, wc)
    \<and> ed_root_key rc = replicate 32 9"
proof -
  have "has_name (xa_path demo_exchange)" unfolding demo_exchange_def by code_simp
  moreover have "fs_fault no_faults = (\<lambda>_. None)" by (simp add: no_faults_def)
  ultimately show ?thesis
    using pairing_agrees_on_the_code [OF demo_exchange_ok registry_inv_new, of no_faults
        "[1, 2, 3, 4, 5]" "[1, 2, 3, 4, 5]" "[]" "[]" no_faults]
    unfolding demo_exchange_def by (simp add: Let_def) blast
qed

section \<open>Any peer, any carrier\<close>

lemma then_do_Done:
  "then_do m f w = Done (r, w') \<longleftrightarrow>
     (\<exists>e. m w = Done (Inl e, w') \<and> r = Inl e) \<or> (\<exists>x w1. m w = Done (Inr x, w1) \<and> f x w1 = Done (r, w'))"
  by (auto simp: then_do_def split: run.splits sum.splits prod.splits)

text \<open>Talking to the peer does not touch the disk.\<close>

lemma carrier_keeps_disk:
  "on_carrier err op w = Done (r, w') \<Longrightarrow> pw_fs w' = pw_fs w"
  "ex_send E m w = Done (u, w') \<Longrightarrow> pw_fs w' = pw_fs w"
  "receive E step w = Done (b, w') \<Longrightarrow> pw_fs w' = pw_fs w"
  "send_json E js v w = Done (u, w') \<Longrightarrow> pw_fs w' = pw_fs w"
  "close_carrier E w = Done (u, w') \<Longrightarrow> pw_fs w' = pw_fs w"
  "give s w = Done (t, w') \<Longrightarrow> w' = w \<and> t = s"
  by (auto simp: on_carrier_def ex_send_def receive_def send_json_def close_carrier_def give_def
      split: prod.splits sum.splits)

lemma refuse_keeps_disk: "refuse E e w = Done (r, w') \<Longrightarrow> pw_fs w' = pw_fs w \<and> (\<exists>x. r = Inl x)"
  by (auto simp: refuse_def then_do_Done ignoring_def split: run.splits
      dest!: carrier_keeps_disk)

text \<open>
  What a daemon has checked before it writes: the two messages came in over the carrier, and the proof
  in the second is the MAC of the identity in it under the key that the daemon's own half, started from
  its code, computes from the first.
\<close>

definition received_on :: "('sp, 't) pairing_env \<Rightarrow> byte list \<Rightarrow> bool" where
  "received_on E m \<longleftrightarrow> (\<exists>t t'. ca_next_inbound (pe_carrier E) t = (Inr m, t'))"

definition proven :: "('sp, 't) pairing_env \<Rightarrow> byte list \<Rightarrow> byte list \<Rightarrow> pair_finish \<Rightarrow> bool" where
  "proven E code rand f \<longleftrightarrow> id_valid_point (pe_ident E) (pf_device_public_key f)
     \<and> (\<exists>msg payload key. received_on E msg \<and> received_on E payload
        \<and> length msg = pk_message_len (pe_pake E) \<and> parse_finish E payload = Inr f
        \<and> pk_finish (pe_pake E) (fst (pk_start_b (pe_pake E) code IDENTITY_CLIENT IDENTITY_DAEMON rand)) msg = Some key
        \<and> pf_confirm f = enrolment_confirmation (pe_pake E) key (pf_device_public_key f))"

lemma receive_received: "receive E step w = Done (Inr m, w') \<Longrightarrow> received_on E m"
  by (cases "ca_next_inbound (pe_carrier E) (pw_carrier w)"; cases "fst (ca_next_inbound (pe_carrier E) (pw_carrier w))")
    (auto simp: receive_def on_carrier_def received_on_def)

lemma daemon_finish_Inr:
  assumes "daemon_begin pk code rand = (d, mb)"
    and "daemon_finish cr idn pk msg public_key confirm d = Done (Inr paired)"
  shows "pd_public_key paired = DevicePublicKey public_key \<and> id_valid_point idn public_key
    \<and> (\<exists>key. pk_finish pk (fst (pk_start_b pk code IDENTITY_CLIENT IDENTITY_DAEMON rand)) msg = Some key
         \<and> confirm = enrolment_confirmation pk key public_key)"
  using assms
  by (auto simp: daemon_finish_def daemon_begin_def key_from_bytes_def Let_def
      split: prod.splits option.splits if_splits run.splits)

lemma accept_device_disk:
  assumes "accept_device E registry p served nonce f paired w = Done (r, w')"
    and pk: "pd_public_key paired = DevicePublicKey (pf_device_public_key f)"
    and ok: "has_name p" "json_contract (pj_registry (pe_json E))" "registry_inv (pe_ident E) registry"
      "fs_fault (pw_fs w) (ReadCall p) = None"
  defines "load fs \<equiv> registry_load (pe_ident E) (pj_registry (pe_json E)) p fs"
    and "registry' \<equiv> enrol (pe_ident E) (pd_public_key paired) (pf_device_name f) registry"
  shows "(load (pw_fs w') = load (pw_fs w) \<or> load (pw_fs w') = Inr registry')
    \<and> (\<forall>en reg. r = Inr (en, reg) \<longrightarrow> reg = registry' \<and> load (pw_fs w') = Inr registry')"
proof (cases "id_valid_point (pe_ident E) (pf_device_public_key f)")
  case False
  with assms(1) show ?thesis by (auto simp: accept_device_def key_from_bytes_def)
next
  case True
  let ?reg = "enrol (pe_ident E) (DevicePublicKey (pf_device_public_key f)) (pf_device_name f) registry"
  obtain res fs' where save: "registry_save (pe_ident E) (pj_registry (pe_json E)) p ?reg (pw_fs w) = (res, fs')"
    by fastforce
  have inv: "registry_inv (pe_ident E) ?reg" using ok(3) True by (intro enrol_inv) simp_all
  show ?thesis
  proof (cases res)
    case (Inl e)
    with registry_file.save_error [OF ok(1)] save assms(1) True show ?thesis
      by (auto simp: accept_device_def key_from_bytes_def then_do_Done save_registry_def load_def Let_def)
  next
    case (Inr u)
    then have "load fs' = Inr ?reg"
      using registry_file.save_ok [OF conjI [OF ok(2) inv] ok(1)] save ok(4) by (simp add: load_def)
    moreover have "pw_fs w' = fs' \<and> (\<forall>en reg. r = Inr (en, reg) \<longrightarrow> reg = ?reg)"
      using assms(1) True save Inr
      by (auto simp: accept_device_def key_from_bytes_def then_do_Done save_registry_def Let_def give_def
          dest!: carrier_keeps_disk(4,5))
    ultimately show ?thesis by (simp add: registry'_def pk)
  qed
qed

lemma expect_spake2_len_Inr:
  "expect_spake2_len E m step = Inr u \<longleftrightarrow> length m = pk_message_len (pe_pake E)"
  by (simp add: expect_spake2_len_def)

lemma then_doE:
  assumes "then_do m f w = Done (r, w')"
  obtains e where "m w = Done (Inl e, w')" "r = Inl e"
    | x w1 where "m w = Done (Inr x, w1)" "f x w1 = Done (r, w')"
  using assms by (auto simp: then_do_Done)

text \<open>The run of the daemon's side up to the decision: an early end leaves the disk alone.\<close>

lemma run_daemon_side_cases:
  assumes "run_daemon_side E url code registry p served rand nonce w = Done (r, w')"
  shows "(pw_fs w' = pw_fs w \<and> (\<exists>e. r = Inl e))
    \<or> (\<exists>f paired w1. pw_fs w1 = pw_fs w \<and> proven E code rand f
         \<and> pd_public_key paired = DevicePublicKey (pf_device_public_key f)
         \<and> accept_device E registry p served nonce f paired w1 = Done (r, w'))"
proof -
  obtain d mb where start: "daemon_begin (pe_pake E) code rand = (d, mb)" by fastforce
  show ?thesis
    using assms unfolding run_daemon_side_def start prod.case Let_def
  proof (elim then_doE, goal_cases)
    case (8 _ w1 _ w2 _ w3 msg w4 _ w5 payload w6 f w7)
    then have disk: "pw_fs w7 = pw_fs w" by (auto dest!: carrier_keeps_disk)
    have len: "length msg = pk_message_len (pe_pake E)" and parse: "parse_finish E payload = Inr f"
      using carrier_keeps_disk(6) [OF 8(5)] carrier_keeps_disk(6) [OF 8(7)] expect_spake2_len_Inr by metis+
    note got = receive_received [OF 8(4)] receive_received [OF 8(6)]
    show ?case
    proof (cases "daemon_finish (pe_crypto E) (pe_ident E) (pe_pake E) msg (pf_device_public_key f) (pf_confirm f) d")
      case Panic
      with 8 show ?thesis by simp
    next
      case (Done res)
      show ?thesis
      proof (cases res)
        case (Inl e)
        with 8(8) Done have "refuse E e w7 = Done (r, w')" by simp
        from refuse_keeps_disk [OF this] disk show ?thesis by simp
      next
        case (Inr paired)
        from daemon_finish_Inr [OF start, OF Done [unfolded Inr]] got len parse
        have "proven E code rand f \<and> pd_public_key paired = DevicePublicKey (pf_device_public_key f)"
          unfolding proven_def by blast
        with 8(8) Done Inr disk show ?thesis by auto
      qed
    qed
  qed (auto dest!: carrier_keeps_disk)
qed



end
