(* ===== verification/Retry.thy ===== *)
theory Retry
  imports Prelude
begin

text \<open>
  The two retry schedules: \<open>RestartPolicy::delay\<close> (\<open>lifecycle.rs\<close>) and \<open>Backoff::delay\<close>
  (\<open>uplink.rs\<close>) of the daemon. Both double a base delay up to a ceiling; the locale \<open>retry_schedule\<close>
  states what callers rely on. A \<open>Duration\<close> is a number of nanoseconds up to \<open>DURATION_MAX\<close>.
\<close>

definition DURATION_MAX :: nat where "DURATION_MAX = (2 ^ 64 - 1) * 10 ^ 9 + 999999999"

definition millis :: "nat \<Rightarrow> nat" where "millis n = n * 10 ^ 6"
definition seconds :: "nat \<Rightarrow> nat" where "seconds n = n * 10 ^ 9"

definition saturating_mul :: "nat \<Rightarrow> u32 \<Rightarrow> nat" where
  "saturating_mul d k = min (d * unat k) DURATION_MAX"

section \<open>The contract\<close>

locale retry_schedule =
  fixes delay :: "u32 \<Rightarrow> nat"
    and base :: nat
    and ceiling :: nat
  assumes delay_eq: "delay n = min (base * 2 ^ min (unat n - 1) 16) ceiling"
begin

lemma delay_ceiling: "delay n \<le> ceiling"
  by (simp add: delay_eq)

lemma delay_first: "delay 1 = min base ceiling" "delay 0 = delay 1"
  by (simp_all add: delay_eq)

lemma delay_mono: "m \<le> n \<Longrightarrow> delay m \<le> delay n"
proof -
  assume "m \<le> n"
  then have "min (unat m - 1) 16 \<le> min (unat n - 1) 16" by (simp add: word_le_nat_alt)
  then have "(2::nat) ^ min (unat m - 1) 16 \<le> 2 ^ min (unat n - 1) 16" by (rule power_increasing) simp
  then show ?thesis unfolding delay_eq by (intro min.mono mult_le_mono) simp_all
qed

lemma delay_doubles:
  "1 \<le> n \<Longrightarrow> n \<le> 16 \<Longrightarrow> delay (of_nat (Suc n)) = min (2 * delay (of_nat n)) ceiling"
proof -
  assume n: "1 \<le> n" "n \<le> 16"
  have u: "unat (of_nat n :: u32) = n" "unat (of_nat (Suc n) :: u32) = Suc n"
    using n by (simp_all only: unat_of_nat) simp_all
  have "2 ^ n = 2 * (2::nat) ^ (n - 1)" using n by (metis power_eq_if not_one_le_zero)
  then have "base * 2 ^ n = 2 * (base * 2 ^ (n - 1))" by (metis mult.left_commute)
  moreover have "delay (of_nat (Suc n)) = min (base * 2 ^ n) ceiling"
    "delay (of_nat n) = min (base * 2 ^ (n - 1)) ceiling"
    using n by (simp_all only: delay_eq u) simp_all
  ultimately show ?thesis by (simp only:) linarith
qed

end

section \<open>Restarting DSH\<close>

record restart_policy =
  rp_base :: nat
  rp_max :: nat
  rp_max_attempts :: u32

definition restart_policy_default :: restart_policy where
  "restart_policy_default = \<lparr>rp_base = millis 500, rp_max = seconds 30, rp_max_attempts = 5\<rparr>"

definition restart_delay :: "restart_policy \<Rightarrow> u32 \<Rightarrow> nat" where
  "restart_delay p attempt =
     (let exponent = min (unat (saturating_sub attempt 1)) 16 in
      min (saturating_mul (rp_base p) (push_bit exponent 1)) (rp_max p))"

section \<open>Reconnecting the carrier\<close>

record backoff =
  bo_base :: nat
  bo_max :: nat

definition backoff_default :: backoff where
  "backoff_default = \<lparr>bo_base = millis 500, bo_max = seconds 30\<rparr>"

definition backoff_delay :: "backoff \<Rightarrow> u32 \<Rightarrow> nat" where
  "backoff_delay b attempt =
     (let exponent = min (unat (saturating_sub attempt 1)) 16;
          scaled = saturating_mul (bo_base b) (push_bit exponent 1) in
      min scaled (bo_max b))"

lemma unat_pred: "unat (saturating_sub n 1) = unat (n :: u32) - 1"
proof (cases "n = 0")
  case False
  then have "1 \<le> n" by (simp add: word_le_nat_alt unat_gt_0 Suc_le_eq)
  then show ?thesis by (simp add: saturating_sub_def unat_sub)
qed (simp add: saturating_sub_def)

lemma unat_shift: "k \<le> 16 \<Longrightarrow> unat (push_bit k 1 :: u32) = 2 ^ k"
proof -
  assume "k \<le> 16"
  then have "(2::nat) ^ k \<le> 2 ^ 16" by (intro power_increasing) simp_all
  then have "(2::nat) ^ k < 2 ^ 32" by simp
  then have "unat (of_nat (2 ^ k) :: u32) = 2 ^ k" by (simp only: unat_of_nat) simp
  then show ?thesis by (simp add: push_bit_eq_mult)
qed

lemma scaled_delay:
  "min (saturating_mul b (push_bit (min (unat (saturating_sub n 1)) 16) 1)) m
    = min (b * 2 ^ min (unat (n :: u32) - 1) 16) (min m DURATION_MAX)"
proof -
  have "unat (push_bit (min (unat n - 1) 16) 1 :: u32) = 2 ^ min (unat n - 1) 16"
    by (rule unat_shift) simp
  then show ?thesis unfolding saturating_mul_def unat_pred by (simp add: min.assoc min.commute min.left_commute)
qed

interpretation restart: retry_schedule "restart_delay p" "rp_base p" "min (rp_max p) DURATION_MAX" for p
  by unfold_locales (simp only: restart_delay_def scaled_delay Let_def)

interpretation uplink: retry_schedule "backoff_delay b" "bo_base b" "min (bo_max b) DURATION_MAX" for b
  by unfold_locales (simp only: backoff_delay_def scaled_delay Let_def)

text \<open>
  The delays before restarting DSH and before reconnecting the carrier behave alike: the first retry
  waits the base delay, each later one twice the one before until the ceiling, later attempts never
  wait less, and no attempt number, however large, overflows or exceeds the ceiling.
\<close>

theorem retry_delays:
  assumes "rp_max p \<le> DURATION_MAX"
  shows "restart_delay p 1 = min (rp_base p) (rp_max p)
    \<and> (\<forall>n. 1 \<le> n \<and> n \<le> 16 \<longrightarrow>
         restart_delay p (of_nat (Suc n)) = min (2 * restart_delay p (of_nat n)) (rp_max p))
    \<and> (\<forall>m n. m \<le> n \<longrightarrow> restart_delay p m \<le> restart_delay p n)
    \<and> (\<forall>n. restart_delay p n \<le> rp_max p)
    \<and> backoff_delay \<lparr>bo_base = rp_base p, bo_max = rp_max p\<rparr> = restart_delay p"
proof (intro conjI)
  have m: "min (rp_max p) DURATION_MAX = rp_max p" using assms by simp
  show "restart_delay p 1 = min (rp_base p) (rp_max p)" using restart.delay_first(1) [of p] unfolding m .
  show "\<forall>n. 1 \<le> n \<and> n \<le> 16 \<longrightarrow>
      restart_delay p (of_nat (Suc n)) = min (2 * restart_delay p (of_nat n)) (rp_max p)"
    using restart.delay_doubles [of _ p] unfolding m by blast
  show "\<forall>m n. m \<le> n \<longrightarrow> restart_delay p m \<le> restart_delay p n" using restart.delay_mono by blast
  show "\<forall>n. restart_delay p n \<le> rp_max p" using restart.delay_ceiling [of p] unfolding m by blast
  show "backoff_delay \<lparr>bo_base = rp_base p, bo_max = rp_max p\<rparr> = restart_delay p"
    by (simp add: fun_eq_iff restart_delay_def backoff_delay_def Let_def)
qed

theorem retry_delays_witness:
  "restart_delay restart_policy_default 1 = millis 500
   \<and> restart_delay restart_policy_default u32_max \<le> seconds 30"
  using retry_delays [of restart_policy_default]
  by (simp add: restart_policy_default_def millis_def seconds_def DURATION_MAX_def)

end
