(* ===== verification/Lifecycle.thy ===== *)
theory Lifecycle
  imports Retry Machine
begin

text \<open>
  \<open>lifecycle.rs\<close> of the daemon, with the lifecycle types of \<open>control.rs\<close> of \<open>dr-dsh-proto\<close>: the
  controller, the driver that owns the DSH process, and the handle the control plane uses.

  The driver is one task that waits in a few places: in the loop of \<open>run\<close>, for \<open>spawn\<close>, and in a
  backoff. Its state is the controller, the process it owns, the published copy of the lifecycle and
  where it waits, with what is left to do there (\<open>cont\<close>). An event is what ends a wait: a command, an
  exit, the outcome of a spawn, the timer. \<open>driver_on\<close> runs the code from one wait to the next and
  gives the reply, if a command is answered on the way; the outcome of the process's own \<open>stop\<close> is
  part of the command's event.
\<close>

section \<open>Modes and states\<close>

datatype lifecycle_op = OpStart | OpStop | OpRestart

datatype lifecycle_state = StStopped | StStarting | StRunning | StStopping | StFailed | StAttached

record lifecycle_result =
  lr_accepted :: bool
  lr_ok :: bool
  lr_state :: lifecycle_state
  lr_error :: "string option"

datatype mode = Managed (mode_port: u16) | Attached (mode_port: u16)

definition permits_lifecycle :: "mode \<Rightarrow> bool" where
  "permits_lifecycle m = (case m of Managed _ \<Rightarrow> True | Attached _ \<Rightarrow> False)"

definition mode_refusal_reason :: "mode \<Rightarrow> string option" where
  "mode_refusal_reason m =
     (case m of
        Managed _ \<Rightarrow> None
      | Attached port \<Rightarrow> Some (''DSH on port '' @ decimal (unat port)
          @ '' was started outside this daemon, so the daemon will not stop or restart it. Interface ''
          @ ''access works normally; stop it yourself if you want it stopped.''))"

datatype lifecycle =
    Stopped "string option"
  | Starting
  | Running "u32 option"
  | Recovering (retry_in: nat) (attempt: u32) (why: string)
  | Failed string

definition state_of :: "lifecycle \<Rightarrow> lifecycle_state" where
  "state_of l =
     (case l of
        Stopped _ \<Rightarrow> StStopped
      | Starting \<Rightarrow> StStarting
      | Recovering _ _ _ \<Rightarrow> StStarting
      | Running _ \<Rightarrow> StRunning
      | Failed _ \<Rightarrow> StFailed)"

section \<open>The controller\<close>

record controller =
  ct_mode :: mode
  ct_policy :: restart_policy
  ct_lifecycle :: lifecycle
  ct_attempts :: u32
  ct_wanted_running :: bool

definition controller_new :: "mode \<Rightarrow> controller" where
  "controller_new m = \<lparr>ct_mode = m, ct_policy = restart_policy_default,
     ct_lifecycle = (case m of Attached _ \<Rightarrow> Running None | Managed _ \<Rightarrow> Stopped None),
     ct_attempts = 0, ct_wanted_running = False\<rparr>"

definition with_policy :: "restart_policy \<Rightarrow> controller \<Rightarrow> controller" where
  "with_policy p c = c\<lparr>ct_policy := p\<rparr>"

definition begin_start :: "controller \<Rightarrow> controller" where
  "begin_start c = c\<lparr>ct_wanted_running := True, ct_lifecycle := Starting\<rparr>"

definition started :: "u32 option \<Rightarrow> controller \<Rightarrow> controller" where
  "started pid c = c\<lparr>ct_attempts := 0, ct_lifecycle := Running pid\<rparr>"

definition gave_up :: "string \<Rightarrow> restart_policy \<Rightarrow> string" where
  "gave_up reason p = reason @ '' (gave up after '' @ decimal (unat (rp_max_attempts p)) @ '' attempts)''"

definition start_failed :: "string \<Rightarrow> controller \<Rightarrow> bool \<times> controller" where
  "start_failed reason c =
     (if \<not> ct_wanted_running c then (False, c\<lparr>ct_lifecycle := Stopped (Some reason)\<rparr>)
      else let c = c\<lparr>ct_attempts := saturating_add (ct_attempts c) 1\<rparr> in
      if rp_max_attempts (ct_policy c) \<le> ct_attempts c
      then (False, c\<lparr>ct_lifecycle := Failed (gave_up reason (ct_policy c))\<rparr>)
      else (True, c\<lparr>ct_lifecycle :=
              Recovering (restart_delay (ct_policy c) (ct_attempts c)) (ct_attempts c) reason\<rparr>))"

definition exited :: "string \<Rightarrow> controller \<Rightarrow> bool \<times> controller" where
  "exited reason c =
     (if \<not> ct_wanted_running c then (False, c\<lparr>ct_lifecycle := Stopped (Some reason)\<rparr>)
      else let c = c\<lparr>ct_attempts := saturating_add (ct_attempts c) 1\<rparr> in
      if rp_max_attempts (ct_policy c) \<le> ct_attempts c
      then (False, c\<lparr>ct_lifecycle := Failed (gave_up reason (ct_policy c))\<rparr>)
      else (True, c\<lparr>ct_lifecycle :=
              Recovering (restart_delay (ct_policy c) (ct_attempts c)) (ct_attempts c) reason\<rparr>))"

definition current_delay :: "controller \<Rightarrow> nat" where
  "current_delay c =
     (case ct_lifecycle c of
        Recovering d _ _ \<Rightarrow> d
      | _ \<Rightarrow> restart_delay (ct_policy c) (max (ct_attempts c) 1))"

definition begin_stop :: "controller \<Rightarrow> controller" where
  "begin_stop c = c\<lparr>ct_wanted_running := False\<rparr>"

definition stopped :: "string option \<Rightarrow> controller \<Rightarrow> controller" where
  "stopped reason c = c\<lparr>ct_wanted_running := False, ct_attempts := 0, ct_lifecycle := Stopped reason\<rparr>"

fun describe_op :: "lifecycle_op \<Rightarrow> string" where
  "describe_op OpStart = ''starting DSH''"
| "describe_op OpStop = ''stopping DSH''"
| "describe_op OpRestart = ''restarting DSH''"

definition check_permitted :: "mode \<Rightarrow> lifecycle_op \<Rightarrow> string + unit" where
  "check_permitted m op =
     (case mode_refusal_reason m of
        None \<Rightarrow> Inr ()
      | Some reason \<Rightarrow> Inl (describe_op op @ '' is not available: '' @ reason))"

definition result :: "bool \<Rightarrow> string option \<Rightarrow> controller \<Rightarrow> lifecycle_result" where
  "result ok error c = \<lparr>lr_accepted = True, lr_ok = ok, lr_state = state_of (ct_lifecycle c),
     lr_error = error\<rparr>"

section \<open>The driver\<close>

text \<open>What follows a \<open>start\<close>: nothing, back in the loop; or the answer to a start or restart command.\<close>

datatype cont = Loop | AnswerStart | AnswerRestart

text \<open>
  A backoff inside \<open>start\<close> goes round its loop again; one after a crash calls \<open>start\<close>, whose first
  pass is the same, with nothing left to do after it: \<open>Backoff Loop\<close>.
\<close>

datatype place =
    Waiting
  | Spawning cont
  | Backoff cont
  | Ended

record driver =
  dv_controller :: controller
  dv_published :: lifecycle
  dv_running :: "u32 option option"
  dv_place :: place

definition publish :: "driver \<Rightarrow> driver" where
  "publish d = d\<lparr>dv_published := ct_lifecycle (dv_controller d)\<rparr>"

definition control :: "(controller \<Rightarrow> controller) \<Rightarrow> driver \<Rightarrow> driver" where
  "control f d = d\<lparr>dv_controller := f (dv_controller d)\<rparr>"

definition driver_new :: "mode \<Rightarrow> restart_policy \<Rightarrow> driver" where
  "driver_new m p =
     (let c = with_policy p (controller_new m) in
      \<lparr>dv_controller = c, dv_published = ct_lifecycle c, dv_running = None, dv_place = Waiting\<rparr>)"

definition adopt :: "u32 option \<Rightarrow> driver \<Rightarrow> driver" where
  "adopt pid d = publish ((control (started pid) (control begin_start d))\<lparr>dv_running := Some pid\<rparr>)"

text \<open>\<open>start\<close> up to its call of \<open>spawn\<close>, with what is to follow when it returns.\<close>

definition begin_spawn :: "cont \<Rightarrow> driver \<Rightarrow> driver" where
  "begin_spawn k d = (publish (control begin_start d))\<lparr>dv_place := Spawning k\<rparr>"

definition answer :: "cont \<Rightarrow> driver \<Rightarrow> lifecycle_result option" where
  "answer k d =
     (let c = dv_controller d; ok = (case ct_lifecycle c of Running _ \<Rightarrow> True | _ \<Rightarrow> False) in
      case k of
        Loop \<Rightarrow> None
      | AnswerStart \<Rightarrow> Some (result ok
          (case ct_lifecycle c of Failed reason \<Rightarrow> Some reason | Stopped reason \<Rightarrow> reason | _ \<Rightarrow> None) c)
      | AnswerRestart \<Rightarrow> Some (result ok
          (case ct_lifecycle c of Failed reason \<Rightarrow> Some reason | _ \<Rightarrow> None) c))"

definition return_from_start :: "cont \<Rightarrow> driver \<Rightarrow> driver \<times> lifecycle_result option" where
  "return_from_start k d = (d\<lparr>dv_place := Waiting\<rparr>, answer k d)"

definition stop :: "string option \<Rightarrow> driver \<Rightarrow> driver \<times> lifecycle_result" where
  "stop failure d =
     (case dv_running d of
        None \<Rightarrow>
          (let d = publish (control (stopped None) (control begin_stop d)) in
           (d, result True None (dv_controller d)))
      | Some pid \<Rightarrow>
          (let d = (control begin_stop d)\<lparr>dv_running := None\<rparr> in
           case failure of
             None \<Rightarrow> (let d = publish (control (stopped None) d) in (d, result True None (dv_controller d)))
           | Some reason \<Rightarrow>
               (let d = publish (d\<lparr>dv_running := Some pid\<rparr>) in
                (d, result False (Some reason) (dv_controller d)))))"

definition serve :: "lifecycle_op \<Rightarrow> string option \<Rightarrow> driver \<Rightarrow> driver \<times> lifecycle_result option" where
  "serve op stop_failure d =
     (case op of
        OpStart \<Rightarrow>
          if dv_running d \<noteq> None then (d, Some (result True None (dv_controller d)))
          else (begin_spawn AnswerStart d, None)
      | OpStop \<Rightarrow> (let (d, r) = stop stop_failure d in (d, Some r))
      | OpRestart \<Rightarrow>
          (let (d, r) = stop stop_failure d in
           if \<not> lr_ok r then (d, Some r) else (begin_spawn AnswerRestart d, None)))"

definition serve_command_only :: "lifecycle_op \<Rightarrow> driver \<Rightarrow> driver \<times> lifecycle_result" where
  "serve_command_only op d =
     (case op of
        OpStop \<Rightarrow> (let d = publish (control begin_stop d) in (d, result True None (dv_controller d)))
      | _ \<Rightarrow> (d, result True None (dv_controller d)))"

text \<open>
  What ends a wait. A command carries the error the process's own \<open>stop\<close> would give, if it is called.
  \<open>Closed\<close> is the command channel closing.
\<close>

datatype event =
    Command lifecycle_op "string option"
  | Exited string
  | SpawnOk "u32 option"
  | SpawnErr string
  | TimerFires
  | Closed

definition replies :: "lifecycle_result option \<Rightarrow> lifecycle_result list" where
  "replies r = (case r of None \<Rightarrow> [] | Some x \<Rightarrow> [x])"

definition begin_run :: "driver \<Rightarrow> driver" where
  "begin_run d =
     (if dv_running d = None \<and> permits_lifecycle (ct_mode (dv_controller d)) then begin_spawn Loop d else d)"

text \<open>The loop of \<open>run\<close>; the loop of \<open>start\<close> after \<open>spawn\<close>; and \<open>backoff\<close>.\<close>

definition run_on :: "event \<Rightarrow> driver \<Rightarrow> (driver \<times> lifecycle_result list) option" where
  "run_on e d =
     (case e of
        Command op failure \<Rightarrow> (let (d, r) = serve op failure d in Some (d, replies r))
      | Exited how \<Rightarrow>
          if dv_running d = None then None
          else (let d = d\<lparr>dv_running := None\<rparr>;
                    (again, c) = exited how (dv_controller d);
                    d = publish (d\<lparr>dv_controller := c\<rparr>) in
                Some (if again then d\<lparr>dv_place := Backoff Loop\<rparr> else d, []))
      | Closed \<Rightarrow> if dv_running d = None then Some (d\<lparr>dv_place := Ended\<rparr>, []) else None
      | _ \<Rightarrow> None)"

definition start_on :: "cont \<Rightarrow> event \<Rightarrow> driver \<Rightarrow> (driver \<times> lifecycle_result list) option" where
  "start_on k e d =
     (case e of
        SpawnOk pid \<Rightarrow>
          (let d = publish ((control (started pid) d)\<lparr>dv_running := Some pid\<rparr>);
               (d, r) = return_from_start k d in
           Some (d, replies r))
      | SpawnErr reason \<Rightarrow>
          (let (again, c) = start_failed reason (dv_controller d);
               d = publish (d\<lparr>dv_controller := c\<rparr>) in
           if again then Some (d\<lparr>dv_place := Backoff k\<rparr>, [])
           else (let (d, r) = return_from_start k d in Some (d, replies r)))
      | _ \<Rightarrow> None)"

definition backoff_on :: "cont \<Rightarrow> event \<Rightarrow> driver \<Rightarrow> (driver \<times> lifecycle_result list) option" where
  "backoff_on k e d =
     (case e of
        TimerFires \<Rightarrow>
          if ct_wanted_running (dv_controller d) then Some (begin_spawn k d, [])
          else (let (d, r) = return_from_start k d in Some (d, replies r))
      | Command op _ \<Rightarrow>
          (let (d, now) = serve_command_only op d in
           if \<not> ct_wanted_running (dv_controller d)
           then (let (d, r) = return_from_start k d in Some (d, now # replies r))
           else Some (d, [now]))
      | _ \<Rightarrow> None)"

definition driver_on :: "event \<Rightarrow> driver \<Rightarrow> (driver \<times> lifecycle_result list) option" where
  "driver_on e d =
     (case dv_place d of
        Waiting \<Rightarrow> run_on e d
      | Spawning k \<Rightarrow> start_on k e d
      | Backoff k \<Rightarrow> backoff_on k e d
      | Ended \<Rightarrow> None)"

fun driver_run :: "event list \<Rightarrow> driver \<Rightarrow> (driver \<times> lifecycle_result list) option" where
  "driver_run [] d = Some (d, [])"
| "driver_run (e # es) d =
     (case driver_on e d of
        None \<Rightarrow> None
      | Some (d, rs) \<Rightarrow> map_option (\<lambda>(d, rs'). (d, rs @ rs')) (driver_run es d))"

section \<open>The handle\<close>

text \<open>\<open>Handle::command\<close>, given what became of the command it sent and the state it finds published.\<close>

datatype fate = DriverGone | NoAnswer | Answered lifecycle_result

definition handle_command :: "mode \<Rightarrow> lifecycle \<Rightarrow> lifecycle_op \<Rightarrow> fate \<Rightarrow> lifecycle_result" where
  "handle_command m snapshot op fate =
     (case check_permitted m op of
        Inl reason \<Rightarrow> \<lparr>lr_accepted = False, lr_ok = False, lr_state = state_of snapshot,
          lr_error = Some reason\<rparr>
      | Inr _ \<Rightarrow>
          (case fate of
             DriverGone \<Rightarrow> \<lparr>lr_accepted = True, lr_ok = False, lr_state = state_of snapshot,
               lr_error = Some ''the daemon's lifecycle driver has stopped''\<rparr>
           | NoAnswer \<Rightarrow> \<lparr>lr_accepted = True, lr_ok = False, lr_state = state_of snapshot,
               lr_error = Some ''the lifecycle driver did not answer''\<rparr>
           | Answered r \<Rightarrow> r))"

definition sends_command :: "mode \<Rightarrow> lifecycle_op \<Rightarrow> bool" where
  "sends_command m op = (case check_permitted m op of Inl _ \<Rightarrow> False | Inr _ \<Rightarrow> True)"

lemma sends_command_eq [simp]: "sends_command m op = permits_lifecycle m"
  by (simp add: sends_command_def check_permitted_def mode_refusal_reason_def permits_lifecycle_def
      split: mode.split)

section \<open>The driver as a machine\<close>

definition allowed :: "event \<Rightarrow> driver \<Rightarrow> bool" where
  "allowed e d = (case e of Command op _ \<Rightarrow> sends_command (ct_mode (dv_controller d)) op | _ \<Rightarrow> True)"

inductive driver_init :: "driver \<Rightarrow> bool" where
  fresh: "driver_init (begin_run (driver_new m p))"
| adopted: "driver_init (begin_run (adopt pid (driver_new (Managed port) p)))"

inductive driver_step :: "driver \<Rightarrow> driver \<Rightarrow> bool" where
  "allowed e d \<Longrightarrow> driver_on e d = Some (d', rs) \<Longrightarrow> driver_step d d'"

definition idle :: "driver \<Rightarrow> bool" where
  "idle d = (dv_place d = Waiting \<or> dv_place d = Ended)"

definition driver_inv :: "driver \<Rightarrow> bool" where
  "driver_inv d =
     (let c = dv_controller d; managed = permits_lifecycle (ct_mode c) in
      dv_published d = ct_lifecycle c
      \<and> (case dv_place d of
           Spawning _ \<Rightarrow> managed \<and> dv_running d = None \<and> ct_wanted_running c \<and> ct_lifecycle c = Starting
         | Backoff _ \<Rightarrow> managed \<and> dv_running d = None \<and> ct_wanted_running c
             \<and> 0 < ct_attempts c \<and> ct_attempts c < rp_max_attempts (ct_policy c)
             \<and> (\<exists>why. ct_lifecycle c
                   = Recovering (restart_delay (ct_policy c) (ct_attempts c)) (ct_attempts c) why)
         | place \<Rightarrow>
             (case dv_running d of
                Some pid \<Rightarrow> place = Waiting \<and> managed \<and> ct_lifecycle c = Running pid \<and> ct_attempts c = 0
              | None \<Rightarrow> (if managed then \<forall>pid. ct_lifecycle c \<noteq> Running pid
                         else ct_lifecycle c = Running None \<and> \<not> ct_wanted_running c)
                  \<and> (ct_wanted_running c \<longrightarrow> (\<exists>reason. ct_lifecycle c = Failed reason)))))"

lemmas controller_defs [step_defs] = begin_start_def started_def start_failed_def exited_def
  begin_stop_def stopped_def with_policy_def controller_new_def

lemmas driver_defs [step_defs] = publish_def control_def begin_spawn_def return_from_start_def stop_def
  serve_def serve_command_only_def adopt_def driver_new_def begin_run_def

lemmas on_defs = run_on_def start_on_def backoff_on_def driver_on_def

lemma saturating_add_pos: "0 < saturating_add (n :: u32) 1"
  by (simp add: word_less_nat_alt unat_saturating_add)

inductive_cases driver_stepE: "driver_step d d'"
inductive_cases driver_initE: "driver_init d"

lemma begin_run_inv: "driver_init d \<Longrightarrow> driver_inv d"
  by (erule driver_initE)
    (auto simp: driver_inv_def step_defs Let_def permits_lifecycle_def split: mode.splits)

lemma run_on_inv:
  "driver_inv d \<Longrightarrow> dv_place d = Waiting \<Longrightarrow> allowed e d \<Longrightarrow> run_on e d = Some (d', rs) \<Longrightarrow> driver_inv d'"
  by (cases e; cases "dv_running d")
    (auto simp: run_on_def driver_inv_def allowed_def step_defs Let_def result_def saturating_add_pos not_le
      split: prod.splits option.splits if_splits lifecycle_op.splits)

lemma start_on_inv:
  "driver_inv d \<Longrightarrow> dv_place d = Spawning k \<Longrightarrow> start_on k e d = Some (d', rs) \<Longrightarrow> driver_inv d'"
  by (cases e) (auto simp: start_on_def driver_inv_def step_defs Let_def saturating_add_pos not_le
      split: prod.splits if_splits)

lemma backoff_on_inv:
  "driver_inv d \<Longrightarrow> dv_place d = Backoff k \<Longrightarrow> backoff_on k e d = Some (d', rs) \<Longrightarrow> driver_inv d'"
  by (cases e) (auto simp: backoff_on_def driver_inv_def step_defs Let_def
      split: prod.splits if_splits lifecycle_op.splits)

definition driver_safe :: "driver \<Rightarrow> bool" where
  "driver_safe d =
     (let c = dv_controller d in
      dv_published d = ct_lifecycle c
      \<and> (\<not> idle d \<longrightarrow> dv_running d = None)
      \<and> (permits_lifecycle (ct_mode c) \<longrightarrow> (\<forall>pid. dv_published d = Running pid \<longleftrightarrow> dv_running d = Some pid))
      \<and> (\<not> permits_lifecycle (ct_mode c) \<longrightarrow> idle d \<and> dv_running d = None)
      \<and> (ct_wanted_running c \<longrightarrow>
           dv_running d \<noteq> None \<or> \<not> idle d \<or> (\<exists>reason. dv_published d = Failed reason)))"

lemma driver_inv_safe: "driver_inv d \<Longrightarrow> driver_safe d"
  by (auto simp: driver_inv_def driver_safe_def idle_def Let_def split: place.splits option.splits if_splits)

interpretation dsh: guarded_machine driver_init driver_step driver_inv driver_safe
proof unfold_locales
  fix d d' assume "driver_inv d" "driver_step d d'"
  then show "driver_inv d'"
    by (auto elim!: driver_stepE simp: driver_on_def split: place.splits
        intro: run_on_inv start_on_inv backoff_on_inv)
qed (auto intro: begin_run_inv driver_inv_safe)



lemma idle_on:
  "idle d \<Longrightarrow> \<not> ct_wanted_running (dv_controller d) \<Longrightarrow> (\<forall>op f. e = Command op f \<longrightarrow> op = OpStop)
   \<Longrightarrow> driver_on e d = Some (d', rs)
   \<Longrightarrow> idle d' \<and> \<not> ct_wanted_running (dv_controller d') \<and> (dv_running d = None \<longrightarrow> dv_running d' = None)"
  by (cases e) (auto simp: idle_def on_defs step_defs Let_def split: if_splits option.splits)

lemma idle_run:
  "driver_run es d = Some (d', rs) \<Longrightarrow> idle d \<Longrightarrow> \<not> ct_wanted_running (dv_controller d)
   \<Longrightarrow> (\<forall>op f. Command op f \<in> set es \<longrightarrow> op = OpStop)
   \<Longrightarrow> idle d' \<and> (dv_running d = None \<longrightarrow> dv_running d' = None)"
proof (induction es d arbitrary: d' rs rule: driver_run.induct)
  case (2 e es d)
  from 2(2) obtain d1 r1 where 1: "driver_on e d = Some (d1, r1)" by (auto split: option.splits)
  with 2(2) obtain r2 where r: "driver_run es d1 = Some (d', r2)" by auto
  have "idle d1 \<and> \<not> ct_wanted_running (dv_controller d1) \<and> (dv_running d = None \<longrightarrow> dv_running d1 = None)"
    using 2(3-5) by (intro idle_on [OF _ _ _ 1]) auto
  with 2(1) [OF 1 refl r] 2(5) show ?case by auto
qed simp

lemma stop_makes_idle:
  "driver_on (Command OpStop f) d = Some (d', rs) \<Longrightarrow> driver_inv d
   \<Longrightarrow> idle d' \<and> \<not> ct_wanted_running (dv_controller d')
     \<and> (f = None \<or> dv_running d = None \<longrightarrow> dv_running d' = None)"
  by (auto simp: idle_def driver_inv_def on_defs step_defs Let_def split: place.splits option.splits)

text \<open>
  A stop is final, wherever the driver takes it (in its loop or during a backoff), and even when
  stopping the process failed: whatever happens next (the process exits, timers fire, more stops),
  the driver never spawns again until a start or restart is commanded; and once the process has been
  stopped, none is owned.
\<close>

theorem stop_is_final:
  assumes "reachable driver_init driver_step d"
    and "driver_on (Command OpStop f) d = Some (d1, rs)"
    and "driver_run es d1 = Some (d2, rs')"
    and "\<forall>op f. Command op f \<in> set es \<longrightarrow> op = OpStop"
  shows "idle d2 \<and> (f = None \<or> dv_running d = None \<longrightarrow> dv_running d2 = None)"
  using stop_makes_idle [OF assms(2) dsh.reachable_inv [OF assms(1)]] idle_run [OF assms(3) _ _ assms(4)]
  by blast

definition example_driver :: driver where
  "example_driver = adopt (Some 7) (driver_new (Managed 3080) restart_policy_default)"

lemmas example_defs = example_driver_def on_defs step_defs Let_def restart_policy_default_def replies_def
  result_def idle_def

lemma example_reachable: "reachable driver_init driver_step example_driver"
proof -
  have "begin_run example_driver = example_driver" by (simp add: example_defs)
  then show ?thesis using adopted [of "Some 7" 3080 restart_policy_default]
    by (intro reach_init) (simp add: example_driver_def)
qed

theorem stop_is_final_witness:
  "\<exists>d1 rs d2 rs'. driver_on (Command OpStop (Some ''busy'')) example_driver = Some (d1, rs)
     \<and> driver_run [Exited ''gone'', Command OpStop None] d1 = Some (d2, rs') \<and> idle d2
     \<and> dv_running d1 = Some (Some 7)"
proof -
  obtain d1 rs where 1: "driver_on (Command OpStop (Some ''busy'')) example_driver = Some (d1, rs)"
    "dv_running d1 = Some (Some 7)" "dv_place d1 = Waiting" "\<not> ct_wanted_running (dv_controller d1)"
    by (simp add: example_defs)
  then obtain d2 rs' where 2: "driver_run [Exited ''gone'', Command OpStop None] d1 = Some (d2, rs')"
    by (auto simp: on_defs step_defs Let_def)
  have "idle d2" using stop_is_final [OF example_reachable 1(1) 2] by simp
  with 1 2 show ?thesis by blast
qed

section \<open>Retries and self-healing\<close>

lemma driver_run_append:
  "driver_run (es @ es') d =
     (case driver_run es d of
        None \<Rightarrow> None
      | Some (d, rs) \<Rightarrow> map_option (\<lambda>(d, rs'). (d, rs @ rs')) (driver_run es' d))"
proof (induction es d rule: driver_run.induct)
  case (1 d)
  then show ?case by (cases "driver_run es' d") auto
next
  case (2 e es d)
  then show ?case
    by (auto split: option.splits prod.splits simp: option.map_comp comp_def case_prod_beta)
qed

definition spawning :: "cont \<Rightarrow> restart_policy \<Rightarrow> nat \<Rightarrow> driver \<Rightarrow> bool" where
  "spawning k p n d =
     (dv_place d = Spawning k \<and> dv_running d = None \<and> ct_wanted_running (dv_controller d)
      \<and> ct_policy (dv_controller d) = p \<and> unat (ct_attempts (dv_controller d)) = n)"

lemma unat_attempt:
  "unat (a :: u32) < unat (m :: u32) \<Longrightarrow> unat (saturating_add a 1) = Suc (unat a)"
  using unat_lt [of m] by (simp add: unat_saturating_add)

lemma spawn_error_retries:
  assumes "spawning k p n d" "Suc n < unat (rp_max_attempts p)"
  shows "\<exists>d'. driver_run [SpawnErr r, TimerFires] d = Some (d', []) \<and> spawning k p (Suc n) d'"
  using assms unat_attempt [of "ct_attempts (dv_controller d)" "rp_max_attempts p"]
  by (auto simp: spawning_def on_defs step_defs Let_def word_le_nat_alt)

lemma spawn_error_gives_up:
  assumes "spawning k p n d" "Suc n = unat (rp_max_attempts p)"
  shows "\<exists>d'. driver_run [SpawnErr r] d = Some (d', replies (answer k d')) \<and> dv_place d' = Waiting
    \<and> dv_running d' = None \<and> dv_published d' = Failed (gave_up r p)
    \<and> ct_lifecycle (dv_controller d') = Failed (gave_up r p)"
  using assms unat_attempt [of "ct_attempts (dv_controller d)" "rp_max_attempts p"]
  by (auto simp: spawning_def on_defs step_defs Let_def word_le_nat_alt answer_def split: cont.splits)

fun failing_spawns :: "string list \<Rightarrow> string \<Rightarrow> event list" where
  "failing_spawns [] r = [SpawnErr r]"
| "failing_spawns (r' # rs) r = SpawnErr r' # TimerFires # failing_spawns rs r"

lemma failing_spawns_Cons: "failing_spawns (r' # rs) r = [SpawnErr r', TimerFires] @ failing_spawns rs r"
  by simp

lemma failing_spawns_end:
  "spawning k p n d \<Longrightarrow> Suc (n + length reasons) = unat (rp_max_attempts p)
   \<Longrightarrow> \<exists>d'. driver_run (failing_spawns reasons r) d = Some (d', replies (answer k d'))
     \<and> dv_place d' = Waiting \<and> dv_running d' = None \<and> dv_published d' = Failed (gave_up r p)
     \<and> ct_lifecycle (dv_controller d') = Failed (gave_up r p)"
proof (induction reasons arbitrary: n d)
  case Nil
  then show ?case using spawn_error_gives_up [of k p n d r] by simp
next
  case (Cons r' reasons)
  then obtain d1 where 1: "driver_run [SpawnErr r', TimerFires] d = Some (d1, [])" "spawning k p (Suc n) d1"
    using spawn_error_retries [of k p n d r'] by auto
  from Cons.IH [OF 1(2)] Cons.prems obtain d2 where
    2: "driver_run (failing_spawns reasons r) d1 = Some (d2, replies (answer k d2))"
       "dv_place d2 = Waiting \<and> dv_running d2 = None \<and> dv_published d2 = Failed (gave_up r p)
        \<and> ct_lifecycle (dv_controller d2) = Failed (gave_up r p)"
    by auto
  have "driver_run (failing_spawns (r' # reasons) r) d = Some (d2, replies (answer k d2))"
    unfolding failing_spawns_Cons driver_run_append by (simp add: 1(1) 2(1) del: driver_run.simps)
  with 2 show ?case by blast
qed

text \<open>
  A DSH that cannot be started is not tried forever: when every spawn fails, the driver makes
  exactly the attempts the policy has left, one after each timer, then stops trying with nothing
  owned, publishes Failed with the last reason, and answers a start command that was waiting with
  that reason.
\<close>

theorem spawn_failures_give_up:
  assumes "dv_place d = Spawning AnswerStart" "dv_running d = None" "ct_wanted_running (dv_controller d)"
    and "Suc (unat (ct_attempts (dv_controller d)) + length reasons)
      = unat (rp_max_attempts (ct_policy (dv_controller d)))"
  shows "\<exists>d'. driver_run (failing_spawns reasons r) d
      = Some (d', [\<lparr>lr_accepted = True, lr_ok = False, lr_state = StFailed,
                    lr_error = Some (gave_up r (ct_policy (dv_controller d)))\<rparr>])
    \<and> dv_place d' = Waiting \<and> dv_running d' = None
    \<and> dv_published d' = Failed (gave_up r (ct_policy (dv_controller d)))"
proof -
  have "spawning AnswerStart (ct_policy (dv_controller d)) (unat (ct_attempts (dv_controller d))) d"
    using assms by (simp add: spawning_def)
  from failing_spawns_end [OF this assms(4), of r] show ?thesis
    by (auto simp: answer_def result_def replies_def state_of_def)
qed

theorem spawn_failures_give_up_witness:
  "\<exists>d'. driver_run (failing_spawns [''a'', ''b'', ''c'', ''d''] ''port taken'')
        (begin_spawn AnswerStart (driver_new (Managed 3080) restart_policy_default))
      = Some (d', [\<lparr>lr_accepted = True, lr_ok = False, lr_state = StFailed,
                    lr_error = Some (gave_up ''port taken'' restart_policy_default)\<rparr>])"
proof -
  let ?d = "begin_spawn AnswerStart (driver_new (Managed 3080) restart_policy_default)"
  have "dv_place ?d = Spawning AnswerStart" "dv_running ?d = None" "ct_wanted_running (dv_controller ?d)"
    "ct_policy (dv_controller ?d) = restart_policy_default" "ct_attempts (dv_controller ?d) = 0"
    by (simp_all add: step_defs Let_def)
  with spawn_failures_give_up [of ?d "[''a'', ''b'', ''c'', ''d'']" "''port taken''"] show ?thesis
    by (auto simp: restart_policy_default_def)
qed

lemma crash_heals:
  assumes "driver_inv d" "dv_running d = Some pid" "ct_wanted_running (dv_controller d)"
    and "1 < rp_max_attempts (ct_policy (dv_controller d))"
  shows "\<exists>d1 d2. driver_on (Exited how) d = Some (d1, [])
      \<and> dv_published d1 = Recovering (restart_delay (ct_policy (dv_controller d)) 1) 1 how
      \<and> driver_run [TimerFires, SpawnOk pid'] d1 = Some (d2, [])
      \<and> driver_inv d2 \<and> dv_running d2 = Some pid' \<and> ct_wanted_running (dv_controller d2)
      \<and> ct_policy (dv_controller d2) = ct_policy (dv_controller d) \<and> dv_published d2 = Running pid'"
proof -
  have d: "dv_place d = Waiting" "permits_lifecycle (ct_mode (dv_controller d))"
      "ct_attempts (dv_controller d) = 0"
    using assms(1,2) by (auto simp: driver_inv_def idle_def Let_def split: place.splits)
  have 1: "saturating_add 0 (1 :: u32) = 1" by (simp add: saturating_add_def)
  show ?thesis using assms d
    by (auto simp: driver_inv_def on_defs step_defs Let_def 1 replies_def answer_def not_le)
qed

fun crashes :: "(string \<times> u32 option) list \<Rightarrow> event list" where
  "crashes [] = []"
| "crashes ((how, pid) # cs) = [Exited how, TimerFires, SpawnOk pid] @ crashes cs"

lemma crashes_heal:
  "driver_inv d \<Longrightarrow> dv_running d = Some pid \<Longrightarrow> ct_wanted_running (dv_controller d)
   \<Longrightarrow> 1 < rp_max_attempts (ct_policy (dv_controller d))
   \<Longrightarrow> \<exists>d'. driver_run (crashes cs) d = Some (d', [])
     \<and> dv_running d' = Some (if cs = [] then pid else snd (last cs))"
proof (induction cs arbitrary: d pid rule: crashes.induct)
  case (2 how pid' cs)
  from crash_heals [OF 2(2-5), of how pid'] obtain d1 d2 where
    1: "driver_on (Exited how) d = Some (d1, [])" "driver_run [TimerFires, SpawnOk pid'] d1 = Some (d2, [])"
    and 2: "driver_inv d2" "dv_running d2 = Some pid'" "ct_wanted_running (dv_controller d2)"
      "ct_policy (dv_controller d2) = ct_policy (dv_controller d)"
    by blast
  have step: "driver_run [Exited how, TimerFires, SpawnOk pid'] d = Some (d2, [])"
    by (subst driver_run.simps(2)) (simp add: 1 del: driver_run.simps(2))
  from "2.IH" [OF 2(1-3)] "2.prems"(4) 2(4) obtain d3 where
    "driver_run (crashes cs) d2 = Some (d3, [])"
    "dv_running d3 = Some (if cs = [] then pid' else snd (last cs))"
    by auto
  then show ?case by (simp only: crashes.simps driver_run_append step) simp
qed simp

text \<open>
  C40. Self-healing: when DSH exits without a stop having been asked for, the driver publishes that it
  recovers and how it exited, waits the policy's first delay, starts DSH again and owns the new
  process; and it does so for any number of crashes in a row, since each successful start gives the
  full patience back.
\<close>

theorem self_healing:
  assumes "reachable driver_init driver_step d"
    and "dv_running d = Some pid" "ct_wanted_running (dv_controller d)"
    and "1 < rp_max_attempts (ct_policy (dv_controller d))"
  shows "(\<exists>d1. driver_on (Exited how) d = Some (d1, []) \<and> dv_place d1 = Backoff Loop
      \<and> dv_published d1 = Recovering (restart_delay (ct_policy (dv_controller d)) 1) 1 how)
    \<and> (\<exists>d'. driver_run (crashes cs) d = Some (d', [])
      \<and> dv_running d' = Some (if cs = [] then pid else snd (last cs)))"
proof
  have inv: "driver_inv d" by (rule dsh.reachable_inv [OF assms(1)])
  from inv assms(2) have d: "dv_place d = Waiting" "ct_attempts (dv_controller d) = 0"
    by (auto simp: driver_inv_def Let_def split: place.splits)
  have "saturating_add 0 (1 :: u32) = 1" by (simp add: saturating_add_def)
  then show "\<exists>d1. driver_on (Exited how) d = Some (d1, []) \<and> dv_place d1 = Backoff Loop
      \<and> dv_published d1 = Recovering (restart_delay (ct_policy (dv_controller d)) 1) 1 how"
    using assms(2-4) d by (auto simp: on_defs step_defs Let_def not_le)
  show "\<exists>d'. driver_run (crashes cs) d = Some (d', [])
      \<and> dv_running d' = Some (if cs = [] then pid else snd (last cs))"
    by (rule crashes_heal [OF inv assms(2-4)])
qed

theorem self_healing_witness:
  "\<exists>d'. driver_run (crashes (replicate 100 (''killed'', Some 8))) example_driver = Some (d', [])
     \<and> dv_running d' = Some (Some 8)"
proof -
  have "dv_running example_driver = Some (Some 7)" "ct_wanted_running (dv_controller example_driver)"
    "1 < rp_max_attempts (ct_policy (dv_controller example_driver))"
    by (simp_all add: example_defs)
  from self_healing [OF example_reachable this, of _ "replicate 100 (''killed'', Some 8)"]
  show ?thesis by (simp del: crashes.simps)
qed

section \<open>What commands are told\<close>

definition recovering_driver :: driver where
  "recovering_driver =
     (case driver_on (Exited ''killed'') example_driver of None \<Rightarrow> example_driver | Some (d, rs) \<Rightarrow> d)"

lemma recovering_reachable:
  "reachable driver_init driver_step recovering_driver" "dv_place recovering_driver = Backoff Loop"
proof -
  have 1: "saturating_add 0 (1 :: u32) = 1" "\<not> 5 \<le> (1 :: u32)"
    by (simp_all add: saturating_add_def word_le_nat_alt)
  obtain d rs where d: "driver_on (Exited ''killed'') example_driver = Some (d, rs)" "dv_place d = Backoff Loop"
    by (simp add: example_defs 1)
  then have r: "recovering_driver = d" by (simp add: recovering_driver_def)
  have "driver_step example_driver d"
    by (rule driver_step.intros [OF _ d(1)]) (simp add: allowed_def)
  then show "reachable driver_init driver_step recovering_driver"
    unfolding r by (rule reach_step [OF example_reachable])
  show "dv_place recovering_driver = Backoff Loop" unfolding r by (rule d(2))
qed

text \<open>
  During a backoff a start or restart is answered with success and changes nothing: the driver
  keeps waiting for the same timer. A stop ends the backoff and cancels the restart, but the status it
  leaves behind, and answers with, is still Starting, although nothing runs and nothing is scheduled.
\<close>

theorem commands_during_backoff:
  assumes "reachable driver_init driver_step d" "dv_place d = Backoff k"
  shows "(op \<noteq> OpStop \<longrightarrow> driver_on (Command op f) d
      = Some (d, [\<lparr>lr_accepted = True, lr_ok = True, lr_state = StStarting, lr_error = None\<rparr>]))
    \<and> (\<exists>d'. driver_on (Command OpStop f) d
        = Some (d', \<lparr>lr_accepted = True, lr_ok = True, lr_state = StStarting, lr_error = None\<rparr>
                     # replies (answer k d'))
      \<and> dv_place d' = Waiting \<and> dv_running d' = None \<and> \<not> ct_wanted_running (dv_controller d')
      \<and> state_of (dv_published d') = StStarting)"
proof -
  from dsh.reachable_inv [OF assms(1)] assms(2) obtain why where
    d: "dv_running d = None" "ct_wanted_running (dv_controller d)" and
    l: "ct_lifecycle (dv_controller d) = Recovering (restart_delay (ct_policy (dv_controller d))
          (ct_attempts (dv_controller d))) (ct_attempts (dv_controller d)) why"
    by (auto simp: driver_inv_def Let_def)
  have "op \<noteq> OpStop \<Longrightarrow> driver_on (Command op f) d
      = Some (d, [\<lparr>lr_accepted = True, lr_ok = True, lr_state = StStarting, lr_error = None\<rparr>])"
    using assms(2) d l
    by (auto simp: on_defs serve_command_only_def result_def state_of_def split: lifecycle_op.splits)
  moreover have "\<exists>d'. driver_on (Command OpStop f) d
        = Some (d', \<lparr>lr_accepted = True, lr_ok = True, lr_state = StStarting, lr_error = None\<rparr>
                     # replies (answer k d'))
      \<and> dv_place d' = Waiting \<and> dv_running d' = None \<and> \<not> ct_wanted_running (dv_controller d')
      \<and> state_of (dv_published d') = StStarting"
    using assms(2) d l
    by (auto simp: on_defs step_defs result_def state_of_def Let_def answer_def split: cont.splits)
  ultimately show ?thesis by blast
qed

theorem commands_during_backoff_witness:
  "\<exists>d. driver_on (Command OpRestart None) recovering_driver = Some (recovering_driver, d)"
  using commands_during_backoff [OF recovering_reachable, of OpRestart None] by simp

lemma stop_accepted: "stop f d = (d', r) \<Longrightarrow> lr_accepted r"
  by (auto simp: stop_def Let_def result_def split: option.splits)

lemma replies_accepted:
  "driver_on e d = Some (d', rs) \<Longrightarrow> r \<in> set rs \<Longrightarrow> lr_accepted r"
  by (auto simp: on_defs return_from_start_def serve_def serve_command_only_def Let_def replies_def
      answer_def result_def dest: stop_accepted
      split: place.splits event.splits if_splits prod.splits option.splits lifecycle_op.splits cont.splits)

text \<open>
  A client can tell a refusal from a failure: whatever the driver answers, and also when it is gone
  or does not answer, the result of a command says it was accepted exactly in managed mode; in
  attached mode no command reaches the driver, and the error names the operation and the port.
\<close>

theorem refusals_are_told_apart:
  assumes "fate = DriverGone \<or> fate = NoAnswer
      \<or> (\<exists>e d d' rs r. driver_on e d = Some (d', rs) \<and> r \<in> set rs \<and> fate = Answered r)"
  shows "lr_accepted (handle_command m snapshot op fate) = permits_lifecycle m
    \<and> sends_command m op = permits_lifecycle m
    \<and> handle_command (Attached port) snapshot op fate
      = \<lparr>lr_accepted = False, lr_ok = False, lr_state = state_of snapshot,
         lr_error = Some (describe_op op @ '' is not available: ''
           @ ''DSH on port '' @ decimal (unat port) @ '' was started outside this daemon, so the daemon''
           @ '' will not stop or restart it. Interface access works normally; stop it yourself if you''
           @ '' want it stopped.'')\<rparr>"
  using assms
  by (auto simp: handle_command_def check_permitted_def mode_refusal_reason_def permits_lifecycle_def
      dest: replies_accepted split: mode.splits fate.splits)


theorem refusals_are_told_apart_witness:
  "\<not> lr_accepted (handle_command (Attached 3080) (Running None) OpStop DriverGone)
   \<and> lr_accepted (handle_command (Managed 3080) Starting OpStop DriverGone)"
  using refusals_are_told_apart [of DriverGone "Attached 3080" "Running None" OpStop]
    refusals_are_told_apart [of DriverGone "Managed 3080" Starting OpStop]
  by (simp add: permits_lifecycle_def)

end
