(* ===== verification/Text.thy ===== *)
theory Text
  imports Utf8
begin

text \<open>
  What the code uses of the text functions of the Rust standard library: \<open>str::trim\<close>,
  \<open>strip_prefix\<close>, \<open>starts_with\<close>, \<open>contains\<close>, \<open>split\<close>, \<open>to_ascii_lowercase\<close> and the parser of unsigned
  integers.
\<close>

definition trim :: "string \<Rightarrow> string" where
  "trim s = of_chars (rev (dropWhile is_whitespace (rev (dropWhile is_whitespace (chars s)))))"

definition strip_prefix :: "string \<Rightarrow> string \<Rightarrow> string option" where
  "strip_prefix p s = (if take (length p) s = p then Some (drop (length p) s) else None)"

definition starts_with :: "string \<Rightarrow> string \<Rightarrow> bool" where
  "starts_with p s \<longleftrightarrow> strip_prefix p s \<noteq> None"

lemma strip_prefix_Some: "strip_prefix p s = Some r \<longleftrightarrow> s = p @ r"
  unfolding strip_prefix_def by (metis append_take_drop_id append_eq_conv_conj option.inject option.simps(3))

lemma starts_with_iff: "starts_with p s \<longleftrightarrow> (\<exists>r. s = p @ r)"
  using strip_prefix_Some by (auto simp: starts_with_def)

fun contains_text :: "string \<Rightarrow> string \<Rightarrow> bool" where
  "contains_text p [] = (p = [])"
| "contains_text p (c # s) = (starts_with p (c # s) \<or> contains_text p s)"

lemma contains_text_iff: "contains_text p s \<longleftrightarrow> (\<exists>u v. s = u @ p @ v)"
proof (induction s)
  case Nil
  then show ?case by auto
next
  case (Cons c s)
  have "(\<exists>u v. c # s = u @ p @ v) \<longleftrightarrow> (\<exists>v. c # s = p @ v) \<or> (\<exists>u v. s = u @ p @ v)"
    by (auto simp: Cons_eq_append_conv)
  then show ?case using Cons by (simp add: starts_with_iff)
qed

definition to_ascii_lowercase :: "string \<Rightarrow> string" where
  "to_ascii_lowercase s =
     map (\<lambda>c. let n = of_char c :: nat in if 65 \<le> n \<and> n \<le> 90 then char_of (n + 32) else c) s"

text \<open>\<open>str::split\<close> on one ASCII character: one piece more than there are separators.\<close>

fun split_on :: "char \<Rightarrow> string \<Rightarrow> string list" where
  "split_on c [] = [[]]"
| "split_on c (x # xs) =
     (if x = c then [] # split_on c xs
      else (case split_on c xs of [] \<Rightarrow> [[x]] | p # ps \<Rightarrow> (x # p) # ps))"

lemma split_on_ne [simp]: "split_on c s \<noteq> []"
  by (induction s) (auto split: list.splits)

lemma split_on_hd: "hd (split_on c s) = takeWhile (\<lambda>x. x \<noteq> c) s"
  by (induction s) (auto split: list.splits)

section \<open>Parsing unsigned integers\<close>

text \<open>\<open>from_str\<close> of an unsigned integer of \<open>w\<close> bits: one leading \<open>+\<close> is allowed, then digits only.\<close>

fun digits_value :: "nat \<Rightarrow> string \<Rightarrow> nat option" where
  "digits_value acc [] = Some acc"
| "digits_value acc (c # cs) =
     (let n = of_char c in if 48 \<le> n \<and> n \<le> (57 :: nat) then digits_value (acc * 10 + (n - 48)) cs else None)"

definition parse_uint :: "nat \<Rightarrow> string \<Rightarrow> nat option" where
  "parse_uint w s =
     (let t = (if s \<noteq> [] \<and> hd s = CHR ''+'' then tl s else s) in
      if t = [] then None
      else case digits_value 0 t of
             None \<Rightarrow> None
           | Some n \<Rightarrow> if n < 2 ^ w then Some n else None)"

lemma parse_uint_less: "parse_uint w s = Some n \<Longrightarrow> n < 2 ^ w"
  by (auto simp: parse_uint_def Let_def split: option.splits if_splits)

lemma digits_value_append:
  "digits_value acc (s @ t) = (case digits_value acc s of None \<Rightarrow> None | Some n \<Rightarrow> digits_value n t)"
  by (induction s arbitrary: acc) (auto simp: Let_def)

lemma digit_char: "n < 10 \<Longrightarrow> (of_char (''0123456789'' ! n) :: nat) = 48 + n"
proof -
  assume "n < 10"
  moreover have "\<forall>n \<in> set [0..<10]. of_char (''0123456789'' ! n) = 48 + n" by code_simp
  ultimately show ?thesis by simp
qed

lemma digits_value_decimal: "digits_value acc (decimal n) = Some (acc * 10 ^ length (decimal n) + n)"
proof (induction n arbitrary: acc rule: decimal.induct)
  case (1 n)
  show ?case
  proof (cases "n < 10")
    case True
    then show ?thesis by (simp add: decimal.simps [of n] digit_char Let_def)
  next
    case False
    then show ?thesis
      using 1 by (simp add: decimal.simps [of n] digits_value_append digit_char Let_def algebra_simps)
  qed
qed

lemma decimal_digits: "c \<in> set (decimal n) \<Longrightarrow> (of_char c :: nat) \<in> {48..57}"
proof (induction n rule: decimal.induct)
  case (1 n)
  have d: "(of_char (''0123456789'' ! (m mod 10)) :: nat) \<in> {48..57}" for m
    using digit_char [of "m mod 10"] mod_less_divisor [of 10 m] by simp
  show ?case
  proof (cases "n < 10")
    case True
    with 1(2) d [of n] show ?thesis by (simp add: decimal.simps [of n])
  next
    case False
    with 1(2) have "c = ''0123456789'' ! (n mod 10) \<or> c \<in> set (decimal (n div 10))"
      by (simp add: decimal.simps [of n])
    then show ?thesis using 1(1) [OF False] d [of n] by blast
  qed
qed

lemma decimal_ne [simp]: "decimal n \<noteq> []"
  by (subst decimal.simps) simp

lemma parse_uint_decimal: "n < 2 ^ w \<Longrightarrow> parse_uint w (decimal n) = Some n"
proof -
  assume n: "n < 2 ^ w"
  have "hd (decimal n) \<noteq> CHR ''+''" using decimal_digits [OF hd_in_set [OF decimal_ne [of n]]] by (cases "hd (decimal n) = CHR ''+''") simp_all
  then show ?thesis using n by (simp add: parse_uint_def digits_value_decimal)
qed

end
