(* ===== verification/Proxy_Message.thy ===== *)
theory Proxy_Message
  imports Wire Text
begin

text \<open>
  \<open>proxy/message.rs\<close> of the daemon: the messages of a proxied stream and their codec. A writer takes
  \<open>out\<close> and gives it back with what it appended, also when it fails half way. The reader is the
  bounds-checked \<open>Cursor\<close>, with the error each step reports. A usize has 64 bits.
\<close>

definition MAX_HEADER_BYTES :: nat where "MAX_HEADER_BYTES = 64 * 1024"
definition MAX_CHUNK_BYTES :: nat where "MAX_CHUNK_BYTES = unat MAX_PAYLOAD_LEN - 64"
definition PX_MAGIC :: "byte list" where "PX_MAGIC = as_bytes ''PX''"
definition PX_VERSION :: u8 where "PX_VERSION = 1"

type_synonym header_list = "(string \<times> string) list"

record request_head =
  rq_id :: u64
  rq_method :: string
  rq_target :: string
  rq_headers :: header_list
  rq_body :: "byte list"

record response_head =
  rs_id :: u64
  rs_status :: u16
  rs_headers :: header_list

record failure =
  fl_id :: u64
  fl_reason :: string

record ws_open =
  wo_id :: u64
  wo_target :: string
  wo_headers :: header_list

record ws_opened =
  wd_id :: u64
  wd_status :: u16
  wd_headers :: header_list

datatype ws_frame = WsText string | WsBinary "byte list" | WsFrameClose

record ws_data =
  wa_id :: u64
  wa_frame :: ws_frame

datatype proxy_message =
    RequestStart request_head
  | RequestBody "byte list"
  | RequestEnd
  | ResponseStart response_head
  | ResponseBody "byte list"
  | ResponseEnd
  | Failure failure
  | WsOpen ws_open
  | WsOpened ws_opened
  | WsData ws_data
  | WsClose

datatype proxy_codec_error =
    PxBadMagic
  | PxVersion (px_found: u8) (px_expected: u8)
  | UnknownType u8
  | Truncated (px_needed: nat) (px_had: nat)
  | TooLarge (px_declared: nat) (px_max: nat)
  | NotUtf8
  | HeadersTooLarge nat
  | UnknownFrameKind u8
  | WrongDirection string

definition is_fatal :: "proxy_codec_error \<Rightarrow> bool" where "is_fatal e = True"

section \<open>Writing\<close>

type_synonym writer = "byte list \<Rightarrow> (proxy_codec_error + unit) \<times> byte list"

definition then_put :: "writer \<Rightarrow> writer \<Rightarrow> writer" where
  "then_put f g = (\<lambda>out. case f out of (Inl e, out) \<Rightarrow> (Inl e, out) | (Inr _, out) \<Rightarrow> g out)"

definition put_raw :: "byte list \<Rightarrow> writer" where
  "put_raw bs = (\<lambda>out. (Inr (), out @ bs))"

definition put_bytes :: "byte list \<Rightarrow> writer" where
  "put_bytes bs = (\<lambda>out.
     if MAX_CHUNK_BYTES < length bs then (Inl (TooLarge (length bs) MAX_CHUNK_BYTES), out)
     else if 2 ^ 32 \<le> length bs then (Inl (TooLarge (length bs) MAX_CHUNK_BYTES), out)
     else (Inr (), out @ put_u32 (of_nat (length bs)) @ bs))"

definition header_total :: "header_list \<Rightarrow> nat" where
  "header_total hs = sum_list (map (\<lambda>(name, val). length name + length val + 8) hs)"

fun put_each :: "header_list \<Rightarrow> writer" where
  "put_each [] = put_raw []"
| "put_each ((name, val) # hs) =
     then_put (put_bytes (as_bytes name)) (then_put (put_bytes (as_bytes val)) (put_each hs))"

definition put_headers :: "header_list \<Rightarrow> writer" where
  "put_headers hs = (\<lambda>out.
     if MAX_HEADER_BYTES < header_total hs then (Inl (HeadersTooLarge (header_total hs)), out)
     else if 2 ^ 16 \<le> length hs then (Inl (HeadersTooLarge (header_total hs)), out)
     else then_put (put_raw (put_u16 (of_nat (length hs)))) (put_each hs) out)"

fun put_frame :: "ws_frame \<Rightarrow> writer" where
  "put_frame (WsText t) = then_put (put_raw [1]) (put_bytes (as_bytes t))"
| "put_frame (WsBinary bs) = then_put (put_raw [2]) (put_bytes bs)"
| "put_frame WsFrameClose = put_raw [3]"

fun put_message :: "proxy_message \<Rightarrow> writer" where
  "put_message (RequestStart h) =
     then_put (put_raw ([1] @ put_u64 (rq_id h)))
       (then_put (put_bytes (as_bytes (rq_method h)))
         (then_put (put_bytes (as_bytes (rq_target h)))
           (then_put (put_headers (rq_headers h)) (put_bytes (rq_body h)))))"
| "put_message (RequestBody c) = then_put (put_raw [2]) (put_bytes c)"
| "put_message RequestEnd = put_raw [3]"
| "put_message (ResponseStart h) =
     then_put (put_raw ([4] @ put_u64 (rs_id h) @ put_u16 (rs_status h))) (put_headers (rs_headers h))"
| "put_message (ResponseBody c) = then_put (put_raw [5]) (put_bytes c)"
| "put_message ResponseEnd = put_raw [6]"
| "put_message (Failure f) =
     then_put (put_raw ([7] @ put_u64 (fl_id f))) (put_bytes (as_bytes (fl_reason f)))"
| "put_message (WsOpen w) =
     then_put (put_raw ([8] @ put_u64 (wo_id w)))
       (then_put (put_bytes (as_bytes (wo_target w))) (put_headers (wo_headers w)))"
| "put_message (WsOpened w) =
     then_put (put_raw ([9] @ put_u64 (wd_id w) @ put_u16 (wd_status w))) (put_headers (wd_headers w))"
| "put_message (WsData w) = then_put (put_raw ([10] @ put_u64 (wa_id w))) (put_frame (wa_frame w))"
| "put_message WsClose = put_raw [11]"

definition px_encode :: "proxy_message \<Rightarrow> writer" where
  "px_encode m = then_put (put_raw (PX_MAGIC @ [PX_VERSION])) (put_message m)"

section \<open>Reading\<close>

record cursor =
  cu_bytes :: "byte list"
  cu_at :: nat

type_synonym 'a reader = "cursor \<Rightarrow> proxy_codec_error + 'a \<times> cursor"

definition then_get :: "'a reader \<Rightarrow> ('a \<Rightarrow> 'b reader) \<Rightarrow> 'b reader" where
  "then_get f g = (\<lambda>c. and_then (f c) (\<lambda>(x, c). g x c))"

definition got :: "'a \<Rightarrow> 'a reader" where "got x = (\<lambda>c. Inr (x, c))"

definition cur_new :: "byte list \<Rightarrow> cursor" where
  "cur_new bs = \<lparr>cu_bytes = bs, cu_at = 0\<rparr>"

definition cur_take :: "nat \<Rightarrow> byte list reader" where
  "cur_take count = (\<lambda>c.
     let end' = cu_at c + count in
     if 2 ^ 64 \<le> end' then Inl (Truncated count (length (cu_bytes c)))
     else if length (cu_bytes c) < end' then Inl (Truncated end' (length (cu_bytes c)))
     else Inr (sub_bytes (cu_bytes c) (cu_at c) count, c\<lparr>cu_at := end'\<rparr>))"

definition cur_u8 :: "u8 reader" where "cur_u8 = then_get (cur_take 1) (\<lambda>bs. got (bs ! 0))"
definition cur_u16 :: "u16 reader" where "cur_u16 = then_get (cur_take 2) (\<lambda>bs. got (get_u16 bs))"
definition cur_u32 :: "u32 reader" where "cur_u32 = then_get (cur_take 4) (\<lambda>bs. got (get_u32 bs))"
definition cur_u64 :: "u64 reader" where "cur_u64 = then_get (cur_take 8) (\<lambda>bs. got (get_u64 bs))"

definition cur_bytes :: "byte list reader" where
  "cur_bytes = then_get cur_u32 (\<lambda>n c.
     let len = unat n in
     if MAX_CHUNK_BYTES < len then Inl (TooLarge len MAX_CHUNK_BYTES) else cur_take len c)"

definition cur_string :: "string reader" where
  "cur_string = then_get cur_bytes (\<lambda>bs c.
     if is_utf8 (from_bytes bs) then Inr (from_bytes bs, c) else Inl NotUtf8)"

fun cur_each :: "nat \<Rightarrow> nat \<Rightarrow> header_list reader" where
  "cur_each 0 sofar = got []"
| "cur_each (Suc n) sofar =
     then_get cur_string (\<lambda>name. then_get cur_string (\<lambda>val c.
       let sofar = sofar + (length name + length val) in
       if MAX_HEADER_BYTES < sofar then Inl (HeadersTooLarge sofar)
       else then_get (cur_each n sofar) (\<lambda>hs. got ((name, val) # hs)) c))"

definition cur_headers :: "header_list reader" where
  "cur_headers = then_get cur_u16 (\<lambda>count. cur_each (unat count) 0)"

definition get_frame :: "ws_frame reader" where
  "get_frame = then_get cur_u8 (\<lambda>kind.
     if kind = 1 then then_get cur_string (\<lambda>t. got (WsText t))
     else if kind = 2 then then_get cur_bytes (\<lambda>bs. got (WsBinary bs))
     else if kind = 3 then got WsFrameClose
     else (\<lambda>c. Inl (UnknownFrameKind kind)))"

definition get_request_head :: "request_head reader" where
  "get_request_head =
     then_get cur_u64 (\<lambda>i. then_get cur_string (\<lambda>method. then_get cur_string (\<lambda>target.
       then_get cur_headers (\<lambda>headers. then_get cur_bytes (\<lambda>body.
         got \<lparr>rq_id = i, rq_method = method, rq_target = target, rq_headers = headers,
              rq_body = body\<rparr>)))))"

definition get_message :: "u8 \<Rightarrow> proxy_message reader" where
  "get_message tag =
     (if tag = 1 then then_get get_request_head (\<lambda>h. got (RequestStart h))
      else if tag = 2 then then_get cur_bytes (\<lambda>bs. got (RequestBody bs))
      else if tag = 3 then got RequestEnd
      else if tag = 4 then
        then_get cur_u64 (\<lambda>i. then_get cur_u16 (\<lambda>status. then_get cur_headers (\<lambda>headers.
          got (ResponseStart \<lparr>rs_id = i, rs_status = status, rs_headers = headers\<rparr>))))
      else if tag = 5 then then_get cur_bytes (\<lambda>bs. got (ResponseBody bs))
      else if tag = 6 then got ResponseEnd
      else if tag = 7 then
        then_get cur_u64 (\<lambda>i. then_get cur_string (\<lambda>reason.
          got (Failure \<lparr>fl_id = i, fl_reason = reason\<rparr>)))
      else if tag = 8 then
        then_get cur_u64 (\<lambda>i. then_get cur_string (\<lambda>target. then_get cur_headers (\<lambda>headers.
          got (WsOpen \<lparr>wo_id = i, wo_target = target, wo_headers = headers\<rparr>))))
      else if tag = 9 then
        then_get cur_u64 (\<lambda>i. then_get cur_u16 (\<lambda>status. then_get cur_headers (\<lambda>headers.
          got (WsOpened \<lparr>wd_id = i, wd_status = status, wd_headers = headers\<rparr>))))
      else if tag = 10 then
        then_get cur_u64 (\<lambda>i. then_get get_frame (\<lambda>frame. got (WsData \<lparr>wa_id = i, wa_frame = frame\<rparr>)))
      else if tag = 11 then got WsClose
      else (\<lambda>c. Inl (UnknownType tag)))"

text \<open>\<open>decode\<close> keeps nothing of the cursor; \<open>px_read\<close> is its body, which ends with one.\<close>

definition px_read :: "proxy_message reader" where
  "px_read =
     then_get (cur_take 2) (\<lambda>magic.
       if magic \<noteq> PX_MAGIC then (\<lambda>c. Inl PxBadMagic)
       else then_get cur_u8 (\<lambda>version.
         if version \<noteq> PX_VERSION then (\<lambda>c. Inl (PxVersion version PX_VERSION))
         else then_get cur_u8 get_message))"

definition px_decode :: "byte list \<Rightarrow> proxy_codec_error + proxy_message" where
  "px_decode bs = and_then (px_read (cur_new bs)) (\<lambda>(m, c). Inr m)"

text \<open>\<open>[T]::chunks\<close>, for a chunk size above zero, and \<open>chunk_body\<close>.\<close>

function chunks :: "nat \<Rightarrow> byte list \<Rightarrow> byte list list" where
  "chunks n bs = (if bs = [] \<or> n = 0 then [] else take n bs # chunks n (drop n bs))"
  by auto
termination by (relation "measure (\<lambda>(n, bs). length bs)") auto

declare chunks.simps [simp del]

definition chunk_body :: "byte list \<Rightarrow> byte list list" where
  "chunk_body body = chunks MAX_CHUNK_BYTES body"

text \<open>Collecting pairs into a \<open>BTreeMap\<close> inserts them in order: a later one replaces an earlier one.\<close>

definition header_map :: "header_list \<Rightarrow> string \<Rightarrow> string option" where
  "header_map hs = fold (\<lambda>(name, val) m. m(to_ascii_lowercase name \<mapsto> val)) hs Map.empty"

section \<open>What readers accept\<close>

text \<open>
  \<open>reads r W\<close>: wherever it starts, the reader \<open>r\<close> gives \<open>x\<close> exactly when the input goes on with bytes
  \<open>b\<close> for which \<open>W x b\<close>, and then stands right behind them.
\<close>

definition cursor_at :: "byte list \<Rightarrow> byte list \<Rightarrow> cursor" where
  "cursor_at pre rest = \<lparr>cu_bytes = pre @ rest, cu_at = length pre\<rparr>"

definition reads :: "'a reader \<Rightarrow> ('a \<Rightarrow> byte list \<Rightarrow> bool) \<Rightarrow> bool" where
  "reads r W \<longleftrightarrow>
     (\<forall>pre s x c'. length (pre @ s) < 2 ^ 64 \<longrightarrow>
        r (cursor_at pre s) = Inr (x, c')
          \<longleftrightarrow> (\<exists>b rest. s = b @ rest \<and> W x b \<and> c' = cursor_at (pre @ b) rest))"

lemma readsD:
  "reads r W \<Longrightarrow> length (pre @ s) < 2 ^ 64 \<Longrightarrow> r (cursor_at pre s) = Inr (x, c')
     \<longleftrightarrow> (\<exists>b rest. s = b @ rest \<and> W x b \<and> c' = cursor_at (pre @ b) rest)"
  unfolding reads_def by blast

lemma reads_cong: "reads r W \<Longrightarrow> (\<And>x b. W x b \<longleftrightarrow> W' x b) \<Longrightarrow> reads r W'"
  unfolding reads_def by simp

lemma reads_got: "reads (got x) (\<lambda>y b. y = x \<and> b = [])"
  by (auto simp: reads_def got_def)

lemma reads_fail: "reads (\<lambda>c. Inl e) (\<lambda>y b. False)"
  by (simp add: reads_def)

lemma reads_then_get:
  assumes f: "reads f V" and g: "\<And>x. reads (g x) (W x)"
  shows "reads (then_get f g) (\<lambda>y b. \<exists>x b1 b2. b = b1 @ b2 \<and> V x b1 \<and> W x y b2)"
  unfolding reads_def
proof (intro allI impI)
  fix pre s :: "byte list" and y c' assume len: "length (pre @ s) < 2 ^ 64"
  have g': "g x (cursor_at (pre @ b1) rest) = Inr (y, c')
      \<longleftrightarrow> (\<exists>b2 rest'. rest = b2 @ rest' \<and> W x y b2 \<and> c' = cursor_at ((pre @ b1) @ b2) rest')"
    if "s = b1 @ rest" for x b1 rest
    using len that by (intro readsD [OF g]) simp
  show "then_get f g (cursor_at pre s) = Inr (y, c')
      \<longleftrightarrow> (\<exists>b rest. s = b @ rest \<and> (\<exists>x b1 b2. b = b1 @ b2 \<and> V x b1 \<and> W x y b2)
      \<and> c' = cursor_at (pre @ b) rest)" (is "?l \<longleftrightarrow> ?r")
  proof
    assume ?l
    then obtain x c where "f (cursor_at pre s) = Inr (x, c)" and gc: "g x c = Inr (y, c')"
      by (auto simp: then_get_def and_then_Inr_iff)
    then obtain b1 rest where 1: "s = b1 @ rest" "V x b1" "c = cursor_at (pre @ b1) rest"
      using readsD [OF f len] by blast
    with gc g' obtain b2 rest' where "rest = b2 @ rest'" "W x y b2" "c' = cursor_at ((pre @ b1) @ b2) rest'"
      by blast
    with 1 show ?r by (intro exI [of _ "b1 @ b2"] exI [of _ rest']) auto
  next
    assume ?r
    then obtain rest x b1 b2 where 1: "s = b1 @ b2 @ rest" "V x b1" "W x y b2"
      "c' = cursor_at ((pre @ b1) @ b2) rest"
      by auto
    then have "f (cursor_at pre s) = Inr (x, cursor_at (pre @ b1) (b2 @ rest))"
      using readsD [OF f len] by blast
    moreover have "g x (cursor_at (pre @ b1) (b2 @ rest)) = Inr (y, c')"
      using 1 g' [of b1 "b2 @ rest" x] by blast
    ultimately show ?l by (simp add: then_get_def)
  qed
qed

lemma reads_take: "reads (cur_take n) (\<lambda>x b. x = b \<and> length b = n)"
  unfolding reads_def
proof (intro allI impI)
  fix pre s :: "byte list" and x c' assume len: "length (pre @ s) < 2 ^ 64"
  show "cur_take n (cursor_at pre s) = Inr (x, c')
    \<longleftrightarrow> (\<exists>b rest. s = b @ rest \<and> (x = b \<and> length b = n) \<and> c' = cursor_at (pre @ b) rest)"
  proof (cases "n \<le> length s")
    case True
    then have "cur_take n (cursor_at pre s) = Inr (take n s, cursor_at (pre @ take n s) (drop n s))"
      using len by (simp add: cur_take_def cursor_at_def sub_bytes_def Let_def)
    moreover have "s = b @ rest \<and> length b = n \<longleftrightarrow> b = take n s \<and> rest = drop n s" for b rest
      using True by auto
    ultimately show ?thesis by auto
  next
    case False
    then show ?thesis by (auto simp: cur_take_def cursor_at_def Let_def)
  qed
qed

lemma reads_u8: "reads cur_u8 (\<lambda>x b. b = [x])"
  unfolding cur_u8_def by (rule reads_cong [OF reads_then_get [OF reads_take reads_got]])
    (auto simp: length_Suc_conv)

lemma reads_u16: "reads cur_u16 (\<lambda>x b. b = put_u16 x)"
  unfolding cur_u16_def by (rule reads_cong [OF reads_then_get [OF reads_take reads_got]])
    (auto simp: put_get_u16)

lemma reads_u32: "reads cur_u32 (\<lambda>x b. b = put_u32 x)"
  unfolding cur_u32_def by (rule reads_cong [OF reads_then_get [OF reads_take reads_got]])
    (auto simp: put_get_u32)

lemma reads_u64: "reads cur_u64 (\<lambda>x b. b = put_u64 x)"
  unfolding cur_u64_def by (rule reads_cong [OF reads_then_get [OF reads_take reads_got]])
    (auto simp: put_get_u64)

lemma reads_guard:
  "(\<not> P \<Longrightarrow> reads g W) \<Longrightarrow> reads (\<lambda>c. if P then Inl e else g c) (\<lambda>y b. \<not> P \<and> W y b)"
  by (cases P) (simp_all add: reads_fail)

lemma length_from_bytes [simp]: "length (from_bytes bs) = length bs"
  by (simp add: from_bytes_def)

section \<open>Wire forms\<close>

definition wire_bytes :: "byte list \<Rightarrow> byte list" where
  "wire_bytes bs = put_u32 (of_nat (length bs)) @ bs"

definition wire_string :: "string \<Rightarrow> byte list" where "wire_string s = wire_bytes (as_bytes s)"

definition wire_header :: "string \<times> string \<Rightarrow> byte list" where
  "wire_header h = wire_string (fst h) @ wire_string (snd h)"

definition wire_headers :: "header_list \<Rightarrow> byte list" where
  "wire_headers hs = put_u16 (of_nat (length hs)) @ concat (map wire_header hs)"

definition readable_string :: "string \<Rightarrow> bool" where
  "readable_string s \<longleftrightarrow> is_utf8 s \<and> length s \<le> MAX_CHUNK_BYTES"

definition header_size :: "header_list \<Rightarrow> nat" where
  "header_size hs = sum_list (map (\<lambda>(name, val). length name + length val) hs)"

definition readable_headers :: "header_list \<Rightarrow> bool" where
  "readable_headers hs \<longleftrightarrow> list_all (\<lambda>(name, val). readable_string name \<and> readable_string val) hs
     \<and> header_size hs \<le> MAX_HEADER_BYTES \<and> length hs < 2 ^ 16"

lemma MAX_CHUNK_BYTES_eq: "MAX_CHUNK_BYTES = 65472"
  by (simp add: MAX_CHUNK_BYTES_def)

lemma MAX_HEADER_BYTES_eq: "MAX_HEADER_BYTES = 65536"
  by (simp add: MAX_HEADER_BYTES_def)

lemma unat_chunk_len: "n \<le> MAX_CHUNK_BYTES \<Longrightarrow> unat (of_nat n :: u32) = n"
  by (simp add: unat_of_nat MAX_CHUNK_BYTES_eq)

lemma length_wire_bytes [simp]: "length (wire_bytes bs) = 4 + length bs"
  by (simp add: wire_bytes_def)

lemma reads_bytes:
  "reads cur_bytes (\<lambda>x b. length x \<le> MAX_CHUNK_BYTES \<and> b = wire_bytes x)"
  unfolding cur_bytes_def Let_def
proof (rule reads_cong [OF reads_then_get [OF reads_u32 reads_guard [OF reads_take]]])
  fix x b
  show "(\<exists>n b1 b2. b = b1 @ b2 \<and> b1 = put_u32 n \<and> \<not> MAX_CHUNK_BYTES < unat n \<and> x = b2 \<and> length b2 = unat n)
      \<longleftrightarrow> length x \<le> MAX_CHUNK_BYTES \<and> b = wire_bytes x" (is "?l \<longleftrightarrow> ?r")
  proof
    assume ?l
    then obtain n where "b = put_u32 n @ x" "length x \<le> MAX_CHUNK_BYTES" "n = of_nat (length x)"
      by fastforce
    then show ?r by (simp add: wire_bytes_def)
  next
    assume ?r
    then show ?l
      by (intro exI [of _ "of_nat (length x)"] exI [of _ "put_u32 (of_nat (length x))"] exI [of _ x])
        (auto simp: wire_bytes_def unat_chunk_len)
  qed
qed

lemma as_bytes_eq: "bs = as_bytes x \<longleftrightarrow> x = from_bytes bs"
  by (metis as_from_bytes from_as_bytes)

lemma reads_string: "reads cur_string (\<lambda>x b. readable_string x \<and> b = wire_string x)"
proof -
  have *: "reads (\<lambda>c. if is_utf8 (from_bytes bs) then Inr (from_bytes bs, c) else Inl NotUtf8)
      (\<lambda>x b. is_utf8 x \<and> bs = as_bytes x \<and> b = [])" for bs
    unfolding as_bytes_eq reads_def by auto
  show ?thesis unfolding cur_string_def
    by (rule reads_cong [OF reads_then_get [OF reads_bytes *]]) (auto simp: readable_string_def wire_string_def)
qed

lemma reads_each:
  "reads (cur_each n sofar) (\<lambda>hs b. length hs = n \<and> b = concat (map wire_header hs)
     \<and> list_all (\<lambda>(name, val). readable_string name \<and> readable_string val) hs
     \<and> (hs = [] \<or> sofar + header_size hs \<le> MAX_HEADER_BYTES))"
proof (induction n arbitrary: sofar)
  case 0
  show ?case unfolding cur_each.simps by (rule reads_cong [OF reads_got]) auto
next
  case (Suc n)
  show ?case unfolding cur_each.simps Let_def
    by (rule reads_cong [OF reads_then_get [OF reads_string reads_then_get [OF reads_string
            reads_guard [OF reads_then_get [OF Suc reads_got]]]]])
      (auto simp: length_Suc_conv wire_header_def header_size_def)
qed

lemma reads_headers: "reads cur_headers (\<lambda>hs b. readable_headers hs \<and> b = wire_headers hs)"
  unfolding cur_headers_def
proof (rule reads_cong [OF reads_then_get [OF reads_u16 reads_each]])
  fix hs :: header_list and b
  show "(\<exists>c b1 b2. b = b1 @ b2 \<and> b1 = put_u16 c \<and> length hs = unat c \<and> b2 = concat (map wire_header hs)
      \<and> list_all (\<lambda>(name, val). readable_string name \<and> readable_string val) hs
      \<and> (hs = [] \<or> 0 + header_size hs \<le> MAX_HEADER_BYTES))
    \<longleftrightarrow> readable_headers hs \<and> b = wire_headers hs" (is "?l \<longleftrightarrow> ?r")
  proof
    assume ?l
    then obtain c :: u16 where c: "length hs = unat c" "b = put_u16 c @ concat (map wire_header hs)"
      "list_all (\<lambda>(name, val). readable_string name \<and> readable_string val) hs"
      "hs = [] \<or> header_size hs \<le> MAX_HEADER_BYTES"
      by auto
    have "c = of_nat (length hs)" "length hs < 2 ^ 16" unfolding c(1) using unat_lt [of c] by simp_all
    with c show ?r by (auto simp: readable_headers_def wire_headers_def header_size_def)
  next
    assume ?r
    then show ?l
      by (intro exI [of _ "of_nat (length hs)"] exI [of _ "put_u16 (of_nat (length hs))"]
          exI [of _ "concat (map wire_header hs)"])
        (auto simp: readable_headers_def wire_headers_def unat_of_nat)
  qed
qed

section \<open>The format\<close>

fun wire_frame :: "ws_frame \<Rightarrow> byte list" where
  "wire_frame (WsText t) = 1 # wire_string t"
| "wire_frame (WsBinary bs) = 2 # wire_bytes bs"
| "wire_frame WsFrameClose = [3]"

fun wire_body :: "proxy_message \<Rightarrow> byte list" where
  "wire_body (RequestStart h) = 1 # put_u64 (rq_id h) @ wire_string (rq_method h)
     @ wire_string (rq_target h) @ wire_headers (rq_headers h) @ wire_bytes (rq_body h)"
| "wire_body (RequestBody c) = 2 # wire_bytes c"
| "wire_body RequestEnd = [3]"
| "wire_body (ResponseStart h) = 4 # put_u64 (rs_id h) @ put_u16 (rs_status h) @ wire_headers (rs_headers h)"
| "wire_body (ResponseBody c) = 5 # wire_bytes c"
| "wire_body ResponseEnd = [6]"
| "wire_body (Failure f) = 7 # put_u64 (fl_id f) @ wire_string (fl_reason f)"
| "wire_body (WsOpen w) = 8 # put_u64 (wo_id w) @ wire_string (wo_target w) @ wire_headers (wo_headers w)"
| "wire_body (WsOpened w) = 9 # put_u64 (wd_id w) @ put_u16 (wd_status w) @ wire_headers (wd_headers w)"
| "wire_body (WsData w) = 10 # put_u64 (wa_id w) @ wire_frame (wa_frame w)"
| "wire_body WsClose = [11]"

definition px_wire :: "proxy_message \<Rightarrow> byte list" where
  "px_wire m = PX_MAGIC @ PX_VERSION # wire_body m"

fun strings_of :: "proxy_message \<Rightarrow> string list" where
  "strings_of (RequestStart h) = [rq_method h, rq_target h]"
| "strings_of (Failure f) = [fl_reason f]"
| "strings_of (WsOpen w) = [wo_target w]"
| "strings_of (WsData w) = (case wa_frame w of WsText t \<Rightarrow> [t] | _ \<Rightarrow> [])"
| "strings_of _ = []"

fun bodies_of :: "proxy_message \<Rightarrow> byte list list" where
  "bodies_of (RequestStart h) = [rq_body h]"
| "bodies_of (RequestBody c) = [c]"
| "bodies_of (ResponseBody c) = [c]"
| "bodies_of (WsData w) = (case wa_frame w of WsBinary bs \<Rightarrow> [bs] | _ \<Rightarrow> [])"
| "bodies_of _ = []"

fun headers_of :: "proxy_message \<Rightarrow> header_list" where
  "headers_of (RequestStart h) = rq_headers h"
| "headers_of (ResponseStart h) = rs_headers h"
| "headers_of (WsOpen w) = wo_headers w"
| "headers_of (WsOpened w) = wd_headers w"
| "headers_of _ = []"

text \<open>The messages the reader gives.\<close>

definition readable :: "proxy_message \<Rightarrow> bool" where
  "readable m \<longleftrightarrow> list_all readable_string (strings_of m)
     \<and> list_all (\<lambda>b. length b \<le> MAX_CHUNK_BYTES) (bodies_of m) \<and> readable_headers (headers_of m)"

lemma readable_headers_Nil [simp]: "readable_headers []"
  by (simp add: readable_headers_def header_size_def)

lemma reads_frame:
  "reads get_frame (\<lambda>fr b. b = wire_frame fr
     \<and> (case fr of WsText t \<Rightarrow> readable_string t | WsBinary bs \<Rightarrow> length bs \<le> MAX_CHUNK_BYTES | _ \<Rightarrow> True))"
  (is "reads _ ?W")
proof -
  have branch: "reads (if kind = 1 then then_get cur_string (\<lambda>t. got (WsText t))
     else if kind = 2 then then_get cur_bytes (\<lambda>bs. got (WsBinary bs))
     else if kind = 3 then got WsFrameClose
     else (\<lambda>c. Inl (UnknownFrameKind kind))) (\<lambda>fr b. ?W fr (kind # b))" for kind
  proof -
    consider "kind = 1" | "kind = 2" | "kind = 3" | "kind \<noteq> 1 \<and> kind \<noteq> 2 \<and> kind \<noteq> 3" by blast
    then show ?thesis
    proof cases
      case 1
      show ?thesis unfolding 1 if_P [OF refl]
        by (rule reads_cong [OF reads_then_get [OF reads_string reads_got]]) (auto split: ws_frame.splits)
    next
      case 2
      have "reads (then_get cur_bytes (\<lambda>bs. got (WsBinary bs))) (\<lambda>fr b. ?W fr (2 # b))"
        by (rule reads_cong [OF reads_then_get [OF reads_bytes reads_got]]) (auto split: ws_frame.splits)
      then show ?thesis using 2 by simp
    next
      case 3
      have "reads (got WsFrameClose) (\<lambda>fr b. ?W fr (3 # b))"
        by (rule reads_cong [OF reads_got]) (auto split: ws_frame.splits)
      then show ?thesis using 3 by simp
    next
      case 4
      have "reads (\<lambda>c. Inl (UnknownFrameKind kind)) (\<lambda>fr b. ?W fr (kind # b))"
        by (rule reads_cong [OF reads_fail]) (use 4 in \<open>auto split: ws_frame.splits\<close>)
      then show ?thesis using 4 by simp
    qed
  qed
  show ?thesis unfolding get_frame_def
    apply (rule reads_cong [OF reads_then_get [OF reads_u8 branch]])
    subgoal for fr b by (cases fr) auto
    done
qed

definition tagged :: "u8 \<Rightarrow> proxy_message \<Rightarrow> byte list \<Rightarrow> bool" where
  "tagged k m b \<longleftrightarrow> readable m \<and> k # b = wire_body m"

lemma tagged_iff:
  "tagged 1 m b \<longleftrightarrow> (\<exists>h. m = RequestStart h \<and> readable_string (rq_method h) \<and> readable_string (rq_target h)
     \<and> readable_headers (rq_headers h) \<and> length (rq_body h) \<le> MAX_CHUNK_BYTES
     \<and> b = put_u64 (rq_id h) @ wire_string (rq_method h) @ wire_string (rq_target h)
           @ wire_headers (rq_headers h) @ wire_bytes (rq_body h))"
  "tagged 2 m b \<longleftrightarrow> (\<exists>c. m = RequestBody c \<and> length c \<le> MAX_CHUNK_BYTES \<and> b = wire_bytes c)"
  "tagged 3 m b \<longleftrightarrow> m = RequestEnd \<and> b = []"
  "tagged 4 m b \<longleftrightarrow> (\<exists>h. m = ResponseStart h \<and> readable_headers (rs_headers h)
     \<and> b = put_u64 (rs_id h) @ put_u16 (rs_status h) @ wire_headers (rs_headers h))"
  "tagged 5 m b \<longleftrightarrow> (\<exists>c. m = ResponseBody c \<and> length c \<le> MAX_CHUNK_BYTES \<and> b = wire_bytes c)"
  "tagged 6 m b \<longleftrightarrow> m = ResponseEnd \<and> b = []"
  "tagged 7 m b \<longleftrightarrow> (\<exists>f. m = Failure f \<and> readable_string (fl_reason f)
     \<and> b = put_u64 (fl_id f) @ wire_string (fl_reason f))"
  "tagged 8 m b \<longleftrightarrow> (\<exists>w. m = WsOpen w \<and> readable_string (wo_target w) \<and> readable_headers (wo_headers w)
     \<and> b = put_u64 (wo_id w) @ wire_string (wo_target w) @ wire_headers (wo_headers w))"
  "tagged 9 m b \<longleftrightarrow> (\<exists>w. m = WsOpened w \<and> readable_headers (wd_headers w)
     \<and> b = put_u64 (wd_id w) @ put_u16 (wd_status w) @ wire_headers (wd_headers w))"
  "tagged 10 m b \<longleftrightarrow> (\<exists>d. m = WsData d \<and> b = put_u64 (wa_id d) @ wire_frame (wa_frame d)
     \<and> (case wa_frame d of WsText t \<Rightarrow> readable_string t | WsBinary bs \<Rightarrow> length bs \<le> MAX_CHUNK_BYTES | _ \<Rightarrow> True))"
  "tagged 11 m b \<longleftrightarrow> m = WsClose \<and> b = []"
  by (cases m; auto simp: tagged_def readable_def split: ws_frame.splits)+

lemmas ex_records = request_head.splits(3) response_head.splits(3) failure.splits(3) ws_open.splits(3)
  ws_opened.splits(3) ws_data.splits(3)

lemmas reads_end = reads_then_get [OF _ reads_got]

lemma reads_tagged:
  "reads (then_get get_request_head (\<lambda>h. got (RequestStart h))) (tagged 1)"
  "reads (then_get cur_bytes (\<lambda>bs. got (RequestBody bs))) (tagged 2)"
  "reads (got RequestEnd) (tagged 3)"
  "reads (then_get cur_u64 (\<lambda>i. then_get cur_u16 (\<lambda>status. then_get cur_headers (\<lambda>headers.
     got (ResponseStart \<lparr>rs_id = i, rs_status = status, rs_headers = headers\<rparr>))))) (tagged 4)"
  "reads (then_get cur_bytes (\<lambda>bs. got (ResponseBody bs))) (tagged 5)"
  "reads (got ResponseEnd) (tagged 6)"
  "reads (then_get cur_u64 (\<lambda>i. then_get cur_string (\<lambda>reason.
     got (Failure \<lparr>fl_id = i, fl_reason = reason\<rparr>)))) (tagged 7)"
  "reads (then_get cur_u64 (\<lambda>i. then_get cur_string (\<lambda>target. then_get cur_headers (\<lambda>headers.
     got (WsOpen \<lparr>wo_id = i, wo_target = target, wo_headers = headers\<rparr>))))) (tagged 8)"
  "reads (then_get cur_u64 (\<lambda>i. then_get cur_u16 (\<lambda>status. then_get cur_headers (\<lambda>headers.
     got (WsOpened \<lparr>wd_id = i, wd_status = status, wd_headers = headers\<rparr>))))) (tagged 9)"
  "reads (then_get cur_u64 (\<lambda>i. then_get get_frame (\<lambda>frame.
     got (WsData \<lparr>wa_id = i, wa_frame = frame\<rparr>)))) (tagged 10)"
  "reads (got WsClose) (tagged 11)"
  unfolding get_request_head_def
  by (rule reads_cong [OF reads_got] reads_cong [OF reads_end [OF reads_bytes]]
      reads_cong [OF reads_end [OF reads_then_get [OF reads_u64 reads_then_get [OF reads_string
        reads_then_get [OF reads_string reads_then_get [OF reads_headers reads_end [OF reads_bytes]]]]]]]
      reads_cong [OF reads_then_get [OF reads_u64 reads_then_get [OF reads_u16 reads_end [OF reads_headers]]]]
      reads_cong [OF reads_then_get [OF reads_u64 reads_end [OF reads_string]]]
      reads_cong [OF reads_then_get [OF reads_u64 reads_then_get [OF reads_string reads_end [OF reads_headers]]]]
      reads_cong [OF reads_then_get [OF reads_u64 reads_end [OF reads_frame]]],
      fastforce simp: tagged_iff ex_records)+

lemma wire_body_tag: "wire_body m = k # b \<Longrightarrow> k \<in> {1, 2, 3, 4, 5, 6, 7, 8, 9, 10, 11}"
  by (cases m) auto

lemma reads_message: "reads (get_message k) (tagged k)"
proof (cases "k \<in> {1, 2, 3, 4, 5, 6, 7, 8, 9, 10, 11}")
  case True
  then show ?thesis unfolding get_message_def by (auto simp: reads_tagged)
next
  case False
  then have "\<not> tagged k m b" for m b unfolding tagged_def using wire_body_tag by metis
  moreover have "get_message k = (\<lambda>c. Inl (UnknownType k))" using False by (simp add: get_message_def)
  ultimately show ?thesis by (simp add: reads_def)
qed

lemma reads_px: "reads px_read (\<lambda>m b. readable m \<and> b = px_wire m)"
proof -
  have 2: "reads (if version \<noteq> PX_VERSION then (\<lambda>c. Inl (PxVersion version PX_VERSION))
      else then_get cur_u8 get_message)
    (\<lambda>m b. version = PX_VERSION \<and> readable m \<and> b = wire_body m)" for version
    apply (cases "version = PX_VERSION")
    subgoal
      apply (simp only: not_True_eq_False if_False simp_thms)
      apply (rule reads_cong [OF reads_then_get [OF reads_u8 reads_message]])
      subgoal for m b by (cases m) (auto simp: tagged_def)
      done
    subgoal by (simp add: reads_fail)
    done
  have 1: "reads (if magic \<noteq> PX_MAGIC then (\<lambda>c. Inl PxBadMagic)
      else then_get cur_u8 (\<lambda>version.
         if version \<noteq> PX_VERSION then (\<lambda>c. Inl (PxVersion version PX_VERSION))
         else then_get cur_u8 get_message))
    (\<lambda>m b. magic = PX_MAGIC \<and> readable m \<and> b = PX_VERSION # wire_body m)" for magic
    apply (cases "magic = PX_MAGIC")
    subgoal
      apply (simp only: not_True_eq_False if_False simp_thms)
      apply (rule reads_cong [OF reads_then_get [OF reads_u8 2]])
      apply auto
      done
    subgoal by (simp add: reads_fail)
    done
  have "length PX_MAGIC = 2" by (simp add: PX_MAGIC_def)
  then show ?thesis unfolding px_read_def
    by (intro reads_cong [OF reads_then_get [OF reads_take 1]]) (auto simp: px_wire_def)
qed

lemma px_decode_iff:
  "length bs < 2 ^ 64 \<Longrightarrow> px_decode bs = Inr m \<longleftrightarrow> readable m \<and> (\<exists>rest. bs = px_wire m @ rest)"
  using readsD [OF reads_px, of "[]" bs m]
  by (auto simp: px_decode_def and_then_Inr_iff cur_new_def cursor_at_def)

section \<open>What writers append\<close>

text \<open>A writer appends its wire form when its limits hold; else it fails with part of it written.\<close>

definition writes :: "writer \<Rightarrow> byte list \<Rightarrow> bool \<Rightarrow> bool" where
  "writes f w ok \<longleftrightarrow>
     (\<forall>out. (ok \<longrightarrow> f out = (Inr (), out @ w)) \<and> (\<not> ok \<longrightarrow> (\<exists>e part. f out = (Inl e, out @ part))))"

lemma writes_cong: "writes f w ok \<Longrightarrow> ok = ok' \<Longrightarrow> (ok \<Longrightarrow> w = w') \<Longrightarrow> writes f w' ok'"
  by (auto simp: writes_def)

lemma writes_raw: "writes (put_raw w) w True"
  by (simp add: writes_def put_raw_def)

lemma writes_then:
  assumes f: "writes f w ok" and g: "writes g v ok'"
  shows "writes (then_put f g) (w @ v) (ok \<and> ok')"
  unfolding writes_def
proof (intro allI conjI impI)
  fix out
  show "then_put f g out = (Inr (), out @ w @ v)" if "ok \<and> ok'"
    using that f g by (simp add: writes_def then_put_def)
  show "\<exists>e part. then_put f g out = (Inl e, out @ part)" if "\<not> (ok \<and> ok')"
  proof (cases ok)
    case True
    with that g obtain e part where "g (out @ w) = (Inl e, (out @ w) @ part)"
      unfolding writes_def by blast
    then show ?thesis using True f by (simp add: writes_def then_put_def)
  next
    case False
    with f obtain e part where "f out = (Inl e, out @ part)" unfolding writes_def by blast
    then show ?thesis by (simp add: then_put_def)
  qed
qed

lemma writes_bytes: "writes (put_bytes bs) (wire_bytes bs) (length bs \<le> MAX_CHUNK_BYTES)"
  by (auto simp: writes_def put_bytes_def wire_bytes_def MAX_CHUNK_BYTES_eq)

lemma writes_string: "writes (put_bytes (as_bytes s)) (wire_string s) (length s \<le> MAX_CHUNK_BYTES)"
  using writes_bytes [of "as_bytes s"] by (simp add: wire_string_def)

lemma writes_each:
  "writes (put_each hs) (concat (map wire_header hs))
     (list_all (\<lambda>(name, val). length name \<le> MAX_CHUNK_BYTES \<and> length val \<le> MAX_CHUNK_BYTES) hs)"
proof (induction hs rule: put_each.induct)
  case 1
  show ?case using writes_raw [of "[]"] by simp
next
  case (2 name val hs)
  show ?case unfolding put_each.simps
    by (rule writes_cong [OF writes_then [OF writes_string writes_then [OF writes_string 2]]])
      (auto simp: wire_header_def)
qed

lemma header_count_fits: "header_total hs \<le> MAX_HEADER_BYTES \<Longrightarrow> length hs < 2 ^ 16"
proof -
  have "8 * length hs \<le> header_total hs" by (induction hs) (auto simp: header_total_def)
  then show "header_total hs \<le> MAX_HEADER_BYTES \<Longrightarrow> length hs < 2 ^ 16" by (simp add: MAX_HEADER_BYTES_eq)
qed

lemma header_size_le_total: "header_size hs \<le> header_total hs"
  by (induction hs) (auto simp: header_size_def header_total_def)

definition writable_headers :: "header_list \<Rightarrow> bool" where
  "writable_headers hs \<longleftrightarrow> header_total hs \<le> MAX_HEADER_BYTES
     \<and> list_all (\<lambda>(name, val). length name \<le> MAX_CHUNK_BYTES \<and> length val \<le> MAX_CHUNK_BYTES) hs"

lemma writes_headers: "writes (put_headers hs) (wire_headers hs) (writable_headers hs)"
proof (cases "header_total hs \<le> MAX_HEADER_BYTES")
  case True
  then have "put_headers hs = then_put (put_raw (put_u16 (of_nat (length hs)))) (put_each hs)"
    using header_count_fits [of hs] by (simp add: put_headers_def fun_eq_iff)
  then show ?thesis using True
    by (simp only:) (rule writes_cong [OF writes_then [OF writes_raw writes_each]];
      simp add: writable_headers_def wire_headers_def)
next
  case False
  then have "\<exists>e part. put_headers hs out = (Inl e, out @ part)" for out
    by (intro exI [of _ "HeadersTooLarge (header_total hs)"] exI [of _ "[]"]) (simp add: put_headers_def)
  with False show ?thesis by (simp add: writes_def writable_headers_def)
qed

text \<open>What the type \<open>String\<close> of Rust ensures of a message.\<close>

definition utf8_message :: "proxy_message \<Rightarrow> bool" where
  "utf8_message m \<longleftrightarrow> list_all is_utf8 (strings_of m)
     \<and> list_all (\<lambda>(name, val). is_utf8 name \<and> is_utf8 val) (headers_of m)"

definition writable :: "proxy_message \<Rightarrow> bool" where
  "writable m \<longleftrightarrow> list_all (\<lambda>s. length s \<le> MAX_CHUNK_BYTES) (strings_of m)
     \<and> list_all (\<lambda>b. length b \<le> MAX_CHUNK_BYTES) (bodies_of m) \<and> writable_headers (headers_of m)"

lemma writable_headers_Nil [simp]: "writable_headers []"
  by (simp add: writable_headers_def header_total_def)

lemma writes_frame:
  "writes (put_frame fr) (wire_frame fr)
     (case fr of WsText t \<Rightarrow> length t \<le> MAX_CHUNK_BYTES | WsBinary bs \<Rightarrow> length bs \<le> MAX_CHUNK_BYTES | _ \<Rightarrow> True)"
proof (cases fr)
  case (WsText t)
  show ?thesis unfolding WsText put_frame.simps
    by (rule writes_cong [OF writes_then [OF writes_raw writes_string]]) simp_all
next
  case (WsBinary bs)
  show ?thesis unfolding WsBinary put_frame.simps
    by (rule writes_cong [OF writes_then [OF writes_raw writes_bytes]]) simp_all
next
  case WsFrameClose
  show ?thesis unfolding WsFrameClose put_frame.simps by (rule writes_cong [OF writes_raw]) simp_all
qed

lemma writes_message: "writes (put_message m) (wire_body m) (writable m)"
proof (cases m)
  case (RequestStart h)
  show ?thesis unfolding RequestStart put_message.simps
    by (rule writes_cong [OF writes_then [OF writes_raw writes_then [OF writes_string
          writes_then [OF writes_string writes_then [OF writes_headers writes_bytes]]]]])
      (auto simp: writable_def)
next
  case (ResponseStart h)
  show ?thesis unfolding ResponseStart put_message.simps
    by (rule writes_cong [OF writes_then [OF writes_raw writes_headers]]) (auto simp: writable_def)
next
  case (Failure f)
  show ?thesis unfolding Failure put_message.simps
    by (rule writes_cong [OF writes_then [OF writes_raw writes_string]]) (auto simp: writable_def)
next
  case (WsOpen w)
  show ?thesis unfolding WsOpen put_message.simps
    by (rule writes_cong [OF writes_then [OF writes_raw writes_then [OF writes_string writes_headers]]])
      (auto simp: writable_def)
next
  case (WsOpened w)
  show ?thesis unfolding WsOpened put_message.simps
    by (rule writes_cong [OF writes_then [OF writes_raw writes_headers]]) (auto simp: writable_def)
next
  case (WsData d)
  show ?thesis unfolding WsData put_message.simps
    by (rule writes_cong [OF writes_then [OF writes_raw writes_frame]])
      (auto simp: writable_def split: ws_frame.splits)
qed (simp_all only: put_message.simps, (rule writes_cong [OF writes_raw]
      writes_cong [OF writes_then [OF writes_raw writes_bytes]], auto simp: writable_def)+)

lemma writes_px: "writes (px_encode m) (px_wire m) (writable m)"
  unfolding px_encode_def
  by (rule writes_cong [OF writes_then [OF writes_raw writes_message]]) (auto simp: px_wire_def)

lemma px_encode_Inr_iff: "px_encode m out = (Inr (), out') \<longleftrightarrow> writable m \<and> out' = out @ px_wire m"
proof (cases "writable m")
  case True
  then have "px_encode m out = (Inr (), out @ px_wire m)" using writes_px [of m] by (simp add: writes_def)
  with True show ?thesis by auto
next
  case False
  then obtain e part where "px_encode m out = (Inl e, out @ part)"
    using writes_px [of m] unfolding writes_def by blast
  with False show ?thesis by simp
qed

lemma writable_headers_readable:
  "writable_headers hs \<Longrightarrow> list_all (\<lambda>(name, val). is_utf8 name \<and> is_utf8 val) hs \<Longrightarrow> readable_headers hs"
  using header_size_le_total [of hs] header_count_fits [of hs]
  by (auto simp: writable_headers_def readable_headers_def readable_string_def list_all_iff)

lemma writable_readable: "writable m \<Longrightarrow> utf8_message m \<Longrightarrow> readable m"
  by (auto simp: writable_def utf8_message_def readable_def readable_string_def list_all_iff
      intro!: writable_headers_readable)

lemma readable_utf8: "readable m \<Longrightarrow> utf8_message m"
  by (auto simp: utf8_message_def readable_def readable_headers_def readable_string_def list_all_iff)

lemma length_wire_headers: "readable_headers hs \<Longrightarrow> length (wire_headers hs) < 2 ^ 20"
proof -
  assume r: "readable_headers hs"
  have "length (concat (map wire_header hs)) = 8 * length hs + header_size hs"
    by (induction hs) (auto simp: header_size_def wire_header_def wire_string_def)
  with r show ?thesis by (simp add: readable_headers_def wire_headers_def MAX_HEADER_BYTES_eq)
qed

lemma length_px_wire: "readable m \<Longrightarrow> length (px_wire m) < 2 ^ 21"
  using length_wire_headers [of "headers_of m"]
  by (cases m)
    (auto simp: readable_def readable_string_def px_wire_def wire_string_def PX_MAGIC_def MAX_CHUNK_BYTES_eq
      split: ws_frame.splits)

interpretation proxy: buffer_codec px_wire px_decode readable
proof unfold_locales
  fix m assume "readable m"
  from length_px_wire [OF this] show "length (px_wire m) < 2 ^ 63" by simp
qed (rule px_decode_iff)

section \<open>Properties\<close>

text \<open>
  C29. What the daemon or a client encodes, the other side decodes to the same message, also when more
  bytes follow in the buffer; and no truncation of it is taken for a message.
\<close>

theorem proxy_round_trip:
  assumes "utf8_message m" and "px_encode m out = (Inr (), out')"
  shows "\<exists>w. out' = out @ w
    \<and> (\<forall>rest. length rest < 2 ^ 63 \<longrightarrow> px_decode (w @ rest) = Inr m)
    \<and> (\<forall>n < length w. \<exists>e. px_decode (take n w) = Inl e)"
proof -
  have m: "readable m" "out' = out @ px_wire m"
    using assms by (auto simp: px_encode_Inr_iff writable_readable)
  show ?thesis
    using proxy.rd_wr [OF m(1)] proxy.truncated [OF m(1)] m(2) by blast
qed

text \<open>
  Whatever bytes arrive, a message the decoder accepts is well formed (its strings are UTF-8) and
  its wire form is a prefix of them; so no two messages share their bytes. It can be encoded again,
  to the same bytes, except when its header block counts more than the limit the encoder applies:
  the encoder adds eight bytes for each header, the decoder does not.
\<close>

theorem proxy_decode_sound:
  assumes "length bs < 2 ^ 64" and "px_decode bs = Inr m"
  shows "utf8_message m \<and> (\<exists>rest. bs = px_wire m @ rest)
    \<and> (header_total (headers_of m) \<le> MAX_HEADER_BYTES \<longrightarrow> px_encode m [] = (Inr (), px_wire m))
    \<and> (MAX_HEADER_BYTES < header_total (headers_of m) \<longrightarrow> (\<exists>e part. px_encode m [] = (Inl e, part)))
    \<and> header_size (headers_of m) \<le> MAX_HEADER_BYTES"
proof -
  have m: "readable m" "\<exists>rest. bs = px_wire m @ rest" using px_decode_iff assms by blast+
  then have s: "header_size (headers_of m) \<le> MAX_HEADER_BYTES"
    by (simp add: readable_def readable_headers_def)
  have w: "writable m \<longleftrightarrow> header_total (headers_of m) \<le> MAX_HEADER_BYTES"
    using m(1) by (auto simp: writable_def writable_headers_def readable_def readable_headers_def
        readable_string_def list_all_iff)
  have "\<exists>e part. px_encode m [] = (Inl e, part)" if "\<not> writable m"
    using writes_px [of m] that unfolding writes_def by blast
  moreover have "px_encode m [] = (Inr (), px_wire m)" if "writable m"
    using that by (simp add: px_encode_Inr_iff)
  ultimately show ?thesis using w m readable_utf8 s by (metis leD)
qed

theorem proxy_round_trip_witness:
  "px_decode (px_wire (ResponseBody [1, 2, 3]) @ [9, 9]) = Inr (ResponseBody [1, 2, 3])"
proof -
  have 1: "utf8_message (ResponseBody [1, 2, 3])" by (simp add: utf8_message_def)
  have 2: "px_encode (ResponseBody [1, 2, 3]) [] = (Inr (), px_wire (ResponseBody [1, 2, 3]))"
    by (simp add: px_encode_Inr_iff writable_def MAX_CHUNK_BYTES_eq)
  from proxy_round_trip [OF 1 2] show ?thesis by simp
qed

definition many_headers :: proxy_message where
  "many_headers = ResponseStart \<lparr>rs_id = 1, rs_status = 200, rs_headers = replicate 8193 ([], [])\<rparr>"

lemma many_headers_readable: "readable many_headers"
  by (simp add: many_headers_def readable_def readable_headers_def readable_string_def header_size_def
      is_utf8_ascii list_all_iff MAX_HEADER_BYTES_eq sum_list_replicate)

theorem proxy_decode_sound_witness:
  "\<exists>m e part. px_decode (px_wire m) = Inr m \<and> px_encode m [] = (Inl e, part)"
proof -
  have "px_decode (px_wire many_headers) = Inr many_headers"
    using proxy.rd_wr [OF many_headers_readable, of "[]"] by simp
  moreover have "length (px_wire many_headers) < 2 ^ 64"
    using length_px_wire [OF many_headers_readable] by simp
  moreover have "MAX_HEADER_BYTES < header_total (headers_of many_headers)"
    by (simp add: many_headers_def header_total_def sum_list_replicate MAX_HEADER_BYTES_eq)
  ultimately show ?thesis using proxy_decode_sound [of "px_wire many_headers" many_headers] by blast
qed

section \<open>Bodies in chunks\<close>

lemma concat_chunks: "0 < n \<Longrightarrow> concat (chunks n bs) = bs"
  by (induction n bs rule: chunks.induct) (subst chunks.simps, auto)

lemma chunk_sizes: "c \<in> set (chunks n bs) \<Longrightarrow> c \<noteq> [] \<and> length c \<le> n"
proof (induction n bs rule: chunks.induct)
  case (1 n bs)
  then show ?case by (subst (asm) (2) chunks.simps) (auto split: if_splits)
qed

end
