(* ===== verification/Socket.thy ===== *)
theory Socket
  imports Text
begin

text \<open>
  A WebSocket as the code sees it: the messages it will yield, in order (the end of the list is the
  end of the stream), what has been written to it, and the outcomes of the writes to come (\<open>None\<close>, or
  nothing at all, is success). A tick of an interval the reader also waits for stands in the list
  where it fires during a wait.
\<close>

datatype ws_event =
    GotText string
  | GotBinary "byte list"
  | GotPing
  | GotPong
  | GotClose
  | GotFrame
  | GotError string
  | Tick

datatype ws_sent = SentText string | SentBinary "byte list" | SentPing | SentClose

record socket =
  so_in :: "ws_event list"
  so_out :: "ws_sent list"
  so_faults :: "string option list"

definition sock_write :: "ws_sent \<Rightarrow> socket \<Rightarrow> (string + unit) \<times> socket" where
  "sock_write m so =
     (case so_faults so of
        Some e # fs \<Rightarrow> (Inl e, so\<lparr>so_faults := fs\<rparr>)
      | None # fs \<Rightarrow> (Inr (), so\<lparr>so_faults := fs, so_out := so_out so @ [m]\<rparr>)
      | [] \<Rightarrow> (Inr (), so\<lparr>so_out := so_out so @ [m]\<rparr>))"

end
