(* ===== verification/Dsh_Client.thy ===== *)
theory Dsh_Client
  imports Proxy_Message Socket
begin

text \<open>
  \<open>dsh/client.rs\<close> of the daemon: the HTTP client for one DSH on loopback. It holds the authority it was
  made for and the session cookie, builds each request itself, and hands it to the HTTP library. What
  the network answers is an argument of each operation. The headers of a response are pairs of a name
  and the bytes of its value; the header list of a request is in the order the values were appended.
\<close>

section \<open>The HTTP library\<close>

record http_request =
  hq_method :: string
  hq_uri :: string
  hq_headers :: header_list
  hq_body :: "byte list"

record http_response =
  hr_status :: nat
  hr_headers :: "(string \<times> byte list) list"
  hr_body :: "byte list"

text \<open>
  \<open>Method::from_bytes\<close>, the parse of a \<open>Uri\<close>, that of a header name and value, \<open>HeaderValue::to_str\<close>,
  \<open>StatusCode::is_redirection\<close>, the authority of a parsed \<open>Uri\<close>, and the \<open>Debug\<close> form of a string.
\<close>

record http_lib =
  hl_method :: "string \<Rightarrow> string + string"
  hl_uri :: "string \<Rightarrow> string + unit"
  hl_header :: "string \<Rightarrow> string \<Rightarrow> string + string \<times> string"
  hl_to_str :: "byte list \<Rightarrow> string option"
  hl_is_redirection :: "nat \<Rightarrow> bool"
  hl_authority :: "string \<Rightarrow> string option"
  hl_debug :: "string \<Rightarrow> string"

datatype exchange =
    TimedOut
  | NoAnswer string
  | BodyLost http_response string
  | HttpAnswer http_response

text \<open>A \<open>request::Builder\<close> keeps the first error and gives it when the body is set.\<close>

type_synonym builder = "string + http_request"

definition builder_new :: "http_lib \<Rightarrow> string \<Rightarrow> string \<Rightarrow> builder" where
  "builder_new H method target =
     and_then (hl_uri H target) (\<lambda>_.
       Inr \<lparr>hq_method = method, hq_uri = target, hq_headers = [], hq_body = []\<rparr>)"

definition builder_header :: "http_lib \<Rightarrow> string \<Rightarrow> string \<Rightarrow> builder \<Rightarrow> builder" where
  "builder_header H name val b =
     and_then b (\<lambda>r. and_then (hl_header H name val) (\<lambda>h. Inr (r\<lparr>hq_headers := hq_headers r @ [h]\<rparr>)))"

definition builder_body :: "byte list \<Rightarrow> builder \<Rightarrow> builder" where
  "builder_body bs b = and_then b (\<lambda>r. Inr (r\<lparr>hq_body := bs\<rparr>))"

section \<open>The client\<close>

datatype dsh_client_error =
    DshTransport string
  | DshUnexpected (du_status: nat) (du_detail: string)
  | DshNoCookie string

record dsh_client =
  dc_base_url :: string
  dc_authority :: string
  dc_cookie :: "string option"

definition is_hop_by_hop :: "string \<Rightarrow> bool" where
  "is_hop_by_hop name \<longleftrightarrow> to_ascii_lowercase name \<in> set
     [''connection'', ''keep-alive'', ''proxy-authenticate'', ''proxy-authorization'', ''te'', ''trailer'',
      ''transfer-encoding'', ''upgrade'']"

definition is_authority_owned :: "string \<Rightarrow> bool" where
  "is_authority_owned name \<longleftrightarrow> to_ascii_lowercase name \<in> set [''host'', ''cookie'', ''origin'', ''referer'']"

definition is_body_owned :: "string \<Rightarrow> bool" where
  "is_body_owned name \<longleftrightarrow> to_ascii_lowercase name = ''content-length''"

definition client_new :: "http_lib \<Rightarrow> string \<Rightarrow> dsh_client_error + dsh_client" where
  "client_new H base_url =
     (case strip_prefix ''http://'' base_url of
        Some rest \<Rightarrow>
          if rest \<noteq> [] \<and> CHR ''/'' \<notin> set rest
          then Inr \<lparr>dc_base_url = base_url, dc_authority = rest, dc_cookie = None\<rparr>
          else Inl (DshUnexpected 400 (''base URL must be http://<authority>, got '' @ hl_debug H base_url))
      | None \<Rightarrow> Inl (DshUnexpected 400 (''base URL must be http://<authority>, got '' @ hl_debug H base_url)))"

definition is_authenticated :: "dsh_client \<Rightarrow> bool" where
  "is_authenticated c \<longleftrightarrow> dc_cookie c \<noteq> None"

text \<open>\<open>finish\<close>, up to the request, and from the answer on.\<close>

definition with_cookie :: "http_lib \<Rightarrow> dsh_client \<Rightarrow> builder \<Rightarrow> builder" where
  "with_cookie H c b = (case dc_cookie c of Some k \<Rightarrow> builder_header H ''cookie'' k b | None \<Rightarrow> b)"

definition finish_request :: "http_lib \<Rightarrow> dsh_client \<Rightarrow> byte list option \<Rightarrow> builder
    \<Rightarrow> dsh_client_error + http_request" where
  "finish_request H c body b =
     (let b = with_cookie H c (builder_header H ''host'' (dc_authority c) b) in
      map_err DshTransport
        (case body of
           Some payload \<Rightarrow>
             builder_body payload (builder_header H ''content-length'' (decimal (length payload)) b)
         | None \<Rightarrow> builder_body [] b))"

fun exchange_result :: "exchange \<Rightarrow> dsh_client_error + http_response" where
  "exchange_result TimedOut = Inl (DshTransport ''loopback request timed out'')"
| "exchange_result (NoAnswer e) = Inl (DshTransport e)"
| "exchange_result (BodyLost r e) = Inl (DshTransport e)"
| "exchange_result (HttpAnswer r) = Inr r"

definition finish :: "http_lib \<Rightarrow> (http_request \<Rightarrow> exchange) \<Rightarrow> dsh_client \<Rightarrow> byte list option \<Rightarrow> builder
    \<Rightarrow> dsh_client_error + http_response" where
  "finish H ask c body b = and_then (finish_request H c body b) (\<lambda>request. exchange_result (ask request))"

definition client_send :: "http_lib \<Rightarrow> (http_request \<Rightarrow> exchange) \<Rightarrow> dsh_client \<Rightarrow> string \<Rightarrow> string
    \<Rightarrow> string option \<Rightarrow> dsh_client_error + http_response" where
  "client_send H ask c method target body =
     (let b = builder_new H method target in
      case body of
        Some payload \<Rightarrow> finish H ask c (Some (as_bytes payload)) b
      | None \<Rightarrow> finish H ask c None b)"

definition client_get :: "http_lib \<Rightarrow> (http_request \<Rightarrow> exchange) \<Rightarrow> dsh_client \<Rightarrow> string
    \<Rightarrow> dsh_client_error + http_response" where
  "client_get H ask c path = client_send H ask c ''GET'' (dc_base_url c @ path) None"

definition post_json :: "http_lib \<Rightarrow> (http_request \<Rightarrow> exchange) \<Rightarrow> dsh_client \<Rightarrow> string \<Rightarrow> string
    \<Rightarrow> dsh_client_error + http_response" where
  "post_json H ask c path body = client_send H ask c ''POST'' (dc_base_url c @ path) (Some body)"

text \<open>\<open>headers.get(SET_COOKIE)\<close> is the first value under the name.\<close>

definition session_cookie :: "http_lib \<Rightarrow> http_response \<Rightarrow> string option" where
  "session_cookie H response =
     (case map_of (hr_headers response) ''set-cookie'' of
        None \<Rightarrow> None
      | Some val \<Rightarrow>
          (case hl_to_str H val of
             None \<Rightarrow> None
           | Some val \<Rightarrow>
               let pair = trim (hd (split_on CHR '';'' val)) in
               if CHR ''='' \<in> set pair then Some pair else None))"

definition authenticate :: "http_lib \<Rightarrow> (http_request \<Rightarrow> exchange) \<Rightarrow> string \<Rightarrow> dsh_client
    \<Rightarrow> (dsh_client_error + unit) \<times> dsh_client" where
  "authenticate H ask token c =
     (case client_send H ask c ''GET'' (dc_base_url c @ ''/?token='' @ token) None of
        Inl e \<Rightarrow> (Inl e, c)
      | Inr response \<Rightarrow>
          if \<not> hl_is_redirection H (hr_status response)
          then (Inl (DshUnexpected (hr_status response) ''expected a redirect from the token exchange''), c)
          else (case session_cookie H response of
                  None \<Rightarrow> (Inl (DshNoCookie (dc_authority c)), c)
                | Some cookie \<Rightarrow> (Inr (), c\<lparr>dc_cookie := Some cookie\<rparr>)))"

text \<open>The loop of \<open>forward\<close> and \<open>upgrade\<close> over the headers the remote client sent.\<close>

fun add_headers :: "http_lib \<Rightarrow> header_list \<Rightarrow> builder \<Rightarrow> builder" where
  "add_headers H [] b = b"
| "add_headers H ((name, val) # hs) b =
     (if is_hop_by_hop name \<or> is_authority_owned name \<or> is_body_owned name
      then add_headers H hs b
      else add_headers H hs (builder_header H name val b))"

definition forward_request :: "http_lib \<Rightarrow> dsh_client \<Rightarrow> string \<Rightarrow> string \<Rightarrow> header_list \<Rightarrow> byte list
    \<Rightarrow> dsh_client_error + http_request" where
  "forward_request H c method path headers body =
     (case hl_method H method of
        Inl e \<Rightarrow> Inl (DshUnexpected 400 (''unusable request method: '' @ e))
      | Inr method \<Rightarrow>
          finish_request H c (Some body) (add_headers H headers (builder_new H method (dc_base_url c @ path))))"

definition forward :: "http_lib \<Rightarrow> (http_request \<Rightarrow> exchange) \<Rightarrow> dsh_client \<Rightarrow> string \<Rightarrow> string
    \<Rightarrow> header_list \<Rightarrow> byte list \<Rightarrow> dsh_client_error + http_response" where
  "forward H ask c method path headers body =
     (case hl_method H method of
        Inl e \<Rightarrow> Inl (DshUnexpected 400 (''unusable request method: '' @ e))
      | Inr method \<Rightarrow>
          finish H ask c (Some body) (add_headers H headers (builder_new H method (dc_base_url c @ path))))"

lemma forward_eq:
  "forward H ask c method path headers body =
     and_then (forward_request H c method path headers body) (\<lambda>request. exchange_result (ask request))"
  by (simp add: forward_def forward_request_def finish_def split: sum.split)

section \<open>Upgrading to a WebSocket\<close>

text \<open>What the network answers to an upgrade: no answer, or a response and what became of the upgrade.\<close>

type_synonym upgrade_answer = "string + http_response \<times> (string + socket)"

definition upgrade_request :: "http_lib \<Rightarrow> dsh_client \<Rightarrow> string \<Rightarrow> header_list
    \<Rightarrow> dsh_client_error + http_request" where
  "upgrade_request H c path headers =
     map_err DshTransport (builder_body []
       (add_headers H headers
         (with_cookie H c
           (builder_header H ''sec-websocket-version'' ''13''
             (builder_header H ''sec-websocket-key'' ''dGhlIHNhbXBsZSBub25jZQ==''
               (builder_header H ''upgrade'' ''websocket''
                 (builder_header H ''connection'' ''upgrade''
                   (builder_header H ''host'' (dc_authority c)
                     (builder_new H ''GET'' (dc_base_url c @ path))))))))))"

definition upgrade :: "http_lib \<Rightarrow> (http_request \<Rightarrow> upgrade_answer) \<Rightarrow> dsh_client \<Rightarrow> string
    \<Rightarrow> header_list \<Rightarrow> dsh_client_error + socket" where
  "upgrade H ask c path headers =
     and_then (upgrade_request H c path headers) (\<lambda>request.
     and_then (map_err DshTransport (ask request)) (\<lambda>(response, upgraded).
     if hr_status response \<noteq> 101
     then Inl (DshUnexpected (hr_status response) (''expected a 101 upgrade for '' @ path))
     else map_err (\<lambda>e. DshTransport (''upgrade failed: '' @ e)) upgraded))"

datatype dsh_ws_frame = DshText string | DshBinary "byte list" | DshClose

text \<open>\<open>WsReader::next\<close>, over what the socket still yields, and \<open>WsWriter::send\<close>.\<close>

fun ws_next :: "ws_event list \<Rightarrow> (string + dsh_ws_frame option) \<times> ws_event list" where
  "ws_next [] = (Inr None, [])"
| "ws_next (GotText t # es) = (Inr (Some (DshText t)), es)"
| "ws_next (GotBinary bs # es) = (Inr (Some (DshBinary bs)), es)"
| "ws_next (GotClose # es) = (Inr None, es)"
| "ws_next (GotError e # es) = (Inl e, es)"
| "ws_next (_ # es) = ws_next es"

fun ws_message :: "dsh_ws_frame \<Rightarrow> ws_sent" where
  "ws_message (DshText t) = SentText t"
| "ws_message (DshBinary bs) = SentBinary bs"
| "ws_message DshClose = SentClose"

definition ws_send :: "dsh_ws_frame \<Rightarrow> socket \<Rightarrow> (string + unit) \<times> socket" where
  "ws_send f so = sock_write (ws_message f) so"

section \<open>What reaches DSH\<close>

text \<open>
  What the \<open>http\<close> crate documents: a header name is kept in lower case and a value as it is, and the
  authority of \<open>http://a/path\<close> is \<open>a\<close>.
\<close>

definition http_contract :: "http_lib \<Rightarrow> bool" where
  "http_contract H \<longleftrightarrow>
     (\<forall>n v n' v'. hl_header H n v = Inr (n', v') \<longrightarrow> n' = to_ascii_lowercase n \<and> v' = v)
   \<and> (\<forall>a path. a \<noteq> [] \<and> set a \<inter> {CHR ''/'', CHR ''?'', CHR ''#''} = {}
        \<and> hl_uri H (''http://'' @ a @ CHR ''/'' # path) = Inr ()
        \<longrightarrow> hl_authority H (''http://'' @ a @ CHR ''/'' # path) = Some a)"

definition header_values :: "string \<Rightarrow> http_request \<Rightarrow> string list" where
  "header_values n r = map snd (filter (\<lambda>h. fst h = n) (hq_headers r))"

definition owned :: "string \<Rightarrow> bool" where
  "owned name \<longleftrightarrow> is_hop_by_hop name \<or> is_authority_owned name \<or> is_body_owned name"

definition kept_headers :: "header_list \<Rightarrow> header_list" where
  "kept_headers hs = map (\<lambda>(n, v). (to_ascii_lowercase n, v)) (filter (\<lambda>h. \<not> owned (fst h)) hs)"

lemma lowercase_idem [simp]: "to_ascii_lowercase (to_ascii_lowercase s) = to_ascii_lowercase s"
  by (auto simp: to_ascii_lowercase_def Let_def)

lemma owned_lowercase [simp]: "owned (to_ascii_lowercase n) = owned n"
  by (simp add: owned_def is_hop_by_hop_def is_authority_owned_def is_body_owned_def)

lemma owned_names:
  "owned ''host''" "owned ''cookie''" "owned ''origin''" "owned ''referer''" "owned ''content-length''"
  "owned ''connection''" "owned ''keep-alive''" "owned ''proxy-authenticate''" "owned ''proxy-authorization''"
  "owned ''te''" "owned ''trailer''" "owned ''transfer-encoding''" "owned ''upgrade''"
  by code_simp+

text \<open>\<open>b'\<close> is \<open>b\<close> with the headers \<open>hs\<close> appended, or an error.\<close>

definition appended :: "header_list \<Rightarrow> builder \<Rightarrow> builder \<Rightarrow> bool" where
  "appended hs b b' \<longleftrightarrow> (\<forall>r. b' = Inr r \<longrightarrow>
     (\<exists>r0. b = Inr r0 \<and> r = r0\<lparr>hq_headers := hq_headers r0 @ hs\<rparr>))"

lemma appended_refl: "appended [] b b"
  by (simp add: appended_def)

lemma appended_trans: "appended hs b b1 \<Longrightarrow> appended hs' b1 b2 \<Longrightarrow> appended (hs @ hs') b b2"
  unfolding appended_def by fastforce

lemma appended_one:
  "http_contract H \<Longrightarrow> appended [(to_ascii_lowercase n, v)] b (builder_header H n v b)"
  by (fastforce simp: appended_def builder_header_def and_then_Inr_iff http_contract_def)

lemma appended_kept:
  assumes "http_contract H"
  shows "appended (kept_headers hs) b (add_headers H hs b)"
proof (induction hs arbitrary: b)
  case (Cons h hs)
  obtain n v where h: "h = (n, v)" by fastforce
  show ?case
  proof (cases "owned n")
    case True
    with Cons h show ?thesis by (auto simp: kept_headers_def owned_def)
  next
    case False
    with h appended_trans [OF appended_one [OF assms] Cons] show ?thesis
      by (simp add: kept_headers_def owned_def)
  qed
qed (simp add: kept_headers_def appended_refl)

text \<open>
  A way to build requests for a client is fenced when the headers the daemon owns are exactly its own
  list, whatever the remote client asks for, and the target is the client's base URL and a path; given
  that the HTTP library behaves as documented.
\<close>

locale fenced =
  fixes documented :: bool
    and build :: "dsh_client \<Rightarrow> 'a \<Rightarrow> dsh_client_error + http_request"
    and target :: "'a \<Rightarrow> string"
    and own :: "dsh_client \<Rightarrow> 'a \<Rightarrow> header_list"
  assumes builds: "documented \<Longrightarrow> build c x = Inr r \<Longrightarrow>
      hq_uri r = dc_base_url c @ target x \<and> filter (\<lambda>h. owned (fst h)) (hq_headers r) = own c x"
begin

lemma values_own:
  "documented \<Longrightarrow> build c x = Inr r \<Longrightarrow> owned n \<Longrightarrow> header_values n r = map snd (filter (\<lambda>h. fst h = n) (own c x))"
proof -
  assume d: documented and r: "build c x = Inr r" and n: "owned n"
  have "filter (\<lambda>h. fst h = n) (hq_headers r) = filter (\<lambda>h. fst h = n) (filter (\<lambda>h. owned (fst h)) (hq_headers r))"
    unfolding filter_filter by (rule filter_cong) (use n in auto)
  then show ?thesis using builds [OF d r] by (simp add: header_values_def)
qed

end

definition cookie_header :: "dsh_client \<Rightarrow> header_list" where
  "cookie_header c = (case dc_cookie c of None \<Rightarrow> [] | Some k \<Rightarrow> [(''cookie'', k)])"

lemma kept_not_owned [simp]: "filter (\<lambda>h. owned (fst h)) (kept_headers hs) = []"
  by (auto simp: kept_headers_def filter_empty_conv)

lemma lowercase_names [simp]:
  "to_ascii_lowercase ''host'' = ''host''" "to_ascii_lowercase ''content-length'' = ''content-length''"
  "to_ascii_lowercase ''cookie'' = ''cookie''" "to_ascii_lowercase ''upgrade'' = ''upgrade''" "to_ascii_lowercase ''connection'' = ''connection''"
  "to_ascii_lowercase ''sec-websocket-key'' = ''sec-websocket-key''"
  "to_ascii_lowercase ''sec-websocket-version'' = ''sec-websocket-version''"
  by code_simp+

lemma appended_cookie: "http_contract H \<Longrightarrow> appended (cookie_header c) b (with_cookie H c b)"
  using appended_one [of H "''cookie''"] appended_refl unfolding lowercase_names
  by (simp add: with_cookie_def cookie_header_def split: option.split)

lemma appended_new:
  "appended hs (builder_new H m u) b \<Longrightarrow> builder_body bs b = Inr r \<Longrightarrow>
   hq_uri r = u \<and> hq_headers r = hs \<and> hq_body r = bs \<and> hl_uri H u = Inr ()"
  by (fastforce simp: appended_def builder_new_def builder_body_def and_then_Inr_iff)

lemma forward_request_Inr:
  assumes "http_contract H" "forward_request H c method path hs body = Inr r"
  shows "hq_uri r = dc_base_url c @ path \<and> hq_body r = body \<and> hl_uri H (dc_base_url c @ path) = Inr ()
    \<and> hq_headers r = kept_headers hs @ (''host'', dc_authority c) # cookie_header c
        @ [(''content-length'', decimal (length body))]"
proof -
  obtain m where r: "builder_body body (builder_header H ''content-length'' (decimal (length body))
      (with_cookie H c (builder_header H ''host'' (dc_authority c)
        (add_headers H hs (builder_new H m (dc_base_url c @ path)))))) = Inr r"
    using assms(2) by (auto simp: forward_request_def finish_request_def Let_def split: sum.splits)
  note one = appended_one [OF assms(1)] and t = appended_trans
  have "appended (((kept_headers hs @ [(''host'', dc_authority c)]) @ cookie_header c)
        @ [(''content-length'', decimal (length body))]) (builder_new H m (dc_base_url c @ path))
      (builder_header H ''content-length'' (decimal (length body))
        (with_cookie H c (builder_header H ''host'' (dc_authority c)
          (add_headers H hs (builder_new H m (dc_base_url c @ path))))))"
    using one [of "''host''"] one [of "''content-length''"] unfolding lowercase_names
    by (intro t [OF t [OF t [OF appended_kept [OF assms(1)]] appended_cookie [OF assms(1)]]])
  from appended_new [OF this r] show ?thesis by simp
qed

lemma upgrade_request_Inr:
  assumes "http_contract H" "upgrade_request H c path hs = Inr r"
  shows "hq_uri r = dc_base_url c @ path \<and> hq_body r = [] \<and> hl_uri H (dc_base_url c @ path) = Inr ()
    \<and> hq_headers r = [(''host'', dc_authority c), (''connection'', ''upgrade''), (''upgrade'', ''websocket''),
        (''sec-websocket-key'', ''dGhlIHNhbXBsZSBub25jZQ==''), (''sec-websocket-version'', ''13'')]
        @ cookie_header c @ kept_headers hs"
proof -
  note one = appended_one [OF assms(1)] and t = appended_trans
  let ?b = "builder_new H ''GET'' (dc_base_url c @ path)"
  have "appended ((((([(''host'', dc_authority c)] @ [(''connection'', ''upgrade'')]) @ [(''upgrade'', ''websocket'')])
        @ [(''sec-websocket-key'', ''dGhlIHNhbXBsZSBub25jZQ=='')]) @ [(''sec-websocket-version'', ''13'')])
        @ cookie_header c @ kept_headers hs) ?b
      (add_headers H hs (with_cookie H c
        (builder_header H ''sec-websocket-version'' ''13''
          (builder_header H ''sec-websocket-key'' ''dGhlIHNhbXBsZSBub25jZQ==''
            (builder_header H ''upgrade'' ''websocket'' (builder_header H ''connection'' ''upgrade''
              (builder_header H ''host'' (dc_authority c) ?b)))))))"
    using one [of "''host''"] one [of "''connection''"] one [of "''upgrade''"]
      one [of "''sec-websocket-key''"] one [of "''sec-websocket-version''"] unfolding lowercase_names
    by (intro t [OF _ t [OF appended_cookie [OF assms(1)] appended_kept [OF assms(1)]]] t)
  from appended_new [OF this] assms(2) show ?thesis by (fastforce simp: upgrade_request_def)
qed

definition forward_own :: "dsh_client \<Rightarrow> byte list \<Rightarrow> header_list" where
  "forward_own c body = (''host'', dc_authority c) # cookie_header c @ [(''content-length'', decimal (length body))]"

definition upgrade_own :: "dsh_client \<Rightarrow> header_list" where
  "upgrade_own c = [(''host'', dc_authority c), (''connection'', ''upgrade''), (''upgrade'', ''websocket'')]
     @ cookie_header c"

lemma own_values:
  "map snd (filter (\<lambda>h. fst h = ''host'') (forward_own c body)) = [dc_authority c]"
  "map snd (filter (\<lambda>h. fst h = ''host'') (upgrade_own c)) = [dc_authority c]"
  "map snd (filter (\<lambda>h. fst h = ''cookie'') (forward_own c body)) = (case dc_cookie c of None \<Rightarrow> [] | Some k \<Rightarrow> [k])"
  "map snd (filter (\<lambda>h. fst h = ''cookie'') (upgrade_own c)) = (case dc_cookie c of None \<Rightarrow> [] | Some k \<Rightarrow> [k])"
  "map snd (filter (\<lambda>h. fst h = ''content-length'') (forward_own c body)) = [decimal (length body)]"
  "map snd (filter (\<lambda>h. fst h = ''content-length'') (upgrade_own c)) = []"
  "n \<in> {''origin'', ''referer'', ''transfer-encoding''} \<Longrightarrow> filter (\<lambda>h. fst h = n) (forward_own c body) = []"
  "n \<in> {''origin'', ''referer'', ''transfer-encoding''} \<Longrightarrow> filter (\<lambda>h. fst h = n) (upgrade_own c) = []"
  by (auto simp: forward_own_def upgrade_own_def cookie_header_def split: option.splits)

lemma cookie_owned: "filter (\<lambda>h. owned (fst h)) (cookie_header c) = cookie_header c"
  by (simp add: cookie_header_def owned_names split: option.split)

interpretation forwarding: fenced "http_contract H" "\<lambda>c (method, path, hs, body). forward_request H c method path hs body"
    "\<lambda>(method, path, hs, body). path" "\<lambda>c (method, path, hs, body). forward_own c body" for H
  by unfold_locales (auto simp: forward_own_def cookie_owned owned_names dest!: forward_request_Inr)

interpretation upgrading: fenced "http_contract H" "\<lambda>c (path, hs). upgrade_request H c path hs" fst
    "\<lambda>c x. upgrade_own c" for H
proof unfold_locales
  have "\<not> owned ''sec-websocket-key''" "\<not> owned ''sec-websocket-version''" by code_simp+
  then show "hq_uri r = dc_base_url c @ fst x \<and> filter (\<lambda>h. owned (fst h)) (hq_headers r) = upgrade_own c"
    if "http_contract H" "(case x of (path, hs) \<Rightarrow> upgrade_request H c path hs) = Inr r" for c x r
    using that by (cases x) (auto simp: upgrade_own_def cookie_owned owned_names dest!: upgrade_request_Inr)
qed

section \<open>Clients in use\<close>

text \<open>A client as the daemon has it: made for a base URL, then authenticated any number of times.\<close>

definition client_after :: "http_lib \<Rightarrow> ((http_request \<Rightarrow> exchange) \<times> string) list \<Rightarrow> dsh_client \<Rightarrow> dsh_client" where
  "client_after H ts c = fold (\<lambda>(ask, token) c. snd (authenticate H ask token c)) ts c"

lemma authenticate_keeps [simp]:
  "dc_base_url (snd (authenticate H ask token c)) = dc_base_url c"
  "dc_authority (snd (authenticate H ask token c)) = dc_authority c"
  by (simp_all add: authenticate_def split: sum.split option.split)

lemma client_after_keeps:
  "dc_base_url (client_after H ts c) = dc_base_url c" "dc_authority (client_after H ts c) = dc_authority c"
  by (induction ts arbitrary: c) (auto simp: client_after_def)

lemma client_new_Inr:
  "client_new H base = Inr c \<Longrightarrow> base = ''http://'' @ dc_authority c \<and> dc_base_url c = base
    \<and> dc_authority c \<noteq> [] \<and> CHR ''/'' \<notin> set (dc_authority c) \<and> dc_cookie c = None"
  by (auto simp: client_new_def strip_prefix_Some split: option.splits if_splits)

text \<open>A cookie is held only after a redirect that set it: its \<open>name=value\<close> pair, without attributes.\<close>

lemma authenticate_Inr:
  "authenticate H ask token c = (Inr u, c') \<Longrightarrow> \<exists>req response pair.
     ask req = HttpAnswer response \<and> hl_is_redirection H (hr_status response)
     \<and> session_cookie H response = Some pair \<and> c' = c\<lparr>dc_cookie := Some pair\<rparr>"
  by (auto simp: authenticate_def client_send_def finish_def and_then_Inr_iff
      elim!: exchange_result.elims split: sum.splits if_splits option.splits)

section \<open>The fence\<close>

text \<open>
  A request behind the fence of a client: it goes to the authority the client was made for, with exactly
  one \<open>Host\<close>, that authority, with the client's cookie and no other, at most one \<open>Content-Length\<close>, the
  true one, and with no \<open>Origin\<close>, \<open>Referer\<close> or \<open>Transfer-Encoding\<close>.
\<close>

definition behind_fence :: "http_lib \<Rightarrow> dsh_client \<Rightarrow> http_request \<Rightarrow> bool" where
  "behind_fence H c r \<longleftrightarrow> hl_authority H (hq_uri r) = Some (dc_authority c)
     \<and> header_values ''host'' r = [dc_authority c]
     \<and> header_values ''cookie'' r = (case dc_cookie c of None \<Rightarrow> [] | Some k \<Rightarrow> [k])
     \<and> header_values ''content-length'' r \<in> {[], [decimal (length (hq_body r))]}
     \<and> header_values ''origin'' r = [] \<and> header_values ''referer'' r = []
     \<and> header_values ''transfer-encoding'' r = []"

definition client_ok :: "dsh_client \<Rightarrow> bool" where
  "client_ok c \<longleftrightarrow> dc_base_url c = ''http://'' @ dc_authority c \<and> dc_authority c \<noteq> []
     \<and> set (dc_authority c) \<inter> {CHR ''/'', CHR ''?'', CHR ''#''} = {}"

lemma client_after_ok:
  assumes "client_new H base = Inr c0" and "set base \<inter> {CHR ''?'', CHR ''#''} = {}"
  shows "client_ok (client_after H ts c0)"
  using client_new_Inr [OF assms(1)] assms(2) by (auto simp: client_ok_def client_after_keeps)

lemma requests_behind_fence:
  assumes "http_contract H" and "client_ok c"
    and "forward_request H c method (CHR ''/'' # path) hs body = Inr r
       \<or> upgrade_request H c (CHR ''/'' # path) hs = Inr r \<and> body = []"
  shows "behind_fence H c r"
proof -
  have r: "hq_uri r = ''http://'' @ dc_authority c @ CHR ''/'' # path" "hl_uri H (hq_uri r) = Inr ()" "hq_body r = body"
    using assms(2,3) forward_request_Inr [OF assms(1)] upgrade_request_Inr [OF assms(1)]
    by (fastforce simp: client_ok_def)+
  then have a: "hl_authority H (hq_uri r) = Some (dc_authority c)"
    using assms(1,2) unfolding http_contract_def client_ok_def by auto
  have v: "header_values n r = map snd (filter (\<lambda>h. fst h = n) (forward_own c body))
      \<or> header_values n r = map snd (filter (\<lambda>h. fst h = n) (upgrade_own c))" if "owned n" for n
    using assms(3) forwarding.values_own [OF assms(1), of c "(method, CHR ''/'' # path, hs, body)" r n]
      upgrading.values_own [OF assms(1), of c "(CHR ''/'' # path, hs)" r n] that by auto
  have "header_values ''host'' r = [dc_authority c]"
    "header_values ''cookie'' r = (case dc_cookie c of None \<Rightarrow> [] | Some k \<Rightarrow> [k])"
    "header_values ''content-length'' r \<in> {[], [decimal (length body)]}"
    using v [OF owned_names(1)] v [OF owned_names(2)] v [OF owned_names(5)] unfolding own_values by auto
  moreover have "header_values n r = []" if "n \<in> {''origin'', ''referer'', ''transfer-encoding''}" "owned n" for n
    using v [OF that(2)] own_values(7,8) [OF that(1)] by simp
  ultimately show ?thesis using r a owned_names by (simp add: behind_fence_def)
qed

text \<open>A library that accepts every method, target and header.\<close>

definition demo_http :: http_lib where
  "demo_http = \<lparr>hl_method = Inr, hl_uri = (\<lambda>_. Inr ()), hl_header = (\<lambda>n v. Inr (to_ascii_lowercase n, v)),
     hl_to_str = (\<lambda>bs. Some (from_bytes bs)), hl_is_redirection = (\<lambda>n. 300 \<le> n \<and> n < 400),
     hl_authority = (\<lambda>u. Some (takeWhile (\<lambda>c. c \<noteq> CHR ''/'') (drop 7 u))), hl_debug = id\<rparr>"

lemma demo_http_contract: "http_contract demo_http"
  by (auto simp: http_contract_def demo_http_def takeWhile_append)

text \<open>
  A header that \<open>Connection\<close> names is forwarded like any other, and a client's own handshake headers
  are sent beside the daemon's.
\<close>

lemma nominated_headers_are_forwarded:
  "kept_headers [(''Connection'', ''X-Hop''), (''X-Hop'', v)] = [(''x-hop'', v)]"
  by code_simp

lemma handshake_key_may_repeat:
  assumes "http_contract H"
    and "upgrade_request H c path [(''Sec-WebSocket-Key'', k)] = Inr r"
  shows "header_values ''sec-websocket-key'' r = [''dGhlIHNhbXBsZSBub25jZQ=='', k]"
proof -
  have "kept_headers [(''Sec-WebSocket-Key'', k)] = [(''sec-websocket-key'', k)]" by code_simp
  then show ?thesis
    using upgrade_request_Inr [OF assms] by (simp add: header_values_def cookie_header_def split: option.split)
qed

text \<open>Nothing of the response but its status is looked at: no \<open>Sec-WebSocket-Accept\<close> is checked.\<close>

lemma upgrade_accepts_any_101:
  "upgrade_request H c path hs = Inr req \<Longrightarrow> ask req = Inr (response, Inr so) \<Longrightarrow> hr_status response = 101
   \<Longrightarrow> upgrade H ask c path hs = Inr so"
  by (simp add: upgrade_def)

end
