(* ===== verification/Proxy_Service.thy ===== *)
theory Proxy_Service
  imports Dsh_Client Machine "HOL-Library.AList" "HOL-Library.Multiset"
begin

text \<open>
  \<open>proxy/service.rs\<close> of the daemon: performing the requests of the remote client against DSH, and the
  WebSockets opened for it.

  The outbox of a carrier is what has been put into it, and how many more messages it will take before
  its receiver is gone (\<open>None\<close>: it stays). Waiting for room in it changes nothing else, so a send is the
  send that follows the wait. A WebSocket is a connection record: connection number \<open>n\<close> is the \<open>n\<close>-th one
  opened, the registry maps an id to the number whose sender it holds, and the two tasks of a connection
  advance by steps of their loops. A handler that waits for room in a connection's queue has no result
  yet (\<open>None\<close>) and has changed nothing.
\<close>

section \<open>Errors and the carrier's outbox\<close>

datatype proxy_error =
    ReqRefused string
  | Upstream string
  | CarrierGone string
  | Reported string

fun proxy_error_text :: "proxy_error \<Rightarrow> string" where
  "proxy_error_text (ReqRefused s) = ''refused the request: '' @ s"
| "proxy_error_text (Upstream s) = ''DSH could not be reached: '' @ s"
| "proxy_error_text (CarrierGone s) = ''the carrier failed: '' @ s"
| "proxy_error_text (Reported s) = s"

fun codec_error_text :: "proxy_codec_error \<Rightarrow> string" where
  "codec_error_text PxBadMagic = ''not a proxy message stream''"
| "codec_error_text (PxVersion found expected) = ''unsupported proxy message version '' @ decimal (unat found)
     @ ''; this build speaks '' @ decimal (unat expected)"
| "codec_error_text (UnknownType t) = ''unknown proxy message type '' @ decimal (unat t)"
| "codec_error_text (Truncated needed had) = ''truncated proxy message: needed '' @ decimal needed
     @ '' bytes, had '' @ decimal had"
| "codec_error_text (TooLarge n limit) = ''proxy message declares '' @ decimal n
     @ '' bytes, above the '' @ decimal limit @ '' limit''"
| "codec_error_text NotUtf8 = ''proxy message carries invalid UTF-8''"
| "codec_error_text (HeadersTooLarge n) = ''header block exceeds '' @ decimal n @ '' bytes''"
| "codec_error_text (UnknownFrameKind k) = ''unknown websocket frame kind '' @ decimal (unat k)"
| "codec_error_text (WrongDirection s) = ''a '' @ s @ '' is not sent in this direction''"

record outbox =
  ob_sent :: "(u32 \<times> byte list) list"
  ob_left :: "nat option"

definition outbox_send :: "u32 \<Rightarrow> byte list \<Rightarrow> outbox \<Rightarrow> (unit + unit) \<times> outbox" where
  "outbox_send stream_id payload ob =
     (if ob_left ob = Some 0 then (Inl (), ob)
      else (Inr (), ob\<lparr>ob_sent := ob_sent ob @ [(stream_id, payload)],
              ob_left := map_option (\<lambda>n. n - 1) (ob_left ob)\<rparr>))"

definition service_send :: "u32 \<Rightarrow> proxy_message \<Rightarrow> outbox \<Rightarrow> (proxy_error + unit) \<times> outbox" where
  "service_send stream_id message ob =
     (case px_encode message [] of
        (Inl e, _) \<Rightarrow> (Inl (ReqRefused (codec_error_text e)), ob)
      | (Inr _, payload) \<Rightarrow>
          (case outbox_send stream_id payload ob of
             (Inl _, ob) \<Rightarrow> (Inl (CarrierGone ''the carrier is gone''), ob)
           | (Inr _, ob) \<Rightarrow> (Inr (), ob)))"

definition report_failure :: "u32 \<Rightarrow> u64 \<Rightarrow> string \<Rightarrow> outbox \<Rightarrow> (proxy_error + unit) \<times> outbox" where
  "report_failure stream_id i reason = service_send stream_id (Failure \<lparr>fl_id = i, fl_reason = reason\<rparr>)"

section \<open>Requests\<close>

definition validate_target :: "string \<Rightarrow> proxy_error + string" where
  "validate_target target =
     (if \<not> starts_with ''/'' target
      then Inl (ReqRefused ''the target must be an origin-form path beginning with /'')
      else if starts_with ''//'' target then Inl (ReqRefused ''the target must not begin with //'')
      else if contains_text ''..'' target \<or> CHR 0x5C \<in> set target
      then Inl (ReqRefused (''the target must not contain .. or '' @ [CHR 0x5C]))
      else if CHR 0x0D \<in> set target \<or> CHR 0x0A \<in> set target \<or> CHR '' '' \<in> set target
      then Inl (ReqRefused ''the target must not contain whitespace'')
      else Inr target)"

definition request_body :: "http_lib \<Rightarrow> request_head \<Rightarrow> proxy_error + byte list" where
  "request_body H head =
     (case header_map (rq_headers head) ''content-length'' of
        None \<Rightarrow> Inr []
      | Some text' \<Rightarrow>
          (case parse_uint 64 (trim text') of
             None \<Rightarrow> Inl (ReqRefused (''content-length is not a number: '' @ hl_debug H text'))
           | Some n \<Rightarrow>
               if n \<noteq> length (rq_body head)
               then Inl (ReqRefused (''content-length says '' @ decimal n @ '' bytes but ''
                      @ decimal (length (rq_body head)) @ '' arrived''))
               else Inr (rq_body head)))"

fun upstream_reason :: "dsh_client_error \<Rightarrow> string" where
  "upstream_reason (DshTransport _) = ''DSH is not answering on loopback''"
| "upstream_reason (DshUnexpected status _) = ''DSH refused the request with status '' @ decimal status"
| "upstream_reason (DshNoCookie _) = ''the daemon is not authenticated against DSH''"

definition response_headers :: "http_lib \<Rightarrow> http_response \<Rightarrow> header_list" where
  "response_headers H response =
     List.map_filter (\<lambda>(name, val). map_option (\<lambda>v. (name, v)) (hl_to_str H val)) (hr_headers response)"

fun send_chunks :: "u32 \<Rightarrow> byte list list \<Rightarrow> outbox \<Rightarrow> (proxy_error + unit) \<times> outbox" where
  "send_chunks stream_id [] = tr_give (Inr ())"
| "send_chunks stream_id (c # cs) =
     tr_then (service_send stream_id (ResponseBody c)) (\<lambda>_. send_chunks stream_id cs)"

definition perform :: "http_lib \<Rightarrow> (http_request \<Rightarrow> exchange) \<Rightarrow> dsh_client \<Rightarrow> u32 \<Rightarrow> request_head \<Rightarrow> outbox
    \<Rightarrow> (proxy_error + unit) \<times> outbox" where
  "perform H ask c stream_id head =
     tr_then (tr_give (validate_target (rq_target head))) (\<lambda>destination.
     tr_then (tr_give (request_body H head)) (\<lambda>body.
     case forward H ask c (rq_method head) destination (rq_headers head) body of
       Inl e \<Rightarrow>
         tr_then (report_failure stream_id (rq_id head) (upstream_reason e))
           (\<lambda>_. tr_give (Inl (Upstream (upstream_reason e))))
     | Inr response \<Rightarrow>
         tr_then (service_send stream_id (ResponseStart \<lparr>rs_id = rq_id head,
             rs_status = of_nat (hr_status response), rs_headers = response_headers H response\<rparr>)) (\<lambda>_.
         tr_then (send_chunks stream_id (chunk_body (hr_body response))) (\<lambda>_.
         service_send stream_id ResponseEnd))))"

section \<open>WebSockets\<close>

definition WS_QUEUE :: nat where "WS_QUEUE = 64"

fun from_dsh :: "dsh_ws_frame \<Rightarrow> ws_frame" where
  "from_dsh (DshText t) = WsText t"
| "from_dsh (DshBinary bs) = WsBinary bs"
| "from_dsh DshClose = WsFrameClose"

fun to_dsh :: "ws_frame \<Rightarrow> dsh_ws_frame" where
  "to_dsh (WsText t) = DshText t"
| "to_dsh (WsBinary bs) = DshBinary bs"
| "to_dsh WsFrameClose = DshClose"

text \<open>
  A connection: the id and the stream it was opened with, the channel to its writing task, whether
  each of its two tasks is still in its loop, and the socket to DSH.
\<close>

record ws_conn =
  cn_id :: u64
  cn_stream :: u32
  cn_queue :: "ws_frame list"
  cn_writing :: bool
  cn_reading :: bool
  cn_socket :: socket

record service =
  sv_client :: dsh_client
  sv_sockets :: "(u64 \<times> nat) list"
  sv_conns :: "ws_conn list"

definition service_new :: "dsh_client \<Rightarrow> service" where
  "service_new c = \<lparr>sv_client = c, sv_sockets = [], sv_conns = []\<rparr>"

definition service_authenticate :: "http_lib \<Rightarrow> (http_request \<Rightarrow> exchange) \<Rightarrow> bool \<Rightarrow> string \<Rightarrow> service
    \<Rightarrow> (proxy_error + unit) \<times> service" where
  "service_authenticate H ask shared token sv =
     (if shared then (Inl (Upstream ''the proxy client is already in use''), sv)
      else (case authenticate H ask token (sv_client sv) of
              (r, c) \<Rightarrow> (map_err (\<lambda>e. Upstream (upstream_reason e)) r, sv\<lparr>sv_client := c\<rparr>)))"

text \<open>The channel of a connection: sending fails when the writing task is gone, and waits when it is full.\<close>

definition try_send :: "ws_frame \<Rightarrow> ws_conn \<Rightarrow> ws_conn" where
  "try_send f c =
     (if cn_writing c \<and> length (cn_queue c) < WS_QUEUE then c\<lparr>cn_queue := cn_queue c @ [f]\<rparr> else c)"

definition unregister :: "u64 \<Rightarrow> service \<Rightarrow> service" where
  "unregister i sv = sv\<lparr>sv_sockets := AList.delete i (sv_sockets sv)\<rparr>"

definition on_conn :: "nat \<Rightarrow> (ws_conn \<Rightarrow> ws_conn) \<Rightarrow> service \<Rightarrow> service" where
  "on_conn n f sv = sv\<lparr>sv_conns := (sv_conns sv)[n := f (sv_conns sv ! n)]\<rparr>"

text \<open>What the service asks of the network.\<close>

record network =
  nw_exchange :: "http_request \<Rightarrow> exchange"
  nw_upgrade :: "http_request \<Rightarrow> upgrade_answer"

definition register :: "u32 \<Rightarrow> ws_open \<Rightarrow> socket \<Rightarrow> service \<Rightarrow> service" where
  "register stream_id open' so sv =
     sv\<lparr>sv_sockets := AList.update (wo_id open') (length (sv_conns sv)) (sv_sockets sv),
        sv_conns := sv_conns sv @ [\<lparr>cn_id = wo_id open', cn_stream = stream_id, cn_queue = [],
          cn_writing = True, cn_reading = True, cn_socket = so\<rparr>]\<rparr>"

definition open_websocket :: "http_lib \<Rightarrow> network \<Rightarrow> u32 \<Rightarrow> ws_open \<Rightarrow> service \<times> outbox
    \<Rightarrow> (proxy_error + unit) \<times> service \<times> outbox" where
  "open_websocket H net stream_id open' = (\<lambda>(sv, ob).
     case and_then (validate_target (wo_target open')) (\<lambda>destination.
            map_err (\<lambda>e. Upstream (upstream_reason e))
              (upgrade H (nw_upgrade net) (sv_client sv) destination (wo_headers open'))) of
       Inl e \<Rightarrow> (Inl e, sv, ob)
     | Inr connection \<Rightarrow>
         (case service_send stream_id (WsOpened \<lparr>wd_id = wo_id open', wd_status = 101, wd_headers = []\<rparr>) ob of
            (Inl e, ob) \<Rightarrow> (Inl e, sv, ob)
          | (Inr _, ob) \<Rightarrow> (Inr (), register stream_id open' connection sv, ob)))"

text \<open>One turn of the loop that carries frames from DSH to the client, and how the loop is left.\<close>

definition leave_reader :: "nat \<Rightarrow> service \<times> outbox \<Rightarrow> service \<times> outbox" where
  "leave_reader n = (\<lambda>(sv, ob).
     let c = sv_conns sv ! n;
         sv = on_conn n (\<lambda>c. c\<lparr>cn_reading := False\<rparr>) (unregister (cn_id c) sv) in
     (sv, snd (service_send (cn_stream c) (WsData \<lparr>wa_id = cn_id c, wa_frame = WsFrameClose\<rparr>) ob)))"

definition reader_step :: "nat \<Rightarrow> service \<times> outbox \<Rightarrow> service \<times> outbox" where
  "reader_step n = (\<lambda>(sv, ob).
     let c = sv_conns sv ! n; (r, es) = ws_next (so_in (cn_socket c));
         sv = on_conn n (\<lambda>c. c\<lparr>cn_socket := (cn_socket c)\<lparr>so_in := es\<rparr>\<rparr>) sv in
     case r of
       Inr (Some frame) \<Rightarrow>
         (case px_encode (WsData \<lparr>wa_id = cn_id c, wa_frame = from_dsh frame\<rparr>) [] of
            (Inl _, _) \<Rightarrow> leave_reader n (sv, ob)
          | (Inr _, payload) \<Rightarrow>
              (case outbox_send (cn_stream c) payload ob of
                 (Inl _, ob) \<Rightarrow> leave_reader n (sv, ob)
               | (Inr _, ob) \<Rightarrow> (sv, ob)))
     | _ \<Rightarrow> leave_reader n (sv, ob))"

text \<open>
  One turn of the loop that carries frames from the client to DSH: it waits while its queue is empty
  and a sender is left, which is when the registry holds this connection.
\<close>

definition writer_step :: "nat \<Rightarrow> service \<Rightarrow> service" where
  "writer_step n sv =
     (let c = sv_conns sv ! n in
      case cn_queue c of
        [] \<Rightarrow> if n \<in> snd ` set (sv_sockets sv) then sv else on_conn n (\<lambda>c. c\<lparr>cn_writing := False\<rparr>) sv
      | frame # q \<Rightarrow>
          (let (r, so) = ws_send (to_dsh frame) (cn_socket c) in
           on_conn n (\<lambda>c. c\<lparr>cn_queue := q, cn_socket := so,
             cn_writing := (r = Inr () \<and> frame \<noteq> WsFrameClose)\<rparr>) sv))"

section \<open>Handling a message\<close>

definition handle_data :: "u32 \<Rightarrow> ws_data \<Rightarrow> service \<times> outbox
    \<Rightarrow> ((proxy_error + bool) \<times> service \<times> outbox) option" where
  "handle_data stream_id data = (\<lambda>(sv, ob).
     case map_of (sv_sockets sv) (wa_id data) of
       Some n \<Rightarrow>
         (let c = sv_conns sv ! n in
          if \<not> cn_writing c then Some (Inr True, unregister (wa_id data) sv, ob)
          else if WS_QUEUE \<le> length (cn_queue c) then None
          else Some (Inr True, on_conn n (try_send (wa_frame data)) sv, ob))
     | None \<Rightarrow>
         (case report_failure stream_id (wa_id data)
                 (''no websocket '' @ decimal (unat (wa_id data)) @ '' is open'') ob of
            (r, ob) \<Rightarrow> Some (and_then r (\<lambda>_. Inr True), sv, ob)))"

definition handle_close :: "service \<Rightarrow> service" where
  "handle_close sv =
     (fold (\<lambda>(i, n). on_conn n (try_send WsFrameClose)) (sv_sockets sv) sv)\<lparr>sv_sockets := []\<rparr>"

text \<open>A request or an upgrade that failed is reported; what is then an error is that the report failed.\<close>

definition reported :: "u32 \<Rightarrow> u64 \<Rightarrow> (proxy_error + unit) \<times> service \<times> outbox
    \<Rightarrow> (proxy_error + bool) \<times> service \<times> outbox" where
  "reported stream_id i = (\<lambda>(r, sv, ob).
     case r of
       Inr _ \<Rightarrow> (Inr True, sv, ob)
     | Inl e \<Rightarrow>
         (case report_failure stream_id i (proxy_error_text e) ob of
            (r, ob) \<Rightarrow> (and_then r (\<lambda>_. Inr True), sv, ob)))"

fun handle_message :: "http_lib \<Rightarrow> network \<Rightarrow> u32 \<Rightarrow> proxy_message \<Rightarrow> service \<times> outbox
    \<Rightarrow> ((proxy_error + bool) \<times> service \<times> outbox) option" where
  "handle_message H net stream_id (RequestStart head) (sv, ob) =
     (case perform H (nw_exchange net) (sv_client sv) stream_id head ob of
        (r, ob) \<Rightarrow> Some (reported stream_id (rq_id head) (r, sv, ob)))"
| "handle_message H net stream_id (WsOpen open') st =
     Some (reported stream_id (wo_id open') (open_websocket H net stream_id open' st))"
| "handle_message H net stream_id (WsData data) st = handle_data stream_id data st"
| "handle_message H net stream_id WsClose (sv, ob) = Some (Inr True, handle_close sv, ob)"
| "handle_message H net stream_id (RequestBody _) st =
     Some (Inl (ReqRefused ''a request body arrived before its request head''), st)"
| "handle_message H net stream_id RequestEnd st =
     Some (Inl (ReqRefused ''a request body arrived before its request head''), st)"
| "handle_message H net stream_id _ st =
     Some (Inl (ReqRefused ''a response message arrived at the daemon''), st)"

definition handle :: "http_lib \<Rightarrow> network \<Rightarrow> u32 \<Rightarrow> byte list \<Rightarrow> service \<times> outbox
    \<Rightarrow> ((proxy_error + bool) \<times> service \<times> outbox) option" where
  "handle H net stream_id payload st =
     (case px_decode payload of
        Inl PxBadMagic \<Rightarrow> Some (Inr False, st)
      | Inl e \<Rightarrow> Some (Inl (ReqRefused (codec_error_text e)), st)
      | Inr m \<Rightarrow> handle_message H net stream_id m st)"

section \<open>What a carrier that stays up is sent\<close>

definition says :: "u32 \<Rightarrow> proxy_message list \<Rightarrow> outbox \<Rightarrow> outbox" where
  "says stream_id ms ob = ob\<lparr>ob_sent := ob_sent ob @ map (\<lambda>m. (stream_id, px_wire m)) ms\<rparr>"

lemma says_Nil [simp]: "says i [] ob = ob"
  by (simp add: says_def)

lemma says_says [simp]: "says i ms' (says i ms ob) = says i (ms @ ms') ob"
  by (simp add: says_def)

lemma says_left [simp]: "ob_left (says i ms ob) = ob_left ob"
  by (simp add: says_def)

lemma service_send_stays:
  assumes "ob_left ob = None"
  shows "service_send i m ob = (case px_encode m [] of
     (Inr _, _) \<Rightarrow> (Inr (), says i [m] ob) | (Inl e, _) \<Rightarrow> (Inl (ReqRefused (codec_error_text e)), ob))"
  using assms px_encode_Inr_iff [of m "[]"]
  by (cases ob) (auto simp: service_send_def outbox_send_def says_def split: prod.splits sum.splits)

lemma px_encode_writable: "writable m \<Longrightarrow> px_encode m [] = (Inr (), px_wire m)"
  using px_encode_Inr_iff [of m "[]" "px_wire m"] by simp

lemma px_encode_refused:
  assumes "\<not> writable m"
  obtains e w where "px_encode m [] = (Inl e, w)"
proof (cases "px_encode m []")
  case (Pair r w)
  then show ?thesis using assms px_encode_Inr_iff [of m "[]" w] that by (cases r) auto
qed

lemma service_send_ok:
  "ob_left ob = None \<Longrightarrow> writable m \<Longrightarrow> service_send i m ob = (Inr (), says i [m] ob)"
  by (simp add: service_send_stays px_encode_writable)

lemma service_send_refused:
  "ob_left ob = None \<Longrightarrow> \<not> writable m \<Longrightarrow> \<exists>e. service_send i m ob = (Inl (ReqRefused (codec_error_text e)), ob)"
  using px_encode_Inr_iff [of m "[]"]
  by (auto simp: service_send_stays split: prod.splits sum.splits)

lemma send_chunks_ok:
  "ob_left ob = None \<Longrightarrow> \<forall>c \<in> set cs. length c \<le> MAX_CHUNK_BYTES \<Longrightarrow>
   send_chunks i cs ob = (Inr (), says i (map ResponseBody cs) ob)"
  by (induction cs arbitrary: ob)
    (auto simp: tr_give_def tr_then_def service_send_ok writable_def)

lemma failure_writable: "length reason \<le> MAX_CHUNK_BYTES \<Longrightarrow> writable (Failure \<lparr>fl_id = i, fl_reason = reason\<rparr>)"
  by (simp add: writable_def)

text \<open>The failure a client is told of, when the reason fits into a message.\<close>

definition told :: "u64 \<Rightarrow> string \<Rightarrow> proxy_message list" where
  "told i reason = (if length reason \<le> MAX_CHUNK_BYTES then [Failure \<lparr>fl_id = i, fl_reason = reason\<rparr>] else [])"

lemma report_failure_told:
  "ob_left ob = None \<Longrightarrow> \<exists>r. report_failure st i reason ob = (r, says st (told i reason) ob)
     \<and> (length reason \<le> MAX_CHUNK_BYTES \<longleftrightarrow> r = Inr ())"
  using service_send_ok [OF _ failure_writable, of ob reason st i]
    service_send_refused [of ob "Failure \<lparr>fl_id = i, fl_reason = reason\<rparr>" st]
  by (cases "length reason \<le> MAX_CHUNK_BYTES")
    (auto simp: report_failure_def told_def writable_def)

lemma forward_errors:
  "forward H ask c method path hs body = Inl e \<Longrightarrow> (\<exists>s. e = DshTransport s) \<or> (\<exists>s. e = DshUnexpected 400 s)"
  by (auto simp: forward_def finish_def finish_request_def and_then_Inl_iff Let_def map_err_Inl_iff
      elim!: exchange_result.elims split: sum.splits)

lemma forward_reasons:
  assumes "forward H ask c method path hs body = Inl e"
  shows "length (upstream_reason e) \<le> 60"
proof -
  have "length (decimal 400) \<le> 3" by code_simp
  then show ?thesis using forward_errors [OF assms] by auto
qed

text \<open>
  What a request is answered, given the outcome \<open>res\<close> of asking DSH for it: the response in chunks,
  whose concatenation is the body; or a failure.
\<close>

definition response_messages :: "http_lib \<Rightarrow> u64 \<Rightarrow> http_response \<Rightarrow> proxy_message list" where
  "response_messages H i response =
     ResponseStart \<lparr>rs_id = i, rs_status = of_nat (hr_status response), rs_headers = response_headers H response\<rparr>
     # map ResponseBody (chunk_body (hr_body response)) @ [ResponseEnd]"

lemma perform_answers:
  assumes "ob_left ob = None" and "validate_target (rq_target head) = Inr dest" and "request_body H head = Inr body"
    and "forward H ask c (rq_method head) dest (rq_headers head) body = Inr response"
    and "writable_headers (response_headers H response)"
  shows "perform H ask c st head ob = (Inr (), says st (response_messages H (rq_id head) response) ob)"
proof -
  have "\<forall>b \<in> set (chunk_body (hr_body response)). length b \<le> MAX_CHUNK_BYTES"
    using chunk_sizes by (fastforce simp: chunk_body_def)
  moreover have "writable ResponseEnd" by (simp add: writable_def)
  moreover have "writable (ResponseStart \<lparr>rs_id = rq_id head, rs_status = of_nat (hr_status response),
      rs_headers = response_headers H response\<rparr>)"
    using assms(5) by (simp add: writable_def)
  ultimately show ?thesis
    using assms by (simp add: perform_def tr_then_def tr_give_def service_send_ok send_chunks_ok response_messages_def)
qed

lemma perform_upstream_error:
  assumes "ob_left ob = None" and "validate_target (rq_target head) = Inr dest" and "request_body H head = Inr body"
    and "forward H ask c (rq_method head) dest (rq_headers head) body = Inl e"
  shows "perform H ask c st head ob
    = (Inl (Upstream (upstream_reason e)), says st (told (rq_id head) (upstream_reason e)) ob)"
proof -
  have "length (upstream_reason e) \<le> MAX_CHUNK_BYTES" using forward_reasons [OF assms(4)] by (simp add: MAX_CHUNK_BYTES_eq)
  then have "report_failure st (rq_id head) (upstream_reason e) ob = (Inr (), says st (told (rq_id head) (upstream_reason e)) ob)"
    using report_failure_told [OF assms(1), of st "rq_id head" "upstream_reason e"] by auto
  with assms show ?thesis by (simp add: perform_def tr_then_def tr_give_def)
qed

lemma reported_told:
  assumes "ob_left ob = None"
  shows "\<exists>r. reported st i (Inl e, sv, ob) = (r, sv, says st (told i (proxy_error_text e)) ob)
    \<and> (length (proxy_error_text e) \<le> MAX_CHUNK_BYTES \<longleftrightarrow> r = Inr True)"
proof -
  obtain q where "report_failure st i (proxy_error_text e) ob = (q, says st (told i (proxy_error_text e)) ob)"
    "length (proxy_error_text e) \<le> MAX_CHUNK_BYTES \<longleftrightarrow> q = Inr ()"
    using report_failure_told [OF assms] by blast
  then show ?thesis by (cases q) (auto simp: reported_def)
qed

lemma perform_refused:
  "validate_target (rq_target head) = Inl e
     \<or> (\<exists>d. validate_target (rq_target head) = Inr d \<and> request_body H head = Inl e) \<Longrightarrow>
   perform H ask c st head ob = (Inl e, ob)"
  by (auto simp: perform_def tr_then_def tr_give_def)

lemma perform_head_too_large:
  assumes "ob_left ob = None" and "validate_target (rq_target head) = Inr dest" and "request_body H head = Inr body"
    and "forward H ask c (rq_method head) dest (rq_headers head) body = Inr response"
    and "\<not> writable_headers (response_headers H response)"
  shows "\<exists>e. perform H ask c st head ob = (Inl e, ob)"
proof -
  have "\<not> writable (ResponseStart \<lparr>rs_id = rq_id head, rs_status = of_nat (hr_status response),
      rs_headers = response_headers H response\<rparr>)"
    using assms(5) by (simp add: writable_def)
  from service_send_refused [OF assms(1) this, of st] assms(2-4) show ?thesis
    by (auto simp: perform_def tr_then_def tr_give_def)
qed

section \<open>Properties\<close>

text \<open>
  C23. While the carrier stays up, a request is answered exactly as this says and nothing else changes:
  the whole response of DSH in order, cut into chunks whose concatenation is its body, when the head
  fits into a message; one failure with the cause when the request is refused; and when DSH cannot be
  reached, two failures for the one request, the cause and then the cause again. Only a cause that is
  too long for a message leaves the client without an answer.
\<close>

theorem request_is_answered:
  assumes "ob_left ob = None" and "px_decode payload = Inr (RequestStart head)"
  shows "\<exists>r ms. handle H net st payload (sv, ob) = Some (r, sv, says st ms ob) \<and> (ms = [] \<longleftrightarrow> r \<noteq> Inr True)
    \<and> (case and_then (validate_target (rq_target head)) (\<lambda>d. and_then (request_body H head) (\<lambda>b.
             Inr (forward H (nw_exchange net) (sv_client sv) (rq_method head) d (rq_headers head) b))) of
         Inl e \<Rightarrow> ms = told (rq_id head) (proxy_error_text e)
       | Inr (Inl e) \<Rightarrow> ms = [Failure \<lparr>fl_id = rq_id head, fl_reason = upstream_reason e\<rparr>,
           Failure \<lparr>fl_id = rq_id head, fl_reason = ''DSH could not be reached: '' @ upstream_reason e\<rparr>]
       | Inr (Inr response) \<Rightarrow>
           if writable_headers (response_headers H response)
           then ms = response_messages H (rq_id head) response
             \<and> concat (chunk_body (hr_body response)) = hr_body response
           else \<exists>e. ms = told (rq_id head) (proxy_error_text e))"
proof -
  let ?p = "perform H (nw_exchange net) (sv_client sv) st head ob"
  have h: "handle H net st payload (sv, ob)
      = (case ?p of (r, ob) \<Rightarrow> Some (reported st (rq_id head) (r, sv, ob)))"
    using assms(2) by (simp add: handle_def)
  have none: "told i s = [] \<longleftrightarrow> \<not> length s \<le> MAX_CHUNK_BYTES" for i s by (simp add: told_def)
  have refused: "\<exists>r. handle H net st payload (sv, ob) = Some (r, sv, says st (told (rq_id head) (proxy_error_text e)) ob)
      \<and> (told (rq_id head) (proxy_error_text e) = [] \<longleftrightarrow> r \<noteq> Inr True)" if "?p = (Inl e, ob)" for e
    using reported_told [OF assms(1), of st "rq_id head" e sv] that h none by auto
  consider (bad) e where "validate_target (rq_target head) = Inl e
        \<or> (\<exists>d. validate_target (rq_target head) = Inr d \<and> request_body H head = Inl e)"
    | (good) d b where "validate_target (rq_target head) = Inr d" "request_body H head = Inr b"
    by (metis sum.exhaust)
  then show ?thesis
  proof cases
    case bad
    with refused [OF perform_refused [OF bad]] show ?thesis by auto
  next
    case good
    show ?thesis
    proof (cases "forward H (nw_exchange net) (sv_client sv) (rq_method head) d (rq_headers head) b")
      case (Inl e)
      have len: "length (upstream_reason e) \<le> 60" by (rule forward_reasons [OF Inl])
      have "ob_left (says st (told (rq_id head) (upstream_reason e)) ob) = None" using assms(1) by simp
      from reported_told [OF this, of st "rq_id head" "Upstream (upstream_reason e)" sv]
        perform_upstream_error [OF assms(1) good Inl] h good Inl len show ?thesis
        by (auto simp: told_def MAX_CHUNK_BYTES_eq)
    next
      case (Inr response)
      show ?thesis
      proof (cases "writable_headers (response_headers H response)")
        case True
        with perform_answers [OF assms(1) good Inr] h good Inr show ?thesis
          by (auto simp: reported_def response_messages_def chunk_body_def concat_chunks MAX_CHUNK_BYTES_eq)
      next
        case False
        with perform_head_too_large [OF assms(1) good Inr] refused good Inr show ?thesis by fastforce
      qed
    qed
  qed
qed

text \<open>A client that is not answered: the demo library, a DSH that times out, one empty request.\<close>

definition demo_client :: dsh_client where
  "demo_client = \<lparr>dc_base_url = ''http://127.0.0.1:3080'', dc_authority = ''127.0.0.1:3080'', dc_cookie = None\<rparr>"

definition demo_net :: network where
  "demo_net = \<lparr>nw_exchange = (\<lambda>_. TimedOut), nw_upgrade = (\<lambda>_. Inl ''refused'')\<rparr>"

definition demo_head :: request_head where
  "demo_head = \<lparr>rq_id = 7, rq_method = ''GET'', rq_target = ''/index.html'', rq_headers = [], rq_body = []\<rparr>"

lemma demo_head_decodes: "px_decode (px_wire (RequestStart demo_head)) = Inr (RequestStart demo_head)"
proof -
  have "readable (RequestStart demo_head)"
    by (simp add: demo_head_def readable_def readable_string_def is_utf8_ascii MAX_CHUNK_BYTES_eq)
  from proxy.rd_wr [OF this, of "[]"] show ?thesis by simp
qed

theorem request_is_answered_witness:
  "\<exists>r. handle demo_http demo_net 3 (px_wire (RequestStart demo_head)) (service_new demo_client, \<lparr>ob_sent = [], ob_left = None\<rparr>)
     = Some (r, service_new demo_client, says 3
         [Failure \<lparr>fl_id = 7, fl_reason = ''DSH is not answering on loopback''\<rparr>,
          Failure \<lparr>fl_id = 7, fl_reason = ''DSH could not be reached: DSH is not answering on loopback''\<rparr>]
         \<lparr>ob_sent = [], ob_left = None\<rparr>)"
proof -
  have "and_then (validate_target (rq_target demo_head)) (\<lambda>d. and_then (request_body demo_http demo_head) (\<lambda>b.
      Inr (forward demo_http (nw_exchange demo_net) (sv_client (service_new demo_client)) (rq_method demo_head) d
        (rq_headers demo_head) b))) = Inr (Inl (DshTransport ''loopback request timed out''))"
    by code_simp
  then show ?thesis
    using request_is_answered [OF _ demo_head_decodes, of "\<lparr>ob_sent = [], ob_left = None\<rparr>" demo_http demo_net 3
        "service_new demo_client"]
    by (auto simp: demo_head_def)
qed

lemma validate_target_Inr: "validate_target target = Inr d \<Longrightarrow> \<exists>p. d = CHR ''/'' # p"
  by (auto simp: validate_target_def starts_with_iff split: if_splits)

lemma forward_cong:
  assumes "http_contract H" "client_ok c" "\<forall>r. behind_fence H c r \<longrightarrow> ask r = ask' r"
  shows "forward H ask c method (CHR ''/'' # p) hs body = forward H ask' c method (CHR ''/'' # p) hs body"
proof (cases "forward_request H c method (CHR ''/'' # p) hs body")
  case (Inr r)
  with requests_behind_fence [OF assms(1,2)] assms(3) have "ask r = ask' r" by blast
  with Inr show ?thesis by (simp add: forward_eq)
qed (simp add: forward_eq)

lemma upgrade_cong:
  assumes "http_contract H" "client_ok c" "\<forall>r. behind_fence H c r \<longrightarrow> ask r = ask' r"
  shows "upgrade H ask c (CHR ''/'' # p) hs = upgrade H ask' c (CHR ''/'' # p) hs"
proof (cases "upgrade_request H c (CHR ''/'' # p) hs")
  case (Inr r)
  with requests_behind_fence [OF assms(1,2)] assms(3) have "ask r = ask' r" by blast
  with Inr show ?thesis by (simp add: upgrade_def)
qed (simp add: upgrade_def)

text \<open>
  C5. A remote client says what it wants and never where it goes: whatever bytes arrive on whatever
  stream, what the daemon does depends on the network only through requests behind the fence, to the
  authority DSH authenticated it under, with that one \<open>Host\<close>, the daemon's own cookie and no other, one
  true length, and no \<open>Origin\<close>, \<open>Referer\<close> or \<open>Transfer-Encoding\<close>; it never makes another request.
\<close>

theorem daemon_only_talks_to_its_dsh:
  assumes "http_contract H" and "client_new H base = Inr c0" and "set base \<inter> {CHR ''?'', CHR ''#''} = {}"
    and "sv_client sv = client_after H ts c0"
    and "\<forall>r. behind_fence H (sv_client sv) r \<longrightarrow>
      nw_exchange net r = nw_exchange net' r \<and> nw_upgrade net r = nw_upgrade net' r"
  shows "handle H net st payload (sv, ob) = handle H net' st payload (sv, ob)"
proof -
  have ok: "client_ok (sv_client sv)" using client_after_ok [OF assms(2,3)] assms(4) by simp
  have "perform H (nw_exchange net) (sv_client sv) i head ob = perform H (nw_exchange net') (sv_client sv) i head ob" for i head
  proof (cases "validate_target (rq_target head)")
    case (Inr d)
    with validate_target_Inr obtain p where "d = CHR ''/'' # p" by blast
    then have "forward H (nw_exchange net) (sv_client sv) m d hs b = forward H (nw_exchange net') (sv_client sv) m d hs b"
      for m hs b using forward_cong [OF assms(1) ok] assms(5) by blast
    with Inr show ?thesis by (simp add: perform_def tr_then_def tr_give_def split: sum.split)
  qed (simp add: perform_def tr_then_def tr_give_def)
  moreover have "open_websocket H net i open' (sv, ob) = open_websocket H net' i open' (sv, ob)" for i open'
  proof (cases "validate_target (wo_target open')")
    case (Inr d)
    with validate_target_Inr obtain p where "d = CHR ''/'' # p" by blast
    then have "upgrade H (nw_upgrade net) (sv_client sv) d hs = upgrade H (nw_upgrade net') (sv_client sv) d hs"
      for hs using upgrade_cong [OF assms(1) ok] assms(5) by blast
    with Inr show ?thesis by (simp add: open_websocket_def)
  qed (simp add: open_websocket_def)
  moreover have "handle_message H net st m (sv, ob) = handle_message H net' st m (sv, ob)" for m
    using calculation by (cases m) simp_all
  ultimately show ?thesis by (simp add: handle_def split: sum.split proxy_codec_error.split)
qed

definition demo_outbox :: outbox where
  "demo_outbox = \<lparr>ob_sent = [], ob_left = None\<rparr>"

theorem daemon_only_talks_to_its_dsh_witness:
  "handle demo_http demo_net 3 (px_wire (RequestStart demo_head)) (service_new demo_client, demo_outbox)
   = handle demo_http (demo_net\<lparr>nw_exchange := (\<lambda>r. if hl_authority demo_http (hq_uri r) = Some ''evil''
        then NoAnswer ''reached'' else TimedOut)\<rparr>) 3 (px_wire (RequestStart demo_head)) (service_new demo_client, demo_outbox)"
proof -
  have c: "client_new demo_http ''http://127.0.0.1:3080'' = Inr demo_client" by code_simp
  have n: "sv_client (service_new demo_client) = client_after demo_http [] demo_client"
    by (simp add: service_new_def client_after_def)
  show ?thesis
    by (rule daemon_only_talks_to_its_dsh [OF demo_http_contract c _ n])
      (auto simp: demo_net_def behind_fence_def service_new_def demo_client_def)
qed

section \<open>The order of WebSocket frames\<close>

fun handle_all :: "http_lib \<Rightarrow> network \<Rightarrow> u32 \<Rightarrow> byte list list \<Rightarrow> service \<times> outbox
    \<Rightarrow> (service \<times> outbox) option" where
  "handle_all H net st [] s = Some s"
| "handle_all H net st (p # ps) s =
     (case handle H net st p s of None \<Rightarrow> None | Some (r, s) \<Rightarrow> handle_all H net st ps s)"

definition data_wire :: "u64 \<Rightarrow> ws_frame \<Rightarrow> byte list" where
  "data_wire i f = px_wire (WsData \<lparr>wa_id = i, wa_frame = f\<rparr>)"

definition carried_frame :: "ws_frame \<Rightarrow> bool" where
  "carried_frame f = (case f of WsText t \<Rightarrow> is_utf8 t \<and> length t \<le> MAX_CHUNK_BYTES
     | WsBinary bs \<Rightarrow> length bs \<le> MAX_CHUNK_BYTES | WsFrameClose \<Rightarrow> False)"

lemma handle_data_wire:
  assumes "carried_frame f"
  shows "handle H net st (data_wire i f) s = handle_data st \<lparr>wa_id = i, wa_frame = f\<rparr> s"
proof -
  have "readable (WsData \<lparr>wa_id = i, wa_frame = f\<rparr>)"
    using assms by (auto simp: carried_frame_def readable_def readable_string_def split: ws_frame.splits)
  from proxy.rd_wr [OF this, of "[]"] show ?thesis by (simp add: handle_def data_wire_def)
qed

text \<open>Connection \<open>n\<close> is registered under \<open>i\<close> and its writing task is running.\<close>

definition open_at :: "u64 \<Rightarrow> nat \<Rightarrow> service \<Rightarrow> bool" where
  "open_at i n sv \<longleftrightarrow> map_of (sv_sockets sv) i = Some n \<and> n < length (sv_conns sv) \<and> cn_writing (sv_conns sv ! n)"

lemma on_conn_simps [simp]:
  "sv_sockets (on_conn n f sv) = sv_sockets sv" "length (sv_conns (on_conn n f sv)) = length (sv_conns sv)"
  "n < length (sv_conns sv) \<Longrightarrow> sv_conns (on_conn n f sv) ! n = f (sv_conns sv ! n)"
  "m \<noteq> n \<Longrightarrow> sv_conns (on_conn n f sv) ! m = sv_conns sv ! m"
  by (simp_all add: on_conn_def)

lemma frames_queued:
  assumes "list_all carried_frame fs" "open_at i n sv" "length (cn_queue (sv_conns sv ! n)) + length fs \<le> WS_QUEUE"
  shows "\<exists>sv'. handle_all H net st (map (data_wire i) fs) (sv, ob) = Some (sv', ob) \<and> open_at i n sv'
    \<and> sv_conns sv' ! n = (sv_conns sv ! n)\<lparr>cn_queue := cn_queue (sv_conns sv ! n) @ fs\<rparr>"
  using assms
proof (induction fs arbitrary: sv)
  case Nil
  then show ?case by simp
next
  case (Cons f fs)
  let ?sv = "on_conn n (try_send f) sv"
  have f: "handle H net st (data_wire i f) (sv, ob) = Some (Inr True, ?sv, ob)"
    using Cons.prems by (simp add: handle_data_wire handle_data_def open_at_def)
  have t: "sv_conns ?sv ! n = (sv_conns sv ! n)\<lparr>cn_queue := cn_queue (sv_conns sv ! n) @ [f]\<rparr>"
    using Cons.prems by (simp add: open_at_def try_send_def)
  then have "open_at i n ?sv" using Cons.prems by (simp add: open_at_def)
  from Cons.IH [OF _ this] Cons.prems t f show ?case by auto
qed

lemma frames_written:
  assumes "WsFrameClose \<notin> set fs" "open_at i n sv" "cn_queue (sv_conns sv ! n) = fs"
    and "so_faults (cn_socket (sv_conns sv ! n)) = []"
  shows "so_out (cn_socket (sv_conns ((writer_step n ^^ length fs) sv) ! n))
    = so_out (cn_socket (sv_conns sv ! n)) @ map (\<lambda>f. ws_message (to_dsh f)) fs"
  using assms
proof (induction fs arbitrary: sv)
  case Nil
  then show ?case by simp
next
  case (Cons f fs)
  let ?sv = "writer_step n sv" and ?c = "sv_conns sv ! n"
  have c: "sv_conns ?sv ! n = ?c\<lparr>cn_queue := fs, cn_socket := (cn_socket ?c)\<lparr>so_out := so_out (cn_socket ?c)
      @ [ws_message (to_dsh f)]\<rparr>, cn_writing := True\<rparr>"
    using Cons.prems by (auto simp: writer_step_def ws_send_def sock_write_def open_at_def Let_def)
  then have "open_at i n ?sv"
    using Cons.prems by (auto simp: writer_step_def ws_send_def sock_write_def open_at_def Let_def)
  from Cons.IH [OF _ this] Cons.prems c show ?case by (simp add: funpow_Suc_right del: funpow.simps)
qed

text \<open>
  The frames of a WebSocket reach DSH unchanged and each exactly once, in the order in which their
  handlers run. Every frame is handled by a task of its own, and nothing orders these: when they run
  in another order than the frames arrived in, nobody notices, and DSH receives the frames in that
  other order.
\<close>

theorem websocket_frames_follow_task_order:
  assumes "list_all carried_frame arrived" and "mset tasks = mset arrived"
    and "open_at i n sv" and "cn_queue (sv_conns sv ! n) = []" and "so_faults (cn_socket (sv_conns sv ! n)) = []"
    and "length arrived \<le> WS_QUEUE"
  shows "\<exists>sv'. handle_all H net st (map (data_wire i) tasks) (sv, ob) = Some (sv', ob)
    \<and> so_out (cn_socket (sv_conns ((writer_step n ^^ length arrived) sv') ! n))
      = so_out (cn_socket (sv_conns sv ! n)) @ map (\<lambda>f. ws_message (to_dsh f)) tasks"
proof -
  have t: "list_all carried_frame tasks" "length tasks = length arrived"
    using assms(1,2) by (auto simp: list_all_iff dest: mset_eq_setD mset_eq_length)
  then have c: "WsFrameClose \<notin> set tasks" by (auto simp: list_all_iff carried_frame_def)
  from frames_queued [OF t(1) assms(3)] assms(4,6) t(2) obtain sv' where
    q: "handle_all H net st (map (data_wire i) tasks) (sv, ob) = Some (sv', ob)" "open_at i n sv'"
       "sv_conns sv' ! n = (sv_conns sv ! n)\<lparr>cn_queue := tasks\<rparr>"
    by (metis add_0 append_Nil list.size(3))
  from frames_written [OF c q(2)] q assms(5) t(2) show ?thesis by auto
qed

definition demo_service :: service where
  "demo_service = register 3 \<lparr>wo_id = 9, wo_target = ''/api/remote.mux'', wo_headers = []\<rparr>
     \<lparr>so_in = [], so_out = [], so_faults = []\<rparr> (service_new demo_client)"

theorem websocket_frames_follow_task_order_witness:
  "\<exists>sv'. handle_all demo_http demo_net 3 [data_wire 9 (WsText ''b''), data_wire 9 (WsText ''a'')] (demo_service, demo_outbox)
       = Some (sv', demo_outbox)
     \<and> so_out (cn_socket (sv_conns ((writer_step 0 ^^ 2) sv') ! 0)) = [SentText ''b'', SentText ''a'']"
proof -
  let ?in = "[WsText ''a'', WsText ''b'']" and ?run = "[WsText ''b'', WsText ''a'']"
  have f: "list_all carried_frame ?in" "mset ?run = mset ?in" "length ?in = 2" "length ?in \<le> WS_QUEUE"
    by (simp_all add: carried_frame_def is_utf8_ascii MAX_CHUNK_BYTES_eq WS_QUEUE_def)
  have d: "open_at 9 0 demo_service" "cn_queue (sv_conns demo_service ! 0) = []"
    "so_faults (cn_socket (sv_conns demo_service ! 0)) = []" "so_out (cn_socket (sv_conns demo_service ! 0)) = []"
    by (simp_all add: open_at_def demo_service_def register_def service_new_def)
  show ?thesis
    using websocket_frames_follow_task_order [OF f(1,2) d(1-3) f(4), of demo_http demo_net 3 demo_outbox] unfolding f(3) d(4)
    by (simp only: list.map ws_message.simps to_dsh.simps append_Nil)
qed

section \<open>How WebSockets end\<close>

text \<open>
  A frame of DSH that does not fit into one message ends the WebSocket: the client is sent a close.
\<close>

lemma oversize_frame_ends_websocket:
  assumes "so_in (cn_socket (sv_conns sv ! n)) = GotBinary bs # es" "MAX_CHUNK_BYTES < length bs"
    and "n < length (sv_conns sv)" "ob_left ob = None"
  shows "snd (reader_step n (sv, ob)) = says (cn_stream (sv_conns sv ! n))
      [WsData \<lparr>wa_id = cn_id (sv_conns sv ! n), wa_frame = WsFrameClose\<rparr>] ob"
    and "\<not> cn_reading (sv_conns (fst (reader_step n (sv, ob))) ! n)"
proof -
  let ?m = "WsData \<lparr>wa_id = cn_id (sv_conns sv ! n), wa_frame = WsBinary bs\<rparr>"
  have "\<not> writable ?m" using assms(2) by (simp add: writable_def)
  then obtain e w where "px_encode ?m [] = (Inl e, w)" by (rule px_encode_refused)
  then have r: "reader_step n (sv, ob) = leave_reader n
      (on_conn n (\<lambda>c. c\<lparr>cn_socket := (cn_socket c)\<lparr>so_in := es\<rparr>\<rparr>) sv, ob)"
    using assms by (simp add: reader_step_def Let_def)
  have "writable (WsData \<lparr>wa_id = i, wa_frame = WsFrameClose\<rparr>)" for i by (simp add: writable_def)
  then show "snd (reader_step n (sv, ob)) = says (cn_stream (sv_conns sv ! n))
      [WsData \<lparr>wa_id = cn_id (sv_conns sv ! n), wa_frame = WsFrameClose\<rparr>] ob"
    "\<not> cn_reading (sv_conns (fst (reader_step n (sv, ob))) ! n)"
    using assms(3,4) unfolding r
    by (simp_all add: leave_reader_def Let_def service_send_ok unregister_def)
qed

text \<open>
  An id that is opened again while its first connection still runs names the second connection; when
  the first one ends, the entry of the second is removed, and its frames are refused from then on
  although it is open and its frames to the client still flow.
\<close>

lemma reused_id_loses_its_connection:
  assumes "sv = register st \<lparr>wo_id = i, wo_target = t, wo_headers = hs\<rparr> so sv1" "a < length (sv_conns sv1)"
    and "cn_id (sv_conns sv1 ! a) = i" "ob_left ob = None"
  shows "map_of (sv_sockets sv) i = Some (length (sv_conns sv1))"
    and "map_of (sv_sockets (fst (leave_reader a (sv, ob)))) i = None"
    and "cn_reading (sv_conns (fst (leave_reader a (sv, ob))) ! length (sv_conns sv1))"
  using assms
  by (auto simp: register_def leave_reader_def unregister_def Let_def on_conn_def nth_append
      AList.update_conv' AList.delete_conv' nth_list_update)

section \<open>The service as a machine\<close>

text \<open>
  Handlers and the tasks of the connections take turns, and a new carrier may bring a new outbox. The
  registry then names, under each id once, a connection that was opened with that id; no queue grows
  past its bound.
\<close>

inductive service_step :: "http_lib \<Rightarrow> service \<times> outbox \<Rightarrow> service \<times> outbox \<Rightarrow> bool" for H where
  by_handler: "handle H net st payload s = Some (r, s') \<Longrightarrow> service_step H s s'"
| by_reader: "n < length (sv_conns (fst s)) \<Longrightarrow> cn_reading (sv_conns (fst s) ! n) \<Longrightarrow> service_step H s (reader_step n s)"
| by_writer: "n < length (sv_conns sv) \<Longrightarrow> cn_writing (sv_conns sv ! n) \<Longrightarrow> service_step H (sv, ob) (writer_step n sv, ob)"
| by_carrier: "service_step H (sv, ob) (sv, ob')"

inductive_cases service_stepE: "service_step H s s'"

definition sockets_inv :: "service \<Rightarrow> bool" where
  "sockets_inv sv \<longleftrightarrow> distinct (map fst (sv_sockets sv))
     \<and> (\<forall>(i, n) \<in> set (sv_sockets sv). n < length (sv_conns sv) \<and> cn_id (sv_conns sv ! n) = i)
     \<and> (\<forall>n < length (sv_conns sv). length (cn_queue (sv_conns sv ! n)) \<le> WS_QUEUE)"

lemma sockets_inv_unregister [intro]: "sockets_inv sv \<Longrightarrow> sockets_inv (unregister i sv)"
  by (auto simp: sockets_inv_def unregister_def AList.delete_eq distinct_map_filter)

lemma sockets_inv_on_conn:
  "sockets_inv sv \<Longrightarrow> (\<And>c. cn_id (f c) = cn_id c) \<Longrightarrow>
   (n < length (sv_conns sv) \<Longrightarrow> length (cn_queue (sv_conns sv ! n)) \<le> WS_QUEUE \<Longrightarrow>
      length (cn_queue (f (sv_conns sv ! n))) \<le> WS_QUEUE) \<Longrightarrow>
   sockets_inv (on_conn n f sv)"
  by (cases "n < length (sv_conns sv)")
    (auto simp: sockets_inv_def on_conn_def nth_list_update list_update_beyond split: prod.splits)

lemma sockets_inv_try_send [intro]: "sockets_inv sv \<Longrightarrow> sockets_inv (on_conn n (try_send f) sv)"
  by (rule sockets_inv_on_conn) (auto simp: try_send_def)

lemma sockets_inv_register [intro]: "sockets_inv sv \<Longrightarrow> sockets_inv (register st open' so sv)"
proof -
  assume I: "sockets_inv sv"
  let ?s = "AList.update (wo_id open') (length (sv_conns sv)) (sv_sockets sv)"
  have d: "distinct (map fst (sv_sockets sv))" "distinct (map fst ?s)"
    using I by (auto simp: sockets_inv_def AList.distinct_update)
  have "(i, n) \<in> set ?s \<longleftrightarrow> (if i = wo_id open' then n = length (sv_conns sv) else (i, n) \<in> set (sv_sockets sv))" for i n
    using map_of_eq_Some_iff [OF d(2), of i n] map_of_eq_Some_iff [OF d(1), of i n]
    by (auto simp: AList.update_conv')
  with I d(2) show ?thesis
    by (auto simp: sockets_inv_def register_def nth_append less_Suc_eq split: if_splits)
qed

lemma sockets_inv_close [intro]: "sockets_inv sv \<Longrightarrow> sockets_inv (handle_close sv)"
proof -
  assume "sockets_inv sv"
  then have "sockets_inv (fold (\<lambda>(i :: u64, n). on_conn n (try_send WsFrameClose)) xs sv)" for xs
    by (induction xs arbitrary: sv) auto
  then show ?thesis by (simp add: handle_close_def sockets_inv_def)
qed

lemma sockets_inv_leave [intro]: "sockets_inv sv \<Longrightarrow> sockets_inv (fst (leave_reader n (sv, ob)))"
  by (auto simp: leave_reader_def Let_def intro!: sockets_inv_on_conn)

lemma sockets_inv_reader [intro]: "sockets_inv sv \<Longrightarrow> sockets_inv (fst (reader_step n (sv, ob)))"
proof -
  assume "sockets_inv sv"
  then have "sockets_inv (on_conn n (\<lambda>c. c\<lparr>cn_socket := (cn_socket c)\<lparr>so_in := es\<rparr>\<rparr>) sv)" for es
    by (rule sockets_inv_on_conn) auto
  then show ?thesis
    by (auto simp: reader_step_def Let_def split: prod.splits sum.splits option.splits)
qed

lemma sockets_inv_writer [intro]: "sockets_inv sv \<Longrightarrow> sockets_inv (writer_step n sv)"
  by (auto simp: writer_step_def Let_def intro!: sockets_inv_on_conn split: list.splits prod.splits)

lemma sockets_inv_open: "sockets_inv sv \<Longrightarrow> sockets_inv (fst (snd (open_websocket H net st open' (sv, ob))))"
  by (auto simp: open_websocket_def split: sum.split prod.split)

lemma reported_keeps: "reported i j t = (r, sv', ob') \<Longrightarrow> sv' = fst (snd t)"
  by (auto simp: reported_def split: sum.splits prod.splits)

lemma sockets_inv_handle:
  assumes "sockets_inv sv" and "handle H net st payload (sv, ob) = Some (r, s')"
  shows "sockets_inv (fst s')"
proof -
  obtain sv' ob' where [simp]: "s' = (sv', ob')" by fastforce
  have "handle_message H net st m (sv, ob) = Some (r, sv', ob') \<Longrightarrow> sockets_inv sv'" for m
    using assms(1)
    by (cases m) (auto simp: handle_data_def Let_def split: option.splits prod.splits if_splits
        dest!: reported_keeps intro: sockets_inv_open)
  with assms show ?thesis by (auto simp: handle_def split: sum.splits proxy_codec_error.splits)
qed

definition service_init :: "service \<times> outbox \<Rightarrow> bool" where
  "service_init s \<longleftrightarrow> (\<exists>c. fst s = service_new c)"

lemma distinct_numbers:
  "distinct (map fst xs) \<Longrightarrow> \<forall>(i, n) \<in> set xs. f n = i \<Longrightarrow> distinct (map snd xs)"
  by (induction xs) force+

interpretation websockets: guarded_machine service_init "service_step H" "\<lambda>s. sockets_inv (fst s)"
    "\<lambda>s. distinct (map snd (sv_sockets (fst s))) \<and> (\<forall>n \<in> snd ` set (sv_sockets (fst s)). n < length (sv_conns (fst s)))" for H
proof unfold_locales
  fix s t :: "service \<times> outbox"
  show "service_init s \<Longrightarrow> sockets_inv (fst s)" by (auto simp: service_init_def service_new_def sockets_inv_def)
  show "sockets_inv (fst s) \<Longrightarrow> service_step H s t \<Longrightarrow> sockets_inv (fst t)"
    by (cases s) (auto elim!: service_stepE dest: sockets_inv_handle)
  show "sockets_inv (fst s) \<Longrightarrow> distinct (map snd (sv_sockets (fst s)))
      \<and> (\<forall>n \<in> snd ` set (sv_sockets (fst s)). n < length (sv_conns (fst s)))"
    by (force simp: sockets_inv_def intro: distinct_numbers [where f = "\<lambda>n. cn_id (sv_conns (fst s) ! n)"])
qed

lemma handle_close_conns:
  assumes "distinct (map snd (sv_sockets sv))" "\<forall>n \<in> snd ` set (sv_sockets sv). n < length (sv_conns sv)"
  shows "(i, n) \<in> set (sv_sockets sv) \<Longrightarrow> sv_conns (handle_close sv) ! n = try_send WsFrameClose (sv_conns sv ! n)"
proof -
  let ?f = "\<lambda>(i :: u64, n). on_conn n (try_send WsFrameClose)"
  have keep: "m \<notin> snd ` set xs \<Longrightarrow> sv_conns (fold ?f xs s) ! m = sv_conns s ! m" for xs s m
    by (induction xs arbitrary: s) (auto simp: image_iff)
  have "distinct (map snd xs) \<Longrightarrow> \<forall>n \<in> snd ` set xs. n < length (sv_conns s) \<Longrightarrow> (i, n) \<in> set xs \<Longrightarrow>
      sv_conns (fold ?f xs s) ! n = try_send WsFrameClose (sv_conns s ! n)" for xs s
  proof (induction xs arbitrary: s)
    case (Cons x xs)
    obtain j m where x: "x = (j, m)" by fastforce
    show ?case
    proof (cases "n = m")
      case True
      with Cons.prems x have "n \<notin> snd ` set xs" by (metis distinct.simps(2) list.simps(9) set_map snd_conv)
      with Cons.prems x True show ?thesis by (simp add: keep)
    next
      case False
      with Cons.prems x have "(i, n) \<in> set xs" by auto
      with Cons.IH [of "?f x s"] Cons.prems x False show ?thesis by simp
    qed
  qed simp
  then show "(i, n) \<in> set (sv_sockets sv) \<Longrightarrow> sv_conns (handle_close sv) ! n = try_send WsFrameClose (sv_conns sv ! n)"
    using assms by (simp add: handle_close_def)
qed

lemma handle_close_others:
  "n \<notin> snd ` set (sv_sockets sv) \<Longrightarrow> sv_conns (handle_close sv) ! n = sv_conns sv ! n"
proof -
  have "m \<notin> snd ` set xs \<Longrightarrow>
      sv_conns (fold (\<lambda>(i :: u64, n). on_conn n (try_send WsFrameClose)) xs s) ! m = sv_conns s ! m" for xs s m
    by (induction xs arbitrary: s) (auto simp: image_iff)
  then show "n \<notin> snd ` set (sv_sockets sv) \<Longrightarrow> sv_conns (handle_close sv) ! n = sv_conns sv ! n"
    by (simp add: handle_close_def)
qed

text \<open>
  In every state the service can reach, the registry names each connection under one id, the one it
  was opened with, and no connection holds more than 64 frames back. A close that a client sends on one
  stream ends every WebSocket of the service, on whichever stream it was opened: each registered
  connection is sent a close behind the frames it still has to write, unless its queue is full, in
  which case DSH is not told; connections that are no longer registered are left alone.
\<close>

theorem close_ends_every_websocket:
  assumes "reachable service_init (service_step H) (sv, ob)"
  shows "(\<forall>(i, n) \<in> set (sv_sockets sv). n < length (sv_conns sv) \<and> cn_id (sv_conns sv ! n) = i
        \<and> length (cn_queue (sv_conns sv ! n)) \<le> 64)
    \<and> distinct (map fst (sv_sockets sv)) \<and> distinct (map snd (sv_sockets sv))
    \<and> (\<exists>sv'. handle H net st (px_wire WsClose) (sv, ob) = Some (Inr True, sv', ob) \<and> sv_sockets sv' = []
        \<and> (\<forall>n. sv_conns sv' ! n = (let c = sv_conns sv ! n in
             if n \<in> snd ` set (sv_sockets sv) \<and> cn_writing c \<and> length (cn_queue c) < 64
             then c\<lparr>cn_queue := cn_queue c @ [WsFrameClose]\<rparr> else c)))"
proof -
  have I: "sockets_inv sv" using websockets.reachable_inv [OF assms] by simp
  have S: "distinct (map snd (sv_sockets sv))" "\<forall>n \<in> snd ` set (sv_sockets sv). n < length (sv_conns sv)"
    using websockets.reachable_safe [OF assms] by simp_all
  have "readable WsClose" by (simp add: readable_def)
  from proxy.rd_wr [OF this, of "[]"]
  have "handle H net st (px_wire WsClose) (sv, ob) = Some (Inr True, handle_close sv, ob)" by (simp add: handle_def)
  moreover have "sv_sockets (handle_close sv) = []" by (simp add: handle_close_def)
  moreover have "sv_conns (handle_close sv) ! n = (let c = sv_conns sv ! n in
      if n \<in> snd ` set (sv_sockets sv) \<and> cn_writing c \<and> length (cn_queue c) < 64
      then c\<lparr>cn_queue := cn_queue c @ [WsFrameClose]\<rparr> else c)" for n
    using handle_close_conns [OF S, of _ n] handle_close_others [of n sv]
    by (cases "n \<in> snd ` set (sv_sockets sv)") (auto simp: try_send_def WS_QUEUE_def Let_def)
  ultimately show ?thesis using I S by (auto simp: sockets_inv_def WS_QUEUE_def)
qed

definition demo_open :: ws_open where
  "demo_open = \<lparr>wo_id = 9, wo_target = ''/api/remote.mux'', wo_headers = []\<rparr>"

definition upgrade_net :: network where
  "upgrade_net = demo_net\<lparr>nw_upgrade := (\<lambda>_. Inr (\<lparr>hr_status = 101, hr_headers = [], hr_body = []\<rparr>,
     Inr \<lparr>so_in = [], so_out = [], so_faults = []\<rparr>))\<rparr>"

lemma demo_service_reachable: "reachable service_init (service_step demo_http) (demo_service, ob)"
proof -
  let ?o = "\<lparr>ob_sent = [], ob_left = None\<rparr>"
  have "readable (WsOpen demo_open)"
    by (simp add: demo_open_def readable_def readable_string_def is_utf8_ascii MAX_CHUNK_BYTES_eq)
  then have "px_decode (px_wire (WsOpen demo_open)) = Inr (WsOpen demo_open)"
    using proxy.rd_wr [of "WsOpen demo_open" "[]"] by simp
  moreover have "validate_target (wo_target demo_open) = Inr (wo_target demo_open)" by code_simp
  moreover have "upgrade demo_http (nw_upgrade upgrade_net) demo_client (wo_target demo_open) (wo_headers demo_open)
      = Inr \<lparr>so_in = [], so_out = [], so_faults = []\<rparr>" by code_simp
  moreover have "writable (WsOpened \<lparr>wd_id = wo_id demo_open, wd_status = 101, wd_headers = []\<rparr>)"
    by (simp add: writable_def)
  ultimately obtain ob' where "handle demo_http upgrade_net 3 (px_wire (WsOpen demo_open)) (service_new demo_client, ?o)
      = Some (Inr True, demo_service, ob')"
    by (simp add: handle_def reported_def open_websocket_def service_send_ok demo_service_def service_new_def demo_open_def)
  moreover have "reachable service_init (service_step demo_http) (service_new demo_client, ?o)"
    by (rule reach_init) (auto simp: service_init_def)
  ultimately have "reachable service_init (service_step demo_http) (demo_service, ob')"
    by (blast intro: reach_step by_handler)
  then show ?thesis by (rule reach_step) (rule by_carrier)
qed

theorem close_ends_every_websocket_witness:
  "\<exists>sv'. handle demo_http demo_net 4 (px_wire WsClose) (demo_service, demo_outbox) = Some (Inr True, sv', demo_outbox)
     \<and> cn_stream (sv_conns sv' ! 0) = 3 \<and> cn_queue (sv_conns sv' ! 0) = [WsFrameClose]"
  using close_ends_every_websocket [OF demo_service_reachable, of demo_net 4 demo_outbox]
  by (auto simp: demo_service_def register_def service_new_def)

end
