(* ===== verification/Transport.thy ===== *)
theory Transport
  imports Session Registry Wire Socket
begin

text \<open>
  \<open>transport.rs\<close> of the daemon, with the messages of \<open>device.rs\<close> of \<open>dr-dsh-proto\<close>: the carrier of
  one connection, the exchange of the connection salt, device authentication, and the sealed frames.

  A connection runs as one task over one WebSocket (theory \<open>Socket\<close>). Random draws are arguments.
\<close>

section \<open>The socket\<close>

datatype transport_error =
    TrConnect string string
  | TrRefused string
  | TrHandshake string
  | TrTransport string
  | TrSession session_error
  | TrProtocol proto_error
  | TrProtocolViolation string
  | TrDeviceRefused string
  | TrSessionEnded string

definition socket_send :: "ws_sent \<Rightarrow> socket \<Rightarrow> (transport_error + unit) \<times> socket" where
  "socket_send m so = (let (r, so) = sock_write m so in (map_err TrTransport r, so))"

lemma socket_send_eq:
  "socket_send m so =
     (case so_faults so of
        Some e # fs \<Rightarrow> (Inl (TrTransport e), so\<lparr>so_faults := fs\<rparr>)
      | None # fs \<Rightarrow> (Inr (), so\<lparr>so_faults := fs, so_out := so_out so @ [m]\<rparr>)
      | [] \<Rightarrow> (Inr (), so\<lparr>so_out := so_out so @ [m]\<rparr>))"
  by (auto simp: socket_send_def sock_write_def split: list.splits option.splits)

definition closed :: transport_error where
  "closed = TrTransport ''the relay closed the connection''"

text \<open>
  The wait for a binary message shared by \<open>read_sealed\<close> and \<open>read_frame\<close>, with the pings of their
  \<open>_or_keepalive\<close> forms where \<open>pings\<close>.
\<close>

fun next_in :: "bool \<Rightarrow> ws_event list \<Rightarrow> socket \<Rightarrow> (transport_error + byte list) \<times> socket" where
  "next_in pings [] so = (Inl closed, so\<lparr>so_in := []\<rparr>)"
| "next_in pings (GotBinary bytes # es) so = (Inr bytes, so\<lparr>so_in := es\<rparr>)"
| "next_in pings (GotPing # es) so = next_in pings es so"
| "next_in pings (GotPong # es) so = next_in pings es so"
| "next_in pings (GotClose # es) so = (Inl closed, so\<lparr>so_in := es\<rparr>)"
| "next_in pings (GotText t # es) so = (Inl (TrSessionEnded t), so\<lparr>so_in := es\<rparr>)"
| "next_in pings (GotFrame # es) so = (Inl (TrProtocolViolation ''a raw frame''), so\<lparr>so_in := es\<rparr>)"
| "next_in pings (GotError e # es) so = (Inl (TrTransport e), so\<lparr>so_in := es\<rparr>)"
| "next_in pings (Tick # es) so =
     (if pings
      then (case socket_send SentPing so of
              (Inl e, so) \<Rightarrow> (Inl e, so\<lparr>so_in := es\<rparr>)
            | (Inr _, so) \<Rightarrow> next_in pings es so)
      else next_in pings es so)"

definition next_binary :: "bool \<Rightarrow> socket \<Rightarrow> (transport_error + byte list) \<times> socket" where
  "next_binary pings so = next_in pings (so_in so) so"

section \<open>Carrier frames\<close>

definition encode_frame :: "u32 \<Rightarrow> frame_type \<Rightarrow> byte list \<Rightarrow> transport_error + byte list" where
  "encode_frame stream_id ft payload =
     (if 2 ^ 32 \<le> length payload
      then Inl (TrProtocolViolation ''a payload that does not fit in a frame'')
      else case encode \<lparr>fr_header = \<lparr>fh_version = WIRE_VERSION, fh_frame_type = ft, fh_flags = 0,
                 fh_stream_id = stream_id, fh_payload_len = of_nat (length payload)\<rparr>,
               fr_payload = payload\<rparr> [] of
             (Inl e, out) \<Rightarrow> Inl (TrProtocol e)
           | (Inr _, out) \<Rightarrow> Inr out)"

text \<open>\<open>decode\<close> is called on a slice, where it cannot panic (\<open>decode_slice\<close>).\<close>

definition decode_frame :: "byte list \<Rightarrow> transport_error + u32 \<times> byte list" where
  "decode_frame bytes =
     (case slice_decode bytes of
        (Inl e, cursor) \<Rightarrow> Inl (TrProtocol e)
      | (Inr None, cursor) \<Rightarrow> Inl (TrProtocolViolation ''an incomplete frame'')
      | (Inr (Some f), cursor) \<Rightarrow>
          if cursor \<noteq> [] then Inl (TrProtocolViolation ''trailing bytes after a frame'')
          else if fh_frame_type (fr_header f) \<noteq> Data
          then Inl (TrProtocolViolation ''a non-data frame on the data path'')
          else Inr (fh_stream_id (fr_header f), fr_payload f))"

section \<open>Device messages\<close>

record device_challenge =
  dc_kind :: string
  dc_nonce :: string

record device_response =
  dr_kind :: string
  dr_device_id :: string
  dr_signature :: string

record device_accepted = da_kind :: string

record device_refused =
  df_kind :: string
  df_reason :: string

definition REASON_NOT_PAIRED :: string where "REASON_NOT_PAIRED = ''not_paired''"
definition REASON_BAD_PROOF :: string where "REASON_BAD_PROOF = ''bad_proof''"
definition REASON_UNKNOWN_DEVICE :: string where "REASON_UNKNOWN_DEVICE = ''unknown_device''"
definition CHALLENGE_TYPE :: string where "CHALLENGE_TYPE = ''resume_challenge''"
definition RESPONSE_TYPE :: string where "RESPONSE_TYPE = ''resume_response''"
definition ACCEPT_TYPE :: string where "ACCEPT_TYPE = ''resume_accept''"
definition REFUSE_TYPE :: string where "REFUSE_TYPE = ''resume_reject''"

section \<open>The transport\<close>

text \<open>Signing, and the (de)serialisers of the messages, are code outside the repository.\<close>

record transport_env =
  te_crypto :: crypto
  te_ident :: ident
  te_sign :: "byte list \<Rightarrow> byte list \<Rightarrow> byte list"
  te_challenge :: "device_challenge json"
  te_response :: "device_response json"
  te_accepted :: "device_accepted json"
  te_refused :: "device_refused json"

datatype device_policy = RoomKeyOnly | Enrolled device_registry

definition requires_proof :: "device_policy \<Rightarrow> bool" where
  "requires_proof p = (case p of Enrolled _ \<Rightarrow> True | RoomKeyOnly \<Rightarrow> False)"

record device_identity =
  di_device_id :: string
  di_room :: string
  di_key :: "byte list"

record inbound =
  ib_stream_id :: u32
  ib_payload :: "byte list"

record transport =
  tp_socket :: socket
  tp_session :: session
  tp_root :: "byte list"
  tp_role :: session_role
  tp_established :: bool
  tp_device_bound :: bool
  tp_bound_device :: "string option"
  tp_policy :: device_policy
  tp_identity :: "device_identity option"
  tp_room :: string

type_synonym 'a carried = "transport \<Rightarrow> (transport_error + 'a) \<times> transport"

definition on_socket :: "(socket \<Rightarrow> (transport_error + 'a) \<times> socket) \<Rightarrow> 'a carried" where
  "on_socket f t = (let (r, so) = f (tp_socket t) in (r, t\<lparr>tp_socket := so\<rparr>))"

definition on_session :: "(session \<Rightarrow> (session_error + 'a) \<times> session) \<Rightarrow> 'a carried" where
  "on_session f t = (let (r, s) = f (tp_session t) in (map_err TrSession r, t\<lparr>tp_session := s\<rparr>))"

definition SALT_LEN :: nat where "SALT_LEN = 32"
definition SESSION_ACK :: "byte list" where "SESSION_ACK = as_bytes ''k''"
definition PROVISIONAL_SALT :: "byte list" where "PROVISIONAL_SALT = replicate SALT_LEN 0"

definition write_sealed :: "transport_env \<Rightarrow> u32 \<Rightarrow> byte list \<Rightarrow> unit carried" where
  "write_sealed E stream_id plaintext =
     tr_then (on_session (session_seal (te_crypto E) stream_id plaintext)) (\<lambda>sealed.
     tr_then (tr_give (encode_frame stream_id Data sealed)) (\<lambda>frame.
     on_socket (socket_send (SentBinary frame))))"

definition read_sealed :: "bool \<Rightarrow> (u32 \<times> byte list) carried" where
  "read_sealed pings =
     tr_then (on_socket (next_binary pings)) (\<lambda>bytes. tr_give (decode_frame bytes))"

definition read_frame :: "transport_env \<Rightarrow> bool \<Rightarrow> inbound carried" where
  "read_frame E pings =
     tr_then (read_sealed pings) (\<lambda>(stream_id, sealed).
     tr_then (on_session (session_open (te_crypto E) stream_id sealed)) (\<lambda>payload.
     tr_give (Inr \<lparr>ib_stream_id = stream_id, ib_payload = payload\<rparr>)))"

definition require_established :: "unit carried" where
  "require_established t =
     (if tp_established t then Inr ()
      else Inl (TrHandshake ''the session is not established yet; call establish() after parking''), t)"

definition transport_send :: "transport_env \<Rightarrow> u32 \<Rightarrow> byte list \<Rightarrow> unit carried" where
  "transport_send E stream_id plaintext =
     tr_then require_established (\<lambda>_. write_sealed E stream_id plaintext)"

definition next_inbound :: "transport_env \<Rightarrow> bool \<Rightarrow> inbound carried" where
  "next_inbound E pings = tr_then require_established (\<lambda>_. read_frame E pings)"

definition is_device_bound :: "transport \<Rightarrow> bool" where
  "is_device_bound t \<longleftrightarrow> \<not> requires_proof (tp_policy t) \<or> tp_device_bound t"

definition must_answer_challenge :: "transport \<Rightarrow> bool" where
  "must_answer_challenge t \<longleftrightarrow> tp_role t = SessionClient \<and> tp_identity t \<noteq> None"

section \<open>Device authentication\<close>

definition write_control :: "transport_env \<Rightarrow> byte list \<Rightarrow> unit carried" where
  "write_control E message = write_sealed E CONTROL_STREAM_ID message"

definition read_control :: "transport_env \<Rightarrow> byte list carried" where
  "read_control E =
     tr_then (read_frame E False) (\<lambda>inbound.
     tr_give (if ib_stream_id inbound \<noteq> CONTROL_STREAM_ID
       then Inl (TrHandshake (''a frame arrived on stream '' @ decimal (unat (ib_stream_id inbound))
              @ '' during the handshake''))
       else Inr (ib_payload inbound)))"

definition write_json :: "transport_env \<Rightarrow> 'a json \<Rightarrow> 'a \<Rightarrow> unit carried" where
  "write_json E js x =
     tr_then (tr_give (map_err TrHandshake (to_json js x))) (\<lambda>encoded. write_control E (as_bytes encoded))"

definition json_from_slice :: "'a json \<Rightarrow> byte list \<Rightarrow> 'a option" where
  "json_from_slice js bytes = (case from_json js (from_bytes bytes) of Inl _ \<Rightarrow> None | Inr x \<Rightarrow> Some x)"

text \<open>The write and the close are best effort: their outcomes are discarded.\<close>

definition refuse_after :: "transport_env \<Rightarrow> string \<Rightarrow> string \<Rightarrow> 'a carried" where
  "refuse_after E reason detail t =
     (let t = (case to_json (te_refused E) \<lparr>df_kind = REFUSE_TYPE, df_reason = reason\<rparr> of
                 Inl _ \<Rightarrow> t | Inr encoded \<Rightarrow> snd (write_control E (as_bytes encoded) t));
          t = snd (on_socket (socket_send SentClose) t) in
      (Inl (TrDeviceRefused (reason @ '': '' @ detail)), t))"

definition bind_to :: "string option \<Rightarrow> transport \<Rightarrow> transport" where
  "bind_to device t =
     t\<lparr>tp_device_bound := True, tp_bound_device := (case device of None \<Rightarrow> tp_bound_device t | Some d \<Rightarrow> Some d)\<rparr>"

text \<open>\<open>challenge_client\<close>, from the answer on.\<close>

definition check_response :: "transport_env \<Rightarrow> byte list \<Rightarrow> byte list \<Rightarrow> unit carried" where
  "check_response E nonce answer t =
     (case json_from_slice (te_response E) answer of
        None \<Rightarrow> refuse_after E REASON_BAD_PROOF ''the client did not answer the challenge'' t
      | Some response \<Rightarrow>
          if dr_kind response \<noteq> RESPONSE_TYPE
          then refuse_after E REASON_BAD_PROOF ''the answer was not a response'' t
          else case id_from_base64url (te_ident E) (dr_device_id response) of
            Inl _ \<Rightarrow> refuse_after E REASON_UNKNOWN_DEVICE ''the device id is not usable'' t
          | Inr device_id \<Rightarrow>
              (case (case tp_policy t of Enrolled registry \<Rightarrow> challenge_key device_id registry
                     | RoomKeyOnly \<Rightarrow> None) of
                 None \<Rightarrow> refuse_after E REASON_NOT_PAIRED ''the device is not enrolled on this daemon'' t
               | Some key \<Rightarrow>
                   (case b64_decode (te_ident E) (dr_signature response) of
                      None \<Rightarrow> refuse_after E REASON_BAD_PROOF ''the signature is not base64url'' t
                    | Some signature \<Rightarrow>
                        (case key_verify (te_ident E) key (resume_message nonce (tp_room t)) signature of
                           Inl _ \<Rightarrow> refuse_after E REASON_BAD_PROOF ''the proof did not verify'' t
                         | Inr _ \<Rightarrow>
                             write_json E (te_accepted E) \<lparr>da_kind = ACCEPT_TYPE\<rparr>
                               (bind_to (Some (dr_device_id response)) t)))))"

definition challenge_client :: "transport_env \<Rightarrow> byte list \<Rightarrow> unit carried" where
  "challenge_client E nonce t =
     (if \<not> requires_proof (tp_policy t) then (Inr (), bind_to None t)
      else tr_then (write_json E (te_challenge E)
                      \<lparr>dc_kind = CHALLENGE_TYPE, dc_nonce = b64_encode (te_ident E) nonce\<rparr>) (\<lambda>_.
           tr_then (read_control E) (check_response E nonce)) t)"

definition client_response :: "transport_env \<Rightarrow> device_identity \<Rightarrow> byte list \<Rightarrow> transport_error + device_response" where
  "client_response E identity answer =
     (case json_from_slice (te_challenge E) answer of
        None \<Rightarrow> Inl (TrHandshake ''the daemon did not send a challenge'')
      | Some challenge \<Rightarrow>
          if dc_kind challenge \<noteq> CHALLENGE_TYPE
          then Inl (TrHandshake ''the daemon's first message was not a challenge'')
          else case b64_decode (te_ident E) (dc_nonce challenge) of
            None \<Rightarrow> Inl (TrHandshake ''the nonce is not base64url'')
          | Some nonce \<Rightarrow>
              if length nonce \<noteq> RESUME_NONCE_LEN
              then Inl (TrHandshake ''the challenge nonce is the wrong length'')
              else Inr \<lparr>dr_kind = RESPONSE_TYPE, dr_device_id = di_device_id identity,
                dr_signature = b64_encode (te_ident E)
                  (te_sign E (di_key identity) (resume_message nonce (di_room identity)))\<rparr>)"

definition check_acceptance :: "transport_env \<Rightarrow> byte list \<Rightarrow> transport_error + unit" where
  "check_acceptance E reply =
     (case json_from_slice (te_accepted E) reply of
        None \<Rightarrow> Inl (TrDeviceRefused REASON_BAD_PROOF)
      | Some accepted \<Rightarrow>
          if da_kind accepted \<noteq> ACCEPT_TYPE then Inl (TrDeviceRefused REASON_BAD_PROOF) else Inr ())"

definition answer_challenge :: "transport_env \<Rightarrow> unit carried" where
  "answer_challenge E t =
     (if \<not> must_answer_challenge t then (Inr (), bind_to None t)
      else case tp_identity t of
        None \<Rightarrow> (Inl (TrHandshake ''no device identity''), t)
      | Some identity \<Rightarrow>
          tr_then (read_control E) (\<lambda>answer.
          tr_then (tr_give (client_response E identity answer)) (\<lambda>response.
          tr_then (write_json E (te_response E) response) (\<lambda>_.
          tr_then (read_control E) (\<lambda>reply.
          tr_then (tr_give (check_acceptance E reply)) (\<lambda>_ t.
          (Inr (), bind_to None t)))))) t)"

definition bind_device :: "transport_env \<Rightarrow> byte list \<Rightarrow> unit carried" where
  "bind_device E nonce t =
     (case tp_role t of
        SessionDaemon \<Rightarrow> challenge_client E nonce t
      | SessionClient \<Rightarrow> answer_challenge E t)"

section \<open>Establishing the session\<close>

definition no_salt :: transport_error where
  "no_salt = TrHandshake ''the client did not open with a connection salt''"

text \<open>\<open>self.session = Session::derive(..)?\<close>, then the counter carried over.\<close>

definition rederive :: "transport_env \<Rightarrow> byte list \<Rightarrow> (session \<Rightarrow> session) \<Rightarrow> unit carried" where
  "rederive E salt carry t =
     (case session_derive (te_crypto E) (tp_root t) salt (tp_role t) of
        Inl e \<Rightarrow> (Inl (TrSession e), t)
      | Inr s \<Rightarrow> (Inr (), t\<lparr>tp_session := carry s\<rparr>))"

definition daemon_exchange :: "transport_env \<Rightarrow> bool \<Rightarrow> unit carried" where
  "daemon_exchange E pings =
     tr_then (read_sealed pings) (\<lambda>(stream_id, sealed).
     if stream_id \<noteq> CONTROL_STREAM_ID \<or> length sealed \<noteq> SALT_LEN + SEALED_OVERHEAD
     then tr_give (Inl no_salt)
     else tr_then (on_session (session_open (te_crypto E) stream_id sealed)) (\<lambda>payload.
       if length payload \<noteq> SALT_LEN then tr_give (Inl no_salt)
       else (\<lambda>t. let consumed = opened_count (tp_session t) in
         tr_then (rederive E payload (set_opened_count consumed))
           (\<lambda>_. write_sealed E CONTROL_STREAM_ID SESSION_ACK) t)))"

definition client_exchange :: "transport_env \<Rightarrow> byte list \<Rightarrow> unit carried" where
  "client_exchange E salt =
     tr_then (write_sealed E CONTROL_STREAM_ID salt) (\<lambda>_ t.
       let written = sealed_count (tp_session t) in
       tr_then (rederive E salt (set_sealed_count written)) (\<lambda>_.
       tr_then (read_frame E False) (\<lambda>acknowledgement.
       tr_give (if ib_stream_id acknowledgement \<noteq> CONTROL_STREAM_ID
                   \<or> ib_payload acknowledgement \<noteq> SESSION_ACK
                then Inl (TrHandshake ''the daemon did not acknowledge the session'') else Inr ()))) t)"

definition establish_with :: "transport_env \<Rightarrow> bool \<Rightarrow> byte list \<Rightarrow> byte list \<Rightarrow> unit carried" where
  "establish_with E pings salt nonce t =
     (if tp_established t then (Inr (), t)
      else tr_then (case tp_role t of SessionDaemon \<Rightarrow> daemon_exchange E pings
                    | SessionClient \<Rightarrow> client_exchange E salt) (\<lambda>_.
           tr_then (bind_device E nonce) (\<lambda>_ t.
           (Inr (), t\<lparr>tp_established := True\<rparr>))) t)"

section \<open>Parking\<close>

text \<open>
  What parking uses of the WebSocket library and of \<open>serde_json\<close>: connecting, the text of the hello,
  the reply as a JSON value (its \<open>type\<close> and \<open>reason\<close> where they are strings, and its text), and the
  \<open>Debug\<close> forms that go into messages.
\<close>

record relay_reply =
  ry_type :: "string option"
  ry_reason :: "string option"
  ry_text :: string

record park_env =
  pv_connect :: "string \<Rightarrow> string + socket"
  pv_hello :: "session_role \<Rightarrow> string \<Rightarrow> u16 \<times> u16 \<Rightarrow> string"
  pv_reply :: "string \<Rightarrow> relay_reply option"
  pv_debug_message :: "ws_event \<Rightarrow> string"
  pv_debug_text :: "string \<Rightarrow> string"

definition trim_end_slashes :: "string \<Rightarrow> string" where
  "trim_end_slashes s = rev (dropWhile (\<lambda>c. c = CHR ''/'') (rev s))"

definition parking_url :: "park_env \<Rightarrow> string \<Rightarrow> session_role \<Rightarrow> transport_error + string" where
  "parking_url V relay_url role =
     (let trimmed = trim_end_slashes relay_url in
      and_then (case strip_prefix ''http://'' trimmed of
          Some rest \<Rightarrow> Inr (''ws://'' @ rest)
        | None \<Rightarrow> (case strip_prefix ''https://'' trimmed of
              Some rest \<Rightarrow> Inr (''wss://'' @ rest)
            | None \<Rightarrow>
                if starts_with ''ws://'' trimmed \<or> starts_with ''wss://'' trimmed then Inr trimmed
                else Inl (TrHandshake (''relay URL must start with ws:// or wss://, got ''
                       @ pv_debug_text V relay_url))))
        (\<lambda>ws. if CHR ''?'' \<in> set ws
              then Inl (TrHandshake (''relay URL must not carry a query string; the room id travels in ''
                     @ ''the handshake''))
              else Inr (case role of SessionDaemon \<Rightarrow> ws @ ''/ws/daemon''
                        | SessionClient \<Rightarrow> ws @ ''/ws/client'')))"

definition reply_check :: "park_env \<Rightarrow> string \<Rightarrow> transport_error + unit" where
  "reply_check V text =
     (case pv_reply V text of
        None \<Rightarrow> Inl (TrHandshake text)
      | Some reply \<Rightarrow>
          if ry_type reply = Some ''ready'' then Inr ()
          else if ry_type reply = Some ''reject''
          then Inl (TrRefused (case ry_reason reply of Some r \<Rightarrow> r | None \<Rightarrow> ''no reason given''))
          else Inl (TrHandshake (ry_text reply)))"

definition park_on :: "transport_env \<Rightarrow> park_env \<Rightarrow> string \<Rightarrow> byte list \<Rightarrow> session_role \<Rightarrow> socket
    \<Rightarrow> transport_error + transport" where
  "park_on E V room root role so =
     (case socket_send (SentText (pv_hello V role room WIRE_VERSION)) so of
        (Inl e, so) \<Rightarrow> Inl e
      | (Inr _, so) \<Rightarrow>
          (case so_in so of
             [] \<Rightarrow> Inl (TrTransport ''the relay closed during the handshake'')
           | GotError e # es \<Rightarrow> Inl (TrTransport e)
           | GotText text # es \<Rightarrow>
               and_then (reply_check V text) (\<lambda>_.
               and_then (map_err TrSession (session_derive (te_crypto E) root PROVISIONAL_SALT role)) (\<lambda>s.
               Inr \<lparr>tp_socket = so\<lparr>so_in := es\<rparr>, tp_session = s, tp_root = root, tp_role = role,
                 tp_established = False, tp_device_bound = False, tp_bound_device = None,
                 tp_policy = RoomKeyOnly, tp_identity = None, tp_room = room\<rparr>))
           | other # es \<Rightarrow> Inl (TrHandshake (pv_debug_message V other))))"

definition park_carrier :: "transport_env \<Rightarrow> park_env \<Rightarrow> string \<Rightarrow> string \<Rightarrow> byte list \<Rightarrow> session_role
    \<Rightarrow> transport_error + transport" where
  "park_carrier E V relay_url room root role =
     and_then (parking_url V relay_url role) (\<lambda>url.
     and_then (map_err (TrConnect url) (pv_connect V url)) (park_on E V room root role))"

definition dial_with_policy :: "transport_env \<Rightarrow> park_env \<Rightarrow> string \<Rightarrow> string \<Rightarrow> byte list \<Rightarrow> device_policy
    \<Rightarrow> transport_error + transport" where
  "dial_with_policy E V relay_url room root policy =
     and_then (park_carrier E V relay_url room root SessionDaemon) (\<lambda>t. Inr (t\<lparr>tp_policy := policy\<rparr>))"

definition park_as_client :: "transport_env \<Rightarrow> park_env \<Rightarrow> string \<Rightarrow> string \<Rightarrow> byte list
    \<Rightarrow> device_identity option \<Rightarrow> transport_error + transport" where
  "park_as_client E V relay_url room root identity =
     and_then (park_carrier E V relay_url room root SessionClient) (\<lambda>t. Inr (t\<lparr>tp_identity := identity\<rparr>))"

definition join_as :: "transport_env \<Rightarrow> park_env \<Rightarrow> string \<Rightarrow> string \<Rightarrow> byte list \<Rightarrow> device_identity option
    \<Rightarrow> byte list \<Rightarrow> byte list \<Rightarrow> transport_error + transport" where
  "join_as E V relay_url room root identity salt nonce =
     and_then (park_as_client E V relay_url room root identity) (\<lambda>t.
     case establish_with E False salt nonce t of (Inl e, t) \<Rightarrow> Inl e | (Inr _, t) \<Rightarrow> Inr t)"

section \<open>Moving one payload\<close>

text \<open>
  What AES-256-GCM and HKDF-SHA256 document: a cipher exists for every key of the right length, every
  payload of a frame can be sealed, the tag is \<open>TAG_LEN\<close> bytes, and keys of the right length are derived.
\<close>

definition crypto_works :: "crypto \<Rightarrow> bool" where
  "crypto_works cr \<longleftrightarrow> aead_contract cr
     \<and> (\<forall>key nonce msg aad. length key = SESSION_KEY_LEN \<and> length nonce = NONCE_LEN
          \<and> length msg \<le> unat MAX_PAYLOAD_LEN \<longrightarrow>
          aead_new cr key = Inr ()
          \<and> (\<exists>ct. aead_encrypt cr key nonce msg aad = Some ct \<and> length ct = length msg + TAG_LEN))
     \<and> (\<forall>salt ikm info. \<exists>key. hkdf_expand cr (Some salt) ikm info SESSION_KEY_LEN = Inr key
          \<and> length key = SESSION_KEY_LEN)"

lemma crypto_works_contract: "crypto_works cr \<Longrightarrow> aead_contract cr"
  by (simp add: crypto_works_def)

definition MAX_PLAINTEXT :: nat where "MAX_PLAINTEXT = unat MAX_PAYLOAD_LEN - SEALED_OVERHEAD"

lemma MAX_PLAINTEXT_eq: "MAX_PLAINTEXT = 65512" "SEALED_OVERHEAD = 24"
  by (simp_all add: MAX_PLAINTEXT_def SEALED_OVERHEAD_def COUNTER_LEN_def TAG_LEN_def)

lemma seals:
  assumes "crypto_works cr" "length (sc_key c) = SESSION_KEY_LEN" "sc_nonce c \<noteq> - 1"
    and "length m \<le> unat MAX_PAYLOAD_LEN"
  shows "\<exists>f. seals_as cr c i m f \<and> length f = length m + SEALED_OVERHEAD"
proof -
  have "length (nonce_bytes (sc_nonce c)) = NONCE_LEN" by (simp add: nonce_bytes_def NONCE_LEN_def)
  with assms obtain ct where ct: "aead_new cr (sc_key c) = Inr ()"
    "aead_encrypt cr (sc_key c) (nonce_bytes (sc_nonce c)) m (additional_data i (sc_nonce c)) = Some ct"
    "length ct = length m + TAG_LEN"
    unfolding crypto_works_def by blast
  have "seals_as cr c i m (put_u64 (sc_nonce c) @ ct)"
    using assms(3) ct by (simp add: seals_as_def)
  with ct(3) show ?thesis
    by (intro exI [of _ "put_u64 (sc_nonce c) @ ct"])
      (simp add: SEALED_OVERHEAD_def COUNTER_LEN_def)
qed

lemma seals_length:
  assumes "crypto_works cr" "length (sc_key c) = SESSION_KEY_LEN" "length m \<le> unat MAX_PAYLOAD_LEN"
    and "seals_as cr c i m f"
  shows "length f = length m + SEALED_OVERHEAD"
proof -
  obtain f' where "seals_as cr c i m f'" "length f' = length m + SEALED_OVERHEAD"
    using seals [OF assms(1,2) _ assms(3), of i] assms(4) by (auto simp: seals_as_def)
  with assms(4) show ?thesis by (auto simp: seals_as_def)
qed

definition data_frame :: "u32 \<Rightarrow> byte list \<Rightarrow> frame" where
  "data_frame i payload = \<lparr>fr_header = \<lparr>fh_version = WIRE_VERSION, fh_frame_type = Data, fh_flags = 0,
     fh_stream_id = i, fh_payload_len = of_nat (length payload)\<rparr>, fr_payload = payload\<rparr>"

lemma wf_data_frame: "length payload \<le> unat MAX_PAYLOAD_LEN \<Longrightarrow> wf_frame (data_frame i payload)"
  by (simp add: wf_frame_def data_frame_def WIRE_VERSION_def)

lemma encode_frame_ok:
  "length payload \<le> unat MAX_PAYLOAD_LEN \<Longrightarrow> encode_frame i Data payload = Inr (frame_wr (data_frame i payload))"
  using encode_small [of "data_frame i payload" "[]"]
  by (simp add: encode_frame_def frame_wr_def data_frame_def)

lemma decode_frame_ok:
  "length payload \<le> unat MAX_PAYLOAD_LEN \<Longrightarrow> decode_frame (frame_wr (data_frame i payload)) = Inr (i, payload)"
  using slice_decode_wr [OF wf_data_frame, of payload i "[]"]
  by (simp add: decode_frame_def) (simp add: data_frame_def)

text \<open>What a peer, or the relay, can make \<open>decode_frame\<close> accept.\<close>

lemma decode_frame_Inr:
  "decode_frame bytes = Inr (i, payload) \<Longrightarrow>
   \<exists>f. wf_frame f \<and> bytes = frame_wr f \<and> fh_frame_type (fr_header f) = Data
     \<and> fh_stream_id (fr_header f) = i \<and> fr_payload f = payload"
  by (auto simp: decode_frame_def dest!: slice_decode_Some
      split: prod.splits sum.splits option.splits if_splits)

definition packet :: "u32 \<Rightarrow> byte list \<Rightarrow> byte list" where
  "packet i sealed = frame_wr (data_frame i sealed)"

definition advance :: "session_cipher \<Rightarrow> session_cipher" where
  "advance c = c\<lparr>sc_nonce := sc_nonce c + 1\<rparr>"

definition wrote :: "byte list \<Rightarrow> transport \<Rightarrow> transport" where
  "wrote b t = t\<lparr>tp_session := (tp_session t)\<lparr>ss_sealing := advance (ss_sealing (tp_session t))\<rparr>,
     tp_socket := (tp_socket t)\<lparr>so_out := so_out (tp_socket t) @ [SentBinary b]\<rparr>\<rparr>"

definition took :: "ws_event list \<Rightarrow> transport \<Rightarrow> transport" where
  "took es t = t\<lparr>tp_session := (tp_session t)\<lparr>ss_opening := advance (ss_opening (tp_session t))\<rparr>,
     tp_socket := (tp_socket t)\<lparr>so_in := es\<rparr>\<rparr>"

lemma wrote_simps [simp]:
  "ss_sealing (tp_session (wrote b t)) = advance (ss_sealing (tp_session t))"
  "ss_opening (tp_session (wrote b t)) = ss_opening (tp_session t)"
  "ss_role (tp_session (wrote b t)) = ss_role (tp_session t)"
  "so_out (tp_socket (wrote b t)) = so_out (tp_socket t) @ [SentBinary b]"
  "so_in (tp_socket (wrote b t)) = so_in (tp_socket t)"
  "so_faults (tp_socket (wrote b t)) = so_faults (tp_socket t)"
  "tp_root (wrote b t) = tp_root t" "tp_role (wrote b t) = tp_role t"
  "tp_established (wrote b t) = tp_established t" "tp_device_bound (wrote b t) = tp_device_bound t"
  "tp_bound_device (wrote b t) = tp_bound_device t" "tp_policy (wrote b t) = tp_policy t"
  "tp_identity (wrote b t) = tp_identity t" "tp_room (wrote b t) = tp_room t"
  by (simp_all add: wrote_def)

lemma took_simps [simp]:
  "ss_sealing (tp_session (took es t)) = ss_sealing (tp_session t)"
  "ss_opening (tp_session (took es t)) = advance (ss_opening (tp_session t))"
  "ss_role (tp_session (took es t)) = ss_role (tp_session t)"
  "so_out (tp_socket (took es t)) = so_out (tp_socket t)"
  "so_in (tp_socket (took es t)) = es"
  "so_faults (tp_socket (took es t)) = so_faults (tp_socket t)"
  "tp_root (took es t) = tp_root t" "tp_role (took es t) = tp_role t"
  "tp_established (took es t) = tp_established t" "tp_device_bound (took es t) = tp_device_bound t"
  "tp_bound_device (took es t) = tp_bound_device t" "tp_policy (took es t) = tp_policy t"
  "tp_identity (took es t) = tp_identity t" "tp_room (took es t) = tp_room t"
  by (simp_all add: took_def)

lemma advance_simps [simp]: "sc_key (advance c) = sc_key c" "sc_nonce (advance c) = sc_nonce c + 1"
  by (simp_all add: advance_def)

lemma write_ok:
  assumes works: "crypto_works (te_crypto E)" and m: "length m \<le> MAX_PLAINTEXT"
    and s: "seals_as (te_crypto E) (ss_sealing (tp_session t)) i m f"
    and k: "length (sc_key (ss_sealing (tp_session t))) = SESSION_KEY_LEN"
    and clean: "so_faults (tp_socket t) = []"
  shows "write_sealed E i m t = (Inr (), wrote (packet i f) t)"
proof -
  have f: "length f \<le> unat MAX_PAYLOAD_LEN"
    using seals_length [OF works k _ s] m by (simp add: MAX_PLAINTEXT_eq)
  have "session_seal (te_crypto E) i m (tp_session t)
      = (Inr f, (tp_session t)\<lparr>ss_sealing := advance (ss_sealing (tp_session t))\<rparr>)"
    using s by (simp add: session_seal_Inr_iff advance_def)
  then show ?thesis using f clean
    by (simp add: write_sealed_def tr_then_def tr_give_def on_session_def on_socket_def encode_frame_ok
        socket_send_eq wrote_def packet_def)
qed

lemma read_sealed_ok:
  assumes "length f \<le> unat MAX_PAYLOAD_LEN" "so_in (tp_socket t) = GotBinary (packet i f) # es"
  shows "read_sealed p t = (Inr (i, f), t\<lparr>tp_socket := (tp_socket t)\<lparr>so_in := es\<rparr>\<rparr>)"
  using assms decode_frame_ok [of f i]
  by (simp add: read_sealed_def tr_then_def tr_give_def on_socket_def next_binary_def packet_def)

lemma open_ok:
  assumes "crypto_works (te_crypto E)" "seals_as (te_crypto E) (ss_opening s) i m f"
  shows "session_open (te_crypto E) i f s = (Inr m, s\<lparr>ss_opening := advance (ss_opening s)\<rparr>)"
  using assms by (simp add: session_open_Inr_iff crypto_works_contract advance_def)

lemma read_ok:
  assumes works: "crypto_works (te_crypto E)"
    and s: "seals_as (te_crypto E) (ss_opening (tp_session t)) i m f"
    and f: "length f \<le> unat MAX_PAYLOAD_LEN" and es: "so_in (tp_socket t) = GotBinary (packet i f) # es"
  shows "read_frame E p t = (Inr \<lparr>ib_stream_id = i, ib_payload = m\<rparr>, took es t)"
  using read_sealed_ok [OF f es] open_ok [OF works s]
  by (simp add: read_frame_def tr_then_def tr_give_def on_session_def took_def)

text \<open>A carrier whose cipher works: what it writes for a payload is what a carrier in step reads.\<close>

definition can_send :: "transport_env \<Rightarrow> transport \<Rightarrow> bool" where
  "can_send E t \<longleftrightarrow> crypto_works (te_crypto E) \<and> so_faults (tp_socket t) = []
     \<and> length (sc_key (ss_sealing (tp_session t))) = SESSION_KEY_LEN"

lemma sent:
  assumes "can_send E t" "length m \<le> MAX_PLAINTEXT" "sc_nonce (ss_sealing (tp_session t)) \<noteq> - 1"
  shows "\<exists>f. seals_as (te_crypto E) (ss_sealing (tp_session t)) i m f
    \<and> length f \<le> unat MAX_PAYLOAD_LEN \<and> length f = length m + SEALED_OVERHEAD
    \<and> write_sealed E i m t = (Inr (), wrote (packet i f) t)"
proof -
  have w: "crypto_works (te_crypto E)" and c: "so_faults (tp_socket t) = []"
    and k: "length (sc_key (ss_sealing (tp_session t))) = SESSION_KEY_LEN"
    using assms(1) by (simp_all add: can_send_def)
  have m: "length m \<le> unat MAX_PAYLOAD_LEN" using assms(2) by (simp add: MAX_PLAINTEXT_eq)
  from seals [OF w k assms(3) m] obtain f where
    f: "seals_as (te_crypto E) (ss_sealing (tp_session t)) i m f" "length f = length m + SEALED_OVERHEAD"
    by blast
  then have "length f \<le> unat MAX_PAYLOAD_LEN" using assms(2) by (simp add: MAX_PLAINTEXT_eq)
  then show ?thesis using f write_ok [OF w assms(2) f(1) k c] by blast
qed

section \<open>The handshake between honest ends\<close>

definition c2d_key :: "crypto \<Rightarrow> byte list \<Rightarrow> byte list \<Rightarrow> byte list" where
  "c2d_key cr root salt = (case derive_key cr root salt SESSION_CLIENT_TO_DAEMON of Inl _ \<Rightarrow> [] | Inr k \<Rightarrow> k)"

definition d2c_key :: "crypto \<Rightarrow> byte list \<Rightarrow> byte list \<Rightarrow> byte list" where
  "d2c_key cr root salt = (case derive_key cr root salt SESSION_DAEMON_TO_CLIENT of Inl _ \<Rightarrow> [] | Inr k \<Rightarrow> k)"

lemma derived_keys:
  assumes "crypto_works cr"
  shows "length (c2d_key cr root salt) = SESSION_KEY_LEN" "length (d2c_key cr root salt) = SESSION_KEY_LEN"
    "session_derive cr root salt SessionClient = Inr \<lparr>ss_role = SessionClient,
       ss_sealing = cipher_new (c2d_key cr root salt), ss_opening = cipher_new (d2c_key cr root salt)\<rparr>"
    "session_derive cr root salt SessionDaemon = Inr \<lparr>ss_role = SessionDaemon,
       ss_sealing = cipher_new (d2c_key cr root salt), ss_opening = cipher_new (c2d_key cr root salt)\<rparr>"
proof -
  obtain k1 k2 where "hkdf_expand cr (Some salt) root SESSION_CLIENT_TO_DAEMON SESSION_KEY_LEN = Inr k1"
    "length k1 = SESSION_KEY_LEN"
    "hkdf_expand cr (Some salt) root SESSION_DAEMON_TO_CLIENT SESSION_KEY_LEN = Inr k2"
    "length k2 = SESSION_KEY_LEN"
    using assms unfolding crypto_works_def by meson
  then show "length (c2d_key cr root salt) = SESSION_KEY_LEN" "length (d2c_key cr root salt) = SESSION_KEY_LEN"
    "session_derive cr root salt SessionClient = Inr \<lparr>ss_role = SessionClient,
       ss_sealing = cipher_new (c2d_key cr root salt), ss_opening = cipher_new (d2c_key cr root salt)\<rparr>"
    "session_derive cr root salt SessionDaemon = Inr \<lparr>ss_role = SessionDaemon,
       ss_sealing = cipher_new (d2c_key cr root salt), ss_opening = cipher_new (c2d_key cr root salt)\<rparr>"
    by (simp_all add: c2d_key_def d2c_key_def derive_key_def session_derive_def)
qed

text \<open>The session of each end once the salt has been exchanged.\<close>

definition joined :: "crypto \<Rightarrow> byte list \<Rightarrow> byte list \<Rightarrow> session_role \<Rightarrow> session" where
  "joined cr root salt role =
     (let c2d = \<lparr>sc_key = c2d_key cr root salt, sc_nonce = 1\<rparr>;
          d2c = \<lparr>sc_key = d2c_key cr root salt, sc_nonce = 1\<rparr> in
      case role of
        SessionClient \<Rightarrow> \<lparr>ss_role = role, ss_sealing = c2d, ss_opening = d2c\<rparr>
      | SessionDaemon \<Rightarrow> \<lparr>ss_role = role, ss_sealing = d2c, ss_opening = c2d\<rparr>)"

definition parked :: "transport_env \<Rightarrow> byte list \<Rightarrow> session_role \<Rightarrow> transport \<Rightarrow> bool" where
  "parked E root role t \<longleftrightarrow> tp_root t = root \<and> tp_role t = role \<and> \<not> tp_established t
     \<and> session_derive (te_crypto E) root PROVISIONAL_SALT role = Inr (tp_session t)
     \<and> so_faults (tp_socket t) = []"

lemma parked_on:
  "park_on E V room root role so = Inr t \<Longrightarrow> so_faults so = [] \<Longrightarrow> parked E root role t"
  by (auto simp: park_on_def parked_def socket_send_eq and_then_Inr_iff split: list.splits ws_event.splits)

lemma parked_session:
  assumes "parked E root role t" "crypto_works (te_crypto E)"
  shows "role = SessionClient \<Longrightarrow>
      ss_sealing (tp_session t) = cipher_new (c2d_key (te_crypto E) root PROVISIONAL_SALT)"
    and "role = SessionDaemon \<Longrightarrow>
      ss_opening (tp_session t) = cipher_new (c2d_key (te_crypto E) root PROVISIONAL_SALT)"
  using assms derived_keys [OF assms(2)] by (auto simp: parked_def dest!: sym [of _ "tp_session t"])

lemma daemon_exchange_ok:
  assumes works: "crypto_works (te_crypto E)" and t: "parked E root SessionDaemon t"
    and salt: "length salt = SALT_LEN" and f1: "length f1 = SALT_LEN + SEALED_OVERHEAD"
    and s1: "seals_as (te_crypto E) (cipher_new (c2d_key (te_crypto E) root PROVISIONAL_SALT))
      CONTROL_STREAM_ID salt f1"
    and s2: "seals_as (te_crypto E) (cipher_new (d2c_key (te_crypto E) root salt))
      CONTROL_STREAM_ID SESSION_ACK f2"
    and es: "so_in (tp_socket t) = GotBinary (packet CONTROL_STREAM_ID f1) # es"
  shows "daemon_exchange E p t = (Inr (), t\<lparr>tp_session := joined (te_crypto E) root salt SessionDaemon,
    tp_socket := (tp_socket t)\<lparr>so_in := es, so_out := so_out (tp_socket t)
      @ [SentBinary (packet CONTROL_STREAM_ID f2)]\<rparr>\<rparr>)"
proof -
  let ?cr = "te_crypto E"
  let ?so = "(tp_socket t)\<lparr>so_in := es\<rparr>"
  let ?s = "(tp_session t)\<lparr>ss_opening := advance (ss_opening (tp_session t))\<rparr>"
  let ?d = "\<lparr>ss_role = SessionDaemon, ss_sealing = cipher_new (d2c_key ?cr root salt),
    ss_opening = (cipher_new (c2d_key ?cr root salt))\<lparr>sc_nonce := 1\<rparr>\<rparr>"
  let ?t2 = "t\<lparr>tp_socket := ?so, tp_session := ?d\<rparr>"
  have "length f1 \<le> unat MAX_PAYLOAD_LEN" using f1 by (simp add: MAX_PLAINTEXT_eq SALT_LEN_def)
  then have 1: "read_sealed p t = (Inr (CONTROL_STREAM_ID, f1), t\<lparr>tp_socket := ?so\<rparr>)"
    using es by (rule read_sealed_ok)
  have open_eq: "ss_opening (tp_session t) = cipher_new (c2d_key ?cr root PROVISIONAL_SALT)"
    using parked_session(2) [OF t works] by simp
  then have 2: "session_open ?cr CONTROL_STREAM_ID f1 (tp_session t) = (Inr salt, ?s)"
    using s1 by (intro open_ok [OF works]) simp
  have count: "opened_count ?s = 1" by (simp add: opened_count_def open_eq cipher_new_def)
  have root: "tp_root t = root" "tp_role t = SessionDaemon" "so_faults (tp_socket t) = []"
    using t by (simp_all add: parked_def)
  have "write_sealed E CONTROL_STREAM_ID SESSION_ACK ?t2 = (Inr (), wrote (packet CONTROL_STREAM_ID f2) ?t2)"
    using s2 root(3) derived_keys(2) [OF works]
    by (intro write_ok [OF works])
      (simp_all add: SESSION_ACK_def MAX_PLAINTEXT_eq cipher_new_def)
  moreover have "wrote (packet CONTROL_STREAM_ID f2) ?t2 = t\<lparr>tp_session := joined ?cr root salt SessionDaemon,
      tp_socket := (tp_socket t)\<lparr>so_in := es, so_out := so_out (tp_socket t)
        @ [SentBinary (packet CONTROL_STREAM_ID f2)]\<rparr>\<rparr>"
    by (simp add: wrote_def joined_def advance_def cipher_new_def)
  ultimately show ?thesis
    using f1 salt root count
    by (simp add: daemon_exchange_def tr_then_def tr_give_def 1 on_session_def 2 rederive_def
        derived_keys [OF works] set_opened_count_def)
qed

lemma client_exchange_ok:
  assumes works: "crypto_works (te_crypto E)" and t: "parked E root SessionClient t"
    and salt: "length salt = SALT_LEN"
    and s1: "seals_as (te_crypto E) (cipher_new (c2d_key (te_crypto E) root PROVISIONAL_SALT))
      CONTROL_STREAM_ID salt f1"
    and s2: "seals_as (te_crypto E) (cipher_new (d2c_key (te_crypto E) root salt))
      CONTROL_STREAM_ID SESSION_ACK f2"
    and es: "so_in (tp_socket t) = GotBinary (packet CONTROL_STREAM_ID f2) # es"
  shows "client_exchange E salt t = (Inr (), t\<lparr>tp_session := joined (te_crypto E) root salt SessionClient,
    tp_socket := (tp_socket t)\<lparr>so_in := es, so_out := so_out (tp_socket t)
      @ [SentBinary (packet CONTROL_STREAM_ID f1)]\<rparr>\<rparr>)"
proof -
  let ?cr = "te_crypto E"
  let ?t1 = "wrote (packet CONTROL_STREAM_ID f1) t"
  let ?c = "\<lparr>ss_role = SessionClient, ss_sealing = (cipher_new (c2d_key ?cr root salt))\<lparr>sc_nonce := 1\<rparr>,
    ss_opening = cipher_new (d2c_key ?cr root salt)\<rparr>"
  let ?t2 = "?t1\<lparr>tp_session := ?c\<rparr>"
  have seal_eq: "ss_sealing (tp_session t) = cipher_new (c2d_key ?cr root PROVISIONAL_SALT)"
    using parked_session(1) [OF t works] by simp
  have root: "tp_root t = root" "tp_role t = SessionClient" "so_faults (tp_socket t) = []"
    using t by (simp_all add: parked_def)
  have 1: "write_sealed E CONTROL_STREAM_ID salt t = (Inr (), ?t1)"
    using s1 root(3) salt derived_keys(1) [OF works] unfolding seal_eq [symmetric]
    by (intro write_ok [OF works]) (simp_all add: SALT_LEN_def MAX_PLAINTEXT_eq seal_eq cipher_new_def)
  have count: "sealed_count (tp_session ?t1) = 1" by (simp add: sealed_count_def seal_eq cipher_new_def)
  have "length f2 = length SESSION_ACK + SEALED_OVERHEAD"
    using s2 derived_keys(2) [OF works]
    by (intro seals_length [OF works _ _ s2]) (simp_all add: cipher_new_def SESSION_ACK_def)
  then have "length f2 \<le> unat MAX_PAYLOAD_LEN" by (simp add: MAX_PLAINTEXT_eq SESSION_ACK_def)
  then have "read_frame E False ?t2
      = (Inr \<lparr>ib_stream_id = CONTROL_STREAM_ID, ib_payload = SESSION_ACK\<rparr>, took es ?t2)"
    using s2 es by (intro read_ok [OF works]) simp_all
  moreover have "took es ?t2 = t\<lparr>tp_session := joined ?cr root salt SessionClient,
      tp_socket := (tp_socket t)\<lparr>so_in := es, so_out := so_out (tp_socket t)
        @ [SentBinary (packet CONTROL_STREAM_ID f1)]\<rparr>\<rparr>"
    by (simp add: took_def wrote_def joined_def advance_def cipher_new_def)
  ultimately show ?thesis
    using root count
    by (simp add: client_exchange_def tr_then_def tr_give_def 1 Let_def rederive_def
        derived_keys [OF works] set_sealed_count_def)
qed

text \<open>Sending one JSON message on the control stream, and receiving it.\<close>

definition writes_short :: "'a json \<Rightarrow> 'a \<Rightarrow> bool" where
  "writes_short js x \<longleftrightarrow> (\<exists>text. to_json js x = Inr text \<and> from_json js text = Inr x \<and> length text \<le> MAX_PLAINTEXT)"

definition carries :: "transport_env \<Rightarrow> 'a json \<Rightarrow> 'a \<Rightarrow> session_cipher \<Rightarrow> byte list \<Rightarrow> bool" where
  "carries E js x c f \<longleftrightarrow>
     (\<exists>enc. to_json js x = Inr enc \<and> from_json js enc = Inr x \<and> length enc \<le> MAX_PLAINTEXT
        \<and> seals_as (te_crypto E) c CONTROL_STREAM_ID (as_bytes enc) f \<and> length f \<le> unat MAX_PAYLOAD_LEN)"

lemma carries_ex:
  assumes works: "crypto_works (te_crypto E)" and x: "writes_short js x"
    and c: "length (sc_key c) = SESSION_KEY_LEN" "sc_nonce c \<noteq> - 1"
  shows "\<exists>f. carries E js x c f"
proof -
  from x obtain enc where x: "to_json js x = Inr enc" "from_json js enc = Inr x" "length enc \<le> MAX_PLAINTEXT"
    by (auto simp: writes_short_def)
  then have "length (as_bytes enc) \<le> unat MAX_PAYLOAD_LEN" by (simp add: MAX_PLAINTEXT_eq)
  from seals [OF works c this] x show ?thesis unfolding carries_def
    by (fastforce simp: MAX_PLAINTEXT_eq)
qed

lemma carries_write:
  assumes "carries E js x (ss_sealing (tp_session t)) f" "can_send E t"
  shows "write_json E js x t = (Inr (), wrote (packet CONTROL_STREAM_ID f) t)"
proof -
  from assms(1) obtain enc where
    e: "to_json js x = Inr enc" "length (as_bytes enc) \<le> MAX_PLAINTEXT"
       "seals_as (te_crypto E) (ss_sealing (tp_session t)) CONTROL_STREAM_ID (as_bytes enc) f"
    by (auto simp: carries_def)
  have "write_sealed E CONTROL_STREAM_ID (as_bytes enc) t = (Inr (), wrote (packet CONTROL_STREAM_ID f) t)"
    using assms(2) by (intro write_ok [OF _ e(2,3)]) (simp_all add: can_send_def)
  then show ?thesis by (simp add: write_json_def tr_then_def tr_give_def write_control_def e(1))
qed

lemma read_control_ok:
  assumes "crypto_works (te_crypto E)" "seals_as (te_crypto E) (ss_opening (tp_session t)) CONTROL_STREAM_ID m f"
    and "length f \<le> unat MAX_PAYLOAD_LEN"
    and "so_in (tp_socket t) = GotBinary (packet CONTROL_STREAM_ID f) # es"
  shows "read_control E t = (Inr m, took es t)"
  using read_ok [OF assms] by (simp add: read_control_def tr_then_def tr_give_def)

lemma carries_read:
  assumes "carries E js x (ss_opening (tp_session t)) f" "crypto_works (te_crypto E)"
    and "so_in (tp_socket t) = GotBinary (packet CONTROL_STREAM_ID f) # es"
  shows "\<exists>m. read_control E t = (Inr m, took es t) \<and> json_from_slice js m = Some x"
proof -
  from assms(1) obtain enc where e: "from_json js enc = Inr x" "length f \<le> unat MAX_PAYLOAD_LEN"
    "seals_as (te_crypto E) (ss_opening (tp_session t)) CONTROL_STREAM_ID (as_bytes enc) f"
    by (auto simp: carries_def)
  have "json_from_slice js (as_bytes enc) = Some x" by (simp add: json_from_slice_def e(1))
  with read_control_ok [OF assms(2) e(3,2) assms(3)] show ?thesis by blast
qed

text \<open>
  What the two ends must share for the client to be let in: the daemon's policy asks for no proof and
  the client has no identity to prove, or the client's key signs as the key the daemon has enrolled
  under the id it names, for the daemon's room.
\<close>

definition admits :: "transport_env \<Rightarrow> transport \<Rightarrow> transport \<Rightarrow> byte list \<Rightarrow> bool" where
  "admits E c d nonce \<longleftrightarrow>
     (case (tp_policy d, tp_identity c) of
        (RoomKeyOnly, None) \<Rightarrow> True
      | (Enrolled registry, Some identity) \<Rightarrow>
          ident_contract (te_ident E) \<and> length nonce = RESUME_NONCE_LEN \<and> di_room identity = tp_room d
          \<and> writes_short (te_challenge E)
              \<lparr>dc_kind = CHALLENGE_TYPE, dc_nonce = b64_encode (te_ident E) nonce\<rparr>
          \<and> (\<forall>sig. length sig = DEVICE_SIGNATURE_LEN \<longrightarrow> writes_short (te_response E)
              \<lparr>dr_kind = RESPONSE_TYPE, dr_device_id = di_device_id identity,
               dr_signature = b64_encode (te_ident E) sig\<rparr>)
          \<and> writes_short (te_accepted E) \<lparr>da_kind = ACCEPT_TYPE\<rparr>
          \<and> (\<exists>device_id key. id_from_base64url (te_ident E) (di_device_id identity) = Inr device_id
               \<and> challenge_key device_id registry = Some key
               \<and> (\<forall>m. length (te_sign E (di_key identity) m) = DEVICE_SIGNATURE_LEN
                    \<and> key_verify (te_ident E) key m (te_sign E (di_key identity) m) = Inr ()))
      | _ \<Rightarrow> False)"

text \<open>The two ends of a joined session whose counters are at \<open>i\<close> (client) and \<open>j\<close> (daemon).\<close>

definition linked :: "transport_env \<Rightarrow> byte list \<Rightarrow> byte list \<Rightarrow> u64 \<Rightarrow> u64 \<Rightarrow> transport \<Rightarrow> transport \<Rightarrow> bool" where
  "linked E root salt i j c d \<longleftrightarrow>
     tp_role c = SessionClient \<and> tp_role d = SessionDaemon
     \<and> ss_sealing (tp_session c) = \<lparr>sc_key = c2d_key (te_crypto E) root salt, sc_nonce = i\<rparr>
     \<and> ss_opening (tp_session d) = \<lparr>sc_key = c2d_key (te_crypto E) root salt, sc_nonce = i\<rparr>
     \<and> ss_sealing (tp_session d) = \<lparr>sc_key = d2c_key (te_crypto E) root salt, sc_nonce = j\<rparr>
     \<and> ss_opening (tp_session c) = \<lparr>sc_key = d2c_key (te_crypto E) root salt, sc_nonce = j\<rparr>
     \<and> so_faults (tp_socket c) = [] \<and> so_faults (tp_socket d) = []"

lemma linked_can_send:
  "linked E root salt i j c d \<Longrightarrow> crypto_works (te_crypto E) \<Longrightarrow> can_send E c \<and> can_send E d"
  using derived_keys [of "te_crypto E" root salt] by (simp add: linked_def can_send_def)

text \<open>Feeding a carrier: what it will receive, in front of what it would receive anyway.\<close>

definition feed :: "byte list list \<Rightarrow> transport \<Rightarrow> transport" where
  "feed ps t = t\<lparr>tp_socket := (tp_socket t)\<lparr>so_in := map GotBinary ps @ so_in (tp_socket t)\<rparr>\<rparr>"

definition sends :: "byte list list \<Rightarrow> transport \<Rightarrow> transport \<Rightarrow> bool" where
  "sends ps t t' \<longleftrightarrow> so_out (tp_socket t') = so_out (tp_socket t) @ map SentBinary ps
     \<and> so_in (tp_socket t') = so_in (tp_socket t)"

lemma feed_simps [simp]:
  "tp_session (feed ps t) = tp_session t" "so_out (tp_socket (feed ps t)) = so_out (tp_socket t)"
  "so_in (tp_socket (feed ps t)) = map GotBinary ps @ so_in (tp_socket t)"
  "so_faults (tp_socket (feed ps t)) = so_faults (tp_socket t)"
  "tp_root (feed ps t) = tp_root t" "tp_role (feed ps t) = tp_role t"
  "tp_established (feed ps t) = tp_established t" "tp_device_bound (feed ps t) = tp_device_bound t"
  "tp_bound_device (feed ps t) = tp_bound_device t" "tp_policy (feed ps t) = tp_policy t"
  "tp_identity (feed ps t) = tp_identity t" "tp_room (feed ps t) = tp_room t"
  by (simp_all add: feed_def)

lemma parked_feed [simp]: "parked E root role (feed ps t) = parked E root role t"
  by (simp add: parked_def)

lemma bind_to_simps [simp]:
  "tp_session (bind_to d t) = tp_session t" "tp_socket (bind_to d t) = tp_socket t"
  "tp_role (bind_to d t) = tp_role t" "tp_root (bind_to d t) = tp_root t"
  "tp_established (bind_to d t) = tp_established t" "tp_device_bound (bind_to d t)"
  "tp_policy (bind_to d t) = tp_policy t" "tp_identity (bind_to d t) = tp_identity t"
  "tp_room (bind_to d t) = tp_room t" "tp_bound_device (bind_to (Some i) t) = Some i"
  "tp_bound_device (bind_to None t) = tp_bound_device t"
  by (simp_all add: bind_to_def)

lemma linked_keys:
  assumes "linked E root salt i j c d" "crypto_works (te_crypto E)"
  shows "length (sc_key (ss_sealing (tp_session c))) = SESSION_KEY_LEN"
    "length (sc_key (ss_sealing (tp_session d))) = SESSION_KEY_LEN"
    "ss_opening (tp_session d) = ss_sealing (tp_session c)"
    "ss_opening (tp_session c) = ss_sealing (tp_session d)"
    "sc_nonce (ss_sealing (tp_session c)) = i" "sc_nonce (ss_sealing (tp_session d)) = j"
  using assms derived_keys [OF assms(2), of root salt] by (simp_all add: linked_def)

text \<open>What device authentication leaves of the two ends.\<close>

definition bound :: "transport_env \<Rightarrow> byte list \<Rightarrow> byte list \<Rightarrow> transport \<Rightarrow> transport
    \<Rightarrow> transport \<Rightarrow> transport \<Rightarrow> bool" where
  "bound E root salt c d c' d' \<longleftrightarrow>
     (\<exists>i j. unat i \<le> 3 \<and> unat j \<le> 3 \<and> linked E root salt i j c' d')
     \<and> tp_device_bound c' \<and> tp_device_bound d'
     \<and> (\<forall>identity. tp_identity c = Some identity \<longrightarrow> tp_bound_device d' = Some (di_device_id identity))"

definition devices_agree :: "transport_env \<Rightarrow> byte list \<Rightarrow> byte list \<Rightarrow> byte list \<Rightarrow> byte list
    \<Rightarrow> transport \<Rightarrow> transport \<Rightarrow> bool" where
  "devices_agree E root salt nonce nc c d \<longleftrightarrow>
     (\<exists>cs ds c' d'. bind_device E nonce (feed cs d) = (Inr (), d') \<and> bind_device E nc (feed ds c) = (Inr (), c')
        \<and> sends ds d d' \<and> sends cs c c' \<and> bound E root salt c d c' d')"

lemma devices_agree_room_key:
  assumes l: "linked E root salt 1 1 c d" and p: "tp_policy d = RoomKeyOnly" "tp_identity c = None"
  shows "devices_agree E root salt nonce nc c d"
proof -
  have r: "tp_role c = SessionClient" "tp_role d = SessionDaemon" using l by (simp_all add: linked_def)
  have "linked E root salt 1 1 (bind_to None (feed [] c)) (bind_to None (feed [] d))"
    using l by (simp add: linked_def)
  then have "bound E root salt c d (bind_to None (feed [] c)) (bind_to None (feed [] d))"
    unfolding bound_def using p(2) by (intro conjI exI [of _ 1]) auto
  moreover have "bind_device E nonce (feed [] d) = (Inr (), bind_to None (feed [] d))"
    "bind_device E nc (feed [] c) = (Inr (), bind_to None (feed [] c))"
    using r p by (simp_all add: bind_device_def challenge_client_def answer_challenge_def requires_proof_def
        must_answer_challenge_def)
  ultimately show ?thesis unfolding devices_agree_def
    by (intro exI [of _ "[]"] exI [of _ "bind_to None (feed [] c)"] exI [of _ "bind_to None (feed [] d)"])
      (simp add: sends_def)
qed

lemma devices_agree_enrolled:
  assumes works: "crypto_works (te_crypto E)" and l: "linked E root salt 1 1 c d"
    and p: "tp_policy d = Enrolled registry" "tp_identity c = Some identity"
    and ok: "admits E c d nonce"
  shows "devices_agree E root salt nonce nc c d"
proof -
  let ?cr = "te_crypto E" and ?I = "te_ident E"
  let ?challenge = "\<lparr>dc_kind = CHALLENGE_TYPE, dc_nonce = b64_encode ?I nonce\<rparr>"
  let ?sig = "te_sign E (di_key identity) (resume_message nonce (di_room identity))"
  let ?response = "\<lparr>dr_kind = RESPONSE_TYPE, dr_device_id = di_device_id identity,
    dr_signature = b64_encode ?I ?sig\<rparr>"
  let ?accepted = "\<lparr>da_kind = ACCEPT_TYPE\<rparr>"
  let ?cc = "ss_sealing (tp_session c)" and ?dd = "ss_sealing (tp_session d)"
  note k = linked_keys [OF l works]
  have r: "tp_role c = SessionClient" "tp_role d = SessionDaemon"
    and faults: "so_faults (tp_socket c) = []" "so_faults (tp_socket d) = []"
    using l by (simp_all add: linked_def)
  from ok p obtain device_id key where
    id: "ident_contract ?I" "length nonce = RESUME_NONCE_LEN" "di_room identity = tp_room d"
      "id_from_base64url ?I (di_device_id identity) = Inr device_id"
      "challenge_key device_id registry = Some key"
      "key_verify ?I key (resume_message nonce (tp_room d)) ?sig = Inr ()"
    and short: "writes_short (te_challenge E) ?challenge" "writes_short (te_response E) ?response"
      "writes_short (te_accepted E) ?accepted"
    by (auto simp: admits_def)
  have b64: "b64_decode ?I (b64_encode ?I x) = Some x" for x using id(1) by (simp add: ident_contract_def)
  obtain f1 where f1: "carries E (te_challenge E) ?challenge ?dd f1"
    using carries_ex [OF works short(1) k(2)] k(6) by auto
  obtain f2 where f2: "carries E (te_response E) ?response ?cc f2"
    using carries_ex [OF works short(2) k(1)] k(5) by auto
  obtain f3 where f3: "carries E (te_accepted E) ?accepted (advance ?dd) f3"
    using carries_ex [OF works short(3), of "advance ?dd"] k(2,6) by auto
  let ?p = "packet CONTROL_STREAM_ID"
  define d1 where "d1 = wrote (?p f1) (feed [?p f2] d)"
  define d2 where "d2 = took (so_in (tp_socket d)) d1"
  define d3 where "d3 = bind_to (Some (di_device_id identity)) d2"
  define d4 where "d4 = wrote (?p f3) d3"
  define c1 where "c1 = took (GotBinary (?p f3) # so_in (tp_socket c)) (feed [?p f1, ?p f3] c)"
  define c2 where "c2 = wrote (?p f2) c1"
  define c3 where "c3 = took (so_in (tp_socket c)) c2"
  have "write_json E (te_challenge E) ?challenge (feed [?p f2] d) = (Inr (), d1)"
    unfolding d1_def using f1 works faults k by (intro carries_write) (simp_all add: can_send_def)
  moreover obtain m2 where "read_control E d1 = (Inr m2, d2)" "json_from_slice (te_response E) m2 = Some ?response"
    using carries_read [OF _ works, of "te_response E" ?response d1 f2 "so_in (tp_socket d)"] f2 k
    by (auto simp: d1_def d2_def)
  moreover have "write_json E (te_accepted E) ?accepted d3 = (Inr (), d4)"
    unfolding d4_def using f3 works faults k
    by (intro carries_write) (simp_all add: can_send_def d3_def d2_def d1_def)
  ultimately have D: "bind_device E nonce (feed [?p f2] d) = (Inr (), d4)"
    using r p id b64 by (simp add: bind_device_def challenge_client_def requires_proof_def tr_then_def
        check_response_def d3_def) (simp add: d2_def d1_def)
  obtain m1 where "read_control E (feed [?p f1, ?p f3] c) = (Inr m1, c1)"
      "json_from_slice (te_challenge E) m1 = Some ?challenge"
    using carries_read [OF _ works, of "te_challenge E" ?challenge "feed [?p f1, ?p f3] c" f1] f1 k
    by (auto simp: c1_def)
  moreover have "write_json E (te_response E) ?response c1 = (Inr (), c2)"
    unfolding c2_def using f2 works faults k by (intro carries_write) (simp_all add: can_send_def c1_def)
  moreover obtain m3 where "read_control E c2 = (Inr m3, c3)"
      "json_from_slice (te_accepted E) m3 = Some ?accepted"
    using carries_read [OF _ works, of "te_accepted E" ?accepted c2 f3 "so_in (tp_socket c)"] f3 k
    by (auto simp: c2_def c1_def c3_def)
  ultimately have C: "bind_device E nc (feed [?p f1, ?p f3] c) = (Inr (), bind_to None c3)"
    using r p(2) id(2,3) b64 by (simp add: bind_device_def answer_challenge_def must_answer_challenge_def
        tr_then_def tr_give_def client_response_def check_acceptance_def)
  have "linked E root salt 2 3 (bind_to None c3) d4"
    using l by (simp add: linked_def d4_def d3_def d2_def d1_def c3_def c2_def c1_def advance_def)
  then have "bound E root salt c d (bind_to None c3) d4"
    unfolding bound_def using p(2)
    by (intro conjI exI [of _ 2] exI [of _ 3]) (auto simp: d4_def d3_def)
  with C D show ?thesis unfolding devices_agree_def
    by (intro exI [of _ "[?p f2]"] exI [of _ "[?p f1, ?p f3]"] exI [of _ "bind_to None c3"] exI [of _ d4])
      (simp add: sends_def d4_def d3_def d2_def d1_def c3_def c2_def c1_def)
qed

section \<open>Content over an established carrier\<close>

text \<open>
  One end posts a payload and the packet leaves; the other collects it. \<open>Channel\<close> gives the delivery
  of whole sequences.
\<close>

definition post :: "transport_env \<Rightarrow> u32 \<times> byte list \<Rightarrow> transport \<Rightarrow> (transport_error + byte list) \<times> transport" where
  "post E m = tr_then (transport_send E (fst m) (snd m)) (\<lambda>_ t.
     (case last (so_out (tp_socket t)) of SentBinary b \<Rightarrow> (Inr b, t) | _ \<Rightarrow> (Inl closed, t)))"

definition collect :: "transport_env \<Rightarrow> byte list \<Rightarrow> transport \<Rightarrow> (transport_error + u32 \<times> byte list) \<times> transport" where
  "collect E b t = tr_then (next_inbound E False)
     (\<lambda>inbound. tr_give (Inr (ib_stream_id inbound, ib_payload inbound))) (feed [b] t)"

definition synced :: "transport_env \<Rightarrow> transport \<Rightarrow> transport \<Rightarrow> bool" where
  "synced E s r \<longleftrightarrow> aead_contract (te_crypto E) \<and> tp_established s \<and> tp_established r
     \<and> ss_sealing (tp_session s) = ss_opening (tp_session r)"

lemma socket_send_Inr: "socket_send m so = (Inr x, so') \<Longrightarrow> so_out so' = so_out so @ [m]"
  by (auto simp: socket_send_eq split: list.splits option.splits)

lemma encode_frame_Inr: "encode_frame i Data f = Inr b \<Longrightarrow> length f \<le> unat MAX_PAYLOAD_LEN \<and> b = packet i f"
proof -
  assume e: "encode_frame i Data f = Inr b"
  have "length f \<le> unat MAX_PAYLOAD_LEN"
  proof (rule ccontr)
    assume "\<not> length f \<le> unat MAX_PAYLOAD_LEN"
    then have "65536 < length (fr_payload (data_frame i f))" by (simp add: data_frame_def)
    from encode_large [OF this, of "[]"] e show False
      by (auto simp: encode_frame_def data_frame_def split: if_splits)
  qed
  then show ?thesis using e by (simp add: encode_frame_ok packet_def)
qed

lemma on_socket_Inr_iff:
  "on_socket f t = (Inr x, t') \<longleftrightarrow> (\<exists>so. f (tp_socket t) = (Inr x, so) \<and> t' = t\<lparr>tp_socket := so\<rparr>)"
  by (auto simp: on_socket_def split: prod.splits)

lemma on_session_Inr_iff:
  "on_session f t = (Inr x, t') \<longleftrightarrow> (\<exists>s. f (tp_session t) = (Inr x, s) \<and> t' = t\<lparr>tp_session := s\<rparr>)"
  by (cases "fst (f (tp_session t))") (auto simp: on_session_def split: prod.splits)

lemma write_sealed_Inr:
  assumes "write_sealed E i m t = (Inr x, t')"
  shows "\<exists>f. seals_as (te_crypto E) (ss_sealing (tp_session t)) i m f
    \<and> length f \<le> unat MAX_PAYLOAD_LEN \<and> tp_established t' = tp_established t
    \<and> so_out (tp_socket t') = so_out (tp_socket t) @ [SentBinary (packet i f)]
    \<and> ss_sealing (tp_session t') = advance (ss_sealing (tp_session t))"
  using assms
  by (auto simp: write_sealed_def tr_then_Inr_iff tr_give_def on_session_Inr_iff on_socket_Inr_iff
      session_seal_Inr_iff advance_def dest!: encode_frame_Inr socket_send_Inr)

lemma post_Inr:
  assumes "post E m t = (Inr b, t')"
  shows "\<exists>f. seals_as (te_crypto E) (ss_sealing (tp_session t)) (fst m) (snd m) f
    \<and> length f \<le> unat MAX_PAYLOAD_LEN \<and> b = packet (fst m) f \<and> tp_established t' = tp_established t
    \<and> ss_sealing (tp_session t') = advance (ss_sealing (tp_session t))"
proof -
  from assms obtain x t1 where w: "write_sealed E (fst m) (snd m) t = (Inr x, t1)"
    and b: "(case last (so_out (tp_socket t1)) of SentBinary b \<Rightarrow> (Inr b, t1) | _ \<Rightarrow> (Inl closed, t1)) = (Inr b, t')"
    by (auto simp only: post_def transport_send_def require_established_def tr_then_Inr_iff split: if_splits)
  from write_sealed_Inr [OF w] b show ?thesis by auto
qed

lemma collect_ok:
  assumes "aead_contract (te_crypto E)" "tp_established t" "length f \<le> unat MAX_PAYLOAD_LEN"
    and "seals_as (te_crypto E) (ss_opening (tp_session t)) i m f"
  shows "collect E (packet i f) t = (Inr (i, m), took (so_in (tp_socket t)) (feed [packet i f] t))"
proof -
  have s: "session_open (te_crypto E) i f (tp_session t)
      = (Inr m, (tp_session t)\<lparr>ss_opening := advance (ss_opening (tp_session t))\<rparr>)"
    using assms(1,4) by (simp add: session_open_Inr_iff advance_def)
  have "read_frame E False (feed [packet i f] t)
      = (Inr \<lparr>ib_stream_id = i, ib_payload = m\<rparr>, took (so_in (tp_socket t)) (feed [packet i f] t))"
    using read_sealed_ok [OF assms(3), of "feed [packet i f] t" i "so_in (tp_socket t)" False] s
    by (simp add: read_frame_def tr_then_def tr_give_def on_session_def took_def)
  then show ?thesis using assms(2)
    by (simp add: collect_def next_inbound_def require_established_def tr_then_def tr_give_def)
qed

interpretation carrier: ordered_channel "post E" "collect E" "synced E" for E
proof unfold_locales
  fix s r m b s' assume y: "synced E s r" and p: "post E m s = (Inr b, s')"
  from post_Inr [OF p] obtain f where f: "seals_as (te_crypto E) (ss_sealing (tp_session s)) (fst m) (snd m) f"
    "length f \<le> unat MAX_PAYLOAD_LEN" "b = packet (fst m) f" "tp_established s' = tp_established s"
    "ss_sealing (tp_session s') = advance (ss_sealing (tp_session s))"
    by blast
  with y collect_ok [of E r f "fst m" "snd m"]
  show "\<exists>r'. collect E b r = (Inr m, r') \<and> synced E s' r'" by (simp add: synced_def)
qed

section \<open>Properties\<close>

text \<open>The salt frame and the acknowledgement, which determine the exchange.\<close>

lemma salt_frames:
  assumes works: "crypto_works (te_crypto E)" and salt: "length salt = SALT_LEN"
  obtains f1 f2 where
    "seals_as (te_crypto E) (cipher_new (c2d_key (te_crypto E) root PROVISIONAL_SALT)) CONTROL_STREAM_ID salt f1"
    "length f1 = SALT_LEN + SEALED_OVERHEAD"
    "seals_as (te_crypto E) (cipher_new (d2c_key (te_crypto E) root salt)) CONTROL_STREAM_ID SESSION_ACK f2"
proof -
  have s: "length salt \<le> unat MAX_PAYLOAD_LEN" "length SESSION_ACK \<le> unat MAX_PAYLOAD_LEN"
    using salt by (simp_all add: SALT_LEN_def SESSION_ACK_def)
  have n: "sc_nonce (cipher_new k) \<noteq> - 1" for k by (simp add: cipher_new_def)
  have k: "length (sc_key (cipher_new (c2d_key (te_crypto E) root z))) = SESSION_KEY_LEN"
    "length (sc_key (cipher_new (d2c_key (te_crypto E) root z))) = SESSION_KEY_LEN" for z
    using derived_keys(1,2) [OF works] by (simp_all add: cipher_new_def)
  from seals [OF works k(1) n s(1)] seals [OF works k(2) n s(2)] salt that show thesis by metis
qed

lemma establish_daemon:
  assumes "\<not> tp_established t" "tp_role t = SessionDaemon" "daemon_exchange E p t = (Inr (), t1)"
    and "bind_device E nonce t1 = (Inr (), t2)"
  shows "establish_with E p salt nonce t = (Inr (), t2\<lparr>tp_established := True\<rparr>)"
  using assms by (simp add: establish_with_def tr_then_def)

lemma establish_client:
  assumes "\<not> tp_established t" "tp_role t = SessionClient" "client_exchange E salt t = (Inr (), t1)"
    and "bind_device E nonce t1 = (Inr (), t2)"
  shows "establish_with E p salt nonce t = (Inr (), t2\<lparr>tp_established := True\<rparr>)"
  using assms by (simp add: establish_with_def tr_then_def)

text \<open>An end after the exchange, its later input kept.\<close>

definition exchanged :: "transport_env \<Rightarrow> byte list \<Rightarrow> byte list \<Rightarrow> byte list \<Rightarrow> transport \<Rightarrow> transport" where
  "exchanged E root salt b t =
     t\<lparr>tp_session := joined (te_crypto E) root salt (tp_role t),
       tp_socket := (tp_socket t)\<lparr>so_out := so_out (tp_socket t) @ [SentBinary b]\<rparr>\<rparr>"

lemma exchanged_simps [simp]:
  "so_out (tp_socket (exchanged E root salt b t)) = so_out (tp_socket t) @ [SentBinary b]"
  "so_in (tp_socket (exchanged E root salt b t)) = so_in (tp_socket t)"
  "so_faults (tp_socket (exchanged E root salt b t)) = so_faults (tp_socket t)"
  "tp_role (exchanged E root salt b t) = tp_role t" "tp_policy (exchanged E root salt b t) = tp_policy t"
  "tp_identity (exchanged E root salt b t) = tp_identity t" "tp_room (exchanged E root salt b t) = tp_room t"
  by (simp_all add: exchanged_def)

lemma exchange_feeds:
  assumes works: "crypto_works (te_crypto E)" and salt: "length salt = SALT_LEN"
    and f: "seals_as (te_crypto E) (cipher_new (c2d_key (te_crypto E) root PROVISIONAL_SALT)) CONTROL_STREAM_ID salt f1"
      "length f1 = SALT_LEN + SEALED_OVERHEAD"
      "seals_as (te_crypto E) (cipher_new (d2c_key (te_crypto E) root salt)) CONTROL_STREAM_ID SESSION_ACK f2"
  shows "parked E root SessionDaemon d \<Longrightarrow> daemon_exchange E p (feed (packet CONTROL_STREAM_ID f1 # cs) d)
      = (Inr (), feed cs (exchanged E root salt (packet CONTROL_STREAM_ID f2) d))"
    and "parked E root SessionClient c \<Longrightarrow> client_exchange E salt (feed (packet CONTROL_STREAM_ID f2 # ds) c)
      = (Inr (), feed ds (exchanged E root salt (packet CONTROL_STREAM_ID f1) c))"
proof -
  show "daemon_exchange E p (feed (packet CONTROL_STREAM_ID f1 # cs) d)
      = (Inr (), feed cs (exchanged E root salt (packet CONTROL_STREAM_ID f2) d))"
    if "parked E root SessionDaemon d"
    using that
    by (subst daemon_exchange_ok [OF works _ salt f(2,1,3)])
      (simp_all add: feed_def exchanged_def parked_def, cases "tp_socket d", simp)
  show "client_exchange E salt (feed (packet CONTROL_STREAM_ID f2 # ds) c)
      = (Inr (), feed ds (exchanged E root salt (packet CONTROL_STREAM_ID f1) c))"
    if "parked E root SessionClient c"
    using that
    by (subst client_exchange_ok [OF works _ salt f(1,3)])
      (simp_all add: feed_def exchanged_def parked_def, cases "tp_socket c", simp)
qed

lemma exchanged_linked:
  "parked E root SessionClient c \<Longrightarrow> parked E root SessionDaemon d \<Longrightarrow>
   linked E root salt 1 1 (exchanged E root salt b c) (exchanged E root salt b' d)"
  by (simp add: linked_def exchanged_def parked_def joined_def Let_def)

lemma devices_agree_admitted:
  assumes "crypto_works (te_crypto E)" "linked E root salt 1 1 c d" "admits E c d nonce"
  shows "devices_agree E root salt nonce nc c d"
  using assms devices_agree_room_key [OF assms(2)] devices_agree_enrolled [OF assms(1,2) _ _ assms(3)]
  by (auto simp: admits_def split: device_policy.splits option.splits)

text \<open>
  C2. Two honest ends of one room meet: whatever packets the client writes are the daemon's input and
  the other way round, both handshakes succeed with nothing left over, the daemon names the device that
  proved itself when its policy asks for one, and from then on every sequence of payloads one end sends
  is read by the other, in both directions, in order and unchanged.
\<close>

theorem handshake_establishes:
  assumes "crypto_works (te_crypto E)" "parked E root SessionClient c" "parked E root SessionDaemon d"
    and "length salt = SALT_LEN" "admits E c d nonce"
  shows "\<exists>cs ds c' d'.
      establish_with E False salt nc (feed ds c) = (Inr (), c') \<and> sends cs c c'
    \<and> establish_with E pings sd nonce (feed cs d) = (Inr (), d') \<and> sends ds d d'
    \<and> tp_device_bound d'
    \<and> (\<forall>identity. tp_identity c = Some identity \<longrightarrow> tp_bound_device d' = Some (di_device_id identity))
    \<and> (\<forall>ms bs c''. send_all (post E) ms c' = (Inr bs, c'') \<longrightarrow>
         (\<exists>d''. recv_all (collect E) bs d' = (Inr ms, d'')))
    \<and> (\<forall>ms bs d''. send_all (post E) ms d' = (Inr bs, d'') \<longrightarrow>
         (\<exists>c''. recv_all (collect E) bs c' = (Inr ms, c'')))"
proof -
  note works = assms(1)
  obtain f1 f2 where
    f: "seals_as (te_crypto E) (cipher_new (c2d_key (te_crypto E) root PROVISIONAL_SALT)) CONTROL_STREAM_ID salt f1"
      "length f1 = SALT_LEN + SEALED_OVERHEAD"
      "seals_as (te_crypto E) (cipher_new (d2c_key (te_crypto E) root salt)) CONTROL_STREAM_ID SESSION_ACK f2"
    by (rule salt_frames [OF works assms(4)])
  let ?p = "packet CONTROL_STREAM_ID"
  let ?c = "exchanged E root salt (?p f1) c" and ?d = "exchanged E root salt (?p f2) d"
  have l: "linked E root salt 1 1 ?c ?d" by (rule exchanged_linked [OF assms(2,3)])
  moreover have "admits E ?c ?d nonce" using assms(5) unfolding admits_def exchanged_simps .
  ultimately have "devices_agree E root salt nonce nc ?c ?d" by (rule devices_agree_admitted [OF works])
  then obtain cs ds c1 d1 where
    b: "bind_device E nonce (feed cs ?d) = (Inr (), d1)" "bind_device E nc (feed ds ?c) = (Inr (), c1)"
       "sends ds ?d d1" "sends cs ?c c1" "bound E root salt ?c ?d c1 d1"
    unfolding devices_agree_def by blast
  let ?c' = "c1\<lparr>tp_established := True\<rparr>" and ?d' = "d1\<lparr>tp_established := True\<rparr>"
  have "establish_with E False salt nc (feed (?p f2 # ds) c) = (Inr (), ?c')"
    using assms(2) exchange_feeds(2) [OF works assms(4) f assms(2), of ds] b(2)
    by (intro establish_client) (auto simp: parked_def)
  moreover have "establish_with E pings sd nonce (feed (?p f1 # cs) d) = (Inr (), ?d')"
    using assms(3) exchange_feeds(1) [OF works assms(4) f assms(3), of pings cs] b(1)
    by (intro establish_daemon) (auto simp: parked_def)
  moreover have "sends (?p f1 # cs) c ?c'" "sends (?p f2 # ds) d ?d'"
    using b(3,4) by (simp_all add: sends_def)
  moreover have "synced E ?c' ?d'" "synced E ?d' ?c'"
    using b(5) crypto_works_contract [OF works] by (auto simp: bound_def linked_def synced_def)
  moreover have "tp_device_bound ?d'"
    "\<forall>identity. tp_identity c = Some identity \<longrightarrow> tp_bound_device ?d' = Some (di_device_id identity)"
    using b(5) by (simp_all add: bound_def)
  ultimately show ?thesis using carrier.delivers_all by blast
qed

section \<open>A concrete environment\<close>

text \<open>An AEAD whose tag is made of the key and the nonce, and formats that write every message.\<close>

definition tag_crypto :: crypto where
  "tag_crypto = \<lparr>aead_new = (\<lambda>key. Inr ()),
     aead_encrypt = (\<lambda>key nonce msg aad. Some (take 16 (nonce @ key @ replicate 16 0) @ msg)),
     aead_decrypt = (\<lambda>key nonce ct aad.
       if take 16 ct = take 16 (nonce @ key @ replicate 16 0) then Some (drop 16 ct) else None),
     hkdf_expand = (\<lambda>salt ikm info n. Inr (take n (drop 23 info @ ikm @ replicate n 0))),
     sha256 = (\<lambda>m. take 32 (m @ replicate 32 0))\<rparr>"

lemma tag_crypto_works: "crypto_works tag_crypto"
proof -
  have "(if take 16 ct = t then Some (drop 16 ct) else None) = Some msg \<longleftrightarrow> t @ msg = ct"
    if "length t = 16" for t ct msg :: "byte list"
  proof
    assume "(if take 16 ct = t then Some (drop 16 ct) else None) = Some msg"
    then show "t @ msg = ct" by (metis append_take_drop_id option.distinct(1) option.inject)
  next
    assume "t @ msg = ct"
    then show "(if take 16 ct = t then Some (drop 16 ct) else None) = Some msg" using that by auto
  qed
  moreover have "length (take 16 (nonce @ key @ replicate 16 0)) = 16" for nonce key :: "byte list"
    by simp
  ultimately show ?thesis
    unfolding crypto_works_def aead_contract_def tag_crypto_def
    by (auto simp: TAG_LEN_def SESSION_KEY_LEN_def)
qed

lemma length_field_text: "length (field_text bs) \<le> 256 * length bs + 1"
proof (induction bs)
  case (Cons b bs)
  have "unat b < 256" using unat_lt [of b] by simp
  with Cons show ?case by (simp add: field_text_def del: unat_byte_lt)
qed (simp add: field_text_def)

definition demo_env :: transport_env where
  "demo_env = \<lparr>te_crypto = tag_crypto, te_ident = demo_ident,
     te_sign = (\<lambda>seed m. take 64 (seed @ replicate 64 0)),
     te_challenge = field_json (\<lambda>c. [as_bytes (dc_kind c), as_bytes (dc_nonce c)])
       (\<lambda>fs. case fs of [k, n] \<Rightarrow> Some \<lparr>dc_kind = from_bytes k, dc_nonce = from_bytes n\<rparr> | _ \<Rightarrow> None),
     te_response = field_json (\<lambda>r. [as_bytes (dr_kind r), as_bytes (dr_device_id r), as_bytes (dr_signature r)])
       (\<lambda>fs. case fs of [k, i, g] \<Rightarrow>
            Some \<lparr>dr_kind = from_bytes k, dr_device_id = from_bytes i, dr_signature = from_bytes g\<rparr> | _ \<Rightarrow> None),
     te_accepted = field_json (\<lambda>a. [as_bytes (da_kind a)])
       (\<lambda>fs. case fs of [k] \<Rightarrow> Some \<lparr>da_kind = from_bytes k\<rparr> | _ \<Rightarrow> None),
     te_refused = field_json (\<lambda>r. [as_bytes (df_kind r), as_bytes (df_reason r)])
       (\<lambda>fs. case fs of [k, r] \<Rightarrow> Some \<lparr>df_kind = from_bytes k, df_reason = from_bytes r\<rparr> | _ \<Rightarrow> None)\<rparr>"

definition quiet_socket :: socket where
  "quiet_socket = \<lparr>so_in = [], so_out = [], so_faults = []\<rparr>"

definition demo_end :: "session_role \<Rightarrow> device_policy \<Rightarrow> device_identity option \<Rightarrow> transport" where
  "demo_end role policy identity = \<lparr>tp_socket = quiet_socket,
     tp_session = (case session_derive tag_crypto (replicate 32 5) PROVISIONAL_SALT role of
        Inr s \<Rightarrow> s | Inl _ \<Rightarrow> joined tag_crypto [] [] role),
     tp_root = replicate 32 5, tp_role = role, tp_established = False, tp_device_bound = False,
     tp_bound_device = None, tp_policy = policy, tp_identity = identity, tp_room = ''room''\<rparr>"

lemma demo_end_parked: "parked demo_env (replicate 32 5) role (demo_end role policy identity)"
  using derived_keys(3,4) [OF tag_crypto_works, of "replicate 32 5" PROVISIONAL_SALT]
  by (cases role) (simp_all add: parked_def demo_end_def demo_env_def quiet_socket_def)

definition demo_registry :: device_registry where
  "demo_registry = enrol demo_ident (DevicePublicKey (replicate 32 1)) ''phone'' registry_new"

definition demo_device :: device_identity where
  "demo_device = \<lparr>di_device_id = from_bytes (replicate 16 1), di_room = ''room'', di_key = replicate 32 1\<rparr>"

lemma demo_admitted:
  "admits demo_env (demo_end SessionClient RoomKeyOnly (Some demo_device))
     (demo_end SessionDaemon (Enrolled demo_registry) None) (replicate 32 3)"
proof -
  have short: "writes_short (field_json parts unparts) x"
    if "unparts (parts x) = Some x" "length (demo_text (parts x)) \<le> MAX_PLAINTEXT" for parts unparts x
    using that by (simp add: writes_short_def field_json_def)
  have b: "length (demo_text [x, y, z]) \<le> 256 * (length x + length y + length z) + 3"
    "length (demo_text [x, y]) \<le> 256 * (length x + length y) + 2"
    "length (demo_text [x]) \<le> 256 * length x + 1" for x y z
    using length_field_text [of x] length_field_text [of y] length_field_text [of z]
    by (simp_all add: demo_text_def)
  have k: "challenge_key (DeviceId (replicate 16 1)) demo_registry = Some (DevicePublicKey (replicate 32 1))"
    unfolding demo_registry_def by code_simp
  have lengths: "length CHALLENGE_TYPE \<le> 20" "length RESPONSE_TYPE \<le> 20" "length ACCEPT_TYPE \<le> 20"
    by (simp_all add: CHALLENGE_TYPE_def RESPONSE_TYPE_def ACCEPT_TYPE_def)
  have t: "length (demo_text [as_bytes CHALLENGE_TYPE, as_bytes (b64_encode demo_ident (replicate 32 3))])
      \<le> MAX_PLAINTEXT"
    "length sig = 64 \<Longrightarrow> length (demo_text [as_bytes RESPONSE_TYPE, replicate 16 1,
      as_bytes (b64_encode demo_ident sig)]) \<le> MAX_PLAINTEXT"
    "length (demo_text [as_bytes ACCEPT_TYPE]) \<le> MAX_PLAINTEXT" for sig
    using lengths b(2) [of "as_bytes CHALLENGE_TYPE" "replicate 32 3"]
      b(1) [of "as_bytes RESPONSE_TYPE" "replicate 16 1" sig] b(3) [of "as_bytes ACCEPT_TYPE"]
    by (simp_all add: demo_ident_def MAX_PLAINTEXT_eq)
  have i: "id_from_base64url demo_ident (from_bytes (replicate 16 1)) = Inr (DeviceId (replicate 16 1))"
    "key_verify demo_ident (DevicePublicKey (replicate 32 1)) m (replicate 32 1 @ replicate 32 0) = Inr ()" for m
    by (simp_all add: id_from_base64url_def key_verify_def demo_ident_def DEVICE_ID_LEN_def
        DEVICE_SIGNATURE_LEN_def)
  show ?thesis
    unfolding admits_def demo_env_def demo_end_def demo_device_def
    using k demo_ident_contract i
    apply (simp add: RESUME_NONCE_LEN_def DEVICE_SIGNATURE_LEN_def)
    apply (intro conjI allI impI short)
    apply (simp_all add: t)
    done
qed

theorem handshake_establishes_witness:
  "\<exists>cs ds c' d'.
      establish_with demo_env False (replicate 32 9) [] (feed ds (demo_end SessionClient RoomKeyOnly
        (Some demo_device))) = (Inr (), c')
    \<and> establish_with demo_env True [] (replicate 32 3) (feed cs (demo_end SessionDaemon
        (Enrolled demo_registry) None)) = (Inr (), d')
    \<and> tp_bound_device d' = Some (from_bytes (replicate 16 1))"
proof -
  have w: "crypto_works (te_crypto demo_env)" by (simp add: demo_env_def tag_crypto_works)
  have s: "length (replicate 32 9 :: byte list) = SALT_LEN" by (simp add: SALT_LEN_def)
  have i: "tp_identity (demo_end SessionClient RoomKeyOnly (Some demo_device)) = Some demo_device"
    "di_device_id demo_device = from_bytes (replicate 16 1)"
    by (simp_all add: demo_end_def demo_device_def)
  from handshake_establishes [OF w demo_end_parked demo_end_parked s demo_admitted, of "[]" True "[]"]
  show ?thesis using i by metis
qed

section \<open>Nobody gets in without a proof\<close>

text \<open>Who a carrier is for, and what it demands, never changes.\<close>

definition same_door :: "transport \<Rightarrow> transport \<Rightarrow> bool" where
  "same_door t t' \<longleftrightarrow> tp_role t' = tp_role t \<and> tp_policy t' = tp_policy t \<and> tp_room t' = tp_room t
     \<and> tp_established t' = tp_established t"

lemma same_door_refl [simp]: "same_door t t"
  by (simp add: same_door_def)

lemma same_door_trans: "same_door t t1 \<Longrightarrow> same_door t1 t2 \<Longrightarrow> same_door t t2"
  by (simp add: same_door_def)

definition keeps :: "'a carried \<Rightarrow> bool" where
  "keeps f \<longleftrightarrow> (\<forall>t. same_door t (snd (f t)))"

lemma keeps_then: "keeps m \<Longrightarrow> (\<And>x. keeps (f x)) \<Longrightarrow> keeps (tr_then m f)"
  unfolding keeps_def tr_then_def by (auto split: prod.splits sum.splits)
    (metis snd_conv same_door_trans)+

lemma keeps_give [intro, simp]: "keeps (tr_give r)"
  by (simp add: keeps_def tr_give_def)

lemma keeps_on [intro, simp]: "keeps (on_socket g)" "keeps (on_session h)"
  by (auto simp: keeps_def on_socket_def on_session_def same_door_def split: prod.splits)

lemma keeps_basic [intro, simp]:
  "keeps (write_sealed E i m)" "keeps (read_sealed p)" "keeps (read_frame E p)"
  "keeps (write_control E m)" "keeps (read_control E)" "keeps (write_json E js x)"
  unfolding write_sealed_def read_sealed_def read_frame_def write_control_def read_control_def write_json_def
  by (auto intro!: keeps_then)

lemma keeps_refuse [intro, simp]: "keeps (refuse_after E reason detail)"
  using keeps_basic(4) [of E] keeps_on(1) [of "socket_send SentClose"]
  by (auto simp: keeps_def refuse_after_def Let_def split: sum.splits) (meson same_door_trans)

lemma keeps_bind [simp]: "same_door t (bind_to i t)"
  by (simp add: same_door_def)

lemma keeps_check [intro, simp]: "keeps (check_response E nonce answer)"
proof -
  have "same_door t (snd (write_json E js x (bind_to i t)))" for js :: "device_accepted json" and x i t
    using keeps_basic(6) [of E js x] keeps_bind [of t i] same_door_trans unfolding keeps_def by blast
  then show ?thesis using keeps_refuse [of E, where 'a = unit]
    by (auto simp: keeps_def check_response_def split: option.splits sum.splits device_policy.splits)
qed

lemma keeps_devices [intro, simp]: "keeps (challenge_client E nonce)" "keeps (answer_challenge E)"
  "keeps (bind_device E nonce)"
proof -
  have c: "keeps (tr_then (write_json E (te_challenge E) x)
      (\<lambda>_. tr_then (read_control E) (check_response E nonce)))" for x
    by (auto intro!: keeps_then)
  then show 1: "keeps (challenge_client E nonce)" by (simp add: keeps_def challenge_client_def)
  have "keeps (\<lambda>t. (Inr () :: transport_error + unit, bind_to None t))" by (simp add: keeps_def)
  then have a: "keeps (tr_then (read_control E) (\<lambda>answer.
      tr_then (tr_give (client_response E identity answer)) (\<lambda>response.
      tr_then (write_json E (te_response E) response) (\<lambda>_.
      tr_then (read_control E) (\<lambda>reply.
      tr_then (tr_give (check_acceptance E reply)) (\<lambda>_ t.
      (Inr (), bind_to None t)))))))" for identity
    by (auto intro!: keeps_then)
  then show 2: "keeps (answer_challenge E)"
    by (auto simp: keeps_def answer_challenge_def split: option.splits)
  from 1 2 show "keeps (bind_device E nonce)"
    by (auto simp: keeps_def bind_device_def split: session_role.splits)
qed

lemma keeps_rederive [intro, simp]: "keeps (rederive E salt f)"
  by (auto simp: keeps_def rederive_def same_door_def split: sum.splits)

lemma keeps_exchange [intro, simp]: "keeps (daemon_exchange E p)" "keeps (client_exchange E salt)"
proof -
  have "keeps (\<lambda>t. let consumed = opened_count (tp_session t) in
      tr_then (rederive E m (set_opened_count consumed)) (\<lambda>_. write_sealed E i ack) t)" for m i ack
  proof -
    have "keeps (tr_then (rederive E m (set_opened_count n)) (\<lambda>_. write_sealed E i ack))" for n
      by (intro keeps_then) auto
    then show ?thesis unfolding keeps_def Let_def by blast
  qed
  then show "keeps (daemon_exchange E p)" unfolding daemon_exchange_def by (auto intro!: keeps_then)
  have "keeps (\<lambda>t. let written = sealed_count (tp_session t) in
      tr_then (rederive E salt (set_sealed_count written)) (\<lambda>_.
        tr_then (read_frame E False) (\<lambda>a. tr_give (g a))) t)" for g :: "inbound \<Rightarrow> transport_error + unit"
  proof -
    have "keeps (tr_then (rederive E salt (set_sealed_count n)) (\<lambda>_.
        tr_then (read_frame E False) (\<lambda>a. tr_give (g a))))" for n
      by (intro keeps_then) auto
    then show ?thesis unfolding keeps_def Let_def by blast
  qed
  then show "keeps (client_exchange E salt)" unfolding client_exchange_def by (intro keeps_then) auto
qed

lemma write_json_keeps_device: "tp_bound_device (snd (write_json E js x t)) = tp_bound_device t"
  by (auto simp: write_json_def write_control_def write_sealed_def tr_then_def tr_give_def on_session_def
      on_socket_def split: prod.splits sum.splits)

lemma check_response_Inr:
  assumes "check_response E nonce answer t = (Inr x, t')" "tp_policy t = Enrolled registry"
  shows "\<exists>i device_id key sig. tp_bound_device t' = Some i \<and> id_from_base64url (te_ident E) i = Inr device_id
    \<and> challenge_key device_id registry = Some key
    \<and> key_verify (te_ident E) key (resume_message nonce (tp_room t)) sig = Inr ()"
proof -
  from assms obtain response :: device_response and device_id key sig where
    r: "id_from_base64url (te_ident E) (dr_device_id response) = Inr device_id"
      "challenge_key device_id registry = Some key"
      "key_verify (te_ident E) key (resume_message nonce (tp_room t)) sig = Inr ()"
    and w: "write_json E (te_accepted E) \<lparr>da_kind = ACCEPT_TYPE\<rparr> (bind_to (Some (dr_device_id response)) t)
      = (Inr x, t')"
    by (auto simp: check_response_def refuse_after_def Let_def split: option.splits sum.splits if_splits)
  from write_json_keeps_device [of E "te_accepted E" "\<lparr>da_kind = ACCEPT_TYPE\<rparr>"
      "bind_to (Some (dr_device_id response)) t"] w
  have "tp_bound_device t' = Some (dr_device_id response)" by simp
  with r show ?thesis by blast
qed

lemma establish_daemon_Inr:
  assumes "establish_with E p salt nonce t = (Inr x, t')" "\<not> tp_established t"
    and "tp_role t = SessionDaemon" "tp_policy t = Enrolled registry"
  shows "\<exists>t1 answer t2. check_response E nonce answer t1 = (Inr (), t2) \<and> same_door t t1
    \<and> t' = t2\<lparr>tp_established := True\<rparr>"
proof -
  from assms obtain t1 t2 where e: "daemon_exchange E p t = (Inr (), t1)" "bind_device E nonce t1 = (Inr (), t2)"
    "t' = t2\<lparr>tp_established := True\<rparr>"
    by (auto simp: establish_with_def tr_then_Inr_iff)
  have d1: "same_door t t1" using keeps_exchange(1) [of E p] e(1) unfolding keeps_def by (metis snd_conv)
  then have "challenge_client E nonce t1 = (Inr (), t2)" "requires_proof (tp_policy t1)"
    using e(2) assms(3,4) by (simp_all add: bind_device_def same_door_def requires_proof_def)
  then obtain ta answer tb where
    c: "write_json E (te_challenge E) \<lparr>dc_kind = CHALLENGE_TYPE, dc_nonce = b64_encode (te_ident E) nonce\<rparr> t1
        = (Inr (), ta)" "read_control E ta = (Inr answer, tb)" "check_response E nonce answer tb = (Inr (), t2)"
    by (auto simp: challenge_client_def tr_then_Inr_iff)
  have "same_door t1 ta" "same_door ta tb"
    using keeps_basic(5,6) c(1,2) unfolding keeps_def by (metis snd_conv)+
  then have "same_door t tb" using d1 same_door_trans by blast
  with c(3) e(3) show ?thesis by blast
qed

text \<open>
  C3. A daemon with enrolled devices opens no session without a proof, whatever a client or the relay
  sends: when its handshake succeeds, the device it names is in the registry and a signature over this
  connection's nonce and this room verified under that device's key. When the handshake fails, the
  carrier neither delivers nor accepts content.
\<close>

theorem no_content_without_proof:
  assumes "\<not> tp_established t" "tp_role t = SessionDaemon" "tp_policy t = Enrolled registry"
    and "establish_with E p salt nonce t = (r, t')"
  shows "case r of
      Inr _ \<Rightarrow> \<exists>i device_id key sig. tp_bound_device t' = Some i
        \<and> id_from_base64url (te_ident E) i = Inr device_id \<and> challenge_key device_id registry = Some key
        \<and> key_verify (te_ident E) key (resume_message nonce (tp_room t)) sig = Inr ()
    | Inl _ \<Rightarrow> \<not> tp_established t'
        \<and> (\<exists>e. next_inbound E p t' = (Inl e, t') \<and> transport_send E i m t' = (Inl e, t'))"
proof (cases r)
  case (Inr x)
  with establish_daemon_Inr [of E p salt nonce t x t'] assms obtain t1 answer t2 where
    "check_response E nonce answer t1 = (Inr (), t2)" "same_door t t1" "t' = t2\<lparr>tp_established := True\<rparr>"
    by auto
  with check_response_Inr [of E nonce answer t1 "()" t2 registry] Inr assms(3) show ?thesis
    by (auto simp: same_door_def)
next
  case (Inl e)
  have "keeps (tr_then (daemon_exchange E p) (\<lambda>_. bind_device E nonce))" by (intro keeps_then) auto
  then have "same_door t (snd (tr_then (daemon_exchange E p) (\<lambda>_. bind_device E nonce) t))"
    by (simp add: keeps_def)
  moreover have "t' = snd (tr_then (daemon_exchange E p) (\<lambda>_. bind_device E nonce) t)"
    using assms Inl by (auto simp: establish_with_def tr_then_def split: prod.splits sum.splits)
  ultimately have "\<not> tp_established t'" using assms(1) by (simp add: same_door_def)
  then show ?thesis
    by (simp add: Inl next_inbound_def transport_send_def require_established_def tr_then_def)
qed

theorem no_content_without_proof_witness:
  "\<exists>e t'. establish_with demo_env True [] (replicate 32 3)
       (demo_end SessionDaemon (Enrolled demo_registry) None) = (Inl e, t')
     \<and> (\<exists>e'. transport_send demo_env 1 [7] t' = (Inl e', t'))"
proof -
  let ?t = "demo_end SessionDaemon (Enrolled demo_registry) None"
  obtain t' where "establish_with demo_env True [] (replicate 32 3) ?t = (Inl closed, t')"
    by (simp add: establish_with_def demo_end_def daemon_exchange_def read_sealed_def tr_then_def
        on_socket_def next_binary_def quiet_socket_def)
  moreover have "\<not> tp_established ?t" "tp_role ?t = SessionDaemon" "tp_policy ?t = Enrolled demo_registry"
    by (simp_all add: demo_end_def)
  ultimately show ?thesis
    using no_content_without_proof [of ?t demo_registry demo_env True "[]" "replicate 32 3" "Inl closed" t' 1 "[7]"]
    by auto
qed

section \<open>What a recording is good for\<close>

text \<open>
  The daemon adds nothing of its own to the keys of a connection, so a recording of one client's
  packets (its handshake, then whatever it sent) is accepted again by every later connection of a
  daemon that serves the same room key without device proofs: the handshake succeeds and the daemon
  reads the recorded payloads as if they were new. Every client handshake, moreover, seals its salt
  under the same key and the same nonce.
\<close>

theorem recorded_connection_replays:
  assumes "crypto_works (te_crypto E)" "parked E root SessionClient c" "length salt = SALT_LEN"
    and "tp_identity c = None"
  shows "(\<exists>cs ds c'. establish_with E False salt nc (feed ds c) = (Inr (), c') \<and> sends cs c c'
    \<and> (\<forall>ms bs c''. send_all (post E) ms c' = (Inr bs, c'') \<longrightarrow>
        (\<forall>d. parked E root SessionDaemon d \<and> tp_policy d = RoomKeyOnly \<longrightarrow>
          (\<forall>nonce. \<exists>d' d''. establish_with E pings sd nonce (feed cs d) = (Inr (), d')
             \<and> recv_all (collect E) bs d' = (Inr ms, d'')))))
    \<and> (\<forall>c2. parked E root SessionClient c2 \<longrightarrow> ss_sealing (tp_session c2) = ss_sealing (tp_session c))"
proof -
  note works = assms(1)
  obtain f1 f2 where
    f: "seals_as (te_crypto E) (cipher_new (c2d_key (te_crypto E) root PROVISIONAL_SALT)) CONTROL_STREAM_ID salt f1"
      "length f1 = SALT_LEN + SEALED_OVERHEAD"
      "seals_as (te_crypto E) (cipher_new (d2c_key (te_crypto E) root salt)) CONTROL_STREAM_ID SESSION_ACK f2"
    by (rule salt_frames [OF works assms(3)])
  let ?p = "packet CONTROL_STREAM_ID"
  let ?c = "exchanged E root salt (?p f1) c"
  let ?c' = "(bind_to None ?c)\<lparr>tp_established := True\<rparr>"
  have "client_exchange E salt (feed [?p f2] c) = (Inr (), ?c)"
    using exchange_feeds(2) [OF works assms(3) f assms(2), of "[]"] by (simp add: feed_def)
  moreover have "bind_device E nc ?c = (Inr (), bind_to None ?c)"
    using assms(2,4) by (simp add: bind_device_def answer_challenge_def must_answer_challenge_def parked_def)
  ultimately have C: "establish_with E False salt nc (feed [?p f2] c) = (Inr (), ?c')"
    using assms(2) by (intro establish_client) (auto simp: parked_def)
  have "\<exists>d' d''. establish_with E pings sd nonce (feed [?p f1] d) = (Inr (), d')
      \<and> recv_all (collect E) bs d' = (Inr ms, d'')"
    if s: "send_all (post E) ms ?c' = (Inr bs, c'')" and d: "parked E root SessionDaemon d"
      and p: "tp_policy d = RoomKeyOnly" for ms bs c'' d nonce
  proof -
    let ?d = "exchanged E root salt (?p f2) d"
    let ?d' = "(bind_to None ?d)\<lparr>tp_established := True\<rparr>"
    have "daemon_exchange E pings (feed [?p f1] d) = (Inr (), ?d)"
      using exchange_feeds(1) [OF works assms(3) f d, of pings "[]"] by (simp add: feed_def)
    moreover have "bind_device E nonce ?d = (Inr (), bind_to None ?d)"
      using d p by (simp add: bind_device_def challenge_client_def requires_proof_def parked_def)
    ultimately have "establish_with E pings sd nonce (feed [?p f1] d) = (Inr (), ?d')"
      using d by (intro establish_daemon) (auto simp: parked_def)
    moreover have "synced E ?c' ?d'"
      using exchanged_linked [OF assms(2) d, of salt "?p f1" "?p f2"] crypto_works_contract [OF works]
      by (simp add: synced_def linked_def)
    ultimately show ?thesis using carrier.delivers_all [OF _ s] by blast
  qed
  moreover have "sends [?p f1] c ?c'" by (simp add: sends_def)
  ultimately have "\<exists>cs ds c'. establish_with E False salt nc (feed ds c) = (Inr (), c') \<and> sends cs c c'
    \<and> (\<forall>ms bs c''. send_all (post E) ms c' = (Inr bs, c'') \<longrightarrow>
        (\<forall>d. parked E root SessionDaemon d \<and> tp_policy d = RoomKeyOnly \<longrightarrow>
          (\<forall>nonce. \<exists>d' d''. establish_with E pings sd nonce (feed cs d) = (Inr (), d')
             \<and> recv_all (collect E) bs d' = (Inr ms, d''))))"
    using C by blast
  moreover have "ss_sealing (tp_session c2) = ss_sealing (tp_session c)" if "parked E root SessionClient c2" for c2
    using parked_session(1) [OF assms(2) works] parked_session(1) [OF that works] by simp
  ultimately show ?thesis by blast
qed


theorem recorded_connection_replays_witness:
  "\<exists>cs. \<forall>nonce. \<exists>d'. establish_with demo_env True [] nonce
     (feed cs (demo_end SessionDaemon RoomKeyOnly None)) = (Inr (), d')"
proof -
  have w: "crypto_works (te_crypto demo_env)" by (simp add: demo_env_def tag_crypto_works)
  have s: "length (replicate 32 9 :: byte list) = SALT_LEN" by (simp add: SALT_LEN_def)
  have i: "tp_identity (demo_end SessionClient RoomKeyOnly None) = None"
    "tp_policy (demo_end SessionDaemon RoomKeyOnly None) = RoomKeyOnly"
    by (simp_all add: demo_end_def)
  from recorded_connection_replays [OF w demo_end_parked s i(1), of "[]" True "[]"]
  obtain cs c' where "\<forall>ms bs c''. send_all (post demo_env) ms c' = (Inr bs, c'') \<longrightarrow>
      (\<forall>d. parked demo_env (replicate 32 5) SessionDaemon d \<and> tp_policy d = RoomKeyOnly \<longrightarrow>
        (\<forall>nonce. \<exists>d' d''. establish_with demo_env True [] nonce (feed cs d) = (Inr (), d')
           \<and> recv_all (collect demo_env) bs d' = (Inr ms, d'')))"
    by blast
  moreover have "send_all (post demo_env) [] c' = (Inr [], c')" by simp
  ultimately show ?thesis using demo_end_parked i(2) by blast
qed

text \<open>Whatever reason the daemon gives for a refusal, the client reports a bad proof.\<close>

lemma refusal_reason_is_lost:
  "check_acceptance E reply = Inl e \<Longrightarrow> e = TrDeviceRefused ''bad_proof''"
  by (auto simp: check_acceptance_def REASON_BAD_PROOF_def split: option.splits if_splits)

end
