(* ===== verification/Tunnel.thy ===== *)
theory Tunnel
  imports Proxy_Service Transport
begin

text \<open>
  The proxy over an established carrier: what the service puts into the outbox is sealed, framed and
  written in order by the uplink, and read back by the client's end of the session.
\<close>

section \<open>Sending a whole answer\<close>

lemma post_ok:
  assumes "can_send E t" "tp_established t" "length (snd m) \<le> MAX_PLAINTEXT"
    and "sc_nonce (ss_sealing (tp_session t)) \<noteq> - 1"
  shows "\<exists>b t'. post E m t = (Inr b, t') \<and> can_send E t' \<and> tp_established t'
    \<and> sc_nonce (ss_sealing (tp_session t')) = sc_nonce (ss_sealing (tp_session t)) + 1"
proof -
  obtain f where w: "write_sealed E (fst m) (snd m) t = (Inr (), wrote (packet (fst m) f) t)"
    using sent [OF assms(1,3,4), of "fst m"] by blast
  then have "post E m t = (Inr (packet (fst m) f), wrote (packet (fst m) f) t)"
    using assms(2) by (simp add: post_def transport_send_def require_established_def tr_then_def)
  then show ?thesis using assms(1,2) by (auto simp: can_send_def)
qed

lemma send_all_ok:
  assumes "can_send E t" "tp_established t" "\<forall>m \<in> set ms. length (snd m) \<le> MAX_PLAINTEXT"
    and "unat (sc_nonce (ss_sealing (tp_session t))) + length ms < 2 ^ 64"
  shows "\<exists>bs t'. send_all (post E) ms t = (Inr bs, t')"
  using assms
proof (induction ms arbitrary: t)
  case Nil
  then show ?case by simp
next
  case (Cons m ms)
  let ?n = "sc_nonce (ss_sealing (tp_session t))"
  have n: "?n \<noteq> - 1" using Cons.prems(4) by (auto simp: unsigned_minus_1_eq_mask mask_eq_exp_minus_1)
  obtain b t1 where 1: "post E m t = (Inr b, t1)" "can_send E t1" "tp_established t1"
      "sc_nonce (ss_sealing (tp_session t1)) = ?n + 1"
    using post_ok [OF Cons.prems(1,2) _ n, of m] Cons.prems(3) by auto
  from Cons.IH [OF 1(2,3)] Cons.prems(3,4) 1(4) unat_plus_one [OF n]
  obtain bs t' where "send_all (post E) ms t1 = (Inr bs, t')" by auto
  with 1(1) show ?case by simp
qed

lemma writable_chunk: "c \<in> set (chunk_body body) \<Longrightarrow> length c \<le> MAX_CHUNK_BYTES"
  using chunk_sizes by (fastforce simp: chunk_body_def)

lemma response_messages_fit:
  assumes "hd (response_messages H i response) = m0" "length (px_wire m0) \<le> MAX_PLAINTEXT"
  shows "\<forall>m \<in> set (response_messages H i response). length (px_wire m) \<le> MAX_PLAINTEXT"
proof -
  have "length (px_wire (ResponseBody c)) \<le> MAX_PLAINTEXT" if "c \<in> set (chunk_body (hr_body response))" for c
    using writable_chunk [OF that] by (simp add: px_wire_def PX_MAGIC_def MAX_CHUNK_BYTES_eq MAX_PLAINTEXT_eq)
  moreover have "length (px_wire ResponseEnd) \<le> MAX_PLAINTEXT"
    by (simp add: px_wire_def PX_MAGIC_def MAX_PLAINTEXT_eq)
  ultimately show ?thesis using assms by (auto simp: response_messages_def)
qed

lemma length_chunks: "0 < n \<Longrightarrow> length (chunks n bs) \<le> length bs"
proof (induction n bs rule: chunks.induct)
  case (1 n bs)
  show ?case
  proof (cases "bs = []")
    case True
    then show ?thesis by (simp add: chunks.simps [of n "[]"])
  next
    case False
    with 1 have "length (chunks n (drop n bs)) \<le> length (drop n bs)" by simp
    moreover have "length (drop n bs) < length bs" using False 1(2) by (cases bs) auto
    ultimately have "Suc (length (chunks n (drop n bs))) \<le> length bs" by linarith
    then show ?thesis using False 1(2) by (simp add: chunks.simps [of n bs])
  qed
qed

definition answer_head :: "http_lib \<Rightarrow> u64 \<Rightarrow> http_response \<Rightarrow> proxy_message" where
  "answer_head H i response = ResponseStart \<lparr>rs_id = i, rs_status = of_nat (hr_status response),
     rs_headers = response_headers H response\<rparr>"

lemma response_messages_readable:
  assumes "readable (answer_head H i response)" "m \<in> set (response_messages H i response)"
  shows "readable m"
proof -
  have "readable (ResponseBody c)" if "c \<in> set (chunk_body (hr_body response))" for c
    using writable_chunk [OF that] by (simp add: readable_def)
  moreover have "readable ResponseEnd" by (simp add: readable_def)
  ultimately show ?thesis using assms by (auto simp: response_messages_def answer_head_def)
qed

lemma px_decode_wire: "readable m \<Longrightarrow> px_decode (px_wire m) = Inr m"
  using proxy.rd_wr [of m "[]"] by simp

text \<open>
  C1. What DSH answers is what the client reads: over an established carrier, a request that DSH answers
  with a head that fits into a frame is answered by messages that are sealed, framed and sent without
  an error, and the client's end opens and decodes them, in order, to the head with its status and
  headers, the body in chunks that add up to it, and the end, all on the stream of the request.
\<close>

theorem answer_crosses_the_tunnel:
  assumes "can_send E d" and "synced E d c" and "ob_left ob = None" and "ob_sent ob = []"
    and "px_decode payload = Inr (RequestStart head)"
    and "validate_target (rq_target head) = Inr dest" and "request_body H head = Inr body"
    and "forward H (nw_exchange net) (sv_client sv) (rq_method head) dest (rq_headers head) body = Inr response"
    and "writable (answer_head H (rq_id head) response)" and "utf8_message (answer_head H (rq_id head) response)"
    and "length (px_wire (answer_head H (rq_id head) response)) \<le> MAX_PLAINTEXT"
    and "unat (sc_nonce (ss_sealing (tp_session d))) + 2 + length (hr_body response) < 2 ^ 64"
  shows "\<exists>ob' bs d' c' ps. handle H net st payload (sv, ob) = Some (Inr True, sv, ob')
    \<and> send_all (post E) (ob_sent ob') d = (Inr bs, d') \<and> recv_all (collect E) bs c = (Inr ps, c')
    \<and> list_all (\<lambda>p. fst p = st) ps
    \<and> map (\<lambda>p. px_decode (snd p)) ps = map Inr (answer_head H (rq_id head) response
        # map ResponseBody (chunk_body (hr_body response)) @ [ResponseEnd])
    \<and> concat (chunk_body (hr_body response)) = hr_body response"
proof -
  let ?ms = "response_messages H (rq_id head) response" and ?ps = "\<lambda>ms. map (\<lambda>m. (st, px_wire m)) ms"
  have "writable_headers (response_headers H response)"
    using assms(9) by (simp add: writable_def answer_head_def)
  from perform_answers [OF assms(3,6,7,8) this]
  have h: "handle H net st payload (sv, ob) = Some (Inr True, sv, says st ?ms ob)"
    using assms(5) by (simp add: handle_def reported_def)
  have sent: "ob_sent (says st ?ms ob) = ?ps ?ms" using assms(4) by (simp add: says_def)
  have hd: "hd ?ms = answer_head H (rq_id head) response" by (simp add: response_messages_def answer_head_def)
  have small: "\<forall>m \<in> set (?ps ?ms). length (snd m) \<le> MAX_PLAINTEXT"
    using response_messages_fit [OF hd assms(11)] by auto
  have "length (chunk_body (hr_body response)) \<le> length (hr_body response)"
    unfolding chunk_body_def by (rule length_chunks) (simp add: MAX_CHUNK_BYTES_eq)
  then have room: "unat (sc_nonce (ss_sealing (tp_session d))) + length (?ps ?ms) < 2 ^ 64"
    using assms(12) by (simp add: response_messages_def)
  have "tp_established d" using assms(2) by (simp add: synced_def)
  from send_all_ok [OF assms(1) this small room] obtain bs d' where
    s: "send_all (post E) (?ps ?ms) d = (Inr bs, d')" by blast
  from carrier.delivers_all [OF assms(2) s] obtain c' where
    r: "recv_all (collect E) bs c = (Inr (?ps ?ms), c')" by blast
  have "readable (answer_head H (rq_id head) response)" by (rule writable_readable [OF assms(9,10)])
  then have "map (\<lambda>p. px_decode (snd p)) (?ps ?ms) = map Inr ?ms"
    using response_messages_readable by (auto simp: px_decode_wire)
  moreover have "concat (chunk_body (hr_body response)) = hr_body response"
    by (simp add: chunk_body_def concat_chunks MAX_CHUNK_BYTES_eq)
  moreover have "?ms = answer_head H (rq_id head) response # map ResponseBody (chunk_body (hr_body response)) @ [ResponseEnd]"
    by (simp add: response_messages_def answer_head_def)
  moreover have "list_all (\<lambda>p. fst p = st) (?ps ?ms)" by (simp add: list_all_iff)
  ultimately show ?thesis using h s r sent by (metis (no_types, lifting))
qed

text \<open>Two ends of the demo session, and a DSH that answers three bytes.\<close>

definition live_end :: "session_role \<Rightarrow> transport" where
  "live_end role = (demo_end role RoomKeyOnly None)\<lparr>tp_session := joined tag_crypto [1] [2] role, tp_established := True\<rparr>"

definition ok_response :: http_response where
  "ok_response = \<lparr>hr_status = 200, hr_headers = [(''content-type'', as_bytes ''text/plain'')], hr_body = [1, 2, 3]\<rparr>"

definition ok_net :: network where
  "ok_net = demo_net\<lparr>nw_exchange := (\<lambda>_. HttpAnswer ok_response)\<rparr>"

lemma live_ends: "can_send demo_env (live_end SessionDaemon)" "synced demo_env (live_end SessionDaemon) (live_end SessionClient)"
  using derived_keys(1,2) [OF tag_crypto_works] crypto_works_contract [OF tag_crypto_works] tag_crypto_works
  by (simp_all add: can_send_def synced_def live_end_def joined_def demo_end_def quiet_socket_def demo_env_def Let_def)

theorem answer_crosses_the_tunnel_witness:
  "\<exists>ob' bs d' c' ps. handle demo_http ok_net 3 (px_wire (RequestStart demo_head))
       (service_new demo_client, \<lparr>ob_sent = [], ob_left = None\<rparr>) = Some (Inr True, service_new demo_client, ob')
     \<and> send_all (post demo_env) (ob_sent ob') (live_end SessionDaemon) = (Inr bs, d')
     \<and> recv_all (collect demo_env) bs (live_end SessionClient) = (Inr ps, c')
     \<and> length ps = 3"
proof -
  let ?h = "answer_head demo_http (rq_id demo_head) ok_response"
  have a: "validate_target (rq_target demo_head) = Inr ''/index.html''" "request_body demo_http demo_head = Inr []"
    by code_simp+
  have f: "forward demo_http (nw_exchange ok_net) (sv_client (service_new demo_client)) (rq_method demo_head)
      ''/index.html'' (rq_headers demo_head) [] = Inr ok_response" by code_simp
  have h: "writable ?h" "utf8_message ?h" "length (px_wire ?h) \<le> MAX_PLAINTEXT"
    by (simp_all add: answer_head_def response_headers_def ok_response_def demo_http_def List.map_filter_def
        writable_def writable_headers_def header_total_def utf8_message_def is_utf8_ascii MAX_HEADER_BYTES_eq
        MAX_CHUNK_BYTES_eq px_wire_def PX_MAGIC_def wire_headers_def wire_header_def wire_string_def wire_bytes_def
        MAX_PLAINTEXT_eq)
  have n: "unat (sc_nonce (ss_sealing (tp_session (live_end SessionDaemon)))) + 2 + length (hr_body ok_response) < 2 ^ 64"
    by (simp add: live_end_def joined_def ok_response_def Let_def)
  have c: "length (chunk_body (hr_body ok_response)) = 1"
    by (simp add: ok_response_def chunk_body_def chunks.simps MAX_CHUNK_BYTES_eq)
  obtain ob' bs d' c' ps where
    "handle demo_http ok_net 3 (px_wire (RequestStart demo_head))
       (service_new demo_client, \<lparr>ob_sent = [], ob_left = None\<rparr>) = Some (Inr True, service_new demo_client, ob')"
    "send_all (post demo_env) (ob_sent ob') (live_end SessionDaemon) = (Inr bs, d')"
    "recv_all (collect demo_env) bs (live_end SessionClient) = (Inr ps, c')"
    "map (\<lambda>p. px_decode (snd p)) ps = map Inr (?h # map ResponseBody (chunk_body (hr_body ok_response)) @ [ResponseEnd])"
    using answer_crosses_the_tunnel [OF live_ends _ _ demo_head_decodes a f h n, of "\<lparr>ob_sent = [], ob_left = None\<rparr>" 3]
    by auto
  moreover from this(4) have "length ps = 3" using c by (auto dest: arg_cong [where f = length])
  ultimately show ?thesis by blast
qed

section \<open>A head that breaks the carrier\<close>

text \<open>
  The codec accepts header blocks up to 64 KiB, more than a frame carries once it is sealed: a head of
  that size is encoded, and the carrier then refuses to send it.
\<close>

lemma oversize_refused:
  assumes "crypto_works (te_crypto E)" "length (sc_key (ss_sealing (tp_session t))) = SESSION_KEY_LEN"
    and "MAX_PLAINTEXT < length m" "length m \<le> unat MAX_PAYLOAD_LEN"
  shows "\<exists>e t'. transport_send E i m t = (Inl e, t')"
proof (cases "transport_send E i m t")
  case (Pair r t')
  show ?thesis
  proof (cases r)
    case (Inr x)
    with Pair have "write_sealed E i m t = (Inr x, t')"
      by (auto simp: transport_send_def require_established_def tr_then_Inr_iff split: if_splits)
    from write_sealed_Inr [OF this] obtain f where
      "seals_as (te_crypto E) (ss_sealing (tp_session t)) i m f" "length f \<le> unat MAX_PAYLOAD_LEN" by blast
    with seals_length [OF assms(1,2,4)] assms(3) show ?thesis by (auto simp: MAX_PLAINTEXT_eq)
  qed (use Pair in auto)
qed

definition large_head :: proxy_message where
  "large_head = ResponseStart \<lparr>rs_id = 1, rs_status = 200,
     rs_headers = [(''a'', replicate 32750 CHR ''x''), (''b'', replicate 32750 CHR ''x'')]\<rparr>"

lemma large_head_breaks_the_carrier:
  assumes "crypto_works (te_crypto E)" "length (sc_key (ss_sealing (tp_session t))) = SESSION_KEY_LEN"
  shows "writable large_head" "\<exists>e t'. transport_send E i (px_wire large_head) t = (Inl e, t')"
proof -
  show "writable large_head"
    by (simp add: large_head_def writable_def writable_headers_def header_total_def MAX_HEADER_BYTES_eq MAX_CHUNK_BYTES_eq)
  have "length (px_wire large_head) = 65534"
    by (simp add: large_head_def px_wire_def PX_MAGIC_def wire_headers_def wire_header_def wire_string_def wire_bytes_def)
  then show "\<exists>e t'. transport_send E i (px_wire large_head) t = (Inl e, t')"
    by (intro oversize_refused [OF assms]) (simp_all add: MAX_PLAINTEXT_eq)
qed

end
