(* ===== verification/Lines.thy ===== *)
theory Lines
  imports Text
begin

text \<open>
  Text that is kept line by line: \<open>str::lines\<close>, \<open>split_inclusive\<close> on a line feed, a file of lines
  that each end in one, character boundaries inside a string, and the two steps the audit log and
  the crash log clean free text with: control characters to blanks, then a cut at a boundary.
\<close>

lemma as_bytes_append [simp]: "as_bytes (a @ b) = as_bytes a @ as_bytes b"
  by (simp add: as_bytes_def)

lemma from_bytes_append [simp]: "from_bytes [] = []" "from_bytes (a @ b) = from_bytes a @ from_bytes b"
  by (simp_all add: from_bytes_def)

lemma is_utf8_append: "is_utf8 s \<Longrightarrow> is_utf8 t \<Longrightarrow> is_utf8 (s @ t)"
proof -
  assume "is_utf8 s" "is_utf8 t"
  then obtain cs ds where "list_all is_scalar cs" "s = of_chars cs" "list_all is_scalar ds" "t = of_chars ds"
    by (auto simp: is_utf8_iff)
  then have "list_all is_scalar (cs @ ds)" "s @ t = of_chars (cs @ ds)" by (simp_all add: of_chars_def)
  then show ?thesis using is_utf8_of_chars by metis
qed

lemma trim_Nil [simp]: "trim [] = []"
  by (simp add: trim_def chars_def of_chars_def as_bytes_def)

section \<open>Lines\<close>

definition NL :: char where "NL = CHR 0x0A"
definition CR :: char where "CR = CHR 0x0D"

fun split_inclusive :: "string \<Rightarrow> string list" where
  "split_inclusive [] = []"
| "split_inclusive (c # s) =
     (if c = NL then [c] # split_inclusive s
      else (case split_inclusive s of [] \<Rightarrow> [[c]] | p # ps \<Rightarrow> (c # p) # ps))"

text \<open>A line without its terminator, which is a line feed and a carriage return right before it.\<close>

definition line_of :: "string \<Rightarrow> string" where
  "line_of p =
     (if p \<noteq> [] \<and> last p = NL
      then (let q = butlast p in if q \<noteq> [] \<and> last q = CR then butlast q else q)
      else p)"

definition lines :: "string \<Rightarrow> string list" where
  "lines s = map line_of (split_inclusive s)"

definition text_of_lines :: "string list \<Rightarrow> string" where
  "text_of_lines ls = concat (map (\<lambda>l. l @ [NL]) ls)"

lemma text_of_lines_simps [simp]:
  "text_of_lines [] = []"
  "text_of_lines (l # ls) = l @ NL # text_of_lines ls"
  "text_of_lines (ls @ ms) = text_of_lines ls @ text_of_lines ms"
  by (simp_all add: text_of_lines_def)

lemma split_inclusive_line: "NL \<notin> set l \<Longrightarrow> split_inclusive (l @ NL # s) = (l @ [NL]) # split_inclusive s"
  by (induction l) auto

lemma split_inclusive_open: "NL \<notin> set l \<Longrightarrow> l \<noteq> [] \<Longrightarrow> split_inclusive l = [l]"
proof (induction l)
  case (Cons c l)
  then show ?case by (cases "l = []") auto
qed simp

lemma split_inclusive_open_length: "NL \<notin> set x \<Longrightarrow> length (split_inclusive x) \<le> 1"
  using split_inclusive_open [of x] by (cases x) simp_all

lemma split_inclusive_text:
  "\<forall>l \<in> set ls. NL \<notin> set l \<Longrightarrow>
   split_inclusive (text_of_lines ls @ s) = map (\<lambda>l. l @ [NL]) ls @ split_inclusive s"
  by (induction ls) (simp_all add: split_inclusive_line)

text \<open>A line that survives being written down: it holds no line feed and does not end in a carriage return.\<close>

definition whole_line :: "string \<Rightarrow> bool" where
  "whole_line l \<longleftrightarrow> NL \<notin> set l \<and> (l = [] \<or> last l \<noteq> CR)"

lemma whole_line_of [simp]: "whole_line l \<Longrightarrow> line_of (l @ [NL]) = l"
  by (auto simp: line_of_def whole_line_def Let_def)

lemma whole_line_NL: "whole_line l \<Longrightarrow> NL \<notin> set l"
  by (simp add: whole_line_def)

text \<open>Text without control characters of ASCII is always such a line.\<close>

definition printable :: "string \<Rightarrow> bool" where
  "printable s \<longleftrightarrow> list_all (\<lambda>c. 32 \<le> (of_char c :: nat)) s"

lemma printable_simps [simp]:
  "printable []" "printable (c # s) \<longleftrightarrow> 32 \<le> (of_char c :: nat) \<and> printable s"
  "printable (s @ t) \<longleftrightarrow> printable s \<and> printable t"
  by (simp_all add: printable_def)

lemma printable_whole_line: "printable l \<Longrightarrow> whole_line l"
proof -
  assume "printable l"
  then have "NL \<notin> set l" "CR \<notin> set l" by (auto simp: printable_def list_all_iff NL_def CR_def)
  then show ?thesis unfolding whole_line_def by (metis last_in_set)
qed

lemma printable_decimal [simp]: "printable (decimal n)"
  using decimal_digits [of _ n] by (force simp: printable_def list_all_iff)

lemma is_ascii_decimal [simp]: "is_ascii (decimal n)"
  using decimal_digits [of _ n] by (force simp: is_ascii_def list_all_iff)

lemma lines_text_append:
  assumes "\<forall>l \<in> set ls. whole_line l"
  shows "lines (text_of_lines ls @ s) = ls @ lines s"
proof -
  have "map line_of (map (\<lambda>l. l @ [NL]) ls) = ls" using assms by (induction ls) simp_all
  moreover have "\<forall>l \<in> set ls. NL \<notin> set l" using assms whole_line_NL by blast
  ultimately show ?thesis by (simp add: lines_def split_inclusive_text)
qed

lemma lines_of_text [simp]: "\<forall>l \<in> set ls. whole_line l \<Longrightarrow> lines (text_of_lines ls) = ls"
  using lines_text_append [of ls "[]"] by (simp add: lines_def)

lemma lines_open:
  assumes "NL \<notin> set l"
  shows "lines l = (if l = [] then [] else [l])"
proof (cases "l = []")
  case True
  then show ?thesis by (simp add: lines_def)
next
  case False
  then have "last l \<noteq> NL" using assms last_in_set by metis
  with False assms show ?thesis by (simp add: lines_def split_inclusive_open line_of_def)
qed

text \<open>
  What follows a line that was never terminated is read as part of it: a complete line written
  after a torn one is one line with it.
\<close>

lemma lines_after_torn:
  assumes "\<forall>l \<in> set ls. whole_line l" and "NL \<notin> set torn" and "whole_line l" and "l \<noteq> []"
  shows "lines (text_of_lines ls @ torn @ text_of_lines [l]) = ls @ [torn @ l]"
proof -
  have "whole_line (torn @ l)" using assms by (auto simp: whole_line_def)
  then have "lines (text_of_lines [torn @ l]) = [torn @ l]" by (intro lines_of_text) simp
  with lines_text_append [OF assms(1), of "text_of_lines [torn @ l]"] show ?thesis by simp
qed

lemma concat_split_inclusive [simp]: "concat (split_inclusive s) = s"
  by (induction s) (auto split: list.splits)

lemma split_inclusive_pieces:
  "p \<in> set (split_inclusive s) \<Longrightarrow> p \<noteq> [] \<and> NL \<notin> set (butlast p)"
proof (induction s arbitrary: p)
  case (Cons c s)
  then show ?case by (cases "split_inclusive s") (auto split: if_splits)
qed simp

text \<open>The part of a text up to its last line feed is split on its own.\<close>

lemma split_inclusive_NL: "split_inclusive (s @ NL # t) = split_inclusive (s @ [NL]) @ split_inclusive t"
proof (induction s)
  case (Cons c s)
  have "split_inclusive (s @ [NL]) \<noteq> []" by (cases s) (auto split: list.splits)
  with Cons show ?case by (auto split: list.splits)
qed simp

lemma split_open_end:
  obtains c u where "s = c @ u" and "NL \<notin> set u" and "\<And>t. split_inclusive (c @ t) = split_inclusive c @ split_inclusive t"
proof (cases "NL \<in> set s")
  case False
  then show ?thesis using that [of "[]" s] by simp
next
  case True
  then obtain a u where "s = a @ NL # u" "NL \<notin> set u" by (metis split_list_last)
  then show ?thesis using that [of "a @ [NL]" u] split_inclusive_NL [of a] by (metis append.assoc append_Cons append_Nil)
qed

lemma lines_have_no_newline: "l \<in> set (lines s) \<Longrightarrow> NL \<notin> set l"
proof -
  assume "l \<in> set (lines s)"
  then obtain p where p: "p \<in> set (split_inclusive s)" and l: "l = line_of p" by (auto simp: lines_def)
  have b: "p \<noteq> []" "NL \<notin> set (butlast p)" using split_inclusive_pieces [OF p] by simp_all
  show ?thesis
  proof (cases "last p = NL")
    case True
    then show ?thesis using b l by (auto simp: line_of_def Let_def dest: in_set_butlastD)
  next
    case False
    have "set p = insert (last p) (set (butlast p))"
      using b(1) by (metis append_butlast_last_id list.simps(15) rotate1.simps(2) set_rotate1)
    with False b l show ?thesis by (auto simp: line_of_def)
  qed
qed

lemma length_lines_of_text: "\<forall>l \<in> set ls. NL \<notin> set l \<Longrightarrow> length (lines (text_of_lines ls)) = length ls"
  using split_inclusive_text [of ls "[]"] by (simp add: lines_def)

section \<open>Character boundaries\<close>

text \<open>
  \<open>str::is_char_boundary\<close>, the loop that walks back to one from a limit, and the cut it makes.
\<close>

definition is_char_boundary :: "string \<Rightarrow> nat \<Rightarrow> bool" where
  "is_char_boundary s i \<longleftrightarrow> i = 0 \<or> i = length s \<or> (i < length s \<and> \<not> is_cont (as_bytes s ! i))"

fun boundary_below :: "string \<Rightarrow> nat \<Rightarrow> nat" where
  "boundary_below s 0 = 0"
| "boundary_below s (Suc n) = (if is_char_boundary s (Suc n) then Suc n else boundary_below s n)"

definition cut_at :: "nat \<Rightarrow> string \<Rightarrow> string" where
  "cut_at limit s = (if length s \<le> limit then s else take (boundary_below s limit) s)"

lemma boundary_below_is: "is_char_boundary s (boundary_below s n) \<and> boundary_below s n \<le> n"
  by (induction n) (auto simp: is_char_boundary_def)

lemma boundary_below_greatest: "is_char_boundary s b \<Longrightarrow> b \<le> n \<Longrightarrow> b \<le> boundary_below s n"
  by (induction n) (auto simp: le_Suc_eq)

lemma length_cut_at: "length (cut_at limit s) \<le> limit"
  using boundary_below_is [of s limit] by (simp add: cut_at_def)

text \<open>The cut keeps every prefix that ends at a boundary and fits.\<close>

lemma cut_at_longest:
  "is_char_boundary s b \<Longrightarrow> b \<le> limit \<Longrightarrow> b \<le> length s \<Longrightarrow> take b (cut_at limit s) = take b s"
  using boundary_below_greatest [of s b limit] by (simp add: cut_at_def min_def)

lemma char_wr_bytes:
  assumes "is_scalar c"
  shows "\<not> is_cont (hd (char_wr c)) \<and> (\<forall>b \<in> set (tl (char_wr c)). is_cont b)"
proof -
  consider "c < 0x80" | "0x80 \<le> c" "c < 0x800" | "0x800 \<le> c" "c < 0x10000"
    | "0x10000 \<le> c" "c < 0x110000"
    using assms by (fastforce simp: is_scalar_def)
  then show ?thesis
  proof cases
    case 1
    then show ?thesis by (simp add: char_wr_def is_cont_def lead_byte)
  next
    case 2
    then have "unat (of_nat (0xC0 + c div 64) :: byte) = 0xC0 + c div 64" by (intro lead_byte) linarith
    with 2 show ?thesis by (simp add: char_wr_def is_cont_def [of "of_nat (192 + c div 64)"] del: of_nat_add)
  next
    case 3
    then have "unat (of_nat (0xE0 + c div 4096) :: byte) = 0xE0 + c div 4096" by (intro lead_byte) linarith
    with 3 show ?thesis by (simp add: char_wr_def is_cont_def [of "of_nat (224 + c div 4096)"] del: of_nat_add)
  next
    case 4
    then have "unat (of_nat (0xF0 + c div 262144) :: byte) = 0xF0 + c div 262144" by (intro lead_byte) linarith
    with 4 show ?thesis by (simp add: char_wr_def is_cont_def [of "of_nat (240 + c div 262144)"] del: of_nat_add)
  qed
qed

text \<open>A boundary inside encoded characters is the end of some of them.\<close>

lemma boundary_between_chars:
  assumes "list_all is_scalar cs" and "i \<le> length (utf8_bytes cs)"
    and "i = length (utf8_bytes cs) \<or> \<not> is_cont (utf8_bytes cs ! i)"
  shows "\<exists>k. take i (utf8_bytes cs) = utf8_bytes (take k cs)"
  using assms
proof (induction cs arbitrary: i)
  case Nil
  then show ?case by simp
next
  case (Cons c cs)
  let ?w = "char_wr c"
  consider "i = 0" | "0 < i" "i < length ?w" | "length ?w \<le> i" by linarith
  then show ?case
  proof cases
    case 1
    then show ?thesis by (metis take0 utf8_bytes_simps(1) take_0)
  next
    case 2
    then have "utf8_bytes (c # cs) ! i = tl ?w ! (i - 1)" by (simp add: nth_append nth_tl)
    moreover have "tl ?w ! (i - 1) \<in> set (tl ?w)" using 2 by (intro nth_mem) simp
    moreover have "i \<noteq> length (utf8_bytes (c # cs))" using 2 by simp
    ultimately show ?thesis using Cons.prems char_wr_bytes [of c] by auto
  next
    case 3
    then have "i - length ?w = length (utf8_bytes cs) \<or> \<not> is_cont (utf8_bytes cs ! (i - length ?w))"
      using Cons.prems(2,3) by (auto simp: nth_append)
    moreover have "i - length ?w \<le> length (utf8_bytes cs)" using Cons.prems(2) by simp
    ultimately obtain k where "take (i - length ?w) (utf8_bytes cs) = utf8_bytes (take k cs)"
      using Cons by auto
    then have "take i (utf8_bytes (c # cs)) = utf8_bytes (take (Suc k) (c # cs))"
      using 3 by simp
    then show ?thesis by blast
  qed
qed

lemma list_all_take: "list_all P xs \<Longrightarrow> list_all P (take k xs)"
  by (auto simp: list_all_iff dest: in_set_takeD)

lemma chars_cut_at:
  assumes "is_utf8 s"
  shows "is_utf8 (cut_at limit s) \<and> (\<exists>k. chars (cut_at limit s) = take k (chars s))"
proof (cases "length s \<le> limit")
  case True
  then show ?thesis using assms by (simp add: cut_at_def) (metis le_refl take_all)
next
  case False
  obtain cs where cs: "list_all is_scalar cs" "s = of_chars cs" using assms is_utf8_iff by blast
  let ?i = "boundary_below s limit"
  have b: "is_char_boundary s ?i" "?i \<le> length s" using boundary_below_is [of s limit] False by simp_all
  have bytes: "as_bytes s = utf8_bytes cs" by (simp add: cs(2) of_chars_def)
  have "?i = length (utf8_bytes cs) \<or> ?i = 0 \<or> \<not> is_cont (utf8_bytes cs ! ?i)"
    using b(1) bytes length_as_bytes [of s] by (auto simp: is_char_boundary_def)
  moreover have le: "?i \<le> length (utf8_bytes cs)" using b(2) bytes length_as_bytes [of s] by simp
  ultimately obtain k where k: "take ?i (utf8_bytes cs) = utf8_bytes (take k cs)"
    using boundary_between_chars [OF cs(1) le] by (metis take0 take_0 utf8_bytes_simps(1))
  have "as_bytes (take ?i s) = take ?i (as_bytes s)" by (simp add: as_bytes_def take_map)
  then have "cut_at limit s = of_chars (take k cs)"
    using False k bytes by (metis cut_at_def from_as_bytes of_chars_def)
  then show ?thesis using cs list_all_take [OF cs(1), of k] by auto
qed

end
