(* ===== verification/Line_Log.thy ===== *)
theory Line_Log
  imports Lines Json
begin

text \<open>
  A file of lines that is only appended to, as the audit log and the crash log keep one: opening and
  writing a line and its line feed, reading the lines back, deleting the file. The locale \<open>journal\<close>
  is the contract between such a log and what it writes down: an entry is one line, never a blank
  one. It is interpreted on the two logs' encodings.
\<close>

section \<open>Free text\<close>

text \<open>Control characters become blanks, and what is longer than the limit is cut at a character.\<close>

definition blank_controls :: "string \<Rightarrow> string" where
  "blank_controls s = of_chars (map (\<lambda>c. if is_control c then 32 else c) (chars s))"

definition clean_text :: "nat \<Rightarrow> string \<Rightarrow> string" where
  "clean_text limit s = cut_at limit (blank_controls s)"

lemma blank_controls_scalar:
  "is_utf8 s \<Longrightarrow> list_all is_scalar (map (\<lambda>c. if is_control c then 32 else c) (chars s))"
  using chars_scalar [of s] by (auto simp: list_all_iff is_scalar_def)

lemma chars_blank_controls:
  "is_utf8 s \<Longrightarrow> chars (blank_controls s) = map (\<lambda>c. if is_control c then 32 else c) (chars s)"
  unfolding blank_controls_def by (rule chars_of_chars) (rule blank_controls_scalar)

lemma blank_controls_utf8: "is_utf8 s \<Longrightarrow> is_utf8 (blank_controls s)"
  unfolding blank_controls_def by (rule is_utf8_of_chars) (rule blank_controls_scalar)

lemma clean_text_chars:
  assumes "is_utf8 s"
  shows "\<exists>k. chars (clean_text limit s) = take k (map (\<lambda>c. if is_control c then 32 else c) (chars s))"
  using chars_cut_at [OF blank_controls_utf8 [OF assms], of limit] chars_blank_controls [OF assms]
  by (simp add: clean_text_def)

lemma clean_text_utf8: "is_utf8 s \<Longrightarrow> is_utf8 (clean_text limit s)"
  using chars_cut_at [OF blank_controls_utf8] by (simp add: clean_text_def)

lemma length_clean_text: "length (clean_text limit s) \<le> limit"
  by (simp add: clean_text_def length_cut_at)

lemma clean_text_no_control: "is_utf8 s \<Longrightarrow> c \<in> set (chars (clean_text limit s)) \<Longrightarrow> \<not> is_control c"
  using clean_text_chars [of s limit] by (auto simp: is_control_def dest!: in_set_takeD split: if_splits)

text \<open>Text that is already clean and short stays as it is, so cleaning twice is cleaning once.\<close>

lemma clean_text_id:
  assumes "is_utf8 s" and "list_all (\<lambda>c. \<not> is_control c) (chars s)" and "length s \<le> limit"
  shows "clean_text limit s = s"
proof -
  have "map (\<lambda>c. if is_control c then 32 else c) (chars s) = chars s"
    using assms(2) by (auto simp: list_all_iff intro: map_idI)
  then have "blank_controls s = s" using assms(1) by (simp add: blank_controls_def)
  then show ?thesis using assms(3) by (simp add: clean_text_def cut_at_def)
qed

lemma clean_text_idem: "is_utf8 s \<Longrightarrow> clean_text limit (clean_text limit s) = clean_text limit s"
  by (rule clean_text_id)
    (auto simp: clean_text_utf8 length_clean_text list_all_iff dest: clean_text_no_control)

section \<open>The file\<close>

definition append_line :: "string \<Rightarrow> string \<Rightarrow> fs \<Rightarrow> (io_error + unit) \<times> fs" where
  "append_line p line =
     tr_then (open_append p) (\<lambda>_. tr_then (append_file p line) (\<lambda>_. append_file p [NL]))"

definition clear_log :: "string \<Rightarrow> fs \<Rightarrow> (io_error + bool) \<times> fs" where
  "clear_log p fs =
     (case remove_file p fs of
        (Inr _, fs') \<Rightarrow> (Inr True, fs')
      | (Inl NotFound, fs') \<Rightarrow> (Inr False, fs')
      | (Inl e, fs') \<Rightarrow> (Inl e, fs'))"

definition visible_lines :: "string \<Rightarrow> string list" where
  "visible_lines text = filter (\<lambda>l. trim l \<noteq> []) (lines text)"

text \<open>
  Whatever happens to the writes, the file holds what it held and a part of the line, in the end all
  of it when the call reports success; no other file changes.
\<close>

lemma append_line_outcome:
  assumes "append_line p line fs = (r, fs')"
  shows "(\<exists>k. file_bytes p fs' = file_bytes p fs @ take k (as_bytes (line @ [NL]))) \<and>
    (r = Inr () \<longrightarrow> fs_files fs' p = Some (file_bytes p fs @ as_bytes (line @ [NL]))) \<and>
    (\<forall>q. q \<noteq> p \<longrightarrow> fs_files fs' q = fs_files fs q) \<and> fs_fault fs' = fs_fault fs \<and> fs_torn fs' = fs_torn fs"
proof -
  let ?l = "as_bytes line" and ?n = "as_bytes [NL]"
  have c: "file_bytes p (set_file p (Some x) fs) = x" for x fs by (simp add: file_bytes_def)
  consider (o) e where "fs_fault fs (OpenCall p) = Some e"
    | (l) e where "fs_fault fs (OpenCall p) = None" "fs_fault fs (AppendCall p line) = Some e"
    | (n) e where "fs_fault fs (OpenCall p) = None" "fs_fault fs (AppendCall p line) = None"
        "fs_fault fs (AppendCall p [NL]) = Some e"
    | (all) "fs_fault fs (OpenCall p) = None" "fs_fault fs (AppendCall p line) = None"
        "fs_fault fs (AppendCall p [NL]) = None"
    by (meson not_None_eq)
  then show ?thesis
  proof cases
    case o
    with assms show ?thesis
      by (auto simp: append_line_def tr_then_def open_append_def intro: exI [of _ 0])
  next
    case l
    with assms have "fs' = set_file p (Some (file_bytes p fs @ take (fs_torn fs) ?l)) (set_file p (Some (file_bytes p fs)) fs)" "r = Inl e"
      by (auto simp: append_line_def tr_then_def open_append_def append_file_def c)
    then show ?thesis using c
      by (auto intro!: exI [of _ "min (fs_torn fs) (length line)"] simp: min_def)
  next
    case n
    with assms have "fs' = set_file p (Some ((file_bytes p fs @ ?l) @ take (fs_torn fs) ?n))
        (set_file p (Some (file_bytes p fs @ ?l)) (set_file p (Some (file_bytes p fs)) fs))" "r = Inl e"
      by (auto simp: append_line_def tr_then_def open_append_def append_file_def c)
    then show ?thesis using c by (auto intro!: exI [of _ "length line + fs_torn fs"])
  next
    case all
    with assms have "fs' = set_file p (Some ((file_bytes p fs @ ?l) @ ?n))
        (set_file p (Some (file_bytes p fs @ ?l)) (set_file p (Some (file_bytes p fs)) fs))" "r = Inr ()"
      by (auto simp: append_line_def tr_then_def open_append_def append_file_def c)
    then show ?thesis using c by (auto intro!: exI [of _ "length line + 1"])
  qed
qed

lemma append_line_without_faults:
  "fs_fault fs = (\<lambda>_. None) \<Longrightarrow> fst (append_line p line fs) = Inr ()"
  by (simp add: append_line_def tr_then_def open_append_def append_file_def)

lemma clear_log_outcome:
  assumes "clear_log p fs = (Inr b, fs')"
  shows "fs_files fs' p = None \<and> (b \<longleftrightarrow> fs_files fs p \<noteq> None) \<and> (\<forall>q. q \<noteq> p \<longrightarrow> fs_files fs' q = fs_files fs q) \<or>
    fs' = fs \<and> \<not> b \<and> fs_fault fs (RemoveCall p) = Some NotFound"
  using assms by (auto simp: clear_log_def remove_file_def split: option.splits io_error.splits if_splits)

section \<open>Lines that are never blank\<close>

lemma chars_Cons_ascii:
  assumes "(of_char c :: nat) < 128" and "is_utf8 s"
  shows "is_utf8 (c # s) \<and> chars (c # s) = of_char c # chars s"
proof -
  obtain cs where cs: "list_all is_scalar cs" "s = of_chars cs" using assms(2) is_utf8_iff by blast
  have "of_chars (of_char c # cs) = c # s"
    using assms(1) cs(2) by (simp add: of_chars_def char_wr_def from_bytes_def char_of_byte_def)
  moreover have "list_all is_scalar (of_char c # cs)" using assms(1) cs(1) by (simp add: is_scalar_def)
  ultimately show ?thesis using cs by (metis chars_of_chars is_utf8_of_chars)
qed

lemma is_utf8_Cons_ascii: "(of_char c :: nat) < 128 \<Longrightarrow> is_utf8 (c # s) \<longleftrightarrow> is_utf8 s"
proof
  assume c: "(of_char c :: nat) < 128" and u: "is_utf8 (c # s)"
  have "as_bytes (c # s) = char_wr (of_char c) @ as_bytes s"
    using c by (simp add: as_bytes_def byte_of_char_def char_wr_def)
  then have "utf8_chars (as_bytes (c # s)) = map_option ((#) (of_char c)) (utf8_chars (as_bytes s))"
    using char_rd_wr [of "of_char c" "as_bytes s"] c by (subst utf8_chars.simps) (auto simp: is_scalar_def)
  with u show "is_utf8 s" by (auto simp: is_utf8_def)
qed (simp add: chars_Cons_ascii)

lemma trim_visible:
  assumes "c \<in> set (chars s)" and "\<not> is_whitespace c"
  shows "trim s \<noteq> []"
proof -
  let ?t = "dropWhile is_whitespace (chars s)"
  have "c \<in> set ?t" using assms by (metis Un_iff set_append set_takeWhileD takeWhile_dropWhile_id)
  then have "dropWhile is_whitespace (rev ?t) \<noteq> []" using assms(2) by (auto simp: dropWhile_eq_Nil_conv)
  then have "rev (dropWhile is_whitespace (rev ?t)) \<noteq> []" by simp
  then show ?thesis unfolding trim_def
    by (metis (no_types, lifting) char_wr_nonempty from_bytes_def of_chars_def append_is_Nil_conv
        list.exhaust map_is_Nil_conv utf8_bytes_simps(2))
qed

lemma visible_first:
  assumes "(of_char c :: nat) < 128" and "\<not> is_whitespace (of_char c)" and "is_utf8 (c # s)"
  shows "trim (c # s) \<noteq> []"
proof (rule trim_visible)
  show "of_char c \<in> set (chars (c # s))"
    using assms(1,3) chars_Cons_ascii [of c s] by (simp add: is_utf8_Cons_ascii)
qed (rule assms(2))

section \<open>The contract of a log of entries\<close>

locale journal =
  fixes line :: "'e \<Rightarrow> string" and ok :: "'e \<Rightarrow> bool"
  assumes one_line: "ok e \<Longrightarrow> whole_line (line e)"
    and utf8_line: "ok e \<Longrightarrow> is_utf8 (line e)"
    and visible: "ok e \<Longrightarrow> trim (line e) \<noteq> []"
begin

definition holds :: "'e list \<Rightarrow> string \<Rightarrow> fs \<Rightarrow> bool" where
  "holds es p fs \<longleftrightarrow> list_all ok es \<and> file_bytes p fs = as_bytes (text_of_lines (map line es))"

lemma text_utf8: "list_all ok es \<Longrightarrow> is_utf8 (text_of_lines (map line es))"
proof (induction es)
  case (Cons e es)
  then have "is_utf8 (NL # text_of_lines (map line es))"
    using chars_Cons_ascii [of NL] by (simp add: NL_def)
  with Cons utf8_line [of e] show ?case by (simp add: is_utf8_append)
qed (simp add: is_utf8_ascii)

lemma lines_of_entries: "list_all ok es \<Longrightarrow> lines (text_of_lines (map line es)) = map line es"
  by (rule lines_of_text) (auto simp: list_all_iff intro: one_line)

lemma visible_lines_of_entries:
  "list_all ok es \<Longrightarrow> visible_lines (text_of_lines (map line es)) = map line es"
  by (simp add: visible_lines_def lines_of_entries) (auto simp: list_all_iff filter_id_conv visible)

text \<open>A successful append adds the entry at the end and nothing else.\<close>

lemma append_holds:
  "holds es p fs \<Longrightarrow> ok e \<Longrightarrow> append_line p (line e) fs = (Inr (), fs') \<Longrightarrow>
   holds (es @ [e]) p fs' \<and> fs_files fs' p \<noteq> None"
  using append_line_outcome [of p "line e" fs "Inr ()" fs'] by (simp add: holds_def file_bytes_def)

lemma holds_missing: "fs_files fs p = None \<Longrightarrow> holds [] p fs"
  by (simp add: holds_def file_bytes_def as_bytes_def)

lemma holds_read:
  "holds es p fs \<Longrightarrow> fs_fault fs (ReadCall p) = None \<Longrightarrow> fs_files fs p \<noteq> None \<Longrightarrow>
   read_to_string p fs = Inr (text_of_lines (map line es))"
  using text_utf8 by (auto simp: holds_def read_to_string_Inr file_bytes_def)

text \<open>
  After a write that stopped inside a line, the next entry is written behind the torn piece: it is
  on the file, but not on a line of its own.
\<close>

lemma entry_after_torn_line:
  assumes "list_all ok es" and "ok e" and "NL \<notin> set torn"
  shows "lines (text_of_lines (map line es) @ torn @ text_of_lines [line e]) = map line es @ [torn @ line e]"
proof (rule lines_after_torn)
  show "\<forall>l \<in> set (map line es). whole_line l" using assms(1) one_line by (auto simp: list_all_iff)
  show "whole_line (line e)" using one_line assms(2) .
  show "line e \<noteq> []" using visible [OF assms(2)] by auto
qed (rule assms(3))

end

end
