(* ===== verification/Json_Value.thy ===== *)
theory Json_Value
  imports Lines
begin

text \<open>
  What the code uses of \<open>serde_json::Value\<close>: the parser, \<open>get\<close>, \<open>as_str\<close>, \<open>as_u64\<close> and the text of a
  string. The library is a parameter, \<open>'v\<close> its type of values; \<open>value_contract\<close> is what JSON says of
  an object of plain keys, and \<open>demo_values\<close> a small reader of such objects that keeps it.
\<close>

record 'v value_lib =
  vl_parse :: "string \<Rightarrow> 'v option"
  vl_get :: "'v \<Rightarrow> string \<Rightarrow> 'v option"
  vl_str :: "'v \<Rightarrow> string option"
  vl_u64 :: "'v \<Rightarrow> nat option"
  vl_quote :: "string \<Rightarrow> string option"

definition QUOTE :: char where "QUOTE = CHR 0x22"

section \<open>The text of an object\<close>

text \<open>A field holds null, an unsigned number, a plain name written as it is, or a quoted string.\<close>

datatype field = FNull | FNumber nat | FName string | FString string

definition plain_name :: "string \<Rightarrow> bool" where
  "plain_name s \<longleftrightarrow> list_all (\<lambda>c. c = CHR ''_'' \<or> c = CHR '' '' \<or> (97 \<le> (of_char c :: nat) \<and> (of_char c :: nat) \<le> 122)) s"

fun field_text :: "'v value_lib \<Rightarrow> field \<Rightarrow> string option" where
  "field_text V FNull = Some ''null''"
| "field_text V (FNumber n) = (if n < 2 ^ 64 then Some (decimal n) else None)"
| "field_text V (FName s) = (if plain_name s then Some (QUOTE # s @ [QUOTE]) else None)"
| "field_text V (FString s) = vl_quote V s"

fun member_texts :: "'v value_lib \<Rightarrow> (string \<times> field) list \<Rightarrow> string option" where
  "member_texts V [] = Some ''''"
| "member_texts V ((k, f) # fs) =
     (case field_text V f of
        None \<Rightarrow> None
      | Some t \<Rightarrow>
          (case member_texts V fs of
             None \<Rightarrow> None
           | Some ts \<Rightarrow>
               if plain_name k
               then Some (QUOTE # k @ QUOTE # '':'' @ t @ (if fs = [] then '''' else '','') @ ts) else None))"

definition object_text :: "'v value_lib \<Rightarrow> (string \<times> field) list \<Rightarrow> string option" where
  "object_text V fs = map_option (\<lambda>ts. ''{'' @ ts @ ''}'') (member_texts V fs)"

fun field_str :: "field \<Rightarrow> string option" where
  "field_str (FName s) = Some s"
| "field_str (FString s) = Some s"
| "field_str _ = None"

fun field_u64 :: "field \<Rightarrow> nat option" where
  "field_u64 (FNumber n) = Some n"
| "field_u64 _ = None"

definition reads_field :: "'v value_lib \<Rightarrow> 'v option \<Rightarrow> field option \<Rightarrow> bool" where
  "reads_field V v f \<longleftrightarrow>
     (case f of
        None \<Rightarrow> v = None
      | Some f \<Rightarrow> (\<exists>x. v = Some x \<and> vl_str V x = field_str f \<and> vl_u64 V x = field_u64 f))"

definition value_contract :: "'v value_lib \<Rightarrow> bool" where
  "value_contract V \<longleftrightarrow>
     (\<forall>s. vl_quote V s \<noteq> None) \<and>
     (\<forall>s t. vl_quote V s = Some t \<longrightarrow>
        printable t \<and> (is_utf8 s \<longrightarrow> is_utf8 t)) \<and>
     (\<forall>fs t. fs \<noteq> [] \<and> distinct (map fst fs) \<and> object_text V fs = Some t \<longrightarrow>
        (\<exists>v. vl_parse V t = Some v \<and> (\<forall>k. reads_field V (vl_get V v k) (map_of fs k))))"

lemma value_contract_printable: "value_contract V \<Longrightarrow> vl_quote V s = Some t \<Longrightarrow> printable t"
  by (auto simp: value_contract_def)

lemma value_contract_utf8: "value_contract V \<Longrightarrow> vl_quote V s = Some t \<Longrightarrow> is_utf8 s \<Longrightarrow> is_utf8 t"
  by (auto simp: value_contract_def)

lemma value_contract_total: "value_contract V \<Longrightarrow> \<exists>t. vl_quote V s = Some t"
  by (auto simp: value_contract_def)

lemma value_contract_object:
  assumes "value_contract V" and "object_text V fs = Some t" and "fs \<noteq> []" and "distinct (map fst fs)"
  obtains v where "vl_parse V t = Some v" and "\<And>k. reads_field V (vl_get V v k) (map_of fs k)"
  using assms unfolding value_contract_def by blast

lemma plain_name_printable: "plain_name s \<Longrightarrow> printable s \<and> is_ascii s"
  by (induction s) (auto simp: plain_name_def)

section \<open>A concrete reader\<close>

text \<open>
  Strings are escaped as JSON has it (a backslash before a quote and a backslash, four hexadecimal
  digits for a control character) and objects of the shape above are read back.
\<close>

datatype demo_value = DNull | DNumber nat | DString string | DObject "(string \<times> demo_value) list"

definition BACKSLASH :: char where "BACKSLASH = CHR 0x5C"

definition hex_digit :: "nat \<Rightarrow> char" where "hex_digit n = ''0123456789abcdef'' ! n"

definition hex_value :: "char \<Rightarrow> nat" where
  "hex_value c = (let n = of_char c in if n \<le> 57 then n - 48 else n - 87)"

definition escape :: "char \<Rightarrow> string" where
  "escape c =
     (let n = of_char c :: nat in
      if c = QUOTE \<or> c = BACKSLASH then [BACKSLASH, c]
      else if n < 32 then BACKSLASH # ''u00'' @ [hex_digit (n div 16), hex_digit (n mod 16)]
      else [c])"

definition demo_quote :: "string \<Rightarrow> string" where
  "demo_quote s = QUOTE # concat (map escape s) @ [QUOTE]"

datatype scan_state = Plain | Escaped | Unicode nat nat

fun scan :: "scan_state \<Rightarrow> string \<Rightarrow> string \<Rightarrow> (string \<times> string) option" where
  "scan st acc [] = None"
| "scan Plain acc (c # s) =
     (if c = QUOTE then Some (acc, s) else if c = BACKSLASH then scan Escaped acc s
      else scan Plain (acc @ [c]) s)"
| "scan Escaped acc (c # s) =
     (if c = CHR ''u'' then scan (Unicode 4 0) acc s else scan Plain (acc @ [c]) s)"
| "scan (Unicode k v) acc (c # s) =
     (let w = v * 16 + hex_value c in
      if k \<le> 1 then scan Plain (acc @ [char_of w]) s else scan (Unicode (k - 1) w) acc s)"

lemma hex_value_digit: "n < 16 \<Longrightarrow> hex_value (hex_digit n) = n"
proof -
  assume "n < 16"
  moreover have "\<forall>n \<in> set [0..<16]. hex_value (hex_digit n) = n" by code_simp
  ultimately show ?thesis by simp
qed

lemma scan_unicode:
  "scan (Unicode 4 0) acc (CHR ''0'' # CHR ''0'' # hex_digit a # hex_digit b # s)
     = scan Plain (acc @ [char_of (a * 16 + b)]) s" if "a < 16" "b < 16"
proof -
  have "hex_value (CHR ''0'') = 0" by code_simp
  with that show ?thesis by (simp add: hex_value_digit Let_def)
qed

lemma scan_escape: "scan Plain acc (escape c @ s) = scan Plain (acc @ [c]) s"
proof -
  have u: "CHR ''u'' \<noteq> QUOTE" "CHR ''u'' \<noteq> BACKSLASH" "QUOTE \<noteq> BACKSLASH" by (simp_all add: QUOTE_def BACKSLASH_def)
  let ?n = "of_char c :: nat"
  consider "c = QUOTE" | "c = BACKSLASH" | "c \<noteq> QUOTE" "c \<noteq> BACKSLASH" "?n < 32"
    | "c \<noteq> QUOTE" "c \<noteq> BACKSLASH" "\<not> ?n < 32" by blast
  then show ?thesis
  proof cases
    case 3
    have "?n div 16 * 16 + ?n mod 16 = ?n" by simp
    then have "char_of (?n div 16 * 16 + ?n mod 16) = c" by (metis char_of_char)
    moreover have "?n div 16 < 16" using 3 by simp
    ultimately show ?thesis using 3 u scan_unicode [of "?n div 16" "?n mod 16" acc s]
      by (simp add: escape_def Let_def)
  qed (use u in \<open>simp_all add: escape_def Let_def\<close>)
qed

lemma scan_escapes: "scan Plain acc (concat (map escape t) @ s) = scan Plain (acc @ t) s"
  by (induction t arbitrary: acc) (simp_all add: scan_escape)

lemma scan_quoted: "scan Plain [] (concat (map escape t) @ QUOTE # s) = Some (t, s)"
  by (simp add: scan_escapes)

lemma plain_name_escape: "plain_name s \<Longrightarrow> concat (map escape s) = s"
proof (induction s)
  case (Cons c s)
  then have c: "c = CHR ''_'' \<or> c = CHR '' '' \<or> (97 \<le> (of_char c :: nat) \<and> (of_char c :: nat) \<le> 122)"
    and s: "plain_name s" by (simp_all add: plain_name_def)
  have "c \<noteq> QUOTE" "c \<noteq> BACKSLASH" "\<not> (of_char c :: nat) < 32"
    using c by (auto simp: QUOTE_def BACKSLASH_def)
  then have "escape c = [c]" by (simp add: escape_def)
  with Cons.IH [OF s] show ?case by simp
qed simp

lemma scan_name: "plain_name k \<Longrightarrow> scan Plain [] (k @ QUOTE # s) = Some (k, s)"
  using scan_quoted [of k s] by (simp add: plain_name_escape)

definition is_digit :: "char \<Rightarrow> bool" where
  "is_digit c \<longleftrightarrow> 48 \<le> (of_char c :: nat) \<and> (of_char c :: nat) \<le> 57"

definition scan_value :: "string \<Rightarrow> (demo_value \<times> string) option" where
  "scan_value s =
     (if s \<noteq> [] \<and> hd s = QUOTE then map_option (\<lambda>(t, r). (DString t, r)) (scan Plain [] (tl s))
      else if take 4 s = ''null'' then Some (DNull, drop 4 s)
      else map_option (\<lambda>n. (DNumber n, dropWhile is_digit s)) (digits_value 0 (takeWhile is_digit s)))"

fun scan_members :: "nat \<Rightarrow> string \<Rightarrow> (string \<times> demo_value) list option" where
  "scan_members 0 s = None"
| "scan_members (Suc n) s =
     (if s = [] \<or> hd s \<noteq> QUOTE then None
      else (case scan Plain [] (tl s) of
              None \<Rightarrow> None
            | Some (k, r) \<Rightarrow>
                (case scan_value (tl r) of
                   None \<Rightarrow> None
                 | Some (v, r') \<Rightarrow>
                     if r' = ''}'' then Some [(k, v)]
                     else map_option ((#) (k, v)) (scan_members n (tl r')))))"

definition demo_values :: "demo_value value_lib" where
  "demo_values =
     \<lparr>vl_parse = (\<lambda>s. map_option DObject (scan_members (length s) (tl s))),
      vl_get = (\<lambda>v k. case v of DObject ms \<Rightarrow> map_of ms k | _ \<Rightarrow> None),
      vl_str = (\<lambda>v. case v of DString s \<Rightarrow> Some s | _ \<Rightarrow> None),
      vl_u64 = (\<lambda>v. case v of DNumber n \<Rightarrow> Some n | _ \<Rightarrow> None),
      vl_quote = (\<lambda>s. Some (demo_quote s))\<rparr>"

fun demo_of :: "field \<Rightarrow> demo_value" where
  "demo_of FNull = DNull"
| "demo_of (FNumber n) = DNumber n"
| "demo_of (FName s) = DString s"
| "demo_of (FString s) = DString s"

lemma decimal_is_digits: "takeWhile is_digit (decimal n @ c # s) = decimal n"
  "dropWhile is_digit (decimal n @ c # s) = c # s" if "\<not> is_digit c"
  using that decimal_digits [of _ n]
  by (auto simp: is_digit_def takeWhile_append dropWhile_append)

lemma scan_value_field:
  assumes "field_text demo_values f = Some t" and "\<not> is_digit c"
  shows "scan_value (t @ c # s) = Some (demo_of f, c # s)"
proof (cases f)
  case FNull
  then show ?thesis using assms by (auto simp: scan_value_def QUOTE_def)
next
  case (FNumber n)
  then have t: "t = decimal n" using assms by (simp split: if_splits)
  have d: "(of_char d :: nat) \<in> {48..57}" if "d \<in> set (decimal n)" for d using decimal_digits [OF that] .
  obtain d ds where dd: "decimal n = d # ds" using decimal_ne [of n] by (cases "decimal n") auto
  have "d \<noteq> QUOTE" "d \<noteq> CHR ''n''" using d [of d] dd by (auto simp: QUOTE_def)
  then have "hd (t @ c # s) \<noteq> QUOTE" "take 4 (t @ c # s) \<noteq> ''null''" using t dd by auto
  then show ?thesis using FNumber t decimal_is_digits [OF assms(2)] digits_value_decimal [of 0 n]
    by (simp add: scan_value_def)
next
  case (FName n)
  then show ?thesis using assms scan_name [of n "c # s"] by (auto simp: scan_value_def split: if_splits)
next
  case (FString u)
  then show ?thesis using assms(1) scan_quoted [of u "c # s"]
    by (auto simp: scan_value_def demo_values_def demo_quote_def)
qed

lemma scan_members_text:
  assumes "member_texts demo_values fs = Some t" and "fs \<noteq> []" and "length fs \<le> n"
  shows "scan_members n (t @ ''}'') = Some (map (\<lambda>(k, f). (k, demo_of f)) fs)"
  using assms
proof (induction fs arbitrary: t n)
  case Nil
  then show ?case by simp
next
  case (Cons m fs)
  obtain k f where m: "m = (k, f)" by fastforce
  from Cons.prems(1) m obtain u ts where u: "field_text demo_values f = Some u"
    and ts: "member_texts demo_values fs = Some ts" and k: "plain_name k"
    and t: "t = QUOTE # k @ QUOTE # '':'' @ u @ (if fs = [] then '''' else '','') @ ts"
    by (auto split: option.splits if_splits)
  obtain n' where n: "n = Suc n'" "length fs \<le> n'" using Cons.prems(3) by (cases n) auto
  have d: "\<not> is_digit CHR '',''" "\<not> is_digit CHR ''}''" by (simp_all add: is_digit_def)
  show ?case
  proof (cases "fs = []")
    case True
    then have "ts = ''''" using ts by simp
    then show ?thesis using True n t m scan_name [OF k, of "'':'' @ u @ ''}''"]
        scan_value_field [OF u d(2), of "''''"] by simp
  next
    case False
    have IH: "scan_members n' (ts @ ''}'') = Some (map (\<lambda>(k, f). (k, demo_of f)) fs)"
      using Cons.IH [OF ts False n(2)] .
    show ?thesis using False n t m IH scan_name [OF k, of "'':'' @ u @ '','' @ ts @ ''}''"]
        scan_value_field [OF u d(1), of "ts @ ''}''"] by simp
  qed
qed

lemma member_texts_length: "member_texts V fs = Some t \<Longrightarrow> length fs \<le> length t"
  by (induction fs arbitrary: t) (fastforce split: option.splits if_splits)+

lemma escape_printable: "c' \<in> set (escape c) \<Longrightarrow> 32 \<le> (of_char c' :: nat)"
proof -
  assume c': "c' \<in> set (escape c)"
  have "\<forall>n \<in> set [0..<16]. 32 \<le> (of_char (hex_digit n) :: nat)" by code_simp
  then have h: "n < 16 \<Longrightarrow> 32 \<le> (of_char (hex_digit n) :: nat)" for n by simp
  show ?thesis using c' h [of "of_char c div 16"] h [of "of_char c mod 16"]
    by (auto simp: escape_def Let_def QUOTE_def BACKSLASH_def split: if_splits)
qed

lemma utf8_ascii_char: "(of_char c :: nat) < 128 \<Longrightarrow> as_bytes [c] = char_wr (of_char c)"
  by (simp add: as_bytes_def byte_of_char_def char_wr_def)

text \<open>Escaping leaves every byte of an encoded character above the ASCII range as it is.\<close>

lemma escape_high: "128 \<le> (of_char c :: nat) \<Longrightarrow> escape c = [c]"
  by (auto simp: escape_def Let_def QUOTE_def BACKSLASH_def)

definition escape_char :: "nat \<Rightarrow> nat list" where
  "escape_char n = (if n < 128 then map of_char (escape (char_of n)) else [n])"

lemma char_wr_high: "128 \<le> n \<Longrightarrow> is_scalar n \<Longrightarrow> b \<in> set (char_wr n) \<Longrightarrow> 128 \<le> unat b"
proof -
  assume n: "128 \<le> n" "is_scalar n" and b: "b \<in> set (char_wr n)"
  have "n < 0x110000" using n(2) by (simp add: is_scalar_def)
  consider "n < 0x800" | "0x800 \<le> n" "n < 0x10000" | "0x10000 \<le> n" by linarith
  then have "128 \<le> unat (hd (char_wr n))"
  proof cases
    case 1
    then have "unat (of_nat (0xC0 + n div 64) :: byte) = 0xC0 + n div 64" by (intro lead_byte) linarith
    with 1 n show ?thesis by (simp add: char_wr_def del: of_nat_add)
  next
    case 2
    then have "unat (of_nat (0xE0 + n div 4096) :: byte) = 0xE0 + n div 4096" by (intro lead_byte) linarith
    with 2 n show ?thesis by (simp add: char_wr_def del: of_nat_add)
  next
    case 3
    then have "unat (of_nat (0xF0 + n div 262144) :: byte) = 0xF0 + n div 262144"
      using \<open>n < 0x110000\<close> by (intro lead_byte) linarith
    with 3 n show ?thesis by (simp add: char_wr_def del: of_nat_add)
  qed
  moreover have "\<forall>c \<in> set (tl (char_wr n)). is_cont c" using char_wr_bytes [OF n(2)] by simp
  moreover have "b = hd (char_wr n) \<or> b \<in> set (tl (char_wr n))"
    using b char_wr_nonempty [of n] by (cases "char_wr n") auto
  ultimately show ?thesis by (auto simp: is_cont_def)
qed

lemma escape_utf8_char:
  assumes "is_scalar n"
  shows "concat (map escape (from_bytes (char_wr n))) = from_bytes (utf8_bytes (escape_char n))
    \<and> list_all is_scalar (escape_char n)"
proof (cases "n < 128")
  case True
  have "(of_char (char_of n :: char) :: nat) = n" using True by simp
  have "from_bytes (char_wr n) = [char_of n]" using True by (simp add: char_wr_def from_bytes_def char_of_byte_def)
  moreover have a: "is_ascii (escape (char_of n))"
  proof -
    have "\<forall>n \<in> set [0..<16]. (of_char (hex_digit n) :: nat) < 128" by code_simp
    then have h: "n < 16 \<Longrightarrow> (of_char (hex_digit n) :: nat) < 128" for n by simp
    show ?thesis using True h [of "n div 16"] h [of "n mod 16"]
      by (auto simp: escape_def Let_def is_ascii_def QUOTE_def BACKSLASH_def)
  qed
  ultimately show ?thesis using ascii_bytes [OF a] True
    by (simp add: escape_char_def) (metis from_as_bytes)
next
  case False
  then have "\<forall>b \<in> set (char_wr n). 128 \<le> unat b" using char_wr_high [OF _ assms] by (simp add: linorder_not_less)
  then have "\<forall>c \<in> set (from_bytes (char_wr n)). escape c = [c]"
    by (auto simp: from_bytes_def char_of_byte_def intro!: escape_high)
  moreover have "\<forall>c \<in> set xs. escape c = [c] \<Longrightarrow> concat (map escape xs) = xs" for xs by (induction xs) auto
  ultimately show ?thesis using False assms by (simp add: escape_char_def)
qed

lemma escape_utf8: "list_all is_scalar cs \<Longrightarrow>
  concat (map escape (of_chars cs)) = of_chars (concat (map escape_char cs)) \<and>
  list_all is_scalar (concat (map escape_char cs))"
  by (induction cs) (auto simp: of_chars_def escape_utf8_char [THEN conjunct1] escape_utf8_char [THEN conjunct2])

lemma demo_quote_utf8: "is_utf8 s \<Longrightarrow> is_utf8 (demo_quote s)"
proof -
  assume "is_utf8 s"
  then obtain cs where "list_all is_scalar cs" "s = of_chars cs" by (auto simp: is_utf8_iff)
  then have "is_utf8 (concat (map escape s))" using escape_utf8 [of cs] by simp
  moreover have "is_utf8 [QUOTE]" by (rule is_utf8_ascii) (simp add: QUOTE_def)
  ultimately show ?thesis using is_utf8_append [of "[QUOTE]"] is_utf8_append by (simp add: demo_quote_def)
qed

lemma demo_values_contract: "value_contract demo_values"
proof -
  have q: "printable t \<and> (is_utf8 s \<longrightarrow> is_utf8 t)"
    if "vl_quote demo_values s = Some t" for s t
    using that demo_quote_utf8 [of s] escape_printable
    by (auto simp: demo_values_def demo_quote_def printable_def list_all_iff QUOTE_def)
  have o: "\<exists>v. vl_parse demo_values t = Some v \<and> (\<forall>k. reads_field demo_values (vl_get demo_values v k) (map_of fs k))"
    if "fs \<noteq> []" and "object_text demo_values fs = Some t" for fs t
  proof -
    from that(2) obtain ts where ts: "member_texts demo_values fs = Some ts" "t = ''{'' @ ts @ ''}''"
      by (auto simp: object_text_def)
    have "scan_members (length t) (ts @ ''}'') = Some (map (\<lambda>(k, f). (k, demo_of f)) fs)"
      by (rule scan_members_text [OF ts(1) that(1)]) (use member_texts_length [OF ts(1)] ts(2) in simp)
    then have p: "vl_parse demo_values t = Some (DObject (map (\<lambda>(k, f). (k, demo_of f)) fs))"
      using ts(2) by (simp add: demo_values_def del: scan_members.simps)
    have s: "vl_str demo_values (demo_of f) = field_str f" "vl_u64 demo_values (demo_of f) = field_u64 f" for f
      by (cases f; simp add: demo_values_def)+
    have "reads_field demo_values (vl_get demo_values (DObject (map (\<lambda>(k, f). (k, demo_of f)) fs)) k) (map_of fs k)" for k
      using s by (simp add: demo_values_def [unfolded demo_values_def] reads_field_def map_of_map split: option.splits)
        (simp add: demo_values_def map_of_map)
    with p show ?thesis by blast
  qed
  have "\<forall>s. vl_quote demo_values s \<noteq> None" by (simp add: demo_values_def)
  then show ?thesis unfolding value_contract_def using q o by blast
qed

end
