(* ===== verification/Audit_Log.thy ===== *)
theory Audit_Log
  imports Line_Log Json_Value "HOL-Library.Monad_Syntax"
begin

text \<open>
  The audit log of \<open>audit.rs\<close>: the closed sets of events and outcomes, the hand-written JSON line of
  an entry and its reader, recording an event (append, then apply the retention policy through a
  temporary file), reading under the retention window and deleting. The JSON library is a parameter
  of the reader and of the quoting; the two readings of the clock are arguments.
\<close>

section \<open>Events and outcomes\<close>

datatype audit_event =
    PairingAccepted | PairingRefused | PairingFailed | PairingLockedOut
  | DeviceRevoked | TunnelEstablished | TunnelReleased | LifecycleEvent

fun event_str :: "audit_event \<Rightarrow> string" where
  "event_str PairingAccepted = ''pairing_accepted''"
| "event_str PairingRefused = ''pairing_refused''"
| "event_str PairingFailed = ''pairing_failed''"
| "event_str PairingLockedOut = ''pairing_locked_out''"
| "event_str DeviceRevoked = ''device_revoked''"
| "event_str TunnelEstablished = ''tunnel_established''"
| "event_str TunnelReleased = ''tunnel_released''"
| "event_str LifecycleEvent = ''lifecycle_command''"

definition event_parse :: "string \<Rightarrow> audit_event option" where
  "event_parse name =
     find (\<lambda>event. event_str event = name)
       [PairingAccepted, PairingRefused, PairingFailed, PairingLockedOut,
        DeviceRevoked, TunnelEstablished, TunnelReleased, LifecycleEvent]"

datatype audit_outcome = OutcomeOk | OutcomeRefused | OutcomeFailed

fun outcome_str :: "audit_outcome \<Rightarrow> string" where
  "outcome_str OutcomeOk = ''ok''"
| "outcome_str OutcomeRefused = ''refused''"
| "outcome_str OutcomeFailed = ''failed''"

definition outcome_parse :: "string \<Rightarrow> audit_outcome option" where
  "outcome_parse name =
     (if name = ''ok'' then Some OutcomeOk
      else if name = ''refused'' then Some OutcomeRefused
      else if name = ''failed'' then Some OutcomeFailed else None)"

lemma event_parse_str [simp]: "event_parse (event_str ev) = Some ev"
  by (cases ev) (simp_all add: event_parse_def)

lemma outcome_parse_str [simp]: "outcome_parse (outcome_str out) = Some out"
  by (cases out) (simp_all add: outcome_parse_def)

lemma event_name_plain [simp]: "plain_name (event_str ev)" "plain_name (outcome_str out)"
  by (cases ev; simp add: plain_name_def) (cases out; simp add: plain_name_def)

section \<open>Constants, paths and the clock\<close>

definition AUDIT_FILE_NAME :: string where "AUDIT_FILE_NAME = ''audit.jsonl''"
definition MAX_REASON_LEN :: nat where "MAX_REASON_LEN = 200"
definition MAX_AGE_MS :: nat where "MAX_AGE_MS = 30 * 24 * 60 * 60 * 1000"
definition MAX_LINES :: nat where "MAX_LINES = 10000"

definition audit_path_in :: "string \<Rightarrow> string" where
  "audit_path_in directory = path_join directory AUDIT_FILE_NAME"

definition enabled_from :: "string option \<Rightarrow> bool" where
  "enabled_from value \<longleftrightarrow> value \<noteq> Some ''0''"

definition audit_sanitize :: "string \<Rightarrow> string" where
  "audit_sanitize text =
     (let cleaned = blank_controls text in
      if length cleaned \<le> MAX_REASON_LEN then cleaned
      else take (boundary_below cleaned MAX_REASON_LEN) cleaned)"

lemma audit_sanitize_eq: "audit_sanitize text = clean_text MAX_REASON_LEN text"
  by (simp add: audit_sanitize_def clean_text_def cut_at_def Let_def)

text \<open>Unix milliseconds: zero before the epoch, and no more than a \<open>u64\<close> holds.\<close>

definition now_ms :: "nat option \<Rightarrow> nat" where
  "now_ms since = (case since of None \<Rightarrow> 0 | Some ms \<Rightarrow> if ms < 2 ^ 64 then ms else 2 ^ 64 - 1)"

lemma now_ms_u64: "now_ms t < 2 ^ 64"
  by (auto simp: now_ms_def split: option.splits)

section \<open>An entry\<close>

record entry =
  en_at :: nat
  en_event :: audit_event
  en_device :: "string option"
  en_outcome :: audit_outcome
  en_reason :: "string option"

definition audit_quote :: "'v value_lib \<Rightarrow> string option \<Rightarrow> string" where
  "audit_quote V text =
     (case text of
        None \<Rightarrow> ''null''
      | Some t \<Rightarrow> (case vl_quote V (audit_sanitize t) of
                    None \<Rightarrow> [QUOTE] @ ''<unencodable>'' @ [QUOTE] | Some q \<Rightarrow> q))"

definition encode_entry :: "'v value_lib \<Rightarrow> entry \<Rightarrow> string" where
  "encode_entry V e =
     ''{'' @ [QUOTE] @ ''at_ms'' @ [QUOTE] @ '':'' @ decimal (en_at e)
     @ '','' @ [QUOTE] @ ''event'' @ [QUOTE] @ '':'' @ [QUOTE] @ event_str (en_event e) @ [QUOTE]
     @ '','' @ [QUOTE] @ ''device'' @ [QUOTE] @ '':'' @ audit_quote V (en_device e)
     @ '','' @ [QUOTE] @ ''outcome'' @ [QUOTE] @ '':'' @ [QUOTE] @ outcome_str (en_outcome e) @ [QUOTE]
     @ '','' @ [QUOTE] @ ''reason'' @ [QUOTE] @ '':'' @ audit_quote V (en_reason e) @ ''}''"

definition parse_entry :: "'v value_lib \<Rightarrow> string \<Rightarrow> entry option" where
  "parse_entry V line =
     do { v \<leftarrow> vl_parse V line;
          x \<leftarrow> vl_get V v ''event''; name \<leftarrow> vl_str V x; ev \<leftarrow> event_parse name;
          y \<leftarrow> vl_get V v ''outcome''; result \<leftarrow> vl_str V y; out \<leftarrow> outcome_parse result;
          z \<leftarrow> vl_get V v ''at_ms''; at \<leftarrow> vl_u64 V z;
          Some \<lparr>en_at = at, en_event = ev,
                en_device = do { d \<leftarrow> vl_get V v ''device''; vl_str V d },
                en_outcome = out,
                en_reason = do { r \<leftarrow> vl_get V v ''reason''; vl_str V r }\<rparr> }"

section \<open>Retention\<close>

definition expired :: "'v value_lib \<Rightarrow> nat \<Rightarrow> string \<Rightarrow> bool" where
  "expired V cutoff line = (case parse_entry V line of Some e \<Rightarrow> en_at e < cutoff | None \<Rightarrow> False)"

definition prune_cutoff :: "nat option \<Rightarrow> nat" where
  "prune_cutoff clock = now_ms clock - MAX_AGE_MS"

definition prune_lines :: "'v value_lib \<Rightarrow> nat \<Rightarrow> string list \<Rightarrow> string list" where
  "prune_lines V cutoff ls =
     (let keep = filter (\<lambda>l. \<not> expired V cutoff l) ls
      in if MAX_LINES < length keep then drop (length keep - MAX_LINES) keep else keep)"

definition must_prune :: "'v value_lib \<Rightarrow> nat \<Rightarrow> string list \<Rightarrow> bool" where
  "must_prune V cutoff ls \<longleftrightarrow>
     list_ex (expired V cutoff) ls \<or> MAX_LINES < length (filter (\<lambda>l. \<not> expired V cutoff l) ls)"

definition prune :: "'v value_lib \<Rightarrow> nat option \<Rightarrow> string \<Rightarrow> fs \<Rightarrow> (io_error + unit) \<times> fs" where
  "prune V clock p fs =
     (case read_to_string p fs of
        Inl NotFound \<Rightarrow> (Inr (), fs)
      | Inl e \<Rightarrow> (Inl e, fs)
      | Inr text \<Rightarrow>
          (let ls = visible_lines text; cutoff = prune_cutoff clock in
           if \<not> must_prune V cutoff ls then (Inr (), fs)
           else (case replace_file (with_extension p ''jsonl.tmp'') p
                        (text_of_lines (prune_lines V cutoff ls)) fs of
                   (r, fs') \<Rightarrow> (map_err snd r, fs'))))"

section \<open>Recording, reading, deleting\<close>

definition audit_entry :: "nat option \<Rightarrow> audit_event \<Rightarrow> string option \<Rightarrow> audit_outcome \<Rightarrow> string option \<Rightarrow> entry" where
  "audit_entry clock ev dev out reason =
     \<lparr>en_at = now_ms clock, en_event = ev, en_device = dev, en_outcome = out, en_reason = reason\<rparr>"

definition append_and_prune ::
    "'v value_lib \<Rightarrow> nat option \<Rightarrow> nat option \<Rightarrow> string \<Rightarrow> audit_event \<Rightarrow> string option
      \<Rightarrow> audit_outcome \<Rightarrow> string option \<Rightarrow> fs \<Rightarrow> (io_error + unit) \<times> fs" where
  "append_and_prune V clock clock' directory ev dev out reason =
     (let p = audit_path_in directory;
          line = encode_entry V (audit_entry clock ev dev out reason)
      in tr_then (append_line p line) (\<lambda>_. prune V clock' p))"

text \<open>An event that cannot be written is lost: nothing is returned to the caller.\<close>

definition audit_record ::
    "'v value_lib \<Rightarrow> string option \<Rightarrow> nat option \<Rightarrow> nat option \<Rightarrow> string \<Rightarrow> audit_event
      \<Rightarrow> string option \<Rightarrow> audit_outcome \<Rightarrow> string option \<Rightarrow> fs \<Rightarrow> fs" where
  "audit_record V env clock clock' directory ev dev out reason fs =
     (if \<not> enabled_from env then fs
      else snd (append_and_prune V clock clock' directory ev dev out reason fs))"

record audit_read =
  ar_entries :: "string list"
  ar_too_old :: nat
  ar_unreadable :: "string list"

definition empty_read :: audit_read where
  "empty_read = \<lparr>ar_entries = [], ar_too_old = 0, ar_unreadable = []\<rparr>"

definition read_line :: "'v value_lib \<Rightarrow> nat \<Rightarrow> audit_read \<Rightarrow> string \<Rightarrow> audit_read" where
  "read_line V cutoff r line =
     (case parse_entry V line of
        Some e \<Rightarrow> if en_at e < cutoff then r\<lparr>ar_too_old := ar_too_old r + 1\<rparr>
                  else r\<lparr>ar_entries := ar_entries r @ [line]\<rparr>
      | None \<Rightarrow> r\<lparr>ar_unreadable := ar_unreadable r @ [line]\<rparr>)"

definition read_audit :: "'v value_lib \<Rightarrow> nat option \<Rightarrow> string \<Rightarrow> fs \<Rightarrow> io_error + audit_read" where
  "read_audit V clock p fs =
     (case read_to_string p fs of
        Inl NotFound \<Rightarrow> Inr empty_read
      | Inl e \<Rightarrow> Inl e
      | Inr text \<Rightarrow> Inr (foldl (read_line V (prune_cutoff clock)) empty_read (visible_lines text)))"

definition audit_clear :: "string \<Rightarrow> fs \<Rightarrow> (io_error + bool) \<times> fs" where
  "audit_clear = clear_log"

section \<open>An entry is one line that reads back\<close>

definition opt_utf8 :: "string option \<Rightarrow> bool" where
  "opt_utf8 s = (case s of None \<Rightarrow> True | Some t \<Rightarrow> is_utf8 t)"

definition entry_ok :: "entry \<Rightarrow> bool" where
  "entry_ok e \<longleftrightarrow> en_at e < 2 ^ 64 \<and> opt_utf8 (en_device e) \<and> opt_utf8 (en_reason e)"

definition stored_entry :: "entry \<Rightarrow> entry" where
  "stored_entry e = e\<lparr>en_device := map_option audit_sanitize (en_device e),
                     en_reason := map_option audit_sanitize (en_reason e)\<rparr>"

definition entry_fields :: "entry \<Rightarrow> (string \<times> field) list" where
  "entry_fields e =
     (let opt = (\<lambda>x. case x of None \<Rightarrow> FNull | Some t \<Rightarrow> FString (audit_sanitize t)) in
      [(''at_ms'', FNumber (en_at e)), (''event'', FName (event_str (en_event e))),
       (''device'', opt (en_device e)), (''outcome'', FName (outcome_str (en_outcome e))),
       (''reason'', opt (en_reason e))])"

lemma encode_entry_object:
  assumes "value_contract V" and "en_at e < 2 ^ 64"
  shows "object_text V (entry_fields e) = Some (encode_entry V e)"
proof -
  have q: "field_text V (case x of None \<Rightarrow> FNull | Some t \<Rightarrow> FString (audit_sanitize t)) = Some (audit_quote V x)" for x
  proof (cases x)
    case (Some t)
    with value_contract_total [OF assms(1), of "audit_sanitize t"] show ?thesis by (auto simp: audit_quote_def)
  qed (simp add: audit_quote_def)
  have k: "plain_name ''at_ms''" "plain_name ''event''" "plain_name ''device''" "plain_name ''outcome''"
    "plain_name ''reason''" by (simp_all add: plain_name_def)
  show ?thesis
    using assms(2) by (simp add: object_text_def entry_fields_def Let_def q k encode_entry_def)
qed

lemma parse_encode_entry:
  assumes "value_contract V" and "en_at e < 2 ^ 64"
  shows "parse_entry V (encode_entry V e) = Some (stored_entry e)"
proof -
  have "distinct (map fst (entry_fields e))" by (simp add: entry_fields_def Let_def)
  moreover have "entry_fields e \<noteq> []" by (simp add: entry_fields_def Let_def)
  ultimately obtain v where v: "vl_parse V (encode_entry V e) = Some v"
    and r: "\<And>k. reads_field V (vl_get V v k) (map_of (entry_fields e) k)"
    using value_contract_object [OF assms(1) encode_entry_object [OF assms]] by metis
  obtain x y z where
    x: "vl_get V v ''at_ms'' = Some x" "vl_u64 V x = Some (en_at e)"
    and y: "vl_get V v ''event'' = Some y" "vl_str V y = Some (event_str (en_event e))"
    and z: "vl_get V v ''outcome'' = Some z" "vl_str V z = Some (outcome_str (en_outcome e))"
    using r [of "''at_ms''"] r [of "''event''"] r [of "''outcome''"]
    by (auto simp: entry_fields_def Let_def reads_field_def)
  have "Option.bind (vl_get V v k) (vl_str V) = map_option audit_sanitize w"
    if "map_of (entry_fields e) k = Some (case w of None \<Rightarrow> FNull | Some t \<Rightarrow> FString (audit_sanitize t))" for k w
    using r [of k] that by (auto simp: reads_field_def split: option.splits)
  from this [of "''device''" "en_device e"] this [of "''reason''" "en_reason e"]
  have d: "Option.bind (vl_get V v ''device'') (vl_str V) = map_option audit_sanitize (en_device e)"
    "Option.bind (vl_get V v ''reason'') (vl_str V) = map_option audit_sanitize (en_reason e)"
    by (simp_all add: entry_fields_def Let_def)
  show ?thesis unfolding parse_entry_def using v x y z d by (simp add: stored_entry_def)
qed

lemma audit_quote_printable: "value_contract V \<Longrightarrow> printable (audit_quote V x)"
  using value_contract_total [of V] value_contract_printable [of V]
  by (fastforce simp: audit_quote_def QUOTE_def split: option.split)

lemma encode_entry_printable: "value_contract V \<Longrightarrow> printable (encode_entry V e)"
  by (simp add: encode_entry_def QUOTE_def audit_quote_printable plain_name_printable)

lemma audit_sanitize_utf8: "is_utf8 t \<Longrightarrow> is_utf8 (audit_sanitize t)"
  by (simp add: audit_sanitize_eq clean_text_utf8)

lemma encode_entry_utf8:
  assumes "value_contract V" and "entry_ok e"
  shows "is_utf8 (encode_entry V e)"
proof -
  have q: "is_utf8 (audit_quote V x)" if "opt_utf8 x" for x
  proof (cases x)
    case None
    then show ?thesis by (simp add: audit_quote_def is_utf8_ascii)
  next
    case (Some t)
    with that obtain q where "vl_quote V (audit_sanitize t) = Some q" "is_utf8 t"
      using value_contract_total [OF assms(1)] by (auto simp: opt_utf8_def)
    with Some show ?thesis using value_contract_utf8 [OF assms(1)] audit_sanitize_utf8 by (auto simp: audit_quote_def)
  qed
  have a: "is_utf8 (event_str ev)" "is_utf8 (outcome_str out)" "is_utf8 (decimal n)" for ev out n
    using plain_name_printable by (simp_all add: is_utf8_ascii)
  show ?thesis
    using assms(2) q a unfolding encode_entry_def entry_ok_def
    by (simp add: QUOTE_def is_utf8_Cons_ascii is_utf8_append is_utf8_ascii)
qed

text \<open>Whatever the device id and the reason hold, what is written is one line and not a blank one.\<close>

interpretation audit_journal: journal "encode_entry V" "\<lambda>e. value_contract V \<and> entry_ok e"
  for V :: "'v value_lib"
proof
  fix e assume ok: "value_contract V \<and> entry_ok e"
  show "whole_line (encode_entry V e)" using encode_entry_printable printable_whole_line ok by blast
  show u: "is_utf8 (encode_entry V e)" using encode_entry_utf8 ok by blast
  have "encode_entry V e = CHR ''{'' # tl (encode_entry V e)" by (simp add: encode_entry_def)
  with u show "trim (encode_entry V e) \<noteq> []"
    using visible_first [of "CHR ''{''" "tl (encode_entry V e)"] by (simp add: is_whitespace_def)
qed

section \<open>The log refines a window of entries\<close>

text \<open>What the retention policy keeps of a list of entries, and a file that holds them.\<close>

definition audit_window :: "nat option \<Rightarrow> entry list \<Rightarrow> entry list" where
  "audit_window clock es =
     (let keep = filter (\<lambda>e. prune_cutoff clock \<le> en_at e) es in drop (length keep - MAX_LINES) keep)"

definition log_holds :: "'v value_lib \<Rightarrow> entry list \<Rightarrow> string \<Rightarrow> fs \<Rightarrow> bool" where
  "log_holds V es p fs \<longleftrightarrow>
     list_all entry_ok es \<and> file_bytes p fs = as_bytes (text_of_lines (map (encode_entry V) es))"

lemma log_holds_journal:
  "value_contract V \<Longrightarrow>
   log_holds V es p fs \<longleftrightarrow> journal.holds (encode_entry V) (\<lambda>e. value_contract V \<and> entry_ok e) es p fs"
  unfolding log_holds_def audit_journal.holds_def by simp

lemma expired_encode:
  "value_contract V \<Longrightarrow> entry_ok e \<Longrightarrow> expired V c (encode_entry V e) \<longleftrightarrow> en_at e < c"
  by (simp add: expired_def parse_encode_entry entry_ok_def stored_entry_def)

lemma kept_encoded:
  assumes "value_contract V" and "list_all entry_ok es"
  shows "filter (\<lambda>l. \<not> expired V c l) (map (encode_entry V) es)
    = map (encode_entry V) (filter (\<lambda>e. c \<le> en_at e) es)"
  using assms(2) by (induction es) (auto simp: expired_encode [OF assms(1)])

lemma prune_lines_encoded:
  assumes "value_contract V" and "list_all entry_ok es"
  shows "prune_lines V (prune_cutoff clock) (map (encode_entry V) es) = map (encode_entry V) (audit_window clock es)"
  using kept_encoded [OF assms] by (simp add: prune_lines_def audit_window_def Let_def drop_map)

lemma must_prune_encoded:
  assumes "value_contract V" and "list_all entry_ok es" and "\<not> must_prune V (prune_cutoff clock) (map (encode_entry V) es)"
  shows "audit_window clock es = es"
proof -
  have "\<forall>e \<in> set es. prune_cutoff clock \<le> en_at e"
    using assms expired_encode [OF assms(1)] by (fastforce simp: must_prune_def list_ex_iff list_all_iff)
  then have f: "filter (\<lambda>e. prune_cutoff clock \<le> en_at e) es = es" by (auto simp: filter_id_conv)
  then have "length es \<le> MAX_LINES" using assms(3) kept_encoded [OF assms(1,2), of "prune_cutoff clock"]
    by (simp add: must_prune_def)
  with f show ?thesis by (simp add: audit_window_def Let_def)
qed

lemma window_ok: "list_all entry_ok es \<Longrightarrow> list_all entry_ok (audit_window clock es)"
  by (auto simp: audit_window_def Let_def list_all_iff dest: in_set_dropD)

lemma length_window: "length (audit_window clock es) \<le> MAX_LINES"
  by (simp add: audit_window_def Let_def)

lemma audit_path_has_name: "has_name (audit_path_in d)"
  using file_name_join [of AUDIT_FILE_NAME d] by (simp add: has_name_def audit_path_in_def AUDIT_FILE_NAME_def)

lemma jsonl_tmp_differs: "has_name p \<Longrightarrow> with_extension p ''jsonl.tmp'' \<noteq> p"
  using with_extension_differs [of p "''tmp''" "''jsonl''"] by (auto simp: has_name_def)

lemma replace_file_without_faults:
  "fs_fault fs = (\<lambda>_. None) \<Longrightarrow> fst (replace_file t p c fs) = Inr ()"
  by (simp add: replace_file_def write_file_def rename_file_def)

lemma prune_holds:
  assumes V: "value_contract V" and h: "log_holds V es p fs" and p: "has_name p"
    and f: "fs_fault fs = (\<lambda>_. None)" and e: "fs_files fs p \<noteq> None"
  shows "\<exists>fs'. prune V clock p fs = (Inr (), fs') \<and> log_holds V (audit_window clock es) p fs'
    \<and> fs_fault fs' = fs_fault fs \<and> fs_files fs' p \<noteq> None"
proof -
  let ?text = "text_of_lines (map (encode_entry V) es)"
  have j: "journal.holds (encode_entry V) (\<lambda>e. value_contract V \<and> entry_ok e) es p fs" using h log_holds_journal [OF V] by blast
  have ok: "list_all (\<lambda>e. value_contract V \<and> entry_ok e) es" using h V by (simp add: log_holds_def)
  have r: "read_to_string p fs = Inr ?text" using audit_journal.holds_read [OF j] f e by simp
  have v: "visible_lines ?text = map (encode_entry V) es" using audit_journal.visible_lines_of_entries [OF ok] .
  have es: "list_all entry_ok es" using h by (simp add: log_holds_def)
  show ?thesis
  proof (cases "must_prune V (prune_cutoff clock) (map (encode_entry V) es)")
    case False
    then show ?thesis using r v h e must_prune_encoded [OF V es False] by (simp add: prune_def Let_def)
  next
    case True
    let ?t = "text_of_lines (map (encode_entry V) (audit_window clock es))"
    obtain fs' where fs': "replace_file (with_extension p ''jsonl.tmp'') p ?t fs = (Inr (), fs')"
      using replace_file_without_faults [OF f] by (metis prod.collapse)
    from replace_file_ok [OF fs' jsonl_tmp_differs [OF p]]
    have w: "fs_files fs' p = Some (as_bytes ?t)" "fs_fault fs' = fs_fault fs" by simp_all
    then show ?thesis using True r v fs' window_ok [OF es]
      by (simp add: prune_def Let_def prune_lines_encoded [OF V es] log_holds_def file_bytes_def)
  qed
qed

lemma append_and_prune_holds:
  assumes V: "value_contract V" and h: "log_holds V es (audit_path_in d) fs"
    and f: "fs_fault fs = (\<lambda>_. None)" and u: "opt_utf8 dev" "opt_utf8 reason"
  shows "\<exists>fs'. append_and_prune V clock clock' d ev dev out reason fs = (Inr (), fs')
    \<and> log_holds V (audit_window clock' (es @ [audit_entry clock ev dev out reason])) (audit_path_in d) fs' \<and> fs_fault fs' = (\<lambda>_. None)
    \<and> fs_files fs' (audit_path_in d) \<noteq> None"
proof -
  let ?p = "audit_path_in d" and ?e = "audit_entry clock ev dev out reason"
  have ok: "value_contract V \<and> entry_ok ?e" using V u now_ms_u64 [of clock] by (simp add: audit_entry_def entry_ok_def)
  obtain fs1 where a: "append_line ?p (encode_entry V ?e) fs = (Inr (), fs1)"
    using append_line_without_faults [OF f] by (metis prod.collapse)
  have "journal.holds (encode_entry V) (\<lambda>e. value_contract V \<and> entry_ok e) es ?p fs" using h log_holds_journal [OF V] by blast
  note j = audit_journal.append_holds [OF this ok a]
  have "fs_fault fs1 = (\<lambda>_. None)" using append_line_outcome [OF a] f by simp
  moreover have "log_holds V (es @ [?e]) ?p fs1" using j log_holds_journal [OF V] by blast
  ultimately show ?thesis
    using prune_holds [OF V, of "es @ [?e]" ?p fs1 clock'] j a audit_path_has_name
    by (auto simp: append_and_prune_def Let_def tr_then_def)
qed

record audit_call =
  ac_clock :: "nat option"
  ac_later :: "nat option"
  ac_event :: audit_event
  ac_device :: "string option"
  ac_outcome :: audit_outcome
  ac_reason :: "string option"

definition run_call :: "'v value_lib \<Rightarrow> string \<Rightarrow> audit_call \<Rightarrow> fs \<Rightarrow> fs" where
  "run_call V d c = audit_record V None (ac_clock c) (ac_later c) d (ac_event c) (ac_device c) (ac_outcome c) (ac_reason c)"

definition call_entry :: "audit_call \<Rightarrow> entry" where
  "call_entry c = audit_entry (ac_clock c) (ac_event c) (ac_device c) (ac_outcome c) (ac_reason c)"

definition audit_history :: "audit_call list \<Rightarrow> entry list \<Rightarrow> entry list" where
  "audit_history = fold (\<lambda>c es. audit_window (ac_later c) (es @ [call_entry c]))"

definition call_utf8 :: "audit_call \<Rightarrow> bool" where
  "call_utf8 c \<longleftrightarrow> opt_utf8 (ac_device c) \<and> opt_utf8 (ac_reason c)"

lemma run_calls_hold:
  assumes "value_contract V" and "log_holds V es (audit_path_in d) fs" and "fs_fault fs = (\<lambda>_. None)"
    and "\<forall>c \<in> set calls. call_utf8 c"
  shows "log_holds V (audit_history calls es) (audit_path_in d) (fold (run_call V d) calls fs)
    \<and> fs_fault (fold (run_call V d) calls fs) = (\<lambda>_. None)
    \<and> (calls \<noteq> [] \<longrightarrow> fs_files (fold (run_call V d) calls fs) (audit_path_in d) \<noteq> None)"
  using assms(2-4)
proof (induction calls arbitrary: es fs)
  case Nil
  then show ?case by (simp add: audit_history_def)
next
  case (Cons c calls)
  then have u: "opt_utf8 (ac_device c)" "opt_utf8 (ac_reason c)" by (simp_all add: call_utf8_def)
  obtain fs' where fs': "run_call V d c fs = fs'"
      "log_holds V (audit_window (ac_later c) (es @ [call_entry c])) (audit_path_in d) fs'"
      "fs_fault fs' = (\<lambda>_. None)" "fs_files fs' (audit_path_in d) \<noteq> None"
    using append_and_prune_holds [OF assms(1) Cons.prems(1,2) u, of "ac_clock c" "ac_later c" "ac_event c" "ac_outcome c"]
    by (auto simp: run_call_def audit_record_def enabled_from_def call_entry_def)
  have "\<forall>c \<in> set calls. call_utf8 c" using Cons.prems(3) by simp
  from Cons.IH [OF fs'(2,3) this] show ?case using fs'(1,4) by (cases "calls = []") (auto simp: audit_history_def)
qed

lemma read_lines_encoded:
  assumes "value_contract V" and "list_all entry_ok es"
  shows "foldl (read_line V c) r (map (encode_entry V) es) =
    \<lparr>ar_entries = ar_entries r @ map (encode_entry V) (filter (\<lambda>e. c \<le> en_at e) es),
     ar_too_old = ar_too_old r + length (filter (\<lambda>e. en_at e < c) es),
     ar_unreadable = ar_unreadable r\<rparr>"
  using assms(2)
proof (induction es arbitrary: r)
  case (Cons e es)
  then have e: "parse_entry V (encode_entry V e) = Some (stored_entry e)"
    using parse_encode_entry [OF assms(1)] by (simp add: entry_ok_def)
  show ?case using Cons by (simp add: read_line_def e stored_entry_def not_less)
qed simp

text \<open>
  C35. The audit log refines a list of entries: after any sequence of recorded events, whatever their
  device ids and reasons hold, reading it returns one line per entry the retention policy keeps
  (at most the newest 10000, none older than thirty days when it was pruned), oldest first, hides
  those that have expired since, and finds no line it cannot read.
\<close>

theorem audit_log_refines_window:
  assumes "value_contract V" and "fs_fault fs = (\<lambda>_. None)" and "fs_files fs (audit_path_in d) = None"
    and "\<forall>c \<in> set calls. call_utf8 c"
  shows "read_audit V now (audit_path_in d) (fold (run_call V d) calls fs) = Inr
    \<lparr>ar_entries = map (encode_entry V) (filter (\<lambda>e. prune_cutoff now \<le> en_at e) (audit_history calls [])),
     ar_too_old = length (filter (\<lambda>e. en_at e < prune_cutoff now) (audit_history calls [])),
     ar_unreadable = []\<rparr>"
proof -
  let ?p = "audit_path_in d" and ?fs = "fold (run_call V d) calls fs" and ?es = "audit_history calls []"
  have "log_holds V [] ?p fs" using assms(3) by (simp add: log_holds_def file_bytes_def as_bytes_def)
  from run_calls_hold [OF assms(1) this assms(2,4)]
  have h: "log_holds V ?es ?p ?fs" "fs_fault ?fs = (\<lambda>_. None)" "calls \<noteq> [] \<longrightarrow> fs_files ?fs ?p \<noteq> None" by simp_all
  show ?thesis
  proof (cases "calls = []")
    case True
    then show ?thesis using assms(2,3)
      by (simp add: read_audit_def read_to_string_def audit_history_def empty_read_def)
  next
    case False
    have es: "list_all entry_ok ?es" "list_all (\<lambda>e. value_contract V \<and> entry_ok e) ?es"
      using h(1) assms(1) by (simp_all add: log_holds_def)
    have "journal.holds (encode_entry V) (\<lambda>e. value_contract V \<and> entry_ok e) ?es ?p ?fs"
      using h(1) log_holds_journal [OF assms(1)] by blast
    from audit_journal.holds_read [OF this] h(2,3) False
    have "read_to_string ?p ?fs = Inr (text_of_lines (map (encode_entry V) ?es))" by simp
    then show ?thesis
      using audit_journal.visible_lines_of_entries [OF es(2)] read_lines_encoded [OF assms(1) es(1), of "prune_cutoff now" empty_read]
      by (simp add: read_audit_def empty_read_def)
  qed
qed

definition demo_calls :: "audit_call list" where
  "demo_calls =
     [\<lparr>ac_clock = Some 1000, ac_later = Some 1001, ac_event = TunnelEstablished,
       ac_device = Some ''device'', ac_outcome = OutcomeOk, ac_reason = None\<rparr>,
      \<lparr>ac_clock = Some 3000000000, ac_later = Some 3000000001, ac_event = TunnelReleased,
       ac_device = Some ''device'', ac_outcome = OutcomeFailed, ac_reason = Some (''two'' @ [NL] @ ''lines'')\<rparr>]"

lemma demo_calls_utf8: "\<forall>c \<in> set demo_calls. call_utf8 c"
  by (simp add: demo_calls_def call_utf8_def opt_utf8_def is_utf8_ascii NL_def)

theorem audit_log_refines_window_witness:
  "ar_unreadable (projr (read_audit demo_values (Some 3000000002) (audit_path_in ''/state'')
      (fold (run_call demo_values ''/state'') demo_calls no_faults))) = [] \<and>
   length (ar_entries (projr (read_audit demo_values (Some 3000000002) (audit_path_in ''/state'')
      (fold (run_call demo_values ''/state'') demo_calls no_faults)))) = 1"
proof -
  have "filter (\<lambda>e. prune_cutoff (Some 3000000002) \<le> en_at e) (audit_history demo_calls []) = [call_entry (demo_calls ! 1)]"
    by (simp add: audit_history_def demo_calls_def audit_window_def prune_cutoff_def now_ms_def MAX_AGE_MS_def
        MAX_LINES_def call_entry_def audit_entry_def)
  then show ?thesis
    using audit_log_refines_window [OF demo_values_contract _ _ demo_calls_utf8, of no_faults "''/state''" "Some 3000000002"]
    by (simp add: no_faults_def)
qed

section \<open>Failing writes, bounds\<close>

lemma prune_outcome:
  assumes "prune V clock p fs = (r, fs')" and p: "has_name p"
  shows "(file_bytes p fs' = file_bytes p fs \<or>
      (\<exists>text. read_to_string p fs = Inr text \<and> r = Inr () \<and>
         fs_files fs' p = Some (as_bytes (text_of_lines (prune_lines V (prune_cutoff clock) (visible_lines text))))))
    \<and> (\<forall>q. q \<noteq> p \<longrightarrow> q \<noteq> with_extension p ''jsonl.tmp'' \<longrightarrow> fs_files fs' q = fs_files fs q)"
proof (cases "read_to_string p fs")
  case (Inl e)
  with assms(1) show ?thesis by (cases e) (auto simp: prune_def)
next
  case (Inr t0)
  let ?t = "text_of_lines (prune_lines V (prune_cutoff clock) (visible_lines t0))"
  note t = jsonl_tmp_differs [OF p]
  show ?thesis
  proof (cases "must_prune V (prune_cutoff clock) (visible_lines t0)")
    case False
    with assms(1) Inr show ?thesis by (simp add: prune_def Let_def)
  next
    case True
    obtain x where x: "replace_file (with_extension p ''jsonl.tmp'') p ?t fs = (x, fs')" and r: "r = map_err snd x"
      using assms(1) Inr True by (auto simp: prune_def Let_def split: prod.splits)
    show ?thesis
    proof (cases x)
      case (Inl e)
      then show ?thesis using replace_file_error [OF x [unfolded Inl] t] t by (simp add: file_bytes_def)
    next
      case (Inr u)
      then have "x = Inr ()" by simp
      with replace_file_ok [OF x [unfolded this] t] show ?thesis using \<open>read_to_string p fs = Inr t0\<close> r by simp
    qed
  qed
qed

text \<open>
  Recording never loses evidence: whichever call of the file system fails, the log afterwards is
  what it was with a part of the new line behind it, or, when everything succeeded, the whole text
  with what the retention policy drops taken out; no file but the log and its temporary changes.
\<close>

theorem recording_keeps_evidence:
  "let p = audit_path_in d; line = as_bytes (encode_entry V (audit_entry clock ev dev out reason) @ [NL]);
       fs' = snd (append_and_prune V clock clock' d ev dev out reason fs)
   in ((\<exists>k. file_bytes p fs' = file_bytes p fs @ take k line) \<or>
       (\<exists>text. is_utf8 text \<and> as_bytes text = file_bytes p fs @ line \<and>
          file_bytes p fs' = as_bytes (text_of_lines (prune_lines V (prune_cutoff clock') (visible_lines text)))))
      \<and> (\<forall>q. q \<noteq> p \<and> q \<noteq> with_extension p ''jsonl.tmp'' \<longrightarrow> fs_files fs' q = fs_files fs q)"
proof -
  let ?p = "audit_path_in d" and ?line = "encode_entry V (audit_entry clock ev dev out reason)"
  obtain r fs1 where a: "append_line ?p ?line fs = (r, fs1)" by fastforce
  note o = append_line_outcome [OF a]
  show ?thesis
  proof (cases r)
    case (Inl e)
    then have "snd (append_and_prune V clock clock' d ev dev out reason fs) = fs1"
      using a by (simp add: append_and_prune_def Let_def tr_then_def)
    then show ?thesis using o by (auto simp: Let_def)
  next
    case (Inr u)
    obtain r' fs' where q: "prune V clock' ?p fs1 = (r', fs')" by fastforce
    then have e: "snd (append_and_prune V clock clock' d ev dev out reason fs) = fs'"
      using a Inr by (simp add: append_and_prune_def Let_def tr_then_def)
    note s = prune_outcome [OF q audit_path_has_name]
    have b: "fs_files fs1 ?p = Some (file_bytes ?p fs @ as_bytes (?line @ [NL]))" using o Inr by simp
    then have l: "file_bytes ?p fs1 = file_bytes ?p fs @ take (length (?line @ [NL])) (as_bytes (?line @ [NL]))"
      by (simp add: file_bytes_def)
    from s consider "file_bytes ?p fs' = file_bytes ?p fs1"
      | t0 where "read_to_string ?p fs1 = Inr t0"
          "fs_files fs' ?p = Some (as_bytes (text_of_lines (prune_lines V (prune_cutoff clock') (visible_lines t0))))"
      by blast
    then show ?thesis
    proof cases
      case 1
      then show ?thesis using l s o unfolding Let_def e by metis
    next
      case 2
      then have "is_utf8 t0" "as_bytes t0 = file_bytes ?p fs @ as_bytes (?line @ [NL])"
        using b by (auto simp: read_to_string_Inr)
      moreover have "file_bytes ?p fs' = as_bytes (text_of_lines (prune_lines V (prune_cutoff clock') (visible_lines t0)))"
        using 2 by (simp add: file_bytes_def)
      ultimately show ?thesis using s o unfolding Let_def e by metis
    qed
  qed
qed

theorem recording_keeps_evidence_witness:
  "fs_files (snd (append_and_prune demo_values None None ''/state'' DeviceRevoked None OutcomeOk None
      (no_faults\<lparr>fs_files := [''/state/devices.json'' \<mapsto> [1, 2]]\<rparr>))) ''/state/devices.json'' = Some [1, 2]"
proof -
  have "''/state/devices.json'' \<noteq> audit_path_in ''/state''"
    "''/state/devices.json'' \<noteq> with_extension (audit_path_in ''/state'') ''jsonl.tmp''" by code_simp+
  then show ?thesis
    using recording_keeps_evidence [of "''/state''" demo_values None DeviceRevoked None OutcomeOk None None
        "no_faults\<lparr>fs_files := [''/state/devices.json'' \<mapsto> [1, 2]]\<rparr>"]
    by (auto simp: Let_def)
qed

text \<open>
  A successful recording leaves at most 10000 lines that are not blank, whatever the file held.
\<close>

theorem audit_log_is_bounded:
  assumes "append_and_prune V clock clock' d ev dev out reason fs = (Inr (), fs')"
    and "read_to_string (audit_path_in d) fs' = Inr text"
  shows "length (visible_lines text) \<le> MAX_LINES"
proof -
  let ?p = "audit_path_in d"
  note t = jsonl_tmp_differs [OF audit_path_has_name [of d]]
  obtain fs1 where a: "append_line ?p (encode_entry V (audit_entry clock ev dev out reason)) fs = (Inr (), fs1)"
    and q: "prune V clock' ?p fs1 = (Inr (), fs')"
    using assms(1) by (auto simp: append_and_prune_def Let_def tr_then_Inr_iff)
  show ?thesis
  proof (cases "read_to_string ?p fs1")
    case (Inl e)
    then have "fs' = fs1" using q by (cases e) (auto simp: prune_def)
    then show ?thesis using Inl assms(2) by simp
  next
    case (Inr u)
    let ?k = "prune_lines V (prune_cutoff clock') (visible_lines u)"
    show ?thesis
    proof (cases "must_prune V (prune_cutoff clock') (visible_lines u)")
      case False
      then have "text = u" using q Inr assms(2) by (simp add: prune_def Let_def)
      moreover have "filter (\<lambda>l. \<not> expired V (prune_cutoff clock') l) (visible_lines u) = visible_lines u"
        using False by (auto simp: must_prune_def list_ex_iff filter_id_conv)
      ultimately show ?thesis using False by (simp add: must_prune_def)
    next
      case True
      then have "fst (replace_file (with_extension ?p ''jsonl.tmp'') ?p (text_of_lines ?k) fs1) = Inr ()
          \<and> snd (replace_file (with_extension ?p ''jsonl.tmp'') ?p (text_of_lines ?k) fs1) = fs'"
        using q Inr by (auto simp: prune_def Let_def split: prod.splits)
      then have "replace_file (with_extension ?p ''jsonl.tmp'') ?p (text_of_lines ?k) fs1 = (Inr (), fs')"
        by (metis prod.collapse)
      from replace_file_ok [OF this t] have "fs_files fs' ?p = Some (as_bytes (text_of_lines ?k))" by simp
      then have x: "text = text_of_lines ?k" using assms(2) by (auto simp: read_to_string_Inr) (metis from_as_bytes)
      have "\<forall>l \<in> set ?k. NL \<notin> set l"
        by (auto simp: prune_lines_def Let_def visible_lines_def dest!: in_set_dropD split: if_splits
            dest: lines_have_no_newline)
      then have "length (visible_lines text) \<le> length ?k"
        unfolding x visible_lines_def by (metis length_filter_le length_lines_of_text)
      also have "\<dots> \<le> MAX_LINES" by (simp add: prune_lines_def Let_def)
      finally show ?thesis .
    qed
  qed
qed

theorem audit_log_is_bounded_witness:
  "\<exists>fs' t. append_and_prune demo_values (Some 5) (Some 6) ''/state'' DeviceRevoked None OutcomeOk None no_faults = (Inr (), fs')
     \<and> read_to_string (audit_path_in ''/state'') fs' = Inr t \<and> length (visible_lines t) \<le> MAX_LINES"
proof -
  let ?p = "audit_path_in ''/state''"
  have h: "log_holds demo_values [] ?p no_faults" by (simp add: log_holds_def file_bytes_def no_faults_def as_bytes_def)
  have f: "fs_fault no_faults = (\<lambda>_. None)" by (simp add: no_faults_def)
  obtain fs' where a: "append_and_prune demo_values (Some 5) (Some 6) ''/state'' DeviceRevoked None OutcomeOk None no_faults = (Inr (), fs')"
    and fs': "log_holds demo_values (audit_window (Some 6) ([] @ [audit_entry (Some 5) DeviceRevoked None OutcomeOk None])) ?p fs'"
      "fs_fault fs' = (\<lambda>_. None)" "fs_files fs' ?p \<noteq> None"
    using append_and_prune_holds [OF demo_values_contract h f, of None None "Some 5" "Some 6" DeviceRevoked OutcomeOk]
    by (auto simp: opt_utf8_def)
  obtain t where t: "read_to_string ?p fs' = Inr t"
    using audit_journal.holds_read [OF fs'(1) [unfolded log_holds_journal [OF demo_values_contract]]] fs'(2,3) by simp
  show ?thesis using audit_log_is_bounded [OF a t] a t by blast
qed

text \<open>
  What is kept of a reason is at most 200 bytes of valid UTF-8 without a control character: the
  characters of the text in order, each control character a blank, cut at the last character
  boundary that fits; keeping it again changes nothing.
\<close>

theorem audit_reason_is_clean:
  assumes "is_utf8 t"
  shows "length (audit_sanitize t) \<le> MAX_REASON_LEN \<and> is_utf8 (audit_sanitize t)
    \<and> (\<exists>k. chars (audit_sanitize t) = take k (map (\<lambda>c. if is_control c then 32 else c) (chars t)))
    \<and> (\<forall>b. is_char_boundary (blank_controls t) b \<and> b \<le> MAX_REASON_LEN \<and> b \<le> length (blank_controls t) \<longrightarrow>
         take b (audit_sanitize t) = take b (blank_controls t))
    \<and> (\<forall>c \<in> set (chars (audit_sanitize t)). \<not> is_control c)
    \<and> audit_sanitize (audit_sanitize t) = audit_sanitize t"
  using length_clean_text clean_text_utf8 [OF assms] clean_text_chars [OF assms]
    clean_text_no_control [OF assms] clean_text_idem [OF assms] cut_at_longest [of "blank_controls t"]
  unfolding audit_sanitize_eq by (auto simp: clean_text_def)

theorem audit_reason_is_clean_witness:
  "length (audit_sanitize (replicate 300 CHR ''x'')) \<le> MAX_REASON_LEN"
  by (rule audit_reason_is_clean [THEN conjunct1]) (simp add: is_utf8_ascii is_ascii_def list_all_iff)

lemma audit_clear_outcome:
  "audit_clear p fs = (Inr b, fs') \<Longrightarrow> fs_fault fs (RemoveCall p) = None \<Longrightarrow>
   fs_files fs' p = None \<and> (b \<longleftrightarrow> fs_files fs p \<noteq> None) \<or> fs' = fs \<and> \<not> b \<and> fs_files fs p = None"
  using clear_log_outcome by (fastforce simp: audit_clear_def clear_log_def remove_file_def split: if_splits)

section \<open>After a torn write\<close>

text \<open>
  A write that stopped inside a line leaves it without its line feed, and the next event, recorded
  without any failure, is written behind it: the two are one line that is not an entry.
\<close>

lemma event_after_torn_line_is_unreadable:
  assumes "value_contract V" and "list_all entry_ok es" and "entry_ok e" and "NL \<notin> set torn"
    and "parse_entry V (torn @ encode_entry V e) = None"
  shows "prune_cutoff now = 0 \<Longrightarrow>
    foldl (read_line V (prune_cutoff now)) empty_read
      (lines (text_of_lines (map (encode_entry V) es) @ torn @ text_of_lines [encode_entry V e]))
    = \<lparr>ar_entries = map (encode_entry V) es, ar_too_old = 0, ar_unreadable = [torn @ encode_entry V e]\<rparr>"
proof -
  assume now: "prune_cutoff now = 0"
  have "list_all (\<lambda>e. value_contract V \<and> entry_ok e) es" "value_contract V \<and> entry_ok e"
    using assms by (auto simp: list_all_iff)
  from audit_journal.entry_after_torn_line [OF this assms(4)]
  have l: "lines (text_of_lines (map (encode_entry V) es) @ torn @ text_of_lines [encode_entry V e])
    = map (encode_entry V) es @ [torn @ encode_entry V e]" .
  have "filter (\<lambda>e. 0 \<le> en_at e) es = es" by simp
  then show ?thesis
    unfolding l foldl_append read_lines_encoded [OF assms(1,2)] now
    by (simp add: read_line_def assms(5) empty_read_def)
qed

lemma torn_line_is_no_entry:
  "parse_entry demo_values (''{'' @ encode_entry demo_values (audit_entry (Some 7) DeviceRevoked None OutcomeOk None)) = None"
proof -
  have "scan_members n (CHR ''{'' # s) = None" for n s by (cases n) (simp_all add: QUOTE_def)
  then show ?thesis
    by (simp add: parse_entry_def demo_values_def encode_entry_def [of "\<lparr>vl_parse = _, vl_get = _, vl_str = _, vl_u64 = _, vl_quote = _\<rparr>"])
qed

text \<open>
  A file that is not valid UTF-8, as a write torn inside a character leaves it, is never read and
  never pruned again: every event is still appended, so the file grows without a bound.
\<close>

lemma torn_character_ends_retention:
  assumes "fs_fault fs = (\<lambda>_. None)"
    and "\<not> is_utf8 (from_bytes (file_bytes (audit_path_in d) fs @ as_bytes (encode_entry V (audit_entry clock ev dev out reason) @ [NL])))"
  shows "\<exists>fs'. append_and_prune V clock clock' d ev dev out reason fs = (Inl InvalidData, fs')
    \<and> length (file_bytes (audit_path_in d) fs') > length (file_bytes (audit_path_in d) fs)
    \<and> read_audit V now (audit_path_in d) fs' = Inl InvalidData"
proof -
  let ?p = "audit_path_in d" and ?line = "encode_entry V (audit_entry clock ev dev out reason)"
  obtain fs' where a: "append_line ?p ?line fs = (Inr (), fs')"
    using append_line_without_faults [OF assms(1)] by (metis prod.collapse)
  then have f: "fs_files fs' ?p = Some (file_bytes ?p fs @ as_bytes (?line @ [NL]))" "fs_fault fs' = (\<lambda>_. None)"
    using append_line_outcome [OF a] assms(1) by simp_all
  then have "read_to_string ?p fs' = Inl InvalidData" using assms(2) by (simp add: read_to_string_def)
  then show ?thesis using a f
    by (simp add: append_and_prune_def Let_def tr_then_def prune_def read_audit_def file_bytes_def)
qed

end
