(* ===== verification/Crashlog.thy ===== *)
theory Crashlog
  imports Line_Log Machine
begin

text \<open>
  The crash reports of \<open>crashlog.rs\<close> and the report type of \<open>proto/control.rs\<close>: cleaning and bounding
  a report, storing it as one more line of the file, counting, listing and deleting. The derived
  JSON conversions of a report and the texts of the errors of the system are arguments.
\<close>

section \<open>Reports\<close>

record crash_report =
  cr_client :: string
  cr_phase :: string
  cr_reached_ready :: bool
  cr_errors :: u32
  cr_rejections :: u32
  cr_samples :: "string list"
  cr_user_agent :: string
  cr_at_ms :: u64

definition MAX_SAMPLES :: nat where "MAX_SAMPLES = 20"
definition MAX_SAMPLE_LEN :: nat where "MAX_SAMPLE_LEN = 200"
definition MAX_REPORT_LEN :: nat where "MAX_REPORT_LEN = 8 * 1024"

definition CRASH_FILE_NAME :: string where "CRASH_FILE_NAME = ''crash-reports.jsonl''"
definition MAX_REPORTS :: nat where "MAX_REPORTS = 20"
definition MAX_TEXT_LEN :: nat where "MAX_TEXT_LEN = 200"

definition crash_path_in :: "string \<Rightarrow> string" where
  "crash_path_in directory = path_join directory CRASH_FILE_NAME"

datatype crash_refused = TooLarge string | Full | Storage string

fun refused_reason :: "crash_refused \<Rightarrow> string" where
  "refused_reason (TooLarge what) = ''the daemon will not store '' @ what"
| "refused_reason Full =
     ''the daemon already holds '' @ decimal MAX_REPORTS
     @ '' crash reports; run `drdshd crashes --clear` on that machine to make room''"
| "refused_reason (Storage detail) = ''the daemon could not write the report: '' @ detail"

definition crash_truncate :: "string \<Rightarrow> nat \<Rightarrow> string" where
  "crash_truncate t limit = (if length t \<le> limit then t else take (boundary_below t limit) t)"

definition crash_sanitize :: "string \<Rightarrow> string" where
  "crash_sanitize t = crash_truncate (blank_controls t) MAX_TEXT_LEN"

lemma crash_sanitize_eq: "crash_sanitize t = clean_text MAX_TEXT_LEN t"
  by (simp add: crash_sanitize_def crash_truncate_def clean_text_def cut_at_def)

section \<open>Validation\<close>

text \<open>The loop over the samples stops at the first one that is too long.\<close>

fun clean_samples :: "string list \<Rightarrow> crash_refused + string list" where
  "clean_samples [] = Inr []"
| "clean_samples (s # ss) =
     (if MAX_SAMPLE_LEN < length s
      then Inl (TooLarge (''a failure sample of '' @ decimal (length s) @ '' bytes (the limit is ''
                 @ decimal MAX_SAMPLE_LEN @ '')''))
      else and_then (clean_samples ss) (\<lambda>rest. Inr (crash_sanitize s # rest)))"

definition validate_report :: "crash_report json \<Rightarrow> crash_report \<Rightarrow> crash_refused + crash_report" where
  "validate_report js report =
     (if MAX_SAMPLES < length (cr_samples report)
      then Inl (TooLarge (''a report with '' @ decimal (length (cr_samples report))
                 @ '' failure samples (the limit is '' @ decimal MAX_SAMPLES @ '')''))
      else and_then (clean_samples (cr_samples report)) (\<lambda>samples.
        let report = report\<lparr>cr_client := crash_sanitize (cr_client report),
                            cr_phase := crash_sanitize (cr_phase report),
                            cr_user_agent := crash_sanitize (cr_user_agent report),
                            cr_samples := samples\<rparr>
        in and_then (map_err Storage (to_json js report)) (\<lambda>encoded.
          if MAX_REPORT_LEN < length encoded
          then Inl (TooLarge (''a report of '' @ decimal (length encoded) @ '' bytes (the limit is ''
                     @ decimal MAX_REPORT_LEN @ '')''))
          else Inr report)))"

section \<open>The file\<close>

definition complete_line :: "string \<Rightarrow> bool" where
  "complete_line piece \<longleftrightarrow> piece \<noteq> [] \<and> last piece = NL \<and> trim piece \<noteq> []"

definition count_text :: "string \<Rightarrow> nat" where
  "count_text t = length (filter complete_line (split_inclusive t))"

definition crash_count :: "string \<Rightarrow> fs \<Rightarrow> io_error + nat" where
  "crash_count p fs =
     (case read_to_string p fs of
        Inr t \<Rightarrow> Inr (count_text t) | Inl NotFound \<Rightarrow> Inr 0 | Inl e \<Rightarrow> Inl e)"

definition crash_store ::
    "crash_report json \<Rightarrow> (io_error \<Rightarrow> string) \<Rightarrow> string \<Rightarrow> crash_report \<Rightarrow> fs
      \<Rightarrow> (crash_refused + nat) \<times> fs" where
  "crash_store js disp directory report =
     tr_then (tr_give (validate_report js report)) (\<lambda>report fs.
       let p = crash_path_in directory in
       (case crash_count p fs of
          Inl e \<Rightarrow> (Inl (Storage (disp e)), fs)
        | Inr existing \<Rightarrow>
            if MAX_REPORTS \<le> existing then (Inl Full, fs)
            else (case to_json js report of
                    Inl e \<Rightarrow> (Inl (Storage e), fs)
                  | Inr line \<Rightarrow>
                      (case append_line p line fs of
                         (Inl e, fs') \<Rightarrow> (Inl (Storage (disp e)), fs')
                       | (Inr _, fs') \<Rightarrow> (Inr (existing + 1), fs')))))"

definition crash_list :: "string \<Rightarrow> fs \<Rightarrow> io_error + string list" where
  "crash_list p fs =
     (case read_to_string p fs of
        Inr t \<Rightarrow> Inr (visible_lines t) | Inl NotFound \<Rightarrow> Inr [] | Inl e \<Rightarrow> Inl e)"

definition crash_clear :: "string \<Rightarrow> fs \<Rightarrow> (io_error + bool) \<times> fs" where
  "crash_clear = clear_log"

section \<open>A stored report is one line\<close>

text \<open>What the derived conversions promise beyond reading back: a text is one line, not a blank one.\<close>

definition json_line_contract :: "'a json \<Rightarrow> bool" where
  "json_line_contract js \<longleftrightarrow>
     json_contract js \<and> (\<forall>x t. to_json js x = Inr t \<longrightarrow> whole_line t \<and> trim t \<noteq> [])"

definition json_line :: "'a json \<Rightarrow> 'a \<Rightarrow> string" where
  "json_line js x = (case to_json js x of Inl _ \<Rightarrow> [] | Inr t \<Rightarrow> t)"

definition writes_line :: "'a json \<Rightarrow> 'a \<Rightarrow> bool" where
  "writes_line js x \<longleftrightarrow> json_line_contract js \<and> to_json js x = Inr (json_line js x)"

interpretation crash_journal: journal "json_line js" "writes_line js"
  for js :: "'a json"
  by unfold_locales (auto simp: writes_line_def json_line_contract_def dest: json_contractD)

lemma demo_text_one_line:
  assumes "bs \<noteq> []"
  shows "whole_line (demo_text bs) \<and> trim (demo_text bs) \<noteq> []"
proof -
  have c: "set (demo_text bs) \<subseteq> {CHR ''a'', CHR ''b'', CHR ''c''}"
    by (auto simp: demo_text_def field_text_def)
  then have p: "printable (demo_text bs)" by (auto simp: printable_def list_all_iff)
  have "CHR ''c'' \<in> set (demo_text bs)" using assms by (cases bs) (auto simp: demo_text_def field_text_def)
  then obtain x s where d: "demo_text bs = x # s" by (cases "demo_text bs") auto
  with c have "x \<in> {CHR ''a'', CHR ''b'', CHR ''c''}" by simp
  then show ?thesis
    using printable_whole_line [OF p] visible_first [of x s] is_utf8_ascii [OF demo_text_ascii [of bs]] d
    by (auto simp: is_whitespace_def)
qed

lemma field_json_line_contract:
  assumes "\<And>x. unparts (parts x) = Some x" and "\<And>x. parts x \<noteq> []"
  shows "json_line_contract (field_json parts unparts)"
  using field_json_contract [of unparts parts, OF assms(1)] demo_text_one_line assms(2)
  by (auto simp: json_line_contract_def field_json_def)

section \<open>The log refines a list of reports\<close>

definition crash_holds :: "crash_report json \<Rightarrow> crash_report list \<Rightarrow> string \<Rightarrow> fs \<Rightarrow> bool" where
  "crash_holds js rs p fs \<longleftrightarrow>
     list_all (writes_line js) rs \<and> file_bytes p fs = as_bytes (text_of_lines (map (json_line js) rs))"

lemma crash_holds_journal: "crash_holds js rs p fs \<longleftrightarrow> journal.holds (json_line js) (writes_line js) rs p fs"
  unfolding crash_holds_def crash_journal.holds_def ..

lemma trim_not_blank: "trim l \<noteq> [] \<Longrightarrow> \<exists>c \<in> set (chars l). \<not> is_whitespace c"
proof (rule ccontr)
  assume t: "trim l \<noteq> []" and n: "\<not> (\<exists>c \<in> set (chars l). \<not> is_whitespace c)"
  then have "dropWhile is_whitespace (chars l) = []" by (auto simp: dropWhile_eq_Nil_conv)
  with t show False by (simp add: trim_def of_chars_def)
qed

lemma chars_append: "is_utf8 s \<Longrightarrow> is_utf8 t \<Longrightarrow> chars (s @ t) = chars s @ chars t"
proof -
  assume "is_utf8 s" "is_utf8 t"
  then obtain cs ds where c: "list_all is_scalar cs" "s = of_chars cs" "list_all is_scalar ds" "t = of_chars ds"
    by (auto simp: is_utf8_iff)
  then have "list_all is_scalar (cs @ ds)" "s @ t = of_chars (cs @ ds)" by (simp_all add: of_chars_def)
  then show ?thesis using c by (metis chars_of_chars)
qed

lemma complete_line_of: "is_utf8 l \<Longrightarrow> trim l \<noteq> [] \<Longrightarrow> complete_line (l @ [NL])"
proof -
  assume u: "is_utf8 l" and t: "trim l \<noteq> []"
  have "is_utf8 [NL]" by (simp add: is_utf8_ascii NL_def)
  then have "set (chars l) \<subseteq> set (chars (l @ [NL]))" using chars_append [OF u] by simp
  with trim_not_blank [OF t] show ?thesis using trim_visible by (auto simp: complete_line_def)
qed

lemma count_text_of_reports:
  assumes "list_all (writes_line js) rs"
  shows "count_text (text_of_lines (map (json_line js) rs)) = length rs"
proof -
  have "NL \<notin> set (json_line js r)" if "r \<in> set rs" for r
    using that assms crash_journal.one_line [of js r] whole_line_NL by (auto simp: list_all_iff)
  then have "split_inclusive (text_of_lines (map (json_line js) rs)) = map (\<lambda>r. json_line js r @ [NL]) rs"
    using split_inclusive_text [of "map (json_line js) rs" "[]"] by simp
  moreover have "complete_line (json_line js r @ [NL])" if "r \<in> set rs" for r
    using that assms crash_journal.utf8_line [of js r] crash_journal.visible [of js r] complete_line_of
    by (auto simp: list_all_iff)
  then have "filter complete_line (map (\<lambda>r. json_line js r @ [NL]) rs) = map (\<lambda>r. json_line js r @ [NL]) rs"
    by (auto simp: filter_id_conv)
  ultimately show ?thesis by (simp add: count_text_def)
qed

lemma crash_read:
  assumes "crash_holds js rs p fs" and "fs_fault fs = (\<lambda>_. None)"
  shows "crash_count p fs = Inr (length rs)" and "crash_list p fs = Inr (map (json_line js) rs)"
proof -
  have j: "journal.holds (json_line js) (writes_line js) rs p fs" using assms(1) crash_holds_journal by blast
  have ok: "list_all (writes_line js) rs" using assms(1) by (simp add: crash_holds_def)
  have "crash_count p fs = Inr (length rs) \<and> crash_list p fs = Inr (map (json_line js) rs)"
  proof (cases "fs_files fs p")
    case None
    with assms have "as_bytes (text_of_lines (map (json_line js) rs)) = []" by (simp add: crash_holds_def file_bytes_def)
    then have "rs = []" by (cases rs) (simp_all add: as_bytes_def)
    with None assms(2) show ?thesis by (simp add: crash_count_def crash_list_def read_to_string_def)
  next
    case (Some bs)
    then have "read_to_string p fs = Inr (text_of_lines (map (json_line js) rs))"
      using crash_journal.holds_read [OF j] assms(2) by simp
    then show ?thesis using count_text_of_reports [OF ok] crash_journal.visible_lines_of_entries [OF ok]
      by (simp add: crash_count_def crash_list_def)
  qed
  then show "crash_count p fs = Inr (length rs)" and "crash_list p fs = Inr (map (json_line js) rs)" by simp_all
qed

lemma validate_writes: "validate_report js r = Inr r' \<Longrightarrow> \<exists>t. to_json js r' = Inr t \<and> length t \<le> MAX_REPORT_LEN"
  by (auto simp: validate_report_def Let_def and_then_Inr_iff split: if_splits)

lemma crash_store_step:
  assumes "json_line_contract js" and h: "crash_holds js rs (crash_path_in d) fs" and f: "fs_fault fs = (\<lambda>_. None)"
    and v: "validate_report js r = Inr r'"
  shows "if MAX_REPORTS \<le> length rs then crash_store js disp d r fs = (Inl Full, fs)
    else \<exists>fs'. crash_store js disp d r fs = (Inr (length rs + 1), fs')
      \<and> crash_holds js (rs @ [r']) (crash_path_in d) fs' \<and> fs_fault fs' = (\<lambda>_. None)"
proof (cases "MAX_REPORTS \<le> length rs")
  case True
  then show ?thesis using crash_read(1) [OF h f] v
    by (simp add: crash_store_def tr_then_def tr_give_def Let_def)
next
  case False
  let ?p = "crash_path_in d"
  obtain t where t: "to_json js r' = Inr t" using validate_writes [OF v] by blast
  then have w: "writes_line js r'" "json_line js r' = t" using assms(1) by (simp_all add: writes_line_def json_line_def)
  obtain fs' where a: "append_line ?p t fs = (Inr (), fs')"
    using append_line_without_faults [OF f] by (metis prod.collapse)
  have "journal.holds (json_line js) (writes_line js) rs ?p fs" using h crash_holds_journal by blast
  from crash_journal.append_holds [OF this w(1)] a w(2)
  have "crash_holds js (rs @ [r']) ?p fs'" using crash_holds_journal by blast
  moreover have "fs_fault fs' = (\<lambda>_. None)" using append_line_outcome [OF a] f by simp
  ultimately show ?thesis using False crash_read(1) [OF h f] v t a
    by (simp add: crash_store_def tr_then_def tr_give_def Let_def)
qed

definition valid_reports :: "crash_report json \<Rightarrow> crash_report list \<Rightarrow> crash_report list" where
  "valid_reports js =
     List.map_filter (\<lambda>r. case validate_report js r of Inl _ \<Rightarrow> None | Inr r' \<Rightarrow> Some r')"

definition store_all :: "crash_report json \<Rightarrow> (io_error \<Rightarrow> string) \<Rightarrow> string \<Rightarrow> crash_report list \<Rightarrow> fs \<Rightarrow> fs" where
  "store_all js disp d = fold (\<lambda>r fs. snd (crash_store js disp d r fs))"

lemma stores_hold:
  assumes "json_line_contract js" and "crash_holds js acc (crash_path_in d) fs" and "fs_fault fs = (\<lambda>_. None)"
    and "length acc \<le> MAX_REPORTS"
  shows "crash_holds js (take MAX_REPORTS (acc @ valid_reports js rs)) (crash_path_in d) (store_all js disp d rs fs)
    \<and> fs_fault (store_all js disp d rs fs) = (\<lambda>_. None)"
  using assms(2-4)
proof (induction rs arbitrary: acc fs)
  case Nil
  then show ?case by (simp add: store_all_def valid_reports_def)
next
  case (Cons r rs)
  show ?case
  proof (cases "validate_report js r")
    case (Inl e)
    then have "snd (crash_store js disp d r fs) = fs" "valid_reports js (r # rs) = valid_reports js rs"
      by (simp_all add: crash_store_def tr_then_def tr_give_def valid_reports_def List.map_filter_simps)
    with Cons show ?thesis by (simp add: store_all_def)
  next
    case (Inr r')
    have v: "valid_reports js (r # rs) = r' # valid_reports js rs"
      using Inr by (simp add: valid_reports_def List.map_filter_simps)
    note s = crash_store_step [OF assms(1) Cons.prems(1,2) Inr, of disp]
    show ?thesis
    proof (cases "MAX_REPORTS \<le> length acc")
      case True
      then have "snd (crash_store js disp d r fs) = fs" using s by simp
      moreover have "take MAX_REPORTS (acc @ xs) = acc" for xs using True Cons.prems(3) by simp
      ultimately show ?thesis using Cons.IH [OF Cons.prems] by (simp add: store_all_def)
    next
      case False
      then obtain fs' where fs': "snd (crash_store js disp d r fs) = fs'"
          "crash_holds js (acc @ [r']) (crash_path_in d) fs'" "fs_fault fs' = (\<lambda>_. None)"
        using s by auto
      have "length (acc @ [r']) \<le> MAX_REPORTS" using False by simp
      from Cons.IH [OF fs'(2,3) this] show ?thesis using fs'(1) v by (simp add: store_all_def)
    qed
  qed
qed

text \<open>
  The crash log refines a list of reports: after any sequence of reports it holds the first twenty
  of those that pass validation, cleaned, one line each, in order; later ones are refused and none
  is ever evicted, and each stored line reads back as its report.
\<close>

theorem crash_log_keeps_first_reports:
  assumes "json_line_contract js" and "fs_fault fs = (\<lambda>_. None)" and "fs_files fs (crash_path_in d) = None"
  shows "\<exists>ls. crash_list (crash_path_in d) (store_all js disp d rs fs) = Inr ls
    \<and> map (from_json js) ls = map Inr (take MAX_REPORTS (valid_reports js rs))"
proof -
  let ?rs = "take MAX_REPORTS (valid_reports js rs)"
  have "crash_holds js [] (crash_path_in d) fs" using assms(3) by (simp add: crash_holds_def file_bytes_def as_bytes_def)
  from stores_hold [OF assms(1) this assms(2), of rs disp]
  have h: "crash_holds js ?rs (crash_path_in d) (store_all js disp d rs fs)"
    and f: "fs_fault (store_all js disp d rs fs) = (\<lambda>_. None)" by simp_all
  have "from_json js (json_line js r) = Inr r" if "r \<in> set ?rs" for r
    using h that json_contractD [of js r] by (auto simp: crash_holds_def list_all_iff writes_line_def json_line_contract_def)
  then show ?thesis using crash_read(2) [OF h f] by (auto simp: map_eq_conv [symmetric])
qed

definition demo_report :: "nat \<Rightarrow> crash_report" where
  "demo_report n =
     \<lparr>cr_client = ''pwa'', cr_phase = ''connecting'', cr_reached_ready = False, cr_errors = 1,
      cr_rejections = 0, cr_samples = replicate n ''boom'', cr_user_agent = ''ua'', cr_at_ms = 7\<rparr>"

definition demo_crash_json :: "crash_report json" where
  "demo_crash_json = field_json
     (\<lambda>r. [as_bytes (cr_client r), as_bytes (cr_phase r), [if cr_reached_ready r then 1 else 0],
           put_u32 (cr_errors r), put_u32 (cr_rejections r), as_bytes (cr_user_agent r), put_u64 (cr_at_ms r)]
          @ map as_bytes (cr_samples r))
     (\<lambda>fs. case fs of
        c # p # b # e # j # u # a # ss \<Rightarrow>
          Some \<lparr>cr_client = from_bytes c, cr_phase = from_bytes p, cr_reached_ready = (b = [1]),
                cr_errors = get_u32 e, cr_rejections = get_u32 j, cr_samples = map from_bytes ss,
                cr_user_agent = from_bytes u, cr_at_ms = get_u64 a\<rparr>
      | _ \<Rightarrow> None)"

lemma demo_crash_json_contract: "json_line_contract demo_crash_json"
  unfolding demo_crash_json_def by (rule field_json_line_contract) (auto simp: comp_def)

lemma demo_report_valid: "validate_report demo_crash_json (demo_report 1) = Inr (demo_report 1)"
proof -
  have c: "crash_sanitize t = t" if "is_ascii t" "printable t" "length t \<le> MAX_TEXT_LEN" "\<forall>c \<in> set t. (of_char c :: nat) < 127" for t
    unfolding crash_sanitize_eq
    using that by (intro clean_text_id) (auto simp: is_utf8_ascii chars_ascii list_all_iff printable_def is_control_def)
  have s: "crash_sanitize ''pwa'' = ''pwa''" "crash_sanitize ''connecting'' = ''connecting''"
    "crash_sanitize ''ua'' = ''ua''" "crash_sanitize ''boom'' = ''boom''"
    by (rule c; simp add: MAX_TEXT_LEN_def)+
  obtain t where t: "to_json demo_crash_json (demo_report 1) = Inr t" "length t \<le> MAX_REPORT_LEN"
  proof -
    have "length (projr (to_json demo_crash_json (demo_report 1))) \<le> MAX_REPORT_LEN" by code_simp
    then show ?thesis using that by (simp add: demo_crash_json_def field_json_def)
  qed
  then have "to_json demo_crash_json (demo_report 1\<lparr>cr_samples := [''boom'']\<rparr>) = Inr t" by (simp add: demo_report_def)
  then show ?thesis using t(2)
    by (simp add: validate_report_def demo_report_def s MAX_SAMPLES_def MAX_SAMPLE_LEN_def Let_def)
qed

theorem crash_log_keeps_first_reports_witness:
  "\<exists>ls. crash_list (crash_path_in ''/state'')
      (store_all demo_crash_json (\<lambda>_. ''error'') ''/state'' [demo_report 21, demo_report 1] no_faults) = Inr ls
    \<and> map (from_json demo_crash_json) ls = [Inr (demo_report 1)]"
proof -
  have "valid_reports demo_crash_json [demo_report 21, demo_report 1] = [demo_report 1]"
  proof -
    have "\<exists>e. validate_report demo_crash_json (demo_report 21) = Inl e"
      by (simp add: validate_report_def demo_report_def MAX_SAMPLES_def)
    then show ?thesis using demo_report_valid by (auto simp: valid_reports_def List.map_filter_simps)
  qed
  then have "take MAX_REPORTS (valid_reports demo_crash_json [demo_report 21, demo_report 1]) = [demo_report 1]"
    by (simp only: MAX_REPORTS_def) simp
  then show ?thesis
    using crash_log_keeps_first_reports [OF demo_crash_json_contract, of no_faults "''/state''" "\<lambda>_. ''error''" "[demo_report 21, demo_report 1]"]
    by (simp add: no_faults_def)
qed

section \<open>Bounds\<close>

lemma clean_samples_bounds:
  "clean_samples ss = Inr ts \<Longrightarrow> length ts = length ss \<and> (\<forall>t \<in> set ts. length t \<le> MAX_TEXT_LEN)
    \<and> (\<forall>s \<in> set ss. length s \<le> MAX_SAMPLE_LEN)"
  by (induction ss arbitrary: ts)
    (auto simp: and_then_Inr_iff crash_sanitize_eq length_clean_text split: if_splits)

text \<open>
  A report that passes validation has at most twenty samples, no text of more than 200 bytes, and an
  encoded form of at most 8192 bytes; a report with more samples or a longer sample is refused, not cut.
\<close>

theorem validated_report_is_bounded:
  "validate_report js r = Inr r' \<Longrightarrow>
   length (cr_samples r') \<le> MAX_SAMPLES \<and> length (cr_samples r') = length (cr_samples r)
   \<and> (\<forall>s \<in> set (cr_samples r). length s \<le> MAX_SAMPLE_LEN)
   \<and> (\<forall>t \<in> {cr_client r', cr_phase r', cr_user_agent r'} \<union> set (cr_samples r'). length t \<le> MAX_TEXT_LEN)
   \<and> (\<exists>t. to_json js r' = Inr t \<and> length t \<le> MAX_REPORT_LEN)"
  by (auto simp: validate_report_def Let_def and_then_Inr_iff crash_sanitize_eq length_clean_text
      dest: clean_samples_bounds split: if_splits)

theorem validated_report_is_bounded_witness: "length (cr_samples (demo_report 1)) \<le> MAX_SAMPLES"
  using validated_report_is_bounded [OF demo_report_valid] by blast

section \<open>The number of reports under any failures\<close>

text \<open>
  The file under stores of any report, deletions, and any failures of the file system, which may
  start, change and end between two calls; a read that answers \<open>NotFound\<close> means the file is not there.
\<close>

inductive crash_step :: "crash_report json \<Rightarrow> (io_error \<Rightarrow> string) \<Rightarrow> string \<Rightarrow> fs \<Rightarrow> fs \<Rightarrow> bool"
  for js :: "crash_report json" and disp :: "io_error \<Rightarrow> string" and d :: string where
  step_store: "crash_store js disp d r fs = (x, fs') \<Longrightarrow> crash_step js disp d fs fs'"
| step_clear: "crash_clear (crash_path_in d) fs = (y, fs') \<Longrightarrow> crash_step js disp d fs fs'"
| step_faults: "f (ReadCall (crash_path_in d)) \<noteq> Some NotFound \<Longrightarrow> crash_step js disp d fs (fs\<lparr>fs_fault := f, fs_torn := n\<rparr>)"

definition crash_init :: "crash_report json \<Rightarrow> string \<Rightarrow> fs \<Rightarrow> bool" where
  "crash_init js d fs \<longleftrightarrow> json_line_contract js \<and> fs_files fs (crash_path_in d) = None
     \<and> fs_fault fs (ReadCall (crash_path_in d)) \<noteq> Some NotFound"

definition crash_inv :: "crash_report json \<Rightarrow> string \<Rightarrow> fs \<Rightarrow> bool" where
  "crash_inv js d fs \<longleftrightarrow> json_line_contract js \<and> fs_fault fs (ReadCall (crash_path_in d)) \<noteq> Some NotFound \<and>
     (\<forall>t. is_utf8 t \<and> file_bytes (crash_path_in d) fs = as_bytes t \<longrightarrow> count_text t \<le> MAX_REPORTS)"

text \<open>A part of one line behind any text completes at most one line.\<close>

lemma count_text_part:
  assumes "NL \<notin> set l"
  shows "count_text (s @ take k (l @ [NL])) \<le> count_text s + 1"
proof -
  obtain c u where s: "s = c @ u" and u: "NL \<notin> set u"
    and sp: "\<And>t. split_inclusive (c @ t) = split_inclusive c @ split_inclusive t"
    by (rule split_open_end [of s]) blast
  have one: "length (split_inclusive (u @ take k (l @ [NL]))) \<le> 1"
  proof (cases "k \<le> length l")
    case True
    then have "take k (l @ [NL]) = take k l" by simp
    moreover have "NL \<notin> set (u @ take k l)" using u assms by (auto dest: in_set_takeD)
    then have "length (split_inclusive (u @ take k l)) \<le> 1" by (rule split_inclusive_open_length)
    ultimately show ?thesis by simp
  next
    case False
    then have "take k (l @ [NL]) = l @ [NL]" by simp
    moreover have "split_inclusive ((u @ l) @ NL # []) = [(u @ l) @ [NL]]"
      using split_inclusive_line [of "u @ l" "[]"] u assms by simp
    ultimately show ?thesis by simp
  qed
  have "count_text (s @ take k (l @ [NL]))
      = length (filter complete_line (split_inclusive c)) + length (filter complete_line (split_inclusive (u @ take k (l @ [NL]))))"
    using sp [of "u @ take k (l @ [NL])"] s by (simp add: count_text_def)
  also have "\<dots> \<le> length (filter complete_line (split_inclusive c)) + 1"
    using one length_filter_le le_trans by (metis add_le_cancel_left)
  also have "\<dots> \<le> count_text s + 1" using sp [of u] s by (simp add: count_text_def)
  finally show ?thesis .
qed

lemma crash_store_file:
  assumes c: "json_line_contract js" and "crash_store js disp d r fs = (x, fs')"
    and f: "fs_fault fs (ReadCall (crash_path_in d)) \<noteq> Some NotFound"
  shows "fs' = fs \<or>
    (\<exists>t l k. file_bytes (crash_path_in d) fs = as_bytes t \<and> count_text t < MAX_REPORTS \<and> NL \<notin> set l
      \<and> file_bytes (crash_path_in d) fs' = as_bytes (t @ take k (l @ [NL])) \<and> fs_fault fs' = fs_fault fs)"
proof -
  let ?p = "crash_path_in d"
  consider "fs' = fs" | r' n l where "crash_count ?p fs = Inr n" "n < MAX_REPORTS" "to_json js r' = Inr l"
      "fs' = snd (append_line ?p l fs)"
    using assms(2)
    by (fastforce simp: crash_store_def tr_then_def tr_give_def Let_def split: sum.splits prod.splits if_splits)
  then show ?thesis
  proof cases
    case 1
    then show ?thesis by simp
  next
    case 2
    have l: "NL \<notin> set l" using c 2(3) whole_line_NL by (auto simp: json_line_contract_def)
    obtain k where k: "file_bytes ?p fs' = file_bytes ?p fs @ take k (as_bytes (l @ [NL]))" "fs_fault fs' = fs_fault fs"
      using append_line_outcome [of ?p l fs] 2(4) by (metis prod.collapse)
    have t: "take k (as_bytes (l @ [NL])) = as_bytes (take k (l @ [NL]))" by (simp only: as_bytes_def take_map)
    have "\<exists>t0. file_bytes ?p fs = as_bytes t0 \<and> count_text t0 = n"
    proof (cases "read_to_string ?p fs")
      case (Inl e)
      then have "fs_files fs ?p = None" "n = 0"
        using 2(1) f by (auto simp: crash_count_def read_to_string_def split: option.splits io_error.splits if_splits)
      then show ?thesis by (intro exI [of _ "[]"]) (simp add: file_bytes_def count_text_def as_bytes_def)
    next
      case (Inr t0)
      then have "count_text t0 = n" using 2(1) by (simp add: crash_count_def)
      moreover have "file_bytes ?p fs = as_bytes t0" using Inr by (simp add: read_to_string_Inr file_bytes_def)
      ultimately show ?thesis by blast
    qed
    then show ?thesis using 2(2) l k t by (metis as_bytes_append)
  qed
qed

lemma crash_step_inv:
  assumes "crash_inv js d fs" and "crash_step js disp d fs fs'"
  shows "crash_inv js d fs'"
  using assms(2,1)
proof cases
  case (step_store r x)
  from assms(1) have c: "json_line_contract js" and f: "fs_fault fs (ReadCall (crash_path_in d)) \<noteq> Some NotFound"
    by (simp_all add: crash_inv_def)
  from crash_store_file [OF c step_store f] show ?thesis
  proof
    assume "\<exists>t l k. file_bytes (crash_path_in d) fs = as_bytes t \<and> count_text t < MAX_REPORTS \<and> NL \<notin> set l
      \<and> file_bytes (crash_path_in d) fs' = as_bytes (t @ take k (l @ [NL])) \<and> fs_fault fs' = fs_fault fs"
    then obtain t l k where t: "count_text t < MAX_REPORTS" "NL \<notin> set l"
      "file_bytes (crash_path_in d) fs' = as_bytes (t @ take k (l @ [NL]))" "fs_fault fs' = fs_fault fs" by blast
    have "u = t @ take k (l @ [NL])" if "file_bytes (crash_path_in d) fs' = as_bytes u" for u
      using that t(3) by (metis from_as_bytes)
    then show ?thesis using count_text_part [OF t(2), of t k] t(1,4) c f by (auto simp: crash_inv_def)
  qed (use assms(1) in simp)
next
  case (step_clear y)
  have e: "u = []" if "as_bytes u = []" for u using that by (simp add: as_bytes_def)
  from step_clear have "fs' = fs \<or> file_bytes (crash_path_in d) fs' = [] \<and> fs_fault fs' = fs_fault fs"
    by (auto simp: crash_clear_def clear_log_def remove_file_def file_bytes_def split: option.splits io_error.splits if_splits)
  then show ?thesis using assms(1) by (auto simp: crash_inv_def count_text_def dest!: e simp: eq_commute [of "[]"])
next
  case (step_faults f n)
  then show ?thesis using assms(1) by (simp add: crash_inv_def file_bytes_def)
qed

interpretation crash_machine: machine "crash_init js d" "crash_step js disp d" "crash_inv js d"
  for js :: "crash_report json" and disp :: "io_error \<Rightarrow> string" and d :: string
proof
  show "crash_inv js d fs" if "crash_init js d fs" for fs
    using that by (auto simp: crash_init_def crash_inv_def file_bytes_def as_bytes_def count_text_def)
qed (rule crash_step_inv)

text \<open>
  Whatever reports arrive and whichever writes, reads and deletions fail on the way, the file never
  holds more than twenty complete reports, so no sender can make it grow past the cap.
\<close>

theorem crash_log_never_exceeds_its_cap:
  assumes "reachable (crash_init js d) (crash_step js disp d) fs" and "crash_count (crash_path_in d) fs = Inr n"
  shows "n \<le> MAX_REPORTS"
proof -
  have i: "crash_inv js d fs" using crash_machine.reachable_inv [OF assms(1)] .
  show ?thesis
  proof (cases "read_to_string (crash_path_in d) fs")
    case (Inl e)
    then show ?thesis using assms(2) by (cases e) (simp_all add: crash_count_def)
  next
    case (Inr t0)
    then have "is_utf8 t0" "file_bytes (crash_path_in d) fs = as_bytes t0"
      by (auto simp: read_to_string_Inr file_bytes_def)
    then have "count_text t0 \<le> MAX_REPORTS" using i by (simp add: crash_inv_def)
    then show ?thesis using assms(2) Inr by (simp add: crash_count_def)
  qed
qed

theorem crash_log_never_exceeds_its_cap_witness:
  "\<exists>fs. reachable (crash_init demo_crash_json ''/state'') (crash_step demo_crash_json (\<lambda>_. ''error'') ''/state'') fs
    \<and> crash_count (crash_path_in ''/state'') fs = Inr 1 \<and> 1 \<le> MAX_REPORTS"
proof -
  let ?p = "crash_path_in ''/state''" and ?disp = "\<lambda>_ :: io_error. ''error''"
  have h: "crash_holds demo_crash_json [] ?p no_faults"
    by (simp add: crash_holds_def file_bytes_def no_faults_def as_bytes_def)
  have f: "fs_fault no_faults = (\<lambda>_. None)" by (simp add: no_faults_def)
  obtain fs where s: "crash_store demo_crash_json ?disp ''/state'' (demo_report 1) no_faults = (Inr 1, fs)"
    and fs: "crash_holds demo_crash_json [demo_report 1] ?p fs" "fs_fault fs = (\<lambda>_. None)"
    using crash_store_step [OF demo_crash_json_contract h f demo_report_valid, of ?disp] by (auto simp: MAX_REPORTS_def)
  have "crash_init demo_crash_json ''/state'' no_faults"
    using demo_crash_json_contract by (simp add: crash_init_def no_faults_def)
  then have r: "reachable (crash_init demo_crash_json ''/state'') (crash_step demo_crash_json ?disp ''/state'') fs"
    using crash_step.step_store [OF s] by (blast intro: reach_step reach_init)
  have "crash_count ?p fs = Inr 1" using crash_read(1) [OF fs] by simp
  with r crash_log_never_exceeds_its_cap [OF r this] show ?thesis by blast
qed

lemma crash_clear_outcome:
  "crash_clear p fs = (Inr b, fs') \<Longrightarrow> fs_fault fs (RemoveCall p) = None \<Longrightarrow>
   fs_files fs' p = None \<and> (b \<longleftrightarrow> fs_files fs p \<noteq> None) \<or> fs' = fs \<and> \<not> b \<and> fs_files fs p = None"
  using clear_log_outcome by (fastforce simp: crash_clear_def clear_log_def remove_file_def split: if_splits)

section \<open>After a torn write\<close>

text \<open>
  A report stored behind a line that a failed write left torn is acknowledged to its sender, and
  counted, but the line on the file is the torn piece and the report together.
\<close>

lemma report_after_torn_line_is_merged:
  assumes "json_line_contract js" and "list_all (writes_line js) rs" and "validate_report js r = Inr r'"
    and "length rs < MAX_REPORTS" and "torn \<noteq> []" and "NL \<notin> set torn" and "is_utf8 torn"
    and "fs_fault fs = (\<lambda>_. None)" and "fs_files fs (crash_path_in d) = Some (as_bytes (text_of_lines (map (json_line js) rs) @ torn))"
  shows "\<exists>fs'. crash_store js disp d r fs = (Inr (length rs + 1), fs')
    \<and> fs_files fs' (crash_path_in d) = Some (as_bytes (text_of_lines (map (json_line js) rs @ [torn @ json_line js r'])))"
proof -
  let ?p = "crash_path_in d" and ?t = "text_of_lines (map (json_line js) rs)"
  have "is_utf8 (?t @ torn)" using crash_journal.text_utf8 [OF assms(2)] assms(7) by (rule is_utf8_append)
  then have rd: "read_to_string ?p fs = Inr (?t @ torn)" using assms(8,9) by (simp add: read_to_string_Inr)
  have nl: "\<forall>l \<in> set (map (json_line js) rs). NL \<notin> set l"
    using assms(2) crash_journal.one_line whole_line_NL by (fastforce simp: list_all_iff)
  have "\<not> complete_line torn" using assms(5,6) unfolding complete_line_def by (metis last_in_set)
  then have "count_text (?t @ torn) = count_text ?t"
    using split_inclusive_text [OF nl, of torn] split_inclusive_text [OF nl, of "[]"] split_inclusive_open [OF assms(6,5)]
    by (simp add: count_text_def)
  then have c: "crash_count ?p fs = Inr (length rs)" using rd count_text_of_reports [OF assms(2)] by (simp add: crash_count_def)
  obtain l where l: "to_json js r' = Inr l" using validate_writes [OF assms(3)] by blast
  obtain fs' where a: "append_line ?p l fs = (Inr (), fs')"
    using append_line_without_faults [OF assms(8)] by (metis prod.collapse)
  have "fs_files fs' ?p = Some (as_bytes (?t @ torn @ l @ [NL]))"
    using append_line_outcome [OF a] assms(9) by (simp add: file_bytes_def)
  then show ?thesis using a l c assms(3,4)
    by (simp add: crash_store_def tr_then_def tr_give_def Let_def json_line_def)
qed

end
