(* ===== verification/Deployment.thy ===== *)
theory Deployment
  imports Retry
begin

text \<open>
  The watch of \<open>deployment.rs\<close> over how carriers end, which warns once when a proxy seems to close
  idle ones on a schedule. Durations are nanoseconds; the floating-point operations the regularity
  check uses are an argument, so that it is written as the code computes it.
\<close>

definition MIN_SUSPICIOUS_LIFETIME :: nat where "MIN_SUSPICIOUS_LIFETIME = seconds 20"
definition OBSERVATIONS_BEFORE_WARNING :: nat where "OBSERVATIONS_BEFORE_WARNING = 3"

record 'f floats =
  fl_secs :: "nat \<Rightarrow> 'f"
  fl_of_usize :: "nat \<Rightarrow> 'f"
  fl_zero :: 'f
  fl_add :: "'f \<Rightarrow> 'f \<Rightarrow> 'f"
  fl_sub :: "'f \<Rightarrow> 'f \<Rightarrow> 'f"
  fl_mul :: "'f \<Rightarrow> 'f \<Rightarrow> 'f"
  fl_div :: "'f \<Rightarrow> 'f \<Rightarrow> 'f"
  fl_abs :: "'f \<Rightarrow> 'f"
  fl_le :: "'f \<Rightarrow> 'f \<Rightarrow> bool"
  fl_tolerance :: 'f
  fl_display :: "'f \<Rightarrow> string"

record carrier_ending =
  ce_lifetime :: nat
  ce_carried_session :: bool

record idle_drop_watch =
  iw_recent :: "nat list"
  iw_warned :: bool

definition watch_new :: idle_drop_watch where
  "watch_new = \<lparr>iw_recent = [], iw_warned = False\<rparr>"

definition mean_lifetime :: "'f floats \<Rightarrow> nat list \<Rightarrow> 'f" where
  "mean_lifetime F recent =
     fl_div F (foldl (fl_add F) (fl_zero F) (map (fl_secs F) recent)) (fl_of_usize F (length recent))"

definition regular_lifetimes :: "'f floats \<Rightarrow> nat list \<Rightarrow> bool" where
  "regular_lifetimes F recent =
     (let mean = mean_lifetime F recent in
      list_all (\<lambda>lifetime. fl_le F (fl_abs F (fl_sub F (fl_secs F lifetime) mean)) (fl_mul F mean (fl_tolerance F))) recent)"

fun comma_separated :: "string list \<Rightarrow> string" where
  "comma_separated [] = ''''"
| "comma_separated [s] = s"
| "comma_separated (s # ss) = s @ '', '' @ comma_separated ss"

definition proxy_warning :: "'f floats \<Rightarrow> nat list \<Rightarrow> string" where
  "proxy_warning F recent =
     ''the carrier connection has been closed after about '' @ fl_display F (mean_lifetime F recent)
     @ ''s of silence, '' @ decimal (length recent)
     @ '' times in a row, and no client session ever ran on those connections (observed lifetimes: ''
     @ comma_separated (map (\<lambda>lifetime. fl_display F (fl_secs F lifetime) @ ''s'') recent)
     @ ''). This is what a reverse proxy in front of the relay looks like when its read timeout is shorter than the tunnel needs ''
     @ [CHR 0xE2, CHR 0x80, CHR 0x94] @ '' nginx's `proxy_read_timeout` defaults to 60s and applies to a WebSocket that is idle between sessions. Raise it above the longest quiet period you expect (nginx: `proxy_read_timeout 3600s;`), make sure the upgrade is not buffered (`proxy_buffering off;`), and restart this daemon.''"

text \<open>The loop that pops the oldest lifetimes while there are more than three leaves the last three.\<close>

definition observe :: "'f floats \<Rightarrow> carrier_ending \<Rightarrow> idle_drop_watch \<Rightarrow> string option \<times> idle_drop_watch" where
  "observe F ending w =
     (if iw_warned w \<or> ce_carried_session ending \<or> ce_lifetime ending < MIN_SUSPICIOUS_LIFETIME then (None, w)
      else
        let recent = iw_recent w @ [ce_lifetime ending];
            recent = drop (length recent - OBSERVATIONS_BEFORE_WARNING) recent;
            w = w\<lparr>iw_recent := recent\<rparr>
        in if length recent < OBSERVATIONS_BEFORE_WARNING then (None, w)
           else if \<not> regular_lifetimes F recent then (None, w)
           else (Some (proxy_warning F recent), w\<lparr>iw_warned := True\<rparr>))"

section \<open>What a warning means\<close>

text \<open>The endings a watch counts: those that carried no session and lasted long enough.\<close>

definition suspicious :: "carrier_ending \<Rightarrow> bool" where
  "suspicious e \<longleftrightarrow> \<not> ce_carried_session e \<and> MIN_SUSPICIOUS_LIFETIME \<le> ce_lifetime e"

fun observe_all :: "'f floats \<Rightarrow> carrier_ending list \<Rightarrow> idle_drop_watch \<Rightarrow> string list \<times> idle_drop_watch" where
  "observe_all F [] w = ([], w)"
| "observe_all F (e # es) w =
     (let (x, w) = observe F e w; (xs, w) = observe_all F es w
      in ((case x of None \<Rightarrow> [] | Some t \<Rightarrow> [t]) @ xs, w))"

definition last_three :: "nat list \<Rightarrow> nat list" where
  "last_three xs = drop (length xs - OBSERVATIONS_BEFORE_WARNING) xs"

definition lifetimes :: "carrier_ending list \<Rightarrow> nat list" where
  "lifetimes es = map ce_lifetime (filter suspicious es)"

definition looks_scheduled :: "'f floats \<Rightarrow> nat list \<Rightarrow> bool" where
  "looks_scheduled F xs \<longleftrightarrow>
     OBSERVATIONS_BEFORE_WARNING \<le> length xs \<and> regular_lifetimes F (last_three xs)"

lemma last_three_snoc: "last_three (last_three xs @ [x]) = last_three (xs @ [x])"
proof (cases "length xs \<le> 2")
  case False
  then obtain k where "length xs = k + 3" by (metis add.commute le_Suc_ex not_less_eq_eq numeral_2_eq_2 numeral_3_eq_3)
  then show ?thesis by (simp add: last_three_def OBSERVATIONS_BEFORE_WARNING_def)
qed (auto simp: last_three_def OBSERVATIONS_BEFORE_WARNING_def)

lemma length_last_three: "length (last_three xs) = min (length xs) 3"
  by (simp add: last_three_def OBSERVATIONS_BEFORE_WARNING_def)

lemma observe_step:
  assumes "\<not> iw_warned w" and "iw_recent w = last_three xs"
  shows "observe F e w =
    (if \<not> suspicious e then (None, w)
     else let xs' = xs @ [ce_lifetime e]; w' = w\<lparr>iw_recent := last_three xs'\<rparr> in
       if looks_scheduled F xs' then (Some (proxy_warning F (last_three xs')), w'\<lparr>iw_warned := True\<rparr>)
       else (None, w'))"
proof -
  let ?r = "iw_recent w @ [ce_lifetime e]"
  have r: "drop (length ?r - OBSERVATIONS_BEFORE_WARNING) ?r = last_three (xs @ [ce_lifetime e])"
    using last_three_snoc [of xs "ce_lifetime e"] assms(2) by (simp add: last_three_def)
  have l: "length (last_three (xs @ [ce_lifetime e])) < OBSERVATIONS_BEFORE_WARNING
      \<longleftrightarrow> \<not> OBSERVATIONS_BEFORE_WARNING \<le> length (xs @ [ce_lifetime e])"
    by (auto simp: length_last_three OBSERVATIONS_BEFORE_WARNING_def)
  show ?thesis
    unfolding observe_def Let_def r l using assms(1)
    by (auto simp: suspicious_def looks_scheduled_def not_less)
qed

lemma observe_warned: "iw_warned w \<Longrightarrow> observe_all F es w = ([], w)"
  by (induction es arbitrary: w) (simp_all add: observe_def)

text \<open>The endings after which the last three suspicious lifetimes look like a schedule.\<close>

definition warns_at :: "'f floats \<Rightarrow> carrier_ending list \<Rightarrow> carrier_ending list \<Rightarrow> nat \<Rightarrow> bool" where
  "warns_at F before es n \<longleftrightarrow> suspicious (es ! n) \<and> looks_scheduled F (lifetimes (before @ take (Suc n) es))"

lemma find_map: "find P (map f xs) = map_option f (find (\<lambda>x. P (f x)) xs)"
  by (induction xs) simp_all

lemma find_upt_Suc: "find P [0..<Suc k] = (if P 0 then Some 0 else map_option Suc (find (\<lambda>n. P (Suc n)) [0..<k]))"
proof -
  have "[0..<Suc k] = 0 # map Suc [0..<k]" by (metis map_Suc_upt upt_conv_Cons zero_less_Suc)
  then show ?thesis by (simp add: find_map)
qed

lemma observe_all_from:
  assumes "\<not> iw_warned w" and "iw_recent w = last_three (lifetimes before)"
  shows "fst (observe_all F es w) =
     (case find (warns_at F before es) [0..<length es] of
        None \<Rightarrow> []
      | Some n \<Rightarrow> [proxy_warning F (last_three (lifetimes (before @ take (Suc n) es)))])"
  using assms
proof (induction es arbitrary: before w)
  case Nil
  then show ?case by simp
next
  case (Cons e es)
  let ?before = "before @ [e]"
  have l: "lifetimes ?before = (if suspicious e then lifetimes before @ [ce_lifetime e] else lifetimes before)"
    by (simp add: lifetimes_def)
  have shift: "warns_at F before (e # es) (Suc n) = warns_at F ?before es n" for n
    by (simp add: warns_at_def)
  have first: "warns_at F before (e # es) 0 \<longleftrightarrow> suspicious e \<and> looks_scheduled F (lifetimes ?before)"
    by (simp add: warns_at_def)
  note s = observe_step [OF Cons.prems, of F e]
  have f: "find (warns_at F before (e # es)) [0..<length (e # es)]
      = (if warns_at F before (e # es) 0 then Some 0 else map_option Suc (find (warns_at F ?before es) [0..<length es]))"
    unfolding length_Cons find_upt_Suc shift ..
  show ?case
  proof (cases "warns_at F before (e # es) 0")
    case True
    then have "suspicious e" using first by simp
    then have x: "suspicious e" "looks_scheduled F (lifetimes before @ [ce_lifetime e])"
      using True first unfolding l by simp_all
    obtain w' where w': "observe F e w = (Some (proxy_warning F (last_three (lifetimes before @ [ce_lifetime e]))), w')" "iw_warned w'"
      using s x by (simp add: Let_def)
    show ?thesis unfolding f using True x l observe_warned [OF w'(2), of F es] w'(1) by simp
  next
    case False
    then obtain w' where w': "observe F e w = (None, w')" "\<not> iw_warned w'" "iw_recent w' = last_three (lifetimes ?before)"
      using s first l Cons.prems that [of "snd (observe F e w)"] by (cases "suspicious e") (simp_all add: Let_def)
    show ?thesis unfolding f using False Cons.IH [OF w'(2,3)] w'(1)
      by (auto simp: case_prod_beta split: option.splits)
  qed
qed

text \<open>
  The watch warns at most once, and it warns exactly at the first carrier ending after which the
  last three suspicious lifetimes (long enough, no session ever carried) look like a schedule;
  connections that carried a client never count, however regular.
\<close>

theorem watch_warns_once:
  "fst (observe_all F es watch_new) =
     (case find (warns_at F [] es) [0..<length es] of
        None \<Rightarrow> []
      | Some n \<Rightarrow> [proxy_warning F (last_three (lifetimes (take (Suc n) es)))])"
proof -
  have "\<not> iw_warned watch_new" "iw_recent watch_new = last_three (lifetimes [])"
    by (simp_all add: watch_new_def last_three_def lifetimes_def)
  from observe_all_from [OF this, of F es] show ?thesis by (simp only: append_Nil)
qed

text \<open>A carrier that carried a session never brings the warning about, and neither does a short one.\<close>

lemma sessions_are_no_evidence: "(\<forall>e \<in> set es. \<not> suspicious e) \<Longrightarrow> fst (observe_all F es watch_new) = []"
proof -
  assume "\<forall>e \<in> set es. \<not> suspicious e"
  then have "find (warns_at F [] es) [0..<length es] = None"
    unfolding find_None_iff by (auto simp: warns_at_def)
  then show ?thesis using observe_all_from [of watch_new "[]" F es]
    by (simp add: watch_new_def last_three_def lifetimes_def)
qed

end
