(* ===== verification/Uplink.thy ===== *)
theory Uplink
  imports Transport Deployment Audit_Log Machine
begin

text \<open>
  The reconnect loop of \<open>uplink.rs\<close> as a machine. A state is the loop's local variables, the place it
  waits in and what it has shown to the outside: the states passed to \<open>on_state\<close>, the frames handed to
  the handler, the audit records and the warnings. Its events are what the awaited operations of the
  transport, the timer, the outbox and the shutdown signal bring; the transport itself is theory
  \<open>Transport\<close>, and the reply texts of the relay are read by a parameter.
\<close>

section \<open>Settings\<close>

definition DEFAULT_KEEPALIVE_SECS :: nat where "DEFAULT_KEEPALIVE_SECS = 30"
definition RE_REGISTER_DELAY :: nat where "RE_REGISTER_DELAY = millis 20"
definition MAX_FAST_RE_REGISTRATIONS :: u32 where "MAX_FAST_RE_REGISTRATIONS = 8"

definition keepalive_setting :: "(string \<Rightarrow> string) \<Rightarrow> string option \<Rightarrow> string + nat option" where
  "keepalive_setting debug raw =
     (case raw of
        None \<Rightarrow> Inr (Some (seconds DEFAULT_KEEPALIVE_SECS))
      | Some raw \<Rightarrow>
          (case parse_uint 64 raw of
             None \<Rightarrow> Inl (''DSHD_KEEPALIVE_SECS is not a number: '' @ debug raw)
           | Some secs \<Rightarrow> Inr (if 0 < secs then Some (seconds secs) else None)))"

section \<open>State\<close>

datatype relay_state =
    RelayConnecting
  | RelayConnected
  | RelayReconnecting (rs_attempt: u32) (rs_retry_in: nat)
  | RelayRejected
  | RelayStopped

datatype uplink_place =
    Dialing
  | AwaitingClient
  | Serving
  | Pausing nat
  | Finished "transport_error option"

record uplink =
  up_place :: uplink_place
  up_attempt :: u32
  up_fast :: u32
  up_watch :: idle_drop_watch
  up_carried_session :: bool
  up_bound_device :: "string option"
  up_states :: "relay_state list"
  up_handled :: "(u32 \<times> byte list) list"
  up_audit :: "(audit_event \<times> string option \<times> audit_outcome \<times> string option) list"
  up_warnings :: "string list"

datatype uplink_event =
    DialOk
  | DialErr transport_error
  | Established "string option"
  | EstablishErr transport_error nat
  | Inbound u32 "byte list"
  | InboundErr transport_error nat
  | AnswerSent
  | AnswerErr transport_error nat
  | TimerFires
  | Shutdown

definition on_state :: "relay_state \<Rightarrow> uplink \<Rightarrow> uplink" where
  "on_state st up = up\<lparr>up_states := up_states up @ [st]\<rparr>"

definition up_record :: "audit_event \<Rightarrow> string option \<Rightarrow> audit_outcome \<Rightarrow> string option \<Rightarrow> uplink \<Rightarrow> uplink" where
  "up_record ev dev out reason up = up\<lparr>up_audit := up_audit up @ [(ev, dev, out, reason)]\<rparr>"

definition observe_ending :: "'f floats \<Rightarrow> nat \<Rightarrow> uplink \<Rightarrow> uplink" where
  "observe_ending F lifetime up =
     (case observe F \<lparr>ce_lifetime = lifetime, ce_carried_session = up_carried_session up\<rparr> (up_watch up) of
        (None, w) \<Rightarrow> up\<lparr>up_watch := w\<rparr>
      | (Some warning, w) \<Rightarrow> up\<lparr>up_watch := w, up_warnings := up_warnings up @ [warning]\<rparr>)"

section \<open>The loop\<close>

definition released_by_relay :: "'v value_lib \<Rightarrow> transport_error \<Rightarrow> bool" where
  "released_by_relay V error =
     (case error of
        TrSessionEnded reason \<Rightarrow>
          (case vl_parse V reason of
             None \<Rightarrow> False
           | Some parsed \<Rightarrow>
               Option.bind (vl_get V parsed ''type'') (vl_str V) = Some ''close''
               \<and> Option.bind (vl_get V parsed ''reason'') (vl_str V) = Some SESSION_OVER)
      | _ \<Rightarrow> False)"

text \<open>The top of the loop: the variables of one connection are fresh and the relay is dialed.\<close>

definition begin_connection :: "uplink \<Rightarrow> uplink" where
  "begin_connection up =
     on_state RelayConnecting (up\<lparr>up_place := Dialing, up_carried_session := False, up_bound_device := None\<rparr>)"

text \<open>The bottom of the loop: a turn-around while the budget lasts, the backoff otherwise.\<close>

definition after_connection :: "bool \<Rightarrow> uplink \<Rightarrow> uplink" where
  "after_connection session_ended up =
     (if session_ended \<and> up_fast up < MAX_FAST_RE_REGISTRATIONS
      then on_state (RelayReconnecting 0 RE_REGISTER_DELAY)
             (up\<lparr>up_fast := saturating_add (up_fast up) 1, up_place := Pausing RE_REGISTER_DELAY\<rparr>)
      else let attempt = saturating_add (up_attempt up) 1; delay = backoff_delay backoff_default attempt in
           on_state (RelayReconnecting attempt delay) (up\<lparr>up_attempt := attempt, up_place := Pausing delay\<rparr>))"

definition stop_uplink :: "uplink \<Rightarrow> uplink" where
  "stop_uplink up = on_state RelayStopped (up\<lparr>up_place := Finished None\<rparr>)"

definition dial_on :: "uplink_event \<Rightarrow> uplink \<Rightarrow> uplink option" where
  "dial_on ev up =
     (case ev of
        DialOk \<Rightarrow> Some (on_state RelayConnected (up\<lparr>up_place := AwaitingClient\<rparr>))
      | DialErr error \<Rightarrow>
          Some (case error of
                  TrRefused detail \<Rightarrow> on_state RelayRejected (up\<lparr>up_place := Finished (Some error)\<rparr>)
                | _ \<Rightarrow> after_connection False up)
      | _ \<Rightarrow> None)"

definition establish_on :: "'f floats \<Rightarrow> uplink_event \<Rightarrow> uplink \<Rightarrow> uplink option" where
  "establish_on F ev up =
     (case ev of
        Established device \<Rightarrow>
          Some (up_record TunnelEstablished device OutcomeOk None
                 (up\<lparr>up_attempt := 0, up_fast := 0, up_carried_session := True,
                     up_bound_device := device, up_place := Serving\<rparr>))
      | EstablishErr error lifetime \<Rightarrow> Some (after_connection True (observe_ending F lifetime up))
      | Shutdown \<Rightarrow> Some (stop_uplink up)
      | _ \<Rightarrow> None)"

definition serve_on :: "'v value_lib \<Rightarrow> 'f floats \<Rightarrow> uplink_event \<Rightarrow> uplink \<Rightarrow> uplink option" where
  "serve_on V F ev up =
     (case ev of
        Inbound stream payload \<Rightarrow> Some (up\<lparr>up_handled := up_handled up @ [(stream, payload)]\<rparr>)
      | InboundErr error lifetime \<Rightarrow>
          (let released = released_by_relay V error;
               up = (if up_carried_session up
                     then up_record TunnelReleased (up_bound_device up)
                            (if released then OutcomeOk else OutcomeFailed)
                            (Some (if released then ''the relay released the session'' else ''the carrier broke'')) up
                     else up)
           in Some (after_connection released (observe_ending F lifetime up)))
      | AnswerSent \<Rightarrow> Some up
      | AnswerErr error lifetime \<Rightarrow>
          (let up = observe_ending F lifetime up;
               up = (if up_carried_session up
                     then up_record TunnelReleased (up_bound_device up) OutcomeFailed
                            (Some ''the carrier broke while answering'') up
                     else up)
           in Some (after_connection False up))
      | Shutdown \<Rightarrow> Some (stop_uplink up)
      | _ \<Rightarrow> None)"

definition uplink_on :: "'v value_lib \<Rightarrow> 'f floats \<Rightarrow> uplink_event \<Rightarrow> uplink \<Rightarrow> uplink option" where
  "uplink_on V F ev up =
     (case up_place up of
        Dialing \<Rightarrow> dial_on ev up
      | AwaitingClient \<Rightarrow> establish_on F ev up
      | Serving \<Rightarrow> serve_on V F ev up
      | Pausing d \<Rightarrow>
          (case ev of
             TimerFires \<Rightarrow> Some (begin_connection up)
           | Shutdown \<Rightarrow> Some (stop_uplink up)
           | _ \<Rightarrow> None)
      | Finished r \<Rightarrow> None)"

definition uplink_start :: uplink where
  "uplink_start = begin_connection
     \<lparr>up_place = Dialing, up_attempt = 0, up_fast = 0, up_watch = watch_new, up_carried_session = False,
      up_bound_device = None, up_states = [], up_handled = [], up_audit = [], up_warnings = []\<rparr>"

fun uplink_run :: "'v value_lib \<Rightarrow> 'f floats \<Rightarrow> uplink_event list \<Rightarrow> uplink \<Rightarrow> uplink option" where
  "uplink_run V F [] up = Some up"
| "uplink_run V F (ev # evs) up =
     (case uplink_on V F ev up of None \<Rightarrow> None | Some up' \<Rightarrow> uplink_run V F evs up')"

section \<open>What the loop shows\<close>

definition shows_place :: "uplink \<Rightarrow> bool" where
  "shows_place up \<longleftrightarrow> up_states up \<noteq> [] \<and>
     (case up_place up of
        Dialing \<Rightarrow> last (up_states up) = RelayConnecting
      | AwaitingClient \<Rightarrow> last (up_states up) = RelayConnected
      | Serving \<Rightarrow> last (up_states up) = RelayConnected
      | Pausing d \<Rightarrow> \<exists>n. last (up_states up) = RelayReconnecting n d
      | Finished None \<Rightarrow> last (up_states up) = RelayStopped
      | Finished (Some e) \<Rightarrow> last (up_states up) = RelayRejected \<and> (\<exists>detail. e = TrRefused detail))"

text \<open>
  The audit trail, read as a log of sessions: \<open>Some None\<close> when every session that was established was
  released, \<open>Some (Some d)\<close> while the session of \<open>d\<close> is open, \<open>None\<close> when it makes no sense.
\<close>

fun session_trail :: "string option option \<Rightarrow> (audit_event \<times> string option \<times> audit_outcome \<times> string option) list
    \<Rightarrow> string option option option" where
  "session_trail s [] = Some s"
| "session_trail s ((ev, dev, out, reason) # es) =
     (if ev = TunnelEstablished \<and> s = None then session_trail (Some dev) es
      else if ev = TunnelReleased \<and> s = Some dev then session_trail None es
      else None)"

lemma session_trail_append:
  "session_trail s (es @ fs) = (case session_trail s es of None \<Rightarrow> None | Some s' \<Rightarrow> session_trail s' fs)"
  by (induction s es rule: session_trail.induct) auto

definition open_session :: "uplink \<Rightarrow> string option option" where
  "open_session up = (if up_place up = Serving then Some (up_bound_device up) else None)"

definition uplink_inv :: "uplink \<Rightarrow> bool" where
  "uplink_inv up \<longleftrightarrow> shows_place up \<and> up_fast up \<le> MAX_FAST_RE_REGISTRATIONS
     \<and> (up_place up = Serving \<longrightarrow> up_carried_session up)
     \<and> (up_place up \<in> {Dialing, AwaitingClient} \<longrightarrow> \<not> up_carried_session up)
     \<and> (up_place up \<noteq> Finished None \<longrightarrow> session_trail None (up_audit up) = Some (open_session up))
     \<and> session_trail None (up_audit up) \<noteq> None"

inductive uplink_step :: "'v value_lib \<Rightarrow> 'f floats \<Rightarrow> uplink \<Rightarrow> uplink \<Rightarrow> bool" for V F where
  uplink_takes: "uplink_on V F ev up = Some up' \<Longrightarrow> uplink_step V F up up'"

inductive_cases uplink_stepE: "uplink_step V F up up'"

lemma fast_bound:
  "n < MAX_FAST_RE_REGISTRATIONS \<Longrightarrow> saturating_add (n :: u32) 1 \<le> MAX_FAST_RE_REGISTRATIONS"
  by (simp add: word_less_nat_alt word_le_nat_alt unat_saturating_add MAX_FAST_RE_REGISTRATIONS_def)

lemma on_state_simps [simp]:
  "up_place (on_state st up) = up_place up" "up_states (on_state st up) = up_states up @ [st]"
  "up_attempt (on_state st up) = up_attempt up" "up_fast (on_state st up) = up_fast up"
  "up_carried_session (on_state st up) = up_carried_session up" "up_bound_device (on_state st up) = up_bound_device up"
  "up_audit (on_state st up) = up_audit up" "up_handled (on_state st up) = up_handled up"
  "up_watch (on_state st up) = up_watch up" "up_warnings (on_state st up) = up_warnings up"
  by (simp_all add: on_state_def)

lemma up_record_simps [simp]:
  "up_place (up_record ev dev out reason up) = up_place up" "up_states (up_record ev dev out reason up) = up_states up"
  "up_attempt (up_record ev dev out reason up) = up_attempt up" "up_fast (up_record ev dev out reason up) = up_fast up"
  "up_carried_session (up_record ev dev out reason up) = up_carried_session up"
  "up_bound_device (up_record ev dev out reason up) = up_bound_device up"
  "up_audit (up_record ev dev out reason up) = up_audit up @ [(ev, dev, out, reason)]"
  "up_handled (up_record ev dev out reason up) = up_handled up"
  by (simp_all add: up_record_def)

lemma observe_ending_simps [simp]:
  "up_place (observe_ending F l up) = up_place up" "up_states (observe_ending F l up) = up_states up"
  "up_attempt (observe_ending F l up) = up_attempt up" "up_fast (observe_ending F l up) = up_fast up"
  "up_carried_session (observe_ending F l up) = up_carried_session up"
  "up_bound_device (observe_ending F l up) = up_bound_device up"
  "up_audit (observe_ending F l up) = up_audit up" "up_handled (observe_ending F l up) = up_handled up"
  by (auto simp: observe_ending_def split: prod.splits option.splits)

lemma after_connection_inv:
  assumes "up_fast up \<le> MAX_FAST_RE_REGISTRATIONS" and "session_trail None (up_audit up) = Some None"
  shows "uplink_inv (after_connection ended up)"
  using assms fast_bound [of "up_fast up"]
  by (auto simp: after_connection_def uplink_inv_def shows_place_def open_session_def Let_def)

lemma stop_uplink_inv: "uplink_inv up \<Longrightarrow> uplink_inv (stop_uplink up)"
  by (auto simp: stop_uplink_def uplink_inv_def shows_place_def)

lemma uplink_on_inv:
  assumes i: "uplink_inv up" and on: "uplink_on V F ev up = Some up'"
  shows "uplink_inv up'"
proof (cases "up_place up")
  case Dialing
  then have d: "dial_on ev up = Some up'" using on by (simp add: uplink_on_def)
  have t: "session_trail None (up_audit up) = Some None" using i Dialing by (simp add: uplink_inv_def open_session_def)
  show ?thesis
  proof (cases ev)
    case DialOk
    then show ?thesis using d i Dialing t
      by (auto simp: dial_on_def uplink_inv_def shows_place_def open_session_def)
  next
    case (DialErr e)
    have r: "uplink_inv (on_state RelayRejected (up\<lparr>up_place := Finished (Some (TrRefused x))\<rparr>))" for x
      using i t by (simp add: uplink_inv_def shows_place_def open_session_def)
    have "up_fast up \<le> MAX_FAST_RE_REGISTRATIONS" using i by (simp add: uplink_inv_def)
    note after_connection_inv [OF this t, of False]
    then show ?thesis using d DialErr r by (cases e) (auto simp: dial_on_def)
  qed (use d in \<open>simp_all add: dial_on_def\<close>)
next
  case AwaitingClient
  then have d: "establish_on F ev up = Some up'" using on by (simp add: uplink_on_def)
  have t: "session_trail None (up_audit up) = Some None" using i AwaitingClient by (simp add: uplink_inv_def open_session_def)
  show ?thesis
  proof (cases ev)
    case (Established dev)
    then show ?thesis using d i AwaitingClient t
      by (auto simp: establish_on_def uplink_inv_def shows_place_def open_session_def session_trail_append)
  next
    case (EstablishErr e l)
    have "up_fast up \<le> MAX_FAST_RE_REGISTRATIONS" using i by (simp add: uplink_inv_def)
    then have "uplink_inv (after_connection True (observe_ending F l up))" using t by (intro after_connection_inv) simp_all
    then show ?thesis using d EstablishErr by (simp add: establish_on_def)
  next
    case Shutdown
    then show ?thesis using d stop_uplink_inv [OF i] by (auto simp: establish_on_def)
  qed (use d in \<open>simp_all add: establish_on_def\<close>)
next
  case Serving
  then have d: "serve_on V F ev up = Some up'" using on by (simp add: uplink_on_def)
  have t: "session_trail None (up_audit up) = Some (Some (up_bound_device up))" and c: "up_carried_session up"
    and f: "up_fast up \<le> MAX_FAST_RE_REGISTRATIONS" using i Serving by (simp_all add: uplink_inv_def open_session_def)
  show ?thesis
  proof (cases ev)
    case (Inbound x y)
    then show ?thesis using d i Serving by (auto simp: serve_on_def uplink_inv_def shows_place_def open_session_def)
  next
    case (InboundErr e l)
    then show ?thesis using d c t f
      by (auto simp: serve_on_def Let_def session_trail_append intro!: after_connection_inv)
  next
    case (AnswerErr e l)
    then show ?thesis using d c t f
      by (auto simp: serve_on_def Let_def session_trail_append intro!: after_connection_inv)
  next
    case AnswerSent
    then show ?thesis using d i by (simp add: serve_on_def)
  next
    case Shutdown
    then show ?thesis using d stop_uplink_inv [OF i] by (auto simp: serve_on_def)
  qed (use d in \<open>simp_all add: serve_on_def\<close>)
next
  case (Pausing p)
  then have "uplink_inv (begin_connection up)"
    using i by (simp add: begin_connection_def uplink_inv_def shows_place_def open_session_def)
  then show ?thesis using on Pausing stop_uplink_inv [OF i] by (cases ev) (simp_all add: uplink_on_def)
qed (use on in \<open>simp add: uplink_on_def\<close>)

lemma uplink_start_inv: "uplink_inv uplink_start"
  by (simp add: uplink_start_def begin_connection_def uplink_inv_def shows_place_def open_session_def word_le_nat_alt)

interpretation carrier: guarded_machine "\<lambda>up. up = uplink_start" "uplink_step V F" uplink_inv
    "\<lambda>up. shows_place up \<and> up_fast up \<le> MAX_FAST_RE_REGISTRATIONS \<and> session_trail None (up_audit up) \<noteq> None"
  for V :: "'v value_lib" and F :: "'f floats"
  by unfold_locales (auto simp: uplink_start_inv elim!: uplink_stepE intro: uplink_on_inv, auto simp: uplink_inv_def)

lemma uplink_run_reachable:
  "reachable (\<lambda>up. up = uplink_start) (uplink_step V F) up \<Longrightarrow> uplink_run V F evs up = Some up' \<Longrightarrow>
   reachable (\<lambda>up. up = uplink_start) (uplink_step V F) up'"
proof (induction evs arbitrary: up)
  case (Cons ev evs)
  then obtain up1 where "uplink_on V F ev up = Some up1" "uplink_run V F evs up1 = Some up'"
    by (auto split: option.splits)
  with Cons show ?case using reach_step uplink_takes by metis
qed simp

lemma uplink_run_append:
  "uplink_run V F (es @ fs) up = (case uplink_run V F es up of None \<Rightarrow> None | Some up' \<Rightarrow> uplink_run V F fs up')"
  by (induction es arbitrary: up) (auto split: option.splits)

section \<open>Properties\<close>


definition exact_floats :: "nat floats" where
  "exact_floats = \<lparr>fl_secs = (\<lambda>n. n), fl_of_usize = (\<lambda>n. n), fl_zero = 0, fl_add = (+), fl_sub = (-), fl_mul = (*),
     fl_div = (div), fl_abs = (\<lambda>n. n), fl_le = (\<le>), fl_tolerance = 0, fl_display = decimal\<rparr>"

definition served_events :: "uplink_event list" where
  "served_events =
     [DialOk, Established (Some ''phone''), Inbound 3 [1, 2], AnswerErr (TrTransport ''reset'') 5, TimerFires, DialOk]"

lemma served_run:
  "\<exists>up. uplink_run demo_values exact_floats served_events uplink_start = Some up \<and> up_place up = AwaitingClient
     \<and> up_audit up = [(TunnelEstablished, Some ''phone'', OutcomeOk, None),
          (TunnelReleased, Some ''phone'', OutcomeFailed, Some ''the carrier broke while answering'')]
     \<and> up_handled up = [(3, [1, 2])]"
  by (simp add: served_events_def uplink_on_def dial_on_def establish_on_def serve_on_def
      uplink_start_def begin_connection_def after_connection_def Let_def)


text \<open>The pauses a run announces, and how often it turned around at once.\<close>

definition announced :: "uplink \<Rightarrow> uplink \<Rightarrow> relay_state list" where
  "announced up up' = drop (length (up_states up)) (up_states up')"

fun pause_of :: "relay_state \<Rightarrow> nat option" where
  "pause_of (RelayReconnecting n d) = Some d"
| "pause_of _ = None"

definition turn_arounds :: "relay_state list \<Rightarrow> nat" where
  "turn_arounds ss = length (filter (\<lambda>s. pause_of s = Some RE_REGISTER_DELAY) ss)"

lemma backoff_at_least: "millis 500 \<le> backoff_delay backoff_default n"
proof -
  have "min (bo_base backoff_default) (min (bo_max backoff_default) DURATION_MAX) = millis 500"
    by (simp add: backoff_default_def millis_def seconds_def DURATION_MAX_def)
  moreover have "backoff_delay backoff_default n \<ge> backoff_delay backoff_default 0" by (rule uplink.delay_mono) simp
  ultimately show ?thesis using uplink.delay_first(1) [of backoff_default] uplink.delay_first(2) [of backoff_default] by simp
qed

lemma turn_arounds_append [simp]: "turn_arounds (ss @ ts) = turn_arounds ss + turn_arounds ts"
  by (simp add: turn_arounds_def)

definition spends :: "uplink \<Rightarrow> uplink \<Rightarrow> bool" where
  "spends up up' \<longleftrightarrow> (\<exists>ss. up_states up' = up_states up @ ss
     \<and> turn_arounds ss + unat (up_fast up) \<le> unat (up_fast up')
     \<and> (\<forall>s \<in> set ss. \<forall>d. pause_of s = Some d \<longrightarrow> d = RE_REGISTER_DELAY \<or> millis 500 \<le> d))"

lemma spends_refl [simp]: "up_states up' = up_states up \<Longrightarrow> up_fast up' = up_fast up \<Longrightarrow> spends up up'"
  by (auto simp: spends_def turn_arounds_def)

lemma spends_trans:
  assumes "spends up up1" and "spends up1 up2"
  shows "spends up up2"
proof -
  obtain ss ts where "up_states up1 = up_states up @ ss" "turn_arounds ss + unat (up_fast up) \<le> unat (up_fast up1)"
      "\<forall>s \<in> set ss. \<forall>d. pause_of s = Some d \<longrightarrow> d = RE_REGISTER_DELAY \<or> millis 500 \<le> d"
    and "up_states up2 = up_states up1 @ ts" "turn_arounds ts + unat (up_fast up1) \<le> unat (up_fast up2)"
      "\<forall>s \<in> set ts. \<forall>d. pause_of s = Some d \<longrightarrow> d = RE_REGISTER_DELAY \<or> millis 500 \<le> d"
    using assms unfolding spends_def by blast
  then show ?thesis unfolding spends_def by (intro exI [of _ "ss @ ts"]) auto
qed

lemma spends_report:
  assumes "up_states up' = up_states up @ [st]" and "up_fast up' = up_fast up"
    and "pause_of st = None \<or> (\<exists>d. pause_of st = Some d \<and> millis 500 \<le> d)"
  shows "spends up up'"
proof -
  have "RE_REGISTER_DELAY < millis 500" by (simp add: RE_REGISTER_DELAY_def millis_def)
  then have "turn_arounds [st] = 0" using assms(3) by (auto simp: turn_arounds_def)
  then show ?thesis using assms unfolding spends_def by (intro exI [of _ "[st]"]) auto
qed

lemma after_connection_spends: "spends up (after_connection ended up)"
proof (cases "ended \<and> up_fast up < MAX_FAST_RE_REGISTRATIONS")
  case True
  then have f: "unat (saturating_add (up_fast up) 1) = unat (up_fast up) + 1"
    by (simp add: unat_saturating_add word_less_nat_alt MAX_FAST_RE_REGISTRATIONS_def)
  have a: "after_connection ended up = on_state (RelayReconnecting 0 RE_REGISTER_DELAY)
      (up\<lparr>up_fast := saturating_add (up_fast up) 1, up_place := Pausing RE_REGISTER_DELAY\<rparr>)"
    using True by (simp add: after_connection_def)
  show ?thesis unfolding spends_def a
    by (intro exI [of _ "[RelayReconnecting 0 RE_REGISTER_DELAY]"]) (simp add: turn_arounds_def f)
next
  case False
  let ?n = "saturating_add (up_attempt up) 1"
  have a: "after_connection ended up = on_state (RelayReconnecting ?n (backoff_delay backoff_default ?n))
      (up\<lparr>up_attempt := ?n, up_place := Pausing (backoff_delay backoff_default ?n)\<rparr>)"
    using False by (auto simp: after_connection_def Let_def)
  show ?thesis unfolding a
    by (rule spends_report [where st = "RelayReconnecting ?n (backoff_delay backoff_default ?n)"])
      (simp_all add: backoff_at_least)
qed

lemma uplink_on_spends:
  assumes "uplink_on V F ev up = Some up'" and "\<nexists>dev. ev = Established dev"
  shows "spends up up'"
proof -
  have after: "spends up (after_connection ended up1)" if "spends up up1" for ended up1
    using spends_trans [OF that after_connection_spends] .
  have stop: "spends up (stop_uplink up)" by (rule spends_report [where st = RelayStopped]) (simp_all add: stop_uplink_def)
  show ?thesis
  proof (cases "up_place up")
    case Dialing
    then have d: "dial_on ev up = Some up'" using assms(1) by (simp add: uplink_on_def)
    show ?thesis
    proof (cases ev)
      case DialOk
      with d show ?thesis by (intro spends_report [where st = RelayConnected]) (auto simp: dial_on_def)
    next
      case (DialErr e)
      have "spends up (on_state RelayRejected (up\<lparr>up_place := Finished (Some e)\<rparr>))" by (rule spends_report [where st = RelayRejected]) simp_all
      with d DialErr after_connection_spends show ?thesis by (cases e) (auto simp: dial_on_def)
    qed (use d in \<open>simp_all add: dial_on_def\<close>)
  next
    case AwaitingClient
    then have d: "establish_on F ev up = Some up'" using assms(1) by (simp add: uplink_on_def)
    show ?thesis using d assms(2) stop after [of "observe_ending F _ up"]
      by (cases ev) (auto simp: establish_on_def)
  next
    case Serving
    then have d: "serve_on V F ev up = Some up'" using assms(1) by (simp add: uplink_on_def)
    show ?thesis using d stop by (cases ev) (auto simp: serve_on_def Let_def intro!: after)
  next
    case (Pausing p)
    have "spends up (begin_connection up)" by (rule spends_report [where st = RelayConnecting]) (simp_all add: begin_connection_def)
    with Pausing assms(1) stop show ?thesis by (cases ev) (auto simp: uplink_on_def)
  qed (use assms(1) in \<open>simp add: uplink_on_def\<close>)
qed

text \<open>
  C34. A relay that keeps closing, refusing to answer or failing cannot make the daemon spin: over any
  run in which no client establishes a session, at most eight pauses in all are the 20 ms of a
  turn-around, and every other pause is at least half a second.
\<close>

theorem redialing_is_bounded:
  assumes "reachable (\<lambda>up. up = uplink_start) (uplink_step V F) up"
    and "uplink_run V F evs up = Some up'" and "\<forall>dev. Established dev \<notin> set evs"
  shows "turn_arounds (announced up up') + unat (up_fast up) \<le> 8
    \<and> (\<forall>s \<in> set (announced up up'). \<forall>d. pause_of s = Some d \<longrightarrow> d = RE_REGISTER_DELAY \<or> millis 500 \<le> d)"
proof -
  have "spends up up'" using assms(2,3)
  proof (induction evs arbitrary: up)
    case (Cons ev evs)
    then obtain up1 where u: "uplink_on V F ev up = Some up1" "uplink_run V F evs up1 = Some up'"
      by (auto split: option.splits)
    have "spends up up1" by (rule uplink_on_spends [OF u(1)]) (use Cons.prems(2) in auto)
    with Cons u show ?case using spends_trans by (metis list.set_intros(2))
  qed simp
  then obtain ss where ss: "up_states up' = up_states up @ ss" "turn_arounds ss + unat (up_fast up) \<le> unat (up_fast up')"
    "\<forall>s \<in> set ss. \<forall>d. pause_of s = Some d \<longrightarrow> d = RE_REGISTER_DELAY \<or> millis 500 \<le> d" by (auto simp: spends_def)
  have "up_fast up' \<le> MAX_FAST_RE_REGISTRATIONS"
    using carrier.reachable_safe [OF uplink_run_reachable [OF assms(1,2)]] by blast
  then have "unat (up_fast up') \<le> 8" by (simp add: word_le_nat_alt MAX_FAST_RE_REGISTRATIONS_def)
  with ss show ?thesis by (simp add: announced_def)
qed

theorem redialing_is_bounded_witness:
  "\<exists>up. uplink_run demo_values exact_floats
        [DialOk, EstablishErr (TrTransport ''reset'') 5, TimerFires, DialErr (TrTransport ''down''), TimerFires] uplink_start = Some up
     \<and> turn_arounds (announced uplink_start up) = 1 \<and> turn_arounds (announced uplink_start up) + 0 \<le> 8"
proof -
  let ?evs = "[DialOk, EstablishErr (TrTransport ''reset'') 5, TimerFires, DialErr (TrTransport ''down''), TimerFires]"
  let ?d = "backoff_delay backoff_default (saturating_add 0 1)"
  have "\<exists>up. uplink_run demo_values exact_floats ?evs uplink_start = Some up
      \<and> up_states up = [RelayConnecting, RelayConnected, RelayReconnecting 0 RE_REGISTER_DELAY, RelayConnecting,
          RelayReconnecting (saturating_add 0 1) ?d, RelayConnecting] \<and> up_states uplink_start = [RelayConnecting]
      \<and> up_fast uplink_start = 0"
    by (simp add: uplink_on_def dial_on_def establish_on_def uplink_start_def begin_connection_def
        after_connection_def Let_def MAX_FAST_RE_REGISTRATIONS_def word_less_nat_alt)
  then obtain up where up: "uplink_run demo_values exact_floats ?evs uplink_start = Some up"
    "up_states up = [RelayConnecting, RelayConnected, RelayReconnecting 0 RE_REGISTER_DELAY, RelayConnecting,
          RelayReconnecting (saturating_add 0 1) ?d, RelayConnecting]" "up_states uplink_start = [RelayConnecting]"
    "up_fast uplink_start = 0" by blast
  have "RE_REGISTER_DELAY < millis 500" by (simp add: RE_REGISTER_DELAY_def millis_def)
  then have "?d \<noteq> RE_REGISTER_DELAY" using backoff_at_least [of "saturating_add 0 1"] by linarith
  then have "turn_arounds (announced uplink_start up) = 1" using up by (simp add: announced_def turn_arounds_def)
  moreover have "turn_arounds (announced uplink_start up) + unat (up_fast uplink_start) \<le> 8"
    using redialing_is_bounded [OF reach_init up(1)] by auto
  ultimately show ?thesis using up by simp
qed

section \<open>What the loop also does\<close>

text \<open>A daemon that is stopped while a client is connected records no end of that session.\<close>

lemma shutdown_leaves_the_trail_open:
  "\<exists>up. uplink_run V F [DialOk, Established dev, Shutdown] uplink_start = Some up
     \<and> up_place up = Finished None \<and> session_trail None (up_audit up) = Some (Some dev)"
  by (simp add: uplink_on_def dial_on_def establish_on_def serve_on_def stop_uplink_def uplink_start_def begin_connection_def)

text \<open>
  A carrier that breaks while the daemon waits for its first client is answered with the turn-around
  of a released session and not with the backoff.
\<close>

lemma broken_idle_carrier_turns_around:
  "\<exists>up. uplink_run V F [DialOk, EstablishErr (TrTransport e) n] uplink_start = Some up
     \<and> last (up_states up) = RelayReconnecting 0 RE_REGISTER_DELAY"
  by (simp add: uplink_on_def dial_on_def establish_on_def after_connection_def uplink_start_def
      begin_connection_def MAX_FAST_RE_REGISTRATIONS_def word_less_nat_alt)

text \<open>The keepalive setting: unset is thirty seconds, zero is off, and what is no number is refused.\<close>

lemma keepalive_values:
  "keepalive_setting debug None = Inr (Some (seconds 30))"
  "n < 2 ^ 64 \<Longrightarrow> keepalive_setting debug (Some (decimal n)) = Inr (if n = 0 then None else Some (seconds n))"
  "parse_uint 64 raw = None \<Longrightarrow> keepalive_setting debug (Some raw) = Inl (''DSHD_KEEPALIVE_SECS is not a number: '' @ debug raw)"
  by (simp_all add: keepalive_setting_def DEFAULT_KEEPALIVE_SECS_def parse_uint_decimal)

end
