(* ===== verification/Ingress.thy ===== *)
theory Ingress
  imports Rooms Socket Json_Value "HOL-Library.Sublist"
begin

text \<open>
  The sockets of the relay, \<open>ingress.rs\<close>: the announcement a connection starts with, parking it, and
  its two tasks, the reader that routes what arrives and the writer that empties its channel. A
  \<open>relay\<close> is the hub and every connection that was ever parked; each step is one section of the code
  between two awaits, so the connections interleave. The JSON reader of the announcement is a
  parameter, and the channels are the bounded queues of theory \<open>Rooms\<close>.
\<close>

section \<open>The announcement\<close>

record hello =
  he_role :: string
  he_room :: string
  he_proto :: "(u16 \<times> u16) option"

datatype hello_event = HelloTimeout | HelloEnded | HelloFailed | HelloText string | HelloOther

definition hello_matches :: "hello \<Rightarrow> role \<Rightarrow> bool" where
  "hello_matches he role \<longleftrightarrow>
     he_role he = ''daemon'' \<and> role = RoleDaemon \<or> he_role he = ''client'' \<and> role = RoleClient"

definition read_hello :: "(string \<Rightarrow> hello option) \<Rightarrow> role \<Rightarrow> hello_event \<Rightarrow> string + hello" where
  "read_hello parse endpoint ev =
     (case ev of
        HelloTimeout \<Rightarrow> Inl ''handshake timed out''
      | HelloEnded \<Rightarrow> Inl ''connection closed before the handshake''
      | HelloFailed \<Rightarrow> Inl ''connection failed during the handshake''
      | HelloOther \<Rightarrow> Inl ''the first message must be the handshake''
      | HelloText text \<Rightarrow>
          (case parse text of
             None \<Rightarrow> Inl ''handshake is not valid JSON''
           | Some he \<Rightarrow>
               if he_room he = [] then Inl ''handshake carries_only no room id''
               else if \<not> hello_matches he endpoint then Inl ''the announced role does not match this endpoint''
               else if (case he_proto he of None \<Rightarrow> False | Some (major, minor) \<Rightarrow> major \<noteq> WIRE_MAJOR)
               then Inl ''incompatible wire major version''
               else Inr he))"

definition reject_text :: "string \<Rightarrow> string" where
  "reject_text reason =
     ''{'' @ [QUOTE] @ ''type'' @ [QUOTE] @ '':'' @ [QUOTE] @ ''reject'' @ [QUOTE] @ '',''
     @ [QUOTE] @ ''reason'' @ [QUOTE] @ '':'' @ [QUOTE] @ reason @ [QUOTE] @ ''}''"

definition ready_text :: string where
  "ready_text = ''{'' @ [QUOTE] @ ''type'' @ [QUOTE] @ '':'' @ [QUOTE] @ ''ready'' @ [QUOTE] @ ''}''"

definition close_text :: "string \<Rightarrow> string" where
  "close_text reason =
     ''{'' @ [QUOTE] @ ''type'' @ [QUOTE] @ '':'' @ [QUOTE] @ ''close'' @ [QUOTE] @ '',''
     @ [QUOTE] @ ''reason'' @ [QUOTE] @ '':'' @ [QUOTE] @ reason @ [QUOTE] @ ''}''"

fun park_reason :: "park_error \<Rightarrow> string" where
  "park_reason NoDaemon = ''no daemon is serving this room''"
| "park_reason (AtCapacity n) = ''relay is at capacity''"
| "park_reason (TooManyClients n) = ''room holds too many clients''"
| "park_reason Gone = ''room is gone''"

section \<open>Connections\<close>

datatype phase = Greeting | Routing | Left

record peer =
  pe_room :: string
  pe_role :: role
  pe_phase :: phase
  pe_writing :: bool
  pe_received :: "byte list list"
  pe_sent :: "ws_sent list"

record relay =
  rl_hub :: "queue hub"
  rl_peers :: "u64 \<Rightarrow> peer option"
  rl_rejected :: "string list"

definition relay_new :: "nat \<Rightarrow> relay" where
  "relay_new max_rooms = \<lparr>rl_hub = hub_new max_rooms, rl_peers = (\<lambda>_. None), rl_rejected = []\<rparr>"

definition with_peer :: "u64 \<Rightarrow> (peer \<Rightarrow> peer) \<Rightarrow> relay \<Rightarrow> relay" where
  "with_peer i f rl = rl\<lparr>rl_peers := (rl_peers rl)(i := map_option f (rl_peers rl i))\<rparr>"

definition sends_out :: "u64 \<Rightarrow> ws_sent list \<Rightarrow> relay \<Rightarrow> relay" where
  "sends_out i ms = with_peer i (\<lambda>p. p\<lparr>pe_sent := pe_sent p @ ms\<rparr>)"

text \<open>The receiving half of a connection's channel is dropped: the hub's next send finds it closed.\<close>

definition drop_receiver :: "u64 \<Rightarrow> queue hub \<Rightarrow> queue hub" where
  "drop_receiver i h =
     h\<lparr>hub_channels := (hub_channels h)(i := map_option (\<lambda>q. q\<lparr>q_receiver_alive := False\<rparr>) (hub_channels h i))\<rparr>"

definition stop_writer :: "u64 \<Rightarrow> relay \<Rightarrow> relay" where
  "stop_writer i rl = with_peer i (\<lambda>p. p\<lparr>pe_writing := False\<rparr>) (rl\<lparr>rl_hub := drop_receiver i (rl_hub rl)\<rparr>)"

section \<open>A connection arrives\<close>

definition arrive :: "(string \<Rightarrow> hello option) \<Rightarrow> role \<Rightarrow> hello_event \<Rightarrow> relay \<Rightarrow> relay" where
  "arrive parse role ev rl =
     (case read_hello parse role ev of
        Inl reason \<Rightarrow> rl\<lparr>rl_rejected := rl_rejected rl @ [reject_text reason]\<rparr>
      | Inr he \<Rightarrow>
          (case park queue_ops (he_room he) role (rl_hub rl) of
             (Inl e, h) \<Rightarrow> rl\<lparr>rl_hub := h, rl_rejected := rl_rejected rl @ [reject_text (park_reason e)]\<rparr>
           | (Inr i, h) \<Rightarrow>
               rl\<lparr>rl_hub := h, rl_peers := (rl_peers rl)(i \<mapsto>
                    \<lparr>pe_room = he_room he, pe_role = role, pe_phase = Greeting, pe_writing = False,
                     pe_received = [], pe_sent = []\<rparr>)\<rparr>))"

text \<open>Sending \<open>ready\<close>: on success the two tasks start, on failure the connection is only unparked.\<close>

definition greet :: "u64 \<Rightarrow> bool \<Rightarrow> peer \<Rightarrow> relay \<Rightarrow> relay" where
  "greet i sent p rl =
     (if sent then with_peer i (\<lambda>p. p\<lparr>pe_phase := Routing, pe_writing := True\<rparr>) (sends_out i [SentText ready_text] rl)
      else stop_writer i (with_peer i (\<lambda>p. p\<lparr>pe_phase := Left\<rparr>)
             (rl\<lparr>rl_hub := snd (unpark (pe_room p) (pe_role p) i (rl_hub rl))\<rparr>)))"

section \<open>The reader\<close>

datatype read_event = ReadBinary "byte list" | ReadText | ReadPing | ReadEnd

text \<open>The end of the loop, under one lock: unpark, and release a daemon that is left alone.\<close>

definition leave_hub :: "string \<Rightarrow> role \<Rightarrow> u64 \<Rightarrow> queue hub \<Rightarrow> queue hub" where
  "leave_hub room_id role i h =
     (case unpark room_id role i h of
        (LastClient, h') \<Rightarrow> snd (release_daemon queue_ops room_id h')
      | (_, h') \<Rightarrow> h')"

definition leave :: "u64 \<Rightarrow> peer \<Rightarrow> relay \<Rightarrow> relay" where
  "leave i p rl =
     stop_writer i (with_peer i (\<lambda>p. p\<lparr>pe_phase := Left\<rparr>)
       (rl\<lparr>rl_hub := leave_hub (pe_room p) (pe_role p) i (rl_hub rl)\<rparr>))"

definition read_on :: "u64 \<Rightarrow> read_event \<Rightarrow> peer \<Rightarrow> relay \<Rightarrow> relay" where
  "read_on i ev p rl =
     (case ev of
        ReadBinary bytes \<Rightarrow>
          (let rl = with_peer i (\<lambda>p. p\<lparr>pe_received := pe_received p @ [bytes]\<rparr>) rl in
           case validate_frame bytes of
             Inl reason \<Rightarrow> leave i p rl
           | Inr _ \<Rightarrow>
               (case route queue_ops (pe_room p) (pe_role p) i bytes (rl_hub rl) of
                  (Inl e, h) \<Rightarrow> leave i p (rl\<lparr>rl_hub := h\<rparr>)
                | (Inr n, h) \<Rightarrow> rl\<lparr>rl_hub := h\<rparr>))
      | ReadText \<Rightarrow> leave i p rl
      | ReadPing \<Rightarrow> rl
      | ReadEnd \<Rightarrow> leave i p rl)"

section \<open>The writer\<close>

definition put_queue :: "u64 \<Rightarrow> queue \<Rightarrow> relay \<Rightarrow> relay" where
  "put_queue i q rl = rl\<lparr>rl_hub := (rl_hub rl)\<lparr>hub_channels := (hub_channels (rl_hub rl))(i \<mapsto> q)\<rparr>\<rparr>"

definition in_hub :: "u64 \<Rightarrow> peer \<Rightarrow> queue hub \<Rightarrow> bool" where
  "in_hub i p h \<longleftrightarrow>
     (case bt_get (hub_rooms h) (pe_room p) of None \<Rightarrow> False | Some r \<Rightarrow> find_conn r (pe_role p) i \<noteq> None)"

text \<open>
  One turn: the next message is sent, with \<open>ok\<close> the outcome of the send; a failed send ends the
  task, a close is sent and ends it, and so does the end of a channel the hub no longer holds.
\<close>

definition write_on :: "u64 \<Rightarrow> bool \<Rightarrow> peer \<Rightarrow> relay \<Rightarrow> relay option" where
  "write_on i ok p rl =
     (case hub_channels (rl_hub rl) i of
        None \<Rightarrow> None
      | Some q \<Rightarrow>
          (case q_items q of
             Frame bytes # items \<Rightarrow>
               (let rl = put_queue i (q\<lparr>q_items := items\<rparr>) rl in
                Some (if ok then sends_out i [SentBinary bytes] rl else stop_writer i rl))
           | Close reason # items \<Rightarrow>
               Some (stop_writer i (sends_out i ((if ok then [SentText (close_text reason)] else []) @ [SentClose])
                      (put_queue i (q\<lparr>q_items := items\<rparr>) rl)))
           | [] \<Rightarrow> if in_hub i p (rl_hub rl) then None else Some (stop_writer i (sends_out i [SentClose] rl))))"

definition tick_on :: "u64 \<Rightarrow> bool \<Rightarrow> relay \<Rightarrow> relay" where
  "tick_on i ok rl = (if ok then sends_out i [SentPing] rl else stop_writer i rl)"

section \<open>The relay as a machine\<close>

text \<open>The counter of connection ids is a \<open>u64\<close>: the steps are those before it would wrap.\<close>

inductive relay_step :: "(string \<Rightarrow> hello option) \<Rightarrow> relay \<Rightarrow> relay \<Rightarrow> bool" for parse where
  relay_arrive: "hub_next_id (rl_hub rl) \<noteq> - 1 \<Longrightarrow> relay_step parse rl (arrive parse role ev rl)"
| relay_greet: "rl_peers rl i = Some p \<Longrightarrow> pe_phase p = Greeting \<Longrightarrow> relay_step parse rl (greet i sent p rl)"
| relay_read: "rl_peers rl i = Some p \<Longrightarrow> pe_phase p = Routing \<Longrightarrow> relay_step parse rl (read_on i ev p rl)"
| relay_write: "rl_peers rl i = Some p \<Longrightarrow> pe_writing p \<Longrightarrow> write_on i ok p rl = Some rl' \<Longrightarrow> relay_step parse rl rl'"
| relay_tick: "rl_peers rl i = Some p \<Longrightarrow> pe_writing p \<Longrightarrow> relay_step parse rl (tick_on i ok rl)"

section \<open>The table, seen as seats\<close>

text \<open>
  Who sits where: the ids on one side of a room. Each operation of the hub is one change of this
  function.
\<close>

definition seats :: "'ch hub \<Rightarrow> string \<Rightarrow> role \<Rightarrow> u64 list" where
  "seats h k role =
     (case bt_get (hub_rooms h) k of None \<Rightarrow> [] | Some r \<Rightarrow> map conn_id (targets r (peer_role role)))"

lemma peer_role_twice [simp]: "peer_role (peer_role role) = role" "peer_role role \<noteq> role" "role \<noteq> peer_role role"
  by (cases role; simp)+

lemma find_conn_seats:
  "bt_get (hub_rooms h) k = Some r \<Longrightarrow> find_conn r role i \<noteq> None \<longleftrightarrow> i \<in> set (seats h k role)"
  by (cases role) (auto simp: seats_def find_None_iff split: option.splits)

lemma seats_room: "i \<in> set (seats h k role) \<Longrightarrow> \<exists>r. bt_get (hub_rooms h) k = Some r"
  by (cases "bt_get (hub_rooms h) k") (simp_all add: seats_def)

lemma seats_same_rooms: "hub_rooms h' = hub_rooms h \<Longrightarrow> seats h' = seats h"
  by (simp add: seats_def fun_eq_iff)

lemma seats_park_error:
  "bt_ok (hub_rooms h) \<Longrightarrow> fst (park ops k role h) = Inl e \<Longrightarrow> snd (park ops k role h) = h"
  by (rule park_error_keeps)

lemma seats_put:
  assumes "bt_ok (hub_rooms h)"
  shows "seats (h\<lparr>hub_rooms := bt_put k r (hub_rooms h)\<rparr>) =
    (seats h)(k := (\<lambda>role. map conn_id (targets r (peer_role role))))"
proof (intro ext)
  fix k' role
  show "seats (h\<lparr>hub_rooms := bt_put k r (hub_rooms h)\<rparr>) k' role =
      ((seats h)(k := (\<lambda>role. map conn_id (targets r (peer_role role))))) k' role"
    by (simp add: seats_def bt_get_put [OF assms])
qed

lemma seats_del:
  "seats (h\<lparr>hub_rooms := bt_del k (hub_rooms h)\<rparr>) = (seats h)(k := (\<lambda>role. []))"
proof (intro ext)
  fix k' role
  show "seats (h\<lparr>hub_rooms := bt_del k (hub_rooms h)\<rparr>) k' role = ((seats h)(k := (\<lambda>role. []))) k' role"
    by (simp add: seats_def bt_get_del)
qed

definition taken :: "u64 \<Rightarrow> role \<Rightarrow> u64 list \<Rightarrow> u64 list" where
  "taken i role xs = (case role of RoleDaemon \<Rightarrow> [i] | RoleClient \<Rightarrow> xs @ [i])"

lemma seats_park:
  assumes h: "hub_inv h" and park: "park ops k role h = (Inr i, h')"
  shows "i = hub_next_id h"
    and "hub_channels h' = (hub_channels h)(i := Some (ch_new ops FRAME_QUEUE))"
    and "hub_next_id h' = i + 1"
    and "seats h' = (seats h)(k := (seats h k)(role := taken i role (seats h k role)))"
proof -
  obtain r where r: "i = hub_next_id h" "h' = parked ops k r h"
    and absent: "bt_get (hub_rooms h) k = None \<longrightarrow> role = RoleDaemon \<and> length (hub_rooms h) < hub_max_rooms h
         \<and> r = \<lparr>rm_daemon = Some \<lparr>conn_id = i\<rparr>, rm_clients = []\<rparr>"
    and present: "\<forall>r0. bt_get (hub_rooms h) k = Some r0 \<longrightarrow> join_room role i r0 = Inr r"
    using park_ok [OF hub_invD(1) [OF h] park] by (elim exE conjE) (rule that)
  show "i = hub_next_id h" by (rule r(1))
  show "hub_channels h' = (hub_channels h)(i := Some (ch_new ops FRAME_QUEUE))" "hub_next_id h' = i + 1"
    by (simp_all add: r parked_def)
  have s: "seats h' = (seats h)(k := (\<lambda>role. map conn_id (targets r (peer_role role))))"
    unfolding r(2) parked_def seats_put [OF hub_invD(1) [OF h], symmetric] by (rule seats_same_rooms) simp
  have "map conn_id (targets r (peer_role q)) = ((seats h k)(role := taken i role (seats h k role))) q" for q
  proof (cases "bt_get (hub_rooms h) k")
    case None
    with absent show ?thesis by (cases q) (simp_all add: seats_def taken_def)
  next
    case (Some r0)
    with present have "join_room role i r0 = Inr r" by simp
    then show ?thesis using Some
      by (cases role; cases q) (auto simp: join_room_def seats_def taken_def split: if_splits)
  qed
  then show "seats h' = (seats h)(k := (seats h k)(role := taken i role (seats h k role)))"
    by (simp add: s fun_eq_iff)
qed

lemma seats_unpark:
  assumes "hub_inv h"
  shows "seats (snd (unpark k role i h)) = (seats h)(k := (seats h k)(role := filter (\<lambda>j. j \<noteq> i) (seats h k role)))"
proof (cases "bt_get (hub_rooms h) k")
  case None
  then show ?thesis by (auto simp: unpark_def seats_def fun_eq_iff)
next
  case (Some r)
  obtain d r' where l: "leave_room role i r = (d, r')" by fastforce
  have r': "map conn_id (targets r' (peer_role q)) = ((seats h k)(role := filter (\<lambda>j. j \<noteq> i) (seats h k role))) q" for q
    using l Some by (cases role; cases q)
      (auto simp: leave_room_def seats_def filter_map o_def Let_def split: option.splits if_splits)
  have e: "room_empty r' \<Longrightarrow> map conn_id (targets r' q) = []" for q
    by (cases q) (simp_all add: room_empty_def)
  have "seats (put_or_forget k r' h) = (seats h)(k := (\<lambda>role. map conn_id (targets r' (peer_role role))))"
    using e by (simp add: put_or_forget_def seats_del seats_put [OF hub_invD(1) [OF assms]])
  then show ?thesis using Some l r' by (auto simp: unpark_def fun_eq_iff)
qed

lemma seats_release:
  assumes "hub_inv h"
  shows "seats (snd (release_daemon ops k h)) = (seats h)(k := (seats h k)(RoleDaemon := []))"
proof (cases "bt_get (hub_rooms h) k")
  case None
  then show ?thesis by (auto simp: release_daemon_def seats_def fun_eq_iff)
next
  case (Some r)
  let ?h1 = "case rm_daemon r of None \<Rightarrow> h | Some c \<Rightarrow> snd (send_to ops (conn_id c) (Close SESSION_OVER) h)"
  have h1: "hub_rooms ?h1 = hub_rooms h" by (simp split: option.splits)
  then have s: "seats ?h1 = seats h" and ok: "bt_ok (hub_rooms ?h1)"
    using seats_same_rooms [OF h1] hub_invD(1) [OF assms] by simp_all
  have "map conn_id (targets (r\<lparr>rm_daemon := None\<rparr>) (peer_role q)) = ((seats h k)(RoleDaemon := [])) q" for q
    using Some by (cases q) (simp_all add: seats_def)
  moreover have "rm_clients r = [] \<Longrightarrow> ((seats h k)(RoleDaemon := [])) q = []" for q
    using Some by (cases q) (simp_all add: seats_def)
  ultimately show ?thesis
    using Some by (auto simp: release_daemon_def Let_def seats_del seats_put [OF ok] s fun_eq_iff)
qed

section \<open>What flows through the relay\<close>

fun frames_of :: "ws_sent list \<Rightarrow> byte list list" where
  "frames_of [] = []"
| "frames_of (m # ms) = (case m of SentBinary bs \<Rightarrow> [bs] | _ \<Rightarrow> []) @ frames_of ms"

fun queued_frames :: "outbound list \<Rightarrow> byte list list" where
  "queued_frames [] = []"
| "queued_frames (x # xs) = (case x of Frame bs \<Rightarrow> [bs] | Close r \<Rightarrow> []) @ queued_frames xs"

lemma frames_of_append [simp]: "frames_of (ms @ ns) = frames_of ms @ frames_of ns"
  by (induction ms) simp_all

lemma queued_frames_append [simp]: "queued_frames (xs @ ys) = queued_frames xs @ queued_frames ys"
  by (induction xs) simp_all

definition valid_frame :: "byte list \<Rightarrow> bool" where
  "valid_frame bs \<longleftrightarrow> (case validate_frame bs of Inl _ \<Rightarrow> False | Inr _ \<Rightarrow> True)"

definition received :: "relay \<Rightarrow> u64 \<Rightarrow> byte list list" where
  "received rl j = (case rl_peers rl j of None \<Rightarrow> [] | Some p \<Rightarrow> filter valid_frame (pe_received p))"

definition written :: "relay \<Rightarrow> u64 \<Rightarrow> byte list list" where
  "written rl i = (case rl_peers rl i of None \<Rightarrow> [] | Some p \<Rightarrow> frames_of (pe_sent p))"

definition pending :: "queue hub \<Rightarrow> u64 \<Rightarrow> byte list list" where
  "pending h i = (case hub_channels h i of None \<Rightarrow> [] | Some q \<Rightarrow> queued_frames (q_items q))"

text \<open>The frames \<open>bss\<close> came from the other side of the room of \<open>i\<close>: each has a sender there, and what
  one sender contributed is a part of what it sent, in its order, no frame twice.\<close>

definition opposite :: "relay \<Rightarrow> u64 \<Rightarrow> u64 \<Rightarrow> bool" where
  "opposite rl i j \<longleftrightarrow> (\<exists>p q. rl_peers rl i = Some p \<and> rl_peers rl j = Some q
     \<and> pe_room q = pe_room p \<and> pe_role q = peer_role (pe_role p))"

definition from_the_other_side :: "relay \<Rightarrow> u64 \<Rightarrow> byte list list \<Rightarrow> bool" where
  "from_the_other_side rl i bss \<longleftrightarrow>
     (\<exists>tagged. map snd tagged = bss
        \<and> (\<forall>t \<in> set tagged. opposite rl i (fst t))
        \<and> (\<forall>j. subseq (map snd (filter (\<lambda>t. fst t = j) tagged)) (received rl j)))"

lemma from_the_other_sideE:
  assumes "from_the_other_side rl i bss"
  obtains tagged where "map snd tagged = bss" "\<forall>t \<in> set tagged. opposite rl i (fst t)"
    "\<forall>j. subseq (map snd (filter (\<lambda>t. fst t = j) tagged)) (received rl j)"
  using assms unfolding from_the_other_side_def by (elim exE conjE) simp

lemma from_the_other_sideI:
  "map snd tagged = bss \<Longrightarrow> (\<And>t. t \<in> set tagged \<Longrightarrow> opposite rl i (fst t)) \<Longrightarrow>
   (\<And>j. subseq (map snd (filter (\<lambda>t. fst t = j) tagged)) (received rl j)) \<Longrightarrow> from_the_other_side rl i bss"
  unfolding from_the_other_side_def by (intro exI [of _ tagged] conjI) auto

lemma subseq_of_map:
  assumes "subseq ys (map f xs)"
  obtains zs where "subseq zs xs" and "map f zs = ys"
  using assms by (metis nths_map subseq_conv_nths)

lemma flow_mono:
  assumes "from_the_other_side rl i bss" and "subseq cs bss"
    and "\<And>j. subseq (received rl j) (received rl' j)"
    and "\<And>j. opposite rl i j \<Longrightarrow> opposite rl' i j"
  shows "from_the_other_side rl' i cs"
proof -
  from assms(1) obtain tagged where t: "map snd tagged = bss" "\<forall>t \<in> set tagged. opposite rl i (fst t)"
    "\<forall>j. subseq (map snd (filter (\<lambda>t. fst t = j) tagged)) (received rl j)"
    by (rule from_the_other_sideE)
  from assms(2) t(1) obtain ts where ts: "subseq ts tagged" "map snd ts = cs" using subseq_of_map by metis
  have sub: "subseq (map snd (filter (\<lambda>t. fst t = j) ts)) (received rl' j)" for j
    by (rule subseq_order.order_trans [OF subseq_order.order_trans [OF subseq_map [OF subseq_filter [OF ts(1)]] t(3) [rule_format]] assms(3)])
  have "opposite rl' i (fst x)" if "x \<in> set ts" for x
  proof -
    have "x \<in> set tagged" using list_emb_set [OF ts(1) that] by metis
    then show ?thesis using t(2) assms(4) by blast
  qed
  with ts(2) sub show ?thesis by (intro from_the_other_sideI [of ts]) auto
qed

lemma flow_snoc:
  assumes "from_the_other_side rl i bss" and "received rl' j = received rl j @ [bs]"
    and "\<And>k. k \<noteq> j \<Longrightarrow> received rl' k = received rl k"
    and "\<And>k. opposite rl i k \<Longrightarrow> opposite rl' i k" and "opposite rl' i j"
  shows "from_the_other_side rl' i (bss @ [bs])"
proof -
  from assms(1) obtain tagged where t: "map snd tagged = bss" "\<forall>t \<in> set tagged. opposite rl i (fst t)"
    "\<forall>j. subseq (map snd (filter (\<lambda>t. fst t = j) tagged)) (received rl j)"
    by (rule from_the_other_sideE)
  let ?ts = "tagged @ [(j, bs)]"
  have "subseq (map snd (filter (\<lambda>t. fst t = k) ?ts)) (received rl' k)" for k
    using t(3) [rule_format, of k] assms(2,3) by (cases "k = j") auto
  with t(1,2) assms(4,5) show ?thesis by (intro from_the_other_sideI [of ?ts]) auto
qed

lemma flow_Nil: "from_the_other_side rl i []"
  by (auto simp: from_the_other_side_def)

section \<open>The invariant of the relay\<close>

definition close_reasons :: "string set" where
  "close_reasons = {SESSION_OVER, ''peer is not keeping up''}"

definition own_texts :: "string set" where
  "own_texts = insert ready_text (close_text ` close_reasons)"

definition seated :: "relay \<Rightarrow> bool" where
  "seated rl \<longleftrightarrow>
     (\<forall>k role i. i \<in> set (seats (rl_hub rl) k role) \<longrightarrow>
        (\<exists>p. rl_peers rl i = Some p \<and> pe_room p = k \<and> pe_role p = role \<and> pe_phase p \<noteq> Left))
     \<and> (\<forall>i p. rl_peers rl i = Some p \<longrightarrow> pe_role p = RoleClient \<longrightarrow> pe_phase p \<noteq> Left \<longrightarrow>
          i \<in> set (seats (rl_hub rl) (pe_room p) RoleClient))"

definition honest :: "relay \<Rightarrow> bool" where
  "honest rl \<longleftrightarrow>
     (\<forall>i p t. rl_peers rl i = Some p \<longrightarrow> SentText t \<in> set (pe_sent p) \<longrightarrow> t \<in> own_texts)
     \<and> (\<forall>i q r. hub_channels (rl_hub rl) i = Some q \<longrightarrow> Close r \<in> set (q_items q) \<longrightarrow> r \<in> close_reasons)"

definition known_ids :: "relay \<Rightarrow> bool" where
  "known_ids rl \<longleftrightarrow>
     (\<forall>i. rl_peers rl i \<noteq> None \<longrightarrow> i < hub_next_id (rl_hub rl))
     \<and> (\<forall>i. hub_channels (rl_hub rl) i \<noteq> None \<longleftrightarrow> rl_peers rl i \<noteq> None)"

definition carries_only :: "relay \<Rightarrow> bool" where
  "carries_only rl \<longleftrightarrow> (\<forall>i. from_the_other_side rl i (written rl i @ pending (rl_hub rl) i))"

definition relay_inv :: "relay \<Rightarrow> bool" where
  "relay_inv rl \<longleftrightarrow> hub_inv (rl_hub rl) \<and> seated rl \<and> honest rl \<and> known_ids rl \<and> carries_only rl"

lemma relay_new_inv: "relay_inv (relay_new n)"
  using hub_inv_new [of n] by (simp add: relay_inv_def relay_new_def seated_def honest_def known_ids_def carries_only_def
      seats_def written_def pending_def hub_new_def flow_Nil)

text \<open>
  What a channel may do under a step that forwards nothing: frames leave its front, those in \<open>fs\<close>
  to be sent, and only a fixed close is added.
\<close>

fun calm :: "byte list list \<Rightarrow> queue option \<Rightarrow> queue option \<Rightarrow> bool" where
  "calm fs (Some q) (Some q') \<longleftrightarrow>
     (\<forall>r. Close r \<in> set (q_items q') \<longrightarrow> Close r \<in> set (q_items q) \<or> r \<in> close_reasons)
     \<and> subseq (fs @ queued_frames (q_items q')) (queued_frames (q_items q))"
| "calm fs None None \<longleftrightarrow> fs = []"
| "calm fs _ _ \<longleftrightarrow> False"

lemma calm_refl [simp]: "calm [] c c"
  by (cases c) simp_all

lemma calm_trans: "calm fs c c1 \<Longrightarrow> calm [] c1 c2 \<Longrightarrow> calm fs c c2"
proof (cases c; cases c1; cases c2; simp)
  fix q q1 q2 :: queue
  assume a: "(\<forall>r. Close r \<in> set (q_items q1) \<longrightarrow> Close r \<in> set (q_items q) \<or> r \<in> close_reasons)
      \<and> subseq (fs @ queued_frames (q_items q1)) (queued_frames (q_items q))"
    and b: "(\<forall>r. Close r \<in> set (q_items q2) \<longrightarrow> Close r \<in> set (q_items q1) \<or> r \<in> close_reasons)
      \<and> subseq (queued_frames (q_items q2)) (queued_frames (q_items q1))"
  then have "subseq (fs @ queued_frames (q_items q2)) (fs @ queued_frames (q_items q1))"
    by (intro list_emb_append_mono) simp_all
  with a b show "(\<forall>r. Close r \<in> set (q_items q2) \<longrightarrow> Close r \<in> set (q_items q) \<or> r \<in> close_reasons)
      \<and> subseq (fs @ queued_frames (q_items q2)) (queued_frames (q_items q))"
    using subseq_order.order_trans by blast
qed

lemma calm_weaken: "calm fs c c' \<Longrightarrow> calm [] c c'"
  by (cases c; cases c'; simp) (meson subseq_append_le_same_iff list_emb_append2 subseq_order.order_trans subseq_order.order_refl)

definition sent_by :: "u64 \<Rightarrow> ws_sent list \<Rightarrow> u64 \<Rightarrow> byte list list" where
  "sent_by i ms j = (if j = i then frames_of ms else [])"

lemma sent_by_none [simp]: "frames_of ms = [] \<Longrightarrow> sent_by i ms j = []"
  by (simp add: sent_by_def)

definition calmer :: "u64 \<Rightarrow> ws_sent list \<Rightarrow> queue hub \<Rightarrow> queue hub \<Rightarrow> bool" where
  "calmer i ms h h' \<longleftrightarrow> hub_next_id h' = hub_next_id h
     \<and> (\<forall>j. calm (sent_by i ms j) (hub_channels h j) (hub_channels h' j))"

lemma calmer_same: "hub_channels h' = hub_channels h \<Longrightarrow> hub_next_id h' = hub_next_id h \<Longrightarrow> calmer i [] h h'"
  by (simp add: calmer_def)

lemma calmer_trans: "calmer i ms h h1 \<Longrightarrow> calmer i [] h1 h2 \<Longrightarrow> calmer i ms h h2"
  unfolding calmer_def by (auto intro: calm_trans)

text \<open>
  One lemma for every step of a connection \<open>i\<close> that forwards nothing new: the tables may lose it, it
  may write only what was queued for it, and only a fixed text is added.
\<close>

definition quiet :: "u64 \<Rightarrow> relay \<Rightarrow> relay \<Rightarrow> bool" where
  "quiet i rl rl' \<longleftrightarrow>
     hub_next_id (rl_hub rl') = hub_next_id (rl_hub rl)
     \<and> (\<exists>p p'. rl_peers rl i = Some p \<and> rl_peers rl' = (rl_peers rl)(i \<mapsto> p') \<and> pe_room p' = pe_room p
          \<and> pe_role p' = pe_role p \<and> (pe_phase p = Left \<longrightarrow> pe_phase p' = Left)
          \<and> (\<forall>t. SentText t \<in> set (pe_sent p') \<longrightarrow> SentText t \<in> set (pe_sent p) \<or> t \<in> own_texts)
          \<and> (\<forall>k role. set (seats (rl_hub rl') k role) \<subseteq> set (seats (rl_hub rl) k role) - (if pe_phase p' = Left then {i} else {}))
          \<and> (\<forall>k. set (seats (rl_hub rl) k RoleClient) - (if pe_phase p' = Left then {i} else {})
                \<subseteq> set (seats (rl_hub rl') k RoleClient)))
     \<and> (\<forall>j. calm [] (hub_channels (rl_hub rl) j) (hub_channels (rl_hub rl') j))
     \<and> (\<forall>j. subseq (received rl j) (received rl' j))
     \<and> (\<forall>j. subseq (written rl' j @ pending (rl_hub rl') j) (written rl j @ pending (rl_hub rl) j))"

lemma quiet_inv:
  assumes inv: "relay_inv rl" and q: "quiet i rl rl'" and h': "hub_inv (rl_hub rl')"
  shows "relay_inv rl'"
proof -
  from q obtain p p' where nid: "hub_next_id (rl_hub rl') = hub_next_id (rl_hub rl)"
    and p: "rl_peers rl i = Some p" "rl_peers rl' = (rl_peers rl)(i \<mapsto> p')" "pe_room p' = pe_room p"
      "pe_role p' = pe_role p" "pe_phase p = Left \<longrightarrow> pe_phase p' = Left"
    and sent: "\<And>t. SentText t \<in> set (pe_sent p') \<Longrightarrow> SentText t \<in> set (pe_sent p) \<or> t \<in> own_texts"
    and seats: "\<And>k role. set (seats (rl_hub rl') k role) \<subseteq> set (seats (rl_hub rl) k role) - (if pe_phase p' = Left then {i} else {})"
    and keeps: "\<And>k. set (seats (rl_hub rl) k RoleClient) - (if pe_phase p' = Left then {i} else {})
                \<subseteq> set (seats (rl_hub rl') k RoleClient)"
    and chs: "\<And>j. calm [] (hub_channels (rl_hub rl) j) (hub_channels (rl_hub rl') j)"
    and flows: "\<And>j. subseq (received rl j) (received rl' j)"
      "\<And>j. subseq (written rl' j @ pending (rl_hub rl') j) (written rl j @ pending (rl_hub rl) j)"
    unfolding quiet_def by (elim exE conjE) simp
  from inv have s: "seated rl" and ho: "honest rl" and kn: "known_ids rl" and c: "carries_only rl" by (simp_all add: relay_inv_def)
  have "seated rl'"
    unfolding seated_def
  proof (intro conjI allI impI)
    fix k role j assume j: "j \<in> set (seats (rl_hub rl') k role)"
    then have "j \<in> set (seats (rl_hub rl) k role)" using seats by blast
    then obtain p0 where "rl_peers rl j = Some p0" "pe_room p0 = k" "pe_role p0 = role" "pe_phase p0 \<noteq> Left"
      using s unfolding seated_def by blast
    moreover have "j = i \<Longrightarrow> pe_phase p' \<noteq> Left" using j seats [of k role] by (auto split: if_splits)
    ultimately show "\<exists>p. rl_peers rl' j = Some p \<and> pe_room p = k \<and> pe_role p = role \<and> pe_phase p \<noteq> Left"
      using p by (cases "j = i") auto
  next
    fix j p0 assume a: "rl_peers rl' j = Some p0" "pe_role p0 = RoleClient" "pe_phase p0 \<noteq> Left"
    then have "j \<in> set (seats (rl_hub rl) (pe_room p0) RoleClient)"
      using s p unfolding seated_def by (cases "j = i") auto
    then show "j \<in> set (seats (rl_hub rl') (pe_room p0) RoleClient)"
      using keeps [of "pe_room p0"] a p by (cases "j = i"; cases "pe_phase p' = Left") auto
  qed
  moreover have "honest rl'"
    unfolding honest_def
  proof (intro conjI allI impI)
    fix j p0 t assume "rl_peers rl' j = Some p0" "SentText t \<in> set (pe_sent p0)"
    then show "t \<in> own_texts" using ho p sent unfolding honest_def by (cases "j = i") auto
  next
    fix j q r assume "hub_channels (rl_hub rl') j = Some q" "Close r \<in> set (q_items q)"
    then show "r \<in> close_reasons" using ho chs [of j] unfolding honest_def
      by (cases "hub_channels (rl_hub rl) j") auto
  qed
  moreover have "known_ids rl'"
  proof -
    have "(hub_channels (rl_hub rl') j \<noteq> None) = (hub_channels (rl_hub rl) j \<noteq> None)" for j
      using chs [of j] by (cases "hub_channels (rl_hub rl) j"; cases "hub_channels (rl_hub rl') j") simp_all
    then show ?thesis using kn p(1,2) by (auto simp: known_ids_def nid)
  qed
  moreover have "carries_only rl'"
    unfolding carries_only_def
  proof
    fix j
    have o: "opposite rl j k \<Longrightarrow> opposite rl' j k" for k using p by (auto simp: opposite_def)
    show "from_the_other_side rl' j (written rl' j @ pending (rl_hub rl') j)"
      by (rule flow_mono [OF _ flows(2) flows(1) o]) (use c in \<open>simp_all add: carries_only_def\<close>)
  qed
  ultimately show ?thesis using h' by (simp add: relay_inv_def)
qed

lemma calmer_close: "r \<in> close_reasons \<Longrightarrow> calmer i [] h (snd (send_to queue_ops k (Close r) h))"
  by (auto simp: calmer_def send_to_def queue_ops_def Let_def split: option.splits)

lemma calmer_drop: "calmer i [] h (drop_receiver k h)"
  by (cases "hub_channels h k") (auto simp: calmer_def drop_receiver_def)

lemma calmer_leave_hub: "calmer i [] h (leave_hub k role j h)"
proof -
  have u: "calmer i [] h (snd (unpark k role j h))"
    by (rule calmer_same) (auto simp: unpark_def put_or_forget_def case_prod_unfold Let_def split: option.splits)
  have c: "calmer i [] h' (case rm_daemon r of None \<Rightarrow> h'
      | Some c \<Rightarrow> snd (send_to queue_ops (conn_id c) (Close SESSION_OVER) h'))" for h' r
    by (cases "rm_daemon r") (auto intro: calmer_same calmer_close simp: close_reasons_def)
  have "calmer i [] h' (snd (release_daemon queue_ops k h'))" for h'
  proof (cases "bt_get (hub_rooms h') k")
    case None
    then show ?thesis by (simp add: release_daemon_def calmer_same)
  next
    case (Some r)
    show ?thesis by (rule calmer_trans [OF c calmer_same]) (simp_all add: release_daemon_def Some Let_def)
  qed
  from calmer_trans [OF u this] u show ?thesis
    by (cases "unpark k role j h"; cases "fst (unpark k role j h)") (simp_all add: leave_hub_def)
qed

lemma quietI:
  assumes p: "rl_peers rl i = Some p" and p': "rl_peers rl' = (rl_peers rl)(i \<mapsto> p')"
    and same: "pe_room p' = pe_room p" "pe_role p' = pe_role p" "pe_received p' = pe_received p"
      "pe_phase p = Left \<longrightarrow> pe_phase p' = Left"
    and ms: "pe_sent p' = pe_sent p @ ms" "\<And>t. SentText t \<in> set ms \<Longrightarrow> t \<in> own_texts"
    and seats: "\<And>k role. set (seats (rl_hub rl') k role) \<subseteq> set (seats (rl_hub rl) k role) - (if pe_phase p' = Left then {i} else {})"
    and keeps: "\<And>k. set (seats (rl_hub rl) k RoleClient) - (if pe_phase p' = Left then {i} else {})
                \<subseteq> set (seats (rl_hub rl') k RoleClient)"
    and hub: "calmer i ms (rl_hub rl) (rl_hub rl')"
  shows "quiet i rl rl'"
proof -
  have c: "calm (sent_by i ms j) (hub_channels (rl_hub rl) j) (hub_channels (rl_hub rl') j)" for j
    using hub by (simp add: calmer_def)
  have chs: "calm [] (hub_channels (rl_hub rl) j) (hub_channels (rl_hub rl') j)" for j by (rule calm_weaken [OF c])
  have nid: "hub_next_id (rl_hub rl') = hub_next_id (rl_hub rl)" using hub by (simp add: calmer_def)
  have r: "received rl' j = received rl j" for j using p p' same by (simp add: received_def)
  have w: "written rl' j = written rl j @ sent_by i ms j" for j
    using p p' ms by (simp add: written_def sent_by_def)
  have "subseq (sent_by i ms j @ pending (rl_hub rl') j) (pending (rl_hub rl) j)" for j
    using c [of j] by (cases "hub_channels (rl_hub rl) j"; cases "hub_channels (rl_hub rl') j") (simp_all add: pending_def)
  then have "subseq (written rl' j @ pending (rl_hub rl') j) (written rl j @ pending (rl_hub rl) j)" for j
    by (simp add: w subseq_append')
  moreover have "\<And>t. SentText t \<in> set (pe_sent p') \<Longrightarrow> SentText t \<in> set (pe_sent p) \<or> t \<in> own_texts"
    using ms by auto
  ultimately show ?thesis
    unfolding quiet_def using nid p p' same seats keeps chs
    by (intro conjI exI [of _ p] exI [of _ p'] allI impI) (simp_all only: r subseq_order.order_refl)
qed

section \<open>Every step keeps it\<close>

lemma calmer_texts: "frames_of ms = [] \<Longrightarrow> calmer i [] h h' \<Longrightarrow> calmer i ms h h'"
  by (simp add: calmer_def)

lemma relay_parts [simp]:
  "rl_hub (with_peer i f rl) = rl_hub rl" "rl_hub (sends_out i ms rl) = rl_hub rl"
  "rl_hub (stop_writer i rl) = drop_receiver i (rl_hub rl)"
  "rl_peers (with_peer i f rl) = (rl_peers rl)(i := map_option f (rl_peers rl i))"
  "rl_peers (sends_out i ms rl) = (rl_peers rl)(i := map_option (\<lambda>p. p\<lparr>pe_sent := pe_sent p @ ms\<rparr>) (rl_peers rl i))"
  "rl_peers (stop_writer i rl) = (rl_peers rl)(i := map_option (\<lambda>p. p\<lparr>pe_writing := False\<rparr>) (rl_peers rl i))"
  "rl_peers (put_queue i q rl) = rl_peers rl"
  by (simp_all add: with_peer_def sends_out_def stop_writer_def put_queue_def)

lemma drop_receiver_parts [simp]:
  "hub_rooms (drop_receiver i h) = hub_rooms h" "hub_next_id (drop_receiver i h) = hub_next_id h"
  "seats (drop_receiver i h) = seats h"
proof -
  show r: "hub_rooms (drop_receiver i h) = hub_rooms h" "hub_next_id (drop_receiver i h) = hub_next_id h"
    by (simp_all add: drop_receiver_def)
  show "seats (drop_receiver i h) = seats h" by (rule seats_same_rooms [OF r(1)])
qed

lemma drop_receiver_inv [simp]: "hub_inv h \<Longrightarrow> hub_inv (drop_receiver i h)"
  unfolding drop_receiver_def by (rule hub_inv_channels) auto

lemma leave_hub_seats:
  assumes "hub_inv h"
  shows "set (seats (leave_hub k role i h) k' role') \<subseteq> set (seats h k' role') - (if k' = k \<and> role' = role then {i} else {})"
    and "set (seats h k' RoleClient) - {i} \<subseteq> set (seats (leave_hub k role i h) k' RoleClient)"
    and "hub_inv (leave_hub k role i h)"
proof -
  let ?u = "snd (unpark k role i h)"
  have u: "hub_inv ?u" by (rule unpark_inv [OF assms])
  have l: "leave_hub k role i h = ?u \<or> leave_hub k role i h = snd (release_daemon queue_ops k ?u)"
    by (cases "unpark k role i h"; cases "fst (unpark k role i h)") (simp_all add: leave_hub_def)
  then show "hub_inv (leave_hub k role i h)" using u release_daemon_inv by metis
  have su: "set (seats ?u k' role') \<subseteq> set (seats h k' role') - (if k' = k \<and> role' = role then {i} else {})"
    "set (seats h k' RoleClient) - {i} \<subseteq> set (seats ?u k' RoleClient)"
    by (auto simp: seats_unpark [OF assms])
  have sr: "set (seats (snd (release_daemon queue_ops k ?u)) k' role') \<subseteq> set (seats ?u k' role')"
    "seats (snd (release_daemon queue_ops k ?u)) k' RoleClient = seats ?u k' RoleClient"
    by (simp_all add: seats_release [OF u])
  show "set (seats (leave_hub k role i h) k' role') \<subseteq> set (seats h k' role') - (if k' = k \<and> role' = role then {i} else {})"
    using l
  proof
    assume "leave_hub k role i h = ?u"
    with su(1) show ?thesis by simp
  next
    assume "leave_hub k role i h = snd (release_daemon queue_ops k ?u)"
    with subset_trans [OF sr(1) su(1)] show ?thesis by simp
  qed
  show "set (seats h k' RoleClient) - {i} \<subseteq> set (seats (leave_hub k role i h) k' RoleClient)"
    using l su(2) sr(2) by (elim disjE) simp_all
qed

lemma only_own_seat:
  assumes "relay_inv rl" and "rl_peers rl i = Some p" and "i \<in> set (seats (rl_hub rl) k role)"
  shows "k = pe_room p" and "role = pe_role p"
  using assms unfolding relay_inv_def seated_def by fastforce+

lemma quiet_leaving:
  assumes inv: "relay_inv rl" and p: "rl_peers rl i = Some p" and p': "rl_peers rl' = (rl_peers rl)(i \<mapsto> p')"
    and same: "pe_room p' = pe_room p" "pe_role p' = pe_role p" "pe_received p' = pe_received p"
      "pe_phase p' = Left" "pe_sent p' = pe_sent p"
    and seats: "\<And>k role. set (seats (rl_hub rl') k role) \<subseteq> set (seats (rl_hub rl) k role) - (if k = pe_room p \<and> role = pe_role p then {i} else {})"
    and keeps: "\<And>k. set (seats (rl_hub rl) k RoleClient) - {i} \<subseteq> set (seats (rl_hub rl') k RoleClient)"
    and hub: "calmer i [] (rl_hub rl) (rl_hub rl')" and h': "hub_inv (rl_hub rl')"
  shows "relay_inv rl'"
proof (rule quiet_inv [OF inv _ h'])
  show "quiet i rl rl'"
  proof (rule quietI [OF p p' same(1-3), where ms = "[]"])
    fix k role
    have "i \<notin> set (seats (rl_hub rl') k role)"
    proof
      assume i: "i \<in> set (seats (rl_hub rl') k role)"
      then have "i \<in> set (seats (rl_hub rl) k role)" using seats by blast
      from only_own_seat [OF inv p this] i seats [of k role] show False by auto
    qed
    then show "set (seats (rl_hub rl') k role) \<subseteq> set (seats (rl_hub rl) k role) - (if pe_phase p' = Left then {i} else {})"
      using seats [of k role] same(4) by auto
  qed (use same keeps hub in auto)
qed

lemma leave_inv:
  assumes inv: "relay_inv rl" and p0: "rl_peers rl i = Some p0" "pe_room p0 = pe_room p" "pe_role p0 = pe_role p"
  shows "relay_inv (leave i p rl)"
proof -
  have h: "hub_inv (rl_hub rl)" using inv by (simp add: relay_inv_def)
  show ?thesis
    by (rule quiet_leaving [OF inv p0(1), where p' = "p0\<lparr>pe_phase := Left, pe_writing := False\<rparr>"])
      (use p0 leave_hub_seats [OF h] calmer_trans [OF calmer_leave_hub calmer_drop] in \<open>simp_all add: leave_def\<close>)
qed

lemma greet_inv:
  assumes inv: "relay_inv rl" and p: "rl_peers rl i = Some p" "pe_phase p = Greeting"
  shows "relay_inv (greet i sent p rl)"
proof -
  have h: "hub_inv (rl_hub rl)" using inv by (simp add: relay_inv_def)
  show ?thesis
  proof (cases sent)
    case True
    have "quiet i rl (greet i sent p rl)"
      by (rule quietI [OF p(1), where ms = "[SentText ready_text]"
            and p' = "p\<lparr>pe_sent := pe_sent p @ [SentText ready_text], pe_phase := Routing, pe_writing := True\<rparr>"])
        (use p True in \<open>simp_all add: greet_def own_texts_def calmer_texts calmer_same\<close>)
    then show ?thesis by (rule quiet_inv [OF inv]) (use h True in \<open>simp add: greet_def\<close>)
  next
    case False
    have u: "calmer i [] (rl_hub rl) (snd (unpark k role j (rl_hub rl)))" for k role j
      by (rule calmer_same) (auto simp: unpark_def put_or_forget_def case_prod_unfold Let_def split: option.splits)
    show ?thesis
      by (rule quiet_leaving [OF inv p(1), where p' = "p\<lparr>pe_phase := Left, pe_writing := False\<rparr>"])
        (use p False unpark_inv [OF h] calmer_trans [OF u calmer_drop] in
          \<open>auto simp: greet_def seats_unpark [OF h]\<close>)
  qed
qed

lemma quiet_stays:
  assumes inv: "relay_inv rl" and p: "rl_peers rl i = Some p" and p': "rl_peers rl' = (rl_peers rl)(i \<mapsto> p')"
    and same: "pe_room p' = pe_room p" "pe_role p' = pe_role p" "pe_received p' = pe_received p" "pe_phase p' = pe_phase p"
    and ms: "pe_sent p' = pe_sent p @ ms" "\<And>t. SentText t \<in> set ms \<Longrightarrow> t \<in> own_texts"
    and seats: "seats (rl_hub rl') = seats (rl_hub rl)" and hub: "calmer i ms (rl_hub rl) (rl_hub rl')"
  shows "quiet i rl rl'"
proof (rule quietI [OF p p' same(1-3) _ ms _ _ hub])
  have "pe_phase p = Left \<Longrightarrow> i \<notin> set (seats (rl_hub rl) k role)" for k role
    using inv p unfolding relay_inv_def seated_def by fastforce
  then show "set (seats (rl_hub rl') k role) \<subseteq> set (seats (rl_hub rl) k role) - (if pe_phase p' = Left then {i} else {})" for k role
    by (auto simp: seats same)
qed (auto simp: seats same)

lemma tick_inv:
  assumes inv: "relay_inv rl" and p: "rl_peers rl i = Some p"
  shows "relay_inv (tick_on i ok rl)"
proof -
  have h: "hub_inv (rl_hub rl)" using inv by (simp add: relay_inv_def)
  have "quiet i rl (tick_on i ok rl)"
  proof (cases ok)
    case True
    show ?thesis
      by (rule quiet_stays [OF inv p, where ms = "[SentPing]" and p' = "p\<lparr>pe_sent := pe_sent p @ [SentPing]\<rparr>"])
        (use p True in \<open>simp_all add: tick_on_def calmer_same calmer_texts\<close>)
  next
    case False
    show ?thesis
      by (rule quiet_stays [OF inv p, where ms = "[]" and p' = "p\<lparr>pe_writing := False\<rparr>"])
        (use p False in \<open>simp_all add: tick_on_def calmer_drop\<close>)
  qed
  then show ?thesis by (rule quiet_inv [OF inv]) (use h in \<open>simp add: tick_on_def\<close>)
qed

lemma put_queue_hub:
  assumes "hub_inv (rl_hub rl)"
  shows "hub_inv (rl_hub (put_queue i q rl))" and "seats (rl_hub (put_queue i q rl)) = seats (rl_hub rl)"
proof -
  show "hub_inv (rl_hub (put_queue i q rl))"
    unfolding put_queue_def by simp (rule hub_inv_channels [OF assms], auto)
  show "seats (rl_hub (put_queue i q rl)) = seats (rl_hub rl)"
    by (rule seats_same_rooms) (simp add: put_queue_def)
qed

lemma pop_calmer:
  assumes "hub_channels (rl_hub rl) i = Some q" and "q_items q = x # items"
    and "frames_of ms = [] \<or> (\<exists>bs. x = Frame bs \<and> frames_of ms = [bs])"
  shows "calmer i ms (rl_hub rl) (rl_hub (put_queue i (q\<lparr>q_items := items\<rparr>) rl))"
  using assms by (auto simp: calmer_def put_queue_def sent_by_def split: outbound.splits)

lemma write_inv:
  assumes inv: "relay_inv rl" and p: "rl_peers rl i = Some p" and w: "write_on i ok p rl = Some rl'"
  shows "relay_inv rl'"
proof -
  have h: "hub_inv (rl_hub rl)" using inv by (simp add: relay_inv_def)
  obtain q where q: "hub_channels (rl_hub rl) i = Some q" using w by (auto simp: write_on_def split: option.splits)
  show ?thesis
  proof (cases "q_items q")
    case Nil
    then have rl': "rl' = stop_writer i (sends_out i [SentClose] rl)"
      using w q by (simp add: write_on_def split: if_splits)
    have "quiet i rl rl'"
      by (rule quiet_stays [OF inv p, where ms = "[SentClose]"
            and p' = "p\<lparr>pe_sent := pe_sent p @ [SentClose], pe_writing := False\<rparr>"])
        (use p in \<open>simp_all add: rl' calmer_texts calmer_drop\<close>)
    then show ?thesis by (rule quiet_inv [OF inv]) (use h in \<open>simp add: rl'\<close>)
  next
    case (Cons x items)
    let ?rl = "put_queue i (q\<lparr>q_items := items\<rparr>) rl"
    note pop = pop_calmer [OF q Cons] and hub = put_queue_hub [OF h, of i "q\<lparr>q_items := items\<rparr>"]
    show ?thesis
    proof (cases x)
      case (Frame bs)
      have "quiet i rl rl'"
      proof (cases ok)
        case True
        then have rl': "rl' = sends_out i [SentBinary bs] ?rl" using w q Cons Frame by (simp add: write_on_def Let_def)
        show ?thesis
          by (rule quiet_stays [OF inv p, where ms = "[SentBinary bs]" and p' = "p\<lparr>pe_sent := pe_sent p @ [SentBinary bs]\<rparr>"])
            (use p Frame pop in \<open>simp_all add: rl' hub\<close>)
      next
        case False
        then have rl': "rl' = stop_writer i ?rl" using w q Cons Frame by (simp add: write_on_def Let_def)
        show ?thesis
          by (rule quiet_stays [OF inv p, where ms = "[]" and p' = "p\<lparr>pe_writing := False\<rparr>"])
            (use p calmer_trans [OF pop calmer_drop] in \<open>simp_all add: rl' hub\<close>)
      qed
      then show ?thesis by (rule quiet_inv [OF inv])
          (use w q Cons Frame hub in \<open>auto simp: write_on_def Let_def split: if_splits\<close>)
    next
      case (Close r)
      let ?ms = "(if ok then [SentText (close_text r)] else []) @ [SentClose]"
      have rl': "rl' = stop_writer i (sends_out i ?ms ?rl)" using w q Cons Close by (simp add: write_on_def)
      have "r \<in> close_reasons" using inv q Cons Close unfolding relay_inv_def honest_def by fastforce
      then have t: "close_text r \<in> own_texts" by (simp add: own_texts_def)
      have "quiet i rl rl'"
        by (rule quiet_stays [OF inv p, where ms = ?ms and p' = "p\<lparr>pe_sent := pe_sent p @ ?ms, pe_writing := False\<rparr>"])
          (use p t calmer_trans [OF pop calmer_drop] in \<open>simp_all add: rl' hub split: if_splits\<close>)
      then show ?thesis by (rule quiet_inv [OF inv]) (use hub in \<open>simp add: rl'\<close>)
    qed
  qed
qed

lemma deliver_queue:
  "queued_frames (q_items (deliver_effect queue_ops bs q)) = queued_frames (q_items q)
   \<or> queued_frames (q_items (deliver_effect queue_ops bs q)) = queued_frames (q_items q) @ [bs]"
  "Close r \<in> set (q_items (deliver_effect queue_ops bs q)) \<Longrightarrow> Close r \<in> set (q_items q) \<or> r \<in> close_reasons"
  by (auto simp: deliver_effect_def queue_ops_def close_reasons_def split: if_splits)

lemma invalid_received:
  assumes inv: "relay_inv rl" and p: "rl_peers rl i = Some p"
  shows "relay_inv (with_peer i (\<lambda>p. p\<lparr>pe_received := pe_received p @ [bs]\<rparr>) rl)" (is "relay_inv ?rl")
proof (rule quiet_inv [OF inv])
  have h: "hub_inv (rl_hub rl)" and seated: "seated rl" using inv by (simp_all add: relay_inv_def)
  then show "hub_inv (rl_hub ?rl)" by simp
  let ?p = "p\<lparr>pe_received := pe_received p @ [bs]\<rparr>"
  have "pe_phase p = Left \<Longrightarrow> i \<notin> set (seats (rl_hub rl) k role)" for k role
    using seated p unfolding seated_def by fastforce
  moreover have "subseq (received rl j) (received ?rl j)" "written ?rl j = written rl j" for j
    using p by (auto simp: received_def written_def)
  ultimately show "quiet i rl ?rl"
    unfolding quiet_def using p by (intro conjI exI [of _ p] exI [of _ ?p] allI impI) auto
qed

lemma route_inv:
  assumes inv: "relay_inv rl" and p: "rl_peers rl i = Some p" and v: "valid_frame bs"
    and seat: "i \<in> set (seats (rl_hub rl) (pe_room p) (pe_role p))"
  shows "relay_inv ((with_peer i (\<lambda>p. p\<lparr>pe_received := pe_received p @ [bs]\<rparr>) rl)
    \<lparr>rl_hub := snd (route queue_ops (pe_room p) (pe_role p) i bs (rl_hub rl))\<rparr>)" (is "relay_inv ?rl")
proof -
  let ?h = "rl_hub rl" and ?p = "p\<lparr>pe_received := pe_received p @ [bs]\<rparr>"
  have h: "hub_inv ?h" and s: "seated rl" and ho: "honest rl" and kn: "known_ids rl" and c: "carries_only rl"
    using inv by (simp_all add: relay_inv_def)
  obtain r where r: "bt_get (hub_rooms ?h) (pe_room p) = Some r"
    using seats_room [OF seat] by blast
  then have f: "find_conn r (pe_role p) i \<noteq> None" using find_conn_seats [OF r] seat by blast
  let ?ids = "map conn_id (targets r (pe_role p))"
  define h' where "h' = snd (route queue_ops (pe_room p) (pe_role p) i bs ?h)"
  have ch: "hub_channels h' j = (if j \<in> set ?ids then map_option (deliver_effect queue_ops bs) (hub_channels ?h j)
      else hub_channels ?h j)" and nid: "hub_next_id h' = hub_next_id ?h" for j
    unfolding h'_def route_eq [OF h r f] Let_def by simp_all
  have sts: "seats h' = seats ?h" by (rule seats_same_rooms) (simp add: h'_def route_keeps_rooms(1) [OF h])
  have peers: "rl_peers ?rl = (rl_peers rl)(i \<mapsto> ?p)" and hub: "rl_hub ?rl = h'" by (simp_all add: p h'_def)
  have ids: "set ?ids = set (seats ?h (pe_room p) (peer_role (pe_role p)))" by (simp add: seats_def r)
  have opp: "opposite rl j k \<Longrightarrow> opposite ?rl j k" for j k using p by (auto simp: opposite_def)
  have rec: "received ?rl i = received rl i @ [bs]" "j \<noteq> i \<Longrightarrow> received ?rl j = received rl j" for j
    using p v by (auto simp: received_def)
  then have mono: "subseq (received rl j) (received ?rl j)" for j by (cases "j = i") auto
  have wr: "written ?rl j = written rl j" for j using p by (auto simp: written_def)
  have "from_the_other_side ?rl j (written ?rl j @ pending h' j)" for j
  proof -
    have cj: "from_the_other_side rl j (written rl j @ pending ?h j)" using c by (simp add: carries_only_def)
    have same: "from_the_other_side ?rl j (written ?rl j @ pending h' j)" if "pending h' j = pending ?h j"
      by (rule flow_mono [OF cj _ mono opp]) (simp_all add: that wr)
    consider "pending h' j = pending ?h j" | "j \<in> set ?ids" "pending h' j = pending ?h j @ [bs]"
      using ch [of j] deliver_queue(1) [of bs] by (cases "hub_channels ?h j") (auto simp: pending_def split: if_splits)
    then show ?thesis
    proof cases
      case 2
      then obtain q where q: "rl_peers rl j = Some q" "pe_room q = pe_room p" "pe_role q = peer_role (pe_role p)"
        using s ids unfolding seated_def by metis
      then have "opposite ?rl j i" using p by (auto simp: opposite_def)
      from flow_snoc [OF cj rec(1) rec(2) opp this] 2 show ?thesis by (simp add: wr)
    qed (rule same)
  qed
  then have "carries_only ?rl" unfolding carries_only_def hub by blast
  moreover have "seated ?rl"
    unfolding seated_def hub sts
  proof (intro conjI allI impI)
    fix k role j assume "j \<in> set (seats ?h k role)"
    then obtain p0 where "rl_peers rl j = Some p0" "pe_room p0 = k" "pe_role p0 = role" "pe_phase p0 \<noteq> Left"
      using s unfolding seated_def by blast
    then show "\<exists>p. rl_peers ?rl j = Some p \<and> pe_room p = k \<and> pe_role p = role \<and> pe_phase p \<noteq> Left"
      using p unfolding peers by (cases "j = i") auto
  next
    fix j p0 assume "rl_peers ?rl j = Some p0" "pe_role p0 = RoleClient" "pe_phase p0 \<noteq> Left"
    then show "j \<in> set (seats ?h (pe_room p0) RoleClient)"
      using s p unfolding seated_def peers by (cases "j = i") auto
  qed
  moreover have "known_ids ?rl"
    using kn p unfolding known_ids_def hub nid peers by (auto simp: ch)
  moreover have "honest ?rl"
    unfolding honest_def
  proof (intro conjI allI impI)
    fix j p0 t assume "rl_peers ?rl j = Some p0" "SentText t \<in> set (pe_sent p0)"
    then show "t \<in> own_texts" using ho p unfolding honest_def by (cases "j = i") auto
  next
    fix j q t assume a: "hub_channels (rl_hub ?rl) j = Some q" "Close t \<in> set (q_items q)"
    then obtain q0 where q0: "hub_channels ?h j = Some q0" "q = q0 \<or> q = deliver_effect queue_ops bs q0"
      unfolding hub using ch [of j] by (auto split: if_splits)
    then show "t \<in> close_reasons" using ho a(2) deliver_queue(2) [of t bs q0] unfolding honest_def by blast
  qed
  moreover have "hub_inv (rl_hub ?rl)" unfolding hub h'_def by (rule route_keeps_rooms(2) [OF h])
  ultimately show ?thesis by (simp add: relay_inv_def)
qed

lemma read_inv:
  assumes inv: "relay_inv rl" and p: "rl_peers rl i = Some p"
  shows "relay_inv (read_on i ev p rl)"
proof (cases ev)
  case (ReadBinary bs)
  let ?rl = "with_peer i (\<lambda>p. p\<lparr>pe_received := pe_received p @ [bs]\<rparr>) rl"
  have h: "hub_inv (rl_hub rl)" using inv by (simp add: relay_inv_def)
  have gone: "relay_inv (leave i p ?rl)"
    by (rule leave_inv [OF invalid_received [OF inv p], where ?p0.0 = "p\<lparr>pe_received := pe_received p @ [bs]\<rparr>"])
      (use p in simp_all)
  show ?thesis
  proof (cases "valid_frame bs \<and> i \<in> set (seats (rl_hub rl) (pe_room p) (pe_role p))")
    case True
    then obtain r where r: "bt_get (hub_rooms (rl_hub rl)) (pe_room p) = Some r" "find_conn r (pe_role p) i \<noteq> None"
      using find_conn_seats seats_room by metis
    obtain n where "fst (route queue_ops (pe_room p) (pe_role p) i bs (rl_hub rl)) = Inr n"
      using route_eq [OF h r] by (simp add: Let_def)
    then show ?thesis using route_inv [OF inv p, of bs] True ReadBinary
      by (cases "route queue_ops (pe_room p) (pe_role p) i bs (rl_hub rl)")
        (auto simp: read_on_def Let_def valid_frame_def split: sum.splits)
  next
    case False
    have "route queue_ops (pe_room p) (pe_role p) i bs (rl_hub rl) = (Inl Gone, rl_hub rl)"
      if "i \<notin> set (seats (rl_hub rl) (pe_room p) (pe_role p))"
    proof (rule route_unparked, cases "bt_get (hub_rooms (rl_hub rl)) (pe_room p)")
      case (Some r)
      then show "bt_get (hub_rooms (rl_hub rl)) (pe_room p) = None
          \<or> (\<exists>r. bt_get (hub_rooms (rl_hub rl)) (pe_room p) = Some r \<and> find_conn r (pe_role p) i = None)"
        using that find_conn_seats [OF Some, of "pe_role p" i] by simp
    qed simp
    moreover have "rl\<lparr>rl_hub := rl_hub rl\<rparr> = rl" for rl :: relay by simp
    ultimately show ?thesis using False gone ReadBinary
      by (auto simp: read_on_def Let_def valid_frame_def with_peer_def split: sum.splits)
  qed
qed (use inv leave_inv [OF inv p] in \<open>simp_all add: read_on_def\<close>)

lemma parked_inv:
  assumes inv: "relay_inv rl" and n: "hub_next_id (rl_hub rl) \<noteq> - 1"
    and park: "park queue_ops room role (rl_hub rl) = (Inr i, h')"
  shows "relay_inv (rl\<lparr>rl_hub := h', rl_peers := (rl_peers rl)(i \<mapsto>
    \<lparr>pe_room = room, pe_role = role, pe_phase = Greeting, pe_writing = False, pe_received = [], pe_sent = []\<rparr>)\<rparr>)"
    (is "relay_inv ?rl")
proof -
  let ?h = "rl_hub rl"
  have h: "hub_inv ?h" and s: "seated rl" and ho: "honest rl" and kn: "known_ids rl" and c: "carries_only rl"
    using inv by (simp_all add: relay_inv_def)
  note sp = seats_park [OF h park]
  have fresh: "rl_peers rl i = None" using kn sp(1) by (auto simp: known_ids_def)
  have h': "hub_inv h'" using park_inv [OF h n, of queue_ops room role] park by simp
  have "seated ?rl"
    unfolding seated_def
  proof (intro conjI allI impI)
    fix k q j assume "j \<in> set (seats (rl_hub ?rl) k q)"
    then consider "j = i" "k = room" "q = role" | "j \<in> set (seats ?h k q)"
      by (auto simp: sp(4) taken_def split: if_splits role.splits)
    then show "\<exists>p. rl_peers ?rl j = Some p \<and> pe_room p = k \<and> pe_role p = q \<and> pe_phase p \<noteq> Left"
    proof cases
      case 2
      then obtain p where "rl_peers rl j = Some p" "pe_room p = k" "pe_role p = q" "pe_phase p \<noteq> Left"
        using s unfolding seated_def by blast
      then show ?thesis using fresh by (cases "j = i") auto
    qed simp
  next
    fix j p assume a: "rl_peers ?rl j = Some p" "pe_role p = RoleClient" "pe_phase p \<noteq> Left"
    show "j \<in> set (seats (rl_hub ?rl) (pe_room p) RoleClient)"
    proof (cases "j = i")
      case True
      with a show ?thesis by (auto simp: sp(4) taken_def)
    next
      case False
      with a s have "j \<in> set (seats ?h (pe_room p) RoleClient)" unfolding seated_def by auto
      then show ?thesis by (auto simp: sp(4) taken_def split: role.splits)
    qed
  qed
  moreover have "honest ?rl"
    using ho fresh unfolding honest_def by (auto simp: sp(2) queue_ops_def split: if_splits)
  moreover have "known_ids ?rl"
    using kn less_plus_one [OF n] unfolding known_ids_def
    by (auto simp: sp order.strict_implies_order)
  moreover have "carries_only ?rl"
    unfolding carries_only_def
  proof
    fix j
    have rec: "received ?rl k = received rl k" for k using fresh by (auto simp: received_def)
    have opp: "opposite rl j k \<Longrightarrow> opposite ?rl j k" for k using fresh by (auto simp: opposite_def)
    show "from_the_other_side ?rl j (written ?rl j @ pending (rl_hub ?rl) j)"
    proof (cases "j = i")
      case True
      then show ?thesis by (simp add: written_def pending_def sp(2) queue_ops_def flow_Nil)
    next
      case False
      then have "written ?rl j @ pending (rl_hub ?rl) j = written rl j @ pending ?h j"
        by (simp add: written_def pending_def sp(2))
      moreover have "from_the_other_side rl j (written rl j @ pending ?h j)" using c by (simp add: carries_only_def)
      ultimately show ?thesis using flow_mono [OF _ subseq_order.order_refl _ opp] by (simp add: rec)
    qed
  qed
  ultimately show ?thesis using h' by (simp add: relay_inv_def)
qed

lemma relay_inv_rejected [simp]: "relay_inv (rl\<lparr>rl_rejected := x\<rparr>) = relay_inv rl"
  by (simp add: relay_inv_def seated_def honest_def known_ids_def carries_only_def from_the_other_side_def
      received_def written_def opposite_def)

lemma arrive_inv:
  assumes inv: "relay_inv rl" and n: "hub_next_id (rl_hub rl) \<noteq> - 1"
  shows "relay_inv (arrive parse role ev rl)"
proof (cases "read_hello parse role ev")
  case (Inr he)
  have h: "hub_inv (rl_hub rl)" using inv by (simp add: relay_inv_def)
  obtain res h' where park: "park queue_ops (he_room he) role (rl_hub rl) = (res, h')" by fastforce
  show ?thesis
  proof (cases res)
    case (Inl e)
    then have "h' = rl_hub rl" using park_error_keeps [OF hub_invD(1) [OF h], of queue_ops "he_room he" role e] park by simp
    moreover have "rl\<lparr>rl_hub := rl_hub rl, rl_rejected := x\<rparr> = rl\<lparr>rl_rejected := x\<rparr>" for x by simp
    ultimately show ?thesis using Inr Inl park inv by (simp add: arrive_def)
  next
    case (Inr i)
    with \<open>read_hello parse role ev = Inr he\<close> park parked_inv [OF inv n, of "he_room he" role i h']
    show ?thesis by (simp add: arrive_def)
  qed
qed (use inv in \<open>simp add: arrive_def\<close>)

lemma relay_step_inv: "relay_inv rl \<Longrightarrow> relay_step parse rl rl' \<Longrightarrow> relay_inv rl'"
proof (erule relay_step.cases; hypsubst)
qed (auto simp: arrive_inv greet_inv read_inv write_inv tick_inv)

interpretation sockets: machine "\<lambda>rl. rl = relay_new n" "relay_step parse" relay_inv for n parse
  by unfold_locales (auto simp: relay_new_inv intro: relay_step_inv)

section \<open>Properties\<close>

definition demo_announcement :: "string \<Rightarrow> hello option" where
  "demo_announcement t = Some \<lparr>he_role = t, he_room = ''r1'', he_proto = Some (WIRE_MAJOR, 9)\<rparr>"

definition demo_bytes :: "byte list" where
  "demo_bytes = [68, 82, 0, 0, 0, 1, 0, 0x10, 0, 0, 0, 0, 0, 5, 0, 0, 0, 1, 42]"

abbreviation demo_step :: "relay \<Rightarrow> relay \<Rightarrow> bool" where
  "demo_step \<equiv> relay_step demo_announcement"

definition relay_two :: relay where
  "relay_two = arrive demo_announcement RoleClient (HelloText ''client'')
     (arrive demo_announcement RoleDaemon (HelloText ''daemon'') (relay_new 4))"

definition peer_of :: "role \<Rightarrow> peer" where
  "peer_of role = \<lparr>pe_room = ''r1'', pe_role = role, pe_phase = Routing, pe_writing = True,
     pe_received = [], pe_sent = [SentText ready_text]\<rparr>"

definition relay_greeted :: relay where
  "relay_greeted = greet 2 True (the (rl_peers relay_two 2)) (greet 1 True (the (rl_peers relay_two 1)) relay_two)"

definition relay_routed :: relay where
  "relay_routed = read_on 2 (ReadBinary demo_bytes) (peer_of RoleClient) relay_greeted"

definition relay_written :: relay where
  "relay_written = the (write_on 1 True (peer_of RoleDaemon) relay_routed)"

lemma demo_bytes_valid: "validate_frame demo_bytes = Inr ()"
  by code_simp

definition two_rooms :: "(string, room) btree" where
  "two_rooms = [(''r1'', \<lparr>rm_daemon = Some \<lparr>conn_id = 1\<rparr>, rm_clients = [\<lparr>conn_id = 2\<rparr>]\<rparr>)]"

lemma relay_two_eq:
  "relay_two = \<lparr>rl_hub = \<lparr>hub_rooms = two_rooms, hub_next_id = 3, hub_max_rooms = 4,
       hub_channels = [1 \<mapsto> \<lparr>q_cap = 64, q_items = [], q_receiver_alive = True\<rparr>,
                       2 \<mapsto> \<lparr>q_cap = 64, q_items = [], q_receiver_alive = True\<rparr>]\<rparr>,
     rl_peers = [1 \<mapsto> (peer_of RoleDaemon)\<lparr>pe_phase := Greeting, pe_writing := False, pe_sent := []\<rparr>,
                 2 \<mapsto> (peer_of RoleClient)\<lparr>pe_phase := Greeting, pe_writing := False, pe_sent := []\<rparr>],
     rl_rejected = []\<rparr>"
  by (simp add: relay_two_def arrive_def read_hello_def demo_announcement_def hello_matches_def relay_new_def
      hub_new_def park_absent park_present parked_def join_room_def MAX_DEVICES_PER_ROOM_def queue_ops_def
      FRAME_QUEUE_def bt_put_def two_rooms_def peer_of_def)

lemma relay_greeted_eq:
  "relay_greeted = relay_two\<lparr>rl_peers := [1 \<mapsto> peer_of RoleDaemon, 2 \<mapsto> peer_of RoleClient]\<rparr>"
  by (simp add: relay_greeted_def relay_two_eq greet_def with_peer_def sends_out_def peer_of_def fun_upd_twist)

lemma relay_routed_eq:
  "relay_routed = relay_greeted\<lparr>
     rl_hub := (rl_hub relay_greeted)\<lparr>hub_channels :=
       (hub_channels (rl_hub relay_greeted))(1 \<mapsto> \<lparr>q_cap = 64, q_items = [Frame demo_bytes], q_receiver_alive = True\<rparr>)\<rparr>,
     rl_peers := [1 \<mapsto> peer_of RoleDaemon, 2 \<mapsto> (peer_of RoleClient)\<lparr>pe_received := [demo_bytes]\<rparr>]\<rparr>"
  by (simp add: relay_routed_def relay_greeted_eq relay_two_eq read_on_def demo_bytes_valid route_def
      two_rooms_def peer_of_def with_peer_def deliver_def send_to_def queue_ops_def fun_upd_twist)

lemma relay_written_eq:
  "rl_peers relay_written 1 = Some ((peer_of RoleDaemon)\<lparr>pe_sent := [SentText ready_text, SentBinary demo_bytes]\<rparr>)"
  "write_on 1 True (peer_of RoleDaemon) relay_routed = Some relay_written"
  by (simp_all add: relay_written_def relay_routed_eq relay_greeted_eq relay_two_eq write_on_def put_queue_def
      sends_out_def with_peer_def peer_of_def)

lemma relay_two_reachable: "reachable (\<lambda>rl. rl = relay_new 4) demo_step relay_two"
proof -
  let ?rl = "arrive demo_announcement RoleDaemon (HelloText ''daemon'') (relay_new 4)"
  have n: "hub_next_id (rl_hub (relay_new 4)) \<noteq> - 1" by (simp add: relay_new_def hub_new_def)
  have m: "hub_next_id (rl_hub ?rl) \<noteq> - 1"
    by (simp add: arrive_def read_hello_def demo_announcement_def hello_matches_def relay_new_def hub_new_def
        park_absent parked_def)
  have "reachable (\<lambda>rl. rl = relay_new 4) demo_step ?rl"
    by (rule reach_step [OF reach_init]) (rule refl, rule relay_arrive [OF n])
  then show ?thesis unfolding relay_two_def by (rule reach_step) (rule relay_arrive [OF m])
qed

lemma relay_greeted_reachable: "reachable (\<lambda>rl. rl = relay_new 4) demo_step relay_greeted"
proof -
  have one: "demo_step relay_two (greet 1 True (the (rl_peers relay_two 1)) relay_two)"
    by (rule relay_greet) (simp_all add: relay_two_eq)
  have two: "demo_step (greet 1 True (the (rl_peers relay_two 1)) relay_two) relay_greeted"
    unfolding relay_greeted_def by (rule relay_greet) (simp_all add: relay_two_eq greet_def)
  show ?thesis by (rule reach_step [OF reach_step [OF relay_two_reachable one] two])
qed

lemma relay_written_reachable: "reachable (\<lambda>rl. rl = relay_new 4) demo_step relay_written"
proof -
  have one: "demo_step relay_greeted relay_routed"
    unfolding relay_routed_def by (rule relay_read) (simp_all add: relay_greeted_eq, simp add: peer_of_def)
  have two: "demo_step relay_routed relay_written"
    by (rule relay_write [of _ 1 "peer_of RoleDaemon" True]) (simp_all add: relay_written_eq(2), simp_all add: relay_routed_eq peer_of_def)
  show ?thesis by (rule reach_step [OF reach_step [OF relay_greeted_reachable one] two])
qed

text \<open>
  C7. The relay forwards and nothing else. Whatever connections arrive, fail, interleave and leave, the
  binary messages written to a connection are frames that passed the relay's check and were received
  from connections on the other side of the same room; what one sender contributed is in the order it
  was sent and no frame is delivered twice; and the only texts the relay ever writes to a parked
  connection are the ready message and a close with one of two fixed reasons.
\<close>

theorem relay_forwards_only:
  assumes "reachable (\<lambda>rl. rl = relay_new n) (relay_step parse) rl" and "rl_peers rl i = Some p"
  shows "from_the_other_side rl i (frames_of (pe_sent p))
    \<and> {t. SentText t \<in> set (pe_sent p)}
        \<subseteq> {ready_text, close_text ''session over'', close_text ''peer is not keeping up''}"
proof
  have inv: "relay_inv rl" by (rule sockets.reachable_inv [OF assms(1)])
  then have "from_the_other_side rl i (written rl i @ pending (rl_hub rl) i)" by (simp add: relay_inv_def carries_only_def)
  then show "from_the_other_side rl i (frames_of (pe_sent p))"
    by (rule flow_mono)
      (use assms(2) subseq_append' [of "frames_of (pe_sent p)" "[]"] in \<open>simp_all add: written_def\<close>)
  show "{t. SentText t \<in> set (pe_sent p)} \<subseteq> {ready_text, close_text ''session over'', close_text ''peer is not keeping up''}"
    using inv assms(2) unfolding relay_inv_def honest_def own_texts_def close_reasons_def SESSION_OVER_def by auto
qed

theorem relay_forwards_only_witness:
  "from_the_other_side relay_written 1 [demo_bytes]"
  using relay_forwards_only [OF relay_written_reachable relay_written_eq(1)] by simp

text \<open>
  C9. The relay remembers only the living. A room is in its table only while some connection parked in
  it is still being served, and a client that is being served keeps its place whatever the others
  do; so when every connection has left, nothing is left of any room.
\<close>

theorem relay_forgets:
  assumes "reachable (\<lambda>rl. rl = relay_new n) (relay_step parse) rl"
  shows "(\<forall>k. bt_get (hub_rooms (rl_hub rl)) k \<noteq> None \<longrightarrow>
      (\<exists>i p. rl_peers rl i = Some p \<and> pe_room p = k \<and> pe_phase p \<noteq> Left))
    \<and> (\<forall>i p. rl_peers rl i = Some p \<longrightarrow> pe_role p = RoleClient \<longrightarrow> pe_phase p \<noteq> Left \<longrightarrow>
        i \<in> set (seats (rl_hub rl) (pe_room p) RoleClient))
    \<and> ((\<forall>i p. rl_peers rl i = Some p \<longrightarrow> pe_phase p = Left) \<longrightarrow> hub_rooms (rl_hub rl) = [])"
proof -
  have inv: "relay_inv rl" by (rule sockets.reachable_inv [OF assms])
  then have s: "seated rl" and h: "hub_inv (rl_hub rl)" by (simp_all add: relay_inv_def)
  have live: "\<exists>i p. rl_peers rl i = Some p \<and> pe_room p = k \<and> pe_phase p \<noteq> Left"
    if r: "bt_get (hub_rooms (rl_hub rl)) k = Some r" for k r
  proof -
    have "\<not> room_empty r" using hub_invD(3) [OF h r] by (simp add: room_inv_def)
    then have "seats (rl_hub rl) k RoleDaemon \<noteq> [] \<or> seats (rl_hub rl) k RoleClient \<noteq> []"
      using r by (auto simp: seats_def room_empty_def)
    then obtain role i where "i \<in> set (seats (rl_hub rl) k role)" by (metis hd_in_set)
    then show ?thesis using s unfolding seated_def by blast
  qed
  have "hub_rooms (rl_hub rl) = []" if "\<forall>i p. rl_peers rl i = Some p \<longrightarrow> pe_phase p = Left"
  proof (rule ccontr)
    assume "hub_rooms (rl_hub rl) \<noteq> []"
    then obtain e m where "hub_rooms (rl_hub rl) = e # m" by (cases "hub_rooms (rl_hub rl)") auto
    then have "bt_get (hub_rooms (rl_hub rl)) (fst e) = Some (snd e)" by simp
    from live [OF this] that show False by blast
  qed
  with live s show ?thesis unfolding seated_def by (metis not_None_eq)
qed

theorem relay_forgets_witness:
  "(\<exists>i p. rl_peers relay_written i = Some p \<and> pe_room p = ''r1'' \<and> pe_phase p \<noteq> Left)
    \<and> bt_get (hub_rooms (rl_hub relay_written)) ''r1'' \<noteq> None"
proof -
  have "bt_get (hub_rooms (rl_hub relay_written)) ''r1'' \<noteq> None"
    by (simp add: relay_written_def relay_routed_eq relay_greeted_eq relay_two_eq write_on_def put_queue_def
        sends_out_def with_peer_def two_rooms_def)
  with relay_forgets [OF relay_written_reachable] show ?thesis by blast
qed

text \<open>
  A connection whose \<open>ready\<close> cannot be sent is unparked, and that is all: when the other client of the
  room has left meanwhile, the daemon is not released and waits alone with the session it had.
\<close>

lemma failed_greeting_keeps_idle_daemon:
  "let rl1 = arrive demo_announcement RoleClient (HelloText ''client'') relay_greeted;
       rl2 = read_on 2 ReadEnd (peer_of RoleClient) rl1;
       rl3 = greet 3 False (the (rl_peers rl2 3)) rl2
   in seats (rl_hub rl3) ''r1'' RoleDaemon = [1] \<and> seats (rl_hub rl3) ''r1'' RoleClient = []
     \<and> pending (rl_hub rl3) 1 = [] \<and> map_option q_items (hub_channels (rl_hub rl3) 1) = Some []"
  by (simp add: Let_def relay_greeted_eq relay_two_eq arrive_def read_hello_def demo_announcement_def hello_matches_def
      park_present two_rooms_def join_room_def MAX_DEVICES_PER_ROOM_def parked_def queue_ops_def FRAME_QUEUE_def
      bt_put_def read_on_def leave_def leave_hub_def unpark_def leave_room_def put_or_forget_def room_empty_def
      peer_of_def greet_def stop_writer_def with_peer_def drop_receiver_def seats_def pending_def word_le_nat_alt)

end
