(* ===== verification/Control.thy ===== *)
theory Control
  imports Lifecycle Crashlog Audit_Log Uplink
begin

text \<open>
  The control plane: \<open>control.rs\<close> of the daemon with its message types of \<open>dr-dsh-proto\<close>. A request
  is answered at once, or, for a lifecycle command, by a task that waits for the driver; what the
  driver's handle then answers (theory \<open>Lifecycle\<close>) is an argument of that task. The JSON library,
  the derived conversions and the clock are the record \<open>control_env\<close>.
\<close>

section \<open>Messages\<close>

datatype control_kind =
    KindStatusRequest | KindStatusResponse | KindLifecycleCommand | KindLifecycleResult
  | KindSessionBootstrapRequest | KindSessionBootstrap | KindDeviceRequest | KindDeviceList
  | KindNotification | KindCrashReport | KindCrashReportResult | KindProblem

datatype wire_health = HealthConnected | HealthReconnecting | HealthRejected | HealthUnreachable

record dsh_status =
  st_state :: lifecycle_state
  st_local_url :: "string option"
  st_pid :: "u32 option"
  st_uptime_secs :: "u64 option"
  st_owned :: bool
  st_last_error :: "string option"
  st_relay :: wire_health
  st_protocol :: "u16 \<times> u16"

record crash_report_result =
  cx_accepted :: bool
  cx_stored :: nat
  cx_error :: "string option"

record 'v request =
  rq_kind :: string
  rq_id :: u64
  rq_body :: 'v

datatype reply_body =
    StatusBody dsh_status
  | ResultBody lifecycle_result
  | CrashBody crash_report_result
  | ProblemBody string

record reply =
  rp_kind :: control_kind
  rp_id :: u64
  rp_body :: reply_body

record 'v control_env =
  ce_request :: "byte list \<Rightarrow> 'v request option"
  ce_null :: 'v
  ce_op :: "'v \<Rightarrow> lifecycle_op option"
  ce_report :: "'v \<Rightarrow> string + crash_report"
  ce_values :: "'v value_lib"
  ce_json :: "crash_report json"
  ce_disp :: "io_error \<Rightarrow> string"
  ce_debug :: "string \<Rightarrow> string"
  ce_audit_env :: "string option"
  ce_clock :: "nat option"
  ce_clock' :: "nat option"

section \<open>What the daemon knows\<close>

text \<open>\<open>None\<close> as the relay's state is a lock that a panicking task has poisoned.\<close>

record daemon_facts =
  df_owned :: bool
  df_relay :: "relay_state option"
  df_mode :: mode
  df_snapshot :: lifecycle
  df_state_dir :: string

definition dsh_state :: "daemon_facts \<Rightarrow> lifecycle_state" where
  "dsh_state facts = state_of (df_snapshot facts)"

definition facts_pid :: "daemon_facts \<Rightarrow> u32 option" where
  "facts_pid facts = (case df_snapshot facts of Running pid \<Rightarrow> pid | _ \<Rightarrow> None)"

definition facts_relay :: "daemon_facts \<Rightarrow> relay_state" where
  "facts_relay facts = (case df_relay facts of Some st \<Rightarrow> st | None \<Rightarrow> RelayConnecting)"

fun relay_health :: "relay_state \<Rightarrow> wire_health" where
  "relay_health RelayConnected = HealthConnected"
| "relay_health RelayConnecting = HealthReconnecting"
| "relay_health (RelayReconnecting _ _) = HealthReconnecting"
| "relay_health RelayStopped = HealthReconnecting"
| "relay_health RelayRejected = HealthRejected"

definition status :: "daemon_facts \<Rightarrow> dsh_status" where
  "status facts =
     \<lparr>st_state = dsh_state facts, st_local_url = None, st_pid = facts_pid facts, st_uptime_secs = None,
      st_owned = df_owned facts, st_last_error = None, st_relay = relay_health (facts_relay facts),
      st_protocol = WIRE_VERSION\<rparr>"

section \<open>Handling a message\<close>

fun op_debug :: "lifecycle_op \<Rightarrow> string" where
  "op_debug OpStart = ''Start''" | "op_debug OpStop = ''Stop''" | "op_debug OpRestart = ''Restart''"

fun state_debug :: "lifecycle_state \<Rightarrow> string" where
  "state_debug StStopped = ''Stopped''" | "state_debug StStarting = ''Starting''"
| "state_debug StRunning = ''Running''" | "state_debug StStopping = ''Stopping''"
| "state_debug StFailed = ''Failed''" | "state_debug StAttached = ''Attached''"

definition control_audit :: "'v control_env \<Rightarrow> string \<Rightarrow> audit_outcome \<Rightarrow> string \<Rightarrow> fs \<Rightarrow> fs" where
  "control_audit E directory outcome reason =
     audit_record (ce_values E) (ce_audit_env E) (ce_clock E) (ce_clock' E) directory LifecycleEvent None outcome (Some reason)"

definition stored_now :: "string \<Rightarrow> fs \<Rightarrow> nat" where
  "stored_now directory fs = (case crash_count (crash_path_in directory) fs of Inr n \<Rightarrow> n | Inl _ \<Rightarrow> 0)"

definition take_report :: "'v control_env \<Rightarrow> string \<Rightarrow> 'v \<Rightarrow> fs \<Rightarrow> crash_report_result \<times> fs" where
  "take_report E directory body fs =
     (case ce_report E body of
        Inl error \<Rightarrow>
          (\<lparr>cx_accepted = False, cx_stored = stored_now directory fs,
            cx_error = Some (''this is not a crash report: '' @ error)\<rparr>, fs)
      | Inr report \<Rightarrow>
          (case crash_store (ce_json E) (ce_disp E) directory report fs of
             (Inr count, fs') \<Rightarrow> (\<lparr>cx_accepted = True, cx_stored = count, cx_error = None\<rparr>, fs')
           | (Inl refused, fs') \<Rightarrow>
               (\<lparr>cx_accepted = False, cx_stored = stored_now directory fs',
                 cx_error = Some (refused_reason refused)\<rparr>, fs')))"

datatype handled = Ignored | ReplyNow reply | CommandSpawned lifecycle_op u64

definition handle_lifecycle :: "'v control_env \<Rightarrow> 'v request \<Rightarrow> daemon_facts \<Rightarrow> fs \<Rightarrow> handled \<times> fs" where
  "handle_lifecycle E rq facts fs =
     (case ce_op E (case vl_get (ce_values E) (rq_body rq) ''op'' of Some v \<Rightarrow> v | None \<Rightarrow> ce_null E) of
        None \<Rightarrow>
          (ReplyNow \<lparr>rp_kind = KindProblem, rp_id = rq_id rq, rp_body = ProblemBody
             (''lifecycle_command needs an '' @ [QUOTE] @ ''op'' @ [QUOTE] @ '' of start, stop, or restart'')\<rparr>, fs)
      | Some op \<Rightarrow>
          (case check_permitted (df_mode facts) op of
             Inl reason \<Rightarrow>
               (ReplyNow \<lparr>rp_kind = KindLifecycleResult, rp_id = rq_id rq, rp_body = ResultBody
                  \<lparr>lr_accepted = False, lr_ok = False, lr_state = dsh_state facts, lr_error = Some reason\<rparr>\<rparr>,
                control_audit E (df_state_dir facts) OutcomeRefused (op_debug op @ '': '' @ reason) fs)
           | Inr _ \<Rightarrow> (CommandSpawned op (rq_id rq), fs)))"

definition handle_control :: "'v control_env \<Rightarrow> byte list \<Rightarrow> daemon_facts \<Rightarrow> fs \<Rightarrow> handled \<times> fs" where
  "handle_control E payload facts fs =
     (case ce_request E payload of
        None \<Rightarrow> (Ignored, fs)
      | Some rq \<Rightarrow>
          if rq_kind rq = ''status_request''
          then (ReplyNow \<lparr>rp_kind = KindStatusResponse, rp_id = rq_id rq, rp_body = StatusBody (status facts)\<rparr>, fs)
          else if rq_kind rq = ''lifecycle_command'' then handle_lifecycle E rq facts fs
          else if rq_kind rq = ''crash_report''
          then (let (res, fs') = take_report E (df_state_dir facts) (rq_body rq) fs in
                (ReplyNow \<lparr>rp_kind = KindCrashReportResult, rp_id = rq_id rq, rp_body = CrashBody res\<rparr>, fs'))
          else (ReplyNow \<lparr>rp_kind = KindProblem, rp_id = rq_id rq,
                  rp_body = ProblemBody (''this daemon does not answer '' @ ce_debug E (rq_kind rq))\<rparr>, fs))"

text \<open>The spawned task, once the driver's handle has answered.\<close>

definition answer_command ::
    "'v control_env \<Rightarrow> string \<Rightarrow> lifecycle_op \<Rightarrow> u64 \<Rightarrow> lifecycle_result \<Rightarrow> fs \<Rightarrow> reply \<times> fs" where
  "answer_command E directory op i res fs =
     (\<lparr>rp_kind = KindLifecycleResult, rp_id = i, rp_body = ResultBody res\<rparr>,
      control_audit E directory (if lr_ok res then OutcomeOk else OutcomeFailed)
        (op_debug op @ '': '' @ (case lr_error res of Some e \<Rightarrow> e | None \<Rightarrow> ''done'')
           @ '' ('' @ state_debug (lr_state res) @ '')'') fs)"

text \<open>
  One message and everything sent because of it, with what became of the command it may send to the
  driver, and the state published by then.
\<close>

definition control_exchange ::
    "'v control_env \<Rightarrow> byte list \<Rightarrow> daemon_facts \<Rightarrow> (lifecycle_op \<Rightarrow> lifecycle \<times> fate) \<Rightarrow> fs \<Rightarrow> reply list \<times> fs" where
  "control_exchange E payload facts later fs =
     (case handle_control E payload facts fs of
        (Ignored, fs') \<Rightarrow> ([], fs')
      | (ReplyNow r, fs') \<Rightarrow> ([r], fs')
      | (CommandSpawned op i, fs') \<Rightarrow>
          (case later op of
             (snapshot, fate) \<Rightarrow>
               (let (r, fs'') = answer_command E (df_state_dir facts) op i
                      (handle_command (df_mode facts) snapshot op fate) fs'
                in ([r], fs''))))"

section \<open>Properties\<close>

text \<open>
  Every request is answered exactly once, under its own id, whatever it asks for and whatever becomes
  of the command it sends; what is no request is not answered and changes nothing.
\<close>

theorem control_answers_once:
  "case ce_request E payload of
     None \<Rightarrow> control_exchange E payload facts later fs = ([], fs)
   | Some rq \<Rightarrow> map rp_id (fst (control_exchange E payload facts later fs)) = [rq_id rq]"
  by (simp add: control_exchange_def handle_control_def handle_lifecycle_def take_report_def answer_command_def Let_def
      split: option.split sum.split prod.split)

text \<open>
  C19. The whitelist is closed. A command goes to the driver of DSH exactly when the message is a request
  of kind \<open>lifecycle_command\<close> whose \<open>op\<close> is one of the three operations and the daemon's mode permits
  it; nothing else a peer can send reaches the process.
\<close>

theorem only_the_whitelist_reaches_dsh:
  "fst (handle_control E payload facts fs) = CommandSpawned op i \<longleftrightarrow>
     (\<exists>rq. ce_request E payload = Some rq \<and> rq_id rq = i \<and> rq_kind rq = ''lifecycle_command''
        \<and> ce_op E (case vl_get (ce_values E) (rq_body rq) ''op'' of Some v \<Rightarrow> v | None \<Rightarrow> ce_null E) = Some op
        \<and> permits_lifecycle (df_mode facts))"
proof (cases "ce_request E payload")
  case (Some rq)
  have p: "check_permitted (df_mode facts) op' = Inr u \<longleftrightarrow> permits_lifecycle (df_mode facts)" for op' u
    by (cases "df_mode facts") (simp_all add: check_permitted_def mode_refusal_reason_def permits_lifecycle_def)
  have "fst (handle_lifecycle E rq facts fs) = CommandSpawned op i \<longleftrightarrow>
      rq_id rq = i \<and> ce_op E (case vl_get (ce_values E) (rq_body rq) ''op'' of Some v \<Rightarrow> v | None \<Rightarrow> ce_null E) = Some op
      \<and> permits_lifecycle (df_mode facts)"
    by (cases "ce_op E (case vl_get (ce_values E) (rq_body rq) ''op'' of Some v \<Rightarrow> v | None \<Rightarrow> ce_null E)")
      (auto simp: handle_lifecycle_def p split: sum.splits, use p in force)
  then show ?thesis using Some
    by (simp add: handle_control_def case_prod_beta Let_def)
qed (simp add: handle_control_def)

definition changed_files :: "fs \<Rightarrow> fs \<Rightarrow> string set" where
  "changed_files fs fs' = {q. fs_files fs' q \<noteq> fs_files fs q}"

lemma changed_files_trans: "changed_files fs fs1 \<subseteq> A \<Longrightarrow> changed_files fs1 fs2 \<subseteq> A \<Longrightarrow> changed_files fs fs2 \<subseteq> A"
  unfolding changed_files_def by (rule subsetI) (metis (mono_tags, lifting) mem_Collect_eq subsetD)

lemma append_line_changes: "changed_files fs (snd (append_line p line fs)) \<subseteq> {p}"
  using append_line_outcome [of p line fs "fst (append_line p line fs)" "snd (append_line p line fs)"]
  by (auto simp: changed_files_def)

lemma prune_changes: "changed_files fs (snd (prune V clock p fs)) \<subseteq> {p, with_extension p ''jsonl.tmp''}"
  by (auto simp: prune_def changed_files_def replace_file_def write_file_def rename_file_def Let_def case_prod_beta
      split: sum.splits io_error.splits option.splits if_splits)

definition control_files :: "string \<Rightarrow> string set" where
  "control_files directory =
     {crash_path_in directory, audit_path_in directory, with_extension (audit_path_in directory) ''jsonl.tmp''}"

lemma audit_record_changes:
  "changed_files fs (audit_record V env c c' directory ev dev out reason fs) \<subseteq> control_files directory"
proof -
  let ?p = "audit_path_in directory"
  let ?A = "control_files directory"
  have a: "changed_files fs (snd (append_line ?p line fs)) \<subseteq> ?A" for line fs
    using append_line_changes [of fs ?p line] by (auto simp: control_files_def)
  have r: "changed_files fs (snd (prune V c' ?p fs)) \<subseteq> ?A" for fs
    using prune_changes [of fs V c' ?p] by (auto simp: control_files_def)
  have "changed_files fs (snd (append_and_prune V c c' directory ev dev out reason fs)) \<subseteq> ?A"
  proof (cases "append_line ?p (encode_entry V (audit_entry c ev dev out reason)) fs")
    case (Pair x fs1)
    then show ?thesis using a [of fs "encode_entry V (audit_entry c ev dev out reason)"] changed_files_trans [OF _ r, of fs fs1]
      by (cases x) (simp_all add: append_and_prune_def tr_then_def Let_def)
  qed
  then show ?thesis by (auto simp: audit_record_def changed_files_def)
qed

lemma crash_store_changes:
  "changed_files fs (snd (crash_store js disp directory report fs)) \<subseteq> control_files directory"
proof -
  have a: "changed_files fs (snd (append_line (crash_path_in directory) line fs)) \<subseteq> control_files directory" for line
    using append_line_changes [of fs "crash_path_in directory" line] by (auto simp: control_files_def)
  have none: "changed_files fs fs \<subseteq> control_files directory" by (simp add: changed_files_def)
  show ?thesis
  proof (cases "validate_report js report")
    case (Inr r)
    then show ?thesis using none a [of "projr (to_json js r)"]
      by (cases "append_line (crash_path_in directory) (projr (to_json js r)) fs")
        (auto simp: crash_store_def tr_then_def tr_give_def Let_def split: sum.splits)
  qed (use none in \<open>simp add: crash_store_def tr_then_def tr_give_def\<close>)
qed

lemma control_exchange_changes:
  "changed_files fs (snd (control_exchange E payload facts later fs)) \<subseteq> control_files (df_state_dir facts)"
proof -
  let ?A = "control_files (df_state_dir facts)"
  have none: "changed_files fs fs \<subseteq> ?A" by (simp add: changed_files_def)
  have log: "changed_files fs (control_audit E (df_state_dir facts) out reason fs) \<subseteq> ?A" for out reason
    unfolding control_audit_def by (rule audit_record_changes)
  have report: "changed_files fs (snd (take_report E (df_state_dir facts) body fs)) \<subseteq> ?A" for body
    using none crash_store_changes [of fs "ce_json E" "ce_disp E" "df_state_dir facts" "projr (ce_report E body)"]
    by (auto simp: take_report_def split: sum.splits prod.splits)
  show ?thesis
  proof (cases "ce_request E payload")
    case None
    then show ?thesis using none by (simp add: control_exchange_def handle_control_def)
  next
    case (Some rq)
    show ?thesis
    proof (cases "rq_kind rq = ''lifecycle_command''")
      case True
      then show ?thesis using Some none log
        by (simp add: control_exchange_def handle_control_def handle_lifecycle_def answer_command_def
            split: option.split sum.split prod.split)
    next
      case False
      then show ?thesis using Some none report [of "rq_body rq"]
        by (cases "take_report E (df_state_dir facts) (rq_body rq) fs")
          (simp add: control_exchange_def handle_control_def Let_def)
    qed
  qed
qed

text \<open>
  Answering a client changes nothing on the machine but the daemon's two logs: whatever a message
  holds, no file but the crash log, the audit log and the audit log's temporary file is touched.
\<close>

theorem control_writes_only_its_logs:
  "changed_files fs (snd (control_exchange E payload facts later fs))
     \<subseteq> {crash_path_in (df_state_dir facts), audit_path_in (df_state_dir facts),
        with_extension (audit_path_in (df_state_dir facts)) ''jsonl.tmp''}"
  using control_exchange_changes by (simp add: control_files_def)

section \<open>Commands and the audit log\<close>

definition recorded_outcome :: "lifecycle_result \<Rightarrow> audit_outcome" where
  "recorded_outcome res =
     (if \<not> lr_accepted res then OutcomeRefused else if lr_ok res then OutcomeOk else OutcomeFailed)"

lemma control_audit_holds:
  assumes V: "value_contract (ce_values E)" and h: "log_holds (ce_values E) es (audit_path_in d) fs"
    and f: "fs_fault fs = (\<lambda>_. None)" and env: "ce_audit_env E \<noteq> Some ''0''" and u: "is_utf8 reason"
  shows "log_holds (ce_values E)
     (audit_window (ce_clock' E) (es @ [audit_entry (ce_clock E) LifecycleEvent None out (Some reason)]))
     (audit_path_in d) (control_audit E d out reason fs)"
proof -
  have u': "opt_utf8 None" "opt_utf8 (Some reason)" using u by (simp_all add: opt_utf8_def)
  from append_and_prune_holds [OF V h f u', of "ce_clock E" "ce_clock' E" LifecycleEvent out] env
  show ?thesis by (auto simp: control_audit_def audit_record_def enabled_from_def)
qed

lemma refusal_utf8: "check_permitted m op = Inl reason \<Longrightarrow> is_utf8 (op_debug op @ '': '' @ reason)"
proof -
  assume "check_permitted m op = Inl reason"
  moreover have "is_ascii (op_debug op)" "is_ascii (describe_op op)" by (cases op; simp)+
  ultimately show ?thesis
    by (cases m) (auto simp: check_permitted_def mode_refusal_reason_def intro!: is_utf8_append is_utf8_ascii)
qed

lemma answer_utf8: "opt_utf8 (lr_error res) \<Longrightarrow>
   is_utf8 (op_debug op @ '': '' @ (case lr_error res of Some e \<Rightarrow> e | None \<Rightarrow> ''done'') @ '' ('' @ state_debug st @ '')'')"
proof -
  assume u: "opt_utf8 (lr_error res)"
  have "is_ascii (op_debug op)" "is_ascii (state_debug st)" by (cases op; simp) (cases st; simp)
  then have a: "is_utf8 (op_debug op @ '': '')" "is_utf8 ('' ('' @ state_debug st @ '')'')"
    by (simp_all add: is_utf8_ascii)
  have "is_utf8 (case lr_error res of Some e \<Rightarrow> e | None \<Rightarrow> ''done'')"
    using u by (cases "lr_error res") (simp_all add: opt_utf8_def is_utf8_ascii)
  from is_utf8_append [OF a(1) is_utf8_append [OF this a(2)]] show ?thesis by simp
qed

text \<open>
  The audit log says what the client was told. Over a working file system, a lifecycle command is
  answered with one result, and the audit log then holds one more entry: refused when the command was
  not accepted, ok when it was and succeeded, failed when it did not.
\<close>

theorem commands_are_recorded:
  assumes "value_contract (ce_values E)" and "fs_fault fs = (\<lambda>_. None)" and "ce_audit_env E \<noteq> Some ''0''"
    and "log_holds (ce_values E) es (audit_path_in (df_state_dir facts)) fs"
    and "ce_request E payload = Some rq" and "rq_kind rq = ''lifecycle_command''"
    and "vl_get (ce_values E) (rq_body rq) ''op'' = Some v" and "ce_op E v = Some op"
    and "opt_utf8 (lr_error (handle_command (df_mode facts) (fst (later op)) op (snd (later op))))"
    and "\<forall>r. snd (later op) = Answered r \<longrightarrow> lr_accepted r"
  shows "\<exists>res reason fs'. control_exchange E payload facts later fs =
       ([\<lparr>rp_kind = KindLifecycleResult, rp_id = rq_id rq, rp_body = ResultBody res\<rparr>], fs')
     \<and> (lr_accepted res \<longrightarrow> res = handle_command (df_mode facts) (fst (later op)) op (snd (later op)))
     \<and> log_holds (ce_values E) (audit_window (ce_clock' E)
          (es @ [audit_entry (ce_clock E) LifecycleEvent None (recorded_outcome res) (Some reason)]))
          (audit_path_in (df_state_dir facts)) fs'"
proof (cases "check_permitted (df_mode facts) op")
  case (Inl why)
  let ?res = "\<lparr>lr_accepted = False, lr_ok = False, lr_state = dsh_state facts, lr_error = Some why\<rparr>"
  have "control_exchange E payload facts later fs =
      ([\<lparr>rp_kind = KindLifecycleResult, rp_id = rq_id rq, rp_body = ResultBody ?res\<rparr>],
       control_audit E (df_state_dir facts) OutcomeRefused (op_debug op @ '': '' @ why) fs)"
    using assms Inl by (simp add: control_exchange_def handle_control_def handle_lifecycle_def)
  moreover note control_audit_holds [OF assms(1,4,2,3) refusal_utf8 [OF Inl], of OutcomeRefused]
  moreover have "recorded_outcome ?res = OutcomeRefused" by (simp add: recorded_outcome_def)
  ultimately show ?thesis by (intro exI [of _ ?res] exI conjI) (assumption | simp)+
next
  case (Inr u)
  let ?res = "handle_command (df_mode facts) (fst (later op)) op (snd (later op))"
  let ?reason = "op_debug op @ '': '' @ (case lr_error ?res of Some e \<Rightarrow> e | None \<Rightarrow> ''done'')
      @ '' ('' @ state_debug (lr_state ?res) @ '')''"
  let ?out = "if lr_ok ?res then OutcomeOk else OutcomeFailed"
  have "control_exchange E payload facts later fs =
      ([\<lparr>rp_kind = KindLifecycleResult, rp_id = rq_id rq, rp_body = ResultBody ?res\<rparr>],
       control_audit E (df_state_dir facts) ?out ?reason fs)"
    using assms Inr
    by (simp add: control_exchange_def handle_control_def handle_lifecycle_def answer_command_def case_prod_beta)
  moreover have "lr_accepted ?res" using assms(10) Inr by (auto simp: handle_command_def split: fate.split)
  then have "recorded_outcome ?res = ?out" by (simp add: recorded_outcome_def)
  moreover note control_audit_holds [OF assms(1,4,2,3) answer_utf8 [OF assms(9), of op "lr_state ?res"], of ?out]
  ultimately show ?thesis by (intro exI [of _ ?res] exI [of _ ?reason] exI conjI) (assumption | simp)+
qed

definition demo_control :: "demo_value control_env" where
  "demo_control =
     \<lparr>ce_request = (\<lambda>bytes. if bytes = [] then None
        else Some \<lparr>rq_kind = ''lifecycle_command'', rq_id = 7, rq_body = DObject [(''op'', DString ''stop'')]\<rparr>),
      ce_null = DNull, ce_op = (\<lambda>v. if v = DString ''stop'' then Some OpStop else None),
      ce_report = (\<lambda>v. Inl ''no report''), ce_values = demo_values, ce_json = demo_crash_json,
      ce_disp = (\<lambda>e. ''error''), ce_debug = (\<lambda>s. s), ce_audit_env = None, ce_clock = Some 1000,
      ce_clock' = Some 1001\<rparr>"

definition demo_facts :: "mode \<Rightarrow> daemon_facts" where
  "demo_facts m = \<lparr>df_owned = permits_lifecycle m, df_relay = Some RelayConnected, df_mode = m,
     df_snapshot = Running None, df_state_dir = ''/state''\<rparr>"

theorem commands_are_recorded_witness:
  "\<exists>res fs'. control_exchange demo_control [123] (demo_facts (Attached 3080)) (\<lambda>op. (Running None, NoAnswer)) no_faults =
       ([\<lparr>rp_kind = KindLifecycleResult, rp_id = 7, rp_body = ResultBody res\<rparr>], fs') \<and> \<not> lr_accepted res"
proof -
  let ?later = "\<lambda>op :: lifecycle_op. (Running None, NoAnswer)"
  have "opt_utf8 (lr_error (handle_command (Attached 3080) (Running None) OpStop NoAnswer))"
    using refusal_utf8 [of "Attached 3080" OpStop]
    by (auto simp: handle_command_def check_permitted_def mode_refusal_reason_def opt_utf8_def intro!: is_utf8_ascii)
  then have "\<exists>res reason fs'. control_exchange demo_control [123] (demo_facts (Attached 3080)) ?later no_faults =
       ([\<lparr>rp_kind = KindLifecycleResult, rp_id = 7, rp_body = ResultBody res\<rparr>], fs')
     \<and> (lr_accepted res \<longrightarrow> res = handle_command (Attached 3080) (Running None) OpStop NoAnswer)
     \<and> log_holds demo_values (audit_window (Some 1001)
          ([] @ [audit_entry (Some 1000) LifecycleEvent None (recorded_outcome res) (Some reason)])) (audit_path_in ''/state'') fs'"
    using commands_are_recorded [of demo_control no_faults "[]" "demo_facts (Attached 3080)" "[123]"
        "\<lparr>rq_kind = ''lifecycle_command'', rq_id = 7, rq_body = DObject [(''op'', DString ''stop'')]\<rparr>"
        "DString ''stop''" OpStop ?later] demo_values_contract
    by (simp add: demo_control_def demo_facts_def no_faults_def log_holds_def file_bytes_def as_bytes_def demo_values_def)
  then show ?thesis by (auto simp: handle_command_def check_permitted_def mode_refusal_reason_def)
qed

end
