(* ===== verification/Calendar.thy ===== *)
theory Calendar
  imports Text
begin

text \<open>
  The dates of the audit log's listing: \<open>civil_from_days\<close> and \<open>describe_time\<close> of \<open>lib.rs\<close>. Days and years
  are \<open>int\<close>: every intermediate value stays far inside an \<open>i64\<close>. The reference is the Gregorian
  calendar counted one day at a time.
\<close>

definition civil_from_days :: "int \<Rightarrow> int \<times> int \<times> int" where
  "civil_from_days days =
     (let shifted = days + 719468;
          era = shifted div 146097;
          day_of_era = shifted mod 146097;
          year_of_era = (day_of_era - day_of_era div 1460 + day_of_era div 36524 - day_of_era div 146096) div 365;
          year = year_of_era + era * 400;
          day_of_year = day_of_era - (365 * year_of_era + year_of_era div 4 - year_of_era div 100);
          month_prime = (5 * day_of_year + 2) div 153;
          day = day_of_year - (153 * month_prime + 2) div 5 + 1;
          month = (if month_prime < 10 then month_prime + 3 else month_prime - 9)
      in (year + (if month \<le> 2 then 1 else 0), month, day))"

definition zero_padded :: "nat \<Rightarrow> nat \<Rightarrow> string" where
  "zero_padded w n = replicate (w - length (decimal n)) CHR ''0'' @ decimal n"

definition describe_time :: "nat \<Rightarrow> string" where
  "describe_time at_ms =
     (let secs = at_ms div 1000; days = secs div 86400; of_day = secs mod 86400;
          (year, month, day) = civil_from_days (int days)
      in zero_padded 4 (nat year) @ ''-'' @ zero_padded 2 (nat month) @ ''-'' @ zero_padded 2 (nat day)
         @ ''T'' @ zero_padded 2 (of_day div 3600) @ '':'' @ zero_padded 2 (of_day mod 3600 div 60)
         @ '':'' @ zero_padded 2 (of_day mod 60) @ ''Z'')"

section \<open>The calendar\<close>

definition leap :: "int \<Rightarrow> bool" where
  "leap y \<longleftrightarrow> y mod 4 = 0 \<and> y mod 100 \<noteq> 0 \<or> y mod 400 = 0"

definition month_length :: "int \<Rightarrow> int \<Rightarrow> int" where
  "month_length y m =
     (if m = 2 then (if leap y then 29 else 28) else if m \<in> {4, 6, 9, 11} then 30 else 31)"

fun next_day :: "int \<times> int \<times> int \<Rightarrow> int \<times> int \<times> int" where
  "next_day (y, m, d) =
     (if d < month_length y m then (y, m, d + 1) else if m < 12 then (y, m + 1, 1) else (y + 1, 1, 1))"

fun date_ok :: "int \<times> int \<times> int \<Rightarrow> bool" where
  "date_ok (y, m, d) \<longleftrightarrow> 1 \<le> m \<and> m \<le> 12 \<and> 1 \<le> d \<and> d \<le> month_length y m"

lemma month_length_pos: "28 \<le> month_length y m" "month_length y m \<le> 31"
  by (simp_all add: month_length_def)

lemma next_day_ok: "date_ok x \<Longrightarrow> date_ok (next_day x)"
  using month_length_pos by (cases x) (auto simp: order_trans [of 1 28])

section \<open>The day number of a date\<close>

text \<open>Years that start in March, and the days before one.\<close>

definition days_before :: "int \<Rightarrow> int" where
  "days_before y = 365 * y + y div 4 - y div 100 + y div 400"

definition march_year :: "int \<Rightarrow> int \<Rightarrow> int" where
  "march_year y m = (if m \<le> 2 then y - 1 else y)"

definition march_month :: "int \<Rightarrow> int" where
  "march_month m = (if m \<le> 2 then m + 9 else m - 3)"

fun day_number :: "int \<times> int \<times> int \<Rightarrow> int" where
  "day_number (y, m, d) = days_before (march_year y m) + (153 * march_month m + 2) div 5 + d - 1 - 719468"

lemma div_plus_one:
  assumes "0 < k"
  shows "(y + 1) div k = y div k + (if (y + 1) mod k = 0 then 1 else 0 :: int)"
proof -
  have y: "y = k * (y div k) + y mod k" "0 \<le> y mod k" "y mod k < k" using assms by simp_all
  show ?thesis
  proof (cases "y mod k + 1 = k")
    case True
    have "k * (y div k + 1) + 0 = k * (y div k) + k" by (simp add: distrib_left)
    then have "y + 1 = k * (y div k + 1) + 0" using y(1) True by linarith
    then show ?thesis using int_div_pos_eq [of "y + 1" k "y div k + 1" 0] int_mod_pos_eq [of "y + 1" k "y div k + 1" 0] assms
      by simp
  next
    case False
    then have "y + 1 = k * (y div k) + (y mod k + 1)" "0 \<le> y mod k + 1" "y mod k + 1 < k" using y by simp_all
    then show ?thesis using y(2) int_div_pos_eq [of "y + 1" k "y div k" "y mod k + 1"] int_mod_pos_eq [of "y + 1" k "y div k" "y mod k + 1"]
      by simp
  qed
qed

lemmas div_Suc_numeral = div_plus_one [of 4] div_plus_one [of 100] div_plus_one [of 400]
  div_plus_one [of 1460] div_plus_one [of 36524] div_plus_one [of 146096]

lemma leap_in_era: "leap (y mod 400 + 1) = leap (y + 1)"
proof -
  have "k dvd 400 \<Longrightarrow> (y mod 400 + 1) mod k = (y + 1) mod k" for k
    by (metis mod_add_left_eq mod_mod_cancel)
  then show ?thesis by (simp add: leap_def)
qed

lemma days_before_Suc: "days_before (y + 1) = days_before y + (if leap (y + 1) then 366 else 365)"
proof -
  have "n mod 100 = 0 \<Longrightarrow> n mod 4 = 0" "n mod 400 = 0 \<Longrightarrow> n mod 100 = 0" for n :: int by presburger+
  then show ?thesis unfolding days_before_def leap_def by (simp add: div_Suc_numeral)
qed

lemma days_before_era:
  assumes "0 \<le> r" and "r < 400"
  shows "days_before (400 * e + r) = 146097 * e + (365 * r + r div 4 - r div 100)"
proof -
  have "(400 * e + r) div 4 = 100 * e + r div 4" "(400 * e + r) div 100 = 4 * e + r div 100" by arith+
  moreover have "(400 * e + r) div 400 = e" using assms by arith
  ultimately show ?thesis by (simp add: days_before_def)
qed

definition year_guess :: "int \<Rightarrow> int" where
  "year_guess n = n - n div 1460 + n div 36524 - n div 146096"

lemma year_guess_mono:
  assumes "0 \<le> a" and "a \<le> b" and "b \<le> 146096"
  shows "year_guess a \<le> year_guess b"
proof -
  have step: "year_guess n \<le> year_guess (n + 1)" if "0 \<le> n" "n + 1 \<le> 146096" for n
  proof -
    have "(n + 1) mod 146096 = 0 \<Longrightarrow> n + 1 = 146096" using that by (cases "n + 1 = 146096") simp_all
    then have "(n + 1) mod 146096 = 0 \<Longrightarrow> (n + 1) mod 36524 = 0" by simp
    then show ?thesis by (simp add: year_guess_def div_Suc_numeral)
  qed
  have "a + int k \<le> 146096 \<Longrightarrow> year_guess a \<le> year_guess (a + int k)" for k
  proof (induction k)
    case (Suc k)
    with step [of "a + int k"] assms(1) show ?case by (simp add: add.assoc [symmetric] add.commute [of 1])
  qed simp
  from this [of "nat (b - a)"] assms show ?thesis by simp
qed

lemma year_guess_ends:
  assumes "0 \<le> r" and "r < 400"
  shows "365 * r \<le> year_guess (days_before r)" and "year_guess (days_before (r + 1) - 1) < 365 * (r + 1)"
    and "days_before (r + 1) \<le> 146097"
proof -
  have "\<forall>r \<in> set (map int [0..<400]). 365 * r \<le> year_guess (days_before r)
      \<and> year_guess (days_before (r + 1) - 1) < 365 * (r + 1) \<and> days_before (r + 1) \<le> 146097" by code_simp
  moreover have "r \<in> set (map int [0..<400])" using assms by (auto simp: image_iff intro!: bexI [of _ "nat r"])
  ultimately show "365 * r \<le> year_guess (days_before r)" and "year_guess (days_before (r + 1) - 1) < 365 * (r + 1)"
    and "days_before (r + 1) \<le> 146097" by blast+
qed

lemma year_of_era:
  assumes "0 \<le> r" and "r < 400" and "days_before r \<le> n" and "n < days_before (r + 1)" and "0 \<le> n"
  shows "year_guess n div 365 = r"
proof -
  note e = year_guess_ends [OF assms(1,2)]
  have "0 \<le> days_before r" using assms(1) by (simp add: days_before_def)
  then have "year_guess (days_before r) \<le> year_guess n" "year_guess n \<le> year_guess (days_before (r + 1) - 1)"
    using assms e(3) by (auto intro!: year_guess_mono)
  then have "365 * r \<le> year_guess n" "year_guess n < 365 * (r + 1)" using e by linarith+
  then show ?thesis using int_div_pos_eq [of "year_guess n" 365 r "year_guess n - 365 * r"] by simp
qed

section \<open>Counting days\<close>

lemma march_month_day:
  assumes "0 \<le> (mp :: int)" and "mp < 12" and "1 \<le> d" and "d \<le> (if mp = 11 then 29 else if mp \<in> {1, 3, 6, 8} then 30 else 31)"
  shows "(5 * ((153 * mp + 2) div 5 + d - 1) + 2) div 153 = mp"
proof -
  have "\<forall>mp \<in> set (map int [0..<12]). \<forall>d \<in> set (map int [1..<32]). d \<le> (if mp = 11 then 29 else if mp \<in> {1, 3, 6, 8} then 30 else 31)
      \<longrightarrow> (5 * ((153 * mp + 2) div 5 + d - 1) + 2) div 153 = mp" by code_simp
  moreover have "mp \<in> set (map int [0..<12])" using assms by (auto simp: image_iff intro!: bexI [of _ "nat mp"])
  moreover have "d \<in> set (map int [1..<32])" using assms by (auto simp: image_iff intro!: bexI [of _ "nat d"] split: if_splits)
  ultimately show ?thesis using assms(4) by blast
qed

lemma date_months:
  "date_ok (y, m, d) \<Longrightarrow> m = 1 \<or> m = 2 \<or> m = 3 \<or> m = 4 \<or> m = 5 \<or> m = 6 \<or> m = 7 \<or> m = 8 \<or> m = 9
     \<or> m = 10 \<or> m = 11 \<or> m = 12"
  by simp arith

lemma date_in_march_year:
  assumes "date_ok (y, m, d)"
  shows "0 \<le> march_month m \<and> march_month m < 12 \<and> d \<le> (if march_month m = 11 then 29 else if march_month m \<in> {1, 3, 6, 8} then 30 else 31)
    \<and> 0 \<le> (153 * march_month m + 2) div 5 + d - 1
    \<and> days_before (march_year y m) + ((153 * march_month m + 2) div 5 + d - 1) < days_before (march_year y m + 1)
    \<and> (march_month m < 10 \<longleftrightarrow> 3 \<le> m)"
proof -
  have l: "days_before (y - 1 + 1) = days_before (y - 1) + (if leap (y - 1 + 1) then 366 else 365)" by (rule days_before_Suc)
  show ?thesis using date_months [OF assms] assms l
    by (elim disjE) (simp_all add: march_month_def march_year_def days_before_Suc month_length_def split: if_splits)
qed

lemma civil_of_day_number:
  assumes "date_ok (y, m, d)"
  shows "civil_from_days (day_number (y, m, d)) = (y, m, d)"
proof -
  let ?Y = "march_year y m" and ?mp = "march_month m"
  let ?e = "?Y div 400" and ?r = "?Y mod 400"
  define doy where "doy = (153 * ?mp + 2) div 5 + d - 1"
  note dm = date_in_march_year [OF assms, folded doy_def]
  have Y: "?Y = 400 * ?e + ?r" and r: "0 \<le> ?r" "?r < 400" by simp_all
  have s: "365 * ?r + ?r div 4 - ?r div 100 = days_before ?r" using r by (simp add: days_before_def)
  have b: "days_before ?Y = 146097 * ?e + days_before ?r" using days_before_era [OF r, of ?e] s Y by simp
  have "days_before (?Y + 1) - days_before ?Y = days_before (?r + 1) - days_before ?r"
  proof -
    show ?thesis by (simp add: days_before_Suc leap_in_era)
  qed
  then have len: "days_before ?r + doy < days_before (?r + 1)" using dm by linarith
  define n where "n = days_before ?r + doy"
  have "0 \<le> days_before ?r" using r by (simp add: days_before_def)
  then have n: "0 \<le> n" "days_before ?r \<le> n" "n < days_before (?r + 1)" "n < 146097"
    using dm len year_guess_ends(3) [OF r] by (simp_all add: n_def)
  have shifted: "day_number (y, m, d) + 719468 = 146097 * ?e + n" by (simp add: b n_def doy_def)
  then have era: "(day_number (y, m, d) + 719468) div 146097 = ?e" "(day_number (y, m, d) + 719468) mod 146097 = n"
    using n by simp_all
  have yoe: "(n - n div 1460 + n div 36524 - n div 146096) div 365 = ?r"
    using year_of_era [OF r n(2,3,1)] by (simp add: year_guess_def)
  have doy: "n - (365 * ?r + ?r div 4 - ?r div 100) = doy" by (simp add: n_def s)
  have mp: "(5 * doy + 2) div 153 = ?mp" using march_month_day [of ?mp d] dm assms by (simp add: doy_def)
  have "doy - (153 * ?mp + 2) div 5 + 1 = d" by (simp add: doy_def)
  moreover have "(if ?mp < 10 then ?mp + 3 else ?mp - 9) = m" using dm assms by (auto simp: march_month_def)
  moreover have "?r + ?e * 400 + (if m \<le> 2 then 1 else 0) = y" using Y by (simp add: march_year_def split: if_splits)
  ultimately show ?thesis
    unfolding civil_from_days_def Let_def era yoe doy mp by simp
qed

lemma day_number_next: "date_ok x \<Longrightarrow> day_number (next_day x) = day_number x + 1"
proof (cases x)
  case (fields y m d)
  assume ok: "date_ok x"
  then have m: "m = 1 \<or> m = 2 \<or> m = 3 \<or> m = 4 \<or> m = 5 \<or> m = 6 \<or> m = 7 \<or> m = 8 \<or> m = 9 \<or> m = 10 \<or> m = 11 \<or> m = 12"
    using date_months fields by simp
  show ?thesis
  proof (cases "d < month_length y m")
    case False
    then have "d = month_length y m" using ok fields by simp
    moreover have "days_before (y - 1 + 1) = days_before (y - 1) + (if leap (y - 1 + 1) then 366 else 365)" by (rule days_before_Suc)
    ultimately show ?thesis using m fields
      by (elim disjE) (simp_all add: month_length_def march_year_def march_month_def)
  qed (simp add: fields)
qed

text \<open>
  The listing's dates are the calendar's. The date computed for the day \<open>n\<close> after the epoch is the date
  reached from 1 January 1970 by going \<open>n\<close> times to the next day of the Gregorian calendar.
\<close>

theorem dates_are_gregorian: "civil_from_days (int n) = (next_day ^^ n) (1970, 1, 1)"
proof -
  have "date_ok ((next_day ^^ n) (1970, 1, 1)) \<and> day_number ((next_day ^^ n) (1970, 1, 1)) = int n"
  proof (induction n)
    case 0
    show ?case by (simp add: month_length_def march_year_def march_month_def days_before_def)
  next
    case (Suc n)
    then show ?case using next_day_ok day_number_next by simp
  qed
  moreover obtain y m d where "(next_day ^^ n) (1970, 1, 1) = (y, m, d)" by (metis prod_cases3)
  ultimately show ?thesis using civil_of_day_number by (metis (no_types))
qed

end
