(* ===== verification/Slices.thy ===== *)
theory Slices
  imports Text
begin

text \<open>
  More of the text functions of the Rust standard library: \<open>split_once\<close>, \<open>trim_matches\<close> and its one-sided
  forms on ASCII characters, and IP addresses as text (\<open>std::net\<close>).
\<close>

fun split_once :: "string \<Rightarrow> string \<Rightarrow> (string \<times> string) option" where
  "split_once p [] = (if p = [] then Some ([], []) else None)"
| "split_once p (c # s) =
     (if starts_with p (c # s) then Some ([], drop (length p) (c # s))
      else map_option (\<lambda>(a, b). (c # a, b)) (split_once p s))"

lemma split_once_Some: "split_once p s = Some (a, b) \<Longrightarrow> s = a @ p @ b"
proof (induction s arbitrary: a)
  case Nil
  then show ?case by (simp split: if_splits)
next
  case (Cons c s)
  show ?case
  proof (cases "starts_with p (c # s)")
    case True
    then obtain r where r: "c # s = p @ r" using starts_with_iff by blast
    have "split_once p (c # s) = Some ([], drop (length p) (c # s))" using True by simp
    then show ?thesis using Cons.prems r by simp
  next
    case False
    then show ?thesis using Cons by (auto split: prod.splits)
  qed
qed

text \<open>The first occurrence of a separator is where its first character first is, when that decides it.\<close>

lemma split_once_char: "c \<notin> set a \<Longrightarrow> split_once (c # p) (a @ c # p @ b) = Some (a, b)"
proof (induction a)
  case Nil
  have "starts_with (c # p) (c # p @ b)" unfolding starts_with_iff by (rule exI [of _ b]) simp
  then show ?case by simp
next
  case (Cons x a)
  then have "\<not> starts_with (c # p) ((x # a) @ c # p @ b)" by (auto simp: starts_with_iff)
  then show ?case using Cons by simp
qed

lemma split_once_none: "c \<notin> set s \<Longrightarrow> split_once (c # p) s = None"
proof (induction s)
  case (Cons x s)
  then have "\<not> starts_with (c # p) (x # s)" by (auto simp: starts_with_iff)
  then show ?case using Cons by simp
qed simp

definition trim_end_matches :: "(char \<Rightarrow> bool) \<Rightarrow> string \<Rightarrow> string" where
  "trim_end_matches P s = rev (dropWhile P (rev s))"

definition trim_matches :: "(char \<Rightarrow> bool) \<Rightarrow> string \<Rightarrow> string" where
  "trim_matches P s = trim_end_matches P (dropWhile P s)"

lemma trim_end_matches_append:
  assumes "list_all P t" and "s = [] \<or> \<not> P (last s)"
  shows "trim_end_matches P (s @ t) = s"
proof -
  have "dropWhile P (rev t @ rev s) = dropWhile P (rev s)"
    using assms(1) by (intro dropWhile_append2) (auto simp: list_all_iff)
  then show ?thesis using assms(2) by (cases s rule: rev_cases) (simp_all add: trim_end_matches_def)
qed

lemma trim_end_matches_id: "s = [] \<or> \<not> P (last s) \<Longrightarrow> trim_end_matches P s = s"
  by (cases s rule: rev_cases) (simp_all add: trim_end_matches_def)

lemma trim_end_matches_suffix: "\<exists>t. s = trim_end_matches P s @ t"
  unfolding trim_end_matches_def
  by (metis rev_append rev_rev_ident takeWhile_dropWhile_id)

lemma trim_id:
  assumes "is_ascii s" and "s = [] \<or> \<not> is_whitespace (of_char (hd s))" and "s = [] \<or> \<not> is_whitespace (of_char (last s))"
    and "is_ascii t" and "list_all (\<lambda>c. is_whitespace (of_char c)) t"
  shows "trim (s @ t) = s"
proof -
  have c: "chars (s @ t) = map of_char s @ map of_char t" using assms(1,4) by (simp add: chars_ascii)
  have t: "dropWhile is_whitespace (map of_char t) = []" using assms(5) by (simp add: dropWhile_eq_Nil_conv list_all_iff)
  have again: "of_chars (map of_char s) = s" using assms(1) by (metis chars_ascii is_utf8_ascii of_chars_chars)
  show ?thesis
  proof (cases "s = []")
    case True
    then have "dropWhile is_whitespace (chars (s @ t)) = []" using c t by simp
    then show ?thesis using True by (simp only: trim_def rev.simps dropWhile.simps of_chars_def) (simp add: from_bytes_def utf8_bytes_def)
  next
    case False
    then have "dropWhile is_whitespace (map of_char s @ map of_char t) = map of_char s @ map of_char t"
      using assms(2) by (cases s) simp_all
    moreover have "dropWhile is_whitespace (rev (map of_char s @ map of_char t)) = rev (map of_char s)"
    proof -
      have "dropWhile is_whitespace (map of_char (rev t) @ map of_char (rev s)) = dropWhile is_whitespace (map of_char (rev s))"
        using assms(5) by (intro dropWhile_append2) (auto simp: list_all_iff)
      moreover have "map of_char (rev s) = of_char (last s) # tl (map of_char (rev s))"
        using False by (cases s rule: rev_cases) simp_all
      then have "dropWhile is_whitespace (map of_char (rev s)) = map of_char (rev s)"
        using assms(3) False by (metis dropWhile.simps(2))
      ultimately show ?thesis by (simp add: rev_map)
    qed
    ultimately show ?thesis by (simp add: trim_def c again)
  qed
qed

text \<open>Visible ASCII characters.\<close>

definition graphic :: "char \<Rightarrow> bool" where
  "graphic c \<longleftrightarrow> (let n = of_char c :: nat in 33 \<le> n \<and> n \<le> 126)"

lemma graphic_ascii: "graphic c \<Longrightarrow> (of_char c :: nat) < 128" "graphic c \<Longrightarrow> \<not> is_whitespace (of_char c)"
  by (auto simp: graphic_def is_whitespace_def Let_def)

lemma graphic_text: "list_all graphic s \<Longrightarrow> is_ascii s"
  by (auto simp: is_ascii_def list_all_iff graphic_ascii)

lemma trim_graphic: "list_all graphic s \<Longrightarrow> trim s = s"
  using trim_id [of s "[]"] graphic_text [of s]
  by (cases "s = []") (auto simp: list_all_iff graphic_ascii)

section \<open>IP addresses\<close>

datatype ip_addr = V4 nat nat nat nat | V6 "nat list"

definition is_loopback_addr :: "ip_addr \<Rightarrow> bool" where
  "is_loopback_addr ip = (case ip of V4 a b c d \<Rightarrow> a = 127 | V6 gs \<Rightarrow> gs = [0, 0, 0, 0, 0, 0, 0, 1])"

text \<open>Numbers are written without leading zeros.\<close>

lemma char_zero: "(of_char CHR ''0'' :: nat) = 48"
  by simp

lemma decimal_hd: "0 < n \<Longrightarrow> hd (decimal n) \<noteq> CHR ''0''"
proof (induction n rule: decimal.induct)
  case (1 n)
  show ?case
  proof (cases "n < 10")
    case True
    then have "(of_char (''0123456789'' ! n) :: nat) \<noteq> 48" using 1(2) digit_char [of n] by simp
    then have "''0123456789'' ! n \<noteq> CHR ''0''" by (metis char_zero)
    then show ?thesis using True by (simp only: decimal.simps [of n] if_True list.sel(1) simp_thms)
  next
    case False
    then show ?thesis using 1(1) by (simp add: decimal.simps [of n])
  qed
qed

lemma decimal_length_octet: "n < 256 \<Longrightarrow> length (decimal n) \<le> 3 \<and> (n = 0 \<longrightarrow> length (decimal n) = 1)"
  by (cases "n = 0")
    (simp_all add: decimal.simps [of 0] decimal.simps [of n] decimal.simps [of "n div 10"] decimal.simps [of "n div 10 div 10"])

lemma decimal_graphic: "list_all graphic (decimal n)"
  by (auto simp: list_all_iff graphic_def Let_def dest!: decimal_digits)

text \<open>One to three digits, no leading zero, at most 255; one to four hexadecimal digits.\<close>

definition parse_octet :: "string \<Rightarrow> nat option" where
  "parse_octet s =
     (if s = [] \<or> 3 < length s \<or> (hd s = CHR ''0'' \<and> 1 < length s) then None
      else case digits_value 0 s of Some n \<Rightarrow> if n < 256 then Some n else None | None \<Rightarrow> None)"

lemma parse_octet_decimal:
  assumes "n < 256"
  shows "parse_octet (decimal n) = Some n"
  using assms decimal_length_octet [OF assms] decimal_hd [of n]
  by (cases "n = 0") (auto simp: parse_octet_def digits_value_decimal)

definition hex_char_value :: "char \<Rightarrow> nat option" where
  "hex_char_value c = (let n = of_char c in
     if 48 \<le> n \<and> n \<le> 57 then Some (n - 48) else if 65 \<le> n \<and> n \<le> 70 then Some (n - 55)
     else if 97 \<le> n \<and> n \<le> 102 then Some (n - 87) else None)"

fun hex_fold :: "nat \<Rightarrow> string \<Rightarrow> nat option" where
  "hex_fold acc [] = Some acc"
| "hex_fold acc (c # s) = (case hex_char_value c of None \<Rightarrow> None | Some v \<Rightarrow> hex_fold (acc * 16 + v) s)"

definition parse_group :: "string \<Rightarrow> nat option" where
  "parse_group s = (if s = [] \<or> 4 < length s then None else hex_fold 0 s)"

fun all_of :: "('a \<Rightarrow> 'b option) \<Rightarrow> 'a list \<Rightarrow> 'b list option" where
  "all_of f [] = Some []"
| "all_of f (x # xs) = (case (f x, all_of f xs) of (Some y, Some ys) \<Rightarrow> Some (y # ys) | _ \<Rightarrow> None)"

definition parse_v4 :: "string \<Rightarrow> ip_addr option" where
  "parse_v4 s = (case all_of parse_octet (split_on CHR ''.'' s) of Some [a, b, c, d] \<Rightarrow> Some (V4 a b c d) | _ \<Rightarrow> None)"

text \<open>The last two groups of an IPv6 text may be an IPv4 one.\<close>

definition parse_groups :: "string \<Rightarrow> nat list option" where
  "parse_groups s =
     (if s = [] then Some []
      else let parts = split_on CHR '':'' s in
        case parse_v4 (last parts) of
          Some (V4 a b c d) \<Rightarrow> map_option (\<lambda>gs. gs @ [a * 256 + b, c * 256 + d]) (all_of parse_group (butlast parts))
        | _ \<Rightarrow> all_of parse_group parts)"

definition parse_v6 :: "string \<Rightarrow> ip_addr option" where
  "parse_v6 s =
     (case split_once ''::'' s of
        None \<Rightarrow> (case parse_groups s of Some gs \<Rightarrow> if length gs = 8 then Some (V6 gs) else None | None \<Rightarrow> None)
      | Some (h, t) \<Rightarrow>
          (case (all_of parse_group (if h = [] then [] else split_on CHR '':'' h), parse_groups t) of
             (Some hs, Some ts) \<Rightarrow>
               if length hs + length ts \<le> 7 then Some (V6 (hs @ replicate (8 - (length hs + length ts)) 0 @ ts)) else None
           | _ \<Rightarrow> None))"

definition parse_ip :: "string \<Rightarrow> ip_addr option" where
  "parse_ip s = (case parse_v4 s of Some a \<Rightarrow> Some a | None \<Rightarrow> parse_v6 s)"

definition hex_text :: "nat \<Rightarrow> string" where
  "hex_text n = (let ds = [n div 4096 mod 16, n div 256 mod 16, n div 16 mod 16, n mod 16];
       kept = dropWhile (\<lambda>d. d = 0) ds
     in if kept = [] then ''0'' else map (\<lambda>d. ''0123456789abcdef'' ! d) kept)"

fun joined_by :: "string \<Rightarrow> string list \<Rightarrow> string" where
  "joined_by sep [] = []"
| "joined_by sep [x] = x"
| "joined_by sep (x # xs) = x @ sep @ joined_by sep xs"

definition zeros_at :: "nat list \<Rightarrow> nat \<Rightarrow> nat" where
  "zeros_at gs i = length (takeWhile (\<lambda>g. g = 0) (drop i gs))"

text \<open>The longest run of zero groups, the first of the longest, is left out when it is longer than one.\<close>

definition show_ip :: "ip_addr \<Rightarrow> string" where
  "show_ip ip =
     (case ip of
        V4 a b c d \<Rightarrow> joined_by ''.'' (map decimal [a, b, c, d])
      | V6 gs \<Rightarrow>
          if take 6 gs = [0, 0, 0, 0, 0, 65535]
          then ''::ffff:'' @ joined_by ''.'' (map decimal [gs ! 6 div 256, gs ! 6 mod 256, gs ! 7 div 256, gs ! 7 mod 256])
          else let n = foldr max (map (zeros_at gs) [0..<8]) 0;
                   i = length (takeWhile (\<lambda>i. zeros_at gs i \<noteq> n) [0..<8])
            in if 1 < n
               then joined_by '':'' (map hex_text (take i gs)) @ ''::'' @ joined_by '':'' (map hex_text (drop (i + n) gs))
               else joined_by '':'' (map hex_text gs))"

lemma show_loopback: "show_ip (V6 [0, 0, 0, 0, 0, 0, 0, 1]) = ''::1''"
  by (simp add: show_ip_def zeros_at_def upt_conv_Cons hex_text_def max_def)

lemma parse_loopback: "parse_ip ''::1'' = Some (V6 [0, 0, 0, 0, 0, 0, 0, 1])"
  by (simp add: parse_ip_def parse_v4_def parse_octet_def parse_v6_def parse_groups_def parse_group_def
      hex_char_value_def starts_with_def strip_prefix_def numeral_eq_Suc)

lemma split_on_absent: "c \<notin> set s \<Longrightarrow> split_on c s = [s]"
  by (induction s) auto

lemma decimal_lacks: "\<not> (48 \<le> (of_char c :: nat) \<and> (of_char c :: nat) \<le> 57) \<Longrightarrow> c \<notin> set (decimal n)"
  using decimal_digits by force

lemma decimal_lacks_marks [simp]:
  "CHR ''.'' \<notin> set (decimal n)" "CHR '':'' \<notin> set (decimal n)" "CHR ''/'' \<notin> set (decimal n)"
  "CHR '']'' \<notin> set (decimal n)" "CHR ''['' \<notin> set (decimal n)" "CHR ''&'' \<notin> set (decimal n)"
  by (simp_all add: decimal_lacks)

lemma split_on_dotted:
  assumes "CHR ''.'' \<notin> set x" and "CHR ''.'' \<notin> set y" and "CHR ''.'' \<notin> set z" and "CHR ''.'' \<notin> set w"
  shows "split_on CHR ''.'' (joined_by ''.'' [x, y, z, w]) = [x, y, z, w]"
proof -
  have s: "split_on c (x @ c # t) = x # split_on c t" if "c \<notin> set x" for c :: char and x t
    using that by (induction x) auto
  show ?thesis using assms by (simp add: s split_on_absent)
qed

end
