(* ===== verification/Base64.thy ===== *)
theory Base64
  imports Registry Lines Slices
begin

text \<open>
  What the code relies on of unpadded base64url, a library function: encoding gives url-safe letters
  and is undone by decoding, and a text decodes only to the number of bytes its length stands for. A
  concrete codec, groups of three bytes as four sextets, keeps the contract.
\<close>

definition url_char :: "char \<Rightarrow> bool" where
  "url_char c \<longleftrightarrow> (let n = of_char c :: nat in
     65 \<le> n \<and> n \<le> 90 \<or> 97 \<le> n \<and> n \<le> 122 \<or> 48 \<le> n \<and> n \<le> 57 \<or> n = 45 \<or> n = 95)"

definition b64_contract :: "ident \<Rightarrow> bool" where
  "b64_contract idn \<longleftrightarrow>
     (\<forall>bs. b64_decode idn (b64_encode idn bs) = Some bs \<and> list_all url_char (b64_encode idn bs))
     \<and> (\<forall>s bs. b64_decode idn s = Some bs \<longrightarrow> length s = (length bs * 4 + 2) div 3)"

lemma url_char_text:
  assumes "url_char c"
  shows "(of_char c :: nat) < 128" and "\<not> is_whitespace (of_char c)" and "c \<noteq> NL"
  using assms by (auto simp: url_char_def Let_def is_whitespace_def NL_def)

lemma trim_url: "list_all url_char s \<Longrightarrow> trim (s @ [NL]) = s" "list_all url_char s \<Longrightarrow> trim s = s"
proof -
  assume s: "list_all url_char s"
  then have "is_ascii s" "s = [] \<or> \<not> is_whitespace (of_char (hd s))" "s = [] \<or> \<not> is_whitespace (of_char (last s))"
    using url_char_text by (auto simp: is_ascii_def list_all_iff)
  note t = trim_id [OF this]
  show "trim (s @ [NL]) = s" by (rule t) (simp_all add: NL_def is_whitespace_def)
  show "trim s = s" using t [of "[]"] by simp
qed

section \<open>A codec\<close>

definition url_letter :: "nat \<Rightarrow> char" where
  "url_letter n = char_of (if n < 26 then 65 + n else if n < 52 then 71 + n else if n < 62 then n - 4
     else if n = 62 then 45 else 95)"

definition url_value :: "char \<Rightarrow> nat option" where
  "url_value c = (let n = of_char c in
     if 65 \<le> n \<and> n \<le> 90 then Some (n - 65) else if 97 \<le> n \<and> n \<le> 122 then Some (n - 71)
     else if 48 \<le> n \<and> n \<le> 57 then Some (n + 4) else if n = 45 then Some 62 else if n = 95 then Some 63 else None)"

fun url_encode :: "byte list \<Rightarrow> string" where
  "url_encode [] = []"
| "url_encode [a] = map url_letter [unat a div 4, unat a mod 4 * 16]"
| "url_encode [a, b] = map url_letter [unat a div 4, unat a mod 4 * 16 + unat b div 16, unat b mod 16 * 4]"
| "url_encode (a # b # c # bs) =
     map url_letter [unat a div 4, unat a mod 4 * 16 + unat b div 16, unat b mod 16 * 4 + unat c div 64, unat c mod 64]
     @ url_encode bs"

fun url_decode :: "string \<Rightarrow> byte list option" where
  "url_decode [] = Some []"
| "url_decode [w] = None"
| "url_decode [w, x] =
     (case (url_value w, url_value x) of
        (Some p, Some q) \<Rightarrow> if q mod 16 = 0 then Some [of_nat (p * 4 + q div 16)] else None
      | _ \<Rightarrow> None)"
| "url_decode [w, x, y] =
     (case (url_value w, url_value x, url_value y) of
        (Some p, Some q, Some r) \<Rightarrow>
          if r mod 4 = 0 then Some [of_nat (p * 4 + q div 16), of_nat (q mod 16 * 16 + r div 4)] else None
      | _ \<Rightarrow> None)"
| "url_decode (w # x # y # z # s) =
     (case (url_value w, url_value x, url_value y, url_value z) of
        (Some p, Some q, Some r, Some t) \<Rightarrow>
          map_option (\<lambda>bs. of_nat (p * 4 + q div 16) # of_nat (q mod 16 * 16 + r div 4) # of_nat (r mod 4 * 64 + t) # bs)
            (url_decode s)
      | _ \<Rightarrow> None)"

lemma url_letter_value: "n < 64 \<Longrightarrow> url_value (url_letter n) = Some n \<and> url_char (url_letter n)"
  by (auto simp: url_letter_def url_value_def url_char_def Let_def)

lemma byte_parts:
  fixes a b c :: byte
  shows "unat a div 4 < 64" "unat c mod 64 < 64" "unat a mod 4 * 16 < 64" "unat b mod 16 * 4 < 64"
    "unat a mod 4 * 16 + unat b div 16 < 64" "unat b mod 16 * 4 + unat c div 64 < 64"
    "unat b div 16 div 16 = 0" "unat b div 16 mod 16 = unat b div 16"
    "unat c div 64 div 4 = 0" "unat c div 64 mod 4 = unat c div 64"
proof -
  have u: "unat x < 256" for x :: byte using unsigned_less [of x] by simp
  have b: "unat b div 16 < 16" and c: "unat c div 64 < 4" and "unat a div 4 < 64"
    using u [of a] u [of b] u [of c] by (simp_all add: div_less_iff_less_mult)
  moreover have "unat a mod 4 < 4" "unat b mod 16 < 16" by simp_all
  ultimately show "unat a div 4 < 64" "unat c mod 64 < 64" "unat a mod 4 * 16 < 64" "unat b mod 16 * 4 < 64"
    "unat a mod 4 * 16 + unat b div 16 < 64" "unat b mod 16 * 4 + unat c div 64 < 64" by simp_all
  show "unat b div 16 div 16 = 0" "unat b div 16 mod 16 = unat b div 16"
    "unat c div 64 div 4 = 0" "unat c div 64 mod 4 = unat c div 64" using b c by simp_all
qed

lemma url_decode_encode: "url_decode (url_encode bs) = Some bs"
  by (induction bs rule: url_encode.induct)
    (simp_all add: url_letter_value byte_parts del: of_nat_add of_nat_mult)

lemma url_encode_chars: "list_all url_char (url_encode bs)"
  by (induction bs rule: url_encode.induct) (simp_all add: url_letter_value byte_parts)

lemma url_decode_length: "url_decode s = Some bs \<Longrightarrow> length s = (length bs * 4 + 2) div 3"
  by (induction s arbitrary: bs rule: url_decode.induct) (auto split: option.splits if_splits)

definition url_ident :: ident where
  "url_ident = demo_ident\<lparr>b64_encode := url_encode, b64_decode := url_decode\<rparr>"

lemma url_ident_contract: "b64_contract url_ident" "ident_contract url_ident"
  using demo_ident_contract
  by (simp_all add: b64_contract_def url_ident_def url_decode_encode url_encode_chars url_decode_length ident_contract_def)

end
