(* ===== verification/Room_Key.thy ===== *)
theory Room_Key
  imports Base64 Session
begin

text \<open>
  Where the room key comes from, \<open>roomkey.rs\<close> with \<open>decode_room_key\<close> of \<open>lib.rs\<close>: the command line,
  else the file of the state directory, else a fresh key that is written there. A fresh key is an
  argument, and so is base64url. Shown: a key that is stored is never replaced, all the runs that
  take the key from the state directory share one key, and a first write that failed half way never
  turns into another key.
\<close>

section \<open>Data\<close>

definition ROOM_KEY_FILE_NAME :: string where "ROOM_KEY_FILE_NAME = ''room-key''"

datatype key_source = FromCommandLine | FromFile string | Generated string

record resolved_key =
  rk_root :: "byte list"
  rk_source :: key_source
  rk_conflicts_with :: "string option"

datatype room_key_error =
    NotBase64url
  | WrongKeyLength nat
  | CannotReadKey string io_error
  | EmptyKeyFile string
  | NotARoomKey string room_key_error
  | CannotWriteKey string io_error

definition source_lines :: "key_source \<Rightarrow> string list" where
  "source_lines s =
     (case s of
        FromCommandLine \<Rightarrow> [''room key: from the command line (not written to the state directory)'']
      | FromFile path \<Rightarrow> [''room key: '' @ path]
      | Generated path \<Rightarrow>
          [''room key: generated and stored at '' @ path,
           ''          it is what your paired devices were given; back it up with the state directory, and do not delete it''])"

definition announcement :: "resolved_key \<Rightarrow> string list" where
  "announcement r =
     source_lines (rk_source r)
     @ (case rk_conflicts_with r of
          None \<Rightarrow> []
        | Some path \<Rightarrow>
            [''room key: NOTE '' @ [CHR 0xE2, CHR 0x80, CHR 0x94] @ '' the stored key at '' @ path
             @ '' is different, and was not changed. This run uses the command-line one, so a device paired with the stored key will not reach this daemon until you use it again.''])"

definition key_path_in :: "string \<Rightarrow> string" where
  "key_path_in directory = path_join directory ROOM_KEY_FILE_NAME"

section \<open>Operations\<close>

definition decode_room_key :: "ident \<Rightarrow> string \<Rightarrow> room_key_error + byte list" where
  "decode_room_key idn encoded =
     (case b64_decode idn (trim encoded) of
        None \<Rightarrow> Inl NotBase64url
      | Some bytes \<Rightarrow> if length bytes = SESSION_KEY_LEN then Inr bytes else Inl (WrongKeyLength (length bytes)))"

definition encode_room_key :: "ident \<Rightarrow> byte list \<Rightarrow> string" where
  "encode_room_key idn root = b64_encode idn root"

definition read_stored :: "ident \<Rightarrow> string \<Rightarrow> fs \<Rightarrow> room_key_error + byte list option" where
  "read_stored idn path fs =
     (case read_to_string path fs of
        Inl NotFound \<Rightarrow> Inr None
      | Inl e \<Rightarrow> Inl (CannotReadKey path e)
      | Inr file \<Rightarrow>
          let encoded = trim file in
          if encoded = [] then Inl (EmptyKeyFile path)
          else (case decode_room_key idn encoded of
                  Inl e \<Rightarrow> Inl (NotARoomKey path e)
                | Inr root \<Rightarrow> Inr (Some root)))"

definition write_private :: "string \<Rightarrow> string \<Rightarrow> fs \<Rightarrow> (io_error + unit) \<times> fs" where
  "write_private path contents fs =
     (case (case path_parent path of None \<Rightarrow> Inr () | Some parent \<Rightarrow> create_dir_all parent fs) of
        Inl e \<Rightarrow> (Inl e, fs)
      | Inr _ \<Rightarrow>
          (case create_new path fs of
             (Inl e, fs') \<Rightarrow> (Inl e, fs')
           | (Inr _, fs') \<Rightarrow>
               (case append_file path contents fs' of
                  (Inl e, fs'') \<Rightarrow> (Inl e, fs'')
                | (Inr _, fs'') \<Rightarrow> append_file path [NL] fs'')))"

definition resolve_key :: "ident \<Rightarrow> byte list \<Rightarrow> string \<Rightarrow> string option \<Rightarrow> fs \<Rightarrow> (room_key_error + resolved_key) \<times> fs" where
  "resolve_key idn fresh directory from_command_line fs =
     (let path = key_path_in directory in
      case read_stored idn path fs of
        Inl e \<Rightarrow> (Inl e, fs)
      | Inr stored \<Rightarrow>
          (case (from_command_line, stored) of
             (Some encoded, stored) \<Rightarrow>
               (case decode_room_key idn encoded of
                  Inl e \<Rightarrow> (Inl e, fs)
                | Inr root \<Rightarrow>
                    (Inr \<lparr>rk_root = root, rk_source = FromCommandLine,
                       rk_conflicts_with = (case stored of Some existing \<Rightarrow> if existing \<noteq> root then Some path else None
                                                         | None \<Rightarrow> None)\<rparr>, fs))
           | (None, Some root) \<Rightarrow>
               (Inr \<lparr>rk_root = root, rk_source = FromFile path, rk_conflicts_with = None\<rparr>, fs)
           | (None, None) \<Rightarrow>
               (case write_private path (encode_room_key idn fresh) fs of
                  (Inl e, fs') \<Rightarrow> (Inl (CannotWriteKey path e), fs')
                | (Inr _, fs') \<Rightarrow>
                    (Inr \<lparr>rk_root = fresh, rk_source = Generated path, rk_conflicts_with = None\<rparr>, fs'))))"

section \<open>What a write leaves\<close>

lemma write_private_existing:
  "fs_files fs p \<noteq> None \<Longrightarrow> \<exists>e. write_private p c fs = (Inl e, fs)"
  by (auto simp: write_private_def create_new_def split: sum.splits option.splits)

lemma write_private_new:
  assumes "write_private p c fs = (r, fs')" and "fs_files fs p = None"
  shows "fs' = fs \<and> (\<exists>e. r = Inl e)
    \<or> fs_fault fs' = fs_fault fs \<and> (\<forall>q. q \<noteq> p \<longrightarrow> fs_files fs' q = fs_files fs q)
      \<and> (\<exists>n. fs_files fs' p = Some (take n (as_bytes (c @ [NL])))
           \<and> (r = Inr () \<longrightarrow> fs_files fs' p = Some (as_bytes (c @ [NL]))))"
proof -
  have n: "\<exists>n. take k (as_bytes c) = take n (as_bytes (c @ [NL]))" for k
    by (rule exI [of _ "min k (length (as_bytes c))"]) (simp add: as_bytes_def take_map min_def)
  have m: "\<exists>n. as_bytes c @ take k (as_bytes [NL]) = take n (as_bytes (c @ [NL]))" for k
    by (rule exI [of _ "length c + k"]) (simp add: as_bytes_def)
  have whole: "\<exists>n. as_bytes (c @ [NL]) = take n (as_bytes (c @ [NL]))" "\<exists>n. as_bytes c @ as_bytes [NL] = take n (as_bytes (c @ [NL]))"
    by (rule exI [of _ "Suc (length c)"], simp add: as_bytes_def)+
  show ?thesis
    using assms n m whole
    by (auto simp: write_private_def create_new_def append_file_def file_bytes_def as_bytes_def split: sum.splits option.splits prod.splits)
qed

text \<open>What a file of the given bytes is read as depends on nothing else.\<close>

definition key_in :: "ident \<Rightarrow> byte list \<Rightarrow> byte list option" where
  "key_in idn bs =
     (if is_utf8 (from_bytes bs) \<and> trim (from_bytes bs) \<noteq> []
      then (case decode_room_key idn (trim (from_bytes bs)) of Inl _ \<Rightarrow> None | Inr root \<Rightarrow> Some root) else None)"

lemma read_stored_Some:
  "fs_files fs p = Some bs \<Longrightarrow> read_stored idn p fs = Inr (Some root) \<Longrightarrow> key_in idn bs = Some root"
  by (auto simp: read_stored_def key_in_def read_to_string_def Let_def split: option.splits sum.splits io_error.splits if_splits)

lemma read_stored_missing: "fs_files fs p = None \<Longrightarrow> read_stored idn p fs \<noteq> Inr (Some root)"
  by (auto simp: read_stored_def read_to_string_def split: option.splits sum.splits io_error.splits)

lemma key_in_written:
  assumes "b64_contract idn" and "length root = SESSION_KEY_LEN"
  shows "key_in idn (as_bytes (encode_room_key idn root @ [NL])) = Some root"
proof -
  let ?s = "b64_encode idn root"
  have d: "b64_decode idn ?s = Some root" and u: "list_all url_char ?s" using assms(1) by (auto simp: b64_contract_def)
  have "length ?s = (length root * 4 + 2) div 3" using assms(1) d unfolding b64_contract_def by blast
  then have "?s \<noteq> []" using assms(2) by (auto simp: SESSION_KEY_LEN_def)
  moreover have "is_ascii (?s @ [NL])" using u url_char_text(1) by (auto simp: is_ascii_def list_all_iff NL_def)
  ultimately show ?thesis
    using trim_url [OF u] d assms(2) by (simp add: key_in_def encode_room_key_def decode_room_key_def is_utf8_ascii)
qed

section \<open>A stored key is never replaced\<close>

lemma resolve_keeps:
  assumes "fs_files fs (key_path_in directory) \<noteq> None \<or> from_command_line \<noteq> None"
  shows "snd (resolve_key idn fresh directory from_command_line fs) = fs"
proof (cases from_command_line)
  case None
  then obtain e where "write_private (key_path_in directory) (encode_room_key idn fresh) fs = (Inl e, fs)"
    using assms write_private_existing [of fs "key_path_in directory" "encode_room_key idn fresh"] by auto
  then show ?thesis using None by (simp add: resolve_key_def Let_def split: sum.splits option.splits)
next
  case (Some encoded)
  then show ?thesis by (simp add: resolve_key_def Let_def split: sum.splits option.splits)
qed

text \<open>
  Safety: a run that finds a key file, readable or not, or that is given a key on its command
  line, changes no file, whatever calls fail.
\<close>

theorem stored_key_is_never_replaced:
  assumes "fs_files fs (key_path_in directory) \<noteq> None \<or> from_command_line \<noteq> None"
  shows "snd (resolve_key idn fresh directory from_command_line fs) = fs"
  using assms by (rule resolve_keeps)

theorem stored_key_is_never_replaced_witness:
  "snd (resolve_key url_ident (replicate 32 7) ''/state'' None (no_faults\<lparr>fs_files := [''/state/room-key'' \<mapsto> [1, 2]]\<rparr>))
     = no_faults\<lparr>fs_files := [''/state/room-key'' \<mapsto> [1, 2]]\<rparr>"
  by (rule stored_key_is_never_replaced) (simp add: key_path_in_def path_join_def ROOM_KEY_FILE_NAME_def)

section \<open>One key for every run\<close>

text \<open>A run, \<open>run\<close> or \<open>pair\<close> alike: the key it would generate, its command line, and the calls that fail.\<close>

record key_call =
  kc_fault :: "fs_call \<Rightarrow> io_error option"
  kc_torn :: nat
  kc_fresh :: "byte list"
  kc_command_line :: "string option"

definition key_call_fs :: "key_call \<Rightarrow> fs \<Rightarrow> fs" where
  "key_call_fs c fs = fs\<lparr>fs_fault := kc_fault c, fs_torn := kc_torn c\<rparr>"

fun key_runs :: "ident \<Rightarrow> string \<Rightarrow> key_call list \<Rightarrow> fs \<Rightarrow> (room_key_error + resolved_key) list" where
  "key_runs idn directory [] fs = []"
| "key_runs idn directory (c # cs) fs =
     (case resolve_key idn (kc_fresh c) directory (kc_command_line c) (key_call_fs c fs) of
        (r, fs') \<Rightarrow> r # key_runs idn directory cs fs')"

text \<open>The key a run took from the state directory, when it did.\<close>

definition own_key :: "room_key_error + resolved_key \<Rightarrow> byte list option" where
  "own_key r =
     (case r of
        Inl _ \<Rightarrow> None
      | Inr k \<Rightarrow> (case rk_source k of FromCommandLine \<Rightarrow> None | _ \<Rightarrow> Some (rk_root k)))"

lemma own_key_is_stored:
  assumes "b64_contract idn" and "length fresh = SESSION_KEY_LEN"
    and "resolve_key idn fresh directory cmd fs = (r, fs')" and "own_key r = Some k"
  shows "\<exists>bs. fs_files fs' (key_path_in directory) = Some bs \<and> key_in idn bs = Some k"
proof -
  let ?p = "key_path_in directory"
  have none: "cmd = None"
    using assms(3,4) by (cases cmd) (auto simp: resolve_key_def Let_def own_key_def split: sum.splits)
  obtain stored where s: "read_stored idn ?p fs = Inr stored"
    using assms(3,4) by (cases "read_stored idn ?p fs") (auto simp: resolve_key_def own_key_def)
  show ?thesis
  proof (cases stored)
    case (Some root)
    then obtain bs where "fs_files fs ?p = Some bs" using s read_stored_missing by fastforce
    moreover from this have "key_in idn bs = Some root" using s Some read_stored_Some by blast
    ultimately show ?thesis using assms(3,4) s none Some by (auto simp: resolve_key_def own_key_def)
  next
    case None
    obtain w fs1 where w: "write_private ?p (encode_room_key idn fresh) fs = (w, fs1)" by fastforce
    have r: "w = Inr ()" "fs' = fs1" "k = fresh"
      using assms(3,4) s none None w by (auto simp: resolve_key_def Let_def own_key_def split: sum.splits)
    then have "fs_files fs ?p = None"
      using w write_private_existing [of fs ?p "encode_room_key idn fresh"] by (cases "fs_files fs ?p") auto
    then have "fs_files fs1 ?p = Some (as_bytes (encode_room_key idn fresh @ [NL]))"
      using write_private_new [OF w] r(1) by auto
    then show ?thesis using key_in_written [OF assms(1,2)] r by simp
  qed
qed

lemma key_call_fs_files [simp]: "fs_files (key_call_fs c fs) = fs_files fs"
  by (simp add: key_call_fs_def)

lemma stored_key_is_used:
  assumes "b64_contract idn" and "\<forall>c \<in> set cs. length (kc_fresh c) = SESSION_KEY_LEN"
    and "fs_files fs (key_path_in directory) = Some bs" and "key_in idn bs = Some k"
  shows "\<forall>r \<in> set (key_runs idn directory cs fs). own_key r \<in> {None, Some k}"
  using assms(2,3)
proof (induction cs arbitrary: fs)
  case Nil
  then show ?case by simp
next
  case (Cons c cs)
  obtain r fs' where r: "resolve_key idn (kc_fresh c) directory (kc_command_line c) (key_call_fs c fs) = (r, fs')"
    by fastforce
  have keep: "fs' = key_call_fs c fs"
    using resolve_keeps [of "key_call_fs c fs" directory "kc_command_line c" idn "kc_fresh c"] Cons.prems(2) r by simp
  have "own_key r \<in> {None, Some k}"
  proof (cases "own_key r")
    case (Some k')
    then show ?thesis
      using own_key_is_stored [OF assms(1) _ r] Cons.prems keep assms(4) by auto
  qed simp
  moreover have "\<forall>r \<in> set (key_runs idn directory cs fs'). own_key r \<in> {None, Some k}"
    using Cons.IH [of fs'] Cons.prems keep by simp
  ultimately show ?case by (simp add: r)
qed

text \<open>
  C14. Invariant: over any sequence of runs of any of the commands, with any calls failing in each, the
  runs that take the room key from the state directory all use one key, so \<open>run\<close> and \<open>pair\<close> cannot
  disagree.
\<close>

theorem runs_share_one_room_key:
  assumes "b64_contract idn" and "\<forall>c \<in> set cs. length (kc_fresh c) = SESSION_KEY_LEN"
  shows "\<exists>k. \<forall>r \<in> set (key_runs idn directory cs fs). own_key r \<in> {None, Some k}"
  using assms(2)
proof (induction cs arbitrary: fs)
  case Nil
  then show ?case by simp
next
  case (Cons c cs)
  obtain r fs' where r: "resolve_key idn (kc_fresh c) directory (kc_command_line c) (key_call_fs c fs) = (r, fs')"
    by fastforce
  show ?case
  proof (cases "own_key r")
    case None
    then show ?thesis using Cons.IH [of fs'] Cons.prems r by simp
  next
    case (Some k)
    then obtain bs where bs: "fs_files fs' (key_path_in directory) = Some bs" "key_in idn bs = Some k"
      using own_key_is_stored [OF assms(1) _ r] Cons.prems by auto
    have "\<forall>r \<in> set (key_runs idn directory cs fs'). own_key r \<in> {None, Some k}"
      by (rule stored_key_is_used [OF assms(1) _ bs]) (simp add: Cons.prems)
    then show ?thesis using Some r by auto
  qed
qed

definition demo_key_calls :: "key_call list" where
  "demo_key_calls =
     [\<lparr>kc_fault = (\<lambda>_. None), kc_torn = 0, kc_fresh = replicate 32 7, kc_command_line = None\<rparr>,
      \<lparr>kc_fault = (\<lambda>_. None), kc_torn = 0, kc_fresh = replicate 32 8, kc_command_line = None\<rparr>]"

theorem runs_share_one_room_key_witness:
  "\<exists>k. \<forall>r \<in> set (key_runs url_ident ''/state'' demo_key_calls no_faults). own_key r \<in> {None, Some k}"
  by (rule runs_share_one_room_key [OF url_ident_contract(1)]) (simp add: demo_key_calls_def SESSION_KEY_LEN_def)

section \<open>A torn first write\<close>

lemma key_in_torn:
  assumes "b64_contract idn" and "length root = SESSION_KEY_LEN"
  shows "key_in idn (take n (as_bytes (encode_room_key idn root @ [NL]))) \<in> {None, Some root}"
proof (cases "length (b64_encode idn root) < n")
  case True
  then have "take n (as_bytes (encode_room_key idn root @ [NL])) = as_bytes (encode_room_key idn root @ [NL])"
    by (simp add: encode_room_key_def as_bytes_def)
  then show ?thesis using key_in_written [OF assms] by simp
next
  case False
  let ?s = "b64_encode idn root" and ?t = "take n (b64_encode idn root)"
  have d: "b64_decode idn ?s = Some root" and u: "list_all url_char ?s" using assms(1) by (auto simp: b64_contract_def)
  have l: "b64_decode idn s = Some bs \<Longrightarrow> length s = (length bs * 4 + 2) div 3" for s bs
    using assms(1) unfolding b64_contract_def by blast
  have "take n (as_bytes (encode_room_key idn root @ [NL])) = as_bytes ?t"
    using False by (simp add: encode_room_key_def as_bytes_def take_map)
  moreover have "list_all url_char ?t" using u by (auto simp: list_all_iff dest: in_set_takeD)
  then have t: "trim ?t = ?t" by (rule trim_url(2))
  moreover have "?t = ?s" if "decode_room_key idn ?t = Inr bs" for bs
  proof -
    have "b64_decode idn ?t = Some bs" "length bs = SESSION_KEY_LEN"
      using that t by (auto simp: decode_room_key_def split: option.splits if_splits)
    then have "length ?t = length ?s" using l [of ?t bs] l [OF d] assms(2) by simp
    then show ?thesis using False by simp
  qed
  moreover have "decode_room_key idn ?s = Inr root"
    using d assms(2) trim_url(2) [OF u] by (simp add: decode_room_key_def)
  ultimately show ?thesis by (auto simp: key_in_def split: sum.splits)
qed

text \<open>
  Error behaviour: when the write of a fresh key fails part of the way, no later run makes another
  key out of what was left: it fails and names the file, or it reads the very key that was generated.
\<close>

theorem torn_key_is_never_another_key:
  assumes "b64_contract idn" and "length fresh = SESSION_KEY_LEN"
    and "fs_files fs (key_path_in directory) = None"
    and "resolve_key idn fresh directory None fs = (Inl e, fs')"
    and "fs_files fs' (key_path_in directory) \<noteq> None"
  shows "own_key (fst (resolve_key idn fresh' directory None (key_call_fs c fs'))) \<in> {None, Some fresh}"
proof -
  let ?p = "key_path_in directory"
  obtain w fs1 where w: "write_private ?p (encode_room_key idn fresh) fs = (w, fs1)" by fastforce
  have "fs' = fs \<or> fs' = fs1"
    using assms(4) w by (auto simp: resolve_key_def Let_def split: sum.splits option.splits)
  then have "fs' = fs1" using assms(3,5) write_private_new [OF w] by auto
  then obtain n where n: "fs_files fs' ?p = Some (take n (as_bytes (encode_room_key idn fresh @ [NL])))"
    using write_private_new [OF w assms(3)] assms(3,5) by auto
  let ?fs = "key_call_fs c fs'"
  obtain r where r: "resolve_key idn fresh' directory None ?fs = (r, ?fs)"
    using resolve_keeps [of ?fs directory None idn fresh'] assms(5) by (metis key_call_fs_files prod.collapse)
  show ?thesis
  proof (cases "read_stored idn ?p ?fs")
    case (Inr stored)
    then show ?thesis
    proof (cases stored)
      case (Some root)
      then have "key_in idn (take n (as_bytes (encode_room_key idn fresh @ [NL]))) = Some root"
        using read_stored_Some [of ?fs] n Inr by simp
      then have "root = fresh" using key_in_torn [OF assms(1,2), of n] by simp
      then show ?thesis using Inr Some by (simp add: resolve_key_def own_key_def)
    next
      case None
      have "\<exists>e. write_private ?p (encode_room_key idn fresh') ?fs = (Inl e, ?fs)"
        by (rule write_private_existing) (simp add: assms(5))
      then show ?thesis using Inr None by (auto simp: resolve_key_def own_key_def Let_def)
    qed
  qed (simp add: resolve_key_def own_key_def)
qed

text \<open>Five bytes reach the disk before it is full; the next run refuses the file.\<close>

definition full_disk :: fs where
  "full_disk = \<lparr>fs_files = (\<lambda>_. None),
     fs_fault = (\<lambda>call. case call of AppendCall _ _ \<Rightarrow> Some (OtherError ''full'') | _ \<Rightarrow> None), fs_torn = 5\<rparr>"

theorem torn_key_is_never_another_key_witness:
  "\<exists>e fs'. resolve_key url_ident (replicate 32 7) ''/state'' None full_disk = (Inl e, fs')
     \<and> own_key (fst (resolve_key url_ident (replicate 32 8) ''/state'' None (key_call_fs (hd demo_key_calls) fs')))
         \<in> {None, Some (replicate 32 7)}"
proof -
  let ?p = "key_path_in ''/state''" and ?c = "encode_room_key url_ident (replicate 32 7)"
  let ?fs' = "set_file ?p (Some (take 5 (as_bytes ?c))) (set_file ?p (Some []) full_disk)"
  have m: "fs_files full_disk ?p = None" by (simp add: full_disk_def)
  have "write_private ?p ?c full_disk = (Inl (OtherError ''full''), ?fs')"
    by (simp add: write_private_def create_dir_all_def create_new_def append_file_def file_bytes_def full_disk_def
        set_file_def split: option.split)
  moreover have "read_stored url_ident ?p full_disk = Inr None"
    by (simp add: read_stored_def read_to_string_def full_disk_def)
  ultimately have r: "resolve_key url_ident (replicate 32 7) ''/state'' None full_disk =
      (Inl (CannotWriteKey ?p (OtherError ''full'')), ?fs')"
    by (simp add: resolve_key_def Let_def)
  show ?thesis
    using torn_key_is_never_another_key [OF url_ident_contract(1) _ m r, of "replicate 32 8" "hd demo_key_calls"] r
    by (simp add: SESSION_KEY_LEN_def)
qed

end
