(* ===== verification/Door.thy ===== *)
theory Door
  imports Operator Control
begin

text \<open>
  What the operator's commands do to the files of the state directory, and what follows for the door:
  which clients the daemon will accept, and how often a code may be guessed.
\<close>

section \<open>The files a command touches\<close>

definition touches :: "string set \<Rightarrow> fs \<Rightarrow> fs \<Rightarrow> bool" where
  "touches A fs fs' \<longleftrightarrow> changed_files fs fs' \<subseteq> A \<and> fs_fault fs' = fs_fault fs"

lemma touches_refl [simp]: "touches A fs fs"
  by (simp add: touches_def changed_files_def)

lemma touches_trans: "touches A fs fs1 \<Longrightarrow> touches A fs1 fs2 \<Longrightarrow> touches A fs fs2"
  unfolding touches_def using changed_files_trans by metis

lemma touches_mono: "touches A fs fs' \<Longrightarrow> A \<subseteq> B \<Longrightarrow> touches B fs fs'"
  by (auto simp: touches_def)

lemma touches_file: "touches A fs fs' \<Longrightarrow> q \<notin> A \<Longrightarrow> fs_files fs' q = fs_files fs q"
  by (auto simp: touches_def changed_files_def)

lemma touches_keeps: "touches A fs fs' \<Longrightarrow> q \<notin> A \<Longrightarrow> fs_files fs q \<noteq> None \<Longrightarrow> fs_files fs' q \<noteq> None"
  by (simp add: touches_file)

lemma touches_read: "touches A fs fs' \<Longrightarrow> q \<notin> A \<Longrightarrow> read_to_string q fs' = read_to_string q fs"
  by (rule read_to_string_cong) (auto simp: touches_file touches_def)

abbreviation json_files :: "string \<Rightarrow> string set" where
  "json_files p \<equiv> {p, with_extension p ''json.tmp''}"

lemma json_save_touches: "touches (json_files p) fs (snd (json_save unw mal js st p s fs))"
  by (auto simp: json_save_def replace_file_def write_file_def rename_file_def touches_def changed_files_def Let_def
      split: sum.splits option.splits prod.splits if_splits)

lemma json_save_keeps_file: "fs_files fs p \<noteq> None \<Longrightarrow> fs_files (snd (json_save unw mal js st p s fs)) p \<noteq> None"
  by (auto simp: json_save_def replace_file_def write_file_def rename_file_def Let_def
      split: sum.splits option.splits prod.splits if_splits)

lemma json_save_creates: "json_save unw mal js st p s fs = (Inr (), fs') \<Longrightarrow> fs_files fs' p \<noteq> None"
  by (auto simp: json_save_def replace_file_def write_file_def rename_file_def Let_def
      split: sum.splits option.splits prod.splits if_splits)

lemma registry_save_keeps_file: "fs_files fs p \<noteq> None \<Longrightarrow> fs_files (snd (registry_save cr js p r fs)) p \<noteq> None"
  unfolding registry_save_def by (rule json_save_keeps_file)

abbreviation audit_files :: "string \<Rightarrow> string set" where
  "audit_files d \<equiv> {audit_path_in d, with_extension (audit_path_in d) ''jsonl.tmp''}"

lemma append_line_fault: "fs_fault (snd (append_line p line fs)) = fs_fault fs"
  using append_line_outcome [of p line fs "fst (append_line p line fs)" "snd (append_line p line fs)"] by auto

lemma prune_touches: "touches {p, with_extension p ''jsonl.tmp''} fs (snd (prune V clock p fs))"
  by (auto simp: prune_def touches_def changed_files_def replace_file_def write_file_def rename_file_def Let_def case_prod_beta
      split: sum.splits io_error.splits option.splits if_splits)

lemma audit_touches: "touches (audit_files d) fs (audit H n d event device outcome reason fs)"
proof -
  let ?p = "audit_path_in d"
  have a: "touches (audit_files d) fs (snd (append_line ?p line fs))" for line
    using append_line_changes [of fs ?p line] append_line_fault [of ?p line fs] by (auto simp: touches_def)
  have "touches (audit_files d) fs (snd (append_and_prune (ho_values H) c c' d event device outcome r fs))" for c c' r
  proof (cases "append_line ?p (encode_entry (ho_values H) (audit_entry c event device outcome r)) fs")
    case (Pair x fs1)
    then show ?thesis
      using a [of "encode_entry (ho_values H) (audit_entry c event device outcome r)"] touches_trans [OF _ prune_touches, of ?p fs fs1]
      by (cases x) (simp_all add: append_and_prune_def tr_then_def Let_def)
  qed
  then show ?thesis by (simp add: audit_def audit_record_def)
qed

lemma resolve_key_touches: "touches {key_path_in d} fs (snd (resolve_key idn fresh d cmd fs))"
proof (cases "fs_files fs (key_path_in d) = None")
  case True
  obtain r fs' where w: "write_private (key_path_in d) (encode_room_key idn fresh) fs = (r, fs')" by fastforce
  have "touches {key_path_in d} fs fs'"
    using write_private_new [OF w True] by (auto simp: touches_def changed_files_def)
  then show ?thesis by (auto simp: resolve_key_def Let_def w split: sum.splits option.splits)
qed (simp add: resolve_keeps)

text \<open>The daemon's side of a pairing writes the registry at most once.\<close>

lemma accept_device_files:
  "accept_device E registry p served nonce f paired w = Done (r, w') \<Longrightarrow>
   pw_fs w' = pw_fs w \<or> (\<exists>reg. pw_fs w' = snd (registry_save (pe_ident E) (pj_registry (pe_json E)) p reg (pw_fs w)))"
  by (auto simp: accept_device_def then_do_Done save_registry_def Let_def give_def case_prod_beta
      dest!: carrier_keeps_disk(4,5))

lemma run_daemon_side_files:
  assumes "run_daemon_side E url code registry p served rand nonce w = Done (r, w')"
  shows "pw_fs w' = pw_fs w \<or> (\<exists>reg. pw_fs w' = snd (registry_save (pe_ident E) (pj_registry (pe_json E)) p reg (pw_fs w)))"
  using run_daemon_side_cases [OF assms] accept_device_files by fastforce

section \<open>The paths of the state directory are apart\<close>

lemma file_name_with_extension:
  assumes "file_name p \<noteq> []" and "file_name p \<noteq> ''..''" and "CHR ''/'' \<notin> set e"
  shows "file_name (with_extension p e) = file_stem (file_name p) @ ''.'' @ e"
proof -
  let ?n = "file_name p" and ?d = "take (length p - length (file_name p)) p"
  have n: "CHR ''/'' \<notin> set ?n" by (auto simp: file_name_def dest: set_takeWhileD)
  have "set (file_stem ?n) \<subseteq> set ?n"
  proof -
    have "set (tl (dropWhile Q xs)) \<subseteq> set xs" for Q and xs :: string
      by (metis list.set_sel(2) set_dropWhileD subsetI tl_Nil)
    from this [of "\<lambda>c. c \<noteq> CHR ''.''" "rev ?n"] show ?thesis by (simp add: file_stem_def)
  qed
  then have plain: "CHR ''/'' \<notin> set (file_stem ?n @ ''.'' @ e)" using n assms(3) by auto
  have rp: "rev p = rev ?n @ dropWhile (\<lambda>c. c \<noteq> CHR ''/'') (rev p)" by (simp add: file_name_def)
  then have "p = rev (dropWhile (\<lambda>c. c \<noteq> CHR ''/'') (rev p)) @ ?n" by (metis rev_append rev_rev_ident)
  then have "?d = rev (dropWhile (\<lambda>c. c \<noteq> CHR ''/'') (rev p))"
    by (metis append_eq_conv_conj diff_add_inverse2 length_append)
  then have d: "rev ?d = [] \<or> hd (rev ?d) = CHR ''/''" using hd_dropWhile [of "\<lambda>c. c \<noteq> CHR ''/''" "rev p"] by auto
  have "takeWhile (\<lambda>c. c \<noteq> CHR ''/'') (rev (file_stem ?n @ ''.'' @ e) @ rev ?d) = rev (file_stem ?n @ ''.'' @ e)"
  proof -
    have "takeWhile (\<lambda>c. c \<noteq> CHR ''/'') (rev ?d) = []" using d by (cases "rev ?d") auto
    then show ?thesis using plain by (subst takeWhile_append2) auto
  qed
  then show ?thesis using assms(1,2) unfolding with_extension_def Let_def file_name_def
    by simp
qed

lemma state_path_names:
  "file_name (registry_path_in d) = ''devices.json''"
  "file_name (with_extension (registry_path_in d) ''json.tmp'') = ''devices.json.tmp''"
  "file_name (throttle_path_in d) = ''pairing-throttle.json''"
  "file_name (with_extension (throttle_path_in d) ''json.tmp'') = ''pairing-throttle.json.tmp''"
  "file_name (audit_path_in d) = ''audit.jsonl''"
  "file_name (with_extension (audit_path_in d) ''jsonl.tmp'') = ''audit.jsonl.tmp''"
  "file_name (key_path_in d) = ''room-key''"
  "file_name (crash_path_in d) = ''crash-reports.jsonl''"
proof -
  show r: "file_name (registry_path_in d) = ''devices.json''"
    and t: "file_name (throttle_path_in d) = ''pairing-throttle.json''"
    and a: "file_name (audit_path_in d) = ''audit.jsonl''"
    and "file_name (key_path_in d) = ''room-key''"
    and "file_name (crash_path_in d) = ''crash-reports.jsonl''"
    by (simp_all add: registry_path_in_def throttle_path_in_def audit_path_in_def key_path_in_def crash_path_in_def
        AUDIT_FILE_NAME_def ROOM_KEY_FILE_NAME_def CRASH_FILE_NAME_def file_name_join)
  show "file_name (with_extension (registry_path_in d) ''json.tmp'') = ''devices.json.tmp''"
    by (subst file_name_with_extension) (simp_all add: r file_stem_def)
  show "file_name (with_extension (throttle_path_in d) ''json.tmp'') = ''pairing-throttle.json.tmp''"
    by (subst file_name_with_extension) (simp_all add: t file_stem_def)
  show "file_name (with_extension (audit_path_in d) ''jsonl.tmp'') = ''audit.jsonl.tmp''"
    by (subst file_name_with_extension) (simp_all add: a file_stem_def)
qed

lemma apart: "file_name p \<noteq> file_name q \<Longrightarrow> p \<noteq> q"
  by blast

lemma state_has_names: "has_name (registry_path_in d)" "has_name (throttle_path_in d)"
  by (simp_all add: has_name_def state_path_names)

lemma registry_apart:
  "registry_path_in d \<notin> audit_files d" "registry_path_in d \<notin> json_files (throttle_path_in d)"
  "registry_path_in d \<notin> {key_path_in d}" "registry_path_in d \<noteq> crash_path_in d"
  "throttle_path_in d \<notin> audit_files d" "throttle_path_in d \<notin> json_files (registry_path_in d)"
  "throttle_path_in d \<notin> {key_path_in d}" "throttle_path_in d \<noteq> crash_path_in d"
  using state_path_names [of d] by (auto dest: arg_cong [where f = file_name])

section \<open>What a command leaves\<close>

abbreviation home_of :: "('sp, 't, 'v) host \<Rightarrow> string" where
  "home_of H \<equiv> state_resolve (ho_explicit H) (ho_xdg H) (ho_home H)"

lemma state_dir_home: "state_dir H fs = Inr d \<Longrightarrow> d = home_of H"
  by (simp add: state_dir_def Let_def split: sum.splits)

definition command_files :: "string \<Rightarrow> string set" where
  "command_files d = json_files (throttle_path_in d) \<union> audit_files d"

lemma after_success_touches: "touches (command_files d) fs (after_success H d guard en fs)"
  unfolding after_success_def Let_def guard_save_def
  by (rule touches_trans [OF touches_mono [OF json_save_touches] touches_mono [OF audit_touches]])
    (auto simp: command_files_def)

lemma after_failure_touches: "touches (command_files d) fs (after_failure H d guard res error fs)"
proof -
  have a: "touches (command_files d) fs (audit H n d event device outcome reason fs)" for n event device outcome reason fs
    by (rule touches_mono [OF audit_touches]) (simp add: command_files_def)
  have g: "touches (command_files d) fs (snd (guard_save (ho_guard_json H) (throttle_path_in d) guard fs))"
    unfolding guard_save_def by (rule touches_mono [OF json_save_touches]) (auto simp: command_files_def)
  show ?thesis
    using touches_trans [OF touches_trans [OF g a] a] touches_trans [OF g a]
    by (simp add: after_failure_def Let_def split: sum.split)
qed

text \<open>
  A pairing touches the room key's file, then at most the registry, which it only ever replaces by a
  save, and last the throttle's file and the audit log.
\<close>

lemma pair_command_files:
  assumes "pair_command H relay key dw w = Done (r, w')"
  shows "\<exists>fs1 fs2. touches {key_path_in (home_of H)} (pw_fs w) fs1
    \<and> (fs2 = fs1 \<or> (\<exists>reg. fs2 = snd (store_registry H (registry_path_in (home_of H)) reg fs1)))
    \<and> touches (command_files (home_of H)) fs2 (pw_fs w')"
proof -
  have quiet: ?thesis if "touches {key_path_in (home_of H)} (pw_fs w) fs1" "touches (command_files (home_of H)) fs1 (pw_fs w')" for fs1
    using that by blast
  show ?thesis
  proof (cases "relay = None \<or> (\<exists>e. state_dir H (pw_fs w) = Inl e)")
    case True
    then have "w' = w" using assms by (auto simp: pair_command_def split: option.splits)
    then show ?thesis using quiet [of "pw_fs w"] by simp
  next
    case False
    then obtain url d where url: "relay = Some url" and d: "state_dir H (pw_fs w) = Inr d" by (cases "state_dir H (pw_fs w)") auto
    note home = state_dir_home [OF d]
    obtain k fs1 where k: "resolve_key (pe_ident (ho_pairing H)) (dw_room_key dw) d key (pw_fs w) = (k, fs1)" by fastforce
    have t: "touches {key_path_in d} (pw_fs w) fs1"
      using resolve_key_touches [of d "pw_fs w" "pe_ident (ho_pairing H)" "dw_room_key dw" key] k by simp
    let ?w = "w\<lparr>pw_fs := fs1\<rparr>"
    have audited: "touches (command_files d) fs1 (audit H 0 d PairingRefused None OutcomeRefused reason fs1)" for reason
      by (rule touches_mono [OF audit_touches]) (simp add: command_files_def)
    consider "pw_fs w' = fs1" | reason where "pw_fs w' = audit H 0 d PairingRefused None OutcomeRefused reason fs1"
      | root registry guard where "pair_exchange H d url root registry guard dw ?w = Done (r, w')"
      using assms
      by (auto simp: pair_command_def url d k Let_def on_disk_def split: sum.splits)
    then show ?thesis
    proof cases
      case 3
      then obtain x w1 where run: "run_daemon_side (ho_pairing H) url (dw_code dw) registry (registry_path_in d) root (dw_spake dw) (dw_nonce dw) ?w = Done (x, w1)"
        and after: "touches (command_files d) (pw_fs w1) (pw_fs w')"
        by (auto simp: pair_exchange_def on_disk_def Let_def after_success_touches after_failure_touches
            split: run.splits prod.splits sum.splits)
      from run_daemon_side_files [OF run] t after show ?thesis unfolding home by auto
    qed (use quiet t audited in \<open>simp_all add: home\<close>)
  qed
qed

lemma devices_command_files:
  "\<exists>fs1. (fs1 = fs \<or> (\<exists>reg. fs1 = snd (store_registry H (registry_path_in (home_of H)) reg fs)))
     \<and> touches (command_files (home_of H)) fs1 (snd (devices_command H i fs))"
proof (cases "state_dir H fs")
  case (Inr d)
  note home = state_dir_home [OF Inr]
  have a: "touches (command_files d) fs1 (audit H n d event device outcome reason fs1)" for n event device outcome reason fs1
    by (rule touches_mono [OF audit_touches]) (simp add: command_files_def)
  have same: ?thesis if "snd (devices_command H i fs) = fs \<or> snd (devices_command H i fs) = audit H 0 d event device outcome reason fs"
    for event device outcome reason
    using that a [of fs] home by auto
  show ?thesis
  proof (cases "load_registry H (registry_path_in d) fs")
    case L: (Inr registry)
    show ?thesis
    proof (cases i)
      case I: (Some t)
      show ?thesis
      proof (cases "id_from_base64url (pe_ident (ho_pairing H)) t")
        case T: (Inr target)
        obtain removed registry' where rv: "revoke target registry = (removed, registry')" by fastforce
        obtain res fs1 where st: "store_registry H (registry_path_in d) registry' fs = (res, fs1)" by fastforce
        show ?thesis
        proof (cases removed)
          case True
          have "touches (command_files d) fs1 (snd (devices_command H i fs))"
            using a by (cases res) (simp_all add: devices_command_def Inr L I T rv st True Let_def)
          moreover have "fs1 = snd (store_registry H (registry_path_in d) registry' fs)" using st by simp
          ultimately show ?thesis unfolding home by blast
        next
          case False
          then have "snd (devices_command H i fs) =
              audit H 0 d DeviceRevoked (Some t) OutcomeRefused ''no device with that id is enrolled'' fs"
            by (simp add: devices_command_def Inr L I T rv Let_def)
          then show ?thesis using same by blast
        qed
      qed (use same in \<open>simp add: devices_command_def Inr L I Let_def\<close>)
    qed (use same in \<open>simp add: devices_command_def Inr L Let_def\<close>)
  qed (use same in \<open>simp add: devices_command_def Inr Let_def\<close>)
qed (auto simp: devices_command_def intro!: exI [of _ fs])

lemma log_commands_touch:
  "touches {crash_path_in (home_of H)} fs (snd (crashes_command H clear fs))"
  "touches {audit_path_in (home_of H)} fs (snd (audit_command H clear fs))"
proof -
  have c: "touches {p} fs (snd (clear_log p fs))" for p
    by (auto simp: clear_log_def remove_file_def touches_def changed_files_def split: option.splits io_error.splits)
  show "touches {crash_path_in (home_of H)} fs (snd (crashes_command H clear fs))"
    using c [of "crash_path_in (home_of H)"] state_dir_home [of H fs]
    by (cases "state_dir H fs") (auto simp: crashes_command_def crash_clear_def Let_def split: sum.splits prod.splits)
  show "touches {audit_path_in (home_of H)} fs (snd (audit_command H clear fs))"
    using c [of "audit_path_in (home_of H)"] state_dir_home [of H fs]
    by (cases "state_dir H fs") (auto simp: audit_command_def audit_clear_def Let_def split: sum.splits prod.splits)
qed

section \<open>A paired daemon keeps its door\<close>

text \<open>
  What may happen to the state directory, in any order and any number of times: the environment starts
  or stops refusing calls, an operator's command finishes, however it ends, a daemon starts and takes
  its room key, and a serving daemon answers a message.
\<close>

inductive operated :: "('sp, 't, 'v) host \<Rightarrow> fs \<Rightarrow> fs \<Rightarrow> bool" for H fs0 where
  begun: "operated H fs0 fs0"
| weather: "operated H fs0 fs \<Longrightarrow> operated H fs0 (fs\<lparr>fs_fault := faults, fs_torn := torn\<rparr>)"
| pairing: "operated H fs0 fs \<Longrightarrow>
    pair_command H relay key dw \<lparr>pw_carrier = c, pw_fs = fs\<rparr> = Done (r, w') \<Longrightarrow> operated H fs0 (pw_fs w')"
| devices: "operated H fs0 fs \<Longrightarrow> operated H fs0 (snd (devices_command H i fs))"
| crashes: "operated H fs0 fs \<Longrightarrow> operated H fs0 (snd (crashes_command H clear fs))"
| audits: "operated H fs0 fs \<Longrightarrow> operated H fs0 (snd (audit_command H clear fs))"
| started: "operated H fs0 fs \<Longrightarrow> operated H fs0 (snd (resolve_key idn fresh (home_of H) key fs))"
| served: "operated H fs0 fs \<Longrightarrow> df_state_dir facts = home_of H \<Longrightarrow>
    operated H fs0 (snd (control_exchange (E :: 'v control_env) payload facts later fs))"

lemma control_exchange_keeps_registry:
  assumes "df_state_dir facts = home_of H"
  shows "fs_files (snd (control_exchange E payload facts later fs)) (registry_path_in (home_of H)) =
    fs_files fs (registry_path_in (home_of H))"
  using control_exchange_changes [of fs E payload facts later] registry_apart [of "home_of H"] assms
  by (auto simp: changed_files_def control_files_def)

lemma operated_keeps_registry:
  assumes "operated H fs0 fs" and "fs_files fs0 (registry_path_in (home_of H)) \<noteq> None"
  shows "fs_files fs (registry_path_in (home_of H)) \<noteq> None"
  using assms(1)
proof induction
  case (pairing fs relay key dw c r w')
  let ?d = "home_of H"
  from pair_command_files [OF pairing.hyps(2)] obtain fs1 fs2 where
    t: "touches {key_path_in ?d} fs fs1" "touches (command_files ?d) fs2 (pw_fs w')"
    and s: "fs2 = fs1 \<or> (\<exists>reg. fs2 = snd (store_registry H (registry_path_in ?d) reg fs1))" by auto
  have "fs_files fs1 (registry_path_in ?d) \<noteq> None"
    by (rule touches_keeps [OF t(1) _ pairing.IH]) (use registry_apart [of ?d] in simp)
  then have "fs_files fs2 (registry_path_in ?d) \<noteq> None" using s registry_save_keeps_file [of fs1 "registry_path_in ?d"] by metis
  then show ?case
    by (intro touches_keeps [OF t(2)]) (use registry_apart [of ?d] in \<open>simp_all add: command_files_def\<close>)
next
  case (devices fs i)
  let ?d = "home_of H"
  from devices_command_files [of fs H i] obtain fs1 where
    t: "touches (command_files ?d) fs1 (snd (devices_command H i fs))"
    and s: "fs1 = fs \<or> (\<exists>reg. fs1 = snd (store_registry H (registry_path_in ?d) reg fs))" by auto
  have "fs_files fs1 (registry_path_in ?d) \<noteq> None"
    using s registry_save_keeps_file [of fs "registry_path_in ?d"] devices.IH by metis
  then show ?case
    by (intro touches_keeps [OF t]) (use registry_apart [of ?d] in \<open>simp_all add: command_files_def\<close>)
next
  case (crashes fs clear)
  then show ?case
    by (intro touches_keeps [OF log_commands_touch(1)]) (use registry_apart [of "home_of H"] in simp_all)
next
  case (audits fs clear)
  then show ?case
    by (intro touches_keeps [OF log_commands_touch(2)]) (use registry_apart [of "home_of H"] in simp_all)
next
  case (started fs idn fresh key)
  then show ?case
    by (intro touches_keeps [OF resolve_key_touches]) (use registry_apart [of "home_of H"] in simp_all)
next
  case (served fs facts E payload later)
  then show ?case by (simp add: control_exchange_keeps_registry)
qed (use assms(2) in simp_all)


section \<open>A refusal costs nothing, a failure is counted\<close>

text \<open>
  Safety: a pairing the throttle refuses dials nothing and draws no code: the carrier is as it
  was, and besides the room key's file, which a first run creates, only the audit log changed. The
  refusal is the one the stored guard gives at that time.
\<close>

theorem refused_pairing_costs_nothing:
  assumes "pair_command H relay key dw w = Done (Inl (RefusedByThrottle t), w')"
  shows "pw_carrier w' = pw_carrier w
    \<and> changed_files (pw_fs w) (pw_fs w') \<subseteq> insert (key_path_in (home_of H)) (audit_files (home_of H))
    \<and> (\<exists>g. guard_load (ho_guard_json H) (throttle_path_in (home_of H)) (pw_fs w) = Inr g
         \<and> guard_check g (dw_now dw) = Inl t)"
proof -
  obtain url where url: "relay = Some url" using assms by (cases relay) (auto simp: pair_command_def)
  obtain d where d: "state_dir H (pw_fs w) = Inr d" using assms url by (cases "state_dir H (pw_fs w)") (auto simp: pair_command_def)
  note home = state_dir_home [OF d]
  obtain k fs1 where k: "resolve_key (pe_ident (ho_pairing H)) (dw_room_key dw) d key (pw_fs w) = (k, fs1)" by fastforce
  have t1: "touches {key_path_in d} (pw_fs w) fs1"
    using resolve_key_touches [of d "pw_fs w" "pe_ident (ho_pairing H)" "dw_room_key dw" key] k by simp
  have never: "pair_exchange H d url root registry guard dw w1 \<noteq> Done (Inl (RefusedByThrottle t), w2)" for root registry guard w1 w2
    by (auto simp: pair_exchange_def Let_def split: run.splits sum.splits prod.splits)
  from assms never obtain g where g: "guard_load (ho_guard_json H) (throttle_path_in d) fs1 = Inr g" "guard_check g (dw_now dw) = Inl t"
    and w': "w' = on_disk (audit H 0 d PairingRefused None OutcomeRefused (throttled_text t)) (w\<lparr>pw_fs := fs1\<rparr>)"
    by (auto simp: pair_command_def url d k Let_def split: sum.splits)
  have "touches (insert (key_path_in d) (audit_files d)) (pw_fs w) (pw_fs w')"
    unfolding w' on_disk_def
    by (auto intro!: touches_trans [OF touches_mono [OF t1] touches_mono [OF audit_touches]])
  moreover have "guard_load (ho_guard_json H) (throttle_path_in d) (pw_fs w) = Inr g"
    using g(1) touches_read [OF t1, of "throttle_path_in d"] registry_apart [of d] by (simp add: guard_load_def json_load_def)
  ultimately show ?thesis using g(2) w' home by (auto simp: touches_def on_disk_def)
qed

lemma on_throttle_file:
  assumes "touches A fs fs'" and "throttle_path_in d \<notin> A"
  shows "guard_load js (throttle_path_in d) fs' = guard_load js (throttle_path_in d) fs"
  using touches_read [OF assms] by (simp add: guard_load_def json_load_def)

lemma registry_save_touches: "touches (json_files p) fs (snd (registry_save cr js p r fs))"
  unfolding registry_save_def by (rule json_save_touches)

text \<open>A pairing that fails is in the throttle's file when the command ends.\<close>

lemma failed_pairing_is_counted:
  assumes run: "pair_command H relay key dw w = Done (Inr ExitFailure, w')"
    and calm: "fs_fault (pw_fs w) = (\<lambda>_. None)"
    and js: "json_contract (ho_guard_json H)" "writes_all (ho_guard_json H)"
  defines "load fs \<equiv> guard_load (ho_guard_json H) (throttle_path_in (home_of H)) fs"
  shows "fs_fault (pw_fs w') = (\<lambda>_. None)
    \<and> (\<exists>g throttled g'. load (pw_fs w) = Inr g \<and> guard_check g (dw_now dw) = Inr ()
         \<and> record_failure (dw_failed_at dw) g = Done (throttled, g')
         \<and> load (pw_fs w') = Inr (guard_unstored (guard_stored g')))"
proof -
  obtain url where url: "relay = Some url" using run by (cases relay) (auto simp: pair_command_def)
  obtain d where d: "state_dir H (pw_fs w) = Inr d" using run url by (cases "state_dir H (pw_fs w)") (auto simp: pair_command_def)
  note home = state_dir_home [OF d]
  obtain k fs1 where k: "resolve_key (pe_ident (ho_pairing H)) (dw_room_key dw) d key (pw_fs w) = (k, fs1)" by fastforce
  have t1: "touches {key_path_in d} (pw_fs w) fs1"
    using resolve_key_touches [of d "pw_fs w" "pe_ident (ho_pairing H)" "dw_room_key dw" key] k by simp
  obtain root registry g where g: "load fs1 = Inr g" "guard_check g (dw_now dw) = Inr ()"
    and ex: "pair_exchange H d url root registry g dw (w\<lparr>pw_fs := fs1\<rparr>) = Done (Inr ExitFailure, w')"
    using run by (auto simp: pair_command_def url d k Let_def load_def home [symmetric] split: sum.splits)
  obtain error w1 throttled g' where side: "run_daemon_side (ho_pairing H) url (dw_code dw) registry (registry_path_in d) root
      (dw_spake dw) (dw_nonce dw) (w\<lparr>pw_fs := fs1\<rparr>) = Done (Inl error, w1)"
    and rf: "record_failure (dw_failed_at dw) g = Done (throttled, g')"
    and w': "pw_fs w' = after_failure H d g' throttled error (pw_fs w1)"
    using ex by (auto simp: pair_exchange_def on_disk_def Let_def split: run.splits sum.splits prod.splits)
  have t2: "touches (json_files (registry_path_in d)) fs1 (pw_fs w1)"
    using run_daemon_side_files [OF side] registry_save_touches by fastforce
  then have calm1: "fs_fault (pw_fs w1) = (\<lambda>_. None)" using t1 calm by (simp add: touches_def)
  obtain t where t: "to_json (ho_guard_json H) (guard_stored g') = Inr t" using js(2) by (auto simp: writes_all_def)
  from json_save_without_faults [OF calm1, of "ho_guard_json H" guard_stored g' t] t obtain fs2
    where s: "guard_save (ho_guard_json H) (throttle_path_in d) g' (pw_fs w1) = (Inr (), fs2)"
    unfolding guard_save_def by blast
  have l2: "guard_load (ho_guard_json H) (throttle_path_in d) fs2 = Inr (guard_unstored (guard_stored g'))"
    by (rule guard_file.save_ok [OF js(1) state_has_names(2) s]) (simp add: calm1)
  have t3: "touches (audit_files d) fs2 (pw_fs w')"
    unfolding w' after_failure_def
    by (simp add: Let_def s audit_touches touches_trans [OF audit_touches audit_touches] split: sum.split)
  have l3: "load (pw_fs w') = Inr (guard_unstored (guard_stored g'))"
    using l2 on_throttle_file [OF t3] registry_apart [of d] by (simp add: load_def home [symmetric])
  have "fs_fault fs2 = (\<lambda>_. None)" using guard_file.save_faults [OF s] calm1 by simp
  then have "fs_fault (pw_fs w') = (\<lambda>_. None)" using t3 by (simp add: touches_def)
  moreover have "load (pw_fs w) = Inr g"
    using g(1) on_throttle_file [OF t1] registry_apart [of d] by (simp add: load_def home [symmetric])
  ultimately show ?thesis using g(2) rf l3 by blast
qed

text \<open>Pairings that failed one after the other, undisturbed, the last one at the given time.\<close>

inductive failed_pairings :: "('sp, 't, 'v) host \<Rightarrow> fs \<Rightarrow> nat \<Rightarrow> int \<Rightarrow> fs \<Rightarrow> bool" for H fs0 where
  none: "failed_pairings H fs0 0 0 fs0"
| again: "failed_pairings H fs0 n t fs \<Longrightarrow>
    pair_command H relay key dw \<lparr>pw_carrier = c, pw_fs = fs\<rparr> = Done (Inr ExitFailure, w') \<Longrightarrow>
    0 \<le> dw_failed_at dw \<Longrightarrow> failed_pairings H fs0 (Suc n) (dw_failed_at dw) (pw_fs w')"

lemma failed_pairings_guard:
  assumes "failed_pairings H fs0 n t fs" and "n \<le> 5"
    and "fs_fault fs0 = (\<lambda>_. None)" and "fs_files fs0 (throttle_path_in (home_of H)) = None"
    and js: "json_contract (ho_guard_json H)" "writes_all (ho_guard_json H)"
  shows "fs_fault fs = (\<lambda>_. None)
    \<and> (\<exists>g. guard_load (ho_guard_json H) (throttle_path_in (home_of H)) fs = Inr g
         \<and> (n < 5 \<longrightarrow> pg_failures g = of_nat n)
         \<and> (n = 5 \<longrightarrow> pg_locked_until g = Some (secs (t div 1000000000 + 300))))"
  using assms(1,2)
proof induction
  case none
  have "guard_load (ho_guard_json H) (throttle_path_in (home_of H)) fs0 = Inr guard_new"
    by (rule guard_file.load_missing) (simp_all add: assms(3,4))
  then show ?case using assms(3) by (simp add: guard_new_def)
next
  case (again n t fs relay key dw c w')
  then obtain g where calm: "fs_fault fs = (\<lambda>_. None)" and n: "pg_failures g = of_nat n"
    and load: "guard_load (ho_guard_json H) (throttle_path_in (home_of H)) fs = Inr g" by auto
  from failed_pairing_is_counted [OF again.hyps(2) _ js] calm load obtain throttled g' where
    calm': "fs_fault (pw_fs w') = (\<lambda>_. None)" and rf: "record_failure (dw_failed_at dw) g = Done (throttled, g')"
    and load': "guard_load (ho_guard_json H) (throttle_path_in (home_of H)) (pw_fs w') = Inr (guard_unstored (guard_stored g'))"
    by auto
  have count: "saturating_add (pg_failures g) 1 = (of_nat (Suc n) :: u32)"
    and five: "(5 :: u32) \<le> of_nat (Suc n) \<longleftrightarrow> Suc n = 5"
    using saturating_count [of n] fifth_count [of n] again.prems n by simp_all
  show ?case
  proof (cases "Suc n = 5")
    case False
    then have "g' = g\<lparr>pg_failures := of_nat (Suc n), pg_last_attempt := Some (dw_failed_at dw)\<rparr>"
      using rf count five by (simp add: record_failure_def Let_def ATTEMPTS_BEFORE_LOCKOUT_def)
    then show ?thesis using calm' load' False again.prems by (simp add: guard_unstored_def guard_stored_def)
  next
    case True
    let ?until = "dw_failed_at dw + LOCKOUT_DURATION"
    have u: "pg_locked_until g' = Some ?until" "?until < TIME_END"
      using rf count five True
      by (auto simp: record_failure_def Let_def ATTEMPTS_BEFORE_LOCKOUT_def time_add_def split: option.splits if_splits)
    have "0 \<le> ?until" using again.hyps(3) by (simp add: LOCKOUT_DURATION_def secs_def)
    from stored_time [OF this u(2)] have "pg_locked_until (guard_unstored (guard_stored g')) = Some (secs (?until div 1000000000))"
      using u(1) by (simp add: guard_unstored_def guard_stored_def)
    moreover have "?until div 1000000000 = dw_failed_at dw div 1000000000 + 300"
      by (simp add: LOCKOUT_DURATION_def secs_def)
    ultimately show ?thesis using calm' load' True by simp
  qed
qed

lemma pair_command_refused:
  assumes "guard_load (ho_guard_json H) (throttle_path_in (home_of H)) (pw_fs w) = Inr g"
    and "guard_check g (dw_now dw) = Inl throttled"
    and "pair_command H relay key dw w = Done (r, w')"
  shows "\<exists>e. r = Inl e \<and> pw_carrier w' = pw_carrier w
    \<and> touches (insert (key_path_in (home_of H)) (audit_files (home_of H))) (pw_fs w) (pw_fs w')"
proof (cases relay)
  case (Some url)
  show ?thesis
  proof (cases "state_dir H (pw_fs w)")
    case (Inr d)
    note home = state_dir_home [OF Inr]
    obtain k fs1 where k: "resolve_key (pe_ident (ho_pairing H)) (dw_room_key dw) d key (pw_fs w) = (k, fs1)" by fastforce
    have t1: "touches {key_path_in d} (pw_fs w) fs1"
      using resolve_key_touches [of d "pw_fs w" "pe_ident (ho_pairing H)" "dw_room_key dw" key] k by simp
    have g: "guard_load (ho_guard_json H) (throttle_path_in d) fs1 = Inr g"
      using assms(1) on_throttle_file [OF t1] registry_apart [of d] home by simp
    have t: "touches (insert (key_path_in d) (audit_files d)) (pw_fs w) (audit H n d event device outcome reason fs1)"
      "touches (insert (key_path_in d) (audit_files d)) (pw_fs w) fs1" for n event device outcome reason
      by (auto intro!: touches_trans [OF touches_mono [OF t1] touches_mono [OF audit_touches]] touches_mono [OF t1])
    show ?thesis
      using assms(3) t by (auto simp: pair_command_def Some Inr k g assms(2) on_disk_def Let_def home [symmetric] split: sum.splits)
  qed (use assms(3) in \<open>auto simp: pair_command_def Some\<close>)
qed (use assms(3) in \<open>auto simp: pair_command_def\<close>)

text \<open>
  C13. Bound: five failed pairings lock the door to guessing. However the five ended, for five minutes
  after the last of them, to within the second the file keeps, a pairing stops with an error before
  it dials: its carrier and the registry are as they were.
\<close>

theorem five_failures_lock_out:
  assumes "failed_pairings H fs0 5 t fs"
    and "fs_fault fs0 = (\<lambda>_. None)" and "fs_files fs0 (throttle_path_in (home_of H)) = None"
    and "json_contract (ho_guard_json H)" and "writes_all (ho_guard_json H)"
    and "dw_now dw < secs (t div 1000000000 + 300)"
    and "pair_command H relay key dw \<lparr>pw_carrier = c, pw_fs = fs\<rparr> = Done (r, w')"
  shows "\<exists>e. r = Inl e \<and> pw_carrier w' = c
    \<and> fs_files (pw_fs w') (registry_path_in (home_of H)) = fs_files fs (registry_path_in (home_of H))"
proof -
  from failed_pairings_guard [OF assms(1) _ assms(2-5)] obtain g where
    g: "guard_load (ho_guard_json H) (throttle_path_in (home_of H)) fs = Inr g"
      "pg_locked_until g = Some (secs (t div 1000000000 + 300))" by auto
  then obtain throttled where "guard_check g (dw_now dw) = Inl throttled" using assms(6) by (auto simp: guard_check_def)
  from pair_command_refused [OF _ this assms(7)] g obtain e where
    "r = Inl e \<and> pw_carrier w' = c \<and> touches (insert (key_path_in (home_of H)) (audit_files (home_of H))) fs (pw_fs w')"
    by auto
  then show ?thesis using touches_file registry_apart [of "home_of H"] by auto
qed

section \<open>A revoked device\<close>

lemma registry_load_inv: "registry_load cr js p fs = Inr r \<Longrightarrow> registry_inv cr r"
proof -
  assume l: "registry_load cr js p fs = Inr r"
  consider "r = registry_new"
    | t s where "read_to_string p fs = Inr t" "from_json js t = Inr s" "enrol_stored cr p (sr_devices s) registry_new = Inr r"
    using l by (auto simp: registry_load_def json_load_def and_then_Inr_iff split: sum.splits io_error.splits)
  then show ?thesis
  proof cases
    case 2
    let ?h = "map (\<lambda>d. Enrol (DevicePublicKey (sd_public_key d)) (sd_label d)) (sr_devices s)"
    have "keys_valid cr ?h" using enrol_stored_Inr [OF 2(3)] by (auto simp: keys_valid_def)
    then show ?thesis using enrol_stored_Inr [OF 2(3)] registry_run_inv [of cr registry_new ?h] by simp
  qed simp
qed

lemma unknown_device_is_refused:
  assumes "json_from_slice (te_response E) bytes = Some response"
    and "id_from_base64url (te_ident E) (dr_device_id response) = Inr target"
    and "tp_policy t = Enrolled registry" and "challenge_key target registry = None"
  shows "\<exists>why. fst (check_response E nonce bytes t) = Inl (TrDeviceRefused why)"
  using assms by (auto simp: check_response_def refuse_after_def Let_def)

text \<open>
  C12. Safety: once \<open>devices --revoke\<close> reports that it removed an enrolled device, the policy a daemon
  starts with is the registry without that device, all others kept, the empty registry included;
  and under it an answer that names the device is refused whatever its signature.
\<close>

theorem revoked_device_is_refused:
  assumes "devices_command H (Some i) fs = (Inr out, fs')"
    and "load_registry H (registry_path_in (home_of H)) fs = Inr registry"
    and "id_from_base64url (pe_ident (ho_pairing H)) i = Inr target" and "contains target registry"
    and "json_contract (pj_registry (pe_json (ho_pairing H)))" and "fs_fault fs = (\<lambda>_. None)"
  shows "\<exists>registry'. load_policy H fs' = Inr (Enrolled registry')
    \<and> (\<forall>j. challenge_key j registry' = (if j = target then None else challenge_key j registry))
    \<and> (\<forall>E nonce bytes response t. te_ident E = pe_ident (ho_pairing H) \<longrightarrow> tp_policy t = Enrolled registry' \<longrightarrow>
         json_from_slice (te_response E) bytes = Some response \<longrightarrow> dr_device_id response = i \<longrightarrow>
         (\<exists>why. fst (check_response E nonce bytes t) = Inl (TrDeviceRefused why)))"
proof -
  let ?d = "home_of H"
  obtain r where rv: "revoke target registry = (True, r)" using assms(4) by (simp add: revoke_def contains_def)
  then have r: "snd (revoke target registry) = r" by simp
  have d: "state_dir H fs = Inr ?d" "state_dir H fs'' = Inr ?d" if "fs_fault fs'' = fs_fault fs" for fs''
    using assms(6) that by (simp_all add: state_dir_def create_dir_all_def Let_def)
  obtain res fs1 where s: "store_registry H (registry_path_in ?d) r fs = (res, fs1)" by fastforce
  have run: "snd (devices_command H (Some i) fs) =
        (if isl res then fs1 else audit H 0 ?d DeviceRevoked (Some i) OutcomeOk ''revoked by an operator on this machine'' fs1)"
      "isl (fst (devices_command H (Some i) fs)) = isl res"
    by (cases res; simp add: devices_command_def d(1) [OF refl] assms(2,3) rv s Let_def)+
  then have res: "res = Inr ()" and fs': "fs' = audit H 0 ?d DeviceRevoked (Some i) OutcomeOk ''revoked by an operator on this machine'' fs1"
    using assms(1) by (cases res; simp)+
  have inv: "registry_inv (pe_ident (ho_pairing H)) r" using revoke_inv [OF registry_load_inv [OF assms(2)], of target] r by simp
  have l1: "load_registry H (registry_path_in ?d) fs1 = Inr r"
    by (rule registry_file.save_ok [OF conjI [OF assms(5) inv] state_has_names(1) s [unfolded res]]) (simp add: assms(6))
  have f1: "fs_fault fs1 = fs_fault fs" by (rule registry_file.save_faults [OF s])
  have t: "touches (audit_files ?d) fs1 fs'" unfolding fs' by (rule audit_touches)
  have l: "load_registry H (registry_path_in ?d) fs' = Inr r"
    using l1 touches_read [OF t, of "registry_path_in ?d"] registry_apart [of ?d] by (simp add: registry_load_def json_load_def)
  have "fs_files fs1 (registry_path_in ?d) \<noteq> None"
    using s res json_save_creates unfolding registry_save_def by metis
  then have "fs_files fs' (registry_path_in ?d) \<noteq> None"
    by (intro touches_keeps [OF t]) (use registry_apart [of ?d] in simp_all)
  then have p: "load_policy H fs' = Inr (Enrolled r)"
    using l d(2) [of fs'] t f1 assms(6) by (simp add: load_policy_def path_exists_def touches_def Let_def)
  have k: "challenge_key j r = (if j = target then None else challenge_key j registry)" for j
    unfolding r [symmetric] by (simp add: challenge_key_def revoke_def bt_get_del)
  then show ?thesis using p unknown_device_is_refused assms(3) by (intro exI [of _ r]) auto
qed

section \<open>What the operator is told\<close>

text \<open>With no registry file the list says nobody is served, yet the policy is the room key alone.\<close>

lemma unpaired_daemon_is_open:
  assumes "fs_fault fs = (\<lambda>_. None)" and "fs_files fs (registry_path_in (home_of H)) = None"
  shows "load_policy H fs = Inr RoomKeyOnly"
    and "fst (devices_command H None fs) =
      Inr [''no devices are enrolled, so this daemon serves nobody.'', ''run `drdshd pair` to enrol one.'']"
proof -
  have d: "state_dir H fs = Inr (home_of H)" using assms(1) by (simp add: state_dir_def create_dir_all_def Let_def)
  have l: "load_registry H (registry_path_in (home_of H)) fs = Inr registry_new"
    by (rule registry_file.load_missing) (simp_all add: assms)
  show "load_policy H fs = Inr RoomKeyOnly" using d l assms(2) by (simp add: load_policy_def path_exists_def Let_def)
  show "fst (devices_command H None fs) =
      Inr [''no devices are enrolled, so this daemon serves nobody.'', ''run `drdshd pair` to enrol one.'']"
    using d l by (simp add: devices_command_def device_lines_def registry_is_empty_def registry_new_def Let_def)
qed

text \<open>A failure that cannot be written is not counted.\<close>

lemma unwritable_throttle_forgets:
  assumes "fs_fault fs (WriteCall (with_extension (throttle_path_in d) ''json.tmp'')) \<noteq> None"
  shows "guard_load (ho_guard_json H) (throttle_path_in d) (after_failure H d guard' throttled error fs) =
    guard_load (ho_guard_json H) (throttle_path_in d) fs"
proof -
  have t: "touches (audit_files d) fs1 (audit H n d event device outcome reason fs1)" for fs1 n event device outcome reason
    by (rule audit_touches)
  have apart: "throttle_path_in d \<notin> audit_files d" using registry_apart [of d] by simp
  have "fs_files (snd (guard_save (ho_guard_json H) (throttle_path_in d) guard' fs)) (throttle_path_in d) = fs_files fs (throttle_path_in d)
      \<and> fs_fault (snd (guard_save (ho_guard_json H) (throttle_path_in d) guard' fs)) = fs_fault fs"
    using assms json_tmp_differs [OF state_has_names(2), of d]
    by (auto simp: guard_save_def json_save_def replace_file_def write_file_def split: sum.split option.split)
  then have "guard_load (ho_guard_json H) (throttle_path_in d) (snd (guard_save (ho_guard_json H) (throttle_path_in d) guard' fs)) =
      guard_load (ho_guard_json H) (throttle_path_in d) fs"
    using read_to_string_cong by (simp add: guard_load_def json_load_def cong: read_to_string_cong)
  then show ?thesis
    by (simp add: after_failure_def Let_def on_throttle_file [OF t apart] split: sum.split)
qed

text \<open>Lines that cannot be parsed are counted among no entries and are not printed.\<close>

lemma unreadable_lines_are_not_shown:
  assumes "\<forall>line \<in> set ls. parse_entry V line = None" and "ls \<noteq> []"
  shows "audit_lines V path (foldl (read_line V cutoff) empty_read ls) =
    [''0 audit event(s) at '' @ path @ '' (keeping '' @ decimal (MAX_AGE_MS div 86400000) @ '' days / ''
       @ decimal MAX_LINES @ '' lines, newest last):'', [],
     ''delete them with `drdshd audit --clear`. Nothing here was ever sent anywhere.'']"
proof -
  have "foldl (read_line V cutoff) r ls = r\<lparr>ar_unreadable := ar_unreadable r @ ls\<rparr>" for r
    using assms(1) by (induction ls arbitrary: r) (simp_all add: read_line_def)
  then show ?thesis using assms(2) by (simp add: audit_lines_def empty_read_def too_old_lines_def decimal.simps [of 0])
qed

section \<open>Examples\<close>

text \<open>A host whose state directory is \<open>/state\<close>, with auditing off and a carrier on which nothing arrives.\<close>

definition demo_guard_json :: "stored_guard json" where
  "demo_guard_json = field_json
     (\<lambda>g. [put_u32 (sg_failures g),
           (case sg_last_attempt g of None \<Rightarrow> [] | Some t \<Rightarrow> put_u64 t),
           (case sg_locked_until g of None \<Rightarrow> [] | Some t \<Rightarrow> put_u64 t)])
     (\<lambda>p. case p of
            [f, l, u] \<Rightarrow> Some \<lparr>sg_failures = get_u32 f,
              sg_last_attempt = (if l = [] then None else Some (get_u64 l)),
              sg_locked_until = (if u = [] then None else Some (get_u64 u))\<rparr>
          | _ \<Rightarrow> None)"

lemma demo_guard_json_contract: "json_contract demo_guard_json" "writes_all demo_guard_json"
proof -
  have u64: "put_u64 x \<noteq> []" for x :: u64 using length_put(3) [of x] by (cases "put_u64 x") simp_all
  show "json_contract demo_guard_json"
    unfolding demo_guard_json_def
    by (rule field_json_contract) (auto simp: u64 split: option.split)
  show "writes_all demo_guard_json" unfolding demo_guard_json_def by (rule field_json_writes_all)
qed

definition demo_host :: "(byte list, script, demo_value) host" where
  "demo_host = \<lparr>ho_pairing = demo_pairing_env, ho_guard_json = demo_guard_json, ho_values = demo_values,
     ho_explicit = Some ''/state'', ho_xdg = None, ho_home = None, ho_audit_env = Some ''0'',
     ho_clock = (\<lambda>_. None), ho_error = (\<lambda>_. ''error'')\<rparr>"

definition demo_room_key :: string where "demo_room_key = replicate 32 CHR ''k''"

definition demo_draws :: "int \<Rightarrow> pair_draws" where
  "demo_draws t = \<lparr>dw_room_key = [], dw_code = [1, 2, 3, 4, 5], dw_spake = [], dw_nonce = [],
     dw_now = t, dw_failed_at = t\<rparr>"

definition silent :: "fs \<Rightarrow> script pairing_world" where
  "silent fs = \<lparr>pw_carrier = \<lparr>sc_in = [], sc_out = []\<rparr>, pw_fs = fs\<rparr>"

lemma demo_home: "home_of demo_host = ''/state''"
  by (simp add: demo_host_def state_resolve_def)

lemma demo_audit [simp]: "audit demo_host n d event device outcome reason = (\<lambda>fs. fs)"
  by (rule ext) (simp add: audit_def audit_record_def demo_host_def enabled_from_def)

lemma demo_start:
  assumes "fs_fault fs = (\<lambda>_. None)" and "fs_files fs (key_path_in ''/state'') = None"
  shows "state_dir demo_host fs = Inr ''/state''"
    and "\<exists>k. resolve_key demo_ident fresh ''/state'' (Some demo_room_key) fs = (Inr k, fs)"
proof -
  show "state_dir demo_host fs = Inr ''/state''"
    using assms(1) demo_home by (simp add: state_dir_def create_dir_all_def Let_def)
  have "trim demo_room_key = demo_room_key"
    by (rule trim_url(2)) (simp add: demo_room_key_def url_char_def list_all_iff)
  then have "decode_room_key demo_ident demo_room_key = Inr (as_bytes demo_room_key)"
    by (simp add: decode_room_key_def demo_ident_def demo_room_key_def SESSION_KEY_LEN_def)
  then show "\<exists>k. resolve_key demo_ident fresh ''/state'' (Some demo_room_key) fs = (Inr k, fs)"
    using assms by (simp add: resolve_key_def read_stored_def read_to_string_def Let_def)
qed

lemma demo_silence:
  "\<exists>e c. run_daemon_side demo_pairing_env url code registry p served rand nonce (silent fs) =
     Done (Inl e, \<lparr>pw_carrier = c, pw_fs = fs\<rparr>)"
proof -
  have c: "pe_carrier demo_pairing_env = script_carrier" by (simp add: demo_pairing_env_def)
  obtain d mb where d: "daemon_begin (pe_pake demo_pairing_env) code rand = (d, mb)" by fastforce
  show ?thesis
    unfolding run_daemon_side_def script_simps(1) [OF c]
    by (simp add: script_simps [OF c] d silent_def)
      (simp add: then_do_def receive_def on_carrier_def c script_carrier_def)
qed

lemma demo_failure:
  assumes "fs_fault fs = (\<lambda>_. None)" and "fs_files fs (key_path_in ''/state'') = None"
    and "fs_files fs (registry_path_in ''/state'') = None"
    and "guard_load demo_guard_json (throttle_path_in ''/state'') fs = Inr g" and "guard_check g t = Inr ()"
    and "record_failure t g = Done (throttled, g')"
  shows "\<exists>w'. pair_command demo_host (Some []) (Some demo_room_key) (demo_draws t) (silent fs) = Done (Inr ExitFailure, w')
    \<and> pw_fs w' = snd (guard_save demo_guard_json (throttle_path_in ''/state'') g' fs)"
proof -
  obtain k where k: "resolve_key demo_ident [] ''/state'' (Some demo_room_key) fs = (Inr k, fs)"
    using demo_start(2) [OF assms(1,2)] by blast
  have l: "registry_load demo_ident (pj_registry demo_pairing_json) (registry_path_in ''/state'') fs = Inr registry_new"
    by (rule registry_file.load_missing) (simp_all add: assms)
  obtain e c where side: "run_daemon_side demo_pairing_env [] [1, 2, 3, 4, 5] registry_new (registry_path_in ''/state'') (rk_root k) [] []
      (silent fs) = Done (Inl e, \<lparr>pw_carrier = c, pw_fs = fs\<rparr>)"
    using demo_silence by blast
  have h: "ho_pairing demo_host = demo_pairing_env" "ho_guard_json demo_host = demo_guard_json"
    "pe_ident demo_pairing_env = demo_ident" "pe_json demo_pairing_env = demo_pairing_json"
    by (simp_all add: demo_host_def demo_pairing_env_def)
  have s: "silent fs\<lparr>pw_fs := fs\<rparr> = silent fs" "pw_fs (silent fs) = fs" by (simp_all add: silent_def)
  show ?thesis
    using assms(4-6)
    by (simp add: pair_command_def demo_start(1) [OF assms(1,2)] h s demo_draws_def k l pair_exchange_def side
        after_failure_def on_disk_def Let_def split: sum.split)
qed

text \<open>Five failed attempts, ten seconds apart.\<close>

lemma demo_five_failures:
  "n \<le> 5 \<Longrightarrow> \<exists>fs g. failed_pairings demo_host no_faults n (secs (10 * int n)) fs
     \<and> fs_fault fs = (\<lambda>_. None) \<and> fs_files fs (key_path_in ''/state'') = None
     \<and> fs_files fs (registry_path_in ''/state'') = None
     \<and> guard_load demo_guard_json (throttle_path_in ''/state'') fs = Inr g
     \<and> (n < 5 \<longrightarrow> pg_failures g = of_nat n \<and> pg_locked_until g = None)
     \<and> pg_last_attempt g \<in> {None, Some (secs (10 * int n))}"
proof (induction n)
  case 0
  have "guard_load demo_guard_json (throttle_path_in ''/state'') no_faults = Inr guard_new"
    by (rule guard_file.load_missing) (simp_all add: no_faults_def)
  then show ?case using failed_pairings.none [of demo_host no_faults]
    by (auto simp: no_faults_def guard_new_def secs_def)
next
  case (Suc n)
  let ?thr = "throttle_path_in ''/state''" and ?t = "secs (10 * int (Suc n))"
  from Suc obtain fs g where run: "failed_pairings demo_host no_faults n (secs (10 * int n)) fs"
    and fs: "fs_fault fs = (\<lambda>_. None)" "fs_files fs (key_path_in ''/state'') = None"
      "fs_files fs (registry_path_in ''/state'') = None"
    and g: "guard_load demo_guard_json ?thr fs = Inr g" "pg_failures g = of_nat n" "pg_locked_until g = None"
      "pg_last_attempt g \<in> {None, Some (secs (10 * int n))}" by auto
  have check: "guard_check g ?t = Inr ()" using g(3,4) by (auto simp: guard_check_iff secs_def)
  have count: "saturating_add (pg_failures g) 1 = (of_nat (Suc n) :: u32)"
    and five: "(5 :: u32) \<le> of_nat (Suc n) \<longleftrightarrow> Suc n = 5"
    using saturating_count [of n] fifth_count [of n] Suc.prems g(2) by simp_all
  have small: "?t + LOCKOUT_DURATION < TIME_END" using Suc.prems by (simp add: LOCKOUT_DURATION_def TIME_END_def secs_def)
  obtain throttled g' where rf: "record_failure ?t g = Done (throttled, g')" and g': "pg_last_attempt g' = Some ?t"
    "Suc n < 5 \<longrightarrow> pg_failures g' = of_nat (Suc n) \<and> pg_locked_until g' = None"
    using count five small g(3) by (auto simp: record_failure_def ATTEMPTS_BEFORE_LOCKOUT_def time_add_def Let_def)
  from demo_failure [OF fs g(1) check rf] obtain w' where
    w': "pair_command demo_host (Some []) (Some demo_room_key) (demo_draws ?t) (silent fs) = Done (Inr ExitFailure, w')"
      "pw_fs w' = snd (guard_save demo_guard_json ?thr g' fs)" by blast
  have "failed_pairings demo_host no_faults (Suc n) (dw_failed_at (demo_draws ?t)) (pw_fs w')"
    by (rule failed_pairings.again [OF run w'(1) [unfolded silent_def]]) (simp add: demo_draws_def secs_def)
  then have "failed_pairings demo_host no_faults (Suc n) ?t (pw_fs w')" by (simp add: demo_draws_def)
  moreover have t: "touches (json_files ?thr) fs (pw_fs w')"
    unfolding w'(2) guard_save_def by (rule json_save_touches)
  moreover obtain enc where "to_json demo_guard_json (guard_stored g') = Inr enc"
    using demo_guard_json_contract(2) by (auto simp: writes_all_def)
  from json_save_without_faults [OF fs(1), of demo_guard_json guard_stored g', OF this] obtain fs2 where
    s: "guard_save demo_guard_json ?thr g' fs = (Inr (), fs2)" unfolding guard_save_def by blast
  have "guard_load demo_guard_json ?thr (pw_fs w') = Inr (guard_unstored (guard_stored g'))"
    unfolding w'(2) using guard_file.save_ok [OF demo_guard_json_contract(1) state_has_names(2) s] fs(1) s by simp
  moreover have "Option.bind (time_to_epoch ?t) epoch_to_time = Some (secs (?t div 1000000000))"
    by (rule stored_time) (use Suc.prems in \<open>simp_all add: TIME_END_def secs_def\<close>)
  then have "pg_last_attempt (guard_unstored (guard_stored g')) = Some ?t"
    using g'(1) by (simp add: guard_unstored_def guard_stored_def secs_def)
  moreover have "key_path_in ''/state'' \<notin> json_files ?thr"
    using state_path_names [of "''/state''"] by (auto dest: arg_cong [where f = file_name])
  ultimately show ?case
    using fs touches_file [OF t, of "key_path_in ''/state''"] touches_file [OF t, of "registry_path_in ''/state''"]
      registry_apart [of "''/state''"] g'(2)
    by (intro exI [of _ "pw_fs w'"] exI [of _ "guard_unstored (guard_stored g')"])
      (auto simp: touches_def guard_unstored_def guard_stored_def)
qed

theorem five_failures_lock_out_witness:
  "\<exists>fs e w'. failed_pairings demo_host no_faults 5 (secs 50) fs
     \<and> pair_command demo_host (Some []) (Some demo_room_key) (demo_draws (secs 100)) (silent fs) = Done (Inl e, w')
     \<and> pw_carrier w' = pw_carrier (silent fs)"
proof -
  from demo_five_failures [of 5] obtain fs where run: "failed_pairings demo_host no_faults 5 (secs 50) fs"
    and fs: "fs_fault fs = (\<lambda>_. None)" "fs_files fs (key_path_in ''/state'') = None" by auto
  have js: "json_contract (ho_guard_json demo_host)" "writes_all (ho_guard_json demo_host)"
    using demo_guard_json_contract by (simp_all add: demo_host_def)
  from failed_pairings_guard [OF run _ _ _ js] obtain g where
    g: "guard_load demo_guard_json (throttle_path_in ''/state'') fs = Inr g" "pg_locked_until g = Some (secs 350)"
    by (auto simp: no_faults_def demo_home) (auto simp: demo_host_def secs_def)
  then obtain throttled where "guard_check g (secs 100) = Inl throttled" by (auto simp: guard_check_def secs_def)
  moreover obtain k where "resolve_key demo_ident [] ''/state'' (Some demo_room_key) fs = (Inr k, fs)"
    using demo_start(2) [OF fs] by blast
  ultimately obtain r w' where cmd: "pair_command demo_host (Some []) (Some demo_room_key) (demo_draws (secs 100)) (silent fs) = Done (r, w')"
    using demo_start(1) [OF fs] g(1)
    by (cases "registry_load demo_ident (pj_registry demo_pairing_json) (registry_path_in ''/state'') fs")
      (auto simp: pair_command_def silent_def demo_draws_def demo_host_def demo_pairing_env_def Let_def)
  have "\<exists>e. r = Inl e \<and> pw_carrier w' = \<lparr>sc_in = [], sc_out = []\<rparr>
      \<and> fs_files (pw_fs w') (registry_path_in (home_of demo_host)) = fs_files fs (registry_path_in (home_of demo_host))"
    by (rule five_failures_lock_out [OF run _ _ js _ cmd [unfolded silent_def]])
      (simp_all add: no_faults_def demo_draws_def secs_def)
  then show ?thesis using run cmd by (auto simp: silent_def)
qed

text \<open>A disk on which one phone is enrolled.\<close>

definition demo_phones :: device_registry where
  "demo_phones = enrol demo_ident (DevicePublicKey (replicate 32 1)) ''phone'' registry_new"

definition demo_phone_id :: string where "demo_phone_id = from_bytes (replicate 16 1)"

definition demo_busy :: pairing_guard where
  "demo_busy = \<lparr>pg_failures = 1, pg_last_attempt = Some (secs 10), pg_locked_until = None\<rparr>"

definition demo_disk :: fs where
  "demo_disk = snd (registry_save demo_ident (pj_registry demo_pairing_json) (registry_path_in ''/state'') demo_phones no_faults)"

lemma calm_disk: "fs_fault no_faults = (\<lambda>_. None)"
  by (simp add: no_faults_def)

lemma demo_disk_state:
  "fs_fault demo_disk = (\<lambda>_. None)" "fs_files demo_disk (registry_path_in ''/state'') \<noteq> None"
  "registry_load demo_ident (pj_registry demo_pairing_json) (registry_path_in ''/state'') demo_disk = Inr demo_phones"
proof -
  let ?js = "pj_registry demo_pairing_json"
  have js: "json_contract ?js" using demo_pairing_json_contract by (simp add: pairing_json_contract_def)
  have inv: "registry_inv demo_ident demo_phones"
    unfolding demo_phones_def by (rule enrol_inv) (simp_all add: demo_ident_def)
  obtain enc where "to_json ?js (registry_stored demo_ident demo_phones) = Inr enc"
    by (simp add: demo_pairing_json_def field_json_def)
  from json_save_without_faults [of no_faults ?js "registry_stored demo_ident" demo_phones, OF calm_disk this] obtain fs where
    s: "registry_save demo_ident ?js (registry_path_in ''/state'') demo_phones no_faults = (Inr (), fs)"
    unfolding registry_save_def by blast
  show "fs_fault demo_disk = (\<lambda>_. None)"
    using registry_file.save_faults [OF s] by (simp add: demo_disk_def s calm_disk)
  show "fs_files demo_disk (registry_path_in ''/state'') \<noteq> None"
    using json_save_creates [OF s [unfolded registry_save_def]] by (simp add: demo_disk_def s)
  have "fs_fault no_faults (ReadCall (registry_path_in ''/state'')) = None" by (simp add: no_faults_def)
  from registry_file.save_ok [OF conjI [OF js inv] state_has_names(1) s this]
  show "registry_load demo_ident ?js (registry_path_in ''/state'') demo_disk = Inr demo_phones"
    by (simp add: demo_disk_def s)
qed


theorem refused_pairing_costs_nothing_witness:
  "\<exists>t w'. pair_command demo_host (Some []) (Some demo_room_key) (demo_draws (secs 11))
       (silent (snd (guard_save demo_guard_json (throttle_path_in ''/state'') demo_busy no_faults))) = Done (Inl (RefusedByThrottle t), w')
     \<and> pw_carrier w' = \<lparr>sc_in = [], sc_out = []\<rparr>"
proof -
  let ?thr = "throttle_path_in ''/state''" and ?gs = "guard_unstored (guard_stored demo_busy)"
  obtain enc where "to_json demo_guard_json (guard_stored demo_busy) = Inr enc"
    using demo_guard_json_contract(2) by (auto simp: writes_all_def)
  from json_save_without_faults [of no_faults demo_guard_json guard_stored demo_busy, OF calm_disk this] obtain fs where
    s: "guard_save demo_guard_json ?thr demo_busy no_faults = (Inr (), fs)"
    unfolding guard_save_def by blast
  have "fs_fault no_faults (ReadCall ?thr) = None" by (simp add: no_faults_def)
  from guard_file.save_ok [OF demo_guard_json_contract(1) state_has_names(2) s this]
  have g: "guard_load demo_guard_json ?thr fs = Inr ?gs" .
  have t: "touches (json_files ?thr) no_faults fs"
    using json_save_touches [of ?thr no_faults GuardWrite GuardMalformed demo_guard_json guard_stored demo_busy] s
    by (simp add: guard_save_def)
  have fs: "fs_fault fs = (\<lambda>_. None)" "fs_files fs (key_path_in ''/state'') = None"
    "fs_files fs (registry_path_in ''/state'') = None"
  proof -
    show "fs_fault fs = (\<lambda>_. None)" using t by (simp add: touches_def no_faults_def)
    have "key_path_in ''/state'' \<notin> json_files ?thr"
      using state_path_names [of "''/state''"] by (auto dest: arg_cong [where f = file_name])
    then show "fs_files fs (key_path_in ''/state'') = None" using touches_file [OF t] by (simp add: no_faults_def)
    show "fs_files fs (registry_path_in ''/state'') = None"
      using touches_file [OF t] registry_apart [of "''/state''"] by (simp add: no_faults_def)
  qed
  have "time_ok demo_busy" by (simp add: time_ok_def demo_busy_def TIME_END_def secs_def)
  from reloaded_fields [OF this] have "guard_check ?gs (secs 11) \<noteq> Inr ()"
    by (simp add: guard_check_iff demo_busy_def secs_def)
  then obtain throttled where c: "guard_check ?gs (secs 11) = Inl throttled"
    by (cases "guard_check ?gs (secs 11)") auto
  obtain k where k: "resolve_key demo_ident [] ''/state'' (Some demo_room_key) fs = (Inr k, fs)"
    using demo_start(2) [OF fs(1,2)] by blast
  have l: "registry_load demo_ident (pj_registry demo_pairing_json) (registry_path_in ''/state'') fs = Inr registry_new"
    by (rule registry_file.load_missing) (simp_all add: fs)
  obtain w' where cmd: "pair_command demo_host (Some []) (Some demo_room_key) (demo_draws (secs 11)) (silent fs) =
      Done (Inl (RefusedByThrottle throttled), w')"
    using demo_start(1) [OF fs(1,2)] g c k l
    by (simp add: pair_command_def silent_def demo_draws_def demo_host_def demo_pairing_env_def Let_def)
  from refused_pairing_costs_nothing [OF this] show ?thesis using cmd s by (auto simp: silent_def)
qed

theorem revoked_device_is_refused_witness:
  "\<exists>fs' registry'. devices_command demo_host (Some demo_phone_id) demo_disk =
       (Inr [''revoked '' @ demo_phone_id, ''the device keeps its key but can no longer connect: the challenge is gone''], fs')
     \<and> load_policy demo_host fs' = Inr (Enrolled registry') \<and> challenge_key (DeviceId (replicate 16 1)) registry' = None"
proof -
  let ?js = "pj_registry demo_pairing_json" and ?i = "DeviceId (replicate 16 1)"
  have h: "ho_pairing demo_host = demo_pairing_env" "pe_ident demo_pairing_env = demo_ident" "pe_json demo_pairing_env = demo_pairing_json"
    by (simp_all add: demo_host_def demo_pairing_env_def)
  have i: "id_from_base64url demo_ident demo_phone_id = Inr ?i"
    by (simp add: id_from_base64url_def demo_ident_def demo_phone_id_def DEVICE_ID_LEN_def)
  have c: "contains ?i demo_phones" unfolding demo_phones_def by code_simp
  obtain enc where "to_json ?js (registry_stored demo_ident (snd (revoke ?i demo_phones))) = Inr enc"
    by (simp add: demo_pairing_json_def field_json_def)
  from json_save_without_faults [OF demo_disk_state(1), of ?js "registry_stored demo_ident" _ enc, OF this] obtain fs where
    s: "registry_save demo_ident ?js (registry_path_in ''/state'') (snd (revoke ?i demo_phones)) demo_disk = (Inr (), fs)"
    unfolding registry_save_def by blast
  have d: "state_dir demo_host demo_disk = Inr ''/state''"
    using demo_home by (simp add: state_dir_def create_dir_all_def demo_disk_state(1) Let_def)
  obtain r where r: "revoke ?i demo_phones = (True, r)" using c by (simp add: revoke_def contains_def)
  have run: "devices_command demo_host (Some demo_phone_id) demo_disk =
      (Inr [''revoked '' @ demo_phone_id, ''the device keeps its key but can no longer connect: the challenge is gone''], fs)"
    using s by (simp add: devices_command_def d h demo_disk_state(3) i r Let_def)
  have "\<exists>registry'. load_policy demo_host fs = Inr (Enrolled registry')
      \<and> (\<forall>j. challenge_key j registry' = (if j = ?i then None else challenge_key j demo_phones))"
    using revoked_device_is_refused [OF run, of demo_phones ?i] i c demo_disk_state(1,3) demo_pairing_json_contract
    by (auto simp: h demo_home pairing_json_contract_def)
  then obtain registry' where p: "load_policy demo_host fs = Inr (Enrolled registry')"
    and k: "\<forall>j. challenge_key j registry' = (if j = ?i then None else challenge_key j demo_phones)" by blast
  from k have "challenge_key ?i registry' = None" by simp
  with run p show ?thesis by blast
qed

end
