(* ===== verification/Ready.thy ===== *)
theory Ready
  imports Slices
begin

text \<open>
  The line DSH prints when it serves, \<open>dsh/ready.rs\<close> of the daemon: parsing it, and taking credentials
  out of the texts that quote it. Resolving a host name is an argument. Shown: a line that is used
  points at this machine and carries a token, the line DSH prints for a loopback bind is understood,
  and after redaction no token is left.
\<close>

definition READY_PREFIX :: string where "READY_PREFIX = ''dsh web: ''"

record ready_line =
  rl_addr :: ip_addr
  rl_port :: nat
  rl_base_url :: string
  rl_token :: string
  rl_lan_url :: "string option"

datatype ready_error = NotReady string | BadUrl string | NoToken string | NotLoopback string

section \<open>Redaction\<close>

text \<open>On the characters of the text: up to a \<open>token=\<close>, then to the end of the value.\<close>

definition NEEDLE :: "nat list" where "NEEDLE = map of_char ''token=''"
definition REDACTED :: "nat list" where "REDACTED = map of_char ''<redacted>''"

definition ends_value :: "nat \<Rightarrow> bool" where
  "ends_value c \<longleftrightarrow> is_whitespace c \<or> c \<in> set (map of_char [CHR ''&'', CHR '')'', CHR 0x22])"

function redact_chars :: "nat list \<Rightarrow> nat list" where
  "redact_chars [] = []"
| "redact_chars (c # cs) =
     (if take (length NEEDLE) (c # cs) = NEEDLE
      then NEEDLE @ REDACTED @ redact_chars (dropWhile (\<lambda>c. \<not> ends_value c) (drop (length NEEDLE) (c # cs)))
      else c # redact_chars cs)"
  by pat_completeness auto
termination
proof (relation "measure length", goal_cases)
  case (2 c cs)
  have "length (dropWhile (\<lambda>c. \<not> ends_value c) (drop (length NEEDLE) (c # cs))) \<le> length (drop (length NEEDLE) (c # cs))"
    by (rule length_dropWhile_le)
  also have "\<dots> < length (c # cs)" by (simp add: NEEDLE_def)
  finally show ?case by simp
qed simp_all

declare redact_chars.simps (2) [simp del]

definition redact :: "string \<Rightarrow> string" where
  "redact line = of_chars (take 200 (redact_chars (chars line)))"

lemma redact_step:
  assumes "take (length NEEDLE) xs = NEEDLE"
  obtains rest where "redact_chars xs = NEEDLE @ REDACTED @ redact_chars rest" and "length rest < length xs"
proof -
  have "xs \<noteq> []" using assms by (auto simp: NEEDLE_def)
  then obtain c cs where xs: "xs = c # cs" by (cases xs) auto
  let ?rest = "dropWhile (\<lambda>c. \<not> ends_value c) (drop (length NEEDLE) (c # cs))"
  have "length ?rest \<le> length (drop (length NEEDLE) (c # cs))" by (rule length_dropWhile_le)
  also have "\<dots> < length (c # cs)" by (simp add: NEEDLE_def)
  finally show thesis using assms that [of ?rest] by (simp add: xs redact_chars.simps(2))
qed

text \<open>What redaction leaves at the front, up to the first \<open>t\<close>, was there before.\<close>

lemma redact_front:
  "redact_chars xs = p @ q \<Longrightarrow> 116 \<notin> set p \<Longrightarrow> take (length p) xs = p"
proof (induction p arbitrary: xs)
  case (Cons x p)
  then obtain c cs where xs: "xs = c # cs" by (cases xs) auto
  show ?case
  proof (cases "take (length NEEDLE) xs = NEEDLE")
    case True
    then obtain rest where "redact_chars xs = NEEDLE @ REDACTED @ redact_chars rest" by (rule redact_step)
    then have "x = 116" using Cons.prems(1) by (simp add: NEEDLE_def)
    then show ?thesis using Cons.prems(2) by simp
  next
    case False
    then have "c = x" "redact_chars cs = p @ q" using Cons.prems(1) by (simp_all add: xs redact_chars.simps(2))
    then show ?thesis using Cons.IH Cons.prems(2) by (simp add: xs)
  qed
qed simp

lemma needle_nth: "NEEDLE @ z = xs \<Longrightarrow> xs ! 0 = 116 \<and> xs ! 1 = 111"
  by (auto simp: NEEDLE_def)

text \<open>A \<open>token=\<close> begins nowhere in what a replacement writes, except at its start.\<close>

lemma needle_alone:
  assumes eq: "NEEDLE @ REDACTED @ r = pre @ NEEDLE @ post" and "pre \<noteq> []"
  shows "\<exists>pre'. pre = NEEDLE @ REDACTED @ pre'"
proof (cases "length (NEEDLE @ REDACTED) \<le> length pre")
  case True
  have "take (length (NEEDLE @ REDACTED)) ((NEEDLE @ REDACTED) @ r) = NEEDLE @ REDACTED"
    by (metis append_eq_conv_conj)
  moreover have "take (length (NEEDLE @ REDACTED)) (pre @ NEEDLE @ post) = take (length (NEEDLE @ REDACTED)) pre"
    using True by simp
  ultimately have "take (length (NEEDLE @ REDACTED)) pre = NEEDLE @ REDACTED"
    using eq by (metis append_assoc)
  then show ?thesis by (metis append_assoc append_take_drop_id)
next
  case False
  then have "length pre \<in> {1..<16}" using assms(2) by (cases pre) (auto simp: NEEDLE_def REDACTED_def)
  then have n: "length pre \<in> set [1..<16]" by simp
  have "(NEEDLE @ REDACTED @ r) ! length pre = 116 \<and> (NEEDLE @ REDACTED @ r) ! (length pre + 1) = 111"
    unfolding eq by (simp add: nth_append NEEDLE_def)
  then show ?thesis using n by (auto simp: NEEDLE_def REDACTED_def upt_conv_Cons)
qed

lemma redact_chars_hides:
  "redact_chars xs = pre @ NEEDLE @ post \<Longrightarrow> \<exists>rest. post = REDACTED @ rest"
proof (induction "length xs" arbitrary: xs pre rule: less_induct)
  case less
  show ?case
  proof (cases "take (length NEEDLE) xs = NEEDLE")
    case True
    then obtain rest where r: "redact_chars xs = NEEDLE @ REDACTED @ redact_chars rest" "length rest < length xs"
      by (rule redact_step)
    show ?thesis
    proof (cases pre)
      case Nil
      then show ?thesis using r(1) less.prems by simp
    next
      case (Cons a as)
      then obtain pre' where "pre = NEEDLE @ REDACTED @ pre'" using needle_alone r(1) less.prems by (metis list.distinct(1))
      then have "redact_chars rest = pre' @ NEEDLE @ post" using r(1) less.prems by simp
      then show ?thesis by (rule less.hyps [OF r(2)])
    qed
  next
    case False
    obtain c cs where xs: "xs = c # cs" using less.prems by (cases xs) (auto simp: NEEDLE_def)
    then have step: "c # redact_chars cs = pre @ NEEDLE @ post"
      using False less.prems by (simp add: redact_chars.simps(2))
    show ?thesis
    proof (cases pre)
      case Nil
      then have "c = 116" "redact_chars cs = tl NEEDLE @ post" using step by (simp_all add: NEEDLE_def)
      moreover from redact_front [OF this(2)] have "take (length (tl NEEDLE)) cs = tl NEEDLE" by (simp add: NEEDLE_def)
      ultimately have "take (length NEEDLE) xs = NEEDLE" by (simp add: xs NEEDLE_def numeral_eq_Suc)
      then show ?thesis using False by simp
    next
      case (Cons a as)
      then show ?thesis using less.hyps [of cs as] step xs by simp
    qed
  qed
qed

lemma redact_chars_scalar: "list_all is_scalar xs \<Longrightarrow> list_all is_scalar (redact_chars xs)"
proof (induction xs rule: redact_chars.induct)
  case (2 c cs)
  have k: "list_all is_scalar NEEDLE" "list_all is_scalar REDACTED"
    by (simp_all add: NEEDLE_def REDACTED_def is_scalar_def)
  have "list_all is_scalar (dropWhile (\<lambda>c. \<not> ends_value c) (drop (length NEEDLE) (c # cs)))"
    using 2(3) by (metis list_all_iff set_dropWhileD in_set_dropD)
  then show ?case using 2 k by (simp add: redact_chars.simps(2))
qed simp

section \<open>The parts of a URL\<close>

record url_parts =
  ur_scheme :: string
  ur_authority :: string
  ur_host :: string
  ur_query :: string

definition host_of :: "string \<Rightarrow> string" where
  "host_of authority =
     (if CHR '']'' \<in> set authority then takeWhile (\<lambda>c. c \<noteq> CHR '']'') authority @ '']''
      else hd (split_on CHR '':'' authority))"

definition parse_url :: "string \<Rightarrow> url_parts option" where
  "parse_url raw =
     (case split_once ''://'' raw of
        None \<Rightarrow> None
      | Some (scheme, rest) \<Rightarrow>
          if scheme \<noteq> ''http'' \<and> scheme \<noteq> ''https'' then None
          else let authority = takeWhile (\<lambda>c. c \<noteq> CHR ''/'') rest;
                   tail = dropWhile (\<lambda>c. c \<noteq> CHR ''/'') rest
            in if authority = [] then None
               else Some \<lparr>ur_scheme = scheme, ur_authority = authority, ur_host = host_of authority,
                      ur_query = (case split_once ''?'' tail of None \<Rightarrow> [] | Some (_, q) \<Rightarrow> q)\<rparr>)"

definition url_is_loopback :: "url_parts \<Rightarrow> bool" where
  "url_is_loopback u \<longleftrightarrow>
     ur_host u = ''localhost'' \<or> ur_host u = ''[::1]''
     \<or> (let octets = split_on CHR ''.'' (ur_host u) in
          length octets = 4 \<and> hd octets = ''127'' \<and> list_all (\<lambda>octet. parse_uint 8 octet \<noteq> None) octets)"

definition url_ip :: "(string \<Rightarrow> ip_addr list option) \<Rightarrow> url_parts \<Rightarrow> ip_addr option" where
  "url_ip resolve_host u =
     (let host = trim_matches (\<lambda>c. c = CHR ''['' \<or> c = CHR '']'') (ur_host u) in
      case parse_ip host of
        Some literal \<Rightarrow> Some literal
      | None \<Rightarrow> (case resolve_host host of None \<Rightarrow> None | Some found \<Rightarrow> find is_loopback_addr found))"

definition url_port :: "url_parts \<Rightarrow> nat option" where
  "url_port u =
     (case strip_prefix (ur_host u) (ur_authority u) of
        None \<Rightarrow> None
      | Some rest \<Rightarrow> (case strip_prefix '':'' rest of None \<Rightarrow> None | Some digits \<Rightarrow> parse_uint 16 digits))"

definition url_base :: "url_parts \<Rightarrow> ip_addr \<Rightarrow> nat \<Rightarrow> string" where
  "url_base u ip port =
     (case ip of
        V4 _ _ _ _ \<Rightarrow> ur_scheme u @ ''://'' @ show_ip ip @ '':'' @ decimal port
      | V6 _ \<Rightarrow> ur_scheme u @ ''://['' @ show_ip ip @ '']:'' @ decimal port)"

fun find_token :: "string list \<Rightarrow> string option" where
  "find_token [] = None"
| "find_token (pair # pairs) =
     (case strip_prefix ''token='' pair of Some token \<Rightarrow> Some token | None \<Rightarrow> find_token pairs)"

definition url_token :: "url_parts \<Rightarrow> string option" where
  "url_token u =
     (case find_token (split_on CHR ''&'' (ur_query u)) of
        Some token \<Rightarrow> if token = [] then None else Some token
      | None \<Rightarrow> None)"

section \<open>The line\<close>

definition parse_main :: "(string \<Rightarrow> ip_addr list option) \<Rightarrow> string \<Rightarrow> string option \<Rightarrow> ready_error + ready_line" where
  "parse_main resolve_host main lan =
     (case parse_url main of
        None \<Rightarrow> Inl (BadUrl (redact main))
      | Some url \<Rightarrow>
          if \<not> url_is_loopback url then Inl (NotLoopback (ur_authority url))
          else (case url_token url of
                  None \<Rightarrow> Inl (NoToken (redact main))
                | Some token \<Rightarrow>
                    (case url_ip resolve_host url of
                       None \<Rightarrow> Inl (BadUrl main)
                     | Some addr \<Rightarrow>
                         (case url_port url of
                            None \<Rightarrow> Inl (BadUrl main)
                          | Some port \<Rightarrow>
                              Inr \<lparr>rl_addr = addr, rl_port = port, rl_base_url = url_base url addr port,
                                rl_token = token, rl_lan_url = lan\<rparr>))))"

definition parse_ready :: "(string \<Rightarrow> ip_addr list option) \<Rightarrow> string \<Rightarrow> ready_error + ready_line option" where
  "parse_ready resolve_host line =
     (let trimmed = trim_end_matches (\<lambda>c. c = CHR 0x0D \<or> c = CHR 0x0A) line in
      case strip_prefix READY_PREFIX trimmed of
        None \<Rightarrow> Inr None
      | Some rest \<Rightarrow>
          let (main, lan) =
            (case split_once '' (LAN: '' rest of
               Some (main, lan_tail) \<Rightarrow> (trim main, Some (trim (trim_end_matches (\<lambda>c. c = CHR '')'') lan_tail)))
             | None \<Rightarrow> (trim rest, None))
          in if main = [] then Inl (NotReady (redact trimmed))
             else map_sum id Some (parse_main resolve_host main lan))"

definition ready_authority :: "ready_line \<Rightarrow> string" where
  "ready_authority r =
     (case strip_prefix ''http://'' (rl_base_url r) of
        Some rest \<Rightarrow> rest
      | None \<Rightarrow> (case strip_prefix ''https://'' (rl_base_url r) of Some rest \<Rightarrow> rest | None \<Rightarrow> rl_base_url r))"

definition token_url :: "ready_line \<Rightarrow> string" where
  "token_url r = rl_base_url r @ ''/?token='' @ rl_token r"

section \<open>A line that is used points at this machine\<close>

lemma parse_uint_chars:
  assumes "parse_uint w s \<noteq> None" and "c \<in> set s"
  shows "c = CHR ''+'' \<or> (of_char c :: nat) \<in> {48..57}"
proof -
  have d: "digits_value acc t = Some n \<Longrightarrow> c \<in> set t \<Longrightarrow> (of_char c :: nat) \<in> {48..57}" for acc t n
    by (induction t arbitrary: acc) (auto simp: Let_def split: if_splits)
  then show ?thesis using assms
    by (cases s) (auto simp: parse_uint_def Let_def split: if_splits option.splits)
qed

lemma split_on_chars: "x \<in> set s \<Longrightarrow> x = c \<or> (\<exists>p \<in> set (split_on c s). x \<in> set p)"
proof (induction s)
  case (Cons y s)
  then show ?case by (cases "split_on c s") auto
qed simp

lemma all_of_length: "all_of f xs = Some ys \<Longrightarrow> length ys = length xs"
  by (induction xs arbitrary: ys) (auto split: option.splits)

lemma parse_v6_needs_colon:
  assumes "CHR '':'' \<notin> set s" and "parse_v4 s = None"
  shows "parse_v6 s = None"
proof -
  have "\<not> (\<exists>gs. parse_groups s = Some gs \<and> length gs = 8)"
    using assms by (auto simp: parse_groups_def split_on_absent Let_def dest!: all_of_length split: if_splits option.splits)
  then show ?thesis using split_once_none [OF assms(1), of "'':''"]
    by (auto simp: parse_v6_def split: option.splits)
qed

lemma trim_matches_id: "(\<And>c. c \<in> set s \<Longrightarrow> \<not> P c) \<Longrightarrow> trim_matches P s = s"
  unfolding trim_matches_def trim_end_matches_def
  by (metis dropWhile_eq_self_iff last_in_set hd_in_set hd_rev rev_is_Nil_conv rev_rev_ident)

lemma octets_chars:
  assumes "list_all (\<lambda>octet. parse_uint 8 octet \<noteq> None) (split_on CHR ''.'' h)" and "c \<in> set h"
  shows "c \<noteq> CHR '':'' \<and> c \<noteq> CHR ''['' \<and> c \<noteq> CHR '']''"
proof -
  consider "c = CHR ''.''" | p where "p \<in> set (split_on CHR ''.'' h)" "c \<in> set p"
    using split_on_chars [OF assms(2), of "CHR ''.''"] by blast
  then show ?thesis
  proof cases
    case 2
    then have "parse_uint 8 p \<noteq> None" using assms(1) by (simp add: list_all_iff)
    from parse_uint_chars [OF this 2(2)] show ?thesis by auto
  qed simp
qed

lemma dotted_loopback_ip:
  assumes "length (split_on CHR ''.'' h) = 4" and "hd (split_on CHR ''.'' h) = ''127''"
    and "list_all (\<lambda>octet. parse_uint 8 octet \<noteq> None) (split_on CHR ''.'' h)" and "parse_ip h = Some ip"
  shows "is_loopback_addr ip"
proof -
  have "CHR '':'' \<notin> set h" using octets_chars [OF assms(3)] by blast
  then have "parse_v4 h = Some ip"
    using assms(4) parse_v6_needs_colon [of h] by (simp add: parse_ip_def split: option.splits)
  moreover obtain b c d where "split_on CHR ''.'' h = [''127'', b, c, d]"
    using assms(1,2) by (auto simp: numeral_eq_Suc length_Suc_conv)
  ultimately show ?thesis
    by (auto simp: parse_v4_def parse_octet_def is_loopback_addr_def split: option.splits list.splits)
qed

lemma url_ip_loopback:
  assumes "url_is_loopback u" and "url_ip resolve_host u = Some ip"
  shows "is_loopback_addr ip"
proof -
  let ?B = "\<lambda>c. c = CHR ''['' \<or> c = CHR '']''"
  have found: "is_loopback_addr ip" if "parse_ip (trim_matches ?B (ur_host u)) = None"
    using assms(2) that by (auto simp: url_ip_def Let_def find_Some_iff split: option.splits)
  have lit: "parse_ip (trim_matches ?B (ur_host u)) = Some ip" if "parse_ip (trim_matches ?B (ur_host u)) \<noteq> None"
    using assms(2) that by (auto simp: url_ip_def Let_def)
  consider "ur_host u = ''localhost''" | "ur_host u = ''[::1]''"
    | "length (split_on CHR ''.'' (ur_host u)) = 4" "hd (split_on CHR ''.'' (ur_host u)) = ''127''"
      "list_all (\<lambda>octet. parse_uint 8 octet \<noteq> None) (split_on CHR ''.'' (ur_host u))"
    using assms(1) by (auto simp: url_is_loopback_def Let_def)
  then show ?thesis
  proof cases
    case 1
    have "parse_ip ''localhost'' = None"
      by (simp add: parse_ip_def parse_v4_def parse_octet_def parse_v6_def parse_groups_def parse_group_def
          starts_with_def strip_prefix_def)
    then show ?thesis using 1 found by (simp add: trim_matches_def trim_end_matches_def)
  next
    case 2
    then have "ip = V6 [0, 0, 0, 0, 0, 0, 0, 1]" using lit parse_loopback
      by (simp add: trim_matches_def trim_end_matches_def)
    then show ?thesis by (simp add: is_loopback_addr_def)
  next
    case 3
    have id: "trim_matches ?B (ur_host u) = ur_host u"
      using octets_chars [OF 3(3)] by (intro trim_matches_id) blast
    show ?thesis
    proof (cases "parse_ip (ur_host u)")
      case None
      then show ?thesis using found by (simp only: id)
    next
      case (Some a)
      then have "parse_ip (ur_host u) = Some ip" using lit by (simp add: id)
      then show ?thesis using dotted_loopback_ip [OF 3] by blast
    qed
  qed
qed

section \<open>The line DSH prints\<close>

definition loopback_authority :: "nat \<Rightarrow> nat \<Rightarrow> nat \<Rightarrow> nat \<Rightarrow> string" where
  "loopback_authority b c d port = show_ip (V4 127 b c d) @ '':'' @ decimal port"

definition dsh_line :: "string \<Rightarrow> string \<Rightarrow> string option \<Rightarrow> string" where
  "dsh_line authority token lan =
     READY_PREFIX @ ''http://'' @ authority @ ''/?token='' @ token
       @ (case lan of None \<Rightarrow> [] | Some l \<Rightarrow> '' (LAN: '' @ l @ '')'')"

lemma decimal_127: "decimal 127 = ''127''"
  by (simp add: decimal.simps)

lemma loopback_url:
  assumes "b < 256" and "c < 256" and "d < 256" and "port < 65536"
    and "list_all graphic token" and "token \<noteq> []" and "CHR ''&'' \<notin> set token"
    and url: "raw = ''http://'' @ loopback_authority b c d port @ ''/?token='' @ token"
  shows "parse_main resolve_host raw lan =
    Inr \<lparr>rl_addr = V4 127 b c d, rl_port = port, rl_base_url = ''http://'' @ loopback_authority b c d port,
      rl_token = token, rl_lan_url = lan\<rparr>"
proof -
  let ?h = "show_ip (V4 127 b c d)"
  let ?u = "\<lparr>ur_scheme = ''http'', ur_authority = ?h @ '':'' @ decimal port, ur_host = ?h, ur_query = ''token='' @ token\<rparr>"
  have h: "?h = joined_by ''.'' [''127'', decimal b, decimal c, decimal d]"
    by (simp add: show_ip_def decimal_127)
  have parts: "split_on CHR ''.'' ?h = [''127'', decimal b, decimal c, decimal d]"
    unfolding h by (rule split_on_dotted) simp_all
  have no: "CHR ''/'' \<notin> set ?h" "CHR '':'' \<notin> set ?h" "CHR '']'' \<notin> set ?h" "CHR ''['' \<notin> set ?h"
    unfolding h by simp_all
  have "split_once ''://'' raw = Some (''http'', ?h @ '':'' @ decimal port @ ''/?token='' @ token)"
    using split_once_char [of "CHR '':''" "''http''" "''//''"] by (simp add: url loopback_authority_def)
  moreover have "takeWhile (\<lambda>x. x \<noteq> CHR ''/'') (?h @ '':'' @ decimal port @ ''/?token='' @ token) = ?h @ '':'' @ decimal port"
    "dropWhile (\<lambda>x. x \<noteq> CHR ''/'') (?h @ '':'' @ decimal port @ ''/?token='' @ token) = ''/?token='' @ token"
    using no by (auto simp: takeWhile_append dropWhile_append split: if_splits)
  moreover have "host_of (?h @ '':'' @ decimal port) = ?h"
    using no by (auto simp: host_of_def split_on_hd takeWhile_append split: if_splits)
  moreover have "split_once ''?'' (''/?token='' @ token) = Some (''/'', ''token='' @ token)"
    using split_once_char [of "CHR ''?''" "''/''" "[]"] by simp
  ultimately have u: "parse_url raw = Some ?u"
    by (simp add: parse_url_def Let_def)
  have "url_is_loopback ?u"
    using assms(1-3) by (auto simp: url_is_loopback_def parts parse_uint_decimal Let_def) (simp add: parse_uint_def)
  moreover have "url_token ?u = Some token"
    using assms(6,7) split_on_absent [of "CHR ''&''" "''token='' @ token"]
    by (simp add: url_token_def strip_prefix_def)
  moreover have "url_ip resolve_host ?u = Some (V4 127 b c d)"
  proof -
    have "trim_matches (\<lambda>x. x = CHR ''['' \<or> x = CHR '']'') ?h = ?h"
      by (rule trim_matches_id) (use no in blast)
    moreover have "parse_octet ''127'' = Some 127" using parse_octet_decimal [of 127] by (simp add: decimal_127)
    then have "parse_ip ?h = Some (V4 127 b c d)"
      using assms(1-3) by (simp add: parse_ip_def parse_v4_def parts parse_octet_decimal)
    ultimately show ?thesis by (simp add: url_ip_def)
  qed
  moreover have "url_port ?u = Some port"
    using assms(4) by (simp add: url_port_def strip_prefix_def parse_uint_decimal)
  ultimately show ?thesis by (simp add: parse_main_def u url_base_def loopback_authority_def)
qed

text \<open>
  What a parsed line promises: a loopback address, a port of 16 bits, a token that is one whole query
  value, and a base URL whose authority is the very address and port that will be dialed.
\<close>

definition shown_authority :: "ip_addr \<Rightarrow> nat \<Rightarrow> string" where
  "shown_authority ip port =
     (case ip of V4 _ _ _ _ \<Rightarrow> show_ip ip @ '':'' @ decimal port | V6 _ \<Rightarrow> ''['' @ show_ip ip @ '']:'' @ decimal port)"

definition ready_line_ok :: "ready_line \<Rightarrow> bool" where
  "ready_line_ok r \<longleftrightarrow>
     is_loopback_addr (rl_addr r) \<and> rl_port r < 2 ^ 16 \<and> rl_token r \<noteq> [] \<and> CHR ''&'' \<notin> set (rl_token r)
     \<and> ready_authority r = shown_authority (rl_addr r) (rl_port r)
     \<and> (rl_base_url r = ''http://'' @ ready_authority r \<or> rl_base_url r = ''https://'' @ ready_authority r)"

lemma split_on_piece: "p \<in> set (split_on c s) \<Longrightarrow> c \<notin> set p"
  by (induction s arbitrary: p) (fastforce split: list.splits if_splits)+

lemma find_token_piece: "find_token ps = Some t \<Longrightarrow> \<exists>p \<in> set ps. p = ''token='' @ t"
  by (induction ps) (auto simp: strip_prefix_Some split: option.splits)

lemma url_token_whole: "url_token u = Some t \<Longrightarrow> t \<noteq> [] \<and> CHR ''&'' \<notin> set t"
  by (auto simp: url_token_def split: option.splits if_splits dest!: find_token_piece split_on_piece)

lemma parse_url_scheme: "parse_url raw = Some u \<Longrightarrow> ur_scheme u = ''http'' \<or> ur_scheme u = ''https''"
  by (auto simp: parse_url_def Let_def split: option.splits if_splits)

lemma url_base_shown: "url_base u ip port = ur_scheme u @ ''://'' @ shown_authority ip port"
  by (cases ip) (simp_all add: url_base_def shown_authority_def)

lemma parse_main_ok: "parse_main resolve_host main lan = Inr r \<Longrightarrow> ready_line_ok r"
proof -
  assume r: "parse_main resolve_host main lan = Inr r"
  then obtain u where u: "parse_url main = Some u" "url_is_loopback u" "url_token u = Some (rl_token r)"
      "url_ip resolve_host u = Some (rl_addr r)" "url_port u = Some (rl_port r)"
      "rl_base_url r = url_base u (rl_addr r) (rl_port r)"
    by (auto simp: parse_main_def split: option.splits if_splits)
  then have base: "rl_base_url r = ''http://'' @ shown_authority (rl_addr r) (rl_port r)
      \<or> rl_base_url r = ''https://'' @ shown_authority (rl_addr r) (rl_port r)"
    using parse_url_scheme [OF u(1)] by (auto simp: url_base_shown)
  then have "ready_authority r = shown_authority (rl_addr r) (rl_port r)"
    by (auto simp: ready_authority_def strip_prefix_def)
  moreover have "rl_port r < 2 ^ 16"
    using u(5) by (auto simp: url_port_def split: option.splits dest: parse_uint_less)
  ultimately show ?thesis
    using base url_ip_loopback [OF u(2,4)] url_token_whole [OF u(3)] by (simp add: ready_line_ok_def)
qed

lemma parse_ready_ok: "parse_ready resolve_host line = Inr (Some r) \<Longrightarrow> ready_line_ok r"
  by (auto simp: parse_ready_def Let_def map_sum_def split: option.splits prod.splits if_splits sum.splits
      intro: parse_main_ok)

section \<open>Properties\<close>

text \<open>
  C26. A readiness line that is used is well formed, whatever is printed and whatever a resolver answers:
  its address is a loopback address, its port fits 16 bits, its token is a whole non-empty query
  value, and the authority every request presents is the address and port that are dialed.
\<close>

theorem ready_line_well_formed:
  "parse_ready resolve_host line = Inr (Some r) \<Longrightarrow> ready_line_ok r"
  by (rule parse_ready_ok)

text \<open>
  The line DSH prints is understood: for every loopback bind, port and token, with or without the note
  about a LAN address and with any line ending, parsing yields exactly the address, the port, the
  token and the note that were printed.
\<close>

theorem dsh_line_is_understood:
  assumes "b < 256" and "c < 256" and "d < 256" and "port < 65536"
    and "list_all graphic token" and "token \<noteq> []" and "CHR ''&'' \<notin> set token"
    and "case lan of None \<Rightarrow> True | Some l \<Rightarrow> list_all graphic l \<and> l \<noteq> [] \<and> last l \<noteq> CHR '')''"
    and "list_all (\<lambda>x. x = CHR 0x0D \<or> x = CHR 0x0A) eol"
  shows "parse_ready resolve_host (dsh_line (loopback_authority b c d port) token lan @ eol) =
    Inr (Some \<lparr>rl_addr = V4 127 b c d, rl_port = port, rl_base_url = ''http://'' @ loopback_authority b c d port,
      rl_token = token, rl_lan_url = lan\<rparr>)"
proof -
  let ?E = "\<lambda>x. x = CHR 0x0D \<or> x = CHR 0x0A"
  let ?url = "''http://'' @ loopback_authority b c d port @ ''/?token='' @ token"
  let ?note = "case lan of None \<Rightarrow> [] | Some l \<Rightarrow> '' (LAN: '' @ l @ '')''"
  have g: "list_all graphic ?url"
    using assms(5) decimal_graphic by (simp add: loopback_authority_def show_ip_def) (simp add: graphic_def)
  then have sp: "CHR '' '' \<notin> set ?url" by (auto simp: list_all_iff graphic_def simp del: set_append)
  have "graphic (last (dsh_line (loopback_authority b c d port) token lan))"
    using assms(5,6) by (cases lan) (auto simp: dsh_line_def list_all_iff graphic_def)
  then have "trim_end_matches ?E (dsh_line (loopback_authority b c d port) token lan @ eol)
      = dsh_line (loopback_authority b c d port) token lan"
    using assms(9) by (intro trim_end_matches_append) (auto simp: graphic_def)
  moreover have "strip_prefix READY_PREFIX (dsh_line (loopback_authority b c d port) token lan) = Some (?url @ ?note)"
    by (simp add: strip_prefix_Some dsh_line_def)
  moreover have "split_once '' (LAN: '' (?url @ ?note) = (case lan of None \<Rightarrow> None | Some l \<Rightarrow> Some (?url, l @ '')''))"
    using split_once_none [OF sp, of "''(LAN: ''"] split_once_char [OF sp, of "''(LAN: ''"] by (cases lan) auto
  moreover have "trim (trim_end_matches (\<lambda>x. x = CHR '')'') (l @ '')'')) = l" if "lan = Some l" for l
    using assms(8) that trim_end_matches_append [of "\<lambda>x. x = CHR '')''" "'')''" l] by (simp add: trim_graphic)
  moreover have "trim ?url = ?url" using g by (rule trim_graphic)
  moreover have "parse_main resolve_host ?url lan = Inr \<lparr>rl_addr = V4 127 b c d, rl_port = port,
      rl_base_url = ''http://'' @ loopback_authority b c d port, rl_token = token, rl_lan_url = lan\<rparr>"
    by (rule loopback_url [OF assms(1-7) refl])
  ultimately show ?thesis by (cases lan) (simp_all add: parse_ready_def Let_def del: append.simps append_assoc)
qed

text \<open>
  Redaction hides every credential: in the text that goes into an error or a log each \<open>token=\<close> is
  followed by the replacement, as far as the bound of 200 characters lets the text go on, and no more
  than 200 characters are kept.
\<close>

theorem redact_hides_tokens:
  assumes "is_utf8 line" and "chars (redact line) = pre @ NEEDLE @ post"
  shows "take (length REDACTED) post = take (length post) REDACTED \<and> length (chars (redact line)) \<le> 200"
proof -
  have "list_all is_scalar (take 200 (redact_chars (chars line)))"
    using redact_chars_scalar [OF chars_scalar [OF assms(1)]] by (auto simp: list_all_iff dest: in_set_takeD)
  then have c: "chars (redact line) = take 200 (redact_chars (chars line))" by (simp add: redact_def)
  then have "redact_chars (chars line) = pre @ NEEDLE @ (post @ drop 200 (redact_chars (chars line)))"
    using assms(2) by (metis append_assoc append_take_drop_id)
  from redact_chars_hides [OF this] obtain rest where "post @ drop 200 (redact_chars (chars line)) = REDACTED @ rest"
    by blast
  then have "take (length REDACTED) post = take (length post) REDACTED"
    by (auto simp: append_eq_append_conv_if split: if_splits)
  then show ?thesis using c by simp
qed

text \<open>
  The two errors raised after the token is read quote the URL as it is: a line without a port puts its
  token into the error.
\<close>

lemma missing_port_prints_the_token:
  "parse_ready resolve_host ''dsh web: http://127.0.0.1/?token=secret'' = Inl (BadUrl ''http://127.0.0.1/?token=secret'')"
proof -
  have t: "trim ''http://127.0.0.1/?token=secret'' = ''http://127.0.0.1/?token=secret''"
    by (rule trim_graphic) (simp add: graphic_def)
  have o: "parse_octet ''127'' = Some 127" "parse_octet ''0'' = Some 0" "parse_octet ''1'' = Some 1"
    by (simp_all add: parse_octet_def)
  show ?thesis
    by (simp add: parse_ready_def READY_PREFIX_def trim_end_matches_def strip_prefix_def starts_with_def t
        parse_main_def parse_url_def Let_def host_of_def url_is_loopback_def parse_uint_def url_token_def
        url_ip_def trim_matches_def parse_ip_def parse_v4_def o url_port_def)
qed

section \<open>Witnesses\<close>

theorem dsh_line_is_understood_witness:
  "parse_ready (\<lambda>_. None)
     (dsh_line (loopback_authority 0 0 1 3080) ''abc123'' (Some ''http://192.168.1.5:3080/'') @ [CHR 0x0D, CHR 0x0A]) =
    Inr (Some \<lparr>rl_addr = V4 127 0 0 1, rl_port = 3080, rl_base_url = ''http://'' @ loopback_authority 0 0 1 3080,
      rl_token = ''abc123'', rl_lan_url = Some ''http://192.168.1.5:3080/''\<rparr>)"
  by (rule dsh_line_is_understood) (simp_all add: graphic_def)

lemma demo_localhost:
  "parse_ready (\<lambda>_. Some [V4 10 0 0 1, V6 [0, 0, 0, 0, 0, 0, 0, 1]]) ''dsh web: http://localhost:80/?token=t'' =
    Inr (Some \<lparr>rl_addr = V6 [0, 0, 0, 0, 0, 0, 0, 1], rl_port = 80, rl_base_url = ''http://[::1]:80'',
      rl_token = ''t'', rl_lan_url = None\<rparr>)"
proof -
  have t: "trim ''http://localhost:80/?token=t'' = ''http://localhost:80/?token=t''"
    by (rule trim_graphic) (simp add: graphic_def)
  have n: "parse_ip ''localhost'' = None"
    by (simp add: parse_ip_def parse_v4_def parse_octet_def parse_v6_def parse_groups_def parse_group_def
        starts_with_def strip_prefix_def)
  have d: "decimal 80 = ''80''" by (simp add: decimal.simps)
  show ?thesis
    by (simp add: parse_ready_def READY_PREFIX_def trim_end_matches_def strip_prefix_def starts_with_def t
        parse_main_def parse_url_def Let_def host_of_def url_is_loopback_def parse_uint_def url_token_def
        url_ip_def trim_matches_def n url_port_def url_base_def show_loopback [unfolded One_nat_def] d is_loopback_addr_def)
qed

theorem ready_line_well_formed_witness:
  "ready_line_ok \<lparr>rl_addr = V6 [0, 0, 0, 0, 0, 0, 0, 1], rl_port = 80, rl_base_url = ''http://[::1]:80'',
      rl_token = ''t'', rl_lan_url = None\<rparr>"
  by (rule ready_line_well_formed [OF demo_localhost])

theorem redact_hides_tokens_witness:
  "take (length REDACTED) (REDACTED @ [38]) = take (length (REDACTED @ [38])) REDACTED
   \<and> length (chars (redact ''?token=secret&'')) \<le> 200"
proof -
  have "dropWhile (\<lambda>c. \<not> ends_value c) [115, 101, 99, 114, 101, 116, 38] = [38]"
    by (simp add: ends_value_def is_whitespace_def)
  then have r: "redact_chars [63, 116, 111, 107, 101, 110, 61, 115, 101, 99, 114, 101, 116, 38] = 63 # NEEDLE @ REDACTED @ [38]"
    by (simp add: redact_chars.simps(2) NEEDLE_def)
  have c: "chars ''?token=secret&'' = [63, 116, 111, 107, 101, 110, 61, 115, 101, 99, 114, 101, 116, 38]"
    by (simp add: chars_ascii)
  have s: "list_all is_scalar (63 # NEEDLE @ REDACTED @ [38])"
    by (simp add: NEEDLE_def REDACTED_def is_scalar_def)
  then have "chars (redact ''?token=secret&'') = [63] @ NEEDLE @ (REDACTED @ [38])"
    by (simp add: redact_def c r) (simp add: NEEDLE_def REDACTED_def)
  moreover have "is_utf8 ''?token=secret&''" by (simp add: is_utf8_ascii)
  ultimately show ?thesis using redact_hides_tokens by blast
qed

end
