(* ===== verification/Supervisor.thy ===== *)
theory Supervisor
  imports Ready Lifecycle
begin

text \<open>
  Starting, watching and stopping the DSH process, \<open>dsh/supervisor.rs\<close> of the daemon. What the process
  does is a list of timed events, in the order in which the daemon's \<open>select!\<close> takes them: a line of
  output, the end of the output, a read error, the exit of the process. Times are in milliseconds. Shown:
  a start is decided by the first event that decides it, within the deadline; a started DSH is one that
  announced a loopback address; a stop that reports success leaves no process.
\<close>

definition READY_TIMEOUT :: nat where "READY_TIMEOUT = 90 * 1000"
definition STOP_GRACE :: nat where "STOP_GRACE = 15 * 1000"

record supervisor_config =
  sc_executable :: string
  sc_port :: u16

definition supervisor_config_default :: supervisor_config where
  "supervisor_config_default = \<lparr>sc_executable = ''dsh'', sc_port = 3080\<rparr>"

datatype supervise_error =
    SpawnFailed string string
  | ExitedEarly string
  | ReadyTimeout nat
  | Unusable ready_error
  | OutputFailed string

record supervisor =
  sv_config :: supervisor_config
  sv_ready :: ready_line
  sv_pid :: "u32 option"

text \<open>The command line is put together here; no part of it but the port is an input.\<close>

definition dsh_arguments :: "supervisor_config \<Rightarrow> string list" where
  "dsh_arguments config = [''web'', ''--no-open'', ''--port'', decimal (unat (sc_port config))]"

datatype child_event =
    OutLine string
  | OutClosed "string option"
  | OutError string
  | ChildExited string

type_synonym timeline = "(nat \<times> child_event) list"
type_synonym resolver = "string \<Rightarrow> ip_addr list option"

text \<open>
  \<open>OutClosed\<close> carries what \<open>try_wait\<close> answers at that moment. The second result is the output forwarded
  to the log. An event that comes at the very deadline counts as too late.
\<close>

fun wait_for_ready :: "resolver \<Rightarrow> nat \<Rightarrow> nat \<Rightarrow> timeline \<Rightarrow> (supervise_error + ready_line) \<times> string list" where
  "wait_for_ready rs deadline now [] = (Inl (ReadyTimeout (READY_TIMEOUT div 1000)), [])"
| "wait_for_ready rs deadline now ((t, e) # es) =
     (if deadline \<le> now \<or> deadline \<le> t then (Inl (ReadyTimeout (READY_TIMEOUT div 1000)), [])
      else case e of
             OutError reason \<Rightarrow> (Inl (OutputFailed reason), [])
           | OutClosed known \<Rightarrow>
               (Inl (ExitedEarly (case known of Some exit_status \<Rightarrow> exit_status | None \<Rightarrow> ''unknown'')), [])
           | ChildExited exit_status \<Rightarrow> (Inl (ExitedEarly exit_status), [])
           | OutLine line \<Rightarrow>
               (case parse_ready rs line of
                  Inl err \<Rightarrow> (Inl (Unusable err), [])
                | Inr (Some ready) \<Rightarrow> (Inr ready, [])
                | Inr None \<Rightarrow>
                    (let (r, logged) = wait_for_ready rs deadline (max now t) es in (r, line # logged))))"

text \<open>What the operating system answers to the spawn: an error, or a pid and the life of the process.\<close>

type_synonym spawned = "string + (u32 option \<times> timeline)"

definition supervisor_start ::
  "resolver \<Rightarrow> supervisor_config \<Rightarrow> nat \<Rightarrow> spawned \<Rightarrow> (supervise_error + supervisor) \<times> string list" where
  "supervisor_start rs config now outcome =
     (case outcome of
        Inl source \<Rightarrow> (Inl (SpawnFailed (sc_executable config) source), [])
      | Inr (pid, es) \<Rightarrow>
          (let (r, logged) = wait_for_ready rs (now + READY_TIMEOUT) now es in
           (map_sum id (\<lambda>ready. \<lparr>sv_config = config, sv_ready = ready, sv_pid = pid\<rparr>) r, logged)))"

definition is_running :: "string + string option \<Rightarrow> string + bool" where
  "is_running try_wait = map_sum id (\<lambda>exit_status. exit_status = None) try_wait"

section \<open>Stopping\<close>

datatype signal = Sigterm u32 | Sigkill

text \<open>
  What happens while the process is stopped: the answer of \<open>try_wait\<close>, when the process is reaped after
  SIGTERM, if it is at all, and the result of the hard kill, which waits for the process to end.
\<close>

record ending =
  en_try_wait :: "string + string option"
  en_reaped_after :: "nat option"
  en_kill :: "string + unit"

definition supervisor_stop :: "u32 option \<Rightarrow> ending \<Rightarrow> (string + unit) \<times> signal list" where
  "supervisor_stop pid w =
     (case en_try_wait w of
        Inl reason \<Rightarrow> (Inl reason, [])
      | Inr (Some _) \<Rightarrow> (Inr (), [])
      | Inr None \<Rightarrow>
          (let term = (case pid of Some p \<Rightarrow> [Sigterm p] | None \<Rightarrow> []) in
           case en_reaped_after w of
             Some t \<Rightarrow> if t < STOP_GRACE then (Inr (), term) else (en_kill w, term @ [Sigkill])
           | None \<Rightarrow> (en_kill w, term @ [Sigkill])))"

definition is_gone :: "ending \<Rightarrow> bool" where
  "is_gone w \<longleftrightarrow> (\<exists>exit_status. en_try_wait w = Inr (Some exit_status))
     \<or> (\<exists>t. en_reaped_after w = Some t \<and> t < STOP_GRACE) \<or> en_kill w = Inr ()"

lemma stop_leaves_no_process: "fst (supervisor_stop pid w) = Inr () \<Longrightarrow> is_gone w"
  by (auto simp: supervisor_stop_def is_gone_def Let_def split: sum.splits option.splits if_splits)

text \<open>SIGKILL comes last, only when SIGTERM did not end the process in time; a process that is gone gets no signal.\<close>

lemma stop_signals:
  "snd (supervisor_stop pid w) \<noteq> [] \<Longrightarrow> en_try_wait w = Inr None"
  "Sigkill \<in> set (snd (supervisor_stop pid w)) \<Longrightarrow>
     \<not> (\<exists>t. en_reaped_after w = Some t \<and> t < STOP_GRACE) \<and> last (snd (supervisor_stop pid w)) = Sigkill"
  by (auto simp: supervisor_stop_def Let_def split: sum.splits option.splits if_splits)

section \<open>What the lifecycle driver sees\<close>

text \<open>The standard library's \<open>Debug\<close> of a text is an argument of the error texts.\<close>

definition ready_error_text :: "(string \<Rightarrow> string) \<Rightarrow> ready_error \<Rightarrow> string" where
  "ready_error_text debug e =
     (case e of
        NotReady s \<Rightarrow> ''not a readiness line: '' @ debug s
      | BadUrl s \<Rightarrow> ''readiness line has no usable URL: '' @ debug s
      | NoToken s \<Rightarrow> ''readiness line URL carries no token: '' @ debug s
      | NotLoopback addr \<Rightarrow> ''readiness line points at '' @ addr @ '', which is not loopback'')"

definition supervise_error_text :: "(string \<Rightarrow> string) \<Rightarrow> supervise_error \<Rightarrow> string" where
  "supervise_error_text debug e =
     (case e of
        SpawnFailed executable source \<Rightarrow> ''cannot start '' @ executable @ '': '' @ source
      | ExitedEarly exit_status \<Rightarrow> ''DSH exited before announcing readiness (status '' @ exit_status
          @ ''); its output is in the daemon log''
      | ReadyTimeout secs \<Rightarrow> ''DSH did not announce readiness within '' @ decimal secs
          @ ''s; it may be an incompatible version, or `printUrl` may be disabled in its web-app row ''
          @ ''(see docs/integration/dsh-surface.md)''
      | Unusable err \<Rightarrow> ''DSH announced readiness in a form this daemon cannot use: '' @ ready_error_text debug err
      | OutputFailed source \<Rightarrow> ''cannot read DSH output: '' @ source)"

definition spawner_spawn ::
  "(string \<Rightarrow> string) \<Rightarrow> resolver \<Rightarrow> supervisor_config \<Rightarrow> nat \<Rightarrow> spawned \<Rightarrow> string + supervisor" where
  "spawner_spawn debug rs config now outcome =
     map_sum (supervise_error_text debug) id (fst (supervisor_start rs config now outcome))"

definition running_wait :: "string + string \<Rightarrow> string" where
  "running_wait exit_status =
     (case exit_status of
        Inr st \<Rightarrow> ''DSH exited: '' @ st
      | Inl err \<Rightarrow> ''cannot determine how DSH exited: '' @ err)"

definition running_stop :: "u32 option \<Rightarrow> ending \<Rightarrow> string option" where
  "running_stop pid w = (case fst (supervisor_stop pid w) of Inl reason \<Rightarrow> Some reason | Inr () \<Rightarrow> None)"

definition spawn_event :: "string + supervisor \<Rightarrow> event" where
  "spawn_event r = (case r of Inl reason \<Rightarrow> SpawnErr reason | Inr sv \<Rightarrow> SpawnOk (sv_pid sv))"

section \<open>What decides a start\<close>

definition ordinary :: "resolver \<Rightarrow> child_event \<Rightarrow> bool" where
  "ordinary rs e = (case e of OutLine line \<Rightarrow> parse_ready rs line = Inr None | _ \<Rightarrow> False)"

definition verdict :: "resolver \<Rightarrow> child_event \<Rightarrow> supervise_error + ready_line" where
  "verdict rs e =
     (case e of
        OutError reason \<Rightarrow> Inl (OutputFailed reason)
      | OutClosed known \<Rightarrow> Inl (ExitedEarly (case known of Some exit_status \<Rightarrow> exit_status | None \<Rightarrow> ''unknown''))
      | ChildExited exit_status \<Rightarrow> Inl (ExitedEarly exit_status)
      | OutLine line \<Rightarrow>
          (case parse_ready rs line of
             Inl err \<Rightarrow> Inl (Unusable err)
           | Inr (Some ready) \<Rightarrow> Inr ready
           | Inr None \<Rightarrow> Inl (ReadyTimeout (READY_TIMEOUT div 1000))))"

fun out_lines :: "timeline \<Rightarrow> string list" where
  "out_lines [] = []"
| "out_lines ((t, e) # es) = (case e of OutLine line \<Rightarrow> line # out_lines es | _ \<Rightarrow> out_lines es)"

definition in_time :: "nat \<Rightarrow> timeline \<Rightarrow> timeline" where
  "in_time deadline es = takeWhile (\<lambda>(t, e). t < deadline) es"

definition decided :: "resolver \<Rightarrow> timeline \<Rightarrow> supervise_error + ready_line" where
  "decided rs es =
     (case dropWhile (\<lambda>(t, e). ordinary rs e) es of
        [] \<Rightarrow> Inl (ReadyTimeout (READY_TIMEOUT div 1000))
      | (t, e) # _ \<Rightarrow> verdict rs e)"

lemma ordinary_simps [simp]:
  "ordinary rs (OutLine line) \<longleftrightarrow> parse_ready rs line = Inr None"
  "\<not> ordinary rs (OutClosed known)" "\<not> ordinary rs (OutError reason)" "\<not> ordinary rs (ChildExited reason)"
  by (simp_all add: ordinary_def)

lemma ordinaryE:
  assumes "ordinary rs e"
  obtains line where "e = OutLine line" and "parse_ready rs line = Inr None"
  using assms by (cases e) auto

lemma wait_for_ready_decided:
  assumes "now < deadline"
  shows "wait_for_ready rs deadline now es =
    (decided rs (in_time deadline es), out_lines (takeWhile (\<lambda>(t, e). ordinary rs e) (in_time deadline es)))"
  using assms
proof (induction es arbitrary: now)
  case Nil
  then show ?case by (simp add: decided_def in_time_def)
next
  case (Cons te es)
  obtain t e where te: "te = (t, e)" by (cases te)
  show ?case
  proof (cases "t < deadline \<and> ordinary rs e")
    case True
    then obtain line where "e = OutLine line" "parse_ready rs line = Inr None" using ordinaryE by blast
    moreover have "wait_for_ready rs deadline (max now t) es =
        (decided rs (in_time deadline es), out_lines (takeWhile (\<lambda>(t, e). ordinary rs e) (in_time deadline es)))"
      using Cons True by simp
    ultimately show ?thesis using True Cons.prems by (simp add: te decided_def in_time_def)
  next
    case False
    then show ?thesis using Cons.prems
      by (cases e) (auto simp: te decided_def in_time_def verdict_def split: sum.splits option.splits)
  qed
qed

section \<open>Properties\<close>

text \<open>
  C27. A start is decided by the first event that is not ordinary output and comes within ninety
  seconds of the start: readiness, an unusable announcement, the end of the output, a read error or the
  exit of the process. When there is none the start fails with a timeout, so it never hangs; and the
  log has exactly the ordinary lines that came before.
\<close>

theorem start_is_decided_in_time:
  "supervisor_start rs config now (Inr (pid, es)) =
     (map_sum id (\<lambda>ready. \<lparr>sv_config = config, sv_ready = ready, sv_pid = pid\<rparr>)
        (decided rs (in_time (now + READY_TIMEOUT) es)),
      out_lines (takeWhile (\<lambda>(t, e). ordinary rs e) (in_time (now + READY_TIMEOUT) es)))"
  by (simp add: supervisor_start_def wait_for_ready_decided READY_TIMEOUT_def)

lemma decided_Inr:
  assumes "decided rs es = Inr ready"
  obtains pre t line post where "es = pre @ (t, OutLine line) # post" and "parse_ready rs line = Inr (Some ready)"
    and "list_all (\<lambda>(t, e). ordinary rs e) pre" and "takeWhile (\<lambda>(t, e). ordinary rs e) es = pre"
proof -
  let ?P = "\<lambda>(t :: nat, e). ordinary rs e"
  obtain t e post where d: "dropWhile ?P es = (t, e) # post" "verdict rs e = Inr ready"
    using assms by (auto simp: decided_def split: list.splits)
  then obtain line where e: "e = OutLine line" "parse_ready rs line = Inr (Some ready)"
    by (auto simp: verdict_def split: child_event.splits sum.splits option.splits)
  have "es = takeWhile ?P es @ (t, OutLine line) # post" using d(1) e(1) by (metis takeWhile_dropWhile_id)
  moreover have "list_all ?P (takeWhile ?P es)" by (auto simp: list_all_iff dest: set_takeWhileD)
  ultimately show thesis using that e(2) by blast
qed

text \<open>
  A DSH that counts as started has announced itself on this machine: within ninety seconds of the
  start it printed a line that parses to a loopback address, a port and a token, after nothing but
  ordinary output, all of which was logged; and what it was started with is the configuration, whose
  only input to the command line is the port.
\<close>

theorem started_dsh_is_on_loopback:
  assumes "supervisor_start rs config now outcome = (Inr sv, logged)"
  shows "ready_line_ok (sv_ready sv) \<and> sv_config sv = config
    \<and> (\<exists>es pre t line post. outcome = Inr (sv_pid sv, es) \<and> es = pre @ (t, OutLine line) # post
        \<and> t < now + READY_TIMEOUT \<and> parse_ready rs line = Inr (Some (sv_ready sv)) \<and> logged = out_lines pre)"
proof -
  obtain pid es where out: "outcome = Inr (pid, es)" using assms by (cases outcome) (auto simp: supervisor_start_def)
  let ?s = "in_time (now + READY_TIMEOUT) es"
  have w: "wait_for_ready rs (now + READY_TIMEOUT) now es =
      (decided rs ?s, out_lines (takeWhile (\<lambda>(t, e). ordinary rs e) ?s))"
    by (simp add: wait_for_ready_decided READY_TIMEOUT_def)
  then obtain ready where r: "decided rs ?s = Inr ready"
      "sv = \<lparr>sv_config = config, sv_ready = ready, sv_pid = pid\<rparr>"
      "logged = out_lines (takeWhile (\<lambda>(t, e). ordinary rs e) ?s)"
    using assms by (auto simp: supervisor_start_def out map_sum_def split: sum.splits)
  obtain pre t line post where d: "?s = pre @ (t, OutLine line) # post" "parse_ready rs line = Inr (Some ready)"
      "takeWhile (\<lambda>(t, e). ordinary rs e) ?s = pre"
    using decided_Inr [OF r(1)] by metis
  have "(t, OutLine line) \<in> set ?s" using d(1) by simp
  then have t: "t < now + READY_TIMEOUT" by (auto simp: in_time_def dest: set_takeWhileD)
  obtain rest where "es = ?s @ rest" unfolding in_time_def by (metis takeWhile_dropWhile_id)
  then have "es = pre @ (t, OutLine line) # (post @ rest)" using d(1) by simp
  moreover have "ready_line_ok ready" using d(2) by (rule parse_ready_ok)
  ultimately show ?thesis using out r(2,3) d(2,3) t by auto
qed

section \<open>Witnesses\<close>

theorem started_dsh_is_on_loopback_witness:
  "ready_line_ok \<lparr>rl_addr = V6 [0, 0, 0, 0, 0, 0, 0, 1], rl_port = 80, rl_base_url = ''http://[::1]:80'',
      rl_token = ''t'', rl_lan_url = None\<rparr>"
proof -
  let ?rs = "\<lambda>_. Some [V4 10 0 0 1, V6 [0, 0, 0, 0, 0, 0, 0, 1]]"
  have "parse_ready ?rs ''loading'' = Inr None"
    by (simp add: parse_ready_def trim_end_matches_def READY_PREFIX_def strip_prefix_def)
  then have "supervisor_start ?rs supervisor_config_default 0
      (Inr (Some 7, [(10, OutLine ''loading''), (900, OutLine ''dsh web: http://localhost:80/?token=t'')])) =
    (Inr \<lparr>sv_config = supervisor_config_default, sv_ready = \<lparr>rl_addr = V6 [0, 0, 0, 0, 0, 0, 0, 1], rl_port = 80,
      rl_base_url = ''http://[::1]:80'', rl_token = ''t'', rl_lan_url = None\<rparr>, sv_pid = Some 7\<rparr>, [''loading''])"
    by (simp add: supervisor_start_def READY_TIMEOUT_def demo_localhost del: One_nat_def)
  from started_dsh_is_on_loopback [OF this] show ?thesis by simp
qed

end
