(* ===== verification/Startup.thy ===== *)
theory Startup
  imports Supervisor Door Proxy_Service
begin

text \<open>
  The daemon's start, \<open>run_command\<close> of \<open>lib.rs\<close>: the order of its checks, the DSH it starts or attaches to,
  the request that proves the chain, the proxy's own client, the lifecycle driver and the policy of the
  uplink; then which plane a frame of the tunnel belongs to, and the end. Each thing that reaches outside
  is a \<open>startup_act\<close> of the trace; what the outside answers is the world \<open>W\<close>. What is printed is left out.
\<close>

datatype bind_result = BindOk | BindInUse | BindFails string

record start_world =
  sw_signals :: "string + unit"
  sw_dsh_env :: "string option"
  sw_keepalive_env :: "string option"
  sw_debug :: "string \<Rightarrow> string"
  sw_bind :: "u16 \<Rightarrow> bind_result"
  sw_spawned :: spawned
  sw_interrupted :: bool
  sw_now :: nat
  sw_resolver :: resolver
  sw_fresh_key :: "byte list"
  sw_token_answer :: "http_request \<Rightarrow> exchange"
  sw_index_answer :: "http_request \<Rightarrow> exchange"
  sw_proxy_answer :: "http_request \<Rightarrow> exchange"

datatype startup_error =
    NoSignals string
  | AttachTokenAlone
  | ConfigNotRead string
  | KeepaliveUnusable string
  | StartNoState io_error
  | StartRoomKey room_key_error
  | RoomKeyWithoutRelay
  | PortInUse u16
  | PortUnchecked u16 string
  | CannotSupervise supervise_error
  | UnusableUrl dsh_client_error
  | TokenRejected dsh_client_error
  | NoIndex dsh_client_error
  | IndexRefused nat
  | ProxyRejected proxy_error
  | StartPolicy command_error

datatype startup_act =
    TryPort u16
  | SpawnDsh string "string list"
  | Redeem string string
  | FetchIndex string

type_synonym 'a starting = "startup_act list \<times> (startup_error + 'a)"

definition start_then :: "'a starting \<Rightarrow> ('a \<Rightarrow> 'b starting) \<Rightarrow> 'b starting" where
  "start_then m f =
     (case m of
        (acts, Inl e) \<Rightarrow> (acts, Inl e)
      | (acts, Inr x) \<Rightarrow> (acts @ fst (f x), snd (f x)))"

record start_options =
  so_config :: "string option"
  so_relay :: "string option"
  so_port :: "u16 option"
  so_room_key :: "string option"
  so_attach :: "u16 option"
  so_attach_token :: "string option"

section \<open>The two ways to a DSH\<close>

record local_dsh =
  ld_supervisor :: "supervisor option"
  ld_client :: dsh_client
  ld_base_url :: string
  ld_token :: "string option"

definition ensure_port_free :: "start_world \<Rightarrow> u16 \<Rightarrow> unit starting" where
  "ensure_port_free W port =
     ([TryPort port],
      case sw_bind W port of
        BindOk \<Rightarrow> Inr ()
      | BindInUse \<Rightarrow> Inl (PortInUse port)
      | BindFails reason \<Rightarrow> Inl (PortUnchecked port reason))"

definition redeem :: "http_lib \<Rightarrow> start_world \<Rightarrow> string \<Rightarrow> dsh_client \<Rightarrow> dsh_client starting" where
  "redeem H W token c =
     ([Redeem (dc_base_url c) token],
      case authenticate H (sw_token_answer W) token c of
        (Inl e, _) \<Rightarrow> Inl (TokenRejected e)
      | (Inr _, c') \<Rightarrow> Inr c')"

definition attach_dsh :: "http_lib \<Rightarrow> start_world \<Rightarrow> u16 \<Rightarrow> string option \<Rightarrow> local_dsh starting" where
  "attach_dsh H W port token =
     (let base_url = ''http://127.0.0.1:'' @ decimal (unat port) in
      start_then ([], map_err UnusableUrl (client_new H base_url)) (\<lambda>c.
      start_then (case token of Some t \<Rightarrow> redeem H W t c | None \<Rightarrow> ([], Inr c)) (\<lambda>c.
        ([], Inr \<lparr>ld_supervisor = None, ld_client = c, ld_base_url = base_url, ld_token = token\<rparr>))))"

text \<open>The signal that ends a start early is the only way to a result without a DSH.\<close>

definition manage_dsh :: "http_lib \<Rightarrow> start_world \<Rightarrow> supervisor_config \<Rightarrow> local_dsh option starting" where
  "manage_dsh H W config =
     start_then (ensure_port_free W (sc_port config)) (\<lambda>_.
     start_then ([SpawnDsh (sc_executable config) (dsh_arguments config)], Inr ()) (\<lambda>_.
       if sw_interrupted W then ([], Inr None)
       else
         start_then ([], map_err CannotSupervise
             (fst (supervisor_start (sw_resolver W) config (sw_now W) (sw_spawned W)))) (\<lambda>sv.
         start_then ([], map_err UnusableUrl (client_new H (rl_base_url (sv_ready sv)))) (\<lambda>c.
         start_then (redeem H W (rl_token (sv_ready sv)) c) (\<lambda>c.
           ([], Inr (Some \<lparr>ld_supervisor = Some sv, ld_client = c, ld_base_url = rl_base_url (sv_ready sv),
                ld_token = Some (rl_token (sv_ready sv))\<rparr>)))))))"

definition check_index :: "http_lib \<Rightarrow> start_world \<Rightarrow> dsh_client \<Rightarrow> unit starting" where
  "check_index H W c =
     ([FetchIndex (dc_base_url c)],
      case client_get H (sw_index_answer W) c ''/'' of
        Inl e \<Rightarrow> Inl (NoIndex e)
      | Inr index \<Rightarrow>
          if 200 \<le> hr_status index \<and> hr_status index < 300 then Inr () else Inl (IndexRefused (hr_status index)))"

definition start_proxy :: "http_lib \<Rightarrow> start_world \<Rightarrow> string option \<Rightarrow> local_dsh \<Rightarrow> service option starting" where
  "start_proxy H W relay l =
     (case relay of
        None \<Rightarrow> ([], Inr None)
      | Some _ \<Rightarrow>
          start_then ([], map_err UnusableUrl (client_new H (ld_base_url l))) (\<lambda>c.
            case ld_token l of
              None \<Rightarrow> ([], Inr (Some (service_new c)))
            | Some token \<Rightarrow>
                ([Redeem (dc_base_url c) token],
                 case service_authenticate H (sw_proxy_answer W) False token (service_new c) of
                   (Inl e, _) \<Rightarrow> Inl (ProxyRejected e)
                 | (Inr _, sv) \<Rightarrow> Inr (Some sv))))"

section \<open>The start\<close>

definition configured :: "start_world \<Rightarrow> start_options \<Rightarrow> supervisor_config" where
  "configured W opts =
     \<lparr>sc_executable = (case sw_dsh_env W of Some path \<Rightarrow> path | None \<Rightarrow> sc_executable supervisor_config_default),
      sc_port = (case so_port opts of Some port \<Rightarrow> port | None \<Rightarrow> sc_port supervisor_config_default)\<rparr>"

definition check_options :: "start_world \<Rightarrow> start_options \<Rightarrow> startup_error + nat option" where
  "check_options W opts =
     and_then (map_err NoSignals (sw_signals W)) (\<lambda>_.
       if so_attach_token opts \<noteq> None \<and> so_attach opts = None then Inl AttachTokenAlone
       else case so_config opts of
              Some path \<Rightarrow> Inl (ConfigNotRead path)
            | None \<Rightarrow> map_err KeepaliveUnusable (keepalive_setting (sw_debug W) (sw_keepalive_env W)))"

text \<open>The room key, when there is a relay to use it with.\<close>

definition start_key ::
  "('sp, 't, 'v) host \<Rightarrow> start_world \<Rightarrow> start_options \<Rightarrow> string \<Rightarrow> fs \<Rightarrow> (startup_error + byte list option) \<times> fs" where
  "start_key HO W opts directory fs =
     (case so_relay opts of
        Some _ \<Rightarrow>
          (case resolve_key (pe_ident (ho_pairing HO)) (sw_fresh_key W) directory (so_room_key opts) fs of
             (Inl e, fs') \<Rightarrow> (Inl (StartRoomKey e), fs')
           | (Inr resolved, fs') \<Rightarrow> (Inr (Some (rk_root resolved)), fs'))
      | None \<Rightarrow> if so_room_key opts \<noteq> None then (Inl RoomKeyWithoutRelay, fs) else (Inr None, fs))"

record daemon =
  dn_mode :: mode
  dn_driver :: driver
  dn_proxy :: "service option"
  dn_base_url :: string
  dn_keepalive :: "nat option"
  dn_uplink :: "(byte list \<times> device_policy \<times> string) option"

datatype startup = StoppedEarly | Serving daemon

definition daemon_mode :: "supervisor_config \<Rightarrow> start_options \<Rightarrow> mode" where
  "daemon_mode config opts = (case so_attach opts of Some port \<Rightarrow> Attached port | None \<Rightarrow> Managed (sc_port config))"

definition first_driver :: "mode \<Rightarrow> supervisor option \<Rightarrow> driver" where
  "first_driver m handed =
     (let d = driver_new m restart_policy_default in
      begin_run (case handed of Some sv \<Rightarrow> adopt (sv_pid sv) d | None \<Rightarrow> d))"

definition start_uplink ::
  "('sp, 't, 'v) host \<Rightarrow> byte list option \<Rightarrow> fs \<Rightarrow> startup_error + (byte list \<times> device_policy \<times> string) option" where
  "start_uplink HO root fs =
     (case root of
        None \<Rightarrow> Inr None
      | Some root \<Rightarrow>
          and_then (map_err StartPolicy (load_policy HO fs)) (\<lambda>policy.
          and_then (map_err StartNoState (state_dir HO fs)) (\<lambda>directory. Inr (Some (root, policy, directory)))))"

definition serve_dsh ::
  "('sp, 't, 'v) host \<Rightarrow> http_lib \<Rightarrow> start_world \<Rightarrow> start_options \<Rightarrow> nat option \<Rightarrow> byte list option \<Rightarrow> fs
     \<Rightarrow> local_dsh \<Rightarrow> startup starting" where
  "serve_dsh HO H W opts keepalive root fs l =
     start_then (check_index H W (ld_client l)) (\<lambda>_.
     start_then (start_proxy H W (so_relay opts) l) (\<lambda>proxy.
       let m = daemon_mode (configured W opts) opts in
       start_then ([], start_uplink HO root fs) (\<lambda>uplink.
         ([], Inr (Serving \<lparr>dn_mode = m, dn_driver = first_driver m (ld_supervisor l), dn_proxy = proxy,
              dn_base_url = ld_base_url l, dn_keepalive = keepalive, dn_uplink = uplink\<rparr>)))))"

definition run_command ::
  "('sp, 't, 'v) host \<Rightarrow> http_lib \<Rightarrow> start_world \<Rightarrow> start_options \<Rightarrow> fs \<Rightarrow> startup starting \<times> fs" where
  "run_command HO H W opts fs =
     (case check_options W opts of
        Inl e \<Rightarrow> (([], Inl e), fs)
      | Inr keepalive \<Rightarrow>
          (case state_dir HO fs of
             Inl e \<Rightarrow> (([], Inl (StartNoState e)), fs)
           | Inr directory \<Rightarrow>
               (case start_key HO W opts directory fs of
                  (Inl e, fs') \<Rightarrow> (([], Inl e), fs')
                | (Inr root, fs') \<Rightarrow>
                    (case so_attach opts of
                       Some port \<Rightarrow>
                         (start_then (attach_dsh H W port (so_attach_token opts)) (serve_dsh HO H W opts keepalive root fs'), fs')
                     | None \<Rightarrow>
                         (start_then (manage_dsh H W (configured W opts)) (\<lambda>l.
                            case l of None \<Rightarrow> ([], Inr StoppedEarly) | Some l \<Rightarrow> serve_dsh HO H W opts keepalive root fs' l),
                          fs')))))"

section \<open>What a running daemon answers from\<close>

definition facts_of :: "daemon \<Rightarrow> lifecycle \<Rightarrow> relay_state option \<Rightarrow> string \<Rightarrow> daemon_facts" where
  "facts_of d now relay directory =
     \<lparr>df_owned = (case dn_mode d of Managed _ \<Rightarrow> True | Attached _ \<Rightarrow> False), df_relay = relay, df_mode = dn_mode d,
      df_snapshot = now, df_state_dir = directory\<rparr>"

text \<open>The handler of a frame: the proxy's magic decides, not the stream.\<close>

datatype plane = ControlPlane | ProxyPlane | NoPlane

definition plane_of :: "daemon \<Rightarrow> u32 \<Rightarrow> byte list \<Rightarrow> plane" where
  "plane_of d stream_id payload =
     (if take (length PX_MAGIC) payload \<noteq> PX_MAGIC
      then if stream_id = CONTROL_STREAM_ID then ControlPlane else NoPlane
      else if dn_proxy d = None then NoPlane else ProxyPlane)"

text \<open>
  What a frame does to the files, the proxy's state and outbox, and the stream of the control plane's
  replies. \<open>None\<close> is a request that is still waiting for DSH when the connection ends.
\<close>

definition on_frame ::
  "'v control_env \<Rightarrow> http_lib \<Rightarrow> network \<Rightarrow> daemon \<Rightarrow> (lifecycle_op \<Rightarrow> lifecycle \<times> fate) \<Rightarrow> daemon_facts
     \<Rightarrow> u32 \<Rightarrow> byte list \<Rightarrow> service \<times> outbox \<Rightarrow> fs \<Rightarrow> (reply list \<times> (service \<times> outbox) \<times> fs) option" where
  "on_frame E H net d later facts stream_id payload st fs =
     (case plane_of d stream_id payload of
        ControlPlane \<Rightarrow> (let (rs, fs') = control_exchange E payload facts later fs in Some (rs, st, fs'))
      | ProxyPlane \<Rightarrow> map_option (\<lambda>(_, st'). ([], st', fs)) (handle H net stream_id payload st)
      | NoPlane \<Rightarrow> Some ([], st, fs))"

text \<open>The end: the driver is told to stop, and what it answers is printed when it is not a success.\<close>

definition ending_notice :: "mode \<Rightarrow> lifecycle \<Rightarrow> fate \<Rightarrow> string option" where
  "ending_notice m now f =
     (let stopped = handle_command m now OpStop f in
      if lr_ok stopped then None
      else Some (''drdshd: DSH may not have stopped cleanly: ''
             @ (case lr_error stopped of Some reason \<Rightarrow> reason | None \<Rightarrow> ''no reason given'')))"

section \<open>How far a start gets\<close>

lemma start_then_Inr:
  "start_then m f = (acts, Inr y) \<longleftrightarrow>
     (\<exists>acts1 x acts2. m = (acts1, Inr x) \<and> f x = (acts2, Inr y) \<and> acts = acts1 @ acts2)"
proof (cases m)
  case (Pair a r)
  show ?thesis
  proof (cases r)
    case (Inr x)
    then show ?thesis by (cases "f x") (auto simp: start_then_def Pair)
  qed (simp add: start_then_def Pair)
qed

definition acts_within :: "(startup_act \<Rightarrow> bool) \<Rightarrow> 'a starting \<Rightarrow> bool" where
  "acts_within P m \<longleftrightarrow> list_all P (fst m)"

lemma acts_within_pure [simp]: "acts_within P ([], r)"
  by (simp add: acts_within_def)

lemma acts_within_start_then:
  "acts_within P m \<Longrightarrow> (\<And>acts x. m = (acts, Inr x) \<Longrightarrow> acts_within P (f x)) \<Longrightarrow> acts_within P (start_then m f)"
  by (cases m) (auto simp: start_then_def acts_within_def split: sum.splits)

text \<open>The authorities of this machine: what DSH announced, or the attach port.\<close>

definition local_base :: "string \<Rightarrow> bool" where
  "local_base base \<longleftrightarrow>
     (\<exists>ip port. is_loopback_addr ip \<and> port < 2 ^ 16 \<and> base = ''http://'' @ shown_authority ip port)"

definition local_act :: "startup_act \<Rightarrow> bool" where
  "local_act act =
     (case act of
        TryPort _ \<Rightarrow> True
      | SpawnDsh _ args \<Rightarrow> (\<exists>config. args = dsh_arguments config)
      | Redeem base _ \<Rightarrow> local_base base
      | FetchIndex base \<Rightarrow> local_base base)"

lemma client_new_base: "client_new H base = Inr c \<Longrightarrow> dc_base_url c = base \<and> base = ''http://'' @ dc_authority c"
  by (auto simp: client_new_def strip_prefix_Some split: option.splits if_splits)

lemma authenticate_base:
  "authenticate H ask token c = (r, c') \<Longrightarrow> dc_base_url c' = dc_base_url c \<and> dc_authority c' = dc_authority c"
  by (auto simp: authenticate_def split: sum.splits if_splits option.splits)

lemma redeem_within: "local_base (dc_base_url c) \<Longrightarrow> acts_within local_act (redeem H W token c)"
  by (simp add: acts_within_def redeem_def local_act_def)

lemma redeem_Inr: "redeem H W token c = (acts, Inr c') \<Longrightarrow> dc_base_url c' = dc_base_url c"
  by (auto simp: redeem_def dest!: authenticate_base split: prod.splits sum.splits)

lemma attach_base_local: "local_base (''http://127.0.0.1:'' @ decimal (unat (port :: u16)))"
proof -
  have "unat port < 2 ^ 16" using unsigned_less [of port] by simp
  moreover have "decimal 0 = ''0''" "decimal 1 = ''1''" by (subst decimal.simps, simp)+
  then have "show_ip (V4 127 0 0 1) = ''127.0.0.1''" unfolding show_ip_def by (simp add: decimal_127)
  then have "''http://127.0.0.1:'' @ decimal (unat port) = ''http://'' @ shown_authority (V4 127 0 0 1) (unat port)"
    by (simp add: shown_authority_def)
  ultimately show ?thesis unfolding local_base_def
    by (intro exI [of _ "V4 127 0 0 1"] exI [of _ "unat port"]) (simp add: is_loopback_addr_def)
qed

definition sound_dsh :: "start_options \<Rightarrow> local_dsh \<Rightarrow> bool" where
  "sound_dsh opts l \<longleftrightarrow>
     local_base (ld_base_url l) \<and> dc_base_url (ld_client l) = ld_base_url l
     \<and> (ld_supervisor l = None \<longleftrightarrow> so_attach opts \<noteq> None)"

lemma attach_dsh_sound:
  assumes "so_attach opts = Some port"
  shows "acts_within local_act (attach_dsh H W port token)"
    and "attach_dsh H W port token = (acts, Inr l) \<Longrightarrow> sound_dsh opts l"
proof -
  let ?base = "''http://127.0.0.1:'' @ decimal (unat port)"
  have base: "dc_base_url c = ?base" "local_base (dc_base_url c)" if "client_new H ?base = Inr c" for c
    using client_new_base [OF that] attach_base_local [of port] by simp_all
  show "acts_within local_act (attach_dsh H W port token)"
  unfolding attach_dsh_def Let_def
  proof (intro acts_within_start_then)
    fix acts c assume "([], map_err UnusableUrl (client_new H ?base)) = (acts, Inr c)"
    then have "local_base (dc_base_url c)" using base by simp
    then show "acts_within local_act (case token of Some t \<Rightarrow> redeem H W t c | None \<Rightarrow> ([], Inr c))"
      by (cases token) (auto simp: acts_within_def [of _ "([], _)"] intro: redeem_within)
  qed (simp_all add: acts_within_def)
  show "sound_dsh opts l" if "attach_dsh H W port token = (acts, Inr l)"
    using that assms base attach_base_local [of port]
    by (auto simp: attach_dsh_def Let_def start_then_Inr sound_dsh_def dest!: redeem_Inr split: option.splits)
qed

lemma supervisor_start_ready:
  assumes "fst (supervisor_start rs config now outcome) = Inr sv"
  shows "ready_line_ok (sv_ready sv)"
proof -
  obtain pid es where out: "outcome = Inr (pid, es)" using assms by (cases outcome) (auto simp: supervisor_start_def)
  have "wait_for_ready rs deadline n es = (Inr r, logged) \<Longrightarrow> ready_line_ok r" for deadline n es r logged
    by (induction rs deadline n es arbitrary: logged rule: wait_for_ready.induct)
      (auto split: if_splits child_event.splits sum.splits option.splits prod.splits intro: parse_ready_ok)
  then show ?thesis using assms by (auto simp: supervisor_start_def out map_sum_def split: sum.splits prod.splits)
qed

lemma announced_base_local:
  assumes "ready_line_ok r" and "client_new H (rl_base_url r) = Inr c"
  shows "local_base (rl_base_url r)"
proof -
  have "rl_base_url r = ''http://'' @ dc_authority c" using client_new_base [OF assms(2)] by simp
  then have "rl_base_url r = ''http://'' @ ready_authority r" using assms(1) by (auto simp: ready_line_ok_def)
  then show ?thesis using assms(1) by (auto simp: ready_line_ok_def local_base_def)
qed

lemma started_base_local:
  assumes "fst (supervisor_start rs config now outcome) = Inr sv" and "client_new H (rl_base_url (sv_ready sv)) = Inr c"
  shows "local_base (rl_base_url (sv_ready sv)) \<and> dc_base_url c = rl_base_url (sv_ready sv)"
  using announced_base_local [OF supervisor_start_ready [OF assms(1)] assms(2)] client_new_base [OF assms(2)] by simp

lemma started_redeem_within:
  "fst (supervisor_start rs config now outcome) = Inr sv \<Longrightarrow> client_new H (rl_base_url (sv_ready sv)) = Inr c
     \<Longrightarrow> acts_within local_act (redeem H W token c)"
  using started_base_local by (simp add: redeem_within)

lemma manage_dsh_sound:
  assumes "so_attach opts = None"
  shows "acts_within local_act (manage_dsh H W config)"
    and "manage_dsh H W config = (acts, Inr (Some l)) \<Longrightarrow> sound_dsh opts l"
proof -
  show "acts_within local_act (manage_dsh H W config)"
    unfolding manage_dsh_def
  proof (intro acts_within_start_then)
    show "acts_within local_act (ensure_port_free W (sc_port config))"
      by (simp add: acts_within_def ensure_port_free_def local_act_def)
    show "acts_within local_act ([SpawnDsh (sc_executable config) (dsh_arguments config)], Inr ())"
      by (auto simp: acts_within_def local_act_def)
  next
    fix acts1 x1 acts2 x2
    show "acts_within local_act (if sw_interrupted W then ([], Inr None) else
        start_then ([], map_err CannotSupervise (fst (supervisor_start (sw_resolver W) config (sw_now W) (sw_spawned W)))) (\<lambda>sv.
        start_then ([], map_err UnusableUrl (client_new H (rl_base_url (sv_ready sv)))) (\<lambda>c.
        start_then (redeem H W (rl_token (sv_ready sv)) c) (\<lambda>c. ([], Inr (Some \<lparr>ld_supervisor = Some sv, ld_client = c,
          ld_base_url = rl_base_url (sv_ready sv), ld_token = Some (rl_token (sv_ready sv))\<rparr>))))))"
    proof (cases "sw_interrupted W")
      case False
      then show ?thesis unfolding if_not_P [OF False]
        by (intro acts_within_start_then acts_within_pure) (auto simp: intro: started_redeem_within)
    qed simp
  qed
  show "sound_dsh opts l" if "manage_dsh H W config = (acts, Inr (Some l))"
    using that assms
    by (auto simp: manage_dsh_def start_then_Inr sound_dsh_def dest: started_base_local
        dest!: redeem_Inr split: if_splits)
qed

lemma start_proxy_sound:
  assumes "start_proxy H W relay l = (acts, Inr proxy)"
  shows "(proxy = None \<longleftrightarrow> relay = None)
    \<and> (\<forall>sv. proxy = Some sv \<longrightarrow> dc_base_url (sv_client sv) = ld_base_url l \<and> sv_conns sv = [])"
proof (cases relay)
  case None
  then show ?thesis using assms by (simp add: start_proxy_def)
next
  case (Some r)
  then obtain c where c: "client_new H (ld_base_url l) = Inr c"
    using assms by (auto simp: start_proxy_def start_then_Inr)
  show ?thesis
  proof (cases "ld_token l")
    case None
    then show ?thesis using assms Some c client_new_base [OF c]
      by (auto simp: start_proxy_def start_then_def service_new_def)
  next
    case (Some token)
    obtain r' c' where a: "authenticate H (sw_proxy_answer W) token c = (r', c')" by (cases "authenticate H (sw_proxy_answer W) token c")
    then show ?thesis using assms Some \<open>relay = Some r\<close> c client_new_base [OF c] authenticate_base [OF a]
      by (cases r') (auto simp: start_proxy_def start_then_def service_new_def service_authenticate_def)
  qed
qed

lemma serve_dsh_sound:
  assumes "sound_dsh opts l"
  shows "acts_within local_act (serve_dsh HO H W opts keepalive root fs l)"
    and "serve_dsh HO H W opts keepalive root fs l = (acts, Inr (Serving d)) \<Longrightarrow>
      dn_base_url d = ld_base_url l \<and> dn_mode d = daemon_mode (configured W opts) opts
      \<and> dn_driver d = first_driver (dn_mode d) (ld_supervisor l)
      \<and> (dn_proxy d = None \<longleftrightarrow> so_relay opts = None)
      \<and> (\<forall>sv. dn_proxy d = Some sv \<longrightarrow> dc_base_url (sv_client sv) = ld_base_url l \<and> sv_conns sv = [])"
proof -
  have base: "local_base (ld_base_url l)" "dc_base_url (ld_client l) = ld_base_url l"
    using assms by (simp_all add: sound_dsh_def)
  have proxy: "acts_within local_act (start_proxy H W (so_relay opts) l)"
  proof (cases "so_relay opts")
    case (Some r)
    show ?thesis unfolding start_proxy_def Some option.simps
      by (rule acts_within_start_then)
        (use base in \<open>auto simp: acts_within_def local_act_def dest!: client_new_base split: option.split\<close>)
  qed (simp add: start_proxy_def acts_within_def)
  have index: "acts_within local_act (check_index H W (ld_client l))"
    using base by (simp add: acts_within_def check_index_def local_act_def)
  show "acts_within local_act (serve_dsh HO H W opts keepalive root fs l)"
    unfolding serve_dsh_def Let_def by (intro acts_within_start_then index proxy acts_within_pure)
  show "dn_base_url d = ld_base_url l \<and> dn_mode d = daemon_mode (configured W opts) opts
      \<and> dn_driver d = first_driver (dn_mode d) (ld_supervisor l)
      \<and> (dn_proxy d = None \<longleftrightarrow> so_relay opts = None)
      \<and> (\<forall>sv. dn_proxy d = Some sv \<longrightarrow> dc_base_url (sv_client sv) = ld_base_url l \<and> sv_conns sv = [])"
    if "serve_dsh HO H W opts keepalive root fs l = (acts, Inr (Serving d))"
    using that
    by (auto simp: serve_dsh_def Let_def start_then_Inr dest!: start_proxy_sound)
qed

section \<open>Properties\<close>

lemma run_command_acts:
  "acts_within local_act (fst (run_command HO H W opts fs))"
proof -
  have "acts_within local_act (start_then (attach_dsh H W port (so_attach_token opts)) (serve_dsh HO H W opts keepalive root fs'))"
    if "so_attach opts = Some port" for port keepalive root fs'
    by (rule acts_within_start_then)
      (use attach_dsh_sound [OF that] serve_dsh_sound in blast)+
  moreover have "acts_within local_act (start_then (manage_dsh H W (configured W opts)) (\<lambda>l. case l of
      None \<Rightarrow> ([], Inr StoppedEarly) | Some l \<Rightarrow> serve_dsh HO H W opts keepalive root fs' l))"
    if "so_attach opts = None" for keepalive root fs'
  proof (rule acts_within_start_then)
    fix acts l assume "manage_dsh H W (configured W opts) = (acts, Inr l)"
    then show "acts_within local_act (case l of None \<Rightarrow> ([], Inr StoppedEarly)
        | Some l \<Rightarrow> serve_dsh HO H W opts keepalive root fs' l)"
      by (cases l) (auto intro!: serve_dsh_sound(1) manage_dsh_sound(2) [OF that])
  qed (rule manage_dsh_sound(1) [OF that])
  ultimately show ?thesis
    by (simp add: run_command_def split: sum.split prod.split option.split)
qed

text \<open>
  C4. Wherever a daemon comes up it is on this machine: every program it starts has the fixed command
  line, every request it makes on the way up goes to a loopback authority, the proxy it serves remote
  clients from is bound to that same DSH, and the driver is a fresh one in the mode that was asked for,
  so everything shown of reachable drivers holds of it.
\<close>

theorem daemon_comes_up_on_loopback:
  assumes "run_command HO H W opts fs = ((acts, r), fs')"
  shows "list_all local_act acts
    \<and> (case r of
         Inr (Serving d) \<Rightarrow>
           local_base (dn_base_url d) \<and> dn_mode d = daemon_mode (configured W opts) opts
           \<and> driver_init (dn_driver d) \<and> (dn_proxy d = None \<longleftrightarrow> so_relay opts = None)
           \<and> (case dn_proxy d of None \<Rightarrow> True
              | Some sv \<Rightarrow> dc_base_url (sv_client sv) = dn_base_url d \<and> sv_conns sv = [])
       | _ \<Rightarrow> True)"
proof -
  have init: "driver_init (first_driver (daemon_mode (configured W opts) opts) (ld_supervisor l))" if "sound_dsh opts l" for l
    using that driver_init.intros
    by (cases "ld_supervisor l") (auto simp: first_driver_def daemon_mode_def sound_dsh_def Let_def split: option.splits)
  have served: "local_base (dn_base_url d) \<and> dn_mode d = daemon_mode (configured W opts) opts
      \<and> driver_init (dn_driver d) \<and> (dn_proxy d = None \<longleftrightarrow> so_relay opts = None)
      \<and> (\<forall>sv. dn_proxy d = Some sv \<longrightarrow> dc_base_url (sv_client sv) = dn_base_url d \<and> sv_conns sv = [])"
    if "sound_dsh opts l" "serve_dsh HO H W opts keepalive root fs' l = (acts, Inr (Serving d))" for l keepalive root fs' acts d
    using serve_dsh_sound(2) [OF that] init [OF that(1)] that(1) by (auto simp: sound_dsh_def)
  have "list_all local_act acts" using run_command_acts [of HO H W opts fs] assms by (simp add: acts_within_def)
  moreover have "local_base (dn_base_url d) \<and> dn_mode d = daemon_mode (configured W opts) opts
      \<and> driver_init (dn_driver d) \<and> (dn_proxy d = None \<longleftrightarrow> so_relay opts = None)
      \<and> (\<forall>sv. dn_proxy d = Some sv \<longrightarrow> dc_base_url (sv_client sv) = dn_base_url d \<and> sv_conns sv = [])"
    if "r = Inr (Serving d)" for d
  proof (cases "so_attach opts")
    note up = that
    case (Some port)
    then obtain l keepalive root a1 a2 where "attach_dsh H W port (so_attach_token opts) = (a1, Inr l)"
        "serve_dsh HO H W opts keepalive root fs' l = (a2, Inr (Serving d))"
      using assms up by (auto simp: run_command_def start_then_Inr split: sum.splits prod.splits)
    then show ?thesis using served attach_dsh_sound(2) [OF Some] by blast
  next
    note up = that
    case None
    then obtain l keepalive root a1 a2 where "manage_dsh H W (configured W opts) = (a1, Inr (Some l))"
        "serve_dsh HO H W opts keepalive root fs' l = (a2, Inr (Serving d))"
      using assms up by (auto simp: run_command_def start_then_Inr split: sum.splits prod.splits option.splits)
    then show ?thesis using served manage_dsh_sound(2) [OF None] by blast
  qed
  ultimately show ?thesis by (auto split: sum.split startup.split option.split)
qed

text \<open>
  Options that contradict each other or cannot be understood: a token without an attach port, a
  configuration file, a keepalive that is no number, a room key without a relay.
\<close>

definition contradictory :: "start_world \<Rightarrow> start_options \<Rightarrow> bool" where
  "contradictory W opts \<longleftrightarrow>
     so_attach_token opts \<noteq> None \<and> so_attach opts = None \<or> so_config opts \<noteq> None
     \<or> (\<exists>m. keepalive_setting (sw_debug W) (sw_keepalive_env W) = Inl m)
     \<or> so_relay opts = None \<and> so_room_key opts \<noteq> None"

text \<open>
  C39. A start with contradictory options fails before it touches anything: no port is tried, no program
  is started, no request is made and no file is changed.
\<close>

theorem contradictory_start_touches_nothing:
  "contradictory W opts \<Longrightarrow> \<exists>e. run_command HO H W opts fs = (([], Inl e), fs)"
  by (cases "sw_signals W")
    (auto simp: contradictory_def run_command_def check_options_def start_key_def split: sum.split option.split prod.split)

section \<open>What the running daemon keeps\<close>

text \<open>
  The comment at the index check says an attached DSH without a token is not asked for its index. It is:
  a DSH that refuses unauthenticated requests keeps such a daemon from starting.
\<close>

lemma attach_without_token_needs_an_open_index:
  assumes "so_attach opts = Some port" and "so_attach_token opts = None"
    and "\<And>c. client_get H (sw_index_answer W) c ''/'' = Inr index" and "hr_status index = 401"
  shows "snd (fst (run_command HO H W opts fs)) \<noteq> Inr (Serving d)"
proof
  assume up: "snd (fst (run_command HO H W opts fs)) = Inr (Serving d)"
  obtain acts r fs' where run: "run_command HO H W opts fs = ((acts, r), fs')" by (metis surj_pair)
  then have "r = Inr (Serving d)" using up by simp
  then obtain l keepalive root a where "serve_dsh HO H W opts keepalive root fs' l = (a, Inr (Serving d))"
    using run assms(1) by (auto simp: run_command_def start_then_Inr split: sum.splits prod.splits)
  then show False using assms(3,4) by (auto simp: serve_dsh_def start_then_Inr check_index_def)
qed

text \<open>The field a client decides by whether lifecycle buttons mean anything says what the mode permits.\<close>

lemma owned_is_what_is_permitted:
  "st_owned (status (facts_of d now relay directory)) \<longleftrightarrow> check_permitted (dn_mode d) op = Inr ()"
  by (simp add: status_def facts_of_def check_permitted_def mode_refusal_reason_def split: mode.split)

text \<open>A frame reaches DSH or the control plane, never both, and nothing else touches either.\<close>

lemma planes_are_separate:
  assumes "on_frame E H net d later facts stream_id payload st fs = Some (rs, st', fs')"
  shows "if take (length PX_MAGIC) payload = PX_MAGIC then rs = [] \<and> fs' = fs
    else st' = st \<and> (stream_id = CONTROL_STREAM_ID \<or> rs = [] \<and> fs' = fs)"
  using assms by (auto simp: on_frame_def plane_of_def Let_def split: plane.splits if_splits prod.splits)

text \<open>
  While the daemon holds the command channel the driver's task does not end, also not when its restarts
  are used up: the branch of the main loop that stops the daemon then is never taken.
\<close>

lemma driver_does_not_end:
  assumes "driver_on e d = Some (d', rs)" and "e \<noteq> Closed" and "dv_place d \<noteq> Ended"
  shows "dv_place d' \<noteq> Ended"
  using assms
  by (auto simp: driver_on_def run_on_def start_on_def backoff_on_def return_from_start_def begin_spawn_def serve_def
      stop_def publish_def control_def serve_command_only_def Let_def
      split: place.splits event.splits if_splits prod.splits option.splits lifecycle_op.splits)

text \<open>In attach mode there is nothing to stop, and every end still says that DSH may not have stopped.\<close>

lemma attached_end_complains:
  "ending_notice (Attached port) now f \<noteq> None"
  by (simp add: ending_notice_def handle_command_def check_permitted_def mode_refusal_reason_def)

section \<open>Witnesses\<close>

text \<open>A machine where every call works and DSH answers its index.\<close>

definition demo_world :: start_world where
  "demo_world = \<lparr>sw_signals = Inr (), sw_dsh_env = None, sw_keepalive_env = None, sw_debug = id,
     sw_bind = (\<lambda>_. BindOk), sw_spawned = Inl [], sw_interrupted = False, sw_now = 0, sw_resolver = (\<lambda>_. None),
     sw_fresh_key = [], sw_token_answer = (\<lambda>_. TimedOut),
     sw_index_answer = (\<lambda>_. HttpAnswer \<lparr>hr_status = 200, hr_headers = [], hr_body = []\<rparr>),
     sw_proxy_answer = (\<lambda>_. TimedOut)\<rparr>"

definition demo_options :: start_options where
  "demo_options = \<lparr>so_config = None, so_relay = None, so_port = None, so_room_key = None, so_attach = Some 3080,
     so_attach_token = None\<rparr>"

lemma demo_state: "state_dir demo_host no_faults = Inr ''/state''"
  by (simp add: state_dir_def demo_host_def state_resolve_def create_dir_all_def no_faults_def)

lemma demo_run:
  "run_command demo_host demo_http demo_world demo_options no_faults =
     (([FetchIndex ''http://127.0.0.1:3080''],
       Inr (Serving \<lparr>dn_mode = Attached 3080, dn_driver = first_driver (Attached 3080) None, dn_proxy = None,
         dn_base_url = ''http://127.0.0.1:3080'', dn_keepalive = Some (seconds 30), dn_uplink = None\<rparr>)), no_faults)"
proof -
  have d: "decimal 3080 = ''3080''" by (simp add: decimal.simps)
  have c: "client_new demo_http ''http://127.0.0.1:3080'' = Inr demo_client" by code_simp
  have "check_options demo_world demo_options = Inr (Some (seconds 30))"
    by (simp add: check_options_def demo_world_def demo_options_def keepalive_setting_def DEFAULT_KEEPALIVE_SECS_def)
  moreover have "start_key demo_host demo_world demo_options ''/state'' no_faults = (Inr None, no_faults)"
    by (simp add: start_key_def demo_options_def)
  moreover have "attach_dsh demo_http demo_world 3080 None =
      ([], Inr \<lparr>ld_supervisor = None, ld_client = demo_client, ld_base_url = ''http://127.0.0.1:3080'', ld_token = None\<rparr>)"
    by (simp add: attach_dsh_def d c start_then_def Let_def)
  moreover have "check_index demo_http demo_world demo_client = ([FetchIndex ''http://127.0.0.1:3080''], Inr ())"
    by (simp add: check_index_def demo_world_def client_get_def client_send_def finish_def finish_request_def builder_new_def
        builder_header_def builder_body_def with_cookie_def demo_http_def demo_client_def)
  ultimately show ?thesis
    by (simp add: run_command_def demo_state demo_options_def serve_dsh_def start_then_def start_proxy_def start_uplink_def
        daemon_mode_def Let_def)
qed

theorem daemon_comes_up_on_loopback_witness:
  "list_all local_act [FetchIndex ''http://127.0.0.1:3080''] \<and> local_base ''http://127.0.0.1:3080''
   \<and> driver_init (first_driver (Attached 3080) None)"
proof -
  have "daemon_mode (configured demo_world demo_options) demo_options = Attached 3080"
    by (simp add: daemon_mode_def demo_options_def)
  then show ?thesis using daemon_comes_up_on_loopback [OF demo_run] by simp
qed

theorem contradictory_start_touches_nothing_witness:
  "\<exists>e. run_command demo_host demo_http demo_world (demo_options\<lparr>so_config := Some ''/etc/drdshd.toml''\<rparr>) no_faults
      = (([], Inl e), no_faults)"
  by (rule contradictory_start_touches_nothing) (simp add: contradictory_def)

end
