(* ===== verification/Daemon_Cli.thy ===== *)
theory Daemon_Cli
  imports Slices
begin

text \<open>
  The command line of the daemon, \<open>cli.rs\<close>: flags in any order after the verb, each with its value, the
  last one winning. Arguments are the texts \<open>to_string_lossy\<close> gives; errors keep what the message names.
  Shown: every command has a command line that parses to it, and what a parse gives depends on no flag
  the verb does not use.
\<close>

record run_options =
  ro_config :: "string option"
  ro_relay :: "string option"
  ro_port :: "nat option"
  ro_room_key :: "string option"
  ro_attach :: "nat option"
  ro_attach_token :: "string option"

record device_options =
  do_relay :: "string option"
  do_code :: "string option"
  do_name :: "string option"
  do_out :: "string option"
  do_rendezvous :: "string option"

datatype daemon_command =
    RunDaemon run_options
  | Pair "string option" "string option" "string option" "nat option"
  | PairAsDevice device_options
  | Devices "string option"
  | Crashes bool
  | AuditLog bool
  | Doctor "string option" "nat option"
  | Version
  | RoomKey

datatype cli_error =
    UnknownFlag string
  | NeedsValue string
  | NotANumber string string
  | UnknownCommand string

record cli_flags = run_options +
  fl_dsh :: "string option"
  fl_revoke :: "string option"
  fl_clear :: bool
  fl_wait :: "nat option"
  fl_code :: "string option"
  fl_name :: "string option"
  fl_out :: "string option"
  fl_rendezvous :: "string option"

definition no_flags :: cli_flags where
  "no_flags = \<lparr>ro_config = None, ro_relay = None, ro_port = None, ro_room_key = None, ro_attach = None,
     ro_attach_token = None, fl_dsh = None, fl_revoke = None, fl_clear = False, fl_wait = None, fl_code = None,
     fl_name = None, fl_out = None, fl_rendezvous = None\<rparr>"

definition number_flag :: "nat \<Rightarrow> string \<Rightarrow> string \<Rightarrow> (nat \<Rightarrow> cli_flags) \<Rightarrow> cli_error + cli_flags" where
  "number_flag bits flag v f = (case parse_uint bits v of Some n \<Rightarrow> Inr (f n) | None \<Rightarrow> Inl (NotANumber flag v))"

text \<open>The flags with a value, and what each does with it.\<close>

definition VALUE_FLAGS :: "string list" where
  "VALUE_FLAGS = [''--config'', ''--relay'', ''--room-key'', ''--revoke'', ''--wait'', ''--dsh'', ''--attach'',
     ''--attach-token'', ''--code'', ''--name'', ''--out'', ''--rendezvous'', ''--port'']"

definition set_value :: "string \<Rightarrow> string \<Rightarrow> cli_flags \<Rightarrow> cli_error + cli_flags" where
  "set_value flag v fl =
     (if flag = ''--config'' then Inr (fl\<lparr>ro_config := Some v\<rparr>)
      else if flag = ''--relay'' then Inr (fl\<lparr>ro_relay := Some v\<rparr>)
      else if flag = ''--room-key'' then Inr (fl\<lparr>ro_room_key := Some v\<rparr>)
      else if flag = ''--revoke'' then Inr (fl\<lparr>fl_revoke := Some v\<rparr>)
      else if flag = ''--wait'' then number_flag 64 flag v (\<lambda>n. fl\<lparr>fl_wait := Some n\<rparr>)
      else if flag = ''--dsh'' then Inr (fl\<lparr>fl_dsh := Some v\<rparr>)
      else if flag = ''--attach'' then number_flag 16 flag v (\<lambda>n. fl\<lparr>ro_attach := Some n\<rparr>)
      else if flag = ''--attach-token'' then Inr (fl\<lparr>ro_attach_token := Some v\<rparr>)
      else if flag = ''--code'' then Inr (fl\<lparr>fl_code := Some v\<rparr>)
      else if flag = ''--name'' then Inr (fl\<lparr>fl_name := Some v\<rparr>)
      else if flag = ''--out'' then Inr (fl\<lparr>fl_out := Some v\<rparr>)
      else if flag = ''--rendezvous'' then Inr (fl\<lparr>fl_rendezvous := Some v\<rparr>)
      else if flag = ''--port'' then number_flag 16 flag v (\<lambda>n. fl\<lparr>ro_port := Some n\<rparr>)
      else Inl (UnknownFlag flag))"

fun parse_flags :: "string list \<Rightarrow> cli_flags \<Rightarrow> cli_error + cli_flags" where
  "parse_flags [] fl = Inr fl"
| "parse_flags (flag # args) fl =
     (if flag = ''--clear'' then parse_flags args (fl\<lparr>fl_clear := True\<rparr>)
      else if flag \<notin> set VALUE_FLAGS then Inl (UnknownFlag flag)
      else case args of
             [] \<Rightarrow> Inl (NeedsValue flag)
           | v # rest \<Rightarrow>
               (case set_value flag v fl of Inl e \<Rightarrow> Inl e | Inr fl' \<Rightarrow> parse_flags rest fl'))"

definition run_options_of :: "cli_flags \<Rightarrow> run_options" where
  "run_options_of fl = \<lparr>ro_config = ro_config fl, ro_relay = ro_relay fl, ro_port = ro_port fl,
     ro_room_key = ro_room_key fl, ro_attach = ro_attach fl, ro_attach_token = ro_attach_token fl\<rparr>"

definition command_of :: "string \<Rightarrow> cli_flags \<Rightarrow> cli_error + daemon_command" where
  "command_of verb fl =
     (if verb = ''run'' then Inr (RunDaemon (run_options_of fl))
      else if verb = ''pair'' then Inr (Pair (ro_config fl) (ro_relay fl) (ro_room_key fl) (fl_wait fl))
      else if verb = ''pair-as-device'' then
        Inr (PairAsDevice \<lparr>do_relay = ro_relay fl, do_code = fl_code fl, do_name = fl_name fl, do_out = fl_out fl,
          do_rendezvous = fl_rendezvous fl\<rparr>)
      else if verb = ''devices'' then Inr (Devices (fl_revoke fl))
      else if verb = ''crashes'' then Inr (Crashes (fl_clear fl))
      else if verb = ''audit'' then Inr (AuditLog (fl_clear fl))
      else if verb = ''doctor'' then Inr (Doctor (fl_dsh fl) (ro_port fl))
      else if verb = ''version'' then Inr Version
      else if verb = ''room-key'' then Inr RoomKey
      else Inl (UnknownCommand verb))"

definition parse_command :: "string list \<Rightarrow> cli_error + daemon_command" where
  "parse_command args =
     (case args of
        [] \<Rightarrow> Inr (RunDaemon (run_options_of no_flags))
      | verb # args \<Rightarrow> (case parse_flags args no_flags of Inl e \<Rightarrow> Inl e | Inr fl \<Rightarrow> command_of verb fl))"

text \<open>\<open>run_with_args\<close>: help wins over everything, wherever it stands.\<close>

datatype cli_action = PrintHelp | Perform daemon_command | CliFails cli_error

definition run_with_args :: "string list \<Rightarrow> cli_action" where
  "run_with_args args =
     (if ''--help'' \<in> set args \<or> ''-h'' \<in> set args then PrintHelp
      else case parse_command args of Inl e \<Rightarrow> CliFails e | Inr c \<Rightarrow> Perform c)"

section \<open>Command lines\<close>

text \<open>A flag with its value, when there is one; numbers in decimal.\<close>

definition flag_args :: "string \<Rightarrow> string option \<Rightarrow> string list" where
  "flag_args flag v = (case v of None \<Rightarrow> [] | Some x \<Rightarrow> [flag, x])"

definition command_line :: "daemon_command \<Rightarrow> string list" where
  "command_line c =
     (case c of
        RunDaemon r \<Rightarrow> ''run'' # flag_args ''--config'' (ro_config r) @ flag_args ''--relay'' (ro_relay r)
          @ flag_args ''--port'' (map_option decimal (ro_port r)) @ flag_args ''--room-key'' (ro_room_key r)
          @ flag_args ''--attach'' (map_option decimal (ro_attach r)) @ flag_args ''--attach-token'' (ro_attach_token r)
      | Pair config relay room_key wait \<Rightarrow> ''pair'' # flag_args ''--config'' config @ flag_args ''--relay'' relay
          @ flag_args ''--room-key'' room_key @ flag_args ''--wait'' (map_option decimal wait)
      | PairAsDevice d \<Rightarrow> ''pair-as-device'' # flag_args ''--relay'' (do_relay d) @ flag_args ''--code'' (do_code d)
          @ flag_args ''--name'' (do_name d) @ flag_args ''--out'' (do_out d) @ flag_args ''--rendezvous'' (do_rendezvous d)
      | Devices revoke \<Rightarrow> ''devices'' # flag_args ''--revoke'' revoke
      | Crashes clear \<Rightarrow> ''crashes'' # (if clear then [''--clear''] else [])
      | AuditLog clear \<Rightarrow> ''audit'' # (if clear then [''--clear''] else [])
      | Doctor dsh port \<Rightarrow> ''doctor'' # flag_args ''--dsh'' dsh @ flag_args ''--port'' (map_option decimal port)
      | Version \<Rightarrow> [''version'']
      | RoomKey \<Rightarrow> [''room-key''])"

text \<open>Ports have 16 bits and a wait has 64.\<close>

definition fits :: "nat \<Rightarrow> nat option \<Rightarrow> bool" where
  "fits bits n = (case n of None \<Rightarrow> True | Some k \<Rightarrow> k < 2 ^ bits)"

definition command_ok :: "daemon_command \<Rightarrow> bool" where
  "command_ok c =
     (case c of
        RunDaemon r \<Rightarrow> fits 16 (ro_port r) \<and> fits 16 (ro_attach r)
      | Pair _ _ _ wait \<Rightarrow> fits 64 wait
      | Doctor _ port \<Rightarrow> fits 16 port
      | _ \<Rightarrow> True)"

named_theorems flag_steps

lemma parse_flags_value:
  assumes "flag \<in> set VALUE_FLAGS"
  shows "parse_flags (flag_args flag v @ args) fl =
    (case v of None \<Rightarrow> parse_flags args fl
     | Some x \<Rightarrow> (case set_value flag x fl of Inl e \<Rightarrow> Inl e | Inr fl' \<Rightarrow> parse_flags args fl'))"
proof -
  have "flag \<noteq> ''--clear''" using assms by (auto simp: VALUE_FLAGS_def)
  then show ?thesis using assms by (cases v) (simp_all add: flag_args_def)
qed

lemma value_flags:
  "''--config'' \<in> set VALUE_FLAGS" "''--relay'' \<in> set VALUE_FLAGS" "''--room-key'' \<in> set VALUE_FLAGS"
  "''--revoke'' \<in> set VALUE_FLAGS" "''--wait'' \<in> set VALUE_FLAGS" "''--dsh'' \<in> set VALUE_FLAGS"
  "''--attach'' \<in> set VALUE_FLAGS" "''--attach-token'' \<in> set VALUE_FLAGS" "''--code'' \<in> set VALUE_FLAGS"
  "''--name'' \<in> set VALUE_FLAGS" "''--out'' \<in> set VALUE_FLAGS" "''--rendezvous'' \<in> set VALUE_FLAGS"
  "''--port'' \<in> set VALUE_FLAGS"
  by (simp_all add: VALUE_FLAGS_def)

lemma unset:
  "ro_config fl = None \<Longrightarrow> fl\<lparr>ro_config := None\<rparr> = fl" "ro_relay fl = None \<Longrightarrow> fl\<lparr>ro_relay := None\<rparr> = fl"
  "ro_port fl = None \<Longrightarrow> fl\<lparr>ro_port := None\<rparr> = fl" "ro_room_key fl = None \<Longrightarrow> fl\<lparr>ro_room_key := None\<rparr> = fl"
  "ro_attach fl = None \<Longrightarrow> fl\<lparr>ro_attach := None\<rparr> = fl"
  "ro_attach_token fl = None \<Longrightarrow> fl\<lparr>ro_attach_token := None\<rparr> = fl"
  "fl_dsh fl = None \<Longrightarrow> fl\<lparr>fl_dsh := None\<rparr> = fl" "fl_revoke fl = None \<Longrightarrow> fl\<lparr>fl_revoke := None\<rparr> = fl"
  "fl_wait fl = None \<Longrightarrow> fl\<lparr>fl_wait := None\<rparr> = fl" "fl_code fl = None \<Longrightarrow> fl\<lparr>fl_code := None\<rparr> = fl"
  "fl_name fl = None \<Longrightarrow> fl\<lparr>fl_name := None\<rparr> = fl" "fl_out fl = None \<Longrightarrow> fl\<lparr>fl_out := None\<rparr> = fl"
  "fl_rendezvous fl = None \<Longrightarrow> fl\<lparr>fl_rendezvous := None\<rparr> = fl" for fl :: cli_flags
  by (cases fl, simp)+

lemma text_flag [flag_steps]:
  "ro_config fl = None \<Longrightarrow> parse_flags (flag_args ''--config'' v @ args) fl = parse_flags args (fl\<lparr>ro_config := v\<rparr>)"
  "ro_relay fl = None \<Longrightarrow> parse_flags (flag_args ''--relay'' v @ args) fl = parse_flags args (fl\<lparr>ro_relay := v\<rparr>)"
  "ro_room_key fl = None \<Longrightarrow> parse_flags (flag_args ''--room-key'' v @ args) fl = parse_flags args (fl\<lparr>ro_room_key := v\<rparr>)"
  "ro_attach_token fl = None \<Longrightarrow>
     parse_flags (flag_args ''--attach-token'' v @ args) fl = parse_flags args (fl\<lparr>ro_attach_token := v\<rparr>)"
  "fl_revoke fl = None \<Longrightarrow> parse_flags (flag_args ''--revoke'' v @ args) fl = parse_flags args (fl\<lparr>fl_revoke := v\<rparr>)"
  "fl_dsh fl = None \<Longrightarrow> parse_flags (flag_args ''--dsh'' v @ args) fl = parse_flags args (fl\<lparr>fl_dsh := v\<rparr>)"
  "fl_code fl = None \<Longrightarrow> parse_flags (flag_args ''--code'' v @ args) fl = parse_flags args (fl\<lparr>fl_code := v\<rparr>)"
  "fl_name fl = None \<Longrightarrow> parse_flags (flag_args ''--name'' v @ args) fl = parse_flags args (fl\<lparr>fl_name := v\<rparr>)"
  "fl_out fl = None \<Longrightarrow> parse_flags (flag_args ''--out'' v @ args) fl = parse_flags args (fl\<lparr>fl_out := v\<rparr>)"
  "fl_rendezvous fl = None \<Longrightarrow>
     parse_flags (flag_args ''--rendezvous'' v @ args) fl = parse_flags args (fl\<lparr>fl_rendezvous := v\<rparr>)"
  unfolding parse_flags_value [OF value_flags(1)] parse_flags_value [OF value_flags(2)] parse_flags_value [OF value_flags(3)]
    parse_flags_value [OF value_flags(4)] parse_flags_value [OF value_flags(6)] parse_flags_value [OF value_flags(8)]
    parse_flags_value [OF value_flags(9)] parse_flags_value [OF value_flags(10)] parse_flags_value [OF value_flags(11)]
    parse_flags_value [OF value_flags(12)]
  by (simp_all add: set_value_def unset split: option.split)

lemma number_flag_args [flag_steps]:
  "fits 16 n \<Longrightarrow> ro_port fl = None \<Longrightarrow>
     parse_flags (flag_args ''--port'' (map_option decimal n) @ args) fl = parse_flags args (fl\<lparr>ro_port := n\<rparr>)"
  "fits 16 n \<Longrightarrow> ro_attach fl = None \<Longrightarrow>
     parse_flags (flag_args ''--attach'' (map_option decimal n) @ args) fl = parse_flags args (fl\<lparr>ro_attach := n\<rparr>)"
  "fits 64 n \<Longrightarrow> fl_wait fl = None \<Longrightarrow>
     parse_flags (flag_args ''--wait'' (map_option decimal n) @ args) fl = parse_flags args (fl\<lparr>fl_wait := n\<rparr>)"
  unfolding parse_flags_value [OF value_flags(13)] parse_flags_value [OF value_flags(7)] parse_flags_value [OF value_flags(5)]
  by (cases n; simp add: set_value_def unset number_flag_def fits_def parse_uint_decimal)+

lemmas flag_steps_last [flag_steps] = text_flag [where args = "[]", simplified]
  number_flag_args [where args = "[]", simplified]

lemma no_flags_simps [flag_steps]:
  "ro_config no_flags = None" "ro_relay no_flags = None" "ro_port no_flags = None" "ro_room_key no_flags = None"
  "ro_attach no_flags = None" "ro_attach_token no_flags = None" "fl_dsh no_flags = None" "fl_revoke no_flags = None"
  "fl_clear no_flags = False" "fl_wait no_flags = None" "fl_code no_flags = None" "fl_name no_flags = None"
  "fl_out no_flags = None" "fl_rendezvous no_flags = None"
  by (simp_all add: no_flags_def)

section \<open>Properties\<close>

text \<open>
  Every command of the daemon has a command line and means what it says: parsing the command line of
  a command gives back that command, with every text taken as it is and every number exact.
\<close>

theorem command_line_round_trip:
  "command_ok c \<Longrightarrow> parse_command (command_line c) = Inr c"
  by (cases c) (simp_all add: command_line_def parse_command_def command_of_def run_options_of_def command_ok_def flag_steps)

theorem command_line_round_trip_witness:
  "parse_command [''run'', ''--relay'', ''wss://r.example'', ''--port'', ''46120'', ''--room-key'', ''--relay''] =
     Inr (RunDaemon \<lparr>ro_config = None, ro_relay = Some ''wss://r.example'', ro_port = Some 46120,
       ro_room_key = Some ''--relay'', ro_attach = None, ro_attach_token = None\<rparr>)"
proof -
  have "decimal 46120 = ''46120''" by (simp add: decimal.simps)
  then show ?thesis
    using command_line_round_trip [of "RunDaemon \<lparr>ro_config = None, ro_relay = Some ''wss://r.example'', ro_port = Some 46120,
       ro_room_key = Some ''--relay'', ro_attach = None, ro_attach_token = None\<rparr>"]
    by (simp add: command_ok_def fits_def command_line_def flag_args_def)
qed

end
