(* ===== verification/Doctor.thy ===== *)
theory Doctor
  imports Operator Slices
begin

text \<open>
  The pre-flight diagnosis, \<open>doctor.rs\<close> of the daemon: five checks, each a level and a message, the worst
  level so far, and the exit code. What the machine answers is a parameter. Shown: the exit code is a
  failure exactly when a check fails, only the port and the program can fail, and the report on the audit
  log counts what the log's own reader returns.
\<close>

datatype level = Pass | Warn | Fail

definition marker :: "level \<Rightarrow> string" where
  "marker l = (case l of Pass \<Rightarrow> ''ok  '' | Warn \<Rightarrow> ''warn'' | Fail \<Rightarrow> ''FAIL'')"

text \<open>Whether the loopback port could be bound, and what \<open>--version\<close> of the program came to.\<close>

datatype bind_result = Bound | InUse | NotBound string
datatype version_result = Answered string | ExitedWith string | CannotStart string

record machine =
  mn_os :: string
  mn_arch :: string
  mn_family :: string
  mn_x86 :: bool
  mn_sse42 :: bool
  mn_avx :: bool
  mn_avx2 :: bool
  mn_aes :: bool
  mn_sha :: bool
  mn_bind :: "nat \<Rightarrow> bind_result"
  mn_version :: "string \<Rightarrow> version_result"

definition DEFAULT_DSH_PORT :: nat where "DEFAULT_DSH_PORT = 3080"

definition check_platform :: "machine \<Rightarrow> level \<times> string" where
  "check_platform M = (Pass, ''platform '' @ mn_os M @ '' '' @ mn_arch M @ '' ('' @ mn_family M @ '')'')"

definition extension_names :: "(string \<times> bool) list \<Rightarrow> bool \<Rightarrow> string" where
  "extension_names features wanted =
     (let found = map fst (filter (\<lambda>f. snd f = wanted) features) in if found = [] then ''none'' else joined_by '', '' found)"

definition cpu_extension_detail :: "machine \<Rightarrow> string" where
  "cpu_extension_detail M =
     (if \<not> mn_x86 M then []
      else let features = [(''sse4.2'', mn_sse42 M), (''avx'', mn_avx M), (''avx2'', mn_avx2 M), (''aes'', mn_aes M), (''sha'', mn_sha M)]
           in ''; extensions present: '' @ extension_names features True @ ''; absent: '' @ extension_names features False)"

definition check_cpu :: "machine \<Rightarrow> level \<times> string" where
  "check_cpu M = (Pass, ''cpu: '' @ mn_arch M @ '', built for its baseline (no AVX2 or AES-NI required)'' @ cpu_extension_detail M)"

definition last_event :: "'v value_lib \<Rightarrow> string list \<Rightarrow> string" where
  "last_event V entries =
     (case (if entries = [] then None else parse_entry V (last entries)) of
        None \<Rightarrow> ''unknown''
      | Some e \<Rightarrow> event_str (en_event e) @ '' ('' @ outcome_str (en_outcome e) @ '')'')"

definition check_audit :: "('sp, 't, 'v) host \<Rightarrow> fs \<Rightarrow> level \<times> string" where
  "check_audit H fs =
     (if \<not> enabled_from (ho_audit_env H)
      then (Warn, ''audit log: off (DSHD_AUDIT = 0); nothing about who connected is being recorded'')
      else case state_dir H fs of
             Inl _ \<Rightarrow> (Warn, ''audit log: cannot locate the state directory'')
           | Inr state \<Rightarrow>
               (let path = audit_path_in state in
                case read_audit (ho_values H) (ho_clock H 0) path fs of
                  Inl e \<Rightarrow> (Warn, ''audit log: cannot read '' @ path @ '' ('' @ ho_error H e @ ''); events may not be recorded'')
                | Inr r \<Rightarrow>
                    (let total = length (ar_entries r) + length (ar_unreadable r) in
                     if total = 0 then (Pass, ''audit log: empty ('' @ path @ '')'')
                     else (Pass, ''audit log: '' @ decimal total @ '' event(s) at '' @ path @ '', last ''
                             @ last_event (ho_values H) (ar_entries r)
                             @ (if ar_unreadable r = [] then []
                                else '', '' @ decimal (length (ar_unreadable r)) @ '' unreadable line(s)'')))))"

definition loopback :: "nat \<Rightarrow> string" where "loopback port = ''127.0.0.1:'' @ decimal port"

definition check_loopback_available :: "machine \<Rightarrow> nat \<Rightarrow> level \<times> string" where
  "check_loopback_available M port =
     (case mn_bind M port of
        Bound \<Rightarrow> (Pass, ''loopback '' @ loopback port @ '' is free; the daemon can own DSH'' @ [CHR 0x27] @ ''s port'')
      | InUse \<Rightarrow> (Warn, ''loopback '' @ loopback port @ '' is already in use: a DSH instance may already be running ''
          @ ''(the daemon will attach to it in proxy-only mode), or another program holds the port'')
      | NotBound e \<Rightarrow> (Fail, ''cannot bind loopback '' @ loopback port @ '': '' @ e))"

definition check_dsh_binary :: "machine \<Rightarrow> string option \<Rightarrow> level \<times> string" where
  "check_dsh_binary M explicit =
     (let program = (case explicit of None \<Rightarrow> ''dsh'' | Some p \<Rightarrow> p) in
      case mn_version M program of
        Answered out \<Rightarrow> (Pass, ''found '' @ program @ '' ('' @ trim out @ '')'')
      | ExitedWith code \<Rightarrow> (Warn, program @ '' answered --version with exit code '' @ code @ ''; check the installation'')
      | CannotStart e \<Rightarrow> (Fail, ''cannot run '' @ program @ '': '' @ e @ ''; install DSH (npx @deepseek-ai/dsh) or pass --dsh <path>''))"

definition print_check :: "level \<times> string \<Rightarrow> level \<times> string list \<Rightarrow> level \<times> string list" where
  "print_check c s =
     (case (c, s) of
        ((l, message), (worst, printed)) \<Rightarrow>
          (if l = Fail \<or> (worst = Pass \<and> l = Warn) then l else worst, printed @ [''['' @ marker l @ ''] '' @ message]))"

definition doctor_checks :: "('sp, 't, 'v) host \<Rightarrow> machine \<Rightarrow> fs \<Rightarrow> string option \<Rightarrow> nat option \<Rightarrow> (level \<times> string) list" where
  "doctor_checks H M fs dsh port =
     [check_platform M, check_cpu M, check_audit H fs,
      check_loopback_available M (case port of None \<Rightarrow> DEFAULT_DSH_PORT | Some n \<Rightarrow> n), check_dsh_binary M dsh]"

definition doctor :: "('sp, 't, 'v) host \<Rightarrow> machine \<Rightarrow> fs \<Rightarrow> string option \<Rightarrow> nat option \<Rightarrow> exit_code \<times> string list" where
  "doctor H M fs dsh port =
     (case fold print_check (doctor_checks H M fs dsh port) (Pass, []) of
        (worst, printed) \<Rightarrow>
          (case worst of
             Pass \<Rightarrow> (ExitSuccess, printed @ [[], ''All checks passed. `drdshd run` should be able to start DSH.''])
           | Warn \<Rightarrow> (ExitSuccess, printed @ [[], ''Checks passed with warnings. Review them before pairing a device.''])
           | Fail \<Rightarrow> (ExitFailure, printed @ [[], ''At least one check failed; fix it before running the daemon.''])))"

section \<open>What the exit code means\<close>

lemma fold_checks:
  "fold print_check cs (worst, printed)
    = (if Fail \<in> fst ` set cs \<or> worst = Fail then Fail else if Warn \<in> fst ` set cs \<or> worst = Warn then Warn else Pass,
       printed @ map (\<lambda>(l, m). ''['' @ marker l @ ''] '' @ m) cs)"
proof (induction cs arbitrary: worst printed)
  case Nil
  then show ?case by (cases worst) simp_all
next
  case (Cons c cs)
  obtain l m where c: "c = (l, m)" by (cases c)
  have "print_check c (worst, printed)
      = (if l = Fail \<or> (worst = Pass \<and> l = Warn) then l else worst, printed @ [''['' @ marker l @ ''] '' @ m])"
    by (simp add: c print_check_def)
  then show ?case by (simp only: fold_Cons comp_apply Cons.IH) (cases l; cases worst; auto simp: c)
qed

lemma never_failing: "fst (check_platform M) = Pass" "fst (check_cpu M) = Pass" "fst (check_audit H fs) \<noteq> Fail"
  by (simp_all add: check_platform_def check_cpu_def check_audit_def Let_def split: sum.split)

text \<open>
  The doctor's exit code is its diagnosis. It fails exactly when the loopback port cannot be bound for
  another reason than being in use or the program cannot be run; every check is printed with its level,
  in order, whatever the others find; the audit log never makes it fail.
\<close>

theorem doctor_fails_exactly:
  "(fst (doctor H M fs dsh port) = ExitFailure)
     = ((\<exists>e. mn_bind M (case port of None \<Rightarrow> DEFAULT_DSH_PORT | Some n \<Rightarrow> n) = NotBound e)
        \<or> (\<exists>e. mn_version M (case dsh of None \<Rightarrow> ''dsh'' | Some p \<Rightarrow> p) = CannotStart e))
   \<and> take 5 (snd (doctor H M fs dsh port))
     = map (\<lambda>(l, m). ''['' @ marker l @ ''] '' @ m) (doctor_checks H M fs dsh port)"
proof -
  let ?cs = "doctor_checks H M fs dsh port" and ?port = "case port of None \<Rightarrow> DEFAULT_DSH_PORT | Some n \<Rightarrow> n"
  have "Fail \<in> fst ` set ?cs \<longleftrightarrow> fst (check_loopback_available M ?port) = Fail \<or> fst (check_dsh_binary M dsh) = Fail"
    using never_failing(1,2) [of M] never_failing(3) [of H fs] by (auto simp: doctor_checks_def image_iff)
  moreover have "fst (check_loopback_available M ?port) = Fail \<longleftrightarrow> (\<exists>e. mn_bind M ?port = NotBound e)"
    by (auto simp: check_loopback_available_def split: bind_result.split)
  moreover have "fst (check_dsh_binary M dsh) = Fail \<longleftrightarrow> (\<exists>e. mn_version M (case dsh of None \<Rightarrow> ''dsh'' | Some p \<Rightarrow> p) = CannotStart e)"
    by (auto simp: check_dsh_binary_def Let_def split: version_result.split)
  moreover have "length ?cs = 5" by (simp add: doctor_checks_def)
  ultimately show ?thesis by (simp add: doctor_def fold_checks)
qed

end
