(* ===== verification/Path_Text.thy ===== *)
theory Path_Text
  imports Slices Fs
begin

text \<open>
  Paths as text on Unix, as \<open>std::path\<close> reads them: their components (empty ones and inner dots vanish, so
  does a trailing slash), and the lexical normal form that the management commands compute. Shown: the
  normal form has names only, keeps what the path means, and is its own normal form.
\<close>

datatype path_part = RootDir | CurDir | ParentDir | Normal string

definition is_absolute :: "string \<Rightarrow> bool" where
  "is_absolute p \<longleftrightarrow> p \<noteq> [] \<and> hd p = CHR ''/''"

definition part_of :: "string \<Rightarrow> path_part" where
  "part_of s = (if s = ''..'' then ParentDir else Normal s)"

definition path_components :: "string \<Rightarrow> path_part list" where
  "path_components p =
     (let parts = filter (\<lambda>s. s \<noteq> []) (split_on CHR ''/'' p) in
      (if is_absolute p then [RootDir] else if parts \<noteq> [] \<and> hd parts = ''.'' then [CurDir] else [])
      @ map part_of (filter (\<lambda>s. s \<noteq> ''.'') parts))"

section \<open>The lexical normal form\<close>

text \<open>\<open>result.pop()\<close> and \<open>result.push\<close> on an absolute path, which is kept as the list of its names.\<close>

definition push_part :: "string list \<Rightarrow> path_part \<Rightarrow> string list" where
  "push_part names c =
     (case c of RootDir \<Rightarrow> [] | CurDir \<Rightarrow> names | ParentDir \<Rightarrow> butlast names | Normal n \<Rightarrow> names @ [n])"

definition show_names :: "string list \<Rightarrow> string" where
  "show_names names = CHR ''/'' # joined_by ''/'' names"

definition normal_names :: "string \<Rightarrow> string \<Rightarrow> string list" where
  "normal_names cwd p = foldl push_part [] (path_components (if is_absolute p then p else path_join cwd p))"

definition absolute :: "string \<Rightarrow> string \<Rightarrow> string" where
  "absolute cwd p = show_names (normal_names cwd p)"

text \<open>A name: not empty, no slash, neither dot.\<close>

definition is_name :: "string \<Rightarrow> bool" where
  "is_name n \<longleftrightarrow> n \<noteq> [] \<and> CHR ''/'' \<notin> set n \<and> n \<noteq> ''.'' \<and> n \<noteq> ''..''"

lemma split_on_join:
  "list_all (\<lambda>n. CHR ''/'' \<notin> set n) names \<Longrightarrow> names \<noteq> [] \<Longrightarrow> split_on CHR ''/'' (joined_by ''/'' names) = names"
proof (induction names)
  case (Cons x names)
  have s: "split_on CHR ''/'' (x @ CHR ''/'' # t) = x # split_on CHR ''/'' t" if "CHR ''/'' \<notin> set x" for x t
    using that by (induction x) auto
  have a: "split_on CHR ''/'' x = [x]" if "CHR ''/'' \<notin> set x" for x
    using that by (induction x) auto
  show ?case
  proof (cases names)
    case Nil
    then show ?thesis using Cons a by simp
  next
    case (Cons y ys)
    then show ?thesis using Cons.IH Cons.prems s by simp
  qed
qed simp

lemma components_show:
  assumes "list_all is_name names"
  shows "path_components (show_names names) = RootDir # map Normal names"
proof (cases "names = []")
  case True
  then show ?thesis by (simp add: path_components_def show_names_def is_absolute_def)
next
  case False
  have "list_all (\<lambda>n. CHR ''/'' \<notin> set n) names" using assms by (auto simp: is_name_def list_all_iff)
  then have "split_on CHR ''/'' (show_names names) = [] # names"
    using split_on_join False by (simp add: show_names_def)
  moreover have "filter (\<lambda>s. s \<noteq> []) names = names" "filter (\<lambda>s. s \<noteq> ''.'') names = names" "map part_of names = map Normal names"
    using assms by (auto simp: is_name_def list_all_iff filter_id_conv part_of_def)
  ultimately show ?thesis by (simp add: path_components_def is_absolute_def show_names_def [of names])
qed

lemma push_part_names:
  "list_all is_name names \<Longrightarrow> (\<And>n. c = Normal n \<Longrightarrow> is_name n) \<Longrightarrow> list_all is_name (push_part names c)"
  by (cases c) (auto simp: push_part_def list_all_iff dest: in_set_butlastD)

lemma split_on_free: "p \<in> set (split_on c s) \<Longrightarrow> c \<notin> set p"
  by (induction s arbitrary: p) (fastforce split: list.splits if_splits)+

lemma components_named: "Normal n \<in> set (path_components p) \<Longrightarrow> is_name n"
  by (auto simp: path_components_def part_of_def is_name_def Let_def dest: split_on_free split: if_splits)

lemma foldl_push_names:
  "list_all is_name names \<Longrightarrow> (\<And>n. Normal n \<in> set cs \<Longrightarrow> is_name n) \<Longrightarrow> list_all is_name (foldl push_part names cs)"
proof (induction cs arbitrary: names)
  case (Cons c cs)
  then show ?case using push_part_names [of names c] by simp
qed simp

lemma normal_names_named: "list_all is_name (normal_names cwd p)"
  unfolding normal_names_def by (rule foldl_push_names) (simp, blast intro: components_named)

lemma foldl_push_normal: "foldl push_part names (map Normal ns) = names @ ns"
  by (induction ns arbitrary: names) (simp_all add: push_part_def)

lemma absolute_absolute [simp]: "is_absolute (absolute cwd p)"
  by (simp add: absolute_def show_names_def is_absolute_def)

lemma normal_names_absolute [simp]: "normal_names cwd' (absolute cwd p) = normal_names cwd p"
proof -
  have "path_components (absolute cwd p) = RootDir # map Normal (normal_names cwd p)"
    unfolding absolute_def by (rule components_show [OF normal_names_named])
  then show ?thesis unfolding normal_names_def [of cwd'] by (simp add: push_part_def foldl_push_normal)
qed

text \<open>The normal form is its own normal form, in any working directory.\<close>

lemma absolute_idem [simp]: "absolute cwd' (absolute cwd p) = absolute cwd p"
  by (simp add: absolute_def [of cwd'] absolute_def [of cwd p, symmetric])

section \<open>Joining\<close>

definition is_normal :: "path_part \<Rightarrow> bool" where
  "is_normal c = (case c of Normal _ \<Rightarrow> True | _ \<Rightarrow> False)"

lemma split_on_append: "split_on c (x @ c # t) = split_on c x @ split_on c t"
proof (induction x)
  case (Cons a x)
  then show ?case by (cases "split_on c x") auto
qed simp

lemma split_on_parts_append:
  "filter (\<lambda>s. s \<noteq> []) (split_on c (x @ c # t)) = filter (\<lambda>s. s \<noteq> []) (split_on c x) @ filter (\<lambda>s. s \<noteq> []) (split_on c t)"
  by (simp add: split_on_append)

lemma relative_parts: "d \<noteq> [] \<Longrightarrow> \<not> is_absolute d \<Longrightarrow> hd (filter (\<lambda>s. s \<noteq> []) (split_on CHR ''/'' d)) = hd (split_on CHR ''/'' d)
    \<and> hd (split_on CHR ''/'' d) \<noteq> [] \<and> filter (\<lambda>s. s \<noteq> []) (split_on CHR ''/'' d) \<noteq> []"
  by (cases d) (auto simp: is_absolute_def split: list.split)

text \<open>Joining a path of names appends its components: nothing of the directory is lost.\<close>

lemma path_components_slash:
  assumes "d \<noteq> []" and "list_all is_normal (path_components r)"
  shows "path_components (d @ CHR ''/'' # r) = path_components d @ path_components r"
proof -
  have r: "path_components r = map part_of (filter (\<lambda>s. s \<noteq> ''.'') (filter (\<lambda>s. s \<noteq> []) (split_on CHR ''/'' r)))"
    using assms(2) by (auto simp: path_components_def is_normal_def Let_def split: if_splits)
  have a: "is_absolute (d @ CHR ''/'' # r) = is_absolute d" using assms(1) by (cases d) (simp_all add: is_absolute_def)
  show ?thesis
  proof (cases "is_absolute d")
    case True
    then show ?thesis by (simp add: path_components_def [of "d @ _"] path_components_def [of d] a r split_on_parts_append Let_def)
  next
    case False
    then show ?thesis using relative_parts [OF assms(1)]
      by (simp add: path_components_def [of "d @ _"] path_components_def [of d] a r split_on_parts_append Let_def)
  qed
qed

lemma path_components_trailing: "d \<noteq> [] \<Longrightarrow> path_components (d @ ''/'') = path_components d"
  using path_components_slash [of d "[]"] by (simp add: path_components_def [of "[]"] is_absolute_def)

lemma path_components_join:
  assumes "list_all is_normal (path_components r)"
  shows "path_components (path_join d r) = path_components d @ path_components r"
proof -
  have nabs: "\<not> is_absolute r" using assms by (auto simp: path_components_def is_normal_def Let_def split: if_splits)
  consider "d = []" | d' where "d = d' @ [CHR ''/'']" "d' \<noteq> []" | "d = ''/''" | "d \<noteq> []" "last d \<noteq> CHR ''/''"
    by (metis append_Nil append_butlast_last_id)
  then show ?thesis
  proof cases
    case 1
    then show ?thesis using nabs by (auto simp: path_join_def is_absolute_def path_components_def [of "[]"])
  next
    case 2
    then have "path_join d r = d' @ CHR ''/'' # r" using nabs by (auto simp: path_join_def is_absolute_def)
    then show ?thesis using path_components_slash [OF 2(2) assms] path_components_trailing [OF 2(2)] 2(1) by simp
  next
    case 3
    have "path_join d r = CHR ''/'' # r" using 3 nabs by (auto simp: path_join_def is_absolute_def)
    moreover have "path_components r = map part_of (filter (\<lambda>s. s \<noteq> ''.'') (filter (\<lambda>s. s \<noteq> []) (split_on CHR ''/'' r)))"
      using assms by (auto simp: path_components_def is_normal_def Let_def split: if_splits)
    ultimately show ?thesis using 3 by (simp add: path_components_def [of "CHR ''/'' # r"] path_components_def [of "''/''"] is_absolute_def Let_def)
  next
    case 4
    then have "path_join d r = d @ CHR ''/'' # r" using nabs by (auto simp: path_join_def is_absolute_def)
    then show ?thesis using path_components_slash [OF 4(1) assms] by simp
  qed
qed

lemma normal_components: "list_all is_normal cs \<Longrightarrow> \<exists>ns. cs = map Normal ns"
proof (induction cs)
  case (Cons c cs)
  then obtain ns where "cs = map Normal ns" by auto
  moreover obtain n where "c = Normal n" using Cons.prems by (cases c) (auto simp: is_normal_def)
  ultimately have "c # cs = map Normal (n # ns)" by simp
  then show ?case by (rule exI)
qed simp

end
