(* ===== verification/Relay_Config.thy ===== *)
theory Relay_Config
  imports Slices Retry
begin

text \<open>
  The relay's settings, \<open>config.rs\<close> of the relay, with socket addresses as text (\<open>std::net\<close>). Shown: an
  address that is printed is parsed back, and settings that are read are within their bounds.
\<close>

section \<open>Socket addresses\<close>

datatype socket_addr = SockV4 ip_addr nat | SockV6 ip_addr nat nat

definition sock_ip :: "socket_addr \<Rightarrow> ip_addr" where
  "sock_ip a = (case a of SockV4 ip _ \<Rightarrow> ip | SockV6 ip _ _ \<Rightarrow> ip)"

definition sock_port :: "socket_addr \<Rightarrow> nat" where
  "sock_port a = (case a of SockV4 _ port \<Rightarrow> port | SockV6 _ _ port \<Rightarrow> port)"

text \<open>Digits only, as many as there are, within the width.\<close>

definition parse_digits :: "nat \<Rightarrow> string \<Rightarrow> nat option" where
  "parse_digits bits s =
     (if s = [] then None
      else case digits_value 0 s of Some n \<Rightarrow> if n < 2 ^ bits then Some n else None | None \<Rightarrow> None)"

definition parse_sock_v4 :: "string \<Rightarrow> socket_addr option" where
  "parse_sock_v4 s =
     (case split_once '':'' s of
        None \<Rightarrow> None
      | Some (host, port) \<Rightarrow>
          (case (parse_v4 host, parse_digits 16 port) of
             (Some ip, Some n) \<Rightarrow> Some (SockV4 ip n)
           | _ \<Rightarrow> None))"

definition parse_scoped :: "string \<Rightarrow> (ip_addr \<times> nat) option" where
  "parse_scoped s =
     (case split_once ''%'' s of
        None \<Rightarrow> map_option (\<lambda>ip. (ip, 0)) (parse_v6 s)
      | Some (host, scope) \<Rightarrow>
          (case (parse_v6 host, parse_digits 32 scope) of (Some ip, Some n) \<Rightarrow> Some (ip, n) | _ \<Rightarrow> None))"

definition parse_sock_v6 :: "string \<Rightarrow> socket_addr option" where
  "parse_sock_v6 s =
     (case strip_prefix ''['' s of
        None \<Rightarrow> None
      | Some rest \<Rightarrow>
          (case split_once '']:'' rest of
             None \<Rightarrow> None
           | Some (inner, port) \<Rightarrow>
               (case (parse_scoped inner, parse_digits 16 port) of
                  (Some (ip, scope), Some n) \<Rightarrow> Some (SockV6 ip scope n)
                | _ \<Rightarrow> None)))"

definition parse_socket_addr :: "string \<Rightarrow> socket_addr option" where
  "parse_socket_addr s = (case parse_sock_v4 s of Some a \<Rightarrow> Some a | None \<Rightarrow> parse_sock_v6 s)"

definition show_socket_addr :: "socket_addr \<Rightarrow> string" where
  "show_socket_addr a =
     (case a of
        SockV4 ip port \<Rightarrow> show_ip ip @ '':'' @ decimal port
      | SockV6 ip scope port \<Rightarrow>
          ''['' @ show_ip ip @ (if scope = 0 then [] else ''%'' @ decimal scope) @ '']:'' @ decimal port)"

lemma parse_digits_bound: "parse_digits bits s = Some n \<Longrightarrow> n < 2 ^ bits"
  by (auto simp: parse_digits_def split: if_splits option.splits)

lemma parse_digits_decimal: "n < 2 ^ bits \<Longrightarrow> parse_digits bits (decimal n) = Some n"
  by (simp add: parse_digits_def digits_value_decimal)

lemma parse_socket_port: "parse_socket_addr s = Some a \<Longrightarrow> sock_port a < 2 ^ 16"
  by (auto simp: parse_socket_addr_def parse_sock_v4_def parse_sock_v6_def sock_port_def
      split: option.splits prod.splits dest: parse_digits_bound)

section \<open>Settings\<close>

record relay_config =
  rc_bind :: socket_addr
  rc_max_rooms :: nat
  rc_client_dir :: "string option"
  rc_keepalive :: "nat option"

definition relay_config_default :: relay_config where
  "relay_config_default =
     \<lparr>rc_bind = SockV4 (V4 127 0 0 1) 8787, rc_max_rooms = 1024, rc_client_dir = None, rc_keepalive = Some (seconds 30)\<rparr>"

definition bind_notice :: "relay_config \<Rightarrow> string option" where
  "bind_notice c =
     (if is_loopback_addr (sock_ip (rc_bind c)) then None
      else Some (''listening on '' @ show_socket_addr (rc_bind c)
        @ '', which is not loopback: this relay is reachable from the network around it. ''
        @ ''The traffic is end-to-end encrypted and the relay holds no keys, but the client bundle and the room ids ''
        @ ''cross that network, and so does the fact that you are running this at all. Put TLS in front of it ''
        @ ''(a reverse proxy or a private network) and make sure that proxy's read timeout is longer than the tunnel's ''
        @ ''idle window '' @ [CHR 0xE2, CHR 0x80, CHR 0x94]
        @ '' the daemon warns if it sees the connection being closed on a schedule.''))"

datatype relay_config_error =
    NotASocketAddress string
  | KeepaliveNotANumber string
  | RoomsNotANumber string
  | NoRooms

text \<open>The variables that are set and are text; \<open>usize\<close> has 64 bits.\<close>

definition keepalive_from :: "string option \<Rightarrow> relay_config \<Rightarrow> relay_config_error + relay_config" where
  "keepalive_from raw c =
     (case raw of
        None \<Rightarrow> Inr c
      | Some raw \<Rightarrow>
          (case parse_uint 64 raw of
             None \<Rightarrow> Inl (KeepaliveNotANumber raw)
           | Some n \<Rightarrow> Inr (c\<lparr>rc_keepalive := if 0 < n then Some (seconds n) else None\<rparr>)))"

definition rooms_from :: "string option \<Rightarrow> relay_config \<Rightarrow> relay_config_error + relay_config" where
  "rooms_from raw c =
     (case raw of
        None \<Rightarrow> Inr c
      | Some raw \<Rightarrow>
          (case parse_uint 64 raw of
             None \<Rightarrow> Inl (RoomsNotANumber raw)
           | Some n \<Rightarrow> if n = 0 then Inl NoRooms else Inr (c\<lparr>rc_max_rooms := n\<rparr>)))"

definition from_env :: "(string \<Rightarrow> string option) \<Rightarrow> relay_config_error + relay_config" where
  "from_env var =
     and_then (case var ''DSH_RELAY_BIND'' of
                 None \<Rightarrow> Inr relay_config_default
               | Some raw \<Rightarrow>
                   (case parse_socket_addr raw of
                      None \<Rightarrow> Inl (NotASocketAddress raw)
                    | Some a \<Rightarrow> Inr (relay_config_default\<lparr>rc_bind := a\<rparr>))) (\<lambda>c.
     and_then (keepalive_from (var ''DSH_RELAY_KEEPALIVE_SECS'')
         (case var ''DSH_RELAY_CLIENT_DIR'' of None \<Rightarrow> c | Some d \<Rightarrow> c\<lparr>rc_client_dir := Some d\<rparr>)) (\<lambda>c.
     rooms_from (var ''DSH_RELAY_MAX_ROOMS'') c))"

lemma socket_round_trip:
  assumes "a < 256" and "b < 256" and "c < 256" and "d < 256" and "port < 65536"
  shows "parse_socket_addr (show_socket_addr (SockV4 (V4 a b c d) port)) = Some (SockV4 (V4 a b c d) port)"
proof -
  have h: "show_ip (V4 a b c d) = joined_by ''.'' (map decimal [a, b, c, d])" by (simp add: show_ip_def)
  have no: "CHR '':'' \<notin> set (show_ip (V4 a b c d))" unfolding h by (simp add: decimal_lacks)
  have parts: "split_on CHR ''.'' (show_ip (V4 a b c d)) = map decimal [a, b, c, d]"
    unfolding h list.map by (rule split_on_dotted) (simp_all add: decimal_lacks)
  have "parse_v4 (show_ip (V4 a b c d)) = Some (V4 a b c d)"
    using assms by (simp add: parse_v4_def parts parse_octet_decimal)
  moreover have "split_once '':'' (show_ip (V4 a b c d) @ '':'' @ decimal port) = Some (show_ip (V4 a b c d), decimal port)"
    using split_once_char [OF no, of "[]" "decimal port"] by simp
  ultimately show ?thesis
    using assms(5) by (simp add: parse_socket_addr_def parse_sock_v4_def show_socket_addr_def parse_digits_decimal)
qed

text \<open>
  Settings that are read are usable: at least one room, at most what 64 bits hold, a port of 16 bits, and no
  keepalive of zero. The default says nothing about its address.
\<close>

lemma from_env_bounds:
  assumes "from_env var = Inr c"
  shows "0 < rc_max_rooms c \<and> rc_max_rooms c < 2 ^ 64 \<and> sock_port (rc_bind c) < 2 ^ 16 \<and> rc_keepalive c \<noteq> Some 0"
proof -
  obtain c0 c1 c2 where c: "(case var ''DSH_RELAY_BIND'' of None \<Rightarrow> Inr relay_config_default
        | Some raw \<Rightarrow> (case parse_socket_addr raw of None \<Rightarrow> Inl (NotASocketAddress raw)
            | Some a \<Rightarrow> Inr (relay_config_default\<lparr>rc_bind := a\<rparr>))) = Inr c0"
      "c1 = (case var ''DSH_RELAY_CLIENT_DIR'' of None \<Rightarrow> c0 | Some d \<Rightarrow> c0\<lparr>rc_client_dir := Some d\<rparr>)"
      "keepalive_from (var ''DSH_RELAY_KEEPALIVE_SECS'') c1 = Inr c2" "rooms_from (var ''DSH_RELAY_MAX_ROOMS'') c2 = Inr c"
    using assms unfolding from_env_def and_then_Inr_iff by blast
  have "sock_port (rc_bind c0) < 2 ^ 16 \<and> rc_max_rooms c0 = 1024 \<and> rc_keepalive c0 = Some (seconds 30)"
    using c(1) by (auto simp: relay_config_default_def split: option.splits dest: parse_socket_port)
      (simp add: sock_port_def)
  then have "sock_port (rc_bind c1) < 2 ^ 16 \<and> rc_max_rooms c1 = 1024 \<and> rc_keepalive c1 = Some (seconds 30)"
    unfolding c(2) by (auto split: option.split)
  then have "sock_port (rc_bind c2) < 2 ^ 16 \<and> rc_max_rooms c2 = 1024 \<and> rc_keepalive c2 \<noteq> Some 0"
    using c(3) by (auto simp: keepalive_from_def seconds_def split: option.splits if_splits)
  then show ?thesis using c(4)
    by (auto simp: rooms_from_def split: option.splits if_splits dest: parse_uint_less)
qed

lemma default_is_quiet: "bind_notice relay_config_default = None"
  by (simp add: bind_notice_def relay_config_default_def sock_ip_def is_loopback_addr_def)

end
