(* ===== verification/Management.thy ===== *)
theory Management
  imports Path_Text Relay_Config Store "HOL-Library.List_Lexorder" "HOL-Library.Char_ord"
begin

text \<open>
  The settings of an installation, \<open>management.rs\<close> of the command-line tool: the options of a management
  command, the paths of an installation, the saved configuration with its checks, and what a service is
  run with. Shown: options that are parsed belong to their command and hold usable values, a
  configuration that passes the checks is complete and belongs to one component, and an update without
  options keeps every setting.
\<close>

section \<open>Options\<close>

record mg_args =
  ma_action :: string
  ma_asset :: "string option"
  ma_help :: bool
  ma_values :: "string \<Rightarrow> string option"
  ma_flags :: "string set"

datatype args_error =
    NoAction
  | UnexpectedArgument
  | DoesNotConfigure string string
  | RepeatedOption string
  | OptionNeedsValue string
  | BadOptionValue string

definition RELAY_VALUES :: "string list" where "RELAY_VALUES = [''bind'', ''client-dir'']"
definition DAEMON_VALUES :: "string list" where
  "DAEMON_VALUES = [''relay'', ''dsh'', ''dsh-home'', ''workdir'', ''port'', ''state-dir'']"

definition takes_value :: "string \<Rightarrow> string \<Rightarrow> bool" where
  "takes_value action key \<longleftrightarrow>
     key = ''prefix''
     \<or> (action = ''install'' \<and> (key \<in> set [''source'', ''build-profile''] \<or> key \<in> set RELAY_VALUES \<or> key \<in> set DAEMON_VALUES))
     \<or> (action = ''update'' \<and> key = ''version'')"

definition is_flag :: "string \<Rightarrow> string \<Rightarrow> bool" where
  "is_flag action key \<longleftrightarrow>
     (action = ''install'' \<and> key \<in> set [''skip-build'', ''start'', ''enable'', ''with-plugin''])
     \<or> (action = ''logs'' \<and> key = ''follow'')"

text \<open>Neither NUL nor a line break.\<close>

definition one_line :: "string \<Rightarrow> bool" where
  "one_line s \<longleftrightarrow> CHR 0x00 \<notin> set s \<and> CHR 0x0D \<notin> set s \<and> CHR 0x0A \<notin> set s"

definition usable_value :: "string \<Rightarrow> bool" where
  "usable_value v \<longleftrightarrow> v \<noteq> [] \<and> \<not> starts_with ''--'' v \<and> one_line v"

fun parse_options :: "string list \<Rightarrow> mg_args \<Rightarrow> args_error + mg_args" where
  "parse_options [] a = Inr a"
| "parse_options (arg # argv) a =
     (if arg = ''-h'' \<or> arg = ''--help'' then parse_options argv (a\<lparr>ma_help := True\<rparr>)
      else if (arg = ''client'' \<or> arg = ''plugin'') \<and> ma_asset a = None \<and> ma_action a \<in> set [''install'', ''uninstall'']
      then parse_options argv (a\<lparr>ma_asset := Some arg\<rparr>)
      else case strip_prefix ''--'' arg of
             None \<Rightarrow> Inl UnexpectedArgument
           | Some key \<Rightarrow>
               if \<not> takes_value (ma_action a) key \<and> \<not> is_flag (ma_action a) key then Inl (DoesNotConfigure arg (ma_action a))
               else if ma_values a key \<noteq> None \<or> key \<in> ma_flags a then Inl (RepeatedOption arg)
               else if is_flag (ma_action a) key then parse_options argv (a\<lparr>ma_flags := insert key (ma_flags a)\<rparr>)
               else (case argv of
                       [] \<Rightarrow> Inl (OptionNeedsValue arg)
                     | v # rest \<Rightarrow>
                         if \<not> usable_value v then Inl (BadOptionValue arg)
                         else parse_options rest (a\<lparr>ma_values := (ma_values a)(key \<mapsto> v)\<rparr>)))"

definition parse_args :: "string list \<Rightarrow> args_error + mg_args" where
  "parse_args argv =
     (case argv of
        [] \<Rightarrow> Inl NoAction
      | action # rest \<Rightarrow>
          parse_options rest \<lparr>ma_action = action, ma_asset = None, ma_help = False, ma_values = (\<lambda>_. None), ma_flags = {}\<rparr>)"

text \<open>The options of the other component.\<close>

definition foreign_values :: "string \<Rightarrow> string list" where
  "foreign_values scope = (if scope = ''relay'' then DAEMON_VALUES else RELAY_VALUES)"

definition for_scope :: "string \<Rightarrow> mg_args \<Rightarrow> mg_args" where
  "for_scope scope a =
     a\<lparr>ma_values := (\<lambda>key. if key \<in> set (foreign_values scope) then None else ma_values a key),
       ma_flags := (if scope = ''relay'' then ma_flags a - {''with-plugin''} else ma_flags a)\<rparr>"

datatype scope_error = OptionOfOther string | PluginIsDaemons | AssetOfOther string

definition validate_scope :: "string \<Rightarrow> mg_args \<Rightarrow> scope_error + unit" where
  "validate_scope scope a =
     (case filter (\<lambda>key. ma_values a key \<noteq> None) (foreign_values scope) of
        key # _ \<Rightarrow> Inl (OptionOfOther key)
      | [] \<Rightarrow>
          if scope \<noteq> ''daemon'' \<and> ''with-plugin'' \<in> ma_flags a then Inl PluginIsDaemons
          else case ma_asset a of
                 None \<Rightarrow> Inr ()
               | Some asset \<Rightarrow>
                   if scope = ''relay'' \<and> asset = ''client'' \<and> ma_action a = ''install''
                     \<or> scope = ''daemon'' \<and> asset = ''plugin''
                   then Inr () else Inl (AssetOfOther asset))"

section \<open>Paths and configuration\<close>

record install_paths =
  pt_prefix :: string
  pt_scope :: string
  pt_root :: string
  pt_bin :: string
  pt_command :: string
  pt_config :: string

definition paths_new :: "string \<Rightarrow> string \<Rightarrow> string \<Rightarrow> install_paths" where
  "paths_new cwd given scope =
     (let base = absolute cwd given; root = path_join (path_join base ''lib/dr.dsh'') scope in
      \<lparr>pt_prefix = base, pt_scope = scope, pt_root = root, pt_bin = path_join root ''bin'',
       pt_command = path_join base (''bin/drdsh-'' @ scope), pt_config = path_join base (''etc/dr.dsh/'' @ scope @ ''.json'')\<rparr>)"

record mg_config =
  mc_version :: nat
  mc_prefix :: string
  mc_scope :: string
  mc_source :: string
  mc_components :: "string list"
  mc_bind :: "string option"
  mc_client_dir :: "string option"
  mc_build_profile :: "string option"
  mc_relay :: "string option"
  mc_port :: "u16 option"
  mc_dsh :: "string option"
  mc_dsh_home :: "string option"
  mc_workdir :: "string option"
  mc_state :: "string option"
  mc_path :: "string option"

datatype config_error =
    OtherInstallation
  | InvalidPath
  | ForeignComponent
  | InvalidProfile
  | BindMissing
  | BindNotAnAddress
  | BindPortZero
  | HasDaemonFields
  | HasRelayFields
  | RelayMissing
  | RelayNotWebSocket
  | RelayNotAnOrigin
  | DaemonIncomplete
  | PathUnusable

abbreviation ensure :: "bool \<Rightarrow> 'e \<Rightarrow> 'e + unit" where
  "ensure b e \<equiv> (if b then Inr () else Inl e)"

definition config_paths :: "mg_config \<Rightarrow> string list" where
  "config_paths c =
     [mc_prefix c, mc_source c]
     @ concat (map (\<lambda>v. case v of None \<Rightarrow> [] | Some p \<Rightarrow> [p])
         [mc_client_dir c, mc_dsh c, mc_dsh_home c, mc_workdir c, mc_state c])"

definition partner :: "string \<Rightarrow> string" where
  "partner scope = (if scope = ''relay'' then ''client'' else ''plugin'')"

definition relay_authority :: "string \<Rightarrow> string option" where
  "relay_authority relay =
     map_option (trim_end_matches (\<lambda>c. c = CHR ''/''))
       (case strip_prefix ''ws://'' relay of Some rest \<Rightarrow> Some rest | None \<Rightarrow> strip_prefix ''wss://'' relay)"

definition is_origin :: "string \<Rightarrow> bool" where
  "is_origin authority \<longleftrightarrow>
     authority \<noteq> [] \<and> set authority \<inter> {CHR ''/'', CHR ''@'', CHR ''?'', CHR ''#''} = {}
     \<and> \<not> list_ex is_whitespace (chars authority)"

definition validate_relay :: "mg_config \<Rightarrow> config_error + unit" where
  "validate_relay c =
     (case mc_bind c of
        None \<Rightarrow> Inl BindMissing
      | Some bind \<Rightarrow>
          (case parse_socket_addr bind of
             None \<Rightarrow> Inl BindNotAnAddress
           | Some addr \<Rightarrow>
               and_then (ensure (0 < sock_port addr) BindPortZero) (\<lambda>_.
               ensure (mc_relay c = None \<and> mc_port c = None \<and> mc_dsh c = None \<and> mc_dsh_home c = None
                 \<and> mc_workdir c = None \<and> mc_state c = None \<and> mc_path c = None) HasDaemonFields)))"

definition validate_daemon :: "mg_config \<Rightarrow> config_error + unit" where
  "validate_daemon c =
     and_then (ensure (mc_bind c = None \<and> mc_client_dir c = None) HasRelayFields) (\<lambda>_.
     case mc_relay c of
       None \<Rightarrow> Inl RelayMissing
     | Some relay \<Rightarrow>
         (case relay_authority relay of
            None \<Rightarrow> Inl RelayNotWebSocket
          | Some authority \<Rightarrow>
              and_then (ensure (is_origin authority) RelayNotAnOrigin) (\<lambda>_.
              and_then (ensure ((case mc_port c of Some n \<Rightarrow> 0 < n | None \<Rightarrow> False) \<and> mc_dsh c \<noteq> None \<and> mc_dsh_home c \<noteq> None
                \<and> mc_workdir c \<noteq> None \<and> mc_state c \<noteq> None) DaemonIncomplete) (\<lambda>_.
              ensure (case mc_path c of Some s \<Rightarrow> one_line s | None \<Rightarrow> False) PathUnusable))))"

definition validate_config :: "string \<Rightarrow> mg_config \<Rightarrow> install_paths \<Rightarrow> config_error + unit" where
  "validate_config cwd c p =
     and_then (ensure (mc_version c = 1 \<and> mc_scope c = pt_scope p \<and> absolute cwd (mc_prefix c) = pt_prefix p) OtherInstallation) (\<lambda>_.
     and_then (ensure (list_all (\<lambda>q. is_absolute q \<and> one_line q) (config_paths c)) InvalidPath) (\<lambda>_.
     and_then (ensure (list_all (\<lambda>x. x = mc_scope c \<or> x = partner (mc_scope c)) (mc_components c)) ForeignComponent) (\<lambda>_.
     and_then (ensure (case mc_build_profile c of None \<Rightarrow> True | Some s \<Rightarrow> s = ''release'' \<or> s = ''debug'') InvalidProfile) (\<lambda>_.
     if mc_scope c = ''relay'' then validate_relay c else validate_daemon c))))"

definition config_installed :: "mg_config \<Rightarrow> bool" where
  "config_installed c \<longleftrightarrow> mc_scope c \<in> set (mc_components c)"

text \<open>What a service is run with. Paths that are no text would be written lossily; here they are texts.\<close>

definition put_some :: "string \<Rightarrow> string option \<Rightarrow> (string, string) btree \<Rightarrow> (string, string) btree" where
  "put_some key v env = (case v of None \<Rightarrow> env | Some x \<Rightarrow> bt_put key x env)"

definition environment :: "mg_config \<Rightarrow> install_paths \<Rightarrow> (string, string) btree" where
  "environment c p =
     (let env = bt_put ''RUST_LOG'' ''info'' [] in
      if mc_scope c = ''relay''
      then bt_put ''DSH_RELAY_CLIENT_DIR'' (path_join (pt_root p) ''client'')
             (bt_put ''DSH_RELAY_BIND'' (case mc_bind c of Some b \<Rightarrow> b | None \<Rightarrow> []) env)
      else put_some ''PATH'' (mc_path c) (put_some ''DSH_HOME'' (mc_dsh_home c)
             (put_some ''DSHD_DSH'' (mc_dsh c) (put_some ''DSHD_STATE_DIR'' (mc_state c) env))))"

definition config_cwd :: "mg_config \<Rightarrow> install_paths \<Rightarrow> string" where
  "config_cwd c p = (case mc_workdir c of Some d \<Rightarrow> d | None \<Rightarrow> pt_root p)"

definition daemon_args :: "mg_config \<Rightarrow> string \<Rightarrow> (string \<times> string) list" where
  "daemon_args c action =
     (case mc_relay c of Some relay \<Rightarrow> if action \<in> set [''run'', ''pair''] then [(''--relay'', relay)] else [] | None \<Rightarrow> [])
     @ (case mc_port c of Some n \<Rightarrow> if action \<in> set [''run'', ''doctor''] then [(''--port'', decimal (unat n))] else [] | None \<Rightarrow> [])
     @ (case mc_dsh c of Some dsh \<Rightarrow> if action = ''doctor'' then [(''--dsh'', dsh)] else [] | None \<Rightarrow> [])"

section \<open>Making a configuration\<close>

text \<open>
  What the tool reads of its surroundings: the working directory, the prefix saved by an installed command,
  the variables, and what the file system says of a path.
\<close>

record mg_env =
  me_cwd :: string
  me_installed :: "string option"
  me_home :: "string option"
  me_path_var :: "string option"
  me_path_text :: "string option"
  me_dsh_home :: "string option"
  me_state_dir :: "string option"
  me_is_dir :: "string \<Rightarrow> bool"
  me_is_program :: "string \<Rightarrow> bool"

datatype manage_error =
    NoHome
  | NotAPort string
  | NoExecutable string
  | NoWorkdir
  | UninstallPluginFirst
  | BadConfig config_error

definition or_else :: "'a option \<Rightarrow> 'a \<Rightarrow> 'a" where
  "or_else v d = (case v of Some x \<Rightarrow> x | None \<Rightarrow> d)"

definition first_of :: "'a option \<Rightarrow> 'a option \<Rightarrow> 'a option" where
  "first_of v w = (case v of Some x \<Rightarrow> Some x | None \<Rightarrow> w)"

definition install_prefix :: "mg_env \<Rightarrow> string option \<Rightarrow> manage_error + string" where
  "install_prefix E v =
     (case v of
        Some path \<Rightarrow> Inr (absolute (me_cwd E) path)
      | None \<Rightarrow>
          (case me_installed E of
             Some path \<Rightarrow> Inr path
           | None \<Rightarrow> (case me_home E of None \<Rightarrow> Inl NoHome | Some home \<Rightarrow> Inr (path_join home ''.local''))))"

definition executable_path :: "mg_env \<Rightarrow> string \<Rightarrow> manage_error + string" where
  "executable_path E v =
     (let candidates = (if CHR ''/'' \<in> set v then [absolute (me_cwd E) v]
                        else map (\<lambda>d. path_join d v) (split_on CHR '':'' (or_else (me_path_var E) []))) in
      case find (me_is_program E) candidates of
        None \<Rightarrow> Inl (NoExecutable v)
      | Some path \<Rightarrow> Inr (absolute (me_cwd E) path))"

definition fresh_config :: "install_paths \<Rightarrow> string \<Rightarrow> mg_config" where
  "fresh_config p source =
     \<lparr>mc_version = 1, mc_prefix = pt_prefix p, mc_scope = pt_scope p, mc_source = source, mc_components = [],
      mc_bind = None, mc_client_dir = None, mc_build_profile = None, mc_relay = None, mc_port = None, mc_dsh = None,
      mc_dsh_home = None, mc_workdir = None, mc_state = None, mc_path = None\<rparr>"

definition relay_settings :: "mg_env \<Rightarrow> mg_args \<Rightarrow> mg_config \<Rightarrow> mg_config" where
  "relay_settings E a c =
     c\<lparr>mc_bind := Some (or_else (ma_values a ''bind'') (or_else (mc_bind c) ''127.0.0.1:8787'')),
       mc_client_dir := (case ma_values a ''client-dir'' of Some v \<Rightarrow> Some (absolute (me_cwd E) v) | None \<Rightarrow> mc_client_dir c)\<rparr>"

definition port_setting :: "mg_args \<Rightarrow> mg_config \<Rightarrow> manage_error + u16" where
  "port_setting a c =
     (case ma_values a ''port'' of
        None \<Rightarrow> Inr (or_else (mc_port c) 3080)
      | Some v \<Rightarrow> (case parse_uint 16 v of Some n \<Rightarrow> Inr (of_nat n) | None \<Rightarrow> Inl (NotAPort v)))"

definition dir_setting :: "mg_env \<Rightarrow> string option \<Rightarrow> string option \<Rightarrow> string \<Rightarrow> string" where
  "dir_setting E given kept fallback = absolute (me_cwd E) (or_else (first_of given kept) fallback)"

definition daemon_settings ::
  "mg_env \<Rightarrow> string \<Rightarrow> install_paths \<Rightarrow> mg_args \<Rightarrow> mg_config option \<Rightarrow> mg_config \<Rightarrow> manage_error + mg_config" where
  "daemon_settings E home p a previous c =
     and_then (port_setting a c) (\<lambda>port.
     and_then (executable_path E (or_else (ma_values a ''dsh'') (or_else (mc_dsh c) ''dsh''))) (\<lambda>dsh.
       let relay = or_else (ma_values a ''relay'') (or_else (mc_relay c) ''ws://127.0.0.1:8787'');
           dsh_home = dir_setting E (ma_values a ''dsh-home'') (mc_dsh_home c) (or_else (me_dsh_home E) (path_join home ''.dsh''));
           st_dir = dir_setting E (ma_values a ''state-dir'') (mc_state c)
             (or_else (me_state_dir E) (path_join (pt_prefix p) ''share/dr.dsh/daemon''));
           workdir = dir_setting E (ma_values a ''workdir'') (mc_workdir c) (me_cwd E);
           path = (if ma_values a ''dsh'' \<noteq> None \<or> mc_path c = None
                   then Some (or_else (path_parent dsh) ''/usr/bin'' @ '':'' @ or_else (me_path_text E) ''/usr/bin:/bin'')
                   else mc_path c)
       in if \<not> me_is_dir E workdir then Inl NoWorkdir
          else if (case previous of None \<Rightarrow> False
                   | Some old \<Rightarrow> ''plugin'' \<in> set (mc_components old) \<and> mc_dsh_home old \<noteq> Some dsh_home)
          then Inl UninstallPluginFirst
          else Inr (c\<lparr>mc_relay := Some relay, mc_port := Some port, mc_dsh := Some dsh, mc_dsh_home := Some dsh_home,
                      mc_state := Some st_dir, mc_workdir := Some workdir, mc_path := path\<rparr>)))"

definition source_setting :: "mg_env \<Rightarrow> mg_args \<Rightarrow> mg_config option \<Rightarrow> string" where
  "source_setting E a previous =
     absolute (me_cwd E) (or_else (first_of (ma_values a ''source'') (map_option mc_source previous)) (me_cwd E))"

definition base_config :: "install_paths \<Rightarrow> string \<Rightarrow> mg_args \<Rightarrow> mg_config option \<Rightarrow> mg_config" where
  "base_config p source a previous =
     (let c = or_else previous (fresh_config p source)
      in c\<lparr>mc_source := source,
           mc_build_profile := Some (or_else (ma_values a ''build-profile'') (or_else (mc_build_profile c) ''release''))\<rparr>)"

definition make_config ::
  "mg_env \<Rightarrow> string \<Rightarrow> mg_args \<Rightarrow> mg_config option \<Rightarrow> manage_error + install_paths \<times> mg_config" where
  "make_config E scope a previous =
     and_then (install_prefix E (ma_values a ''prefix'')) (\<lambda>given.
       let p = paths_new (me_cwd E) given scope
       in case me_home E of
            None \<Rightarrow> Inl NoHome
          | Some home \<Rightarrow>
              (let c = base_config p (source_setting E a previous) a previous
               in and_then (if scope = ''relay'' then Inr (relay_settings E a c) else daemon_settings E home p a previous c) (\<lambda>c.
                  and_then (map_err BadConfig (validate_config (me_cwd E) c p)) (\<lambda>_. Inr (p, c)))))"

section \<open>What a parsed command holds\<close>

text \<open>Every option belongs to the command and holds a usable value.\<close>

definition args_ok :: "mg_args \<Rightarrow> bool" where
  "args_ok a \<longleftrightarrow> (\<forall>k v. ma_values a k = Some v \<longrightarrow> takes_value (ma_action a) k \<and> usable_value v)
     \<and> (\<forall>k \<in> ma_flags a. is_flag (ma_action a) k) \<and> (\<forall>k. ma_values a k \<noteq> None \<longrightarrow> k \<notin> ma_flags a)
     \<and> (ma_asset a \<in> {None, Some ''client'', Some ''plugin''})
     \<and> (ma_asset a \<noteq> None \<longrightarrow> ma_action a \<in> set [''install'', ''uninstall''])"

lemma parse_options_ok:
  "parse_options argv a = Inr b \<Longrightarrow> args_ok a \<Longrightarrow> args_ok b \<and> ma_action b = ma_action a"
proof (induction argv a rule: parse_options.induct)
  case (2 arg argv a)
  consider "arg = ''-h'' \<or> arg = ''--help''"
    | "\<not> (arg = ''-h'' \<or> arg = ''--help'')"
      "(arg = ''client'' \<or> arg = ''plugin'') \<and> ma_asset a = None \<and> ma_action a \<in> set [''install'', ''uninstall'']"
    | key where "\<not> (arg = ''-h'' \<or> arg = ''--help'')"
      "\<not> ((arg = ''client'' \<or> arg = ''plugin'') \<and> ma_asset a = None \<and> ma_action a \<in> set [''install'', ''uninstall''])"
      "strip_prefix ''--'' arg = Some key" "takes_value (ma_action a) key \<or> is_flag (ma_action a) key"
      "ma_values a key = None" "key \<notin> ma_flags a"
    using "2.prems"(1) by (fastforce split: option.splits if_splits)
  then show ?case
  proof cases
    case 1
    have "parse_options argv (a\<lparr>ma_help := True\<rparr>) = Inr b" using "2.prems"(1) 1 by (simp only: parse_options.simps(2) if_True)
    moreover have "args_ok (a\<lparr>ma_help := True\<rparr>)" using "2.prems"(2) by (simp add: args_ok_def)
    ultimately show ?thesis using "2.IH"(1) [OF 1] by simp
  next
    case 2
    have "parse_options argv (a\<lparr>ma_asset := Some arg\<rparr>) = Inr b"
      using "2.prems"(1) unfolding parse_options.simps(2) if_not_P [OF 2(1)] if_P [OF 2(2)] .
    moreover have "args_ok (a\<lparr>ma_asset := Some arg\<rparr>)" using "2.prems"(2) 2(2) by (simp add: args_ok_def)
    ultimately show ?thesis using "2.IH"(2) [OF 2] by simp
  next
    case (3 key)
    show ?thesis
    proof (cases "is_flag (ma_action a) key")
      case True
      have "args_ok (a\<lparr>ma_flags := insert key (ma_flags a)\<rparr>)" using 3 True "2.prems"(2) by (auto simp: args_ok_def)
      moreover have "parse_options argv (a\<lparr>ma_flags := insert key (ma_flags a)\<rparr>) = Inr b"
        using "2.prems"(1) unfolding parse_options.simps(2) if_not_P [OF 3(1)] if_not_P [OF 3(2)] by (simp add: 3 True)
      ultimately show ?thesis using "2.IH"(3) [OF 3(1,2,3)] 3 True by simp
    next
      case False
      then obtain v rest where v: "argv = v # rest" "usable_value v"
          "parse_options rest (a\<lparr>ma_values := (ma_values a)(key \<mapsto> v)\<rparr>) = Inr b"
        using "2.prems"(1) 3(4) unfolding parse_options.simps(2) if_not_P [OF 3(1)] if_not_P [OF 3(2)]
        by (auto simp: 3(3,5,6) split: list.splits if_splits)
      have "args_ok (a\<lparr>ma_values := (ma_values a)(key \<mapsto> v)\<rparr>)" using 3 False v(2) "2.prems"(2) by (auto simp: args_ok_def)
      then show ?thesis using "2.IH"(4) [OF 3(1,2,3)] v 3 False by simp
    qed
  qed
qed simp

lemma parse_args_ok: "parse_args argv = Inr a \<Longrightarrow> args_ok a \<and> argv \<noteq> [] \<and> ma_action a = hd argv"
  unfolding parse_args_def by (cases argv) (auto dest!: parse_options_ok simp: args_ok_def)

section \<open>Making a configuration again\<close>

text \<open>A path that is its own normal form in every working directory.\<close>

definition settled :: "string \<Rightarrow> bool" where
  "settled p \<longleftrightarrow> (\<forall>cwd. absolute cwd p = p)"

lemma settled_absolute [simp]: "settled (absolute cwd p)"
  by (simp add: settled_def)

lemma settledD [simp]: "settled p \<Longrightarrow> absolute cwd p = p"
  by (simp add: settled_def)

lemma slash_of_settled: "settled p \<Longrightarrow> CHR ''/'' \<in> set p"
  using settledD [of p "[]"] by (metis absolute_def list.set_intros(1) show_names_def)

lemma paths_new_again: "paths_new cwd' (pt_prefix (paths_new cwd given scope)) scope = paths_new cwd given scope"
  by (simp add: paths_new_def Let_def)

lemma absolute_any_cwd: "is_absolute p \<Longrightarrow> absolute cwd' p = absolute cwd p"
  by (simp add: absolute_def normal_names_def)

lemma validate_any_cwd: "validate_config cwd c p = Inr () \<Longrightarrow> validate_config cwd' c p = Inr ()"
  by (auto simp: validate_config_def and_then_Inr_iff config_paths_def split: if_splits)
    (metis absolute_any_cwd)+

lemma executable_settled: "executable_path E v = Inr p \<Longrightarrow> settled p"
  by (auto simp: executable_path_def Let_def split: option.splits if_splits)

lemma executable_again: "settled p \<Longrightarrow> me_is_program E p \<Longrightarrow> executable_path E p = Inr p"
  by (simp add: executable_path_def slash_of_settled)

lemma dir_setting_settled [simp]: "settled (dir_setting E given kept fallback)"
  by (simp add: dir_setting_def)

lemma dir_setting_again [simp]: "settled d \<Longrightarrow> dir_setting E None (Some d) fallback = d"
  by (simp add: dir_setting_def first_of_def or_else_def)

text \<open>What a made configuration has: every setting its component uses, the paths in normal form.\<close>

definition complete_config :: "mg_config \<Rightarrow> bool" where
  "complete_config c \<longleftrightarrow> settled (mc_source c) \<and> mc_build_profile c \<noteq> None
     \<and> (if mc_scope c = ''relay'' then mc_bind c \<noteq> None
        else mc_relay c \<noteq> None \<and> mc_port c \<noteq> None \<and> mc_path c \<noteq> None
          \<and> (\<forall>f \<in> {mc_dsh, mc_dsh_home, mc_state, mc_workdir}. \<exists>d. f c = Some d \<and> settled d))"

lemma daemon_settings_complete:
  assumes "daemon_settings E home p a previous c = Inr c'"
  shows "mc_source c' = mc_source c \<and> mc_build_profile c' = mc_build_profile c \<and> mc_scope c' = mc_scope c
    \<and> mc_relay c' \<noteq> None \<and> mc_port c' \<noteq> None \<and> mc_path c' \<noteq> None
    \<and> (\<forall>f \<in> {mc_dsh, mc_dsh_home, mc_state, mc_workdir}. \<exists>d. f c' = Some d \<and> settled d)"
proof -
  obtain port dsh where "executable_path E (or_else (ma_values a ''dsh'') (or_else (mc_dsh c) ''dsh'')) = Inr dsh"
      "port_setting a c = Inr port" using assms by (auto simp: daemon_settings_def and_then_Inr_iff)
  then show ?thesis using assms by (auto simp: daemon_settings_def Let_def dest: executable_settled split: if_splits)
qed

lemma make_config_parts:
  assumes "make_config E scope a previous = Inr (p, c)"
  obtains given where "install_prefix E (ma_values a ''prefix'') = Inr given" "p = paths_new (me_cwd E) given scope"
    "validate_config (me_cwd E) c p = Inr ()" "complete_config c" "mc_scope c = scope"
proof -
  obtain given home where c: "install_prefix E (ma_values a ''prefix'') = Inr given" "p = paths_new (me_cwd E) given scope"
      "me_home E = Some home" "map_err BadConfig (validate_config (me_cwd E) c p) = Inr ()"
      "(if scope = ''relay'' then Inr (relay_settings E a (base_config p (source_setting E a previous) a previous))
        else daemon_settings E home p a previous (base_config p (source_setting E a previous) a previous)) = Inr c"
    using assms by (auto simp: make_config_def and_then_Inr_iff Let_def split: option.splits)
  define c0 where "c0 = base_config p (source_setting E a previous) a previous"
  have c0: "settled (mc_source c0)" "mc_build_profile c0 \<noteq> None"
    by (simp_all add: c0_def base_config_def source_setting_def Let_def)
  have v: "validate_config (me_cwd E) c p = Inr ()" using c(4) by (cases "validate_config (me_cwd E) c p") simp_all
  then have scope: "mc_scope c = scope" using c(2) by (auto simp: validate_config_def and_then_Inr_iff paths_new_def Let_def split: if_splits)
  have "complete_config c"
    using c(5) [folded c0_def] c0 scope daemon_settings_complete [of E home p a previous c0 c]
    by (auto simp: complete_config_def relay_settings_def split: if_splits)
  then show ?thesis using that [OF c(1,2) v _ scope] by blast
qed

lemma base_again:
  assumes "complete_config c" and "\<forall>k. ma_values b k = None"
  shows "base_config p (source_setting E b (Some c)) b (Some c) = c"
proof -
  have "source_setting E b (Some c) = mc_source c" "\<exists>s. mc_build_profile c = Some s"
    using assms by (simp_all add: complete_config_def source_setting_def or_else_def first_of_def)
  then show ?thesis using assms(2) by (cases c) (auto simp: base_config_def or_else_def)
qed

lemma relay_again:
  assumes "complete_config c" and "mc_scope c = ''relay''" and "\<forall>k. ma_values b k = None"
  shows "relay_settings E b c = c"
proof -
  obtain bind where "mc_bind c = Some bind" using assms by (auto simp: complete_config_def)
  then show ?thesis using assms(3) by (cases c) (simp add: relay_settings_def or_else_def)
qed

lemma daemon_again:
  assumes "complete_config c" and "mc_scope c \<noteq> ''relay''" and "\<forall>k. ma_values b k = None"
    and "\<forall>d. mc_dsh c = Some d \<longrightarrow> me_is_program E d" and "\<forall>d. mc_workdir c = Some d \<longrightarrow> me_is_dir E d"
  shows "daemon_settings E home p b (Some c) c = Inr c"
proof -
  obtain relay port path dsh h st w where c: "mc_relay c = Some relay" "mc_port c = Some port" "mc_path c = Some path"
      "mc_dsh c = Some dsh" "settled dsh" "mc_dsh_home c = Some h" "settled h" "mc_state c = Some st" "settled st"
      "mc_workdir c = Some w" "settled w"
    using assms(1,2) by (auto simp: complete_config_def)
  have "executable_path E dsh = Inr dsh" using c assms(4) by (simp add: executable_again)
  then have "daemon_settings E home p b (Some c) c
      = Inr (c\<lparr>mc_relay := Some relay, mc_port := Some port, mc_dsh := Some dsh, mc_dsh_home := Some h,
          mc_state := Some st, mc_workdir := Some w, mc_path := Some path\<rparr>)"
    using c assms(3,5) by (simp add: daemon_settings_def port_setting_def or_else_def)
  then show ?thesis using c by (cases c) simp
qed

text \<open>
  C36. An update keeps every setting. A configuration that was made is made again, exactly, by the same
  command without options: whatever the working directory, the variables and the options of the first
  time were, as long as a home is set and the daemon's program and working directory still exist.
\<close>

theorem update_keeps_settings:
  assumes "make_config E scope a previous = Inr (p, c)"
    and "\<forall>k. ma_values b k = None" and "me_installed E' = Some (pt_prefix p)" and "me_home E' \<noteq> None"
    and "\<forall>d. mc_dsh c = Some d \<longrightarrow> me_is_program E' d" and "\<forall>d. mc_workdir c = Some d \<longrightarrow> me_is_dir E' d"
  shows "make_config E' scope b (Some c) = Inr (p, c)"
proof -
  obtain given where g: "p = paths_new (me_cwd E) given scope" "validate_config (me_cwd E) c p = Inr ()" "complete_config c"
      "mc_scope c = scope" using assms(1) by (rule make_config_parts)
  obtain home where "me_home E' = Some home" using assms(4) by auto
  moreover have "paths_new (me_cwd E') (pt_prefix p) scope = p" unfolding g(1) by (rule paths_new_again)
  moreover have "(if scope = ''relay'' then Inr (relay_settings E' b c) else daemon_settings E' home p b (Some c) c) = Inr c"
    using relay_again daemon_again g(3,4) assms(2,5,6) by simp
  moreover have "validate_config (me_cwd E') c p = Inr ()" using g(2) by (rule validate_any_cwd)
  ultimately show ?thesis using assms(2,3) by (simp add: make_config_def install_prefix_def base_again [OF g(3) assms(2)])
qed

text \<open>
  A mixed installation splits its options. Options that parse belong to the command they follow and
  hold usable values, none repeated; each component then gets a part that passes its own checks, and
  every option reaches one of them.
\<close>

theorem parsed_options_are_split:
  assumes "parse_args argv = Inr a"
  shows "args_ok a \<and> (\<forall>k. ma_values (for_scope ''relay'' a) k = ma_values a k \<or> ma_values (for_scope ''daemon'' a) k = ma_values a k)
    \<and> (ma_asset a = None \<longrightarrow>
         validate_scope ''relay'' (for_scope ''relay'' a) = Inr () \<and> validate_scope ''daemon'' (for_scope ''daemon'' a) = Inr ())"
proof -
  have f: "filter (\<lambda>key. ma_values (for_scope scope a) key \<noteq> None) (foreign_values scope) = []" for scope
    by (simp add: filter_empty_conv for_scope_def)
  have "set RELAY_VALUES \<inter> set DAEMON_VALUES = {}" by code_simp
  then have "ma_values (for_scope ''relay'' a) k = ma_values a k \<or> ma_values (for_scope ''daemon'' a) k = ma_values a k" for k
    by (auto simp: for_scope_def foreign_values_def)
  moreover have "validate_scope scope (for_scope scope a) = Inr ()"
    if "ma_asset a = None" "scope = ''relay'' \<or> scope = ''daemon''" for scope
    unfolding validate_scope_def f using that by (auto simp: for_scope_def)
  ultimately show ?thesis using parse_args_ok [OF assms] by simp
qed

text \<open>What the checks of a configuration leave.\<close>

lemma validated_scope: "validate_config cwd c p = Inr () \<Longrightarrow> mc_scope c = pt_scope p"
  by (auto simp: validate_config_def and_then_Inr_iff split: if_splits)

lemma validated_relay:
  "validate_config cwd c p = Inr () \<Longrightarrow> pt_scope p = ''relay'' \<Longrightarrow>
   \<exists>bind addr. mc_bind c = Some bind \<and> parse_socket_addr bind = Some addr \<and> 0 < sock_port addr"
  by (auto simp: validate_config_def validate_relay_def and_then_Inr_iff split: if_splits option.splits)

lemma validated_daemon:
  "validate_config cwd c p = Inr () \<Longrightarrow> pt_scope p \<noteq> ''relay'' \<Longrightarrow>
   \<exists>relay port dsh. mc_relay c = Some relay \<and> relay_authority relay \<noteq> None \<and> mc_port c = Some port \<and> 0 < port \<and> mc_dsh c = Some dsh"
  by (auto simp: validate_config_def validate_daemon_def and_then_Inr_iff split: if_splits option.splits)

section \<open>A home for examples\<close>

definition demo_env :: mg_env where
  "demo_env =
     \<lparr>me_cwd = ''/w'', me_installed = Some ''/h/.local'', me_home = Some ''/h'', me_path_var = Some ''/b'', me_path_text = Some ''/b'',
      me_dsh_home = None, me_state_dir = None, me_is_dir = (\<lambda>d. d = ''/w''), me_is_program = (\<lambda>f. f = ''/b/dsh'')\<rparr>"

definition demo_paths :: install_paths where
  "demo_paths =
     \<lparr>pt_prefix = ''/h/.local'', pt_scope = ''daemon'', pt_root = ''/h/.local/lib/dr.dsh/daemon'',
      pt_bin = ''/h/.local/lib/dr.dsh/daemon/bin'', pt_command = ''/h/.local/bin/drdsh-daemon'',
      pt_config = ''/h/.local/etc/dr.dsh/daemon.json''\<rparr>"

definition demo_config :: mg_config where
  "demo_config =
     \<lparr>mc_version = 1, mc_prefix = ''/h/.local'', mc_scope = ''daemon'', mc_source = ''/w'', mc_components = [],
      mc_bind = None, mc_client_dir = None, mc_build_profile = Some ''release'', mc_relay = Some ''wss://r.example/'',
      mc_port = Some 4000, mc_dsh = Some ''/b/dsh'', mc_dsh_home = Some ''/h/.dsh'', mc_workdir = Some ''/w'',
      mc_state = Some ''/h/.local/share/dr.dsh/daemon'', mc_path = Some ''/b:/b''\<rparr>"

definition demo_args :: mg_args where
  "demo_args =
     \<lparr>ma_action = ''install'', ma_asset = None, ma_help = False,
      ma_values = [''relay'' \<mapsto> ''wss://r.example/'', ''port'' \<mapsto> ''4000''], ma_flags = {''start''}\<rparr>"

lemma demo_parsed:
  "parse_args [''install'', ''--relay'', ''wss://r.example/'', ''--start'', ''--port'', ''4000''] = Inr demo_args"
  by (simp add: parse_args_def demo_args_def takes_value_def is_flag_def RELAY_VALUES_def DAEMON_VALUES_def
      usable_value_def one_line_def strip_prefix_def starts_with_def)

lemma demo_dirs:
  "absolute ''/w'' ''/w'' = ''/w''" "absolute ''/w'' ''/h/.local'' = ''/h/.local''" "absolute ''/w'' ''/b/dsh'' = ''/b/dsh''"
  "absolute ''/w'' ''/h/.dsh'' = ''/h/.dsh''" "absolute ''/w'' ''/h/.local/share/dr.dsh/daemon'' = ''/h/.local/share/dr.dsh/daemon''"
  by code_simp+

lemma demo_paths_new: "paths_new ''/w'' ''/h/.local'' ''daemon'' = demo_paths"
  by (simp add: paths_new_def Let_def demo_dirs demo_paths_def path_join_def)

lemma demo_valid:
  assumes "cs = [] \<or> cs = [''daemon'']"
  shows "validate_config ''/w'' (demo_config\<lparr>mc_components := cs\<rparr>) demo_paths = Inr ()"
proof -
  have "is_origin ''r.example''" by (simp add: is_origin_def chars_ascii is_ascii_def is_whitespace_def)
  then show ?thesis using assms
    by (auto simp: validate_config_def validate_daemon_def config_paths_def one_line_def relay_authority_def demo_config_def
        demo_paths_def strip_prefix_def starts_with_def trim_end_matches_def is_absolute_def demo_dirs)
qed

lemma demo_made: "make_config demo_env ''daemon'' demo_args None = Inr (demo_paths, demo_config)"
proof -
  let ?c = "base_config demo_paths ''/w'' demo_args None"
  have p': "me_home demo_env = Some ''/h''" "me_cwd demo_env = ''/w''"
    by (simp_all add: demo_env_def)
  have prefix: "install_prefix demo_env (ma_values demo_args ''prefix'') = Inr ''/h/.local''"
    by (simp add: install_prefix_def demo_env_def demo_args_def)
  have source: "source_setting demo_env demo_args None = ''/w''"
    by (simp add: source_setting_def demo_env_def demo_args_def demo_dirs or_else_def first_of_def)
  have "executable_path demo_env ''dsh'' = Inr ''/b/dsh''"
  proof -
    have s: "split_on CHR '':'' ''/b'' = [''/b'']" "path_join ''/b'' ''dsh'' = ''/b/dsh''" by code_simp+
    show ?thesis unfolding executable_path_def Let_def
      by (simp only: or_else_def demo_env_def mg_env.simps option.case s list.map demo_dirs find.simps list.set)
        (simp add: demo_dirs)
  qed
  moreover have "port_setting demo_args c = Inr 4000" for c
  proof -
    have "parse_uint 16 ''4000'' = Some 4000" by (simp add: parse_uint_def Let_def)
    then show ?thesis by (simp add: port_setting_def demo_args_def)
  qed
  moreover have "path_parent ''/b/dsh'' = Some ''/b''" by code_simp
  ultimately have "daemon_settings demo_env ''/h'' demo_paths demo_args None ?c = Inr demo_config"
    by (simp add: Let_def daemon_settings_def base_config_def fresh_config_def dir_setting_def or_else_def first_of_def demo_args_def
        demo_env_def demo_paths_def demo_config_def demo_dirs path_join_def)
  moreover have "validate_config ''/w'' demo_config demo_paths = Inr ()"
    using demo_valid [of "[]"] by (simp add: demo_config_def)
  ultimately show ?thesis
    by (simp add: make_config_def prefix demo_paths_new p' source Let_def)
qed

theorem update_keeps_settings_witness:
  "make_config (demo_env\<lparr>me_cwd := ''/elsewhere'', me_path_var := None\<rparr>) ''daemon'' (demo_args\<lparr>ma_values := Map.empty\<rparr>) (Some demo_config)
     = Inr (demo_paths, demo_config)"
  by (rule update_keeps_settings [OF demo_made]) (simp_all add: demo_env_def demo_paths_def demo_config_def)

theorem parsed_options_are_split_witness:
  "ma_values (for_scope ''relay'' demo_args) ''port'' = None \<and> ma_values (for_scope ''daemon'' demo_args) ''port'' = Some ''4000''
   \<and> validate_scope ''relay'' (for_scope ''relay'' demo_args) = Inr ()"
  using parsed_options_are_split [OF demo_parsed] by (simp add: demo_args_def for_scope_def foreign_values_def DAEMON_VALUES_def RELAY_VALUES_def)

end
