(* ===== verification/Host_Calls.thy ===== *)
theory Host_Calls
  imports Prelude
begin

text \<open>
  What the command-line tool asks of its host: programs it runs and file operations it makes, as a
  sequence of calls. An action is a function of the calls made so far, extends them and gives a value or
  an error; the host answers each call, and may answer the same question differently later. The
  collection \<open>only_rules\<close> follows an action through its binds and shows what every call it makes satisfies.
\<close>

datatype host_call =
    RunProgram string "string list"
  | ShowProgram string "string list"
  | MakeDirs string
  | WriteFile string string
  | CopyTree string string
  | Promote string string
  | MakeLink string string
  | RemovePath string
  | Sleep nat
  | MakeDir string
  | AskFile string
  | AskPresent string
  | AskRegular string
  | AskProgram string

text \<open>Refused, or the status, the standard output and the standard error.\<close>

datatype reply = Refused string | Told bool string string

type_synonym calls = "host_call list"
type_synonym host = "calls \<Rightarrow> host_call \<Rightarrow> reply"
type_synonym ('e, 'a) act = "calls \<Rightarrow> ('e + 'a) \<times> calls"

definition give :: "'a \<Rightarrow> ('e, 'a) act" where "give x h = (Inr x, h)"
definition give_up :: "'e \<Rightarrow> ('e, 'a) act" where "give_up e h = (Inl e, h)"

definition do_then :: "('e, 'a) act \<Rightarrow> ('a \<Rightarrow> ('e, 'b) act) \<Rightarrow> ('e, 'b) act" where
  "do_then m f h = (case m h of (Inl e, h') \<Rightarrow> (Inl e, h') | (Inr x, h') \<Rightarrow> f x h')"

definition ask :: "host \<Rightarrow> host_call \<Rightarrow> ('e, reply) act" where
  "ask H c h = (Inr (H h c), h @ [c])"

abbreviation check :: "bool \<Rightarrow> 'e \<Rightarrow> ('e, unit) act" where
  "check b e \<equiv> (if b then give () else give_up e)"

fun each :: "('x \<Rightarrow> ('e, unit) act) \<Rightarrow> 'x list \<Rightarrow> ('e, unit) act" where
  "each f [] = give ()"
| "each f (x # xs) = do_then (f x) (\<lambda>_. each f xs)"

text \<open>A result that is kept while the action goes on.\<close>

definition attempt :: "('e, 'a) act \<Rightarrow> ('e, 'e + 'a) act" where
  "attempt m h = (case m h of (r, h') \<Rightarrow> (Inr r, h'))"

definition map_act :: "('e \<Rightarrow> 'f) \<Rightarrow> ('e, 'a) act \<Rightarrow> ('f, 'a) act" where
  "map_act f m h = (case m h of (r, h') \<Rightarrow> (map_err f r, h'))"

text \<open>An action that looks at the calls made so far, for the time or for what was written.\<close>

definition looking :: "(calls \<Rightarrow> ('e, 'a) act) \<Rightarrow> ('e, 'a) act" where
  "looking f h = f h h"

text \<open>A question with a yes or a no; no answer is a no.\<close>

definition ask_if :: "host \<Rightarrow> host_call \<Rightarrow> ('e, bool) act" where
  "ask_if H c = do_then (ask H c) (\<lambda>r. give (case r of Refused _ \<Rightarrow> False | Told b _ _ \<Rightarrow> b))"

section \<open>Which calls an action makes\<close>

definition only :: "(host_call \<Rightarrow> bool) \<Rightarrow> ('e, 'a) act \<Rightarrow> bool" where
  "only P m \<longleftrightarrow> (\<forall>h. \<exists>cs. snd (m h) = h @ cs \<and> list_all P cs)"

named_theorems only_rules

lemma only_give [only_rules]: "only P (give x)" and only_give_up [only_rules]: "only P (give_up e)"
  by (simp_all add: only_def give_def give_up_def)

lemma only_ask [only_rules]: "P c \<Longrightarrow> only P (ask H c)"
  by (simp add: only_def ask_def)

lemma only_then [only_rules]: "only P m \<Longrightarrow> (\<And>x. only P (f x)) \<Longrightarrow> only P (do_then m f)"
proof -
  assume m: "only P m" and f: "\<And>x. only P (f x)"
  have "\<exists>cs. snd (do_then m f h) = h @ cs \<and> list_all P cs" for h
  proof -
    obtain cs where cs: "snd (m h) = h @ cs" "list_all P cs" using m by (auto simp: only_def)
    show ?thesis
    proof (cases "fst (m h)")
      case (Inl e)
      then have "do_then m f h = (Inl e, h @ cs)" using cs by (cases "m h") (simp add: do_then_def)
      then show ?thesis using cs by simp
    next
      case (Inr x)
      then have d: "do_then m f h = f x (h @ cs)" using cs by (cases "m h") (simp add: do_then_def)
      obtain ds where "snd (f x (h @ cs)) = (h @ cs) @ ds" "list_all P ds" using f [of x] unfolding only_def by blast
      then show ?thesis using d cs(2) by (intro exI [of _ "cs @ ds"]) simp
    qed
  qed
  then show ?thesis by (simp add: only_def)
qed

lemma only_if [only_rules]: "(b \<Longrightarrow> only P m) \<Longrightarrow> (\<not> b \<Longrightarrow> only P n) \<Longrightarrow> only P (if b then m else n)"
  by simp

lemma only_option [only_rules]:
  "(x = None \<Longrightarrow> only P m) \<Longrightarrow> (\<And>y. x = Some y \<Longrightarrow> only P (f y)) \<Longrightarrow> only P (case x of None \<Rightarrow> m | Some y \<Rightarrow> f y)"
  by (cases x) simp_all

lemma only_reply [only_rules]:
  "(\<And>e. only P (f e)) \<Longrightarrow> (\<And>b out err. only P (g b out err)) \<Longrightarrow>
   only P (case r of Refused e \<Rightarrow> f e | Told b out err \<Rightarrow> g b out err)"
  by (cases r) simp_all

lemma only_sum [only_rules]:
  "(\<And>e. only P (f e)) \<Longrightarrow> (\<And>x. only P (g x)) \<Longrightarrow> only P (case r of Inl e \<Rightarrow> f e | Inr x \<Rightarrow> g x)"
  by (cases r) simp_all

lemma only_each [only_rules]: "(\<And>x. x \<in> set xs \<Longrightarrow> only P (f x)) \<Longrightarrow> only P (each f xs)"
  by (induction xs) (auto intro!: only_then only_give)

lemma only_attempt [only_rules]: "only P m \<Longrightarrow> only P (attempt m)"
  by (auto simp: only_def attempt_def split: prod.split) (metis snd_conv)

lemma only_map_act [only_rules]: "only P m \<Longrightarrow> only P (map_act f m)"
  by (auto simp: only_def map_act_def split: prod.split) (metis snd_conv)

lemma only_looking [only_rules]: "(\<And>g. only P (f g)) \<Longrightarrow> only P (looking f)"
  unfolding only_def looking_def by blast

lemma only_ask_if [only_rules]: "P c \<Longrightarrow> only P (ask_if H c)"
  unfolding ask_if_def by (intro only_rules)

text \<open>Calls are only ever added.\<close>

lemma only_grows: "only P m \<Longrightarrow> \<exists>cs. snd (m h) = h @ cs"
  by (auto simp: only_def)

lemma only_mono: "only P m \<Longrightarrow> (\<And>c. P c \<Longrightarrow> Q c) \<Longrightarrow> only Q m"
  unfolding only_def list_all_iff by blast

lemma only_calls: "only P m \<Longrightarrow> c \<in> set (snd (m [])) \<Longrightarrow> P c"
  unfolding only_def list_all_iff by (metis append_Nil)

text \<open>How a bind succeeds.\<close>

lemma do_then_Inr: "do_then m f h = (Inr y, h') \<longleftrightarrow> (\<exists>x h1. m h = (Inr x, h1) \<and> f x h1 = (Inr y, h'))"
  by (auto simp: do_then_def split: prod.splits sum.splits)

lemma do_then_simps [simp]:
  "do_then (give x) f = f x" "do_then (give_up e) f = give_up e" "do_then (ask H c) f h = f (H h c) (h @ [c])"
  by (auto simp: do_then_def give_def give_up_def ask_def)

lemma give_Inr [simp]: "give x h = (Inr y, h') \<longleftrightarrow> x = y \<and> h = h'" "\<not> give_up e h = (Inr y, h')"
  by (auto simp: give_def give_up_def)

end
