(* ===== verification/Service_Unit.thy ===== *)
theory Service_Unit
  imports Management Host_Calls Lines
begin

text \<open>
  The user services of an installation, \<open>service.rs\<close> of the command-line tool: their names, the text of
  the unit (systemd) or property list (launchd) that is written, and how quoting keeps every setting
  inside its word. The digest of a name is a parameter. Shown: what is quoted is read back as it was, and
  a unit has its fixed lines and one line per variable, whatever the settings are.
\<close>

section \<open>Names\<close>

definition two_hex :: "byte \<Rightarrow> string" where
  "two_hex b = map (\<lambda>n. ''0123456789abcdef'' ! n) [unat b div 16, unat b mod 16]"

record service_spec =
  sp_name :: string
  sp_file :: string
  sp_log :: string

definition spec_for :: "(byte list \<Rightarrow> byte list) \<Rightarrow> install_paths \<Rightarrow> bool \<Rightarrow> service_spec" where
  "spec_for digest p mac =
     (let mark = concat (map two_hex (take 6 (digest (as_bytes (pt_root p)))));
          name = (if mac then ''dev.drdsh.'' @ pt_scope p @ ''.'' @ mark else ''drdsh-'' @ pt_scope p @ ''-'' @ mark @ ''.service'')
      in \<lparr>sp_name = name,
          sp_file = path_join (path_join (pt_root p) ''services'') (if mac then name @ ''.plist'' else name),
          sp_log = path_join (pt_root p) (''logs/'' @ pt_scope p @ ''.log'')\<rparr>)"

section \<open>Quoting\<close>

text \<open>\<open>str::replace\<close> of one character.\<close>

definition replace_char :: "char \<Rightarrow> string \<Rightarrow> string \<Rightarrow> string" where
  "replace_char c r s = concat (map (\<lambda>x. if x = c then r else [x]) s)"

definition xml :: "string \<Rightarrow> string" where
  "xml s =
     replace_char (CHR 0x27) ''&apos;'' (replace_char (CHR 0x22) ''&quot;'' (replace_char CHR ''>'' ''&gt;''
       (replace_char CHR ''<'' ''&lt;'' (replace_char CHR ''&'' ''&amp;'' s))))"

definition BACKSLASH :: char where "BACKSLASH = CHR 0x5C"
definition QUOTE :: char where "QUOTE = CHR 0x22"
definition TAB :: char where "TAB = CHR 0x09"

definition systemd_quote :: "string \<Rightarrow> string" where
  "systemd_quote s =
     QUOTE # replace_char TAB [BACKSLASH, CHR ''t''] (replace_char CR [BACKSLASH, CHR ''r'']
       (replace_char NL [BACKSLASH, CHR ''n''] (replace_char CHR ''%'' ''%%''
         (replace_char QUOTE [BACKSLASH, QUOTE] (replace_char BACKSLASH [BACKSLASH, BACKSLASH] s))))) @ [QUOTE]"

lemma replace_concat: "replace_char c r (concat (map f s)) = concat (map (\<lambda>x. replace_char c r (f x)) s)"
  by (induction s) (simp_all add: replace_char_def)

lemma replace_first: "replace_char c r s = concat (map (\<lambda>x. replace_char c r [x]) s)"
  by (simp add: replace_char_def)

text \<open>The passes of the code are one pass, character by character.\<close>

definition xml_char :: "char \<Rightarrow> string" where
  "xml_char x =
     (if x = CHR ''&'' then ''&amp;'' else if x = CHR ''<'' then ''&lt;'' else if x = CHR ''>'' then ''&gt;''
      else if x = CHR 0x22 then ''&quot;'' else if x = CHR 0x27 then ''&apos;'' else [x])"

lemma xml_one_pass: "xml s = concat (map xml_char s)"
proof -
  have "xml [x] = xml_char x" for x by (simp add: xml_def xml_char_def replace_char_def)
  moreover have "xml s = concat (map (\<lambda>x. xml [x]) s)"
    unfolding xml_def by (subst replace_first) (simp only: replace_concat)
  ultimately show ?thesis by simp
qed

definition quote_char :: "char \<Rightarrow> string" where
  "quote_char x =
     (if x = BACKSLASH then [BACKSLASH, BACKSLASH] else if x = QUOTE then [BACKSLASH, QUOTE]
      else if x = CHR ''%'' then ''%%'' else if x = NL then [BACKSLASH, CHR ''n''] else if x = CR then [BACKSLASH, CHR ''r'']
      else if x = TAB then [BACKSLASH, CHR ''t''] else [x])"

lemma quote_one_pass: "systemd_quote s = QUOTE # concat (map quote_char s) @ [QUOTE]"
proof -
  define q where "q s = replace_char TAB [BACKSLASH, CHR ''t''] (replace_char CR [BACKSLASH, CHR ''r'']
       (replace_char NL [BACKSLASH, CHR ''n''] (replace_char CHR ''%'' ''%%''
         (replace_char QUOTE [BACKSLASH, QUOTE] (replace_char BACKSLASH [BACKSLASH, BACKSLASH] s)))))" for s
  have "q [x] = quote_char x" for x
    by (simp add: q_def quote_char_def replace_char_def BACKSLASH_def QUOTE_def NL_def CR_def TAB_def)
  moreover have "q s = concat (map (\<lambda>x. q [x]) s)"
    unfolding q_def by (subst replace_first) (simp only: replace_concat)
  ultimately show ?thesis by (simp add: systemd_quote_def q_def)
qed

text \<open>
  The readers: a quoted word of a unit, in which a backslash takes the next character and a percent sign
  stands doubled, up to the closing quote; the text of an element, with its five named entities.
\<close>

fun read_word :: "string \<Rightarrow> (string \<times> string) option" where
  "read_word [] = None"
| "read_word (c # s) =
     (if c = QUOTE then Some ([], s)
      else if c = BACKSLASH then
        (case s of
           [] \<Rightarrow> None
         | e # t \<Rightarrow>
             let x = (if e = CHR ''n'' then Some NL else if e = CHR ''r'' then Some CR else if e = CHR ''t'' then Some TAB
                      else if e = BACKSLASH \<or> e = QUOTE then Some e else None)
             in (case x of None \<Rightarrow> None | Some x \<Rightarrow> map_option (\<lambda>(w, r). (x # w, r)) (read_word t)))
      else if c = CHR ''%'' then
        (case s of [] \<Rightarrow> None | e # t \<Rightarrow> if e = CHR ''%'' then map_option (\<lambda>(w, r). (c # w, r)) (read_word t) else None)
      else if c = NL \<or> c = CR then None
      else map_option (\<lambda>(w, r). (c # w, r)) (read_word s))"

fun read_element :: "string \<Rightarrow> (string \<times> string) option" where
  "read_element [] = None"
| "read_element (c # s) =
     (if c = CHR ''<'' then Some ([], c # s)
      else if c = CHR ''&'' then
        (if take 4 s = ''amp;'' then map_option (\<lambda>(w, r). (CHR ''&'' # w, r)) (read_element (drop 4 s))
         else if take 3 s = ''lt;'' then map_option (\<lambda>(w, r). (CHR ''<'' # w, r)) (read_element (drop 3 s))
         else if take 3 s = ''gt;'' then map_option (\<lambda>(w, r). (CHR ''>'' # w, r)) (read_element (drop 3 s))
         else if take 5 s = ''quot;'' then map_option (\<lambda>(w, r). (CHR 0x22 # w, r)) (read_element (drop 5 s))
         else if take 5 s = ''apos;'' then map_option (\<lambda>(w, r). (CHR 0x27 # w, r)) (read_element (drop 5 s))
         else None)
      else map_option (\<lambda>(w, r). (c # w, r)) (read_element s))"

lemma read_word_char: "read_word (quote_char x @ s) = map_option (\<lambda>(w, r). (x # w, r)) (read_word s)"
  by (simp add: quote_char_def BACKSLASH_def QUOTE_def NL_def CR_def TAB_def)

lemma read_word_quote: "read_word (tl (systemd_quote s) @ rest) = Some (s, rest)"
proof -
  have "read_word (concat (map quote_char s) @ QUOTE # rest) = Some (s, rest)" for s
    by (induction s) (simp_all add: read_word_char)
  then show ?thesis by (simp add: quote_one_pass)
qed

lemma read_element_char: "read_element (xml_char x @ s) = map_option (\<lambda>(w, r). (x # w, r)) (read_element s)"
  by (simp add: xml_char_def numeral_eq_Suc)

lemma read_element_xml: "read_element (xml s @ CHR ''<'' # rest) = Some (s, CHR ''<'' # rest)"
proof -
  have "read_element (concat (map xml_char s) @ CHR ''<'' # rest) = Some (s, CHR ''<'' # rest)" for s
    by (induction s) (simp_all add: read_element_char)
  then show ?thesis by (simp add: xml_one_pass)
qed

lemma quoted_line: "NL \<notin> set (systemd_quote s)"
  by (auto simp: quote_one_pass quote_char_def BACKSLASH_def QUOTE_def NL_def CR_def TAB_def split: if_splits)

text \<open>
  What the writers of files and shell words rely on: a text that is quoted is read back. Two texts then
  have different quotations, and so have two lists of words.
\<close>

locale quoting =
  fixes quote :: "string \<Rightarrow> string"
    and unquote :: "string \<Rightarrow> string option"
  assumes unquote_quote: "unquote (quote s) = Some s"
begin

lemma quote_inj: "quote s = quote t \<longleftrightarrow> s = t"
  by (metis option.inject unquote_quote)

lemma words_inj: "map quote ss = map quote ts \<longleftrightarrow> ss = ts"
  using quote_inj by (metis inj_map_eq_map injI)

end

definition whole_word :: "string \<Rightarrow> string option" where
  "whole_word t = (case read_word (tl t) of Some (w, []) \<Rightarrow> Some w | _ \<Rightarrow> None)"

definition element_text :: "string \<Rightarrow> string option" where
  "element_text t = map_option fst (read_element (t @ ''<''))"

interpretation systemd: quoting systemd_quote whole_word
proof
  show "whole_word (systemd_quote s) = Some s" for s
    using read_word_quote [of s "[]"] unfolding whole_word_def append_Nil2 by (simp only: option.case prod.case list.case)
qed

interpretation property_list: quoting xml element_text
proof
  show "element_text (xml s) = Some s" for s
    using read_element_xml [of s "[]"] unfolding element_text_def by (simp only: option.map fst_conv)
qed

section \<open>The unit file\<close>

definition service_program :: "mg_config \<Rightarrow> install_paths \<Rightarrow> string list" where
  "service_program c p =
     [path_join (pt_bin p) ''drdsh'', pt_scope p, ''run'']
     @ (if pt_scope p = ''daemon'' then concat (map (\<lambda>(k, v). [k, v]) (daemon_args c ''run'')) else [])"

definition exec_args :: "mg_config \<Rightarrow> install_paths \<Rightarrow> string list" where
  "exec_args c p = [''--chdir'', config_cwd c p, ''--''] @ service_program c p"

definition environment_line :: "string \<times> string \<Rightarrow> string" where
  "environment_line e = ''Environment='' @ systemd_quote (fst e @ ''='' @ snd e)"

definition exec_line :: "mg_config \<Rightarrow> install_paths \<Rightarrow> string" where
  "exec_line c p = ''ExecStart=:/usr/bin/env '' @ joined_by '' '' (map systemd_quote (exec_args c p))"

definition render_unit :: "mg_config \<Rightarrow> install_paths \<Rightarrow> string" where
  "render_unit c p =
     text_of_lines [''[Unit]'', ''Description=dr.dsh '' @ pt_scope p, ''After=network-online.target'', ''StartLimitIntervalSec=60'',
       ''StartLimitBurst=5'', [], ''[Service]'', ''Type=simple'', exec_line c p]
     @ joined_by [NL] (map environment_line (environment c p)) @ [NL]
     @ text_of_lines [''Restart=on-failure'', ''RestartSec=5'', ''KillMode=mixed'', ''TimeoutStopSec=35'', ''UMask=0077'',
       ''StandardOutput=journal'', ''StandardError=journal'', [], ''[Install]'', ''WantedBy=default.target'']"

definition render_plist :: "service_spec \<Rightarrow> mg_config \<Rightarrow> install_paths \<Rightarrow> string" where
  "render_plist sp c p =
     text_of_lines
       [''<?xml version='' @ [QUOTE] @ ''1.0'' @ [QUOTE] @ '' encoding='' @ [QUOTE] @ ''UTF-8'' @ [QUOTE] @ ''?>'',
        ''<!DOCTYPE plist PUBLIC '' @ [QUOTE] @ ''-//Apple//DTD PLIST 1.0//EN'' @ [QUOTE] @ '' ''
          @ [QUOTE] @ ''http://www.apple.com/DTDs/PropertyList-1.0.dtd'' @ [QUOTE] @ ''>'',
        ''<plist version='' @ [QUOTE] @ ''1.0'' @ [QUOTE] @ ''><dict>'',
        ''<key>Label</key><string>'' @ xml (sp_name sp) @ ''</string>'',
        ''<key>ProgramArguments</key><array>''
          @ concat (map (\<lambda>a. ''<string>'' @ xml a @ ''</string>'') (service_program c p)) @ ''</array>'',
        ''<key>WorkingDirectory</key><string>'' @ xml (config_cwd c p) @ ''</string>'',
        ''<key>EnvironmentVariables</key><dict>''
          @ concat (map (\<lambda>(k, v). ''<key>'' @ k @ ''</key><string>'' @ xml v @ ''</string>'') (environment c p)) @ ''</dict>'',
        ''<key>RunAtLoad</key><true/>'',
        ''<key>KeepAlive</key><dict><key>SuccessfulExit</key><false/></dict>'',
        ''<key>ThrottleInterval</key><integer>5</integer>'',
        ''<key>ExitTimeOut</key><integer>35</integer>'',
        ''<key>Umask</key><integer>63</integer>'',
        ''<key>StandardOutPath</key><string>'' @ xml (sp_log sp) @ ''</string>'',
        ''<key>StandardErrorPath</key><string>'' @ xml (sp_log sp) @ ''</string>'',
        ''</dict></plist>'']"

definition render :: "(byte list \<Rightarrow> byte list) \<Rightarrow> mg_config \<Rightarrow> install_paths \<Rightarrow> bool \<Rightarrow> string" where
  "render digest c p mac = (if mac then render_plist (spec_for digest p mac) c p else render_unit c p)"

lemma split_on_lines: "\<forall>l \<in> set ls. NL \<notin> set l \<Longrightarrow> split_on NL (text_of_lines ls @ t) = ls @ split_on NL t"
proof (induction ls)
  case (Cons l ls)
  have "split_on NL (l @ NL # t) = l # split_on NL t" if "NL \<notin> set l" for l t using that by (induction l) auto
  with Cons show ?case by simp
qed simp

lemma joined_lines: "ls \<noteq> [] \<Longrightarrow> joined_by [NL] ls @ [NL] = text_of_lines ls"
proof (induction ls rule: induct_list012)
  case (3 x y zs)
  then show ?case by simp
qed simp_all

lemma environment_some: "environment c p \<noteq> []"
proof -
  have "bt_put k v m \<noteq> []" for k v and m :: "(string, string) btree" by (simp add: bt_put_def)
  then show ?thesis by (auto simp: environment_def put_some_def Let_def split: option.splits)
qed

lemma joined_no_newline: "\<forall>x \<in> set xs. NL \<notin> set x \<Longrightarrow> NL \<notin> set sep \<Longrightarrow> NL \<notin> set (joined_by sep xs)"
  by (induction sep xs rule: joined_by.induct) auto

lemma exec_line_one: "NL \<notin> set (exec_line c p)"
proof -
  have "NL \<notin> set (joined_by '' '' (map systemd_quote (exec_args c p)))"
    by (rule joined_no_newline) (auto simp: quoted_line, simp add: NL_def)
  then show ?thesis by (simp add: exec_line_def NL_def)
qed

lemma environment_line_one: "NL \<notin> set (environment_line e)"
proof -
  have "NL \<notin> set ''Environment=''" by (simp add: NL_def)
  then show ?thesis by (simp add: environment_line_def quoted_line)
qed

text \<open>Two variables with different texts have different lines.\<close>

lemma environment_lines_differ: "environment_line e = environment_line f \<longleftrightarrow> fst e @ ''='' @ snd e = fst f @ ''='' @ snd f"
  by (simp add: environment_line_def systemd.quote_inj)

text \<open>The words of a quoted line, separated by single spaces.\<close>

fun read_words :: "nat \<Rightarrow> string \<Rightarrow> string list option" where
  "read_words 0 s = None"
| "read_words (Suc n) s =
     (case s of
        [] \<Rightarrow> None
      | c # t \<Rightarrow>
          if c \<noteq> QUOTE then None
          else (case read_word t of
                  None \<Rightarrow> None
                | Some (w, r) \<Rightarrow>
                    (case r of
                       [] \<Rightarrow> Some [w]
                     | c # r \<Rightarrow> if c = CHR '' '' then map_option (\<lambda>ws. w # ws) (read_words n r) else None)))"

lemma read_words_step:
  "read_words (Suc n) (systemd_quote w) = Some [w]"
  "read_words (Suc n) (systemd_quote w @ CHR '' '' # r) = map_option (\<lambda>ws. w # ws) (read_words n r)"
proof -
  have q: "systemd_quote w = QUOTE # tl (systemd_quote w)" by (simp add: systemd_quote_def)
  have "read_words (Suc n) (QUOTE # tl (systemd_quote w)) = Some [w]" using read_word_quote [of w "[]"] by simp
  then show "read_words (Suc n) (systemd_quote w) = Some [w]" using q by simp
  have "read_words (Suc n) ((QUOTE # tl (systemd_quote w)) @ CHR '' '' # r) = map_option (\<lambda>ws. w # ws) (read_words n r)"
    using read_word_quote [of w "CHR '' '' # r"] by simp
  then show "read_words (Suc n) (systemd_quote w @ CHR '' '' # r) = map_option (\<lambda>ws. w # ws) (read_words n r)" using q by simp
qed

lemma read_words_joined:
  "ws \<noteq> [] \<Longrightarrow> length ws \<le> n \<Longrightarrow> read_words n (joined_by '' '' (map systemd_quote ws)) = Some ws"
proof (induction ws arbitrary: n rule: induct_list012)
  case (2 w)
  then obtain m where "n = Suc m" by (cases n) auto
  then show ?case unfolding list.map joined_by.simps by (simp only: read_words_step)
next
  case (3 w v ws)
  obtain m where n: "n = Suc m" "length (v # ws) \<le> m" using 3(4) by (cases n) auto
  have "joined_by '' '' (map systemd_quote (w # v # ws)) = systemd_quote w @ CHR '' '' # joined_by '' '' (map systemd_quote (v # ws))"
    unfolding list.map joined_by.simps append_Cons append_Nil ..
  then show ?case using "3.IH"(2) [OF _ n(2)] n(1) by (simp only: read_words_step option.map not_Cons_self2) simp
qed simp

text \<open>
  C24. A setting stays in its word. The unit of a component has its fixed lines, one line that runs it and
  one line for each variable, whatever paths, addresses and search paths it is configured with; the line
  that runs it holds exactly its words, each line of a variable exactly that variable, and the property
  list holds every word in an element of its own.
\<close>

theorem settings_stay_in_their_words:
  assumes "pt_scope p \<in> {''relay'', ''daemon''}"
  shows "split_on NL (render_unit c p) =
      [''[Unit]'', ''Description=dr.dsh '' @ pt_scope p, ''After=network-online.target'', ''StartLimitIntervalSec=60'',
       ''StartLimitBurst=5'', [], ''[Service]'', ''Type=simple'', exec_line c p]
      @ map environment_line (environment c p)
      @ [''Restart=on-failure'', ''RestartSec=5'', ''KillMode=mixed'', ''TimeoutStopSec=35'', ''UMask=0077'',
         ''StandardOutput=journal'', ''StandardError=journal'', [], ''[Install]'', ''WantedBy=default.target'', []]
    \<and> read_words (length (exec_args c p)) (drop 24 (exec_line c p)) = Some (exec_args c p)
    \<and> (\<forall>(k, v) \<in> set (environment c p). read_word (drop 13 (environment_line (k, v))) = Some (k @ ''='' @ v, []))
    \<and> (\<forall>w \<in> set (service_program c p). read_element (xml w @ ''</string>'') = Some (w, ''</string>''))"
proof -
  let ?front = "[''[Unit]'', ''Description=dr.dsh '' @ pt_scope p, ''After=network-online.target'', ''StartLimitIntervalSec=60'',
       ''StartLimitBurst=5'', [], ''[Service]'', ''Type=simple'', exec_line c p]"
  let ?tail = "[''Restart=on-failure'', ''RestartSec=5'', ''KillMode=mixed'', ''TimeoutStopSec=35'', ''UMask=0077'',
         ''StandardOutput=journal'', ''StandardError=journal'', [], ''[Install]'', ''WantedBy=default.target'']"
  have j: "joined_by [NL] (map environment_line (environment c p)) @ [NL] = text_of_lines (map environment_line (environment c p))"
    using environment_some by (intro joined_lines) simp
  have whole: "render_unit c p = text_of_lines (?front @ map environment_line (environment c p) @ ?tail)"
    unfolding render_unit_def text_of_lines_simps(3) j [symmetric] append_assoc ..
  have "list_all (\<lambda>l. NL \<notin> set l) [''[Unit]'', ''After=network-online.target'', ''StartLimitIntervalSec=60'', ''StartLimitBurst=5'', [],
      ''[Service]'', ''Type=simple'']" "list_all (\<lambda>l. NL \<notin> set l) ?tail" "NL \<notin> set ''Description=dr.dsh relay''"
      "NL \<notin> set ''Description=dr.dsh daemon''" by code_simp+
  then have "list_all (\<lambda>l. NL \<notin> set l) (?front @ map environment_line (environment c p) @ ?tail)"
    using assms exec_line_one [of c p] by (elim insertE emptyE) (simp_all add: list_all_iff environment_line_one)
  then have "\<forall>l \<in> set (?front @ map environment_line (environment c p) @ ?tail). NL \<notin> set l" by (simp only: list_all_iff)
  then have lines: "split_on NL (render_unit c p) = ?front @ map environment_line (environment c p) @ ?tail @ [[]]"
    using split_on_lines [of "?front @ map environment_line (environment c p) @ ?tail" "[]"]
    unfolding whole by (simp only: append_Nil2 split_on.simps append_assoc)
  have words: "read_words (length (exec_args c p)) (drop 24 (exec_line c p)) = Some (exec_args c p)"
  proof -
    have "drop 24 (exec_line c p) = joined_by '' '' (map systemd_quote (exec_args c p))" by (simp add: exec_line_def)
    moreover have "exec_args c p \<noteq> []" by (simp add: exec_args_def)
    ultimately show ?thesis using read_words_joined [of "exec_args c p" "length (exec_args c p)"] by (simp only: order_refl simp_thms)
  qed
  have "read_word (drop 13 (environment_line e)) = Some (fst e @ ''='' @ snd e, [])" for e
    using read_word_quote [of "fst e @ ''='' @ snd e" "[]"] by (simp add: environment_line_def systemd_quote_def)
  then have vars: "\<forall>(k, v) \<in> set (environment c p). read_word (drop 13 (environment_line (k, v))) = Some (k @ ''='' @ v, [])"
    by (metis (mono_tags, lifting) case_prodI2 fst_conv snd_conv)
  have "\<forall>w \<in> set (service_program c p). read_element (xml w @ ''</string>'') = Some (w, ''</string>'')"
    using read_element_xml [of _ "''/string>''"] by simp
  with lines words vars show ?thesis unfolding append.simps by (intro conjI)
qed

theorem settings_stay_in_their_words_witness:
  "read_words (length (exec_args demo_config demo_paths)) (drop 24 (exec_line demo_config demo_paths))
     = Some [''--chdir'', ''/w'', ''--'', ''/h/.local/lib/dr.dsh/daemon/bin/drdsh'', ''daemon'', ''run'',
         ''--relay'', ''wss://r.example/'', ''--port'', ''4000'']"
proof -
  have "decimal 4000 = ''4000''" by (simp add: decimal.simps [of 4000] decimal.simps [of 400] decimal.simps [of 40] decimal.simps [of 4])
  then have "exec_args demo_config demo_paths = [''--chdir'', ''/w'', ''--'', ''/h/.local/lib/dr.dsh/daemon/bin/drdsh'', ''daemon'',
      ''run'', ''--relay'', ''wss://r.example/'', ''--port'', ''4000'']"
    by (simp add: exec_args_def service_program_def config_cwd_def daemon_args_def demo_config_def demo_paths_def path_join_def)
  then show ?thesis using settings_stay_in_their_words [of demo_paths demo_config] by (simp add: demo_paths_def)
qed

end
