(* ===== verification/Service_Run.thy ===== *)
theory Service_Run
  imports Service_Unit
begin

text \<open>
  Running a component as a user service, \<open>service.rs\<close> of the command-line tool: what the service manager
  says of it, starting, stopping, starting at login, health and logs, on systemd and on launchd. The
  answers of the host are parameters; \<open>mac\<close> is the constant \<open>MAC\<close>. Shown: a start that succeeds leaves a
  running service, a running service is not started again, on systemd every command names the unit of
  this component only, and the wait for a service to end is bounded.
\<close>

datatype service_error =
    CannotRun string string
  | CommandFailed string string
  | NoLoadState
  | NoActiveState
  | StateUnreadable string
  | FileFailed string
  | NotStopped
  | StillWaiting
  | DidNotStayUp
  | HomeMissing
  | UnrelatedAgent string
  | LogsFailed

type_synonym 'a service_act = "(service_error, 'a) act"

definition capture :: "host \<Rightarrow> string \<Rightarrow> string list \<Rightarrow> (bool \<times> string \<times> string) service_act" where
  "capture H program args =
     do_then (ask H (RunProgram program args)) (\<lambda>r. case r of
       Refused e \<Rightarrow> give_up (CannotRun program e) | Told ok out err \<Rightarrow> give (ok, out, err))"

definition run_checked :: "host \<Rightarrow> string \<Rightarrow> string list \<Rightarrow> string service_act" where
  "run_checked H program args =
     do_then (capture H program args) (\<lambda>(ok, out, err). if ok then give out else give_up (CommandFailed program (trim err)))"

definition file_op :: "host \<Rightarrow> host_call \<Rightarrow> unit service_act" where
  "file_op H c = do_then (ask H c) (\<lambda>r. case r of Refused e \<Rightarrow> give_up (FileFailed e) | Told _ _ _ \<Rightarrow> give ())"

definition quietly :: "string service_act \<Rightarrow> unit service_act" where
  "quietly m = do_then m (\<lambda>_. give ())"

definition gui :: "host \<Rightarrow> string service_act" where
  "gui H = do_then (run_checked H ''/usr/bin/id'' [''-u'']) (\<lambda>out. give (''gui/'' @ trim out))"

definition service_target :: "host \<Rightarrow> service_spec \<Rightarrow> string service_act" where
  "service_target H s = do_then (gui H) (\<lambda>g. give (g @ ''/'' @ sp_name s))"

definition service_available :: "host \<Rightarrow> bool \<Rightarrow> unit service_act" where
  "service_available H mac =
     (if mac then do_then (gui H) (\<lambda>g. quietly (run_checked H ''launchctl'' [''print'', g]))
      else do_then (run_checked H ''systemctl'' [''--user'', ''show-environment'']) (\<lambda>_.
           quietly (run_checked H ''/usr/bin/env'' [''--chdir'', ''/'', ''/bin/true''])))"

section \<open>What the service manager says\<close>

record unit_state =
  sv_loaded :: bool
  sv_running :: bool
  sv_failed :: bool
  sv_pid :: "nat option"
  sv_detail :: string

fun first_some :: "('a \<Rightarrow> 'b option) \<Rightarrow> 'a list \<Rightarrow> 'b option" where
  "first_some f [] = None"
| "first_some f (x # xs) = (case f x of Some y \<Rightarrow> Some y | None \<Rightarrow> first_some f xs)"

definition nonzero :: "nat option \<Rightarrow> nat option" where
  "nonzero n = (case n of None \<Rightarrow> None | Some k \<Rightarrow> if k = 0 then None else Some k)"

definition launchd_pid :: "string \<Rightarrow> nat option" where
  "launchd_pid out =
     nonzero (first_some (\<lambda>l. case strip_prefix ''pid = '' (trim l) of None \<Rightarrow> None | Some t \<Rightarrow> parse_uint 32 t) (lines out))"

definition launchd_state :: "bool \<Rightarrow> string \<Rightarrow> unit_state" where
  "launchd_state ok out =
     (let pid = launchd_pid out in
      \<lparr>sv_loaded = ok, sv_running = (pid \<noteq> None), sv_failed = False, sv_pid = pid,
       sv_detail = (case pid of Some n \<Rightarrow> ''running (pid '' @ decimal n @ '')''
                    | None \<Rightarrow> if ok then ''loaded, no running process; inspect logs'' else ''stopped'')\<rparr>)"

definition unit_value :: "string \<Rightarrow> string \<Rightarrow> string option" where
  "unit_value key out = first_some (strip_prefix key) (lines out)"

definition systemd_state :: "bool \<Rightarrow> string \<Rightarrow> string \<Rightarrow> service_error + unit_state" where
  "systemd_state ok out err =
     (case unit_value ''LoadState='' out of
        None \<Rightarrow> Inl NoLoadState
      | Some load \<Rightarrow>
          (case unit_value ''ActiveState='' out of
             None \<Rightarrow> Inl NoActiveState
           | Some active \<Rightarrow>
               if \<not> (ok \<or> load = ''not-found'') then Inl (StateUnreadable err)
               else let pid = nonzero (case unit_value ''MainPID='' out of None \<Rightarrow> None | Some t \<Rightarrow> parse_uint 32 t)
                    in Inr \<lparr>sv_loaded = (load = ''loaded''), sv_running = (active = ''active'' \<and> pid \<noteq> None),
                            sv_failed = (active = ''failed''), sv_pid = pid,
                            sv_detail = active @ (case pid of None \<Rightarrow> [] | Some n \<Rightarrow> '' (pid '' @ decimal n @ '')'')\<rparr>))"

definition service_state :: "host \<Rightarrow> bool \<Rightarrow> service_spec \<Rightarrow> unit_state service_act" where
  "service_state H mac s =
     (if mac
      then do_then (service_target H s) (\<lambda>t. do_then (capture H ''launchctl'' [''print'', t]) (\<lambda>(ok, out, err).
             give (launchd_state ok out)))
      else do_then (capture H ''systemctl'' [''--user'', ''show'', sp_name s, ''--property=ActiveState,MainPID,LoadState''])
             (\<lambda>(ok, out, err). case systemd_state ok out err of Inl e \<Rightarrow> give_up e | Inr st \<Rightarrow> give st))"

section \<open>Operations\<close>

text \<open>
  A service that launchd has been told to end is polled with a signal that does nothing until it is gone;
  \<open>clock\<close> is the time in milliseconds after some calls, and the fuel bounds the polls.
\<close>

fun wait_gone :: "host \<Rightarrow> (calls \<Rightarrow> nat) \<Rightarrow> nat \<Rightarrow> nat \<Rightarrow> nat \<Rightarrow> unit service_act" where
  "wait_gone H clock deadline pid 0 = give_up StillWaiting"
| "wait_gone H clock deadline pid (Suc n) =
     do_then (capture H ''/bin/kill'' [''-0'', decimal pid]) (\<lambda>(ok, out, err).
       if \<not> ok then give ()
       else looking (\<lambda>h. if \<not> clock h < deadline then give_up NotStopped
         else do_then (ask H (Sleep 100)) (\<lambda>_. wait_gone H clock deadline pid n)))"

definition STOP_POLLS :: nat where "STOP_POLLS = 402"

definition service_stop :: "host \<Rightarrow> (calls \<Rightarrow> nat) \<Rightarrow> bool \<Rightarrow> service_spec \<Rightarrow> unit service_act" where
  "service_stop H clock mac s =
     do_then (service_state H mac s) (\<lambda>before.
       if mac
       then do_then (if sv_loaded before
                     then do_then (service_target H s) (\<lambda>t. quietly (run_checked H ''launchctl'' [''bootout'', t]))
                     else give ()) (\<lambda>_.
            case sv_pid before of
              None \<Rightarrow> give ()
            | Some pid \<Rightarrow> looking (\<lambda>h. wait_gone H clock (clock h + 40000) pid STOP_POLLS))
       else if sv_loaded before \<or> sv_running before
       then quietly (run_checked H ''systemctl'' [''--user'', ''stop'', sp_name s])
       else give ())"

text \<open>\<open>log_exists\<close>: whether the log is there, a question about the file system.\<close>

definition service_prepare ::
  "host \<Rightarrow> (byte list \<Rightarrow> byte list) \<Rightarrow> bool \<Rightarrow> bool \<Rightarrow> mg_config \<Rightarrow> install_paths \<Rightarrow> service_spec service_act" where
  "service_prepare H digest mac log_exists c p =
     (let s = spec_for digest p mac in
      do_then (file_op H (MakeDirs (path_join (pt_root p) ''logs''))) (\<lambda>_.
      do_then (if log_exists then give () else file_op H (WriteFile (sp_log s) [])) (\<lambda>_.
      do_then (file_op H (WriteFile (sp_file s) (render digest c p mac))) (\<lambda>_. give s))))"

definition service_start ::
  "host \<Rightarrow> (byte list \<Rightarrow> byte list) \<Rightarrow> bool \<Rightarrow> bool \<Rightarrow> mg_config \<Rightarrow> install_paths \<Rightarrow> unit service_act" where
  "service_start H digest mac log_exists c p =
     do_then (service_prepare H digest mac log_exists c p) (\<lambda>s.
     do_then (service_state H mac s) (\<lambda>before.
       if sv_running before then give ()
       else
         do_then
           (if mac
            then do_then (if sv_loaded before
                          then do_then (service_target H s) (\<lambda>t. quietly (run_checked H ''launchctl'' [''bootout'', t]))
                          else give ()) (\<lambda>_.
                 do_then (service_target H s) (\<lambda>t.
                 do_then (run_checked H ''launchctl'' [''enable'', t]) (\<lambda>_.
                 do_then (gui H) (\<lambda>g. quietly (run_checked H ''launchctl'' [''bootstrap'', g, sp_file s])))))
            else do_then (run_checked H ''systemctl'' [''--user'', ''link'', sp_file s]) (\<lambda>_.
                 do_then (run_checked H ''systemctl'' [''--user'', ''daemon-reload'']) (\<lambda>_.
                 do_then (if sv_failed before then quietly (run_checked H ''systemctl'' [''--user'', ''reset-failed'', sp_name s]) else give ()) (\<lambda>_.
                 quietly (run_checked H ''systemctl'' [''--user'', ''start'', sp_name s]))))) (\<lambda>_.
         do_then (ask H (Sleep 1000)) (\<lambda>_.
         do_then (service_state H mac s) (\<lambda>after.
           if sv_running after then give () else give_up DidNotStayUp)))))"

text \<open>
  What stands where the login item of launchd goes: \<open>symlink_metadata\<close> and \<open>read_link\<close> of that path.
\<close>

datatype agent_link = NoLink | LinkTo string | OtherFile | LinkUnreadable string

definition agent_path :: "string \<Rightarrow> service_spec \<Rightarrow> string" where
  "agent_path home s = path_join (path_join home ''Library/LaunchAgents'') (sp_name s @ ''.plist'')"

definition agent_present :: "string \<Rightarrow> string \<Rightarrow> service_spec \<Rightarrow> agent_link \<Rightarrow> service_error + bool" where
  "agent_present cwd link s l =
     (case l of
        NoLink \<Rightarrow> Inr False
      | LinkUnreadable e \<Rightarrow> Inl (FileFailed e)
      | OtherFile \<Rightarrow> Inl (UnrelatedAgent link)
      | LinkTo t \<Rightarrow>
          if absolute cwd (path_join (or_else (path_parent link) []) t) = sp_file s then Inr True else Inl (UnrelatedAgent link))"

definition service_autostart ::
  "host \<Rightarrow> (byte list \<Rightarrow> byte list) \<Rightarrow> bool \<Rightarrow> bool \<Rightarrow> mg_env \<Rightarrow> (string \<Rightarrow> agent_link) \<Rightarrow> mg_config \<Rightarrow> install_paths \<Rightarrow> bool
     \<Rightarrow> unit service_act" where
  "service_autostart H digest mac log_exists E link_at c p enabled =
     do_then (service_prepare H digest mac log_exists c p) (\<lambda>s.
       if mac
       then (case me_home E of
               None \<Rightarrow> give_up HomeMissing
             | Some home \<Rightarrow>
                 let link = agent_path home s in
                 do_then (file_op H (MakeDirs (or_else (path_parent link) []))) (\<lambda>_.
                 case agent_present (me_cwd E) link s (link_at link) of
                   Inl e \<Rightarrow> give_up e
                 | Inr present \<Rightarrow>
                     do_then (if enabled \<and> \<not> present then file_op H (MakeLink (sp_file s) link) else give ()) (\<lambda>_.
                     do_then (if \<not> enabled \<and> present then file_op H (RemovePath link) else give ()) (\<lambda>_.
                     if enabled then do_then (service_target H s) (\<lambda>t. quietly (run_checked H ''launchctl'' [''enable'', t])) else give ()))))
       else do_then
              (if enabled then quietly (run_checked H ''systemctl'' [''--user'', ''enable'', sp_file s])
               else do_then (service_state H mac s) (\<lambda>st.
                      if sv_loaded st then quietly (run_checked H ''systemctl'' [''--user'', ''disable'', sp_name s]) else give ())) (\<lambda>_.
            quietly (run_checked H ''systemctl'' [''--user'', ''daemon-reload''])))"

section \<open>Health and logs\<close>

definition is_unspecified :: "ip_addr \<Rightarrow> bool" where
  "is_unspecified ip = (case ip of V4 a b c d \<Rightarrow> a = 0 \<and> b = 0 \<and> c = 0 \<and> d = 0 | V6 gs \<Rightarrow> gs = replicate 8 0)"

text \<open>A service bound to every interface is asked on the loopback of its family.\<close>

definition health_addr :: "socket_addr \<Rightarrow> socket_addr" where
  "health_addr a =
     (case a of
        SockV4 ip port \<Rightarrow> if is_unspecified ip then SockV4 (V4 127 0 0 1) port else a
      | SockV6 ip zone port \<Rightarrow> if is_unspecified ip then SockV6 (V6 [0, 0, 0, 0, 0, 0, 0, 1]) zone port else a)"

definition health_request :: "socket_addr \<Rightarrow> bool \<Rightarrow> string" where
  "health_request a daemon =
     ''GET '' @ (if daemon then ''/'' else ''/healthz'') @ '' HTTP/1.1'' @ [CR, NL] @ ''Host: '' @ show_socket_addr a @ [CR, NL]
     @ ''Connection: close'' @ [CR, NL, CR, NL]"

text \<open>\<open>split_whitespace\<close>, on characters; the second word of the status line decides.\<close>

fun words_of :: "nat list \<Rightarrow> nat list list" where
  "words_of [] = []"
| "words_of (c # s) =
     (if is_whitespace c then words_of s
      else case s of
             [] \<Rightarrow> [[c]]
           | d # _ \<Rightarrow> if is_whitespace d then [c] # words_of s
                      else (case words_of s of [] \<Rightarrow> [[c]] | w # ws \<Rightarrow> (c # w) # ws))"

definition healthy :: "bool \<Rightarrow> string \<Rightarrow> bool" where
  "healthy daemon line =
     (case drop 1 (words_of (chars line)) of
        [] \<Rightarrow> False
      | w # _ \<Rightarrow> (case parse_uint 16 (of_chars w) of
                    None \<Rightarrow> False
                  | Some n \<Rightarrow> (200 \<le> n \<and> n < 300) \<or> (daemon \<and> (n = 401 \<or> n = 403))))"

text \<open>\<open>fetch\<close> sends the request to the address and returns the first line, when there is one.\<close>

definition service_health :: "(socket_addr \<Rightarrow> string \<Rightarrow> string option) \<Rightarrow> string \<Rightarrow> bool \<Rightarrow> bool" where
  "service_health fetch bind daemon =
     (case parse_socket_addr bind of
        None \<Rightarrow> False
      | Some a \<Rightarrow> (case fetch (health_addr a) (health_request (health_addr a) daemon) of None \<Rightarrow> False | Some line \<Rightarrow> healthy daemon line))"

definition health_bind :: "mg_config \<Rightarrow> install_paths \<Rightarrow> string" where
  "health_bind c p =
     (if pt_scope p = ''daemon'' then ''127.0.0.1:'' @ decimal (or_else (map_option unat (mc_port c)) 3080) else or_else (mc_bind c) [])"

definition service_status ::
  "host \<Rightarrow> (byte list \<Rightarrow> byte list) \<Rightarrow> bool \<Rightarrow> (socket_addr \<Rightarrow> string \<Rightarrow> string option) \<Rightarrow> mg_config \<Rightarrow> install_paths \<Rightarrow> nat service_act" where
  "service_status H digest mac fetch c p =
     do_then (service_state H mac (spec_for digest p mac)) (\<lambda>st.
       give (if sv_running st \<and> service_health fetch (health_bind c p) (pt_scope p = ''daemon'') then 0 else 1))"

definition service_logs ::
  "host \<Rightarrow> (byte list \<Rightarrow> byte list) \<Rightarrow> bool \<Rightarrow> bool \<Rightarrow> install_paths \<Rightarrow> bool \<Rightarrow> unit service_act" where
  "service_logs H digest mac log_exists p follow =
     (let s = spec_for digest p mac in
      if mac \<and> \<not> log_exists then give ()
      else do_then (ask H (if mac then ShowProgram ''tail'' ([''-n'', ''100''] @ (if follow then [''-F''] else []) @ [sp_log s])
                           else ShowProgram ''journalctl'' [''--user'', ''-u'', sp_name s, ''-n'', ''100'',
                             if follow then ''-f'' else ''--no-pager''])) (\<lambda>r. case r of
             Refused e \<Rightarrow> give_up (CannotRun ''logs'' e)
           | Told ok out err \<Rightarrow> if ok then give () else give_up LogsFailed))"

section \<open>What the operations promise\<close>

text \<open>
  The calls on systemd that concern one component: its unit by name or by file, the reload of the units,
  and its own files.
\<close>

definition own_call :: "(byte list \<Rightarrow> byte list) \<Rightarrow> install_paths \<Rightarrow> host_call \<Rightarrow> bool" where
  "own_call digest p c =
     (let s = spec_for digest p False in
      case c of
        RunProgram program args \<Rightarrow>
          program = ''systemctl'' \<and>
          (args = [''--user'', ''daemon-reload''] \<or> args = [''--user'', ''show'', sp_name s, ''--property=ActiveState,MainPID,LoadState'']
           \<or> (length args = 3 \<and> hd args = ''--user'' \<and> last args \<in> {sp_name s, sp_file s}))
      | MakeDirs d \<Rightarrow> d = path_join (pt_root p) ''logs''
      | WriteFile f _ \<Rightarrow> f = sp_log s \<or> f = sp_file s
      | Sleep _ \<Rightarrow> True
      | _ \<Rightarrow> False)"

lemma only_pair [only_rules]: "(\<And>x y. only P (f x y)) \<Longrightarrow> only P (case q of (x, y) \<Rightarrow> f x y)"
  by (cases q) simp

lemma only_capture [only_rules]: "P (RunProgram program args) \<Longrightarrow> only P (capture H program args)"
  unfolding capture_def by (intro only_rules)

lemma only_run_checked [only_rules]: "P (RunProgram program args) \<Longrightarrow> only P (run_checked H program args)"
  unfolding run_checked_def by (intro only_rules)

lemma only_quietly [only_rules]: "only P m \<Longrightarrow> only P (quietly m)"
  unfolding quietly_def by (intro only_rules)

lemma only_file_op [only_rules]: "P c \<Longrightarrow> only P (file_op H c)"
  unfolding file_op_def by (intro only_rules)

lemma own_state: "only (own_call digest p) (service_state H False (spec_for digest p False))"
  unfolding service_state_def if_False
  by (intro only_rules) (simp add: own_call_def Let_def)

lemma own_prepare: "only (own_call digest p) (service_prepare H digest False le c p)"
  unfolding service_prepare_def Let_def by (intro only_rules) (simp_all add: own_call_def Let_def)

lemma prepared: "service_prepare H digest mac le c p h = (Inr s, h') \<Longrightarrow> s = spec_for digest p mac"
  by (auto simp: service_prepare_def Let_def do_then_Inr)

lemma prepare_then:
  "do_then (service_prepare H digest mac le c p) f = do_then (service_prepare H digest mac le c p) (\<lambda>_. f (spec_for digest p mac))"
  by (rule ext) (auto simp: do_then_def split: prod.split sum.split dest: prepared)

lemma own_start: "only (own_call digest p) (service_start H digest False le c p)"
  unfolding service_start_def if_False prepare_then [of H digest False le c p "\<lambda>s. do_then (service_state H False s) (f s)" for f]
  by (intro only_rules own_prepare own_state) (simp_all add: own_call_def Let_def)

lemma own_stop: "only (own_call digest p) (service_stop H clock False (spec_for digest p False))"
  unfolding service_stop_def if_False
  by (intro only_rules own_state) (simp_all add: own_call_def Let_def)

lemma own_autostart: "only (own_call digest p) (service_autostart H digest False le E link_at c p enabled)"
  unfolding service_autostart_def if_False
  by (subst prepare_then) (intro only_rules own_prepare own_state; simp add: own_call_def Let_def)

text \<open>The units of the two components are different, whatever the digest is.\<close>

lemma names_differ:
  assumes "(pt_scope p, pt_scope q) \<in> {(''relay'', ''daemon''), (''daemon'', ''relay'')}"
  shows "sp_name (spec_for digest p mac) \<noteq> sp_name (spec_for digest q mac)"
  using assms by (auto simp: spec_for_def Let_def)

text \<open>Every operation on the service of a component.\<close>

definition service_operations ::
  "host \<Rightarrow> (byte list \<Rightarrow> byte list) \<Rightarrow> (calls \<Rightarrow> nat) \<Rightarrow> bool \<Rightarrow> mg_env \<Rightarrow> (string \<Rightarrow> agent_link) \<Rightarrow> mg_config \<Rightarrow> install_paths
     \<Rightarrow> unit service_act list" where
  "service_operations H digest clock le E link_at c p =
     [service_start H digest False le c p, service_stop H clock False (spec_for digest p False),
      service_autostart H digest False le E link_at c p True, service_autostart H digest False le E link_at c p False]"


lemma start_runs:
  assumes "service_start H digest mac le c p h = (Inr (), h')"
  shows "\<exists>h1 st. service_state H mac (spec_for digest p mac) h1 = (Inr st, h') \<and> sv_running st"
proof -
  let ?s = "spec_for digest p mac"
  obtain h1 before h2 where b: "service_prepare H digest mac le c p h = (Inr ?s, h1)" "service_state H mac ?s h1 = (Inr before, h2)"
    using assms unfolding service_start_def do_then_Inr by (metis prepared)
  show ?thesis
  proof (cases "sv_running before")
    case True
    then have "h' = h2" using assms b by (simp add: service_start_def do_then_def)
    then show ?thesis using b(2) True by blast
  next
    case False
    obtain h3 after where "service_state H mac ?s h3 = (Inr after, h')" "sv_running after"
      using assms b False unfolding service_start_def by (auto simp: do_then_Inr split: if_splits)
    then show ?thesis by blast
  qed
qed

text \<open>
  A start that succeeds leaves a running service: the service manager was asked after everything else
  and said so; and a service that runs already is left alone.
\<close>

theorem start_leaves_it_running:
  assumes "service_start H digest mac le c p h = (Inr (), h')"
  shows "\<exists>h1 st. service_state H mac (spec_for digest p mac) h1 = (Inr st, h') \<and> sv_running st"
  using assms by (rule start_runs)

section \<open>The wait is bounded\<close>

definition clock_runs :: "(calls \<Rightarrow> nat) \<Rightarrow> bool" where
  "clock_runs clock \<longleftrightarrow> (\<forall>h c. clock h \<le> clock (h @ [c])) \<and> (\<forall>h n. clock h + n \<le> clock (h @ [Sleep n]))"

lemma wait_gone_ends:
  assumes "clock_runs clock"
  shows "0 < n \<Longrightarrow> deadline \<le> clock h + 100 * (n - 1) \<Longrightarrow> fst (wait_gone H clock deadline pid n h) \<noteq> Inl StillWaiting"
proof (induction n arbitrary: h)
  case (Suc n)
  let ?h = "h @ [RunProgram ''/bin/kill'' [''-0'', decimal pid]]"
  have c: "clock h \<le> clock ?h" and s: "clock ?h + 100 \<le> clock (?h @ [Sleep 100])"
    using assms unfolding clock_runs_def by blast+
  show ?case
  proof (cases "clock ?h < deadline")
    case True
    then have "0 < n" using Suc.prems(2) c by (cases n) simp_all
    moreover have "100 * n = 100 * (n - 1) + 100" using calculation by (cases n) simp_all
    ultimately have "fst (wait_gone H clock deadline pid n (?h @ [Sleep 100])) \<noteq> Inl StillWaiting"
      using Suc.IH Suc.prems(2) c s by simp
    then show ?thesis using True by (auto simp: capture_def do_then_def ask_def give_def give_up_def looking_def split: reply.split)
  next
    case False
    then show ?thesis by (auto simp: capture_def do_then_def ask_def give_def give_up_def looking_def split: reply.split)
  qed
qed simp

named_theorems not_waiting

lemma do_then_not [not_waiting]: "fst (m h) \<noteq> Inl e \<Longrightarrow> (\<And>x h'. fst (f x h') \<noteq> Inl e) \<Longrightarrow> fst (do_then m f h) \<noteq> Inl e"
  by (auto simp: do_then_def split: prod.splits sum.splits)

lemma act_not [not_waiting]:
  "fst (give x h) \<noteq> Inl e" "e' \<noteq> e \<Longrightarrow> fst (give_up e' h) \<noteq> Inl e" "fst (ask H c h) \<noteq> Inl e"
  "(b \<Longrightarrow> fst (m h) \<noteq> Inl e) \<Longrightarrow> (\<not> b \<Longrightarrow> fst (n h) \<noteq> Inl e) \<Longrightarrow> fst ((if b then m else n) h) \<noteq> Inl e"
  "(\<And>x y. q = (x, y) \<Longrightarrow> fst (g x y h) \<noteq> Inl e) \<Longrightarrow> fst ((case q of (x, y) \<Rightarrow> g x y) h) \<noteq> Inl e"
  "fst (t h h) \<noteq> Inl e \<Longrightarrow> fst (looking t h) \<noteq> Inl e"
  "(v = None \<Longrightarrow> fst (m h) \<noteq> Inl e) \<Longrightarrow> (\<And>x. v = Some x \<Longrightarrow> fst (f x h) \<noteq> Inl e) \<Longrightarrow>
    fst ((case v of None \<Rightarrow> m | Some x \<Rightarrow> f x) h) \<noteq> Inl e"
  "(\<And>d. r = Inl d \<Longrightarrow> fst (k d h) \<noteq> Inl e) \<Longrightarrow> (\<And>x. r = Inr x \<Longrightarrow> fst (l x h) \<noteq> Inl e) \<Longrightarrow>
    fst ((case r of Inl d \<Rightarrow> k d | Inr x \<Rightarrow> l x) h) \<noteq> Inl e"
  "(\<And>d. fst (u d h) \<noteq> Inl e) \<Longrightarrow> (\<And>ok out err. fst (w ok out err h) \<noteq> Inl e) \<Longrightarrow>
    fst ((case a of Refused d \<Rightarrow> u d | Told ok out err \<Rightarrow> w ok out err) h) \<noteq> Inl e"
  by (simp_all add: give_def give_up_def ask_def looking_def split: prod.split option.split sum.split reply.split)

lemma commands_not [not_waiting]:
  "fst (capture H program args h) \<noteq> Inl StillWaiting" "fst (run_checked H program args h) \<noteq> Inl StillWaiting"
  "fst (m h) \<noteq> Inl e \<Longrightarrow> fst (quietly m h) \<noteq> Inl e" "fst (service_target H s h) \<noteq> Inl StillWaiting"
  unfolding run_checked_def capture_def quietly_def service_target_def gui_def by (intro not_waiting; simp)+

lemma state_not [not_waiting]: "fst (service_state H mac s h) \<noteq> Inl StillWaiting"
proof -
  have "systemd_state ok out err \<noteq> Inl StillWaiting" for ok out err
    by (auto simp: systemd_state_def Let_def split: option.split)
  then show ?thesis unfolding service_state_def by (intro not_waiting) auto
qed

text \<open>
  Stopping is decided in time. However long a service takes to end and whatever the host answers,
  stopping it comes to an answer: the polls it makes in its forty seconds, one each tenth of a second at
  most, never run out, on either system, if the clock counts the time that is slept.
\<close>

theorem stop_is_decided_in_time:
  assumes "clock_runs clock"
  shows "fst (service_stop H clock mac s h) \<noteq> Inl StillWaiting"
proof -
  have "fst (wait_gone H clock (clock h + 40000) pid STOP_POLLS h) \<noteq> Inl StillWaiting" for pid h
    by (rule wait_gone_ends [OF assms]) (simp_all add: STOP_POLLS_def)
  then show ?thesis unfolding service_stop_def by (intro not_waiting)
qed

section \<open>A host for examples\<close>

text \<open>A clock that counts sleeping only, and a host on which every command works and the service runs.\<close>

definition slept :: "calls \<Rightarrow> nat" where
  "slept h = sum_list (map (\<lambda>c. case c of Sleep n \<Rightarrow> n | _ \<Rightarrow> 0) h)"

definition demo_show :: string where
  "demo_show = text_of_lines [''LoadState=loaded'', ''ActiveState=active'', ''MainPID=7'']"

definition demo_host :: host where
  "demo_host h c = (case c of RunProgram _ _ \<Rightarrow> Told True demo_show [] | _ \<Rightarrow> Told True [] [])"

definition demo_digest :: "byte list \<Rightarrow> byte list" where "demo_digest bs = replicate 32 0"

lemma demo_clock: "clock_runs slept"
  by (simp add: clock_runs_def slept_def)

lemma demo_running: "\<exists>st. systemd_state True demo_show [] = Inr st \<and> sv_running st \<and> sv_loaded st"
proof -
  have "unit_value ''LoadState='' demo_show = Some ''loaded''" "unit_value ''ActiveState='' demo_show = Some ''active''"
    "unit_value ''MainPID='' demo_show = Some ''7''" by code_simp+
  moreover have "parse_uint 32 ''7'' = Some 7" by (simp add: parse_uint_def Let_def)
  ultimately show ?thesis by (simp add: systemd_state_def nonzero_def)
qed

lemma demo_service_start: "\<exists>h'. service_start demo_host demo_digest False False demo_config demo_paths [] = (Inr (), h') \<and> h' \<noteq> []"
proof -
  obtain st where st: "systemd_state True demo_show [] = Inr st" "sv_running st" using demo_running by blast
  then show ?thesis
    by (simp add: service_start_def service_prepare_def Let_def file_op_def service_state_def capture_def demo_host_def do_then_def
        ask_def give_def)
qed


theorem start_leaves_it_running_witness:
  "\<exists>h st. service_state demo_host False (spec_for demo_digest demo_paths False) h = (Inr st, snd (service_start demo_host demo_digest False False demo_config demo_paths [])) \<and> sv_running st"
proof -
  obtain h' where h: "service_start demo_host demo_digest False False demo_config demo_paths [] = (Inr (), h')" using demo_service_start by blast
  show ?thesis using start_leaves_it_running [OF h] h by simp
qed

theorem stop_is_decided_in_time_witness:
  "fst (service_stop demo_host slept True (spec_for demo_digest demo_paths True) []) \<noteq> Inl StillWaiting"
  by (rule stop_is_decided_in_time [OF demo_clock])

end
