(* ===== verification/Launch.thy ===== *)
theory Launch
  imports Service_Unit Daemon_Cli
begin

text \<open>
  The tool's entry point, \<open>main.rs\<close> of the command-line crate: which component a name and its arguments
  select, what is printed, managed or run, and the second stage that runs a component in the process that
  holds its saved settings. Composition: the command line of an installed service, written by the theory of
  its unit, arrives at the daemon's own parser and at the relay's configuration as exactly the settings
  that were saved.
\<close>

datatype bundle_file = NoBundle | BadBundle | Bundle nat "string list"
datatype config_file = ConfigMissing | ConfigUnreadable | ConfigHolds mg_config

text \<open>
  What the tool finds of itself: the features it was compiled with, the manifest beside it, whether another
  program is installed for a component at a path, the configuration at a path, and the client directory of
  an unpacked package.
\<close>

record launcher =
  ln_relay :: bool
  ln_daemon :: bool
  ln_bundle :: bundle_file
  ln_other :: "string \<Rightarrow> bool"
  ln_config :: "string \<Rightarrow> config_file"
  ln_client :: "string option"
  ln_env :: mg_env

datatype launch_error =
    BadManifest
  | BadComponents
  | Unavailable string "string list"
  | IncompleteRuntime
  | WrongRole string string
  | UnknownComponent string
  | UnknownComponentCommand string string
  | BadArgs args_error
  | AssetInMixed
  | Managing manage_error
  | PrefixNeedsDir
  | SavedUnreadable
  | HasBeenUninstalled
  | NoInstallation string
  | RelaySettings relay_config_error
  | RelayNotRun
  | RelayOptionNeedsValue
  | RelayBindNotAnAddress string
  | UnknownRelayOption string

definition compiled_components :: "launcher \<Rightarrow> string list" where
  "compiled_components L = map snd (filter fst [(ln_relay L, ''relay''), (ln_daemon L, ''daemon'')])"

definition components :: "launcher \<Rightarrow> launch_error + string list" where
  "components L =
     (case ln_bundle L of
        NoBundle \<Rightarrow> Inr (compiled_components L)
      | BadBundle \<Rightarrow> Inl BadManifest
      | Bundle fmt cs \<Rightarrow>
          if fmt = 1 \<and> cs \<noteq> [] \<and> list_all (\<lambda>s. s = ''relay'' \<or> s = ''daemon'') cs
          then Inr (filter (\<lambda>s. s \<in> set cs) (compiled_components L)) else Inl BadComponents)"

definition unavailable :: "launcher \<Rightarrow> string \<Rightarrow> launch_error + unit" where
  "unavailable L scope =
     and_then (components L) (\<lambda>included.
       ensure (scope \<in> set (compiled_components L) \<and> scope \<in> set included) (Unavailable scope included))"

definition DASH :: string where "DASH = [CHR 0xE2, CHR 0x80, CHR 0x94]"

definition role_of :: "string \<Rightarrow> string option" where
  "role_of name =
     (if name \<in> {''drdsh-relay'', ''drdsh-relayctl'', ''drdsh'' @ DASH @ ''relay''} then Some ''relay''
      else if name \<in> {''drdsh-daemon'', ''drdsh-daemonctl'', ''drdsh'' @ DASH @ ''daemon''} then Some ''daemon''
      else None)"

section \<open>The second stage\<close>

fun relay_options :: "string list \<Rightarrow> relay_config \<Rightarrow> launch_error + relay_config" where
  "relay_options [] c = Inr c"
| "relay_options [key] c = Inl RelayOptionNeedsValue"
| "relay_options (key # v # rest) c =
     (if key = ''--bind''
      then (case parse_socket_addr v of None \<Rightarrow> Inl (RelayBindNotAnAddress v) | Some a \<Rightarrow> relay_options rest (c\<lparr>rc_bind := a\<rparr>))
      else if key = ''--client-dir'' then relay_options rest (c\<lparr>rc_client_dir := Some v\<rparr>)
      else Inl (UnknownRelayOption key))"

datatype component_start = DaemonStarts cli_action | RelayStarts relay_config

definition runtime :: "launcher \<Rightarrow> (string \<Rightarrow> string option) \<Rightarrow> string \<Rightarrow> string list \<Rightarrow> launch_error + component_start" where
  "runtime L var scope args =
     and_then (unavailable L scope) (\<lambda>_.
       if scope = ''daemon'' \<and> ln_daemon L then Inr (DaemonStarts (run_with_args args))
       else if scope = ''relay'' \<and> ln_relay L then
         and_then (map_err RelaySettings (from_env var)) (\<lambda>c.
           case args of
             verb # rest \<Rightarrow> if verb = ''run'' then and_then (relay_options rest c) (\<lambda>c. Inr (RelayStarts c)) else Inl RelayNotRun
           | [] \<Rightarrow> Inl RelayNotRun)
       else Inl (UnknownComponent scope))"

section \<open>The first stage\<close>

text \<open>What a run of the tool comes to; \<open>RunStage\<close> is the second stage with its variables and directory.\<close>

datatype launched =
    PrintVersion "string list"
  | PrintToolHelp "string list"
  | PrintInstallHelp
  | PrintScopeVersion string
  | PrintScopeHelp string
  | RunOther string "string list"
  | ManageEach "(string \<times> mg_args) list"
  | RunStage "string list" "(string, string) btree" "string option"
  | HasStarted component_start

abbreviation is_help :: "string \<Rightarrow> bool" where "is_help a \<equiv> a = ''--help'' \<or> a = ''-h''"
abbreviation is_version :: "string \<Rightarrow> bool" where "is_version a \<equiv> a = ''--version'' \<or> a = ''version''"

definition MANAGED :: "string list" where
  "MANAGED = [''install'', ''update'', ''uninstall'', ''start'', ''stop'', ''restart'', ''status'', ''logs'', ''enable'', ''disable'']"

definition DAEMON_ACTIONS :: "string list" where
  "DAEMON_ACTIONS = [''pair'', ''pair-as-device'', ''doctor'', ''devices'', ''audit'', ''crashes'', ''room-key'', ''version'']"

text \<open>The saved configuration of a prefix, read and checked.\<close>

definition config_read :: "launcher \<Rightarrow> install_paths \<Rightarrow> launch_error + mg_config option" where
  "config_read L p =
     (case ln_config L (pt_config p) of
        ConfigMissing \<Rightarrow> Inr None
      | ConfigUnreadable \<Rightarrow> Inl SavedUnreadable
      | ConfigHolds c \<Rightarrow> map_err (\<lambda>e. Managing (BadConfig e)) (and_then (validate_config (me_cwd (ln_env L)) c p) (\<lambda>_. Inr (Some c))))"

text \<open>\<open>make_config\<close> with the configuration it reads.\<close>

definition made_config :: "launcher \<Rightarrow> string \<Rightarrow> mg_args \<Rightarrow> launch_error + install_paths \<times> mg_config" where
  "made_config L scope a =
     and_then (map_err Managing (install_prefix (ln_env L) (ma_values a ''prefix''))) (\<lambda>given.
     and_then (config_read L (paths_new (me_cwd (ln_env L)) given scope)) (\<lambda>previous.
       map_err Managing (make_config (ln_env L) scope a previous)))"

definition launch_install :: "launcher \<Rightarrow> string list \<Rightarrow> launch_error + launched" where
  "launch_install L args =
     and_then (map_err BadArgs (parse_args args)) (\<lambda>a.
       if ma_help a then Inr PrintInstallHelp
       else if ma_asset a \<noteq> None then Inl AssetInMixed
       else and_then (components L) (\<lambda>included.
         case included of
           [scope] \<Rightarrow> Inr (ManageEach [(scope, a)])
         | _ \<Rightarrow> and_then (if ln_daemon L then and_then (made_config L ''daemon'' a) (\<lambda>_. Inr ()) else Inr ()) (\<lambda>_.
                  Inr (ManageEach (map (\<lambda>scope. (scope, for_scope scope a)) included)))))"

text \<open>The prefix option is taken out of the arguments, with its value.\<close>

definition take_prefix :: "string list \<Rightarrow> launch_error + string option \<times> string list" where
  "take_prefix args =
     (case dropWhile (\<lambda>a. a \<noteq> ''--prefix'') args of
        [] \<Rightarrow> Inr (None, args)
      | [_] \<Rightarrow> Inl PrefixNeedsDir
      | _ # v # rest \<Rightarrow> Inr (Some v, takeWhile (\<lambda>a. a \<noteq> ''--prefix'') args @ rest))"

text \<open>Saved arguments are added where the command line does not name them.\<close>

definition fill_args :: "(string \<times> string) list \<Rightarrow> string list \<Rightarrow> string list" where
  "fill_args saved args = foldl (\<lambda>args (k, v). if k \<in> set args then args else args @ [k, v]) args saved"

definition launch_stage :: "launcher \<Rightarrow> string \<Rightarrow> string list \<Rightarrow> launch_error + launched" where
  "launch_stage L scope args =
     and_then (take_prefix args) (\<lambda>(prefix, args).
     and_then (map_err Managing (install_prefix (ln_env L) prefix)) (\<lambda>given.
       let p = paths_new (me_cwd (ln_env L)) given scope in
       and_then (config_read L p) (\<lambda>saved.
         case saved of
           Some c \<Rightarrow>
             if \<not> config_installed c then Inl HasBeenUninstalled
             else Inr (RunStage (''__runtime'' # scope # (if scope = ''daemon'' then fill_args (daemon_args c (hd args)) args else args))
                    (environment c p) (Some (config_cwd c p)))
         | None \<Rightarrow>
             if prefix \<noteq> None then Inl (NoInstallation (pt_prefix p))
             else Inr (RunStage (''__runtime'' # scope # args)
                    (if scope = ''relay'' then put_some ''DSH_RELAY_CLIENT_DIR'' (ln_client L) [] else []) None))))"

definition launch_component :: "launcher \<Rightarrow> bool \<Rightarrow> string \<Rightarrow> string list \<Rightarrow> launch_error + launched" where
  "launch_component L aliased scope args =
     (if scope \<noteq> ''relay'' \<and> scope \<noteq> ''daemon'' then Inl (UnknownComponent scope)
      else
        (let other = (case me_installed (ln_env L) of
                        None \<Rightarrow> None
                      | Some prefix \<Rightarrow> Some (path_join prefix (''lib/dr.dsh/'' @ scope @ ''/bin/drdsh'')))
         in if \<not> aliased \<and> other \<noteq> None \<and> ln_other L (the other) then Inr (RunOther (the other) (scope # args))
            else and_then (unavailable L scope) (\<lambda>_.
              if args \<noteq> [] \<and> is_version (hd args) then Inr (PrintScopeVersion scope)
              else if args = [] \<or> is_help (hd args) then Inr (PrintScopeHelp scope)
              else if hd args \<in> set MANAGED then
                if list_ex is_help args then Inr (PrintScopeHelp scope)
                else map_err BadArgs (and_then (parse_args args) (\<lambda>a. Inr (ManageEach [(scope, a)])))
              else if \<not> (hd args = ''run'' \<or> scope = ''daemon'' \<and> hd args \<in> set DAEMON_ACTIONS)
              then Inl (UnknownComponentCommand scope (hd args))
              else if list_ex is_help args then Inr (PrintScopeHelp scope)
              else launch_stage L scope args)))"

text \<open>An alias puts its component first; an explicit other component is refused before anything is read.\<close>

definition with_role :: "string option \<Rightarrow> string \<Rightarrow> string list \<Rightarrow> launch_error + string list" where
  "with_role role name args =
     (case role of
        None \<Rightarrow> Inr args
      | Some scope \<Rightarrow>
          if args \<noteq> [] \<and> (hd args = ''relay'' \<or> hd args = ''daemon'')
          then (if hd args = scope then Inr args else Inl (WrongRole name (hd args)))
          else Inr (scope # args))"

definition launch :: "launcher \<Rightarrow> (string \<Rightarrow> string option) \<Rightarrow> string \<Rightarrow> string list \<Rightarrow> launch_error + launched" where
  "launch L var name args =
     and_then (case role_of name of Some scope \<Rightarrow> unavailable L scope | None \<Rightarrow> Inr ()) (\<lambda>_.
       if args \<noteq> [] \<and> hd args = ''__runtime'' then
         if length args < 3 then Inl IncompleteRuntime
         else and_then (runtime L var (args ! 1) (drop 2 args)) (\<lambda>s. Inr (HasStarted s))
       else and_then (with_role (role_of name) name args) (\<lambda>args.
         if args \<noteq> [] \<and> is_version (hd args) then and_then (components L) (\<lambda>cs. Inr (PrintVersion cs))
         else if args = [] \<or> is_help (hd args) then and_then (components L) (\<lambda>cs. Inr (PrintToolHelp cs))
         else if hd args = ''install'' then launch_install L args
         else launch_component L (role_of name \<noteq> None) (hd args) (tl args)))"

section \<open>From the unit to the component\<close>

text \<open>An installation whose own copy of the tool is running, with its saved configuration in place.\<close>

definition is_installed :: "launcher \<Rightarrow> mg_config \<Rightarrow> install_paths \<Rightarrow> string \<Rightarrow> bool" where
  "is_installed L c p scope \<longleftrightarrow>
     p = paths_new (me_cwd (ln_env L)) (pt_prefix p) scope \<and> me_installed (ln_env L) = Some (pt_prefix p)
     \<and> \<not> ln_other L (path_join (pt_prefix p) (''lib/dr.dsh/'' @ scope @ ''/bin/drdsh''))
     \<and> unavailable L scope = Inr () \<and> ln_config L (pt_config p) = ConfigHolds c
     \<and> validate_config (me_cwd (ln_env L)) c p = Inr () \<and> config_installed c"

lemma paths_scope: "pt_scope (paths_new cwd given scope) = scope"
  by (simp add: paths_new_def Let_def)

lemma installed_scope: "is_installed L c p scope \<Longrightarrow> pt_scope p = scope"
  by (metis is_installed_def paths_scope)

lemma drdsh_has_no_role [simp]: "role_of ''drdsh'' = None"
  by (simp add: role_of_def DASH_def)

lemma launch_plain:
  assumes "scope = ''relay'' \<or> scope = ''daemon''"
  shows "launch L var ''drdsh'' (scope # args) = launch_component L False scope args"
    and "2 \<le> length (scope # args) \<Longrightarrow> launch L var ''drdsh'' (''__runtime'' # scope # args)
      = and_then (runtime L var scope args) (\<lambda>s. Inr (HasStarted s))"
  using assms by (auto simp: launch_def with_role_def)

lemma stage_of_installed:
  assumes "is_installed L c p scope" and "scope = ''relay'' \<or> scope = ''daemon''"
    and "\<forall>a \<in> set args. a \<notin> {''--help'', ''-h'', ''--prefix''}"
  shows "launch L var ''drdsh'' (scope # ''run'' # args)
    = Inr (RunStage (''__runtime'' # scope # (if scope = ''daemon'' then fill_args (daemon_args c ''run'') (''run'' # args) else ''run'' # args))
        (environment c p) (Some (config_cwd c p)))"
proof -
  have "config_read L p = Inr (Some c)" using assms(1) by (simp add: config_read_def is_installed_def)
  moreover have "take_prefix (''run'' # args) = Inr (None, ''run'' # args)"
  proof -
    have "dropWhile (\<lambda>a. a \<noteq> ''--prefix'') args = []" using assms(3) by (auto simp: dropWhile_eq_Nil_conv)
    then show ?thesis by (simp add: take_prefix_def del: dropWhile_eq_Nil_conv)
  qed
  moreover have i: "me_installed (ln_env L) = Some (pt_prefix p)" "paths_new (me_cwd (ln_env L)) (pt_prefix p) scope = p"
      "config_installed c" "\<not> ln_other L (path_join (pt_prefix p) (''lib/dr.dsh/'' @ scope @ ''/bin/drdsh''))"
    using assms(1) unfolding is_installed_def by metis+
  ultimately have "launch_stage L scope (''run'' # args)
    = Inr (RunStage (''__runtime'' # scope # (if scope = ''daemon'' then fill_args (daemon_args c ''run'') (''run'' # args) else ''run'' # args))
        (environment c p) (Some (config_cwd c p)))"
    by (simp add: launch_stage_def install_prefix_def)
  moreover have "\<not> list_ex is_help args" using assms(3) by (auto simp: list_ex_iff)
  moreover have "unavailable L scope = Inr ()" using assms(1) by (simp add: is_installed_def)
  ultimately show ?thesis using assms(2) i
    by (auto simp: launch_plain launch_component_def MANAGED_def)
qed

lemma parse_run_args:
  assumes "n < 65536"
  shows "parse_command [''run'', ''--relay'', relay, ''--port'', decimal n]
    = Inr (RunDaemon \<lparr>ro_config = None, ro_relay = Some relay, ro_port = Some n, ro_room_key = None, ro_attach = None,
        ro_attach_token = None\<rparr>)"
  using assms by (simp add: parse_command_def VALUE_FLAGS_def set_value_def number_flag_def no_flags_def command_of_def
      run_options_of_def parse_uint_decimal)

lemma decimal_is_no_option: "decimal n \<notin> {''--help'', ''-h'', ''--prefix'', ''--relay'', ''--port''}"
proof -
  have "CHR ''-'' \<notin> set (decimal n)" by (rule decimal_lacks) simp
  then show ?thesis by auto
qed

lemma relay_is_no_option: "relay_authority relay \<noteq> None \<Longrightarrow> relay \<notin> {''--help'', ''-h'', ''--prefix'', ''--port'', ''--relay''}"
  by (auto simp: relay_authority_def strip_prefix_Some split: option.splits)

text \<open>
  C15. An installed daemon runs as it was configured. The command line that the unit of an installed daemon
  carries, given to its own copy of the tool, enters the second stage with the saved variables and
  directory; the second stage starts the daemon with the configured relay and port and no other option.
\<close>

theorem installed_daemon_runs_as_configured:
  assumes "is_installed L c p ''daemon''"
  shows "\<exists>args relay port. mc_relay c = Some relay \<and> mc_port c = Some port
    \<and> launch L var ''drdsh'' (tl (service_program c p)) = Inr (RunStage args (environment c p) (Some (config_cwd c p)))
    \<and> launch L var' ''drdsh'' args = Inr (HasStarted (DaemonStarts (Perform (RunDaemon
        \<lparr>ro_config = None, ro_relay = Some relay, ro_port = Some (unat port), ro_room_key = None, ro_attach = None,
         ro_attach_token = None\<rparr>))))"
proof -
  have scope: "pt_scope p = ''daemon''" using assms by (rule installed_scope)
  have "validate_config (me_cwd (ln_env L)) c p = Inr ()" using assms by (simp add: is_installed_def)
  then obtain relay port where c: "mc_relay c = Some relay" "relay_authority relay \<noteq> None" "mc_port c = Some port"
    using validated_daemon [of "me_cwd (ln_env L)" c p] scope by auto
  let ?n = "unat port"
  let ?args = "[''--relay'', relay, ''--port'', decimal ?n]"
  have saved: "daemon_args c ''run'' = [(''--relay'', relay), (''--port'', decimal ?n)]" using c by (simp add: daemon_args_def split: option.split)
  have no: "relay \<notin> {''--help'', ''-h'', ''--prefix'', ''--port'', ''--relay''}" using relay_is_no_option c(2) by blast
  have dec: "decimal ?n \<notin> {''--help'', ''-h'', ''--prefix'', ''--relay'', ''--port''}" by (rule decimal_is_no_option)
  have program: "tl (service_program c p) = ''daemon'' # ''run'' # ?args" using scope saved by (simp add: service_program_def)
  have fill: "fill_args (daemon_args c ''run'') (''run'' # ?args) = ''run'' # ?args" by (simp add: fill_args_def saved)
  have stage: "launch L var ''drdsh'' (tl (service_program c p))
      = Inr (RunStage (''__runtime'' # ''daemon'' # ''run'' # ?args) (environment c p) (Some (config_cwd c p)))"
    unfolding program by (subst stage_of_installed [OF assms]) (use no dec fill in auto)
  have start: "run_with_args (''run'' # ?args) = Perform (RunDaemon
        \<lparr>ro_config = None, ro_relay = Some relay, ro_port = Some ?n, ro_room_key = None, ro_attach = None, ro_attach_token = None\<rparr>)"
  proof -
    have "?n < 65536" using unat_lt [of port] by simp
    moreover have "\<not> (''--help'' \<in> set (''run'' # ?args) \<or> ''-h'' \<in> set (''run'' # ?args))" using no dec by auto
    ultimately show ?thesis unfolding run_with_args_def by (simp only: parse_run_args if_False sum.case)
  qed
  have "unavailable L ''daemon'' = Inr ()" using assms by (simp add: is_installed_def)
  then have "ln_daemon L" by (auto simp: unavailable_def and_then_Inr_iff compiled_components_def split: if_splits)
  with \<open>unavailable L ''daemon'' = Inr ()\<close> have "runtime L var' ''daemon'' (''run'' # ?args) = Inr (DaemonStarts (run_with_args (''run'' # ?args)))"
    by (simp add: runtime_def)
  then have "launch L var' ''drdsh'' (''__runtime'' # ''daemon'' # ''run'' # ?args) = Inr (HasStarted (DaemonStarts (run_with_args (''run'' # ?args))))"
    by (subst launch_plain(2)) simp_all
  then show ?thesis using stage start c by auto
qed

text \<open>
  C16. An installed relay runs as it was configured. The command line of its unit enters the second stage
  with the saved variables; if no other variable of the relay is set, the relay starts on the configured
  address, with the installed client and the default bounds, and nothing of it fails to parse.
\<close>

theorem installed_relay_runs_as_configured:
  assumes "is_installed L c p ''relay''"
  shows "\<exists>args bind addr. mc_bind c = Some bind \<and> parse_socket_addr bind = Some addr
    \<and> launch L var ''drdsh'' (tl (service_program c p)) = Inr (RunStage args (environment c p) (Some (config_cwd c p)))
    \<and> launch L (bt_get (environment c p)) ''drdsh'' args = Inr (HasStarted (RelayStarts
        (relay_config_default\<lparr>rc_bind := addr, rc_client_dir := Some (path_join (pt_root p) ''client'')\<rparr>)))"
proof -
  have scope: "pt_scope p = ''relay''" using assms by (rule installed_scope)
  have v: "validate_config (me_cwd (ln_env L)) c p = Inr ()" using assms by (simp add: is_installed_def)
  then obtain bind addr where c: "mc_bind c = Some bind" "parse_socket_addr bind = Some addr"
    using validated_relay [of "me_cwd (ln_env L)" c p] scope by auto
  have mc: "mc_scope c = ''relay''" using validated_scope [OF v] scope by simp
  have program: "tl (service_program c p) = [''relay'', ''run'']" using scope by (simp add: service_program_def)
  have stage: "launch L var ''drdsh'' (tl (service_program c p))
      = Inr (RunStage [''__runtime'', ''relay'', ''run''] (environment c p) (Some (config_cwd c p)))"
    unfolding program by (subst stage_of_installed [OF assms]) auto
  have env: "bt_get (environment c p) k = (if k = ''DSH_RELAY_CLIENT_DIR'' then Some (path_join (pt_root p) ''client'')
      else if k = ''DSH_RELAY_BIND'' then Some bind else if k = ''RUST_LOG'' then Some ''info'' else None)" for k
    by (simp add: environment_def mc c Let_def bt_get_put bt_ok_put)
  have "from_env (bt_get (environment c p)) = Inr (relay_config_default\<lparr>rc_bind := addr, rc_client_dir := Some (path_join (pt_root p) ''client'')\<rparr>)"
    by (simp add: from_env_def env c keepalive_from_def rooms_from_def)
  moreover have u: "unavailable L ''relay'' = Inr ()" using assms by (simp add: is_installed_def)
  moreover have "ln_relay L" using u by (auto simp: unavailable_def and_then_Inr_iff compiled_components_def split: if_splits)
  ultimately have "runtime L (bt_get (environment c p)) ''relay'' [''run''] = Inr (RelayStarts
        (relay_config_default\<lparr>rc_bind := addr, rc_client_dir := Some (path_join (pt_root p) ''client'')\<rparr>))"
    by (simp add: runtime_def)
  then have "launch L (bt_get (environment c p)) ''drdsh'' [''__runtime'', ''relay'', ''run''] = Inr (HasStarted (RelayStarts
        (relay_config_default\<lparr>rc_bind := addr, rc_client_dir := Some (path_join (pt_root p) ''client'')\<rparr>)))"
    by (subst launch_plain(2)) simp_all
  then show ?thesis using stage c by blast
qed

section \<open>Roles and options\<close>

definition concerns :: "string \<Rightarrow> launched \<Rightarrow> bool" where
  "concerns scope r =
     (case r of
        PrintScopeVersion s \<Rightarrow> s = scope
      | PrintScopeHelp s \<Rightarrow> s = scope
      | ManageEach ms \<Rightarrow> map fst ms = [scope]
      | RunStage args _ _ \<Rightarrow> take 2 args = [''__runtime'', scope]
      | _ \<Rightarrow> False)"

lemma launch_stage_concerns: "launch_stage L scope args = Inr r \<Longrightarrow> concerns scope r"
  by (auto simp: launch_stage_def and_then_Inr_iff Let_def concerns_def split: option.splits if_splits)

lemma launch_component_concerns: "launch_component L True scope args = Inr r \<Longrightarrow> concerns scope r"
  by (auto simp: launch_component_def and_then_Inr_iff map_err_Inr_iff Let_def split: if_splits intro: launch_stage_concerns)
    (simp_all add: concerns_def)

lemma unavailable_compiled: "unavailable L scope = Inr () \<Longrightarrow> scope \<in> set (compiled_components L)"
  by (auto simp: unavailable_def and_then_Inr_iff split: if_splits)


text \<open>
  Options of the command line win over saved ones. The arguments come first, unchanged; what is added are
  saved options the command line does not name, and every saved option is named in the end.
\<close>

theorem explicit_options_win:
  "\<exists>added. fill_args saved args = args @ concat (map (\<lambda>(k, v). [k, v]) added) \<and> set added \<subseteq> set saved
     \<and> (\<forall>e \<in> set added. fst e \<notin> set args) \<and> (\<forall>e \<in> set saved. fst e \<in> set (fill_args saved args))"
proof (induction saved rule: rev_induct)
  case Nil
  show ?case by (intro exI [of _ "[]"]) (simp add: fill_args_def)
next
  case (snoc e saved)
  then obtain added where IH: "fill_args saved args = args @ concat (map (\<lambda>(k, v). [k, v]) added)" "set added \<subseteq> set saved"
      "\<forall>e \<in> set added. fst e \<notin> set args" "\<forall>e \<in> set saved. fst e \<in> set (fill_args saved args)" by blast
  obtain k v where e: "e = (k, v)" by (cases e)
  have step: "fill_args (saved @ [e]) args = (if k \<in> set (fill_args saved args) then fill_args saved args else fill_args saved args @ [k, v])"
    by (simp add: fill_args_def e)
  show ?case
  proof (cases "k \<in> set (fill_args saved args)")
    case True
    then show ?thesis using IH step e by (intro exI [of _ added]) auto
  next
    case False
    then show ?thesis using IH step e by (intro exI [of _ "added @ [e]"]) auto
  qed
qed

section \<open>Examples\<close>

definition demo_launcher :: launcher where
  "demo_launcher =
     \<lparr>ln_relay = True, ln_daemon = True, ln_bundle = Bundle 1 [''relay'', ''daemon''], ln_other = (\<lambda>_. False),
      ln_config = (\<lambda>f. if f = pt_config demo_paths then ConfigHolds (demo_config\<lparr>mc_components := [''daemon'']\<rparr>) else ConfigMissing),
      ln_client = None, ln_env = demo_env\<rparr>"

theorem explicit_options_win_witness:
  "set (fill_args [(''--relay'', ''ws://a''), (''--port'', ''80'')] [''run'', ''--port'', ''81'']) \<supseteq> {''--relay'', ''--port''}"
  using explicit_options_win [of "[(''--relay'', ''ws://a''), (''--port'', ''80'')]" "[''run'', ''--port'', ''81'']"] by auto


lemma demo_installed: "is_installed demo_launcher (demo_config\<lparr>mc_components := [''daemon'']\<rparr>) demo_paths ''daemon''"
proof -
  have "unavailable demo_launcher ''daemon'' = Inr ()"
    by (simp add: unavailable_def components_def compiled_components_def demo_launcher_def)
  then show ?thesis
    by (simp add: is_installed_def demo_launcher_def demo_env_def demo_paths_new demo_valid config_installed_def)
      (simp add: demo_paths_def demo_config_def demo_paths_new [unfolded demo_paths_def])
qed

theorem installed_daemon_runs_as_configured_witness:
  "\<exists>args. launch demo_launcher (\<lambda>_. None) ''drdsh'' args = Inr (HasStarted (DaemonStarts (Perform (RunDaemon
      \<lparr>ro_config = None, ro_relay = Some ''wss://r.example/'', ro_port = Some 4000, ro_room_key = None, ro_attach = None,
       ro_attach_token = None\<rparr>))))"
  using installed_daemon_runs_as_configured [OF demo_installed, of "\<lambda>_. None" "\<lambda>_. None"] by (auto simp: demo_config_def)

definition demo_relay_paths :: install_paths where
  "demo_relay_paths = paths_new ''/w'' ''/h/.local'' ''relay''"

definition demo_relay_config :: mg_config where
  "demo_relay_config =
     (fresh_config demo_relay_paths ''/w'')\<lparr>mc_components := [''relay'', ''client''], mc_bind := Some ''0.0.0.0:9000''\<rparr>"

definition demo_relay_launcher :: launcher where
  "demo_relay_launcher = demo_launcher\<lparr>ln_config := \<lambda>_. ConfigHolds demo_relay_config\<rparr>"

lemma demo_bind: "parse_socket_addr ''0.0.0.0:9000'' = Some (SockV4 (V4 0 0 0 0) 9000)"
proof -
  have d: "decimal 9000 = ''9000''" "decimal 0 = ''0''"
    by (simp_all add: decimal.simps [of 9000] decimal.simps [of 900] decimal.simps [of 90] decimal.simps [of 9] decimal.simps [of 0])
  have "show_socket_addr (SockV4 (V4 0 0 0 0) 9000) = ''0.0.0.0:9000''" by (simp add: show_socket_addr_def show_ip_def d)
  then show ?thesis using socket_round_trip [of 0 0 0 0 9000] by simp
qed

lemma demo_relay_installed: "is_installed demo_relay_launcher demo_relay_config demo_relay_paths ''relay''"
proof -
  have prefix: "pt_prefix demo_relay_paths = ''/h/.local''" "pt_scope demo_relay_paths = ''relay''"
    by (simp_all add: demo_relay_paths_def paths_new_def Let_def demo_dirs)
  have "unavailable demo_relay_launcher ''relay'' = Inr ()"
    by (simp add: unavailable_def components_def compiled_components_def demo_relay_launcher_def demo_launcher_def)
  moreover have "validate_config ''/w'' demo_relay_config demo_relay_paths = Inr ()"
    by (simp add: validate_config_def validate_relay_def demo_relay_config_def fresh_config_def prefix demo_dirs config_paths_def
        is_absolute_def one_line_def partner_def demo_bind sock_port_def)
  ultimately show ?thesis
    by (simp add: is_installed_def prefix demo_relay_paths_def [symmetric] demo_relay_launcher_def demo_launcher_def demo_env_def)
      (simp add: config_installed_def demo_relay_config_def fresh_config_def prefix)
qed

theorem installed_relay_runs_as_configured_witness:
  "\<exists>args var. launch demo_relay_launcher var ''drdsh'' args = Inr (HasStarted (RelayStarts
     (relay_config_default\<lparr>rc_bind := SockV4 (V4 0 0 0 0) 9000, rc_client_dir := Some (path_join (pt_root demo_relay_paths) ''client'')\<rparr>)))"
proof -
  have "mc_bind demo_relay_config = Some ''0.0.0.0:9000''" by (simp add: demo_relay_config_def)
  then show ?thesis
    using installed_relay_runs_as_configured [OF demo_relay_installed, of "\<lambda>_. None"] demo_bind by fastforce
qed

end
