(* ===== verification/Install_Files.thy ===== *)
theory Install_Files
  imports Fs Slices
begin

text \<open>
  File operations of an installation, \<open>files.rs\<close> of the command-line tool, over the file system of
  theory Fs: an artifact, a file or a whole tree, is one entry. The process id is an argument. Shown: an
  atomic write leaves the old or the new contents, a promotion never loses what it replaces, and a
  quoted text is one word of a shell.
\<close>

datatype files_error =
    NoParent string
  | CannotMakeDir io_error
  | CannotStage io_error
  | WriteFailed io_error
  | StaleBackup string
  | ReplaceFailed io_error
  | RestoreFailed io_error

definition mkdir :: "string \<Rightarrow> fs \<Rightarrow> files_error + unit" where
  "mkdir d fs = map_err CannotMakeDir (create_dir_all d fs)"

definition parent_made :: "string \<Rightarrow> fs \<Rightarrow> files_error + unit" where
  "parent_made p fs = (case path_parent p of None \<Rightarrow> Inl (NoParent p) | Some d \<Rightarrow> mkdir d fs)"

text \<open>The temporary file is created anew, written, renamed, and removed whatever happened.\<close>

definition atomic_write :: "nat \<Rightarrow> string \<Rightarrow> string \<Rightarrow> fs \<Rightarrow> (files_error + unit) \<times> fs" where
  "atomic_write pid p contents fs =
     (case parent_made p fs of
        Inl e \<Rightarrow> (Inl e, fs)
      | Inr _ \<Rightarrow>
          (let temporary = with_extension p (decimal pid @ ''.tmp'') in
           case create_new temporary fs of
             (Inl e, fs) \<Rightarrow> (Inl (CannotStage e), fs)
           | (Inr _, fs) \<Rightarrow>
               (case replace_file temporary p contents fs of
                  (r, fs) \<Rightarrow> (map_err (\<lambda>e. WriteFailed (snd e)) r, snd (remove_file temporary fs)))))"

definition remove_path :: "string \<Rightarrow> fs \<Rightarrow> (files_error + unit) \<times> fs" where
  "remove_path p fs =
     (if path_exists p fs then (case remove_file p fs of (r, fs) \<Rightarrow> (map_err WriteFailed r, fs)) else (Inr (), fs))"

definition backup_of :: "nat \<Rightarrow> string \<Rightarrow> string" where
  "backup_of pid p = with_extension p (decimal pid @ ''.backup'')"

definition promote :: "nat \<Rightarrow> string \<Rightarrow> string \<Rightarrow> fs \<Rightarrow> (files_error + unit) \<times> fs" where
  "promote pid source p fs =
     (case parent_made p fs of
        Inl e \<Rightarrow> (Inl e, fs)
      | Inr _ \<Rightarrow>
          (let backup = backup_of pid p; existed = path_exists p fs in
           if path_exists backup fs then (Inl (StaleBackup backup), fs)
           else
             (case (if existed then rename_file p backup fs else (Inr (), fs)) of
                (Inl e, fs) \<Rightarrow> (Inl (ReplaceFailed e), fs)
              | (Inr _, fs) \<Rightarrow>
                  (case rename_file source p fs of
                     (Inl e, fs) \<Rightarrow>
                       (if existed
                        then (case rename_file backup p fs of
                                (Inl e', fs) \<Rightarrow> (Inl (RestoreFailed e'), fs)
                              | (Inr _, fs) \<Rightarrow> (Inl (ReplaceFailed e), fs))
                        else (Inl (ReplaceFailed e), fs))
                   | (Inr _, fs) \<Rightarrow> if existed then remove_path backup fs else (Inr (), fs)))))"

section \<open>What they keep\<close>

definition proper_name :: "string \<Rightarrow> bool" where
  "proper_name p \<longleftrightarrow> file_name p \<noteq> [] \<and> file_name p \<noteq> ''..''"

lemma decimal_no_dot: "CHR ''.'' \<notin> set (decimal n)"
  by (rule decimal_lacks) simp

lemma temporary_differs: "proper_name p \<Longrightarrow> with_extension p (decimal pid @ ''.tmp'') \<noteq> p"
  using with_extension_differs [of p "''tmp''" "decimal pid"] by (simp add: proper_name_def decimal_no_dot)

lemma backup_differs: "proper_name p \<Longrightarrow> backup_of pid p \<noteq> p"
  using with_extension_differs [of p "''backup''" "decimal pid"] by (simp add: proper_name_def decimal_no_dot backup_of_def)

text \<open>
  A file is written as a whole or not at all. Whatever call of an atomic write fails, and however much
  of the data a failed write left, the file has its old contents or exactly the new ones, the new ones
  when the write succeeds; no other file but the temporary one changes.
\<close>

theorem atomic_write_is_atomic:
  assumes "atomic_write pid p contents fs = (r, fs')" and "proper_name p"
  shows "fs_files fs' p \<in> {fs_files fs p, Some (as_bytes contents)} \<and> (r = Inr () \<longrightarrow> fs_files fs' p = Some (as_bytes contents))
    \<and> (\<forall>q. q \<noteq> p \<and> q \<noteq> with_extension p (decimal pid @ ''.tmp'') \<longrightarrow> fs_files fs' q = fs_files fs q)"
proof -
  let ?t = "with_extension p (decimal pid @ ''.tmp'')"
  have t: "?t \<noteq> p" by (rule temporary_differs [OF assms(2)])
  have gone: "fs_files (snd (remove_file ?t f)) q = fs_files f q" if "q \<noteq> ?t" for q f
    using that by (simp add: remove_file_def split: option.split)
  obtain c f1 where c: "create_new ?t fs = (c, f1)" by fastforce
  obtain r2 f2 where r2: "replace_file ?t p contents f1 = (r2, f2)" by fastforce
  show ?thesis
  proof (cases "parent_made p fs")
    case (Inl e)
    then show ?thesis using assms(1) by (auto simp: atomic_write_def)
  next
    case m: (Inr u)
    show ?thesis
    proof (cases c)
      case (Inl e)
      then have "f1 = fs" using c by (auto simp: create_new_def split: option.splits if_splits)
      then show ?thesis using assms(1) m c Inl by (auto simp: atomic_write_def Let_def)
    next
      case (Inr v)
      then have f1: "fs_files f1 = (fs_files fs)(?t := Some [])"
        using c by (auto simp: create_new_def set_file_def split: option.splits if_splits)
      have fs': "fs' = snd (remove_file ?t f2)" "r = map_err (\<lambda>e. WriteFailed (snd e)) r2"
        using assms(1) m c Inr r2 by (simp_all add: atomic_write_def Let_def)
      show ?thesis
      proof (cases r2)
        case (Inl e)
        then have "fs_files f2 q = fs_files f1 q" if "q \<noteq> ?t" for q
          using replace_file_error [of ?t p contents f1 e f2 q] r2 t that by simp
        then show ?thesis using fs' f1 t gone Inl by simp
      next
        case (Inr w)
        then have "fs_files f2 = (fs_files f1)(?t := None, p := Some (as_bytes contents))"
          using replace_file_ok [of ?t p contents f1 f2] r2 t by simp
        then show ?thesis using fs' f1 t gone by simp
      qed
    qed
  qed
qed

text \<open>
  C37. A replaced component is never lost. When what was installed is replaced, the old artifact stays at its
  place or in the backup beside it until the new one is in place; a failed replacement is undone unless
  the undoing itself is refused, which is an error of its own; a success has the new artifact in place.
\<close>

theorem promotion_never_loses:
  assumes "promote pid source p fs = (r, fs')" and "proper_name p" and "source \<noteq> p" and "source \<noteq> backup_of pid p"
    and "fs_files fs p = Some old" and "fs_files fs source = Some new" and "fs_fault fs (StatCall p) = None"
  shows "(r = Inr () \<longrightarrow> fs_files fs' p = Some new)
    \<and> (fs_files fs' p = Some old \<or> fs_files fs' (backup_of pid p) = Some old \<or> fs_files fs' p = Some new)
    \<and> (\<forall>e. r = Inl e \<and> fs_files fs' p \<noteq> Some new \<and> (\<forall>e'. e \<noteq> RestoreFailed e') \<longrightarrow> fs_files fs' p = Some old)"
proof -
  have b: "backup_of pid p \<noteq> p" by (rule backup_differs [OF assms(2)])
  have "path_exists p fs" using assms(5,7) by (simp add: path_exists_def)
  then show ?thesis using assms(1,3-6) b
    by (auto simp: promote_def rename_file_def remove_path_def remove_file_def Let_def
        split: sum.splits option.splits if_splits prod.splits)
qed

section \<open>An example\<close>

definition demo_files :: fs where
  "demo_files = no_faults\<lparr>fs_files := [''/i/drdsh'' \<mapsto> as_bytes ''old'', ''/s/drdsh'' \<mapsto> as_bytes ''new'']\<rparr>"

lemma demo_name: "proper_name ''/i/drdsh''" "''/s/drdsh'' \<noteq> backup_of 7 ''/i/drdsh''"
  by code_simp+

theorem atomic_write_is_atomic_witness:
  "fs_files (snd (atomic_write 7 ''/i/drdsh'' ''text'' demo_files)) ''/i/drdsh'' \<in> {Some (as_bytes ''old''), Some (as_bytes ''text'')}"
  using atomic_write_is_atomic [OF surjective_pairing demo_name(1), of 7 "''text''" demo_files] by (simp add: demo_files_def)

theorem promotion_never_loses_witness:
  "let (r, fs) = promote 7 ''/s/drdsh'' ''/i/drdsh'' demo_files
   in fs_files fs ''/i/drdsh'' = Some (as_bytes ''old'') \<or> fs_files fs (backup_of 7 ''/i/drdsh'') = Some (as_bytes ''old'')
     \<or> fs_files fs ''/i/drdsh'' = Some (as_bytes ''new'')"
  using promotion_never_loses [OF surjective_pairing demo_name(1) _ demo_name(2), of demo_files "as_bytes ''old''" "as_bytes ''new''"]
  by (simp add: demo_files_def no_faults_def split_beta Let_def)

end
