(* ===== verification/Install.thy ===== *)
theory Install
  imports Service_Run Install_Files
begin

text \<open>
  Installing, updating and removing a component, \<open>install.rs\<close> and the dispatcher of \<open>management.rs\<close>: every
  check, copy and replacement as a call of the host, in the order of the code. The texts of the files it
  writes are parameters. Shown: nothing but the staging directory changes and no service is stopped
  before everything is checked and staged, and a service that was stopped is started again whatever the
  replacement comes to.
\<close>

datatype install_error =
    BadManage manage_error
  | BadPackageFile
  | NotInPackage string
  | WrongTarget string string
  | NotInstalled string
  | UnmanagedLink
  | UnrelatedLink
  | UnmanagedCommand string
  | NotRegular string
  | NotExecutable string
  | BuildTool string
  | BuildFailed
  | FilesRefused string
  | OfService service_error
  | NoDshProgram
  | PluginTool string
  | PluginFailed string
  | OutOfScope scope_error
  | NoUpdater
  | UpdaterTool string
  | Locked string
  | Removed string
  | UnknownManagement string
  | NoSavedConfig

text \<open>What \<open>bundle.json\<close> beside the source says: format, version, target and components.\<close>

datatype package = NoPackage | BadPackage | Package nat string string "string list"

record installer =
  in_host :: host
  in_digest :: "byte list \<Rightarrow> byte list"
  in_clock :: "calls \<Rightarrow> nat"
  in_mac :: bool
  in_log_exists :: bool
  in_env :: mg_env
  in_link_at :: "string \<Rightarrow> agent_link"
  in_package :: "string \<Rightarrow> package"
  in_version :: string
  in_target :: string
  in_features :: "string list"
  in_pid :: nat
  in_config_text :: "mg_config \<Rightarrow> string"
  in_prefix_text :: "install_paths \<Rightarrow> string"
  in_bundle_text :: "string \<Rightarrow> string"
  in_updater :: string
  in_manifest :: string
  in_reread :: "calls \<Rightarrow> mg_config option"

type_synonym 'a install_act = "(install_error, 'a) act"

definition put :: "installer \<Rightarrow> host_call \<Rightarrow> unit install_act" where
  "put X c = do_then (ask (in_host X) c) (\<lambda>r. case r of Refused e \<Rightarrow> give_up (FilesRefused e) | Told _ _ _ \<Rightarrow> give ())"

definition regular :: "installer \<Rightarrow> string \<Rightarrow> unit install_act" where
  "regular X path = do_then (ask_if (in_host X) (AskRegular path)) (\<lambda>b. check b (NotRegular path))"

abbreviation of_service :: "'a service_act \<Rightarrow> 'a install_act" where "of_service m \<equiv> map_act OfService m"

text \<open>Texts that are shell words: the quote that ends the word, an escaped one, and the word again.\<close>

definition APOSTROPHE :: char where "APOSTROPHE = CHR 0x27"

definition shell_quote :: "string \<Rightarrow> string" where
  "shell_quote s = APOSTROPHE # replace_char APOSTROPHE [APOSTROPHE, BACKSLASH, APOSTROPHE, APOSTROPHE] s @ [APOSTROPHE]"

section \<open>Checks\<close>

definition managed_command :: "installer \<Rightarrow> install_paths \<Rightarrow> unit install_act" where
  "managed_command X p =
     (case in_link_at X (path_join (pt_prefix p) ''bin/drdsh'') of
        NoLink \<Rightarrow> give ()
      | LinkTo t \<Rightarrow> check (list_ex (\<lambda>s. t = path_join (pt_prefix p) (''lib/dr.dsh/'' @ s @ ''/bin/drdsh'')) [''relay'', ''daemon'']) UnrelatedLink
      | OtherFile \<Rightarrow> give_up UnmanagedLink
      | LinkUnreadable _ \<Rightarrow> give ())"

definition check_package :: "installer \<Rightarrow> string \<Rightarrow> string \<Rightarrow> install_error + bool" where
  "check_package X scope source =
     (case in_package X source of
        NoPackage \<Rightarrow> Inr False
      | BadPackage \<Rightarrow> Inl BadPackageFile
      | Package fmt version target cs \<Rightarrow>
          and_then (ensure (fmt = 1 \<and> scope \<in> set cs) (NotInPackage scope)) (\<lambda>_.
          and_then (ensure (target = in_target X \<and> version = in_version X) (WrongTarget target version)) (\<lambda>_. Inr True)))"

definition CLIENT_FILES :: "string list" where
  "CLIENT_FILES = [''index.html'', ''shell.js'', ''session.js'', ''service-worker.js'', ''manifest.webmanifest'', ''icon-192.png'', ''icon-512.png'']"

definition has_plugin :: "mg_config option \<Rightarrow> bool" where
  "has_plugin previous = (case previous of None \<Rightarrow> False | Some c \<Rightarrow> ''plugin'' \<in> set (mc_components c))"

definition was_installed :: "mg_config option \<Rightarrow> bool" where
  "was_installed previous = (case previous of None \<Rightarrow> False | Some c \<Rightarrow> config_installed c)"

definition with_plugin :: "string \<Rightarrow> mg_args \<Rightarrow> mg_config option \<Rightarrow> bool" where
  "with_plugin scope a previous \<longleftrightarrow>
     scope = ''daemon'' \<and> (''with-plugin'' \<in> ma_flags a \<or> ma_asset a = Some ''plugin'' \<or> has_plugin previous)"

text \<open>What is checked and where it comes from.\<close>

record install_plan =
  ip_config :: mg_config
  ip_asset_only :: bool
  ip_plugin :: bool
  ip_binary :: string
  ip_client :: string
  ip_plugin_source :: string
  ip_stage :: string

definition plan_of :: "installer \<Rightarrow> string \<Rightarrow> mg_args \<Rightarrow> install_paths \<Rightarrow> mg_config option \<Rightarrow> mg_config \<Rightarrow> bool \<Rightarrow> install_plan" where
  "plan_of X scope a p previous c packaged =
     (let source = mc_source c in
      \<lparr>ip_config = c, ip_asset_only = (ma_asset a \<noteq> None), ip_plugin = with_plugin scope a previous,
       ip_binary = (if packaged then path_join source ''bin/drdsh''
                    else path_join (path_join (path_join source ''target'') (or_else (mc_build_profile c) ''release'')) ''drdsh''),
       ip_client = (if packaged then path_join source ''client'' else or_else (mc_client_dir c) (path_join source ''apps/pwa/dist'')),
       ip_plugin_source = path_join source (if packaged then ''plugin'' else ''plugins/dr.dsh''),
       ip_stage = path_join (pt_root p) (''.stage-'' @ decimal (in_pid X))\<rparr>)"

definition build :: "installer \<Rightarrow> mg_config \<Rightarrow> unit install_act" where
  "build X c =
     (let source = mc_source c in
      do_then (regular X (path_join source ''Cargo.toml'')) (\<lambda>_.
      do_then (ask (in_host X) (ShowProgram ''cargo''
        ([''build'', ''--locked'', ''--manifest-path'', path_join source ''Cargo.toml'', ''--target-dir'', path_join source ''target'',
          ''-p'', ''dr-dsh-cli'', ''--no-default-features'', ''--features'', joined_by '','' (in_features X)]
         @ (if or_else (mc_build_profile c) ''release'' = ''release'' then [''--release''] else [])))) (\<lambda>r. case r of
        Refused e \<Rightarrow> give_up (BuildTool e) | Told ok _ _ \<Rightarrow> check ok BuildFailed)))"

definition install_checks ::
  "installer \<Rightarrow> string \<Rightarrow> mg_args \<Rightarrow> install_paths \<Rightarrow> mg_config option \<Rightarrow> manage_error + mg_config \<Rightarrow> install_plan install_act" where
  "install_checks X scope a p previous made =
     (case made of
        Inl e \<Rightarrow> give_up (BadManage e)
      | Inr c \<Rightarrow>
          (case check_package X scope (mc_source c) of
             Inl e \<Rightarrow> give_up e
           | Inr packaged \<Rightarrow>
               (let plan = plan_of X scope a p previous c packaged; asset_only = ip_asset_only plan in
                do_then (check (\<not> asset_only \<or> was_installed previous) (NotInstalled scope)) (\<lambda>_.
                do_then (managed_command X p) (\<lambda>_.
                do_then (if previous = None
                         then each (\<lambda>f. do_then (ask_if (in_host X) (AskPresent f)) (\<lambda>b. check (\<not> b) (UnmanagedCommand f)))
                           [pt_command p, path_join (pt_bin p) ''drdsh'', path_join (pt_prefix p) (''bin/drdsh-'' @ scope @ ''ctl'')]
                         else give ()) (\<lambda>_.
                do_then (if \<not> packaged \<and> \<not> asset_only \<and> ''skip-build'' \<notin> ma_flags a then build X c else give ()) (\<lambda>_.
                do_then (if asset_only then give ()
                         else do_then (regular X (ip_binary plan)) (\<lambda>_.
                              do_then (ask_if (in_host X) (AskProgram (ip_binary plan))) (\<lambda>b. check b (NotExecutable (ip_binary plan))))) (\<lambda>_.
                do_then (if scope = ''relay'' then each (\<lambda>n. regular X (path_join (ip_client plan) n)) CLIENT_FILES else give ()) (\<lambda>_.
                do_then (if ip_plugin plan
                         then each (\<lambda>n. regular X (path_join (ip_plugin_source plan) n)) [''package.json'', ''cordis.patch.yml'', ''src/index.ts'']
                         else give ()) (\<lambda>_.
                do_then (if ''start'' \<in> ma_flags a \<or> ''enable'' \<in> ma_flags a \<or> was_installed previous
                         then of_service (service_available (in_host X) (in_mac X)) else give ()) (\<lambda>_.
                give plan)))))))))))"

section \<open>Staging and replacing\<close>

definition stage_artifacts :: "installer \<Rightarrow> string \<Rightarrow> install_plan \<Rightarrow> unit install_act" where
  "stage_artifacts X scope plan =
     (let stage = ip_stage plan in
      do_then (if ip_asset_only plan then give () else put X (CopyTree (ip_binary plan) (path_join stage ''drdsh''))) (\<lambda>_.
      do_then (if scope = ''relay'' then put X (CopyTree (ip_client plan) (path_join stage ''client'')) else give ()) (\<lambda>_.
      if ip_plugin plan
      then do_then (each (\<lambda>n. put X (CopyTree (path_join (ip_plugin_source plan) n) (path_join (path_join stage ''plugin'') n)))
             [''package.json'', ''cordis.patch.yml'', ''src'']) (\<lambda>_.
           put X (WriteFile (path_join stage ''plugin/package.json'') (in_manifest X)))
      else give ())))"

definition run_plugin :: "installer \<Rightarrow> mg_config \<Rightarrow> install_paths \<Rightarrow> string \<Rightarrow> unit install_act" where
  "run_plugin X c p verb =
     (case mc_dsh c of
        None \<Rightarrow> give_up NoDshProgram
      | Some dsh \<Rightarrow>
          do_then (ask (in_host X) (ShowProgram dsh [''plugin'', ''--profile'', ''web'', verb,
            if verb = ''add'' then path_join (pt_root p) ''plugin'' else ''@dr.dsh/dsh-plugin''])) (\<lambda>r. case r of
            Refused e \<Rightarrow> give_up (PluginTool e) | Told ok _ _ \<Rightarrow> check ok (PluginFailed verb)))"

definition save_config :: "installer \<Rightarrow> mg_config \<Rightarrow> install_paths \<Rightarrow> unit install_act" where
  "save_config X c p = put X (WriteFile (pt_config p) (in_config_text X c @ [NL]))"

definition new_components :: "string \<Rightarrow> mg_config option \<Rightarrow> string list" where
  "new_components scope previous =
     [scope] @ (if scope = ''relay'' then [''client''] else []) @ (if has_plugin previous then [''plugin''] else [])"

definition replace_artifacts ::
  "installer \<Rightarrow> string \<Rightarrow> install_plan \<Rightarrow> install_paths \<Rightarrow> mg_config option \<Rightarrow> mg_config install_act" where
  "replace_artifacts X scope plan p previous =
     (let stage = ip_stage plan; drdsh = path_join (pt_bin p) ''drdsh''; shared = path_join (pt_prefix p) ''bin/drdsh'';
          c = (ip_config plan)\<lparr>mc_components := new_components scope previous\<rparr>;
          c' = (if ''plugin'' \<in> set (mc_components c) then c else c\<lparr>mc_components := mc_components c @ [''plugin'']\<rparr>)
      in do_then (if ip_asset_only plan then give () else put X (Promote (path_join stage ''drdsh'') drdsh)) (\<lambda>_.
         do_then (if scope = ''relay'' then put X (Promote (path_join stage ''client'') (path_join (pt_root p) ''client'')) else give ()) (\<lambda>_.
         do_then (if ip_plugin plan then put X (Promote (path_join stage ''plugin'') (path_join (pt_root p) ''plugin'')) else give ()) (\<lambda>_.
         do_then (put X (WriteFile (path_join (pt_root p) ''prefix.json'') (in_prefix_text X p))) (\<lambda>_.
         do_then (put X (WriteFile (path_join (pt_root p) ''release-install.sh'') (in_updater X))) (\<lambda>_.
         do_then (put X (WriteFile (path_join (pt_root p) ''bundle.json'') (in_bundle_text X scope))) (\<lambda>_.
         do_then (put X (MakeLink drdsh (pt_command p))) (\<lambda>_.
         do_then (put X (MakeLink drdsh (path_join (pt_prefix p) (''bin/drdsh-'' @ scope @ ''ctl'')))) (\<lambda>_.
         do_then (ask_if (in_host X) (AskFile shared)) (\<lambda>there.
         do_then (if there then give () else put X (MakeLink drdsh shared)) (\<lambda>_.
         do_then (save_config X c p) (\<lambda>_.
         do_then (if ip_plugin plan then do_then (run_plugin X c p ''add'') (\<lambda>_. save_config X c' p) else give ()) (\<lambda>_.
         let c = (if ip_plugin plan then c' else c) in
         do_then (of_service (service_prepare (in_host X) (in_digest X) (in_mac X) (in_log_exists X) c p)) (\<lambda>_.
         do_then (each (\<lambda>n. put X (RemovePath (path_join (pt_root p) n))) [''drdsh.mjs'', ''service-manager.mjs'', ''component-cli.mjs'']) (\<lambda>_.
         do_then (each (\<lambda>n. put X (RemovePath (path_join (pt_bin p) n)))
           (if scope = ''relay'' then [''drdsh-relay'', ''drdsh-relayctl''] else [''drdshd'', ''drdsh-daemonctl''])) (\<lambda>_.
         give c))))))))))))))))"

definition start_component :: "installer \<Rightarrow> mg_config \<Rightarrow> install_paths \<Rightarrow> unit install_act" where
  "start_component X c p = of_service (service_start (in_host X) (in_digest X) (in_mac X) (in_log_exists X) c p)"

definition component_spec :: "installer \<Rightarrow> install_paths \<Rightarrow> service_spec" where
  "component_spec X p = spec_for (in_digest X) p (in_mac X)"

definition component_running :: "installer \<Rightarrow> install_paths \<Rightarrow> bool install_act" where
  "component_running X p = do_then (of_service (service_state (in_host X) (in_mac X) (component_spec X p))) (\<lambda>st. give (sv_running st))"

definition stop_component :: "installer \<Rightarrow> install_paths \<Rightarrow> unit install_act" where
  "stop_component X p = of_service (service_stop (in_host X) (in_clock X) (in_mac X) (component_spec X p))"

definition autostart_component :: "installer \<Rightarrow> mg_config \<Rightarrow> install_paths \<Rightarrow> bool \<Rightarrow> unit install_act" where
  "autostart_component X c p on =
     of_service (service_autostart (in_host X) (in_digest X) (in_mac X) (in_log_exists X) (in_env X) (in_link_at X) c p on)"

text \<open>The configuration a stopped service is started with again: the one that is saved, or the old one.\<close>

definition restart_config :: "installer \<Rightarrow> install_plan \<Rightarrow> mg_config option \<Rightarrow> calls \<Rightarrow> mg_config" where
  "restart_config X plan previous h = or_else (in_reread X h) (or_else previous (ip_config plan))"

definition after_update :: "installer \<Rightarrow> mg_args \<Rightarrow> install_paths \<Rightarrow> bool \<Rightarrow> mg_config \<Rightarrow> unit install_act" where
  "after_update X a p was_running c =
     do_then (if ''enable'' \<in> ma_flags a then autostart_component X c p True else give ()) (\<lambda>_.
       if ''start'' \<in> ma_flags a \<and> \<not> was_running then start_component X c p else give ())"

definition switch_over ::
  "installer \<Rightarrow> string \<Rightarrow> mg_args \<Rightarrow> install_plan \<Rightarrow> install_paths \<Rightarrow> mg_config option \<Rightarrow> bool \<Rightarrow> unit install_act" where
  "switch_over X scope a plan p previous was_running =
     do_then (if was_running then stop_component X p else give ()) (\<lambda>_.
     do_then (attempt (replace_artifacts X scope plan p previous)) (\<lambda>update.
     do_then (if was_running then attempt (looking (\<lambda>h. start_component X (restart_config X plan previous h) p)) else give (Inr ())) (\<lambda>restart.
       case update of
         Inl e \<Rightarrow> give_up e
       | Inr c \<Rightarrow> (case restart of Inl e \<Rightarrow> give_up e | Inr _ \<Rightarrow> after_update X a p was_running c))))"

text \<open>The staging directory goes when the installation returns, whatever it returns.\<close>

definition install_staged ::
  "installer \<Rightarrow> string \<Rightarrow> mg_args \<Rightarrow> install_plan \<Rightarrow> install_paths \<Rightarrow> mg_config option \<Rightarrow> unit install_act" where
  "install_staged X scope a plan p previous =
     do_then (stage_artifacts X scope plan) (\<lambda>_.
     do_then (if was_installed previous then component_running X p else give False) (\<lambda>was_running.
       switch_over X scope a plan p previous was_running))"

definition guarded :: "installer \<Rightarrow> string \<Rightarrow> unit install_act \<Rightarrow> unit install_act" where
  "guarded X dir m =
     do_then (attempt m) (\<lambda>r. do_then (ask (in_host X) (RemovePath dir)) (\<lambda>_. case r of Inl e \<Rightarrow> give_up e | Inr _ \<Rightarrow> give ()))"

definition install ::
  "installer \<Rightarrow> string \<Rightarrow> mg_args \<Rightarrow> install_paths \<Rightarrow> mg_config option \<Rightarrow> manage_error + mg_config \<Rightarrow> unit install_act" where
  "install X scope a p previous made =
     do_then (install_checks X scope a p previous made) (\<lambda>plan.
     do_then (put X (MakeDir (ip_stage plan))) (\<lambda>_.
       guarded X (ip_stage plan) (install_staged X scope a plan p previous)))"

section \<open>Removing\<close>

definition give_shared_away :: "installer \<Rightarrow> install_paths \<Rightarrow> unit install_act" where
  "give_shared_away X p =
     (let shared = path_join (pt_prefix p) ''bin/drdsh'';
          other = path_join (pt_prefix p) (''lib/dr.dsh/'' @ (if pt_scope p = ''relay'' then ''daemon'' else ''relay'') @ ''/bin/drdsh'')
      in if in_link_at X shared = LinkTo (path_join (pt_bin p) ''drdsh'')
         then do_then (ask_if (in_host X) (AskFile other)) (\<lambda>there. if there then put X (MakeLink other shared) else put X (RemovePath shared))
         else give ())"

definition remove_component :: "installer \<Rightarrow> bool \<Rightarrow> mg_config \<Rightarrow> install_paths \<Rightarrow> unit install_act" where
  "remove_component X plugin_only c p =
     do_then (if ''plugin'' \<in> set (mc_components c)
              then do_then (run_plugin X c p ''remove'') (\<lambda>_. put X (RemovePath (path_join (pt_root p) ''plugin''))) else give ()) (\<lambda>_.
       if plugin_only then save_config X (c\<lparr>mc_components := filter (\<lambda>s. s \<noteq> ''plugin'') (mc_components c)\<rparr>) p
       else
         do_then (autostart_component X c p False) (\<lambda>_.
         do_then (of_service (service_prepare (in_host X) (in_digest X) (in_mac X) (in_log_exists X) c p)) (\<lambda>s.
         do_then (put X (RemovePath (sp_file s))) (\<lambda>_.
         do_then (give_shared_away X p) (\<lambda>_.
         do_then (each (\<lambda>f. put X (RemovePath f))
           [pt_command p, path_join (pt_prefix p) (''bin/drdsh-'' @ pt_scope p @ ''ctl''), path_join (pt_bin p) ''drdsh'',
            path_join (pt_root p) ''client'', path_join (pt_root p) ''prefix.json'']) (\<lambda>_.
         save_config X (c\<lparr>mc_components := []\<rparr>) p))))))"

definition uninstall :: "installer \<Rightarrow> mg_args \<Rightarrow> mg_config \<Rightarrow> install_paths \<Rightarrow> unit install_act" where
  "uninstall X a c p =
     (let plugin_only = (ma_asset a = Some ''plugin'') in
      do_then (if plugin_only \<and> config_installed c then component_running X p else give False) (\<lambda>running.
      do_then (if config_installed c then stop_component X p else give ()) (\<lambda>_.
      do_then (attempt (remove_component X plugin_only c p)) (\<lambda>r.
      do_then (if running
               then looking (\<lambda>h. case in_reread X h of None \<Rightarrow> give_up NoSavedConfig | Some saved \<Rightarrow> start_component X saved p)
               else give ()) (\<lambda>_.
        case r of Inl e \<Rightarrow> give_up e | Inr _ \<Rightarrow> give ())))))"

section \<open>The dispatcher\<close>

definition update_release :: "installer \<Rightarrow> string \<Rightarrow> mg_args \<Rightarrow> install_paths \<Rightarrow> nat install_act" where
  "update_release X scope a p =
     (let script = path_join (pt_root p) ''release-install.sh'' in
      do_then (ask_if (in_host X) (AskFile script)) (\<lambda>there.
        if \<not> there then give_up NoUpdater
        else do_then (ask (in_host X) (ShowProgram ''sh'' ([script, ''--component'', scope, ''--prefix'', pt_prefix p]
               @ (case ma_values a ''version'' of None \<Rightarrow> [] | Some v \<Rightarrow> [''--version'', v])))) (\<lambda>r. case r of
             Refused e \<Rightarrow> give_up (UpdaterTool e) | Told ok _ _ \<Rightarrow> give (if ok then 0 else 1))))"

definition operate ::
  "installer \<Rightarrow> (socket_addr \<Rightarrow> string \<Rightarrow> string option) \<Rightarrow> string \<Rightarrow> mg_args \<Rightarrow> mg_config \<Rightarrow> install_paths \<Rightarrow> nat install_act" where
  "operate X fetch scope a c p =
     (let quiet = (\<lambda>m. do_then m (\<lambda>_. give (0 :: nat))) in
      if ma_action a = ''start'' then quiet (start_component X c p)
      else if ma_action a = ''stop'' then quiet (stop_component X p)
      else if ma_action a = ''restart'' then do_then (stop_component X p) (\<lambda>_. quiet (start_component X c p))
      else if ma_action a = ''enable'' \<or> ma_action a = ''disable'' then quiet (autostart_component X c p (ma_action a = ''enable''))
      else if ma_action a = ''status'' then of_service (service_status (in_host X) (in_digest X) (in_mac X) fetch c p)
      else if ma_action a = ''logs''
      then quiet (of_service (service_logs (in_host X) (in_digest X) (in_mac X) (in_log_exists X) p (''follow'' \<in> ma_flags a)))
      else give_up (UnknownManagement (ma_action a)))"

text \<open>Everything but a question about the state holds the lock of the installation while it runs.\<close>

definition locked :: "installer \<Rightarrow> install_paths \<Rightarrow> nat install_act \<Rightarrow> nat install_act" where
  "locked X p m =
     (let lock = path_join (pt_root p) ''.operation-lock'' in
      do_then (put X (MakeDirs (pt_root p))) (\<lambda>_.
      do_then (put X (MakeDir lock)) (\<lambda>_.
      do_then (attempt m) (\<lambda>r.
      do_then (ask (in_host X) (RemovePath lock)) (\<lambda>_. case r of Inl e \<Rightarrow> give_up e | Inr n \<Rightarrow> give n)))))"

definition manage ::
  "installer \<Rightarrow> (socket_addr \<Rightarrow> string \<Rightarrow> string option) \<Rightarrow> string \<Rightarrow> mg_args \<Rightarrow> mg_config option \<Rightarrow> manage_error + mg_config \<Rightarrow> nat install_act" where
  "manage X fetch scope a saved made =
     (case validate_scope scope a of
        Inl e \<Rightarrow> give_up (OutOfScope e)
      | Inr _ \<Rightarrow>
          (case install_prefix (in_env X) (ma_values a ''prefix'') of
             Inl e \<Rightarrow> give_up (BadManage e)
           | Inr given \<Rightarrow>
               (let p = paths_new (me_cwd (in_env X)) given scope;
                    managed = (if ma_action a = ''install'' then do_then (install X scope a p saved made) (\<lambda>_. give 0)
                       else (case saved of
                               None \<Rightarrow> give_up NoSavedConfig
                             | Some c \<Rightarrow>
                                 do_then (of_service (service_available (in_host X) (in_mac X))) (\<lambda>_.
                                   if ma_action a = ''uninstall'' then do_then (uninstall X a c p) (\<lambda>_. give 0)
                                   else if \<not> config_installed c then give_up (NotInstalled scope)
                                   else operate X fetch scope a c p)))
                in if ma_action a = ''update'' then update_release X scope a p
                   else if ma_action a = ''status'' \<or> ma_action a = ''logs'' then managed
                   else locked X p managed)))"

section \<open>What installing promises\<close>

fun shell_word :: "bool \<Rightarrow> string \<Rightarrow> string option" where
  "shell_word inside [] = (if inside then None else Some [])"
| "shell_word inside (c # s) =
     (if c = APOSTROPHE then shell_word (\<not> inside) s
      else if inside then map_option (\<lambda>w. c # w) (shell_word inside s)
      else if c = BACKSLASH then (case s of [] \<Rightarrow> None | d # t \<Rightarrow> map_option (\<lambda>w. d # w) (shell_word inside t))
      else None)"

lemma shell_word_quote: "shell_word False (shell_quote s) = Some s"
proof -
  have "shell_word True (replace_char APOSTROPHE [APOSTROPHE, BACKSLASH, APOSTROPHE, APOSTROPHE] s @ [APOSTROPHE]) = Some s" for s
    by (induction s) (simp_all add: replace_char_def APOSTROPHE_def BACKSLASH_def)
  then show ?thesis by (simp add: shell_quote_def)
qed

interpretation shell: quoting shell_quote "shell_word False"
  by unfold_locales (rule shell_word_quote)

definition stage_of :: "installer \<Rightarrow> install_paths \<Rightarrow> string" where
  "stage_of X p = path_join (pt_root p) (''.stage-'' @ decimal (in_pid X))"

text \<open>
  A call that prepares: a question, the build of the source, what the service manager is asked for its
  availability, and writing below the staging directory.
\<close>

definition preparing :: "installer \<Rightarrow> install_paths \<Rightarrow> host_call \<Rightarrow> bool" where
  "preparing X p c =
     (let stage = stage_of X p;
          staged = (\<lambda>d. d \<in> path_join stage ` {''drdsh'', ''client'', ''plugin/package.json''}
            \<or> d \<in> path_join (path_join stage ''plugin'') ` {''package.json'', ''cordis.patch.yml'', ''src''})
      in case c of
           AskPresent _ \<Rightarrow> True
         | AskRegular _ \<Rightarrow> True
         | AskProgram _ \<Rightarrow> True
         | ShowProgram program _ \<Rightarrow> program = ''cargo''
         | RunProgram program args \<Rightarrow>
             program \<in> {''/usr/bin/id'', ''/usr/bin/env''} \<or> (program = ''launchctl'' \<and> hd args = ''print'')
             \<or> (program = ''systemctl'' \<and> args = [''--user'', ''show-environment''])
         | MakeDir d \<Rightarrow> d = stage
         | RemovePath d \<Rightarrow> d = stage
         | CopyTree _ d \<Rightarrow> staged d
         | WriteFile d _ \<Rightarrow> staged d
         | _ \<Rightarrow> False)"

lemma only_put [only_rules]: "P c \<Longrightarrow> only P (put X c)"
  unfolding put_def by (intro only_rules)

lemma only_regular [only_rules]: "P (AskRegular path) \<Longrightarrow> only P (regular X path)"
  unfolding regular_def by (intro only_rules)

lemma preparing_available: "only (preparing X p) (service_available H mac)"
  unfolding service_available_def gui_def by (intro only_rules) (simp_all add: preparing_def Let_def)

lemma preparing_managed: "only (preparing X p) (managed_command X p)"
  unfolding managed_command_def by (auto intro: only_rules split: agent_link.split)

lemma preparing_build: "only (preparing X p) (build X c)"
  unfolding build_def Let_def by (intro only_rules) (simp_all add: preparing_def Let_def)

lemma preparing_checks: "only (preparing X p) (install_checks X scope a p previous made)"
  unfolding install_checks_def Let_def
  by (intro only_rules preparing_available preparing_managed preparing_build) (simp_all add: preparing_def Let_def)

lemma checks_stage:
  "install_checks X scope a p previous made h = (Inr plan, h') \<Longrightarrow> ip_stage plan = stage_of X p"
  by (auto simp: install_checks_def do_then_Inr Let_def plan_of_def stage_of_def split: sum.splits)

lemma preparing_staging:
  assumes "ip_stage plan = stage_of X p"
  shows "only (preparing X p) (stage_artifacts X scope plan)"
  unfolding stage_artifacts_def Let_def assms
  by (intro only_rules) (auto simp: preparing_def Let_def)

lemma only_result: "only P m \<Longrightarrow> list_all P h \<Longrightarrow> m h = (r, h') \<Longrightarrow> list_all P h'"
  unfolding only_def by (metis list_all_append snd_conv)

lemma put_cases: "put X c h = (r, h') \<Longrightarrow> h' = h @ [c] \<and> (r = Inr () \<or> (\<exists>e. r = Inl (FilesRefused e)))"
  by (auto simp: put_def ask_def do_then_def give_def give_up_def split: reply.splits)

lemma guarded_calls: "m h = (r, h') \<Longrightarrow> snd (guarded X dir m h) = h' @ [RemovePath dir]"
  by (cases r) (simp_all add: guarded_def attempt_def do_then_def ask_def give_def give_up_def)

text \<open>Whatever is done, calls are only added.\<close>

lemma any_service:
  "only (\<lambda>_. True) (service_state H mac s)" "only (\<lambda>_. True) (service_target H s)" "only (\<lambda>_. True) (gui H)"
  unfolding service_state_def service_target_def gui_def by (intro only_rules TrueI)+

lemma any_wait: "only (\<lambda>_. True) (wait_gone H clock deadline pid n)"
proof (induction n)
  case (Suc n)
  show ?case unfolding wait_gone.simps by (intro only_rules Suc TrueI)
qed (simp add: only_rules)

lemma any_operation:
  "only (\<lambda>_. True) (stop_component X p)" "only (\<lambda>_. True) (start_component X c p)"
  "only (\<lambda>_. True) (autostart_component X c p on)" "only (\<lambda>_. True) (component_running X p)"
  unfolding stop_component_def service_stop_def start_component_def service_start_def service_prepare_def component_running_def
    autostart_component_def service_autostart_def Let_def
  by (intro only_rules any_service any_wait TrueI)+

lemma any_replace: "only (\<lambda>_. True) (replace_artifacts X scope plan p previous)"
  unfolding replace_artifacts_def run_plugin_def save_config_def service_prepare_def Let_def by (intro only_rules TrueI)

lemma any_after: "only (\<lambda>_. True) (after_update X a p b c)"
  unfolding after_update_def by (intro only_rules any_operation)

lemma any_switch: "only (\<lambda>_. True) (switch_over X scope a plan p previous b)"
  unfolding switch_over_def by (intro only_rules any_operation any_replace any_after)

text \<open>
  C17. Nothing changes before everything is staged. If an installation makes any call but a preparing one, if it
  stops a service, replaces a file or writes outside its staging directory, then every check of it has
  passed and every artifact was staged before, by preparing calls only.
\<close>

theorem nothing_changes_before_staging:
  assumes "call \<in> set (snd (install X scope a p previous made []))" and "\<not> preparing X p call"
  shows "\<exists>plan h h'. install_checks X scope a p previous made [] = (Inr plan, h)
    \<and> stage_artifacts X scope plan (h @ [MakeDir (ip_stage plan)]) = (Inr (), h') \<and> list_all (preparing X p) h'
    \<and> (\<exists>rest. snd (install X scope a p previous made []) = h' @ rest)"
proof -
  obtain r1 h1 where c: "install_checks X scope a p previous made [] = (r1, h1)" by fastforce
  have p1: "list_all (preparing X p) h1" using only_result [OF preparing_checks _ c] by simp
  have no: "\<not> list_all (preparing X p) (snd (install X scope a p previous made []))" using assms by (auto simp: list_all_iff)
  show ?thesis
  proof (cases r1)
    case (Inl e)
    then show ?thesis using no c p1 by (simp add: install_def do_then_def)
  next
    case plan: (Inr plan)
    have stage: "ip_stage plan = stage_of X p" using checks_stage c plan by blast
    obtain r2 h2 where m: "put X (MakeDir (ip_stage plan)) h1 = (r2, h2)" by fastforce
    have h2: "h2 = h1 @ [MakeDir (ip_stage plan)]" using put_cases [OF m] by simp
    then have p2: "list_all (preparing X p) h2" using p1 stage by (simp add: preparing_def Let_def)
    show ?thesis
    proof (cases r2)
      case (Inl e)
      then show ?thesis using no c p2 plan m by (simp add: install_def do_then_def)
    next
      case (Inr u)
      obtain r3 h3 where s: "stage_artifacts X scope plan h2 = (r3, h3)" by fastforce
      have p3: "list_all (preparing X p) h3" using only_result [OF preparing_staging [OF stage] p2 s] .
      obtain r4 h4 where i: "install_staged X scope a plan p previous h2 = (r4, h4)" by fastforce
      have all: "snd (install X scope a p previous made []) = h4 @ [RemovePath (ip_stage plan)]"
        using c plan m Inr guarded_calls [of "install_staged X scope a plan p previous" h2 r4 h4 X "ip_stage plan"] i by (simp add: install_def do_then_def)
      show ?thesis
      proof (cases r3)
        case (Inl e)
        then have "h4 = h3" using i s by (simp add: install_staged_def do_then_def)
        then show ?thesis using no all p3 stage by (simp add: preparing_def Let_def)
      next
        case (Inr v)
        have "\<exists>rest. h4 = h3 @ rest"
        proof -
          let ?m = "do_then (if was_installed previous then component_running X p else give False) (switch_over X scope a plan p previous)"
          have "only (\<lambda>_. True) ?m" by (intro only_rules any_operation any_switch)
          then obtain rest where "snd (?m h3) = h3 @ rest" using only_grows by blast
          moreover have "install_staged X scope a plan p previous h2 = ?m h3"
            unfolding install_staged_def do_then_def [of "stage_artifacts X scope plan"] s Inr by simp
          ultimately have "snd (install_staged X scope a plan p previous h2) = h3 @ rest" by simp
          then show ?thesis unfolding i by simp
        qed
        then show ?thesis using c plan s h2 Inr p3 all by auto
      qed
    qed
  qed
qed

lemma map_act_iff: "map_act f m h = (r, h') \<longleftrightarrow> (\<exists>q. m h = (q, h') \<and> r = map_err f q)"
  by (auto simp: map_act_def split: prod.split)

lemma started_runs:
  assumes "start_component X c p h = (Inr (), h')"
  shows "\<exists>h1 st. service_state (in_host X) (in_mac X) (component_spec X p) h1 = (Inr st, h') \<and> sv_running st"
  using assms start_runs [of "in_host X" "in_digest X" "in_mac X" "in_log_exists X" c p h h']
  by (simp add: start_component_def component_spec_def map_act_iff) (metis map_err_Inr_iff)

text \<open>
  C18. A stopped service is started again. Once a replacement has stopped the running service, it starts it
  again after replacing the files, whether the replacement succeeded or failed at any point; and when
  the replacement reports success, the service manager has said that the service runs.
\<close>

theorem stopped_service_runs_again:
  assumes "switch_over X scope a plan p previous True h = (r, h')" and "stop_component X p h = (Inr (), h1)"
  shows "(\<exists>c cs rest. h' = snd (start_component X c p (h1 @ cs)) @ rest)
    \<and> (r = Inr () \<longrightarrow> (\<exists>h2 st h3 rest. service_state (in_host X) (in_mac X) (component_spec X p) h2 = (Inr st, h3)
        \<and> sv_running st \<and> h' = h3 @ rest))"
proof -
  obtain u h2 where u: "replace_artifacts X scope plan p previous h1 = (u, h2)" by fastforce
  obtain cs where cs: "h2 = h1 @ cs" using only_grows [OF any_replace, of X scope plan p previous h1] u by auto
  let ?c = "restart_config X plan previous h2"
  obtain s h3 where s: "start_component X ?c p h2 = (s, h3)" by fastforce
  have run: "switch_over X scope a plan p previous True h = (case u of Inl e \<Rightarrow> give_up e
      | Inr c \<Rightarrow> (case s of Inl e \<Rightarrow> give_up e | Inr _ \<Rightarrow> after_update X a p True c)) h3"
    using assms(2) u s by (simp add: switch_over_def do_then_def attempt_def looking_def)
  consider e where "r = Inl e" "h' = h3" | c where "u = Inr c" "s = Inr ()" "after_update X a p True c h3 = (r, h')"
    using run assms(1) by (cases u; cases s) (auto simp: give_up_def)
  then show ?thesis
  proof cases
    case 1
    have "h' = snd (start_component X ?c p (h1 @ cs)) @ []" using 1(2) s cs by simp
    then show ?thesis using 1(1) by blast
  next
    case (2 c)
    obtain rest where rest: "h' = h3 @ rest" using only_grows [OF any_after, of X a p True c h3] 2(3) by auto
    obtain h4 st where "service_state (in_host X) (in_mac X) (component_spec X p) h4 = (Inr st, h3)" "sv_running st"
      using started_runs s 2(2) by blast
    moreover have "h' = snd (start_component X ?c p (h1 @ cs)) @ rest" using rest s cs by simp
    ultimately show ?thesis using rest by blast
  qed
qed

text \<open>
  One operation at a time. While another command holds the lock of an installation, every command that
  would change it, whatever the command and the state are, makes no call but the two that try to take
  the lock, and fails.
\<close>

theorem operations_exclude_each_other:
  assumes "\<And>h d. in_host X h (MakeDir d) = Refused reason" and "\<And>h d. in_host X h (MakeDirs d) = Told True [] []"
    and "ma_action a \<notin> {''update'', ''status'', ''logs''}" and "validate_scope scope a = Inr ()"
    and "install_prefix (in_env X) (ma_values a ''prefix'') = Inr given" and "p = paths_new (me_cwd (in_env X)) given scope"
  shows "manage X fetch scope a saved made h
    = (Inl (FilesRefused reason), h @ [MakeDirs (pt_root p), MakeDir (path_join (pt_root p) ''.operation-lock'')])"
  using assms by (simp add: manage_def Let_def locked_def put_def do_then_def ask_def give_def give_up_def)

section \<open>Examples\<close>

text \<open>A host on which everything works but the lock, or but the replacement.\<close>

definition busy_host :: host where
  "busy_host h c = (case c of MakeDir _ \<Rightarrow> Refused ''exists'' | _ \<Rightarrow> demo_host h c)"

definition full_host :: host where
  "full_host h c = (case c of Promote _ _ \<Rightarrow> Refused ''disk full'' | AskPresent _ \<Rightarrow> Told False [] [] | _ \<Rightarrow> demo_host h c)"

definition demo_installer :: "host \<Rightarrow> installer" where
  "demo_installer H =
     \<lparr>in_host = H, in_digest = demo_digest, in_clock = slept, in_mac = False, in_log_exists = True, in_env = demo_env,
      in_link_at = (\<lambda>_. NoLink), in_package = (\<lambda>_. Package 1 ''0.1.0'' ''x86_64-unknown-linux-musl'' [''daemon'']),
      in_version = ''0.1.0'', in_target = ''x86_64-unknown-linux-musl'', in_features = [''relay'', ''daemon''], in_pid = 7,
      in_config_text = (\<lambda>_. ''{}''), in_prefix_text = (\<lambda>_. ''{}''), in_bundle_text = (\<lambda>_. ''{}''), in_updater = ''#!/bin/sh'',
      in_manifest = ''{}'', in_reread = (\<lambda>_. Some demo_config)\<rparr>"

definition plain_args :: mg_args where
  "plain_args = \<lparr>ma_action = ''install'', ma_asset = None, ma_help = False, ma_values = (\<lambda>_. None), ma_flags = {}\<rparr>"

theorem operations_exclude_each_other_witness:
  "manage (demo_installer busy_host) (\<lambda>_ _. None) ''daemon'' plain_args None (Inr demo_config) []
     = (Inl (FilesRefused ''exists''), [MakeDirs (pt_root demo_paths), MakeDir (path_join (pt_root demo_paths) ''.operation-lock'')])"
proof -
  have "validate_scope ''daemon'' plain_args = Inr ()" by (simp add: validate_scope_def plain_args_def)
  moreover have "install_prefix demo_env None = Inr ''/h/.local''" by (simp add: install_prefix_def demo_env_def)
  ultimately show ?thesis
    using operations_exclude_each_other
      [of "demo_installer busy_host" "''exists''" plain_args "''daemon''" "''/h/.local''" demo_paths "\<lambda>_ _. None" None "Inr demo_config" "[]"]
      demo_paths_new
    by (simp add: demo_installer_def busy_host_def demo_host_def plain_args_def) (simp add: demo_env_def)
qed

lemma demo_stop: "\<exists>h. stop_component (demo_installer full_host) demo_paths [] = (Inr (), h)"
proof -
  obtain st where "systemd_state True demo_show [] = Inr st" "sv_running st" using demo_running by blast
  then show ?thesis
    by (simp add: stop_component_def service_stop_def map_act_def demo_installer_def service_state_def capture_def quietly_def run_checked_def
        full_host_def demo_host_def do_then_def ask_def give_def)
qed

theorem stopped_service_runs_again_witness:
  "\<exists>h c cs rest. stop_component (demo_installer full_host) demo_paths [] = (Inr (), h)
     \<and> snd (switch_over (demo_installer full_host) ''daemon'' plain_args
         (plan_of (demo_installer full_host) ''daemon'' plain_args demo_paths None demo_config True) demo_paths (Some demo_config) True [])
       = snd (start_component (demo_installer full_host) c demo_paths (h @ cs)) @ rest"
proof -
  obtain h where h: "stop_component (demo_installer full_host) demo_paths [] = (Inr (), h)" using demo_stop by blast
  show ?thesis using stopped_service_runs_again [OF surjective_pairing h] h by blast
qed

theorem nothing_changes_before_staging_witness:
  "\<exists>plan h h'. install_checks (demo_installer full_host) ''daemon'' plain_args demo_paths None (Inr demo_config) [] = (Inr plan, h)
     \<and> stage_artifacts (demo_installer full_host) ''daemon'' plan (h @ [MakeDir (ip_stage plan)]) = (Inr (), h')
     \<and> list_all (preparing (demo_installer full_host) demo_paths) h'"
proof -
  let ?X = "demo_installer full_host"
  let ?c = "Promote (path_join (stage_of ?X demo_paths) ''drdsh'') (path_join (pt_bin demo_paths) ''drdsh'')"
  have stage: "ip_stage (plan_of ?X ''daemon'' plain_args demo_paths None demo_config True) = stage_of ?X demo_paths"
    by (simp add: plan_of_def stage_of_def Let_def)
  have "check_package ?X ''daemon'' (mc_source demo_config) = Inr True" by (simp add: check_package_def demo_installer_def)
  moreover have "install_checks ?X ''daemon'' plain_args demo_paths None (Inr demo_config) []
      = (Inr (plan_of ?X ''daemon'' plain_args demo_paths None demo_config True),
         snd (install_checks ?X ''daemon'' plain_args demo_paths None (Inr demo_config) []))"
    using calculation
    by (simp add: install_checks_def Let_def plan_of_def plain_args_def managed_command_def with_plugin_def has_plugin_def
        regular_def was_installed_def)
      (simp add: demo_installer_def full_host_def demo_host_def do_then_def ask_if_def ask_def give_def)
  moreover obtain h where "snd (install_checks ?X ''daemon'' plain_args demo_paths None (Inr demo_config) []) = h" by blast
  ultimately have "?c \<in> set (snd (install ?X ''daemon'' plain_args demo_paths None (Inr demo_config) []))"
    using stage by (simp add: install_def guarded_def install_staged_def stage_artifacts_def switch_over_def replace_artifacts_def
        put_def Let_def do_then_def ask_def give_def give_up_def attempt_def was_installed_def plan_of_def plain_args_def with_plugin_def
        has_plugin_def demo_installer_def full_host_def demo_host_def)
  moreover have "\<not> preparing ?X demo_paths ?c" by (simp add: preparing_def Let_def)
  ultimately show ?thesis using nothing_changes_before_staging by blast
qed

end
