(* ===== verification/Spec2Isabelle.thy ===== *)
theory Spec2Isabelle
  imports Wire Mux Rooms Session Throttle Registry Pairing_Code Pairing
    Lifecycle Tunnel Audit_Log Crashlog Uplink Ingress Control Calendar Room_Key Door
    Startup Daemon_Cli Doctor Relay_Http Relay_Config Management
    Service_Unit Service_Run Launch Install_Files Install
begin

text \<open>
  dr.dsh: remote access to one's own DSH (a local AI harness with a web interface), through a relay that
  only ever holds ciphertext. This is a model of the Rust crates under \<open>src/crates\<close>, translated function
  by function, with the theorems that make the program correct.

  THE PROGRAM. \<open>dr-dsh-daemon\<close> runs beside DSH: it starts or attaches to DSH on loopback, keeps one
  WebSocket (the carrier) to a relay, lets paired devices establish sealed sessions over it, and performs
  their HTTP requests and WebSockets against that DSH. \<open>dr-dsh-relay\<close> accepts carriers in rooms, forwards
  frames between the two roles of a room and serves the browser client's files. \<open>dr-dsh-crypto\<close> holds
  pairing, device identities, sealing and throttling; \<open>dr-dsh-proto\<close> the wire format and the messages.
  \<open>dr-dsh-cli\<close> installs, configures and runs both components as user services. The browser sends a frame
  to the relay, the relay to the daemon's carrier, the session opens it, the proxy service answers from
  DSH, and the answer goes back the same way; theory Tunnel follows it end to end.

  FOUNDATIONS. Prelude: machine integers as words, results as sums (\<open>Inl\<close> the error) with \<open>and_then\<close>,
  bytes and texts, decimals. Utf8, Text, Slices, Lines, Path_Text: what the code uses of strings, characters,
  addresses, lines and paths (\<open>std\<close>). Fs: the calls of \<open>std::fs\<close>, each of which may fail, and the locale
  \<open>durable\<close> of state kept in a file. Store: ordered and hashed maps and sets, locale \<open>store\<close>. Codec: locales
  of wire formats. Channel: locale \<open>ordered_channel\<close> of two ends in step. Machine: locales \<open>machine\<close> and
  \<open>guarded_machine\<close> of step relations with an invariant. Line_Log: locale \<open>journal\<close> of a file of lines. Json,
  Json_Value, Base64, Socket: contracts of \<open>serde_json\<close>, of base64url and of a WebSocket, with concrete
  instances that keep them. Host_Calls: actions that ask their host, and the rules \<open>only_rules\<close> about which
  calls an action makes.

  THE WIRE AND THE RELAY. Wire (\<open>proto/frame.rs\<close>, \<open>lib.rs\<close>): header, frame, streaming decoder; a stream of
  frames has one reading. Mux (\<open>proto/mux.rs\<close>): the stream table. Rooms (\<open>relay/rooms.rs\<close>): the hub, its
  registration, routing and leaving; the reachable hub never exceeds its bounds or mixes rooms. Ingress
  (\<open>relay/ingress.rs\<close>): announcement, parking, reader and writer of every connection, interleaved; the relay
  forwards exactly the bytes it read and forgets what leaves. Relay_Http (\<open>relay/assets.rs\<close> and the handlers
  of \<open>ingress.rs\<close>): the files it serves lie inside the client's directory. Relay_Config (\<open>relay/config.rs\<close>).

  IDENTITY AND SEALING. Session (\<open>crypto/session.rs\<close>): key schedule, sealing, nonces, the receiver's order.
  Pairing_Code and Pairing (\<open>crypto/pairing.rs\<close>, \<open>daemon/pairing.rs\<close>, display code of \<open>crypto/lib.rs\<close>): the
  exchange under the code; nobody enrols without the code. Throttle (\<open>crypto/throttle.rs\<close>): refines the history of
  attempts. Registry (\<open>crypto/device.rs\<close>, \<open>registry.rs\<close>): refines the history of enrolments and revocations.
  Room_Key (\<open>daemon/roomkey.rs\<close>): all runs of a daemon share one key, which is never replaced.

  THE DAEMON. Retry and Lifecycle (\<open>lifecycle.rs\<close>): restart delays and the driver of DSH as a machine that never
  loses its DSH. Ready and Supervisor (\<open>dsh/ready.rs\<close>, \<open>dsh/supervisor.rs\<close>): the line DSH prints, and starting
  it in time. Dsh_Client (\<open>dsh/client.rs\<close>), Proxy_Message and Proxy_Service (\<open>proxy/message.rs\<close>, \<open>service.rs\<close>):
  requests and WebSockets of a remote client, only ever against that DSH. Transport (\<open>transport.rs\<close>): the handshake
  and the carrier; no content without a proof. Uplink (\<open>uplink.rs\<close>): the reconnect loop. Audit_Log, Crashlog,
  Deployment (\<open>audit.rs\<close>, \<open>crashlog.rs\<close>, \<open>deployment.rs\<close>). Control (\<open>control.rs\<close> of proto and daemon): the
  control plane. Calendar, Operator and Door (\<open>lib.rs\<close>, \<open>state.rs\<close>): the operator's commands and what they mean
  for who is let in. Doctor (\<open>doctor.rs\<close>). Daemon_Cli (\<open>cli.rs\<close>) and Startup (\<open>run_command\<close> of \<open>lib.rs\<close>): from
  the command line to the running daemon, on loopback only.

  THE TOOL. Management (\<open>cli/management.rs\<close>): options, paths, the saved configuration and how it is made.
  Service_Unit and Service_Run (\<open>cli/service.rs\<close>): the text of a unit and the operations on a service.
  Install_Files (\<open>cli/files.rs\<close>) and Install (\<open>cli/install.rs\<close>, the dispatcher of \<open>management.rs\<close>): replacing files
  and components. Launch (\<open>cli/main.rs\<close>): names, arguments and the second stage. The theories compose: the
  command line in an installed unit reaches the parser of Daemon_Cli, its variables the reader of
  Relay_Config, as exactly the settings that were saved.

  HOW STATE AND OPERATIONS CORRESPOND. A struct is a record with the source's fields under a short prefix, an
  enum a datatype. A method that mutates returns the new record; a method of several effects is a step of a
  relation, or a list of effects in the order of the code. Concurrency of tasks is interleaving: a step per
  task, any order. Every error is a value, with what its message names. Integers keep their width where they
  can wrap or are bounded; \<open>usize\<close> has 64 bits. Texts are lists of UTF-8 bytes.

  WHAT LIES OUTSIDE. Cryptographic primitives, JSON, HTTP, WebSockets, the clock, the network, processes and
  the service manager are parameters: arguments of the definitions, with their documented behaviour as
  named hypotheses (\<open>value_contract\<close>, \<open>http_contract\<close>, the contracts of Session and Pairing), each of which a
  concrete instance satisfies in the witnesses. Fuel: the loops of the model end by themselves, being bounded by
  their input, but the wait for a stopped service (\<open>STOP_POLLS\<close>: 402 polls, one more than a deadline of 40
  seconds allows at a tenth of a second each, theorem \<open>stop_is_decided_in_time\<close>). Step relations have
  no bound: their theorems hold in every reachable state.

  NOT MODELLED. Printing, logging, help texts and the tokio runtime, which do not change what is computed; the
  constants of texts that only a person reads; \<open>pair_as_device_command\<close>, a test client; \<open>daemon/config.rs\<close>, types no
  code uses; the entry points that only start a runtime; \<open>dr-dsh-relayctl\<close>, the relay-only predecessor of the
  tool, whose files repeat those of \<open>dr-dsh-cli\<close> with the scope fixed; the TypeScript client, the
  DSH plugin and the scripts, another language; timing, memory exhaustion, and secrecy in the
  cryptographic sense, which the contracts of the primitives idealise.
\<close>

section \<open>Properties that span components\<close>

text \<open>
  C33. The daemon recognises the relay's release. The close message the relay writes when the last client
  of a room has left is the one the daemon's loop reads as a released session, and the close written
  to a peer that cannot keep up is not taken for it, with any JSON reader that reads an object of
  plain strings.
\<close>

theorem release_is_recognised:
  assumes "value_contract V"
  shows "released_by_relay V (TrSessionEnded (close_text SESSION_OVER))
    \<and> \<not> released_by_relay V (TrSessionEnded (close_text ''peer is not keeping up''))"
proof -
  have r: "released_by_relay V (TrSessionEnded (close_text reason)) \<longleftrightarrow> reason = SESSION_OVER" if "plain_name reason" for reason
  proof -
    let ?fs = "[(''type'', FName ''close''), (''reason'', FName reason)]"
    have names: "plain_name ''type''" "plain_name ''close''" "plain_name ''reason''" by code_simp+
    have "object_text V ?fs = Some (close_text reason)"
      using that by (simp add: object_text_def names close_text_def)
    then obtain v where v: "vl_parse V (close_text reason) = Some v" "\<And>k. reads_field V (vl_get V v k) (map_of ?fs k)"
      by (rule value_contract_object [OF assms]) simp_all
    have "reads_field V (vl_get V v ''type'') (Some (FName ''close''))"
      "reads_field V (vl_get V v ''reason'') (Some (FName reason))"
      using v(2) [of "''type''"] v(2) [of "''reason''"] by simp_all
    then have "\<exists>x. vl_get V v ''type'' = Some x \<and> vl_str V x = Some ''close''"
      "\<exists>y. vl_get V v ''reason'' = Some y \<and> vl_str V y = Some reason"
      by (simp_all add: reads_field_def) blast+
    then obtain x y where "vl_get V v ''type'' = Some x" "vl_str V x = Some ''close''"
      "vl_get V v ''reason'' = Some y" "vl_str V y = Some reason" by blast
    then show ?thesis using v(1) by (simp add: released_by_relay_def)
  qed
  have "plain_name SESSION_OVER" "plain_name ''peer is not keeping up''" by code_simp+
  moreover have "''peer is not keeping up'' \<noteq> SESSION_OVER" by (simp add: SESSION_OVER_def)
  ultimately show ?thesis using r by simp
qed

theorem release_is_recognised_witness:
  "released_by_relay demo_values (TrSessionEnded (close_text ''session over''))"
  using release_is_recognised [OF demo_values_contract] by (simp add: SESSION_OVER_def)

end
